(* ===== verification/Prelude.thy ===== *)
theory Prelude
  imports Main "HOL-Library.Word"
begin

text \<open>
  The vocabulary shared by the components of the Azure development: machine
  types, results of fallible code, \<open>size_t\<close> subtraction, \<open>memcpy\<close> on lists and
  the collection \<open>azure_simps\<close> of rewrite rules the component proofs use.
\<close>

unbundle bit_operations_syntax

named_theorems azure_simps \<open>rewrite rules shared by the component proofs\<close>

type_synonym byte = "8 word"
type_synonym u16 = "16 word"
type_synonym u32 = "32 word"
type_synonym u64 = "64 word"

section \<open>Results of code that can fail\<close>

text \<open>
  A C++ function that may throw, abort or dereference a null pointer returns a
  value of \<open>'e + 'a\<close>: \<open>Inl\<close> for the failure, \<open>Inr\<close> for the result.
\<close>

definition bind_res :: "'e + 'a \<Rightarrow> ('a \<Rightarrow> 'e + 'b) \<Rightarrow> 'e + 'b" where
  "bind_res r f = (case r of Inl e \<Rightarrow> Inl e | Inr x \<Rightarrow> f x)"

lemma bind_res_simps [simp]:
  "bind_res (Inl e) f = Inl e"
  "bind_res (Inr x) f = f x"
  by (simp_all add: bind_res_def)

lemma bind_res_eq_Inr [azure_simps]:
  "bind_res r f = Inr y \<longleftrightarrow> (\<exists>x. r = Inr x \<and> f x = Inr y)"
  by (cases r) simp_all

lemma bind_res_assoc: "bind_res (bind_res r f) g = bind_res r (\<lambda>x. bind_res (f x) g)"
  by (cases r) simp_all

section \<open>Unsigned subtraction of \<open>size_t\<close> values\<close>

text \<open>
  Sizes are natural numbers; the one operation of the source that can leave
  their range, \<open>a - b\<close> with \<open>a < b\<close>, wraps around at \<open>2 ^ 64\<close>.
\<close>

definition size_sub :: "nat \<Rightarrow> nat \<Rightarrow> nat" where
  "size_sub a b = (if b \<le> a then a - b else 2 ^ 64 + a - b)"

lemma size_sub_le [simp]: "b \<le> a \<Longrightarrow> size_sub a b = a - b"
  by (simp add: size_sub_def)

lemma size_sub_wraps: "a < b \<Longrightarrow> b < 2 ^ 64 \<Longrightarrow> size_sub a b = 2 ^ 64 - (b - a)"
  by (simp add: size_sub_def)

section \<open>Copying into a buffer\<close>

text \<open>\<open>list_write xs i ys\<close> is the buffer \<open>xs\<close> after \<open>memcpy (xs + i, ys, size of ys)\<close>.\<close>

definition list_write :: "'a list \<Rightarrow> nat \<Rightarrow> 'a list \<Rightarrow> 'a list" where
  "list_write xs i ys = take i xs @ ys @ drop (i + length ys) xs"

lemma list_write_Nil [simp]: "list_write xs i [] = xs"
  by (simp add: list_write_def)

lemma length_list_write [simp]:
  "i + length ys \<le> length xs \<Longrightarrow> length (list_write xs i ys) = length xs"
  by (simp add: list_write_def)

lemma nth_list_write:
  assumes "i + length ys \<le> length xs" and "k < length xs"
  shows "list_write xs i ys ! k = (if i \<le> k \<and> k < i + length ys then ys ! (k - i) else xs ! k)"
  using assms by (auto simp: list_write_def nth_append)

lemma list_write_append:
  assumes "i + length ys + length zs \<le> length xs"
  shows "list_write (list_write xs i ys) (i + length ys) zs = list_write xs i (ys @ zs)"
  using assms
  by (intro nth_equalityI) (auto simp: nth_list_write nth_append)

lemma take_drop_list_write:
  assumes "i + length ys \<le> length xs"
  shows "take (length ys) (drop i (list_write xs i ys)) = ys"
  using assms by (simp add: list_write_def)

lemma list_write_whole_append:
  assumes "i + length ys \<le> length xs"
  shows "list_write (ps @ xs @ qs) (length ps + i) ys = ps @ list_write xs i ys @ qs"
  using assms by (simp add: list_write_def)

text \<open>Overwriting at \<open>p\<close> inside or at the end of the first \<open>s\<close> elements, seen from those elements.\<close>

lemma take_list_write:
  assumes "p \<le> s" and "s \<le> length xs"
  shows "take (max s (p + length ys)) (list_write (xs @ zs) p ys)
    = take p (take s xs) @ ys @ drop (p + length ys) (take s xs)"
proof (cases "p + length ys \<le> s")
  case True
  then have "max s (p + length ys) = p + length ys + (s - (p + length ys))" by simp
  then show ?thesis using True assms by (simp add: list_write_def drop_take)
next
  case False
  then have "max s (p + length ys) = p + length ys" by simp
  then show ?thesis using False assms by (simp add: list_write_def)
qed

section \<open>Equal blocks\<close>

text \<open>
  A list of blocks of one size, read as the concatenation of its blocks: index
  arithmetic of the block list against index arithmetic of the flat list.
\<close>

lemma length_concat_equal:
  "\<forall>n\<in>set ns. length n = s \<Longrightarrow> length (concat ns) = s * length ns"
  by (induction ns) auto

lemma concat_drop_equal:
  assumes "\<forall>n\<in>set ns. length n = s"
  shows "drop (s * c) (concat ns) = concat (drop c ns)"
  using assms
proof (induction ns arbitrary: c)
  case Nil
  then show ?case by simp
next
  case (Cons n ns)
  then show ?case by (cases c) auto
qed

lemma concat_take_equal:
  assumes "\<forall>n\<in>set ns. length n = s"
  shows "take (s * c) (concat ns) = concat (take c ns)"
  using assms
proof (induction ns arbitrary: c)
  case Nil
  then show ?case by simp
next
  case (Cons n ns)
  then show ?case by (cases c) auto
qed

lemma concat_update_equal:
  assumes "\<forall>n\<in>set ns. length n = s" and "c < length ns" and "i + length ys \<le> s"
  shows "concat (ns[c := list_write (ns ! c) i ys]) = list_write (concat ns) (s * c + i) ys"
proof -
  have split: "concat ns = concat (take c ns) @ ns ! c @ concat (drop (Suc c) ns)"
    using assms(2) by (metis concat.simps(2) concat_append id_take_nth_drop)
  have len: "length (concat (take c ns)) = s * c"
    using assms(1,2) by (subst length_concat_equal [where s = s]) (auto dest: in_set_takeD)
  have "length (ns ! c) = s" using assms(1,2) by simp
  then have "list_write (concat ns) (s * c + i) ys
      = concat (take c ns) @ list_write (ns ! c) i ys @ concat (drop (Suc c) ns)"
    using assms(3) by (subst split, subst len [symmetric]) (simp add: list_write_whole_append)
  then show ?thesis
    using assms(2) by (simp add: upd_conv_take_nth_drop)
qed

section \<open>Decimal and hexadecimal output\<close>

text \<open>The digits an \<open>ostream\<close> prints for an unsigned number in base \<open>b\<close>.\<close>

definition digit_char :: "nat \<Rightarrow> char" where
  "digit_char d = ''0123456789abcdef'' ! (d mod 16)"

function show_base :: "nat \<Rightarrow> nat \<Rightarrow> string" where
  "show_base b n =
     (if n < b \<or> b \<le> 1 then [digit_char n] else show_base b (n div b) @ [digit_char (n mod b)])"
  by pat_completeness auto
termination
  by (relation "measure snd") auto

declare show_base.simps [simp del]

definition show_dec :: "nat \<Rightarrow> string" where
  "show_dec n = show_base 10 n"

definition show_hex :: "nat \<Rightarrow> string" where
  "show_hex n = show_base 16 n"

definition show_int :: "int \<Rightarrow> string" where
  "show_int i = (if i < 0 then ''-'' @ show_dec (nat (- i)) else show_dec (nat i))"

text \<open>The characters of printed numbers.\<close>

definition digit_set :: "char set" where "digit_set = set ''0123456789abcdef''"

lemma set_show_base: "set (show_base b n) \<subseteq> digit_set"
proof (induction b n rule: show_base.induct)
  case (1 b n)
  have "digit_char m \<in> digit_set" for m
    unfolding digit_char_def digit_set_def by (rule nth_mem) simp
  with 1 show ?case by (subst show_base.simps) simp
qed

lemma show_base_Nil [simp]: "show_base b n \<noteq> []"
  by (subst show_base.simps) simp

end
