(* ===== verification/Byte_Cursor.thy ===== *)
theory Byte_Cursor
  imports Prelude
begin

text \<open>
  The contract between a byte buffer with a position and the codecs written on top
  of it (\<open>writeFint32\<close>, \<open>readUint64\<close>, \<open>readStringF16\<close>, ...): the buffer is a byte
  list \<open>data\<close> and a position \<open>pos\<close>; \<open>wr\<close> overwrites or extends the data at the
  position, \<open>rd\<close> returns the bytes at the position, \<open>seek\<close> moves it. \<open>mode\<close> is
  whatever else of the buffer the codec depends on and no operation changes.
\<close>

locale byte_cursor =
  fixes inv :: "'b \<Rightarrow> bool"
    and data :: "'b \<Rightarrow> byte list"
    and pos :: "'b \<Rightarrow> nat"
    and mode :: "'b \<Rightarrow> 'm"
    and wr :: "'b \<Rightarrow> byte list \<Rightarrow> 'e + 'b"
    and rd :: "'b \<Rightarrow> nat \<Rightarrow> 'e + byte list \<times> 'b"
    and seek :: "'b \<Rightarrow> nat \<Rightarrow> 'e + 'b"
  assumes pos_le: "inv b \<Longrightarrow> pos b \<le> length (data b)"
    and wr_law: "inv b \<Longrightarrow> \<exists>b'. wr b xs = Inr b' \<and> inv b' \<and> mode b' = mode b \<and>
          pos b' = pos b + length xs \<and>
          data b' = take (pos b) (data b) @ xs @ drop (pos b + length xs) (data b)"
    and rd_law: "inv b \<Longrightarrow> 0 < n \<Longrightarrow> pos b + n \<le> length (data b) \<Longrightarrow>
          \<exists>b'. rd b n = Inr (take n (drop (pos b) (data b)), b') \<and> inv b' \<and> mode b' = mode b \<and>
            pos b' = pos b + n \<and> data b' = data b"
    and seek_law: "inv b \<Longrightarrow> p \<le> length (data b) \<Longrightarrow>
          \<exists>b'. seek b p = Inr b' \<and> inv b' \<and> mode b' = mode b \<and> pos b' = p \<and> data b' = data b"
begin

definition ahead :: "'b \<Rightarrow> byte list" where
  "ahead b = drop (pos b) (data b)"

lemma rd_ahead:
  assumes "inv b" and "ahead b = xs @ ys" and "xs \<noteq> []"
  obtains b' where "rd b (length xs) = Inr (xs, b')" and "inv b'" and "mode b' = mode b"
    and "ahead b' = ys"
proof -
  have "length (data b) - pos b = length xs + length ys"
    using arg_cong [OF assms(2), of length] by (simp add: ahead_def)
  then have room: "pos b + length xs \<le> length (data b)"
    using pos_le [OF assms(1)] by linarith
  obtain b' where b': "rd b (length xs) = Inr (take (length xs) (drop (pos b) (data b)), b')"
    "inv b'" "mode b' = mode b" "pos b' = pos b + length xs" "data b' = data b"
    using rd_law [OF assms(1) _ room] assms(3) by auto
  have "ahead b' = drop (length xs) (ahead b)"
    using b'(4,5) by (simp add: ahead_def add.commute)
  then have "ahead b' = ys" using assms(2) by simp
  moreover have "rd b (length xs) = Inr (xs, b')" using b'(1) assms(2) by (simp add: ahead_def)
  ultimately show thesis using that b'(2,3) by blast
qed

text \<open>
  Decoders. \<open>reads dec m bs x\<close>: in every buffer of mode \<open>m\<close> whose bytes ahead begin with
  \<open>bs\<close>, the decoder \<open>dec\<close> returns \<open>x\<close> and moves past exactly \<open>bs\<close>.
\<close>

definition reads :: "('b \<Rightarrow> 'e + 'a \<times> 'b) \<Rightarrow> 'm \<Rightarrow> byte list \<Rightarrow> 'a \<Rightarrow> bool" where
  "reads dec m bs x \<longleftrightarrow> (\<forall>b rest. inv b \<longrightarrow> mode b = m \<longrightarrow> ahead b = bs @ rest \<longrightarrow>
     (\<exists>b'. dec b = Inr (x, b') \<and> inv b' \<and> mode b' = m \<and> ahead b' = rest))"

lemma reads_rd:
  assumes "n = length bs" and "bs \<noteq> []"
  shows "reads (\<lambda>b. rd b n) m bs bs"
  unfolding reads_def assms(1) by (intro allI impI) (rule rd_ahead [OF _ _ assms(2)], auto)

lemma reads_return: "reads (\<lambda>b. Inr (x, b)) m [] x"
  by (simp add: reads_def)

lemma reads_bind:
  assumes "reads d m bs x" and "reads (f x) m cs y"
  shows "reads (\<lambda>b. bind_res (d b) (\<lambda>(x, b'). f x b')) m (bs @ cs) y"
  unfolding reads_def
proof (intro allI impI)
  fix b rest
  assume b: "inv b" "mode b = m" "ahead b = (bs @ cs) @ rest"
  obtain b1 where b1: "d b = Inr (x, b1)" "inv b1" "mode b1 = m" "ahead b1 = cs @ rest"
    using assms(1) b unfolding reads_def by (metis append.assoc)
  obtain b2 where "f x b1 = Inr (y, b2)" "inv b2" "mode b2 = m" "ahead b2 = rest"
    using assms(2) b1(2-) unfolding reads_def by blast
  then show "\<exists>b'. bind_res (d b) (\<lambda>(x, b'). f x b') = Inr (y, b') \<and> inv b' \<and> mode b' = m \<and> ahead b' = rest"
    using b1(1) by simp
qed

lemma reads_map:
  assumes "reads d m bs x" and "y = g x"
  shows "reads (\<lambda>b. bind_res (d b) (\<lambda>(x, b'). Inr (g x, b'))) m bs y"
  using reads_bind [OF assms(1), of "\<lambda>x b'. Inr (g x, b')" "[]" y] assms(2)
  by (simp add: reads_return)

lemma reads_cong: "reads d m bs x \<Longrightarrow> (\<And>b. mode b = m \<Longrightarrow> d b = d' b) \<Longrightarrow> reads d' m bs x"
  by (simp add: reads_def)

text \<open>
  Encoders. \<open>writes enc m bs\<close>: on every buffer of mode \<open>m\<close> the encoder \<open>enc\<close> puts exactly the
  bytes \<open>bs\<close> at the position and moves past them.
\<close>

definition writes :: "('b \<Rightarrow> 'e + 'b) \<Rightarrow> 'm \<Rightarrow> byte list \<Rightarrow> bool" where
  "writes enc m bs \<longleftrightarrow> (\<forall>b. inv b \<longrightarrow> mode b = m \<longrightarrow>
     (\<exists>b'. enc b = Inr b' \<and> inv b' \<and> mode b' = m \<and> pos b' = pos b + length bs \<and>
        data b' = take (pos b) (data b) @ bs @ drop (pos b + length bs) (data b)))"

lemma writes_wr: "writes (\<lambda>b. wr b bs) m bs"
  unfolding writes_def by (metis wr_law)

lemma writes_cong: "writes e m bs \<Longrightarrow> (\<And>b. mode b = m \<Longrightarrow> e b = e' b) \<Longrightarrow> writes e' m bs"
  by (simp add: writes_def)

lemma writes_seq:
  assumes "writes e m xs" and "writes f m ys"
  shows "writes (\<lambda>b. bind_res (e b) f) m (xs @ ys)"
  unfolding writes_def
proof (intro allI impI)
  fix b
  assume b: "inv b" "mode b = m"
  obtain b1 where b1: "e b = Inr b1" "inv b1" "mode b1 = m" "pos b1 = pos b + length xs"
    "data b1 = take (pos b) (data b) @ xs @ drop (pos b + length xs) (data b)"
    using assms(1) b unfolding writes_def by blast
  obtain b2 where b2: "f b1 = Inr b2" "inv b2" "mode b2 = m" "pos b2 = pos b1 + length ys"
    "data b2 = take (pos b1) (data b1) @ ys @ drop (pos b1 + length ys) (data b1)"
    using assms(2) b1(2,3) unfolding writes_def by blast
  have "min (length (data b)) (pos b) = pos b" using pos_le [OF b(1)] by simp
  then show "\<exists>b'. bind_res (e b) f = Inr b' \<and> inv b' \<and> mode b' = m \<and> pos b' = pos b + length (xs @ ys) \<and>
      data b' = take (pos b) (data b) @ (xs @ ys) @ drop (pos b + length (xs @ ys)) (data b)"
    using b1 b2 by (simp add: add.assoc add.commute add.left_commute)
qed

text \<open>Write, seek back, decode: the round trip of every codec.\<close>

lemma writes_reads:
  assumes "inv b" and "writes enc (mode b) bs" and "reads dec (mode b) bs x"
  obtains b1 b2 b3 where "enc b = Inr b1" and "seek b1 (pos b) = Inr b2" and "dec b2 = Inr (x, b3)"
    and "inv b3" and "pos b1 = pos b + length bs" and "ahead b3 = drop (length bs) (ahead b)"
proof -
  obtain b1 where b1: "enc b = Inr b1" "inv b1" "mode b1 = mode b" "pos b1 = pos b + length bs"
    "data b1 = take (pos b) (data b) @ bs @ drop (pos b + length bs) (data b)"
    using assms(1,2) unfolding writes_def by blast
  have len: "length (take (pos b) (data b)) = pos b" using pos_le [OF assms(1)] by simp
  then have "pos b \<le> length (data b1)" by (simp add: b1(5))
  from seek_law [OF b1(2) this] obtain b2 where b2: "seek b1 (pos b) = Inr b2"
    "inv b2" "mode b2 = mode b1" "pos b2 = pos b" "data b2 = data b1" by auto
  have "ahead b2 = bs @ drop (length bs) (ahead b)"
    using b1(5) b2(4,5) len by (simp add: ahead_def add.commute)
  then obtain b3 where "dec b2 = Inr (x, b3)" "inv b3" "ahead b3 = drop (length bs) (ahead b)"
    using assms(3) b2(2,3) b1(3) unfolding reads_def by metis
  then show thesis using that b1(1,4) b2(1) by blast
qed

end

end
