(* ===== verification/Byte_Array.thy ===== *)
theory Byte_Array
  imports Prelude Byte_Cursor
begin

text \<open>
  The buffer of \<open>src/bytearray.cpp\<close>: a linked list of equally sized nodes with a
  read/write position. A node is the list of its bytes, the linked list is the
  list \<open>m_nodes\<close> (its head is \<open>m_root\<close>), and the pointer \<open>m_cur\<close> is the index of
  the node it points to, with \<open>None\<close> for \<open>nullptr\<close>.

  A failure is a value: \<open>OutOfRange\<close> for the \<open>std::out_of_range\<close> the code throws,
  \<open>NullDeref\<close> for a member access through a null node, \<open>BadCopy\<close> for a \<open>memcpy\<close>
  outside a node, \<open>DivZero\<close> for \<open>m_position % m_basesize\<close> with a zero base and
  \<open>Diverges\<close> for a loop that never ends (\<open>readFromFile\<close> with a zero base).
  The content of a fresh \<open>new char[s]\<close> is not specified by C++: it is the
  arbitrary function \<open>m_fresh\<close> of the buffer offset.
\<close>

section \<open>State\<close>

datatype ba_error = OutOfRange string | NullDeref | BadCopy | DivZero | Diverges

datatype endian = Little | Big

record byte_array =
  m_basesize :: nat
  m_position :: nat
  m_capacity :: nat
  m_size :: nat
  m_endian :: endian
  m_nodes :: "byte list list"
  m_cur :: "nat option"
  m_fresh :: "nat \<Rightarrow> byte"

text \<open>\<open>Node::Node (size_t s)\<close>: the \<open>i\<close>-th node of the list.\<close>

definition new_node :: "(nat \<Rightarrow> byte) \<Rightarrow> nat \<Rightarrow> nat \<Rightarrow> byte list" where
  "new_node fresh i s = map (\<lambda>j. fresh (i * s + j)) [0..<s]"

definition byte_array_new :: "(nat \<Rightarrow> byte) \<Rightarrow> nat \<Rightarrow> byte_array" where
  "byte_array_new fresh basesize =
     \<lparr>m_basesize = basesize, m_position = 0, m_capacity = basesize, m_size = 0,
      m_endian = Big, m_nodes = [new_node fresh 0 basesize], m_cur = Some 0, m_fresh = fresh\<rparr>"

definition isLittleEndian :: "byte_array \<Rightarrow> bool" where
  "isLittleEndian b \<longleftrightarrow> m_endian b = Little"

definition setIsLittleEndian :: "byte_array \<Rightarrow> bool \<Rightarrow> byte_array" where
  "setIsLittleEndian b val = b\<lparr>m_endian := (if val then Little else Big)\<rparr>"

definition getReadSize :: "byte_array \<Rightarrow> nat" where
  "getReadSize b = size_sub (m_size b) (m_position b)"

definition getCapacity :: "byte_array \<Rightarrow> nat" where
  "getCapacity b = size_sub (m_capacity b) (m_position b)"

section \<open>Nodes\<close>

text \<open>\<open>m_cur->next\<close> and \<open>m_cur->size\<close>.\<close>

definition node_next :: "byte_array \<Rightarrow> nat \<Rightarrow> nat option" where
  "node_next b c = (if Suc c < length (m_nodes b) then Some (Suc c) else None)"

definition node_size :: "byte_array \<Rightarrow> nat \<Rightarrow> nat" where
  "node_size b c = length (m_nodes b ! c)"

text \<open>\<open>memcpy\<close> into and out of the node with index \<open>c\<close>.\<close>

definition node_put :: "byte_array \<Rightarrow> nat \<Rightarrow> nat \<Rightarrow> byte list \<Rightarrow> ba_error + byte_array" where
  "node_put b c off bs =
     (if off + length bs \<le> node_size b c
      then Inr (b\<lparr>m_nodes := (m_nodes b)[c := list_write (m_nodes b ! c) off bs]\<rparr>)
      else Inl BadCopy)"

definition node_get :: "byte_array \<Rightarrow> nat \<Rightarrow> nat \<Rightarrow> nat \<Rightarrow> ba_error + byte list" where
  "node_get b c off n =
     (if off + n \<le> node_size b c then Inr (take n (drop off (m_nodes b ! c))) else Inl BadCopy)"

section \<open>Operations\<close>

text \<open>
  \<open>clear\<close> keeps the first node and frees the others.
\<close>

definition clear :: "byte_array \<Rightarrow> byte_array" where
  "clear b = b\<lparr>m_position := 0, m_size := 0, m_capacity := m_basesize b,
               m_nodes := take 1 (m_nodes b), m_cur := Some 0\<rparr>"

text \<open>
  \<open>addCapacity\<close> appends \<open>ceil (1.0 * size / m_basesize)\<close> nodes at the end of the
  list and, when the old capacity was used up, points \<open>m_cur\<close> at the first of them.
\<close>

definition ceil_div :: "nat \<Rightarrow> nat \<Rightarrow> nat" where
  "ceil_div a b = (a + b - 1) div b"

definition addCapacity :: "byte_array \<Rightarrow> nat \<Rightarrow> byte_array" where
  "addCapacity b sz =
     (if sz = 0 then b
      else let old_cap = getCapacity b in
        if sz \<le> old_cap then b
        else
          let count = ceil_div (sz - old_cap) (m_basesize b);
              k = length (m_nodes b);
              fresh = map (\<lambda>i. new_node (m_fresh b) (k + i) (m_basesize b)) [0..<count]
          in b\<lparr>m_nodes := m_nodes b @ fresh,
               m_capacity := m_capacity b + count * m_basesize b,
               m_cur := (if old_cap = 0 then (if count = 0 then None else Some k) else m_cur b)\<rparr>)"

text \<open>
  The copy loop of \<open>write\<close>: \<open>npos\<close> is the offset in the current node, \<open>ncap\<close> what is
  left of it, \<open>buf\<close> the bytes still to copy.
\<close>

function write_loop :: "byte_array \<Rightarrow> nat \<Rightarrow> nat \<Rightarrow> byte list \<Rightarrow> ba_error + byte_array" where
  "write_loop b npos ncap buf =
     (if buf = [] then Inr b
      else case m_cur b of
        None \<Rightarrow> Inl NullDeref
      | Some c \<Rightarrow>
          if length buf \<le> ncap
          then bind_res (node_put b c npos buf) (\<lambda>b'.
                 Inr (b'\<lparr>m_cur := (if node_size b c = npos + length buf then node_next b c else Some c),
                         m_position := m_position b + length buf\<rparr>))
          else (case node_put b c npos (take ncap buf) of
                  Inl e \<Rightarrow> Inl e
                | Inr b' \<Rightarrow>
                    (case node_next b c of
                       None \<Rightarrow> Inl NullDeref
                     | Some c' \<Rightarrow>
                         write_loop (b'\<lparr>m_cur := Some c', m_position := m_position b + ncap\<rparr>)
                           0 (node_size b' c') (drop ncap buf))))"
  by pat_completeness auto
termination
  by (relation "measure (\<lambda>(b, _, _, _). length (m_nodes b) - (case m_cur b of None \<Rightarrow> 0 | Some c \<Rightarrow> c))")
     (auto simp: node_next_def node_put_def split: if_splits)

declare write_loop.simps [simp del]

definition ba_write :: "byte_array \<Rightarrow> byte list \<Rightarrow> ba_error + byte_array" where
  "ba_write b buf =
     (if buf = [] then Inr b
      else let b1 = addCapacity b (length buf) in
        if m_basesize b1 = 0 then Inl DivZero
        else let npos = m_position b1 mod m_basesize b1 in
          (case m_cur b1 of
             None \<Rightarrow> Inl NullDeref
           | Some c \<Rightarrow>
               bind_res (write_loop b1 npos (size_sub (node_size b1 c) npos) buf) (\<lambda>b2.
                 Inr (if m_size b2 < m_position b2 then b2\<lparr>m_size := m_position b2\<rparr> else b2))))"

text \<open>
  The copy loop shared by the two \<open>read\<close> methods: from the node \<open>cur\<close>, at offset
  \<open>npos\<close>, with \<open>ncap\<close> bytes left in the node, \<open>size\<close> bytes are copied. The result
  is the bytes and the node pointer at the end.
\<close>

function read_loop :: "byte_array \<Rightarrow> nat option \<Rightarrow> nat \<Rightarrow> nat \<Rightarrow> nat
    \<Rightarrow> ba_error + byte list \<times> nat option" where
  "read_loop b cur npos ncap sz =
     (if sz = 0 then Inr ([], cur)
      else case cur of
        None \<Rightarrow> Inl NullDeref
      | Some c \<Rightarrow>
          if sz \<le> ncap
          then bind_res (node_get b c npos sz) (\<lambda>bs.
                 Inr (bs, if node_size b c = npos + sz then node_next b c else Some c))
          else (case node_get b c npos ncap of
                  Inl e \<Rightarrow> Inl e
                | Inr bs \<Rightarrow>
                    (case node_next b c of
                       None \<Rightarrow> Inl NullDeref
                     | Some c' \<Rightarrow>
                         bind_res (read_loop b (Some c') 0 (node_size b c') (sz - ncap)) (\<lambda>(bs', cur').
                           Inr (bs @ bs', cur')))))"
  by pat_completeness auto
termination
  by (relation "measure (\<lambda>(b, cur, _, _, _). length (m_nodes b) - (case cur of None \<Rightarrow> 0 | Some c \<Rightarrow> c))")
     (auto simp: node_next_def split: if_splits)

declare read_loop.simps [simp del]

definition ba_read :: "byte_array \<Rightarrow> nat \<Rightarrow> ba_error + byte list \<times> byte_array" where
  "ba_read b sz =
     (if getReadSize b < sz then Inl (OutOfRange ''not enough len'')
      else if m_basesize b = 0 then Inl DivZero
      else let npos = m_position b mod m_basesize b in
        (case m_cur b of
           None \<Rightarrow> Inl NullDeref
         | Some c \<Rightarrow>
             bind_res (read_loop b (Some c) npos (size_sub (node_size b c) npos) sz) (\<lambda>(bs, cur').
               Inr (bs, b\<lparr>m_cur := cur', m_position := m_position b + sz\<rparr>))))"

text \<open>
  \<open>read (buf, size, position) const\<close>: the offset comes from \<open>position\<close>, the first
  node from \<open>m_cur\<close>.
\<close>

definition ba_read_at :: "byte_array \<Rightarrow> nat \<Rightarrow> nat \<Rightarrow> ba_error + byte list" where
  "ba_read_at b sz position =
     (if size_sub (m_size b) position < sz then Inl (OutOfRange ''not enough len'')
      else if m_basesize b = 0 then Inl DivZero
      else let npos = position mod m_basesize b in
        (case m_cur b of
           None \<Rightarrow> Inl NullDeref
         | Some c \<Rightarrow>
             bind_res (read_loop b (Some c) npos (size_sub (node_size b c) npos) sz) (\<lambda>(bs, _). Inr bs)))"

text \<open>The loop of \<open>setPosition\<close> that walks from \<open>m_root\<close> to the node of offset \<open>v\<close>.\<close>

function seek_loop :: "byte_array \<Rightarrow> nat \<Rightarrow> nat \<Rightarrow> ba_error + nat option" where
  "seek_loop b c v =
     (if node_size b c < v
      then (case node_next b c of
              None \<Rightarrow> Inl NullDeref
            | Some c' \<Rightarrow> seek_loop b c' (v - node_size b c))
      else if v = node_size b c then Inr (node_next b c)
      else Inr (Some c))"
  by pat_completeness auto
termination
  by (relation "measure (\<lambda>(b, c, _). length (m_nodes b) - c)")
     (auto simp: node_next_def split: if_splits)

declare seek_loop.simps [simp del]

definition setPosition :: "byte_array \<Rightarrow> nat \<Rightarrow> ba_error + byte_array" where
  "setPosition b v =
     (if m_capacity b < v then Inl (OutOfRange ''setPosition out of range'')
      else let b1 = b\<lparr>m_position := v, m_size := (if m_size b < v then v else m_size b)\<rparr> in
        bind_res (seek_loop b1 0 v) (\<lambda>cur. Inr (b1\<lparr>m_cur := cur\<rparr>)))"

definition ba_toString :: "byte_array \<Rightarrow> ba_error + byte list" where
  "ba_toString b =
     (if getReadSize b = 0 then Inr [] else ba_read_at b (getReadSize b) (m_position b))"

section \<open>Invariant and abstraction\<close>

text \<open>
  \<open>cursor_at b p\<close> is the node pointer that belongs to the position \<open>p\<close>: the node that
  holds the next byte, and \<open>nullptr\<close> when the position is the end of the capacity.
\<close>

definition cursor_at :: "byte_array \<Rightarrow> nat \<Rightarrow> nat option" where
  "cursor_at b p = (if p = m_basesize b * length (m_nodes b) then None else Some (p div m_basesize b))"

definition nodes_ok :: "byte_array \<Rightarrow> bool" where
  "nodes_ok b \<longleftrightarrow> 0 < m_basesize b \<and> m_nodes b \<noteq> [] \<and>
     list_all (\<lambda>n. length n = m_basesize b) (m_nodes b) \<and>
     m_capacity b = m_basesize b * length (m_nodes b)"

definition ba_inv :: "byte_array \<Rightarrow> bool" where
  "ba_inv b \<longleftrightarrow> nodes_ok b \<and> m_position b \<le> m_size b \<and> m_size b \<le> m_capacity b \<and>
     m_cur b = cursor_at b (m_position b)"

text \<open>The bytes of all nodes in order, and the bytes below \<open>m_size\<close>.\<close>

definition ba_flat :: "byte_array \<Rightarrow> byte list" where
  "ba_flat b = concat (m_nodes b)"

definition ba_data :: "byte_array \<Rightarrow> byte list" where
  "ba_data b = take (m_size b) (ba_flat b)"

lemma nodes_okD:
  assumes "nodes_ok b"
  shows "0 < m_basesize b" and "m_nodes b \<noteq> []"
    and "\<forall>n\<in>set (m_nodes b). length n = m_basesize b"
    and "m_capacity b = m_basesize b * length (m_nodes b)"
    and "\<And>c. c < length (m_nodes b) \<Longrightarrow> node_size b c = m_basesize b"
  using assms by (auto simp: nodes_ok_def list_all_iff node_size_def)

lemma length_ba_flat: "nodes_ok b \<Longrightarrow> length (ba_flat b) = m_capacity b"
  using length_concat_equal [of "m_nodes b" "m_basesize b"]
  by (simp add: nodes_ok_def ba_flat_def list_all_iff)

lemma length_ba_data: "ba_inv b \<Longrightarrow> length (ba_data b) = m_size b"
  by (simp add: ba_data_def ba_inv_def length_ba_flat)

lemma ba_inv_new: "0 < bs \<Longrightarrow> ba_inv (byte_array_new fresh bs)"
  by (simp add: ba_inv_def nodes_ok_def byte_array_new_def cursor_at_def new_node_def)

lemma cursor_at_split:
  assumes "0 < m_basesize b" and "c < length (m_nodes b)" and "i \<le> m_basesize b"
  shows "cursor_at b (m_basesize b * c + i) = (if i = m_basesize b then node_next b c else Some c)"
proof (cases "i = m_basesize b")
  case True
  then have eq: "m_basesize b * c + i = m_basesize b * Suc c" by simp
  have "(m_basesize b * Suc c = m_basesize b * length (m_nodes b)) = (Suc c = length (m_nodes b))"
    using assms(1) by (simp del: mult_Suc_right)
  moreover have "m_basesize b * Suc c div m_basesize b = Suc c"
    using assms(1) by simp
  ultimately show ?thesis using assms(2) True unfolding cursor_at_def eq node_next_def by auto
next
  case False
  then have i: "i < m_basesize b" using assms(3) by simp
  have "m_basesize b * c + i < m_basesize b * Suc c" using i by simp
  also have "\<dots> \<le> m_basesize b * length (m_nodes b)" using assms(2) by (intro mult_le_mono) auto
  finally have "m_basesize b * c + i \<noteq> m_basesize b * length (m_nodes b)" by simp
  moreover have "(m_basesize b * c + i) div m_basesize b = c" using i assms(1) by simp
  ultimately show ?thesis using False by (simp add: cursor_at_def)
qed

section \<open>Correctness of the operations\<close>

lemma ceil_div_mult: "0 < b \<Longrightarrow> a \<le> ceil_div a b * b"
proof -
  assume b: "0 < b"
  have "(a + b - 1) mod b < b" using b by simp
  moreover have "(a + b - 1) = (a + b - 1) div b * b + (a + b - 1) mod b" by simp
  ultimately show ?thesis unfolding ceil_div_def using b by linarith
qed

lemma ceil_div_least: "0 < b \<Longrightarrow> 0 < a \<Longrightarrow> (ceil_div a b - 1) * b < a"
proof -
  assume b: "0 < b" and a: "0 < a"
  have "(a + b - 1) div b * b \<le> a + b - 1" by simp
  then show ?thesis unfolding ceil_div_def diff_mult_distrib using a b by linarith
qed

lemma new_node_length [simp]: "length (new_node fresh i s) = s"
  by (simp add: new_node_def)

lemma addCapacity_frame [simp]:
  "m_basesize (addCapacity b n) = m_basesize b"
  "m_position (addCapacity b n) = m_position b"
  "m_size (addCapacity b n) = m_size b"
  "m_endian (addCapacity b n) = m_endian b"
  "m_fresh (addCapacity b n) = m_fresh b"
  by (simp_all add: addCapacity_def Let_def)

lemma addCapacity_nodes_ok: "nodes_ok b \<Longrightarrow> nodes_ok (addCapacity b n)"
  by (auto simp: addCapacity_def nodes_ok_def Let_def algebra_simps list_all_iff)

lemma addCapacity_flat: "\<exists>zs. ba_flat (addCapacity b n) = ba_flat b @ zs"
  by (auto simp: addCapacity_def ba_flat_def Let_def)

lemma addCapacity_capacity: "m_capacity b \<le> m_capacity (addCapacity b n)"
  by (simp add: addCapacity_def Let_def)

lemma addCapacity_enough:
  assumes "ba_inv b"
  shows "m_position b + n \<le> m_capacity (addCapacity b n)"
proof -
  have "m_position b \<le> m_capacity b" and "0 < m_basesize b"
    using assms by (auto simp: ba_inv_def nodes_ok_def)
  then show ?thesis
    using ceil_div_mult [of "m_basesize b" "n - getCapacity b"]
    by (auto simp: addCapacity_def getCapacity_def Let_def)
qed

lemma addCapacity_cur:
  assumes inv: "ba_inv b" and n: "0 < n"
  shows "m_cur (addCapacity b n) = Some (m_position b div m_basesize b)"
    and "m_position b div m_basesize b < length (m_nodes (addCapacity b n))"
proof -
  let ?b = "addCapacity b n"
  have ok: "nodes_ok b" and pos: "m_position b \<le> m_capacity b"
    and cur: "m_cur b = cursor_at b (m_position b)"
    using inv by (auto simp: ba_inv_def)
  note B = nodes_okD [OF ok]
  have ok': "nodes_ok ?b" by (rule addCapacity_nodes_ok [OF ok])
  have "m_position b < m_basesize b * length (m_nodes ?b)"
    using addCapacity_enough [OF inv, of n] n nodes_okD(4) [OF ok'] by simp
  then show "m_position b div m_basesize b < length (m_nodes ?b)"
    using B(1) by (simp add: div_less_iff_less_mult mult.commute)
  show "m_cur ?b = Some (m_position b div m_basesize b)"
  proof (cases "m_position b = m_capacity b")
    case True
    then have "getCapacity b = 0" by (simp add: getCapacity_def)
    moreover have "0 < ceil_div n (m_basesize b)"
      using ceil_div_mult [OF B(1), of n] n by (cases "ceil_div n (m_basesize b)") auto
    moreover have "m_position b div m_basesize b = length (m_nodes b)"
      using True B(1,4) by simp
    ultimately show ?thesis using n by (simp add: addCapacity_def Let_def)
  next
    case False
    then have "0 < getCapacity b" using pos by (simp add: getCapacity_def)
    then have "m_cur ?b = m_cur b" by (auto simp: addCapacity_def Let_def)
    then show ?thesis using cur False B(4) by (simp add: cursor_at_def)
  qed
qed

text \<open>
  The copy loops, from a node \<open>c\<close> and an offset \<open>i\<close> in it: when the target range lies
  in the capacity, the write loop overwrites exactly that range of the flat buffer
  and leaves the pointer that belongs to the new position; the read loop returns
  the range.
\<close>

lemma write_loop_ok:
  assumes "nodes_ok b" and "buf \<noteq> []" and "m_cur b = Some c" and "c < length (m_nodes b)"
    and "i < m_basesize b" and "m_position b = m_basesize b * c + i"
    and "m_position b + length buf \<le> m_basesize b * length (m_nodes b)"
    and "ncap = m_basesize b - i"
  shows "\<exists>ns. write_loop b i ncap buf
      = Inr (b\<lparr>m_nodes := ns, m_position := m_position b + length buf,
               m_cur := cursor_at b (m_position b + length buf)\<rparr>)
    \<and> concat ns = list_write (ba_flat b) (m_position b) buf
    \<and> length ns = length (m_nodes b) \<and> (\<forall>n\<in>set ns. length n = m_basesize b)"
  using assms
proof (induction b i ncap buf arbitrary: c rule: write_loop.induct)
  case (1 b i ncap buf)
  note ok = "1.prems"(1) and ne = "1.prems"(2) and cur = "1.prems"(3) and c = "1.prems"(4)
    and i = "1.prems"(5) and pos = "1.prems"(6) and room = "1.prems"(7) and ncap = "1.prems"(8)
  note B = nodes_okD [OF ok]
  let ?put = "\<lambda>bs. (m_nodes b)[c := list_write (m_nodes b ! c) i bs]"
  have nc: "length (m_nodes b ! c) = m_basesize b" using B(3) c by simp
  have put_len: "\<forall>n\<in>set (?put bs). length n = m_basesize b" if "i + length bs \<le> m_basesize b" for bs
    using that nc B(3) by (auto dest!: set_update_subset_insert [THEN subsetD])
  have put_flat: "concat (?put bs) = list_write (ba_flat b) (m_position b) bs"
    if "i + length bs \<le> m_basesize b" for bs
    using concat_update_equal [OF B(3) c that] by (simp add: ba_flat_def pos)
  show ?case
  proof (cases "length buf \<le> ncap")
    case True
    then have fits: "i + length buf \<le> m_basesize b" using ncap i by simp
    have "cursor_at b (m_position b + length buf)
        = (if node_size b c = i + length buf then node_next b c else Some c)"
      using cursor_at_split [OF B(1) c fits] B(5) [OF c] by (auto simp: pos add.assoc)
    then show ?thesis
      using True ne cur fits nc put_len [OF fits] put_flat [OF fits]
      by (intro exI [of _ "?put buf"])
         (simp add: write_loop.simps [of b i ncap buf] node_put_def node_size_def)
  next
    case False
    have fits: "i + length (take ncap buf) \<le> m_basesize b" using ncap i by simp
    have lt: "ncap < length buf" using False by simp
    have posn: "m_position b + ncap = m_basesize b * Suc c" using pos ncap i by simp
    have "m_basesize b * Suc c < m_basesize b * length (m_nodes b)"
      using posn room lt by linarith
    then have next_lt: "Suc c < length (m_nodes b)" by (simp only: mult_less_cancel1)
    then have nxt: "node_next b c = Some (Suc c)" by (simp add: node_next_def)
    let ?b1 = "b\<lparr>m_nodes := ?put (take ncap buf)\<rparr>"
    let ?b2 = "?b1\<lparr>m_cur := Some (Suc c), m_position := m_position b + ncap\<rparr>"
    have put: "node_put b c i (take ncap buf) = Inr ?b1"
      using fits B(5) [OF c] by (simp add: node_put_def)
    have ok2: "nodes_ok ?b2"
      using ok put_len [OF fits] by (auto simp: nodes_ok_def list_all_iff)
    have size2: "node_size ?b1 (Suc c) = m_basesize b"
      using B(5) [OF next_lt] by (simp add: node_size_def)
    have step: "write_loop b i ncap buf = write_loop ?b2 0 (m_basesize b) (drop ncap buf)"
      using False ne cur put nxt size2 by (simp add: write_loop.simps [of b i ncap buf])
    have "\<exists>ns. write_loop ?b2 0 (m_basesize b) (drop ncap buf)
        = Inr (?b2\<lparr>m_nodes := ns, m_position := m_position ?b2 + length (drop ncap buf),
                   m_cur := cursor_at ?b2 (m_position ?b2 + length (drop ncap buf))\<rparr>)
      \<and> concat ns = list_write (ba_flat ?b2) (m_position ?b2) (drop ncap buf)
      \<and> length ns = length (m_nodes ?b2) \<and> (\<forall>n\<in>set ns. length n = m_basesize ?b2)"
      using "1.IH" [OF ne cur False put nxt, of "Suc c"] ok2 lt next_lt B(1) posn room
      by (simp add: size2)
    then obtain ns where ns: "write_loop ?b2 0 (m_basesize b) (drop ncap buf)
        = Inr (?b2\<lparr>m_nodes := ns, m_position := m_position ?b2 + length (drop ncap buf),
                   m_cur := cursor_at ?b2 (m_position ?b2 + length (drop ncap buf))\<rparr>)"
      and flat: "concat ns = list_write (ba_flat ?b2) (m_position ?b2) (drop ncap buf)"
      and len: "length ns = length (m_nodes b)" "\<forall>n\<in>set ns. length n = m_basesize b"
      by auto
    have "concat ns = list_write (ba_flat b) (m_position b) buf"
      using flat put_flat [OF fits] lt room length_ba_flat [OF ok] B(4)
        list_write_append [of "m_position b" "take ncap buf" "drop ncap buf" "ba_flat b"]
      by (simp add: ba_flat_def min_def)
    moreover have "cursor_at ?b2 p = cursor_at b p" for p by (simp add: cursor_at_def)
    moreover have "m_position ?b2 + length (drop ncap buf) = m_position b + length buf"
      using lt by simp
    ultimately show ?thesis using step ns len by (intro exI [of _ ns]) simp
  qed
qed

lemma read_loop_ok:
  assumes "nodes_ok b" and "0 < sz" and "c < length (m_nodes b)" and "i < m_basesize b"
    and "p = m_basesize b * c + i" and "p + sz \<le> m_basesize b * length (m_nodes b)"
    and "ncap = m_basesize b - i"
  shows "read_loop b (Some c) i ncap sz = Inr (take sz (drop p (ba_flat b)), cursor_at b (p + sz))"
  using assms
proof (induction b "Some c" i ncap sz arbitrary: c p rule: read_loop.induct)
  case (1 b i ncap sz)
  note ok = "1.prems"(1) and ne = "1.prems"(2) and c = "1.prems"(3)
    and i = "1.prems"(4) and pos = "1.prems"(5) and room = "1.prems"(6) and ncap = "1.prems"(7)
  note B = nodes_okD [OF ok]
  have nc: "length (m_nodes b ! c) = m_basesize b" using B(3) c by simp
  have dropc: "drop (m_basesize b * c) (ba_flat b) = m_nodes b ! c @ concat (drop (Suc c) (m_nodes b))"
    using concat_drop_equal [OF B(3), of c] c by (simp add: ba_flat_def Cons_nth_drop_Suc [symmetric])
  have droppos: "drop p (ba_flat b) = drop i (m_nodes b ! c) @ concat (drop (Suc c) (m_nodes b))"
    using arg_cong [OF dropc, of "drop i"] i nc by (simp add: pos add.commute)
  show ?case
  proof (cases "sz \<le> ncap")
    case True
    then have fits: "i + sz \<le> m_basesize b" using ncap i by simp
    have "cursor_at b (p + sz) = (if node_size b c = i + sz then node_next b c else Some c)"
      using cursor_at_split [OF B(1) c fits] B(5) [OF c] by (auto simp: pos add.assoc)
    then show ?thesis
      using True ne fits nc droppos B(5) [OF c]
      by (simp add: read_loop.simps [of b "Some c" i ncap sz] node_get_def)
  next
    case False
    have lt: "ncap < sz" using False by simp
    have posn: "p + ncap = m_basesize b * Suc c" using pos ncap i by simp
    have "m_basesize b * Suc c < m_basesize b * length (m_nodes b)"
      using posn room lt by linarith
    then have next_lt: "Suc c < length (m_nodes b)" by (simp only: mult_less_cancel1)
    then have nxt: "node_next b c = Some (Suc c)" by (simp add: node_next_def)
    have get: "node_get b c i ncap = Inr (take ncap (drop i (m_nodes b ! c)))"
      using B(5) [OF c] ncap i by (simp add: node_get_def)
    have e: "p + ncap + (sz - ncap) = p + sz" using lt by simp
    have "read_loop b (Some (Suc c)) 0 (node_size b (Suc c)) (sz - ncap)
        = Inr (take (sz - ncap) (drop (p + ncap) (ba_flat b)), cursor_at b (p + ncap + (sz - ncap)))"
      by (rule "1.hyps" [OF _ refl False get nxt ok])
         (use lt next_lt B(1) B(5) [OF next_lt] posn room e in \<open>simp_all del: mult_Suc_right\<close>)
    then have IH: "read_loop b (Some (Suc c)) 0 (m_basesize b) (sz - ncap)
        = Inr (take (sz - ncap) (drop (p + ncap) (ba_flat b)), cursor_at b (p + sz))"
      using B(5) [OF next_lt] e by simp
    have "take ncap (drop i (m_nodes b ! c)) = take ncap (drop p (ba_flat b))"
      using droppos nc ncap by simp
    moreover have "take ncap (drop p (ba_flat b)) @ take (sz - ncap) (drop (p + ncap) (ba_flat b))
        = take sz (drop p (ba_flat b))"
      using lt by (metis add.commute drop_drop le_add_diff_inverse less_imp_le take_add)
    ultimately show ?thesis
      using False ne get nxt IH B(5) [OF next_lt]
      by (simp add: read_loop.simps [of b "Some c" i ncap sz])
  qed
qed

lemma seek_loop_ok:
  assumes "nodes_ok b" and "c < length (m_nodes b)"
    and "m_basesize b * c + v \<le> m_basesize b * length (m_nodes b)"
  shows "seek_loop b c v = Inr (cursor_at b (m_basesize b * c + v))"
  using assms
proof (induction b c v rule: seek_loop.induct)
  case (1 b c v)
  note B = nodes_okD [OF "1.prems"(1)] and c = "1.prems"(2) and v = "1.prems"(3)
  show ?case
  proof (cases "node_size b c < v")
    case True
    then have gt: "m_basesize b < v" using B(5) [OF c] by simp
    then have "m_basesize b * Suc c < m_basesize b * length (m_nodes b)" using v by simp
    then have next_lt: "Suc c < length (m_nodes b)" by (simp only: mult_less_cancel1)
    then have nxt: "node_next b c = Some (Suc c)" by (simp add: node_next_def)
    have "seek_loop b (Suc c) (v - node_size b c)
        = Inr (cursor_at b (m_basesize b * Suc c + (v - node_size b c)))"
      using "1.IH" [OF True nxt "1.prems"(1) next_lt] v gt B(5) [OF c] by simp
    moreover have "m_basesize b * Suc c + (v - node_size b c) = m_basesize b * c + v"
      using gt B(5) [OF c] by simp
    ultimately show ?thesis using True nxt by (simp add: seek_loop.simps [of b c v])
  next
    case False
    then have "v \<le> m_basesize b" using B(5) [OF c] by simp
    from cursor_at_split [OF B(1) c this] show ?thesis
      using False B(5) [OF c] by (auto simp: seek_loop.simps [of b c v])
  qed
qed

lemma ba_write_ok:
  assumes "ba_inv b"
  obtains b' where "ba_write b buf = Inr b'" and "ba_inv b'"
    and "ba_data b' = take (m_position b) (ba_data b) @ buf @ drop (m_position b + length buf) (ba_data b)"
    and "m_position b' = m_position b + length buf" and "m_endian b' = m_endian b"
proof (cases "buf = []")
  case True
  have "m_position b \<le> length (ba_data b)"
    using assms by (simp add: length_ba_data) (simp add: ba_inv_def)
  with True assms show thesis by (intro that [of b]) (simp_all add: ba_write_def)
next
  case False
  let ?n = "length buf" and ?p = "m_position b" and ?b1 = "addCapacity b (length buf)"
  have n: "0 < ?n" using False by simp
  have ok: "nodes_ok b" and ps: "?p \<le> m_size b" "m_size b \<le> m_capacity b"
    using assms by (auto simp: ba_inv_def)
  have ok1: "nodes_ok ?b1" by (rule addCapacity_nodes_ok [OF ok])
  note B = nodes_okD [OF ok1]
  let ?c = "?p div m_basesize b" and ?i = "?p mod m_basesize b"
  have cur: "m_cur ?b1 = Some ?c" and c: "?c < length (m_nodes ?b1)"
    using addCapacity_cur [OF assms n] by auto
  have i: "?i < m_basesize b" and pos: "?p = m_basesize b * ?c + ?i" using B(1) by auto
  have room: "?p + ?n \<le> m_basesize ?b1 * length (m_nodes ?b1)"
    using addCapacity_enough [OF assms, of ?n] B(4) by simp
  obtain ns where w: "write_loop ?b1 ?i (m_basesize b - ?i) buf
      = Inr (?b1\<lparr>m_nodes := ns, m_position := ?p + ?n, m_cur := cursor_at ?b1 (?p + ?n)\<rparr>)"
    and flat: "concat ns = list_write (ba_flat ?b1) ?p buf"
    and len: "length ns = length (m_nodes ?b1)" "\<forall>n\<in>set ns. length n = m_basesize b"
    using write_loop_ok [OF ok1 False cur c _ _ _ refl, of ?i] i pos room by auto
  let ?b2 = "?b1\<lparr>m_nodes := ns, m_position := ?p + ?n, m_cur := cursor_at ?b1 (?p + ?n)\<rparr>"
  let ?b' = "if m_size ?b2 < m_position ?b2 then ?b2\<lparr>m_size := m_position ?b2\<rparr> else ?b2"
  have wr: "ba_write b buf = Inr ?b'"
    using False cur w B(1) B(5) [OF c] i by (simp add: ba_write_def Let_def)
  have sz: "m_size ?b' = max (m_size b) (?p + ?n)" and nd: "m_nodes ?b' = ns" by simp_all
  have fld: "m_position ?b' = ?p + ?n" "m_capacity ?b' = m_capacity ?b1"
    "m_basesize ?b' = m_basesize b" "m_cur ?b' = cursor_at ?b1 (?p + ?n)" by simp_all
  have cur': "cursor_at ?b' q = cursor_at ?b1 q" for q
    using len(1) unfolding cursor_at_def nd fld by simp
  have ok': "nodes_ok ?b'"
    using ok1 len unfolding nodes_ok_def nd fld list_all_iff by auto
  have "?p + ?n \<le> m_capacity ?b1" and "m_size b \<le> m_capacity ?b1"
    using room B(4) ps addCapacity_capacity [of b ?n] by simp_all
  with ok' have inv': "ba_inv ?b'" unfolding ba_inv_def fld sz cur' by simp
  obtain zs where zs: "ba_flat ?b1 = ba_flat b @ zs" using addCapacity_flat by blast
  have lf: "length (ba_flat b) = m_capacity b" by (rule length_ba_flat [OF ok])
  have dat: "ba_data ?b' = take ?p (ba_data b) @ buf @ drop (?p + ?n) (ba_data b)"
    using take_list_write [OF ps(1), of "ba_flat b" buf zs] ps(2) lf
    unfolding ba_data_def ba_flat_def [of ?b'] sz nd flat zs by simp
  show thesis by (rule that [OF wr inv' dat]) simp_all
qed

lemma ba_read_ok:
  assumes "ba_inv b" and "0 < n"
  shows "ba_read b n =
    (if m_position b + n \<le> m_size b
     then Inr (take n (drop (m_position b) (ba_data b)),
               b\<lparr>m_cur := cursor_at b (m_position b + n), m_position := m_position b + n\<rparr>)
     else Inl (OutOfRange ''not enough len''))"
proof (cases "m_position b + n \<le> m_size b")
  case False
  moreover have "m_position b \<le> m_size b" using assms(1) by (simp add: ba_inv_def)
  ultimately have "getReadSize b < n" by (simp add: getReadSize_def)
  then show ?thesis using False by (simp add: ba_read_def)
next
  case True
  let ?p = "m_position b" and ?c = "m_position b div m_basesize b"
    and ?i = "m_position b mod m_basesize b"
  have ok: "nodes_ok b" and ps: "?p \<le> m_size b" "m_size b \<le> m_capacity b"
    and cur: "m_cur b = cursor_at b ?p"
    using assms(1) by (auto simp: ba_inv_def)
  note B = nodes_okD [OF ok]
  have lt: "?p < m_basesize b * length (m_nodes b)" using True assms(2) ps B(4) by linarith
  then have c: "?c < length (m_nodes b)"
    using B(1) by (simp add: div_less_iff_less_mult mult.commute)
  have cur': "m_cur b = Some ?c" using cur lt by (simp add: cursor_at_def)
  have i: "?i < m_basesize b" using B(1) by simp
  have "read_loop b (Some ?c) ?i (m_basesize b - ?i) n
      = Inr (take n (drop ?p (ba_flat b)), cursor_at b (?p + n))"
    by (rule read_loop_ok [OF ok assms(2) c i]) (use True ps B(4) in auto)
  moreover have "take n (drop ?p (ba_flat b)) = take n (drop ?p (ba_data b))"
    using True by (simp add: ba_data_def drop_take min_def)
  ultimately show ?thesis
    using True ps cur' i B(1) B(5) [OF c] by (simp add: ba_read_def getReadSize_def)
qed

lemma ba_inv_moved:
  assumes "ba_inv b" and "p \<le> m_size b"
  shows "ba_inv (b\<lparr>m_cur := cursor_at b p, m_position := p\<rparr>)"
    and "ba_data (b\<lparr>m_cur := cursor_at b p, m_position := p\<rparr>) = ba_data b"
  using assms by (auto simp: ba_inv_def nodes_ok_def cursor_at_def ba_data_def ba_flat_def)

lemma setPosition_ok:
  assumes "ba_inv b"
  shows "setPosition b v =
    (if v \<le> m_capacity b
     then Inr (b\<lparr>m_position := v, m_size := max (m_size b) v, m_cur := cursor_at b v\<rparr>)
     else Inl (OutOfRange ''setPosition out of range''))"
proof (cases "v \<le> m_capacity b")
  case True
  have ok: "nodes_ok b" using assms by (simp add: ba_inv_def)
  let ?b1 = "b\<lparr>m_position := v, m_size := (if m_size b < v then v else m_size b)\<rparr>"
  have ok1: "nodes_ok ?b1" using ok by (simp add: nodes_ok_def)
  have "seek_loop ?b1 0 v = Inr (cursor_at ?b1 v)"
    using seek_loop_ok [OF ok1, of 0 v] True nodes_okD [OF ok] by simp
  moreover have "cursor_at ?b1 v = cursor_at b v" by (simp add: cursor_at_def)
  ultimately show ?thesis using True by (simp add: setPosition_def max_def)
qed (simp add: setPosition_def)

interpretation ba_cursor: byte_cursor ba_inv ba_data m_position m_endian ba_write ba_read setPosition
proof
  fix b :: byte_array and xs :: "byte list" and n p :: nat
  assume inv: "ba_inv b"
  show "m_position b \<le> length (ba_data b)"
    using inv by (simp add: length_ba_data) (simp add: ba_inv_def)
  show "\<exists>b'. ba_write b xs = Inr b' \<and> ba_inv b' \<and> m_endian b' = m_endian b \<and>
      m_position b' = m_position b + length xs \<and>
      ba_data b' = take (m_position b) (ba_data b) @ xs @ drop (m_position b + length xs) (ba_data b)"
    using ba_write_ok [OF inv, of xs] by metis
  show "0 < n \<Longrightarrow> m_position b + n \<le> length (ba_data b) \<Longrightarrow>
      \<exists>b'. ba_read b n = Inr (take n (drop (m_position b) (ba_data b)), b') \<and> ba_inv b' \<and>
        m_endian b' = m_endian b \<and> m_position b' = m_position b + n \<and> ba_data b' = ba_data b"
    using inv ba_inv_moved [OF inv, of "m_position b + n"]
    by (auto simp: ba_read_ok length_ba_data)
  show "p \<le> length (ba_data b) \<Longrightarrow>
      \<exists>b'. setPosition b p = Inr b' \<and> ba_inv b' \<and> m_endian b' = m_endian b \<and>
        m_position b' = p \<and> ba_data b' = ba_data b"
    using inv ba_inv_moved [OF inv, of p]
    by (auto simp: setPosition_ok length_ba_data ba_inv_def max_def ba_data_def ba_flat_def
        nodes_ok_def cursor_at_def)
qed

end
