(* ===== verification/Byte_Array_IO.thy ===== *)
theory Byte_Array_IO
  imports Byte_Array
begin

text \<open>
  The operations of \<open>src/bytearray.cpp\<close> that expose the buffer to the outside: the
  \<open>iovec\<close> lists of \<open>getReadBuffers\<close> and \<open>getWriteBuffers\<close>, which \<open>SocketStream\<close> passes
  to the kernel, the two file operations and \<open>toHexString\<close>. An \<open>iovec\<close> is the index
  of the node its base points into, the offset in that node and the length.
\<close>

section \<open>Scatter and gather lists\<close>

type_synonym iovec = "nat \<times> nat \<times> nat"

text \<open>The loop that \<open>getReadBuffers\<close> and \<open>getWriteBuffers\<close> share.\<close>

function iov_loop :: "byte_array \<Rightarrow> nat option \<Rightarrow> nat \<Rightarrow> nat \<Rightarrow> nat \<Rightarrow> ba_error + iovec list" where
  "iov_loop b cur npos ncap len =
     (if len = 0 then Inr []
      else case cur of
        None \<Rightarrow> Inl NullDeref
      | Some c \<Rightarrow>
          if len \<le> ncap then Inr [(c, npos, len)]
          else (case node_next b c of
                  None \<Rightarrow> Inl NullDeref
                | Some c' \<Rightarrow>
                    bind_res (iov_loop b (Some c') 0 (node_size b c') (len - ncap))
                      (\<lambda>iovs. Inr ((c, npos, ncap) # iovs))))"
  by pat_completeness auto
termination
  by (relation "measure (\<lambda>(b, cur, _, _, _). length (m_nodes b) - (case cur of None \<Rightarrow> 0 | Some c \<Rightarrow> c))")
     (auto simp: node_next_def split: if_splits)

declare iov_loop.simps [simp del]

text \<open>\<open>getReadBuffers (buffers, len)\<close>: the returned size and the vector.\<close>

definition getReadBuffers :: "byte_array \<Rightarrow> nat \<Rightarrow> ba_error + nat \<times> iovec list" where
  "getReadBuffers b len0 =
     (let len = (if getReadSize b < len0 then getReadSize b else len0) in
      if len = 0 then Inr (0, [])
      else if m_basesize b = 0 then Inl DivZero
      else let npos = m_position b mod m_basesize b in
        (case m_cur b of
           None \<Rightarrow> Inl NullDeref
         | Some c \<Rightarrow> bind_res (iov_loop b (Some c) npos (size_sub (node_size b c) npos) len)
             (\<lambda>iovs. Inr (len, iovs))))"

text \<open>The walk of \<open>getReadBuffers (buffers, len, position)\<close> from \<open>m_root\<close> over \<open>count\<close> nodes.\<close>

fun node_walk :: "byte_array \<Rightarrow> nat option \<Rightarrow> nat \<Rightarrow> ba_error + nat option" where
  "node_walk b cur 0 = Inr cur"
| "node_walk b None (Suc count) = Inl NullDeref"
| "node_walk b (Some c) (Suc count) = node_walk b (node_next b c) count"

definition getReadBuffers_at :: "byte_array \<Rightarrow> nat \<Rightarrow> nat \<Rightarrow> ba_error + nat \<times> iovec list" where
  "getReadBuffers_at b len0 position =
     (let len = (if getReadSize b < len0 then getReadSize b else len0) in
      if len = 0 then Inr (0, [])
      else if m_basesize b = 0 then Inl DivZero
      else let npos = position mod m_basesize b in
        bind_res (node_walk b (Some 0) (position div m_basesize b)) (\<lambda>cur.
          (case cur of
             None \<Rightarrow> Inl NullDeref
           | Some c \<Rightarrow> bind_res (iov_loop b (Some c) npos (size_sub (node_size b c) npos) len)
               (\<lambda>iovs. Inr (len, iovs)))))"

definition getWriteBuffers :: "byte_array \<Rightarrow> nat \<Rightarrow> ba_error + nat \<times> iovec list \<times> byte_array" where
  "getWriteBuffers b len =
     (if len = 0 then Inr (0, [], b)
      else let b1 = addCapacity b len in
        if m_basesize b1 = 0 then Inl DivZero
        else let npos = m_position b1 mod m_basesize b1 in
          (case m_cur b1 of
             None \<Rightarrow> Inl NullDeref
           | Some c \<Rightarrow> bind_res (iov_loop b1 (Some c) npos (size_sub (node_size b1 c) npos) len)
               (\<lambda>iovs. Inr (len, iovs, b1))))"

text \<open>
  What \<open>sendmsg\<close> reads and \<open>recvmsg\<close> writes through a vector: the bytes of the blocks
  in order, and the blocks filled in order with the bytes received.
\<close>

definition iov_bytes :: "byte_array \<Rightarrow> iovec list \<Rightarrow> byte list" where
  "iov_bytes b iovs = concat (map (\<lambda>(c, off, n). take n (drop off (m_nodes b ! c))) iovs)"

fun iov_fill :: "byte_array \<Rightarrow> iovec list \<Rightarrow> byte list \<Rightarrow> byte_array" where
  "iov_fill b [] bs = b"
| "iov_fill b ((c, off, n) # iovs) bs =
     iov_fill (b\<lparr>m_nodes := (m_nodes b)[c := list_write (m_nodes b ! c) off (take n bs)]\<rparr>)
       iovs (drop n bs)"

text \<open>The vector covers the flat buffer from offset \<open>p\<close> on, block after block.\<close>

fun iov_range :: "byte_array \<Rightarrow> nat \<Rightarrow> iovec list \<Rightarrow> bool" where
  "iov_range b p [] = True"
| "iov_range b p ((c, off, n) # iovs) =
     (c < length (m_nodes b) \<and> off + n \<le> m_basesize b \<and> p = m_basesize b * c + off \<and>
      iov_range b (p + n) iovs)"

definition iov_total :: "iovec list \<Rightarrow> nat" where
  "iov_total iovs = sum_list (map (\<lambda>(c, off, n). n) iovs)"

lemma iov_total_simps [simp]:
  "iov_total [] = 0" "iov_total ((c, off, n) # iovs) = n + iov_total iovs"
  by (simp_all add: iov_total_def)

lemma iov_loop_ok:
  assumes "nodes_ok b" and "0 < len" and "c < length (m_nodes b)" and "i < m_basesize b"
    and "p = m_basesize b * c + i" and "p + len \<le> m_basesize b * length (m_nodes b)"
    and "ncap = m_basesize b - i"
  shows "\<exists>iovs. iov_loop b (Some c) i ncap len = Inr iovs \<and> iov_range b p iovs \<and> iov_total iovs = len"
  using assms
proof (induction b "Some c" i ncap len arbitrary: c p rule: iov_loop.induct)
  case (1 b i ncap len)
  note ok = "1.prems"(1) and ne = "1.prems"(2) and c = "1.prems"(3) and i = "1.prems"(4)
    and pos = "1.prems"(5) and room = "1.prems"(6) and ncap = "1.prems"(7)
  note B = nodes_okD [OF ok]
  show ?case
  proof (cases "len \<le> ncap")
    case True
    then have "iov_loop b (Some c) i ncap len = Inr [(c, i, len)]"
      using ne by (simp add: iov_loop.simps [of b "Some c" i ncap len])
    with True show ?thesis using c i pos ncap by simp
  next
    case False
    have posn: "p + ncap = m_basesize b * Suc c" using pos ncap i by simp
    have "m_basesize b * Suc c < m_basesize b * length (m_nodes b)"
      using posn room False by linarith
    then have next_lt: "Suc c < length (m_nodes b)" by (simp only: mult_less_cancel1)
    then have nxt: "node_next b c = Some (Suc c)" by (simp add: node_next_def)
    have "\<exists>iovs. iov_loop b (Some (Suc c)) 0 (node_size b (Suc c)) (len - ncap) = Inr iovs
        \<and> iov_range b (p + ncap) iovs \<and> iov_total iovs = len - ncap"
      by (rule "1.hyps" [OF _ refl False nxt ok])
         (use False next_lt B(1) B(5) [OF next_lt] posn room in \<open>simp_all del: mult_Suc_right\<close>)
    then obtain iovs where
      iovs: "iov_loop b (Some (Suc c)) 0 (node_size b (Suc c)) (len - ncap) = Inr iovs"
      "iov_range b (p + ncap) iovs" "iov_total iovs = len - ncap" by blast
    have "iov_loop b (Some c) i ncap len = Inr ((c, i, ncap) # iovs)"
      using False ne nxt iovs(1) by (simp add: iov_loop.simps [of b "Some c" i ncap len])
    moreover have "iov_range b p ((c, i, ncap) # iovs)" using iovs(2) c i pos ncap by simp
    moreover have "iov_total ((c, i, ncap) # iovs) = len" using iovs(3) False by simp
    ultimately show ?thesis by blast
  qed
qed

lemma iov_bytes_range:
  assumes "nodes_ok b" and "iov_range b p iovs"
  shows "iov_bytes b iovs = take (iov_total iovs) (drop p (ba_flat b))"
  using assms
proof (induction iovs arbitrary: p)
  case Nil
  then show ?case by (simp add: iov_bytes_def)
next
  case (Cons iov iovs)
  obtain c off n where iov: "iov = (c, off, n)" by (cases iov)
  note B = nodes_okD [OF Cons.prems(1)]
  from Cons.prems(2) have c: "c < length (m_nodes b)" and off: "off + n \<le> m_basesize b"
    and p: "p = m_basesize b * c + off" and rest: "iov_range b (p + n) iovs"
    by (auto simp: iov)
  have nc: "length (m_nodes b ! c) = m_basesize b" using B(3) c by simp
  have "drop (m_basesize b * c) (ba_flat b) = m_nodes b ! c @ concat (drop (Suc c) (m_nodes b))"
    using concat_drop_equal [OF B(3), of c] c by (simp add: ba_flat_def Cons_nth_drop_Suc [symmetric])
  then have "take n (drop p (ba_flat b)) = take n (drop off (m_nodes b ! c))"
    using off nc by (simp add: p add.commute flip: drop_drop)
  then show ?case
    using Cons.IH [OF Cons.prems(1) rest]
    by (simp add: iov iov_bytes_def take_add add.commute)
qed

lemma iov_range_le:
  assumes "iov_range b p iovs" and "iovs \<noteq> []"
  shows "p + iov_total iovs \<le> m_basesize b * length (m_nodes b)"
  using assms
proof (induction b p iovs rule: iov_range.induct)
  case (2 b p c off n iovs)
  have "m_basesize b * Suc c \<le> m_basesize b * length (m_nodes b)"
    using "2.prems"(1) by (intro mult_le_mono) auto
  then have "p + n \<le> m_basesize b * length (m_nodes b)" using "2.prems"(1) by auto
  then show ?case using "2.IH" "2.prems"(1) by (cases iovs) auto
qed simp

lemma iov_fill_range:
  assumes "nodes_ok b" and "iov_range b p iovs" and "length bs \<le> iov_total iovs"
  shows "\<exists>ns. iov_fill b iovs bs = b\<lparr>m_nodes := ns\<rparr> \<and> length ns = length (m_nodes b) \<and>
    (\<forall>n\<in>set ns. length n = m_basesize b) \<and> concat ns = list_write (ba_flat b) p bs"
  using assms
proof (induction b iovs bs arbitrary: p rule: iov_fill.induct)
  case (1 b bs)
  then show ?case
    using nodes_okD(3) [OF "1.prems"(1)] by (intro exI [of _ "m_nodes b"]) (simp add: ba_flat_def)
next
  case (2 b c off n iovs bs)
  note B = nodes_okD [OF "2.prems"(1)]
  from "2.prems"(2) have c: "c < length (m_nodes b)" and off: "off + n \<le> m_basesize b"
    and p: "p = m_basesize b * c + off" and rest: "iov_range b (p + n) iovs" by auto
  have nc: "length (m_nodes b ! c) = m_basesize b" using B(3) c by simp
  let ?ns1 = "(m_nodes b)[c := list_write (m_nodes b ! c) off (take n bs)]"
  let ?b1 = "b\<lparr>m_nodes := ?ns1\<rparr>"
  have fits: "off + length (take n bs) \<le> m_basesize b" using off by simp
  have len1: "\<forall>n\<in>set ?ns1. length n = m_basesize b"
    using fits nc B(3) by (auto dest!: set_update_subset_insert [THEN subsetD])
  have ok1: "nodes_ok ?b1" using "2.prems"(1) len1 by (auto simp: nodes_ok_def list_all_iff)
  have range_eq: "iov_range ?b1 q xs = iov_range b q xs" for q xs
    by (induction b q xs rule: iov_range.induct) auto
  have flat1: "concat ?ns1 = list_write (ba_flat b) p (take n bs)"
    using concat_update_equal [OF B(3) c fits] by (simp add: ba_flat_def p)
  have "length (drop n bs) \<le> iov_total iovs" using "2.prems"(3) by auto
  with "2.IH" [of "p + n"] ok1 rest range_eq obtain ns where
    ns: "iov_fill ?b1 iovs (drop n bs) = ?b1\<lparr>m_nodes := ns\<rparr>" "length ns = length (m_nodes b)"
      "\<forall>n\<in>set ns. length n = m_basesize b"
    and flat: "concat ns = list_write (ba_flat ?b1) (p + n) (drop n bs)"
    by auto
  have "concat ns = list_write (ba_flat b) p bs"
  proof (cases "n \<le> length bs")
    case True
    have "p + length bs \<le> length (ba_flat b)"
      using iov_range_le [OF "2.prems"(2)] "2.prems"(3) length_ba_flat [OF "2.prems"(1)] B(4) by simp
    then show ?thesis
      using flat flat1 True list_write_append [of p "take n bs" "drop n bs" "ba_flat b"]
      by (simp add: ba_flat_def min_absorb2)
  next
    case False
    then show ?thesis using flat flat1 by (simp add: ba_flat_def)
  qed
  then show ?case using ns by (intro exI [of _ ns]) simp
qed

text \<open>The three \<open>get...Buffers\<close> methods.\<close>

lemma getReadBuffers_ok:
  assumes "ba_inv b" and "len = min len0 (m_size b - m_position b)"
  obtains iovs where "getReadBuffers b len0 = Inr (len, iovs)"
    and "iov_bytes b iovs = take len (drop (m_position b) (ba_data b))"
proof -
  have ok: "nodes_ok b" and ps: "m_position b \<le> m_size b" "m_size b \<le> m_capacity b"
    and cur: "m_cur b = cursor_at b (m_position b)"
    using assms(1) by (auto simp: ba_inv_def)
  note B = nodes_okD [OF ok]
  have len: "(if getReadSize b < len0 then getReadSize b else len0) = len"
    using ps assms(2) by (simp add: getReadSize_def min_def)
  show thesis
  proof (cases "len = 0")
    case True
    then show thesis using len by (intro that [of "[]"]) (simp_all add: getReadBuffers_def iov_bytes_def)
  next
    case False
    let ?c = "m_position b div m_basesize b" and ?i = "m_position b mod m_basesize b"
    have room: "m_position b + len \<le> m_size b" using assms(2) ps by auto
    then have lt: "m_position b < m_basesize b * length (m_nodes b)" using False ps B(4) by linarith
    then have c: "?c < length (m_nodes b)"
      using B(1) by (simp add: div_less_iff_less_mult mult.commute)
    have "\<exists>iovs. iov_loop b (Some ?c) ?i (m_basesize b - ?i) len = Inr iovs
        \<and> iov_range b (m_position b) iovs \<and> iov_total iovs = len"
      by (rule iov_loop_ok [OF ok _ c]) (use False room ps B(1,4) in auto)
    then obtain iovs where iovs: "iov_loop b (Some ?c) ?i (m_basesize b - ?i) len = Inr iovs"
      "iov_range b (m_position b) iovs" "iov_total iovs = len" by blast
    have "getReadBuffers b len0 = Inr (len, iovs)"
      using len False cur lt iovs(1) B(1) B(5) [OF c]
      by (simp add: getReadBuffers_def cursor_at_def Let_def)
    moreover have "take len (drop (m_position b) (ba_flat b)) = take len (drop (m_position b) (ba_data b))"
      using room by (simp add: ba_data_def drop_take min_def)
    ultimately show thesis
      using iov_bytes_range [OF ok iovs(2)] iovs(3) by (intro that) simp_all
  qed
qed

lemma node_walk_ok: "c + count < length (m_nodes b) \<Longrightarrow> node_walk b (Some c) count = Inr (Some (c + count))"
  by (induction count arbitrary: c) (simp_all add: node_next_def)

lemma getReadBuffers_at_ok:
  assumes "ba_inv b" and "0 < len" and "len \<le> m_size b - m_position b" and "p + len \<le> m_size b"
  obtains iovs where "getReadBuffers_at b len p = Inr (len, iovs)"
    and "iov_bytes b iovs = take len (drop p (ba_data b))"
proof -
  have ok: "nodes_ok b" and ps: "m_position b \<le> m_size b" "m_size b \<le> m_capacity b"
    using assms(1) by (auto simp: ba_inv_def)
  note B = nodes_okD [OF ok]
  let ?c = "p div m_basesize b" and ?i = "p mod m_basesize b"
  have lt: "p < m_basesize b * length (m_nodes b)" using assms(2,4) ps B(4) by linarith
  then have c: "?c < length (m_nodes b)"
    using B(1) by (simp add: div_less_iff_less_mult mult.commute)
  have "\<exists>iovs. iov_loop b (Some ?c) ?i (m_basesize b - ?i) len = Inr iovs
      \<and> iov_range b p iovs \<and> iov_total iovs = len"
    by (rule iov_loop_ok [OF ok assms(2) c]) (use assms(4) ps B(1,4) in auto)
  then obtain iovs where iovs: "iov_loop b (Some ?c) ?i (m_basesize b - ?i) len = Inr iovs"
    "iov_range b p iovs" "iov_total iovs = len" by blast
  have "getReadBuffers_at b len p = Inr (len, iovs)"
    using assms(2,3) ps iovs(1) B(1) B(5) [OF c] node_walk_ok [of 0 ?c b] c
    by (simp add: getReadBuffers_at_def getReadSize_def Let_def)
  moreover have "take len (drop p (ba_flat b)) = take len (drop p (ba_data b))"
    using assms(4) by (simp add: ba_data_def drop_take min_def)
  ultimately show thesis
    using iov_bytes_range [OF ok iovs(2)] iovs(3) by (intro that) simp_all
qed

lemma getWriteBuffers_ok:
  assumes "ba_inv b" and "0 < len"
  obtains iovs where "getWriteBuffers b len = Inr (len, iovs, addCapacity b len)"
    and "iov_range (addCapacity b len) (m_position b) iovs" and "iov_total iovs = len"
proof -
  let ?b1 = "addCapacity b len" and ?c = "m_position b div m_basesize b"
    and ?i = "m_position b mod m_basesize b"
  have ok1: "nodes_ok ?b1" using assms(1) by (intro addCapacity_nodes_ok) (simp add: ba_inv_def)
  note B = nodes_okD [OF ok1] and cur = addCapacity_cur [OF assms]
  have "\<exists>iovs. iov_loop ?b1 (Some ?c) ?i (m_basesize b - ?i) len = Inr iovs
      \<and> iov_range ?b1 (m_position b) iovs \<and> iov_total iovs = len"
    by (rule iov_loop_ok [OF ok1 assms(2) cur(2)])
       (use B(1,4) addCapacity_enough [OF assms(1), of len] in auto)
  then obtain iovs where "iov_loop ?b1 (Some ?c) ?i (m_basesize b - ?i) len = Inr iovs"
    "iov_range ?b1 (m_position b) iovs" "iov_total iovs = len" by blast
  then show thesis
    using assms(2) cur(1) B(1) B(5) [OF cur(2)]
    by (intro that) (simp_all add: getWriteBuffers_def Let_def)
qed

section \<open>Files\<close>

text \<open>
  The loop of \<open>writeToFile\<close> on signed 64-bit values. The stream is the bytes
  written so far and its failure flag: a negative count sets \<open>badbit\<close> and writes
  nothing, and a failed stream ignores later writes.
\<close>

definition ofs_write :: "byte list \<times> bool \<Rightarrow> byte list \<Rightarrow> int \<Rightarrow> byte list \<times> bool" where
  "ofs_write ofs src len =
     (case ofs of (out, bad) \<Rightarrow>
        if bad then (out, bad)
        else if len < 0 then (out, True)
        else (out @ take (nat len) src, False))"

function write_file_loop :: "byte_array \<Rightarrow> byte list \<times> bool \<Rightarrow> nat option \<Rightarrow> int \<Rightarrow> int
    \<Rightarrow> ba_error + byte list \<times> bool" where
  "write_file_loop b ofs cur p read_size =
     (if read_size \<le> 0 then Inr ofs
      else case cur of
        None \<Rightarrow> Inl NullDeref
      | Some c \<Rightarrow>
          let diff = p mod int (m_basesize b);
              len = (if int (m_basesize b) < read_size then int (m_basesize b) else read_size) - diff
          in write_file_loop b (ofs_write ofs (drop (nat diff) (m_nodes b ! c)) len)
               (node_next b c) (p + len) (read_size - len))"
  by pat_completeness auto
termination
  by (relation "measure (\<lambda>(b, _, cur, _, _). case cur of None \<Rightarrow> 0 | Some c \<Rightarrow> Suc (length (m_nodes b) - c))")
     (auto simp: node_next_def split: option.splits if_splits)

declare write_file_loop.simps [simp del]

text \<open>\<open>writeToFile\<close>: \<open>opened\<close> says whether the file could be opened; the result is the
  returned flag and the file's content.\<close>

definition writeToFile :: "byte_array \<Rightarrow> bool \<Rightarrow> ba_error + bool \<times> byte list" where
  "writeToFile b opened =
     (if \<not> opened then Inr (False, [])
      else if m_basesize b = 0 \<and> 0 < getReadSize b then Inl DivZero
      else bind_res (write_file_loop b ([], False) (m_cur b) (int (m_position b)) (int (getReadSize b)))
        (\<lambda>(out, _). Inr (True, out)))"

text \<open>
  \<open>readFromFile\<close> reads blocks of \<open>m_basesize\<close> bytes; the end-of-file flag is set by the
  first read that finds fewer bytes than it asked for.
\<close>

function read_file_loop :: "nat \<Rightarrow> byte_array \<Rightarrow> byte list \<Rightarrow> ba_error + byte_array" where
  "read_file_loop bs b fb =
     (if bs = 0 then Inl Diverges
      else bind_res (ba_write b (take bs fb)) (\<lambda>b'.
        if length fb < bs then Inr b' else read_file_loop bs b' (drop bs fb)))"
  by pat_completeness auto
termination
  by (relation "measure (\<lambda>(_, _, fb). length fb)") auto

declare read_file_loop.simps [simp del]

definition readFromFile :: "byte_array \<Rightarrow> byte list option \<Rightarrow> ba_error + bool \<times> byte_array" where
  "readFromFile b fb =
     (case fb of
        None \<Rightarrow> Inr (False, b)
      | Some bytes \<Rightarrow> bind_res (read_file_loop (m_basesize b) b bytes) (\<lambda>b'. Inr (True, b')))"

lemma write_file_loop_aligned:
  assumes "nodes_ok b" and "m_basesize b * c + n \<le> m_basesize b * length (m_nodes b)"
    and "cur = cursor_at b (m_basesize b * c)"
  shows "write_file_loop b (out, False) cur (int (m_basesize b * c)) (int n)
    = Inr (out @ take n (drop (m_basesize b * c) (ba_flat b)), False)"
  using assms
proof (induction n arbitrary: c cur out rule: less_induct)
  case (less n)
  note B = nodes_okD [OF less.prems(1)]
  show ?case
  proof (cases "n = 0")
    case True
    then show ?thesis by (simp add: write_file_loop.simps [of b _ cur])
  next
    case False
    let ?k = "min n (m_basesize b)"
    have "m_basesize b * c < m_basesize b * length (m_nodes b)" using less.prems(2) False by linarith
    then have c: "c < length (m_nodes b)" by (simp only: mult_less_cancel1)
    then have cur: "cur = Some c" using cursor_at_split [OF B(1) c, of 0] B(1) less.prems(3) by auto
    have nc: "length (m_nodes b ! c) = m_basesize b" using B(3) c by simp
    have drp: "drop (m_basesize b * c) (ba_flat b) = m_nodes b ! c @ drop (m_basesize b * Suc c) (ba_flat b)"
      using concat_drop_equal [OF B(3), of c] concat_drop_equal [OF B(3), of "Suc c"] c
      by (simp add: ba_flat_def Cons_nth_drop_Suc [symmetric] del: mult_Suc_right)
    have step: "write_file_loop b (out, False) cur (int (m_basesize b * c)) (int n)
        = write_file_loop b (out @ take ?k (m_nodes b ! c), False) (node_next b c)
            (int (m_basesize b * c) + int ?k) (int n - int ?k)"
      using False cur by (simp add: write_file_loop.simps [of b _ "Some c"] ofs_write_def min_def Let_def)
    show ?thesis
    proof (cases "n \<le> m_basesize b")
      case True
      then show ?thesis using step drp nc
        by (simp add: write_file_loop.simps [of b _ "node_next b c"] min_def)
    next
      case gt: False
      have nxt: "node_next b c = cursor_at b (m_basesize b * Suc c)"
        using cursor_at_split [OF B(1) c, of "m_basesize b"] by (simp add: add.commute)
      have "write_file_loop b (out @ m_nodes b ! c, False) (node_next b c)
            (int (m_basesize b * Suc c)) (int (n - m_basesize b))
          = Inr ((out @ m_nodes b ! c) @ take (n - m_basesize b) (drop (m_basesize b * Suc c) (ba_flat b)), False)"
        by (rule less.IH [OF _ less.prems(1) _ nxt]) (use gt B(1) less.prems(2) in auto)
      moreover have "int (m_basesize b * c) + int ?k = int (m_basesize b * Suc c)"
        and "int n - int ?k = int (n - m_basesize b)" and "take ?k (m_nodes b ! c) = m_nodes b ! c"
        using gt nc by auto
      ultimately show ?thesis using step drp nc gt by (simp add: add.commute)
    qed
  qed
qed

lemma read_file_loop_ok:
  assumes "ba_inv b" and "0 < bs"
  shows "\<exists>b'. read_file_loop bs b fb = Inr b' \<and> ba_inv b' \<and>
    m_position b' = m_position b + length fb \<and>
    ba_data b' = take (m_position b) (ba_data b) @ fb @ drop (m_position b + length fb) (ba_data b)"
  using assms
proof (induction bs b fb rule: read_file_loop.induct)
  case (1 bs b fb)
  from ba_write_ok [OF "1.prems"(1), of "take bs fb"] obtain b1 where
    b1: "ba_write b (take bs fb) = Inr b1" "ba_inv b1"
      "ba_data b1 = take (m_position b) (ba_data b) @ take bs fb
         @ drop (m_position b + length (take bs fb)) (ba_data b)"
      "m_position b1 = m_position b + length (take bs fb)" by metis
  show ?case
  proof (cases "length fb < bs")
    case True
    then show ?thesis using b1 "1.prems" by (simp add: read_file_loop.simps [of bs b])
  next
    case False
    then obtain b2 where b2: "read_file_loop bs b1 (drop bs fb) = Inr b2" "ba_inv b2"
      "m_position b2 = m_position b1 + length (drop bs fb)"
      "ba_data b2 = take (m_position b1) (ba_data b1) @ drop bs fb
         @ drop (m_position b1 + length (drop bs fb)) (ba_data b1)"
      using "1.IH" [OF _ False b1(2)] "1.prems"(2) by blast
    have pl: "m_position b \<le> length (ba_data b)" by (rule ba_cursor.pos_le [OF "1.prems"(1)])
    have k: "length (take bs fb) = bs" using False by simp
    have "ba_data b2 = take (m_position b) (ba_data b) @ fb @ drop (m_position b + length fb) (ba_data b)"
      using b2(4) b1(3,4) k pl False by (simp add: add.commute)
    moreover have "read_file_loop bs b fb = Inr b2"
      using False b1(1) b2(1) "1.prems"(2) by (simp add: read_file_loop.simps [of bs b])
    ultimately show ?thesis using b2(2,3) b1(4) k False by simp
  qed
qed

section \<open>Hexadecimal dump\<close>

text \<open>\<open>ss << setw(2) << setfill('0') << hex << (int)(uint8_t)c << " "\<close>.\<close>

definition hex2 :: "byte \<Rightarrow> string" where
  "hex2 x = (let s = show_hex (unat x) in replicate (2 - length s) CHR ''0'' @ s)"

fun hex_loop :: "nat \<Rightarrow> byte list \<Rightarrow> string" where
  "hex_loop i [] = ''''"
| "hex_loop i (x # xs) =
     (if 0 < i \<and> i mod 32 = 0 then [CHR 0x0A] else []) @ hex2 x @ '' '' @ hex_loop (Suc i) xs"

definition toHexString :: "byte_array \<Rightarrow> ba_error + string" where
  "toHexString b = bind_res (ba_toString b) (\<lambda>str. Inr (hex_loop 0 str))"

lemma hex2_digits: "hex2 x = [digit_char (unat x div 16), digit_char (unat x mod 16)]"
proof -
  have "unat x < 256" using unsigned_less [of x] by simp
  then have "unat x div 16 < 16" by simp
  then show ?thesis
    by (auto simp: hex2_def show_hex_def show_base.simps [of 16 "unat x"]
        show_base.simps [of 16 "unat x div 16"] digit_char_def)
qed

end
