(* ===== verification/Simulation.thy ===== *)
theory Simulation
  imports Prelude
begin

text \<open>
  Refinement of a component by sequences of calls. A component is a step function from a
  call and a state to a failure or an output and the next state; \<open>run\<close> makes a sequence of
  calls and collects the outputs. The locale \<open>refinement\<close> is the contract between a
  detailed component and its specification; its client lemma lifts it to call sequences.
\<close>

fun run :: "('op \<Rightarrow> 's \<Rightarrow> 'e + 'o \<times> 's) \<Rightarrow> 'op list \<Rightarrow> 's \<Rightarrow> 'e + 'o list \<times> 's" where
  "run step [] s = Inr ([], s)"
| "run step (c # cs) s =
     bind_res (step c s) (\<lambda>(out, s1). bind_res (run step cs s1) (\<lambda>(outs, s2). Inr (out # outs, s2)))"

text \<open>Every call of the sequence is made in a state its precondition \<open>pre\<close> allows.\<close>

fun legal :: "('op \<Rightarrow> 's \<Rightarrow> bool) \<Rightarrow> ('op \<Rightarrow> 's \<Rightarrow> 'e + 'o \<times> 's) \<Rightarrow> 'op list \<Rightarrow> 's \<Rightarrow> bool" where
  "legal pre step [] s = True"
| "legal pre step (c # cs) s =
     (pre c s \<and> (case step c s of Inl _ \<Rightarrow> True | Inr (_, s') \<Rightarrow> legal pre step cs s'))"

locale refinement =
  fixes inv :: "'c \<Rightarrow> bool"
    and abs :: "'c \<Rightarrow> 'a"
    and cstep :: "'op \<Rightarrow> 'c \<Rightarrow> 'e + 'o \<times> 'c"
    and astep :: "'op \<Rightarrow> 'a \<Rightarrow> 'e + 'o \<times> 'a"
    and pre :: "'op \<Rightarrow> 'a \<Rightarrow> bool"
  assumes step_ok: "inv c \<Longrightarrow> pre x (abs c) \<Longrightarrow> cstep x c = Inr (out, c') \<Longrightarrow>
      inv c' \<and> astep x (abs c) = Inr (out, abs c')"
    and step_err: "inv c \<Longrightarrow> pre x (abs c) \<Longrightarrow> cstep x c = Inl e \<Longrightarrow> astep x (abs c) = Inl e"
begin

lemma run_refines:
  assumes "inv c" and "legal pre astep xs (abs c)"
  shows "case run cstep xs c of
      Inl e \<Rightarrow> run astep xs (abs c) = Inl e
    | Inr (outs, c') \<Rightarrow> run astep xs (abs c) = Inr (outs, abs c') \<and> inv c'"
  using assms
proof (induction xs arbitrary: c)
  case Nil
  then show ?case by simp
next
  case (Cons x xs)
  have pre: "pre x (abs c)" using Cons.prems(2) by simp
  show ?case
  proof (cases "cstep x c")
    case (Inl e)
    then show ?thesis using step_err [OF Cons.prems(1) pre Inl] by simp
  next
    case (Inr r)
    then obtain out c1 where r: "cstep x c = Inr (out, c1)" by (cases r) simp
    from step_ok [OF Cons.prems(1) pre r] have c1: "inv c1" "astep x (abs c) = Inr (out, abs c1)" by auto
    with Cons.prems(2) have "legal pre astep xs (abs c1)" by simp
    from Cons.IH [OF c1(1) this] show ?thesis
      using r c1(2) by (cases "run cstep xs c1") (auto split: prod.splits)
  qed
qed

end

end
