(* ===== verification/Byte_Array_Spec.thy ===== *)
theory Byte_Array_Spec
  imports Byte_Array Byte_Array_IO Simulation
begin

text \<open>
  The specification of \<open>ByteArray\<close>, a byte list with a position, the proof that the linked
  nodes implement it for every sequence of calls, and the properties of the buffer, its
  \<open>iovec\<close> lists and its file operations.
\<close>

section \<open>Specification\<close>

datatype buf_call = Write "byte list" | Read nat | Seek nat | Clear | SetEndian bool

type_synonym buf = "byte list \<times> nat \<times> bool"

fun buf_step :: "buf_call \<Rightarrow> buf \<Rightarrow> ba_error + byte list \<times> buf" where
  "buf_step (Write xs) (d, p, le) = Inr ([], (take p d @ xs @ drop (p + length xs) d, p + length xs, le))"
| "buf_step (Read n) (d, p, le) =
     (if p + n \<le> length d then Inr (take n (drop p d), (d, p + n, le))
      else Inl (OutOfRange ''not enough len''))"
| "buf_step (Seek q) (d, p, le) = Inr ([], (d, q, le))"
| "buf_step Clear (d, p, le) = Inr ([], ([], 0, le))"
| "buf_step (SetEndian v) (d, p, le) = Inr ([], (d, p, v))"

text \<open>
  The calls the specification speaks of: reads of at least one byte, and seeks inside the data
  (a seek beyond it, up to the capacity, exposes bytes nobody wrote).
\<close>

fun buf_pre :: "buf_call \<Rightarrow> buf \<Rightarrow> bool" where
  "buf_pre (Read n) s = (0 < n)"
| "buf_pre (Seek q) s = (q \<le> length (fst s))"
| "buf_pre _ s = True"

text \<open>The same calls on the buffer of the program.\<close>

fun ba_step :: "buf_call \<Rightarrow> byte_array \<Rightarrow> ba_error + byte list \<times> byte_array" where
  "ba_step (Write xs) b = bind_res (ba_write b xs) (\<lambda>b'. Inr ([], b'))"
| "ba_step (Read n) b = ba_read b n"
| "ba_step (Seek q) b = bind_res (setPosition b q) (\<lambda>b'. Inr ([], b'))"
| "ba_step Clear b = Inr ([], clear b)"
| "ba_step (SetEndian v) b = Inr ([], setIsLittleEndian b v)"

definition ba_abs :: "byte_array \<Rightarrow> buf" where
  "ba_abs b = (ba_data b, m_position b, isLittleEndian b)"

section \<open>Refinement\<close>

lemma clear_ok:
  assumes "ba_inv b"
  shows "ba_inv (clear b)" and "ba_data (clear b) = []" and "m_position (clear b) = 0"
    and "m_endian (clear b) = m_endian b"
proof -
  have ok: "nodes_ok b" using assms by (simp add: ba_inv_def)
  then have "nodes_ok (clear b)"
    by (cases "m_nodes b") (auto simp: nodes_ok_def clear_def)
  moreover from ok have "length (m_nodes (clear b)) = 1"
    by (cases "m_nodes b") (auto simp: nodes_ok_def clear_def)
  ultimately show "ba_inv (clear b)"
    using ok by (auto simp: ba_inv_def cursor_at_def nodes_ok_def clear_def)
  show "ba_data (clear b) = []" and "m_position (clear b) = 0" and "m_endian (clear b) = m_endian b"
    by (simp_all add: ba_data_def clear_def)
qed

lemma setIsLittleEndian_frame [simp]:
  "m_basesize (setIsLittleEndian b v) = m_basesize b" "m_position (setIsLittleEndian b v) = m_position b"
  "m_capacity (setIsLittleEndian b v) = m_capacity b" "m_size (setIsLittleEndian b v) = m_size b"
  "m_nodes (setIsLittleEndian b v) = m_nodes b" "m_cur (setIsLittleEndian b v) = m_cur b"
  "m_endian (setIsLittleEndian b v) = (if v then Little else Big)"
  by (simp_all add: setIsLittleEndian_def)

lemma setIsLittleEndian_ok:
  "ba_inv (setIsLittleEndian b v) = ba_inv b" "ba_data (setIsLittleEndian b v) = ba_data b"
  "isLittleEndian (setIsLittleEndian b v) = v"
  by (simp only: ba_inv_def nodes_ok_def cursor_at_def setIsLittleEndian_frame)
     (simp_all add: isLittleEndian_def ba_data_def ba_flat_def)

interpretation ba_buf: refinement ba_inv ba_abs ba_step buf_step buf_pre
proof
  fix b b' :: byte_array and x out
  assume inv: "ba_inv b" and pre: "buf_pre x (ba_abs b)" and step: "ba_step x b = Inr (out, b')"
  show "ba_inv b' \<and> buf_step x (ba_abs b) = Inr (out, ba_abs b')"
  proof (cases x)
    case (Write xs)
    from ba_cursor.wr_law [OF inv, of xs] step Write show ?thesis
      by (auto simp: ba_abs_def isLittleEndian_def)
  next
    case (Read n)
    with pre step inv ba_inv_moved [OF inv, of "m_position b + n"] show ?thesis
      by (auto simp: ba_read_ok ba_abs_def length_ba_data isLittleEndian_def split: if_splits)
  next
    case (Seek q)
    with pre have "q \<le> length (ba_data b)" by (simp add: ba_abs_def)
    from ba_cursor.seek_law [OF inv this] step Seek show ?thesis
      by (auto simp: ba_abs_def isLittleEndian_def)
  next
    case Clear
    with step clear_ok [OF inv] show ?thesis by (auto simp: ba_abs_def isLittleEndian_def)
  next
    case (SetEndian v)
    with step inv setIsLittleEndian_ok show ?thesis by (auto simp: ba_abs_def)
  qed
next
  fix b :: byte_array and x e
  assume inv: "ba_inv b" and pre: "buf_pre x (ba_abs b)" and step: "ba_step x b = Inl e"
  show "buf_step x (ba_abs b) = Inl e"
  proof (cases x)
    case (Write xs)
    from ba_cursor.wr_law [OF inv, of xs] step Write show ?thesis by auto
  next
    case (Read n)
    with pre step inv show ?thesis
      by (auto simp: ba_read_ok ba_abs_def length_ba_data split: if_splits)
  next
    case (Seek q)
    with pre have "q \<le> length (ba_data b)" by (simp add: ba_abs_def)
    from ba_cursor.seek_law [OF inv this] step Seek show ?thesis by auto
  qed (use step in auto)
qed

text \<open>
  C1. \<open>ByteArray\<close> implements a byte list with a position: for every sequence of calls that
  seeks inside the data and reads at least one byte at a time, the linked-node buffer gives
  the same outputs and the same failures as the specification, and stays well-formed.
\<close>

theorem byte_array_refines:
  assumes "ba_inv b" and "legal buf_pre buf_step calls (ba_abs b)"
  shows "case run ba_step calls b of
      Inl e \<Rightarrow> run buf_step calls (ba_abs b) = Inl e
    | Inr (outs, b') \<Rightarrow> run buf_step calls (ba_abs b) = Inr (outs, ba_abs b') \<and> ba_inv b'"
  by (rule ba_buf.run_refines [OF assms])

lemma byte_array_refines_witness:
  "\<exists>b'. run ba_step [Write [1, 2, 3, 4, 5], Seek 1, Write [9], Seek 0, Read 4] (byte_array_new (\<lambda>_. 0) 2)
     = Inr ([[], [], [], [], [1, 9, 3, 4]], b')"
proof -
  let ?cs = "[Write [1, 2, 3, 4, 5], Seek 1, Write [9], Seek 0, Read 4]" and ?b = "byte_array_new (\<lambda>_. 0) 2"
  have abs: "ba_abs ?b = ([], 0, False)"
    by (simp add: ba_abs_def ba_data_def byte_array_new_def isLittleEndian_def)
  have "legal buf_pre buf_step ?cs (ba_abs ?b)" unfolding abs by simp
  from byte_array_refines [OF ba_inv_new this] show ?thesis
    unfolding abs by (auto simp: numeral_2_eq_2 split: sum.splits)
qed

section \<open>Buffers for the kernel\<close>

text \<open>
  \<open>getReadBuffers\<close> describes the unread bytes: the vector's blocks, read in order, are the
  first \<open>min len size\<close> bytes after the position, and that number is returned.
\<close>

theorem read_buffers_cover:
  assumes "ba_inv b"
  shows "\<exists>iovs. getReadBuffers b len = Inr (min len (m_size b - m_position b), iovs)
    \<and> iov_bytes b iovs = take (min len (m_size b - m_position b)) (drop (m_position b) (ba_data b))"
  by (rule getReadBuffers_ok [OF assms refl, of len]) blast

lemma read_buffers_cover_witness:
  "\<exists>iovs. getReadBuffers (byte_array_new (\<lambda>_. 0) 8) 5 = Inr (0, iovs)"
  using read_buffers_cover [OF ba_inv_new [of 8 "\<lambda>_. 0"], of 5] by (auto simp: byte_array_new_def)

lemma filled_inv:
  assumes "ba_inv b" and "length ns = length (m_nodes b)" and "\<forall>n\<in>set ns. length n = m_basesize b"
  shows "ba_inv (b\<lparr>m_nodes := ns\<rparr>)"
proof -
  have "ns \<noteq> []" using assms(1,2) by (auto simp: ba_inv_def nodes_ok_def)
  then show ?thesis
    using assms by (simp add: ba_inv_def cursor_at_def nodes_ok_def list_all_iff)
qed

text \<open>Growing the capacity keeps the invariant and the data.\<close>

lemma addCapacity_inv:
  assumes "ba_inv b" and "0 < len"
  shows "ba_inv (addCapacity b len)" and "ba_data (addCapacity b len) = ba_data b"
    and "m_position b + len \<le> m_capacity (addCapacity b len)"
proof -
  let ?b1 = "addCapacity b len"
  have ok: "nodes_ok b" and ps: "m_position b \<le> m_size b" "m_size b \<le> m_capacity b"
    using assms(1) by (auto simp: ba_inv_def)
  have ok1: "nodes_ok ?b1" by (rule addCapacity_nodes_ok [OF ok])
  show room: "m_position b + len \<le> m_capacity ?b1"
    using addCapacity_enough [OF assms(1), of len] by simp
  note B = nodes_okD [OF ok1]
  have "m_cur ?b1 = cursor_at ?b1 (m_position b)"
    using addCapacity_cur [OF assms] room B(4) assms(2) by (simp add: cursor_at_def)
  then show "ba_inv ?b1"
    using ok1 ps addCapacity_capacity [of b len] by (simp add: ba_inv_def)
  obtain zs where "ba_flat ?b1 = ba_flat b @ zs" using addCapacity_flat by blast
  then show "ba_data ?b1 = ba_data b"
    using ps length_ba_flat [OF ok] by (simp add: ba_data_def)
qed

text \<open>Receiving into the buffers of \<open>getWriteBuffers\<close>.\<close>

lemma getWriteBuffers_receive:
  assumes "ba_inv b" and "0 < len" and "length bs \<le> len"
  shows "\<exists>iovs b1 b2. getWriteBuffers b len = Inr (len, iovs, b1)
    \<and> setPosition (iov_fill b1 iovs bs) (m_position b + length bs) = Inr b2
    \<and> ba_inv b2 \<and> m_position b2 = m_position b + length bs
    \<and> ba_data b2 = take (m_position b) (ba_data b) @ bs @ drop (m_position b + length bs) (ba_data b)"
proof -
  let ?b1 = "addCapacity b len"
  obtain iovs where iovs: "getWriteBuffers b len = Inr (len, iovs, ?b1)"
    "iov_range ?b1 (m_position b) iovs" "iov_total iovs = len"
    by (rule getWriteBuffers_ok [OF assms(1,2)])
  note I1 = addCapacity_inv [OF assms(1,2)]
  have ok1: "nodes_ok ?b1" using I1(1) by (simp add: ba_inv_def)
  obtain ns where ns: "iov_fill ?b1 iovs bs = ?b1\<lparr>m_nodes := ns\<rparr>" "length ns = length (m_nodes ?b1)"
    "\<forall>n\<in>set ns. length n = m_basesize ?b1" "concat ns = list_write (ba_flat ?b1) (m_position b) bs"
    using iov_fill_range [OF ok1 iovs(2), of bs] iovs(3) assms(3) by auto
  let ?b2 = "?b1\<lparr>m_nodes := ns\<rparr>" and ?p = "m_position b" and ?q = "m_position b + length bs"
  have inv2: "ba_inv ?b2" by (rule filled_inv [OF I1(1) ns(2,3)])
  have sp: "setPosition ?b2 ?q = Inr (?b2\<lparr>m_position := ?q, m_size := max (m_size ?b2) ?q, m_cur := cursor_at ?b2 ?q\<rparr>)"
    using setPosition_ok [OF inv2, of ?q] I1(3) assms(3) by simp
  let ?b3 = "?b2\<lparr>m_position := ?q, m_size := max (m_size ?b2) ?q, m_cur := cursor_at ?b2 ?q\<rparr>"
  have inv3: "ba_inv ?b3"
    using inv2 I1(3) assms(3) by (simp add: ba_inv_def nodes_ok_def cursor_at_def)
  have "?p \<le> m_size b" "m_size b \<le> m_capacity ?b1"
    using assms(1) I1(1) by (auto simp: ba_inv_def)
  moreover have "ba_data ?b3 = take (max (m_size b) ?q) (concat ns)"
    by (simp add: ba_data_def ba_flat_def)
  ultimately have "ba_data ?b3 = take ?p (ba_data ?b1) @ bs @ drop ?q (ba_data ?b1)"
    using take_list_write [of ?p "m_size b" "ba_flat ?b1" bs "[]"] ns(4) length_ba_flat [OF ok1]
    by (simp add: ba_data_def [of ?b1])
  then show ?thesis
    using iovs(1) ns(1) sp I1(2) inv3 by auto
qed

text \<open>
  \<open>getWriteBuffers\<close> and \<open>setPosition\<close> receive bytes: filling the vector with up to \<open>len\<close>
  bytes (what \<open>recv\<close> does) and moving the position past them is the same as writing them.
\<close>

theorem write_buffers_receive:
  assumes "ba_inv b" and "0 < len" and "length bs \<le> len"
  shows "\<exists>iovs b1 b2. getWriteBuffers b len = Inr (len, iovs, b1)
    \<and> setPosition (iov_fill b1 iovs bs) (m_position b + length bs) = Inr b2
    \<and> ba_inv b2 \<and> m_position b2 = m_position b + length bs
    \<and> ba_data b2 = take (m_position b) (ba_data b) @ bs @ drop (m_position b + length bs) (ba_data b)"
  by (rule getWriteBuffers_receive [OF assms])

lemma write_buffers_receive_witness:
  "\<exists>iovs b1 b2. getWriteBuffers (byte_array_new (\<lambda>_. 0) 2) 5 = Inr (5, iovs, b1)
    \<and> setPosition (iov_fill b1 iovs [7, 8, 9]) 3 = Inr b2 \<and> ba_data b2 = [7, 8, 9]"
  using write_buffers_receive [OF ba_inv_new [of 2 "\<lambda>_. 0"], of 5 "[7, 8, 9]"]
  by (auto simp: byte_array_new_def ba_data_def numeral_3_eq_3)

section \<open>Text and files\<close>

lemma ba_toString_ok:
  assumes "ba_inv b"
  shows "ba_toString b = Inr (drop (m_position b) (ba_data b))"
proof (cases "m_position b = m_size b")
  case True
  then show ?thesis using length_ba_data [OF assms] by (simp add: ba_toString_def getReadSize_def)
next
  case False
  have ps: "m_position b \<le> m_size b" using assms by (simp add: ba_inv_def)
  then have n: "0 < m_size b - m_position b" using False by simp
  have "ba_read_at b (m_size b - m_position b) (m_position b)
      = bind_res (ba_read b (m_size b - m_position b)) (\<lambda>(bs, _). Inr bs)"
    using ps
    by (auto simp: ba_read_at_def ba_read_def getReadSize_def Let_def bind_res_def split: option.splits sum.splits)
  then show ?thesis
    using n ps ba_read_ok [OF assms n] length_ba_data [OF assms] by (simp add: ba_toString_def getReadSize_def)
qed

text \<open>
  \<open>toString\<close> returns the bytes from the position to the end, and \<open>toHexString\<close> prints
  each of them as two hexadecimal digits and a space, 32 bytes to a line.
\<close>

theorem to_string_spec:
  assumes "ba_inv b"
  shows "ba_toString b = Inr (drop (m_position b) (ba_data b))
    \<and> toHexString b = Inr (concat (map (\<lambda>(i, x). (if 0 < i \<and> i mod 32 = 0 then [CHR 0x0A] else [])
          @ [digit_char (unat x div 16), digit_char (unat x mod 16), CHR '' ''])
        (enumerate 0 (drop (m_position b) (ba_data b)))))"
proof -
  have "hex_loop i xs = concat (map (\<lambda>(i, x). (if 0 < i \<and> i mod 32 = 0 then [CHR 0x0A] else [])
      @ [digit_char (unat x div 16), digit_char (unat x mod 16), CHR '' '']) (enumerate i xs))" for i xs
    by (induction i xs rule: hex_loop.induct) (simp_all add: hex2_digits)
  then show ?thesis by (simp add: toHexString_def ba_toString_ok [OF assms])
qed

lemma to_string_spec_witness: "ba_toString (byte_array_new (\<lambda>_. 0) 4) = Inr []"
  using to_string_spec [OF ba_inv_new [of 4 "\<lambda>_. 0"]] by (simp add: byte_array_new_def ba_data_def)

text \<open>
  \<open>readFromFile\<close> appends the whole file at the position, whatever its size, and
  \<open>writeToFile\<close> from a position at the start of a node writes exactly the unread bytes.
\<close>

theorem file_round_trip:
  assumes "ba_inv b"
  shows "(\<exists>b'. readFromFile b (Some bytes) = Inr (True, b') \<and> ba_inv b' \<and>
      ba_data b' = take (m_position b) (ba_data b) @ bytes @ drop (m_position b + length bytes) (ba_data b))
    \<and> (m_basesize b dvd m_position b \<longrightarrow> writeToFile b True = Inr (True, drop (m_position b) (ba_data b)))"
proof (intro conjI impI)
  have B: "0 < m_basesize b" using assms by (auto simp: ba_inv_def nodes_ok_def)
  show "\<exists>b'. readFromFile b (Some bytes) = Inr (True, b') \<and> ba_inv b' \<and>
      ba_data b' = take (m_position b) (ba_data b) @ bytes @ drop (m_position b + length bytes) (ba_data b)"
    using read_file_loop_ok [OF assms B, of bytes] by (auto simp: readFromFile_def)
next
  assume "m_basesize b dvd m_position b"
  then obtain c where c: "m_position b = m_basesize b * c" by (auto elim: dvdE)
  have ok: "nodes_ok b" and ps: "m_position b \<le> m_size b" "m_size b \<le> m_capacity b"
    and cur: "m_cur b = cursor_at b (m_position b)"
    using assms by (auto simp: ba_inv_def)
  note B = nodes_okD [OF ok]
  have "write_file_loop b ([], False) (m_cur b) (int (m_basesize b * c)) (int (m_size b - m_position b))
      = Inr ([] @ take (m_size b - m_position b) (drop (m_basesize b * c) (ba_flat b)), False)"
    by (rule write_file_loop_aligned [OF ok]) (use c ps B(4) cur in simp_all)
  moreover have "take (m_size b - m_position b) (drop (m_position b) (ba_flat b)) = drop (m_position b) (ba_data b)"
    by (simp add: ba_data_def drop_take)
  ultimately show "writeToFile b True = Inr (True, drop (m_position b) (ba_data b))"
    using c ps B(1) by (simp add: writeToFile_def getReadSize_def)
qed

lemma file_round_trip_witness:
  "\<exists>b'. readFromFile (byte_array_new (\<lambda>_. 0) 2) (Some [1, 2, 3, 4]) = Inr (True, b') \<and> ba_data b' = [1, 2, 3, 4]"
  using file_round_trip [OF ba_inv_new [of 2 "\<lambda>_. 0"], of "[1, 2, 3, 4]"]
  by (auto simp: byte_array_new_def ba_data_def)

text \<open>
  \<open>writeToFile\<close> from inside a node fails: its loop subtracts the offset in the node from
  the count on every round, so a buffer of one node with unread bytes after a position that is
  not 0 runs past the last node and dereferences a null pointer.
\<close>

theorem write_to_file_unaligned:
  assumes "ba_inv b" and "length (m_nodes b) = 1" and "0 < m_position b" and "m_position b < m_size b"
  shows "writeToFile b True = Inl NullDeref"
proof -
  have ok: "nodes_ok b" and ps: "m_position b \<le> m_size b" "m_size b \<le> m_capacity b"
    and cur: "m_cur b = cursor_at b (m_position b)"
    using assms(1) by (auto simp: ba_inv_def)
  note B = nodes_okD [OF ok]
  have lt: "m_position b < m_basesize b" using assms(2,4) ps B(4) by simp
  then have cur0: "m_cur b = Some 0" using cur assms(2) by (simp add: cursor_at_def)
  have nx: "node_next b 0 = None" using assms(2) by (simp add: node_next_def)
  have "\<not> m_basesize b < m_size b - m_position b" using assms(2) ps B(4) by simp
  then have "write_file_loop b ofs (Some 0) (int (m_position b)) (int (m_size b - m_position b)) = Inl NullDeref" for ofs
    using assms(3,4) lt
    by (simp add: write_file_loop.simps [of b _ "Some 0"] write_file_loop.simps [of b _ None] nx Let_def
        flip: of_nat_mod)
  then show ?thesis using ps B(1) cur0 by (simp add: writeToFile_def getReadSize_def)
qed

lemma write_to_file_unaligned_witness:
  "\<exists>b b'. ba_write (byte_array_new (\<lambda>_. 0) 4) [1, 2, 3] = Inr b \<and> setPosition b 1 = Inr b' \<and>
     writeToFile b' True = Inl NullDeref"
proof -
  let ?b = "\<lparr>m_basesize = 4, m_position = 1, m_capacity = 4, m_size = 3, m_endian = Big,
    m_nodes = [[1, 2, 3, 0]], m_cur = Some 0, m_fresh = (\<lambda>_. 0)\<rparr> :: byte_array"
  have "writeToFile ?b True = Inl NullDeref"
    by (rule write_to_file_unaligned) (simp_all add: ba_inv_def nodes_ok_def cursor_at_def)
  moreover have "bind_res (ba_write (byte_array_new (\<lambda>_. 0) 4) [1, 2, 3]) (\<lambda>b. setPosition b 1) = Inr ?b"
    by (simp add: byte_array_new_def new_node_def ba_write_def addCapacity_def getCapacity_def
        write_loop.simps node_put_def node_size_def list_write_def upt_conv_Cons setPosition_def seek_loop.simps Let_def)
  ultimately show ?thesis by (auto simp: bind_res_eq_Inr)
qed

text \<open>
  The positional \<open>read\<close> takes its first node from the current position and not from the
  position asked for, so it returns the wrong bytes when the two lie in different nodes.
\<close>

theorem read_at_wrong_node:
  "case ba_write (byte_array_new (\<lambda>_. 0) 2) [1, 2, 3, 4, 5] of
     Inl _ \<Rightarrow> False
   | Inr b \<Rightarrow> take 1 (drop 0 (ba_data b)) = [1] \<and> ba_read_at b 1 0 = Inr [5]"
  by code_simp

end
