(* ===== verification/Byte_Codec.thy ===== *)
theory Byte_Codec
  imports Byte_Array
begin

text \<open>
  The encodings of \<open>src/bytearray.cpp\<close> and the byte swapping of \<open>include/endian_.h\<close>.
  An integer of \<open>w\<close> bits, signed or not, is a \<open>w word\<close>; a float or a double is its bit
  pattern (the code copies it with \<open>memcpy\<close>). The byte order of the machine,
  \<open>AZURE_BYTE_ORDER\<close>, is the argument \<open>host\<close>.
\<close>

section \<open>Integers in memory\<close>

definition le_bytes :: "'a::len word \<Rightarrow> byte list" where
  "le_bytes w = map (\<lambda>i. ucast (drop_bit (8 * i) w)) [0..<LENGTH('a) div 8]"

fun of_le_bytes :: "byte list \<Rightarrow> 'a::len word" where
  "of_le_bytes [] = 0"
| "of_le_bytes (x # xs) = ucast x OR push_bit 8 (of_le_bytes xs)"

definition mem_bytes :: "endian \<Rightarrow> 'a::len word \<Rightarrow> byte list" where
  "mem_bytes host w = (case host of Little \<Rightarrow> le_bytes w | Big \<Rightarrow> rev (le_bytes w))"

definition of_mem :: "endian \<Rightarrow> byte list \<Rightarrow> 'a::len word" where
  "of_mem host bs = (case host of Little \<Rightarrow> of_le_bytes bs | Big \<Rightarrow> of_le_bytes (rev bs))"

text \<open>\<open>bswap_16\<close>, \<open>bswap_32\<close>, \<open>bswap_64\<close>.\<close>

definition byteswap :: "'a::len word \<Rightarrow> 'a word" where
  "byteswap w = of_le_bytes (rev (le_bytes w))"

definition byteswapOnLittleEndian :: "endian \<Rightarrow> 'a::len word \<Rightarrow> 'a word" where
  "byteswapOnLittleEndian host t = (case host of Big \<Rightarrow> t | Little \<Rightarrow> byteswap t)"

definition byteswapOnBigEndian :: "endian \<Rightarrow> 'a::len word \<Rightarrow> 'a word" where
  "byteswapOnBigEndian host t = (case host of Big \<Rightarrow> byteswap t | Little \<Rightarrow> t)"

section \<open>Fixed-width integers\<close>

definition writeF :: "endian \<Rightarrow> byte_array \<Rightarrow> 'a::len word \<Rightarrow> ba_error + byte_array" where
  "writeF host b v =
     ba_write b (mem_bytes host (if m_endian b \<noteq> host then byteswap v else v))"

definition readF :: "endian \<Rightarrow> byte_array \<Rightarrow> ba_error + 'a::len word \<times> byte_array" where
  "readF host b =
     bind_res (ba_read b (LENGTH('a) div 8)) (\<lambda>(bs, b').
       Inr (let v = of_mem host bs in if m_endian b = Big then byteswap v else v, b'))"

definition writeFint8 :: "byte_array \<Rightarrow> byte \<Rightarrow> ba_error + byte_array" where
  "writeFint8 b v = ba_write b [v]"

definition writeFuint8 :: "byte_array \<Rightarrow> byte \<Rightarrow> ba_error + byte_array" where
  "writeFuint8 b v = ba_write b [v]"

definition writeFint16 :: "endian \<Rightarrow> byte_array \<Rightarrow> u16 \<Rightarrow> ba_error + byte_array" where
  "writeFint16 = writeF"

definition writeFuint16 :: "endian \<Rightarrow> byte_array \<Rightarrow> u16 \<Rightarrow> ba_error + byte_array" where
  "writeFuint16 = writeF"

definition writeFint32 :: "endian \<Rightarrow> byte_array \<Rightarrow> u32 \<Rightarrow> ba_error + byte_array" where
  "writeFint32 = writeF"

definition writeFuint32 :: "endian \<Rightarrow> byte_array \<Rightarrow> u32 \<Rightarrow> ba_error + byte_array" where
  "writeFuint32 = writeF"

definition writeFint64 :: "endian \<Rightarrow> byte_array \<Rightarrow> u64 \<Rightarrow> ba_error + byte_array" where
  "writeFint64 = writeF"

definition writeFuint64 :: "endian \<Rightarrow> byte_array \<Rightarrow> u64 \<Rightarrow> ba_error + byte_array" where
  "writeFuint64 = writeF"

definition readFuint8 :: "byte_array \<Rightarrow> ba_error + byte \<times> byte_array" where
  "readFuint8 b = bind_res (ba_read b 1) (\<lambda>(bs, b'). Inr (hd bs, b'))"

definition readFint8 :: "byte_array \<Rightarrow> ba_error + byte \<times> byte_array" where
  "readFint8 b = bind_res (ba_read b 1) (\<lambda>(bs, b'). Inr (hd bs, b'))"

definition readFint16 :: "endian \<Rightarrow> byte_array \<Rightarrow> ba_error + u16 \<times> byte_array" where
  "readFint16 = readF"

definition readFuint16 :: "endian \<Rightarrow> byte_array \<Rightarrow> ba_error + u16 \<times> byte_array" where
  "readFuint16 = readF"

definition readFint32 :: "endian \<Rightarrow> byte_array \<Rightarrow> ba_error + u32 \<times> byte_array" where
  "readFint32 = readF"

definition readFuint32 :: "endian \<Rightarrow> byte_array \<Rightarrow> ba_error + u32 \<times> byte_array" where
  "readFuint32 = readF"

definition readFint64 :: "endian \<Rightarrow> byte_array \<Rightarrow> ba_error + u64 \<times> byte_array" where
  "readFint64 = readF"

definition readFuint64 :: "endian \<Rightarrow> byte_array \<Rightarrow> ba_error + u64 \<times> byte_array" where
  "readFuint64 = readF"

text \<open>\<open>writeFloat\<close> and \<open>writeDouble\<close> on the bit pattern of the value.\<close>

definition writeFloat :: "endian \<Rightarrow> byte_array \<Rightarrow> u32 \<Rightarrow> ba_error + byte_array" where
  "writeFloat host b v = writeFint32 host b v"

definition writeDouble :: "endian \<Rightarrow> byte_array \<Rightarrow> u64 \<Rightarrow> ba_error + byte_array" where
  "writeDouble host b v = writeFint64 host b v"

definition readFloat :: "endian \<Rightarrow> byte_array \<Rightarrow> ba_error + u32 \<times> byte_array" where
  "readFloat host b = readFuint32 host b"

definition readDouble :: "endian \<Rightarrow> byte_array \<Rightarrow> ba_error + u64 \<times> byte_array" where
  "readDouble host b = readFuint64 host b"

section \<open>Zigzag\<close>

text \<open>
  The signed operand is read as a two's-complement word, so \<open>-v\<close> of the least
  value is the value itself.
\<close>

definition EncodeZigzag :: "'a::len word \<Rightarrow> 'a word" where
  "EncodeZigzag v = (if sint v < 0 then (- v) * 2 - 1 else v * 2)"

definition DecodeZigzag :: "'a::len word \<Rightarrow> 'a word" where
  "DecodeZigzag v = drop_bit 1 v XOR - (v AND 1)"

definition EncodeZigzag32 :: "u32 \<Rightarrow> u32" where
  "EncodeZigzag32 = EncodeZigzag"

definition EncodeZigzag64 :: "u64 \<Rightarrow> u64" where
  "EncodeZigzag64 = EncodeZigzag"

definition DecodeZigzag32 :: "u32 \<Rightarrow> u32" where
  "DecodeZigzag32 = DecodeZigzag"

definition DecodeZigzag64 :: "u64 \<Rightarrow> u64" where
  "DecodeZigzag64 = DecodeZigzag"

section \<open>Variable-length integers\<close>

text \<open>
  The loop of \<open>writeUint32\<close> and \<open>writeUint64\<close>: \<open>tmp\<close> holds the bytes stored so far in
  the local array of \<open>cap\<close> bytes; a store past its end is \<open>BadCopy\<close>.
\<close>

function varint_loop :: "nat \<Rightarrow> byte list \<Rightarrow> 'a::len word \<Rightarrow> ba_error + byte list" where
  "varint_loop cap tmp value =
     (if cap \<le> length tmp then Inl BadCopy
      else if 0x80 \<le> value
      then varint_loop cap (tmp @ [ucast ((value AND 0x7f) OR 0x80)]) (drop_bit 7 value)
      else Inr (tmp @ [ucast value]))"
  by pat_completeness auto
termination
  by (relation "measure (\<lambda>(cap, tmp, _). cap - length tmp)") auto

declare varint_loop.simps [simp del]

definition writeUint32 :: "byte_array \<Rightarrow> u32 \<Rightarrow> ba_error + byte_array" where
  "writeUint32 b value = bind_res (varint_loop 5 [] value) (\<lambda>tmp. ba_write b tmp)"

definition writeUint64 :: "byte_array \<Rightarrow> u64 \<Rightarrow> ba_error + byte_array" where
  "writeUint64 b value = bind_res (varint_loop 10 [] value) (\<lambda>tmp. ba_write b tmp)"

definition writeInt32 :: "byte_array \<Rightarrow> u32 \<Rightarrow> ba_error + byte_array" where
  "writeInt32 b value = writeUint32 b (EncodeZigzag32 value)"

definition writeInt64 :: "byte_array \<Rightarrow> u64 \<Rightarrow> ba_error + byte_array" where
  "writeInt64 b value = writeUint64 b (EncodeZigzag64 value)"

text \<open>The loop \<open>for(int i = 0; i < 32; i += 7)\<close> of \<open>readUint32\<close>, and with 64 of \<open>readUint64\<close>.\<close>

function unvarint_loop :: "nat \<Rightarrow> 'a::len word \<Rightarrow> byte_array \<Rightarrow> ba_error + 'a word \<times> byte_array" where
  "unvarint_loop i result b =
     (if i < LENGTH('a)
      then bind_res (readFuint8 b) (\<lambda>(x, b').
             if x < 0x80 then Inr (result OR push_bit i (ucast x), b')
             else unvarint_loop (i + 7) (result OR push_bit i (ucast (x AND 0x7f))) b')
      else Inr (result, b))"
  by pat_completeness auto
termination
  by (relation "measure (\<lambda>(i, _ :: 'a word, _). LENGTH('a) - i)") auto

declare unvarint_loop.simps [simp del]

definition readUint32 :: "byte_array \<Rightarrow> ba_error + u32 \<times> byte_array" where
  "readUint32 b = unvarint_loop 0 0 b"

definition readUint64 :: "byte_array \<Rightarrow> ba_error + u64 \<times> byte_array" where
  "readUint64 b = unvarint_loop 0 0 b"

definition readInt32 :: "byte_array \<Rightarrow> ba_error + u32 \<times> byte_array" where
  "readInt32 b = bind_res (readUint32 b) (\<lambda>(v, b'). Inr (DecodeZigzag32 v, b'))"

definition readInt64 :: "byte_array \<Rightarrow> ba_error + u64 \<times> byte_array" where
  "readInt64 b = bind_res (readUint64 b) (\<lambda>(v, b'). Inr (DecodeZigzag64 v, b'))"

section \<open>Strings\<close>

text \<open>
  \<open>value.size()\<close> is converted to the type of the length field. In the readers the string
  is resized to the length that was read (memory is not bounded here) and filled by one
  \<open>read\<close>, also when the length is 0.
\<close>

definition writeStringF16 :: "endian \<Rightarrow> byte_array \<Rightarrow> byte list \<Rightarrow> ba_error + byte_array" where
  "writeStringF16 host b value =
     bind_res (writeFint16 host b (of_nat (length value))) (\<lambda>b'. ba_write b' value)"

definition writeStringF32 :: "endian \<Rightarrow> byte_array \<Rightarrow> byte list \<Rightarrow> ba_error + byte_array" where
  "writeStringF32 host b value =
     bind_res (writeFint32 host b (of_nat (length value))) (\<lambda>b'. ba_write b' value)"

definition writeStringF64 :: "endian \<Rightarrow> byte_array \<Rightarrow> byte list \<Rightarrow> ba_error + byte_array" where
  "writeStringF64 host b value =
     bind_res (writeFint64 host b (of_nat (length value))) (\<lambda>b'. ba_write b' value)"

definition writeStringVint :: "endian \<Rightarrow> byte_array \<Rightarrow> byte list \<Rightarrow> ba_error + byte_array" where
  "writeStringVint host b value =
     bind_res (writeFint64 host b (of_nat (length value))) (\<lambda>b'. ba_write b' value)"

definition writeStringWithoutLength :: "byte_array \<Rightarrow> byte list \<Rightarrow> ba_error + byte_array" where
  "writeStringWithoutLength b value = ba_write b value"

definition readStringF16 :: "endian \<Rightarrow> byte_array \<Rightarrow> ba_error + byte list \<times> byte_array" where
  "readStringF16 host b = bind_res (readFuint16 host b) (\<lambda>(len, b'). ba_read b' (unat len))"

definition readStringF32 :: "endian \<Rightarrow> byte_array \<Rightarrow> ba_error + byte list \<times> byte_array" where
  "readStringF32 host b = bind_res (readFuint32 host b) (\<lambda>(len, b'). ba_read b' (unat len))"

definition readStringF64 :: "endian \<Rightarrow> byte_array \<Rightarrow> ba_error + byte list \<times> byte_array" where
  "readStringF64 host b = bind_res (readFuint64 host b) (\<lambda>(len, b'). ba_read b' (unat len))"

definition readStringVint :: "byte_array \<Rightarrow> ba_error + byte list \<times> byte_array" where
  "readStringVint b = bind_res (readUint64 b) (\<lambda>(len, b'). ba_read b' (unat len))"

lemmas codec_fixed_defs =
  writeFint16_def writeFuint16_def writeFint32_def writeFuint32_def writeFint64_def writeFuint64_def
  readFint16_def readFuint16_def readFint32_def readFuint32_def readFint64_def readFuint64_def

section \<open>Bytes and words\<close>

lemma length_le_bytes [simp]: "length (le_bytes (w :: 'a::len word)) = LENGTH('a) div 8"
  by (simp add: le_bytes_def)

lemma length_mem_bytes [simp]: "length (mem_bytes host (w :: 'a::len word)) = LENGTH('a) div 8"
  by (simp add: mem_bytes_def split: endian.split)

lemma bit_of_le_bytes:
  "bit (of_le_bytes bs :: 'a::len word) n \<longleftrightarrow>
     n < LENGTH('a) \<and> n div 8 < length bs \<and> bit (bs ! (n div 8)) (n mod 8)"
proof (induction bs arbitrary: n)
  case (Cons x xs)
  have "8 \<le> n \<Longrightarrow> n div 8 = Suc ((n - 8) div 8) \<and> n mod 8 = (n - 8) mod 8"
    by (metis add_diff_inverse_nat not_less Suc_eq_plus1 add.commute div_add_self1 mod_add_self1 zero_neq_numeral)
  then show ?case
    by (cases "n < 8")
       (auto simp: bit_simps Cons.IH nth_Cons dest: bit_imp_le_length)
qed simp

lemma of_le_bytes_le_bytes:
  assumes "8 dvd LENGTH('a::len)"
  shows "of_le_bytes (le_bytes (w :: 'a word)) = w"
proof (rule bit_word_eqI)
  fix n assume "n < LENGTH('a)"
  moreover from this assms have "n div 8 < LENGTH('a) div 8"
    by (simp add: div_less_iff_less_mult)
  ultimately show "bit (of_le_bytes (le_bytes w) :: 'a word) n \<longleftrightarrow> bit w n"
    by (simp add: bit_of_le_bytes) (simp add: le_bytes_def bit_simps)
qed

lemma le_bytes_of_le_bytes:
  assumes "length bs = LENGTH('a::len) div 8"
  shows "le_bytes (of_le_bytes bs :: 'a word) = bs"
proof (rule nth_equalityI)
  fix i assume "i < length (le_bytes (of_le_bytes bs :: 'a word))"
  then have i: "i < LENGTH('a) div 8" by simp
  show "le_bytes (of_le_bytes bs :: 'a word) ! i = bs ! i"
  proof (rule bit_word_eqI)
    fix n assume "n < LENGTH(8)"
    moreover have "8 * i + 8 \<le> LENGTH('a)" using i by (simp add: less_eq_div_iff_mult_less_eq Suc_le_eq [symmetric])
    ultimately show "bit (le_bytes (of_le_bytes bs :: 'a word) ! i) n \<longleftrightarrow> bit (bs ! i) n"
      using i assms by (auto simp: le_bytes_def bit_simps bit_of_le_bytes)
  qed
qed (simp add: assms)

lemma byteswap_byteswap:
  assumes "8 dvd LENGTH('a::len)"
  shows "byteswap (byteswap (w :: 'a word)) = w"
  by (simp add: byteswap_def le_bytes_of_le_bytes of_le_bytes_le_bytes assms)

text \<open>The bytes of \<open>v\<close> on the wire depend on the buffer's order only, not on the host's.\<close>

lemma mem_bytes_swap:
  "mem_bytes host (if e \<noteq> host then byteswap v else v) = mem_bytes e (v :: 'a::len word)"
  by (cases e; cases host) (simp_all add: mem_bytes_def byteswap_def le_bytes_of_le_bytes)

lemma of_mem_mem:
  assumes "8 dvd LENGTH('a::len)"
  shows "(if e = Big then byteswap (of_mem Little (mem_bytes e v)) else of_mem Little (mem_bytes e v))
    = (v :: 'a word)"
  by (cases e) (simp_all add: mem_bytes_def of_mem_def of_le_bytes_le_bytes assms byteswap_def
      le_bytes_of_le_bytes)

section \<open>What the encoders write and the decoders read\<close>

abbreviation ba_writes :: "(byte_array \<Rightarrow> ba_error + byte_array) \<Rightarrow> endian \<Rightarrow> byte list \<Rightarrow> bool" where
  "ba_writes \<equiv> ba_cursor.writes"

abbreviation ba_reads :: "(byte_array \<Rightarrow> ba_error + 'a \<times> byte_array) \<Rightarrow> endian \<Rightarrow> byte list \<Rightarrow> 'a \<Rightarrow> bool" where
  "ba_reads \<equiv> ba_cursor.reads"

lemma writeF_writes: "ba_writes (\<lambda>b. writeF host b v) e (mem_bytes e v)"
  by (rule ba_cursor.writes_cong [OF ba_cursor.writes_wr])
     (simp only: writeF_def mem_bytes_swap)

lemma readF_reads:
  assumes "8 dvd LENGTH('a::len)"
  shows "ba_reads (readF Little) e (mem_bytes e (v :: 'a word)) v"
proof (rule ba_cursor.reads_cong)
  have "0 < LENGTH('a) div 8"
    using assms len_gt_0 [where 'a = 'a] by (simp add: dvd_imp_le div_greater_zero_iff del: len_gt_0)
  then have "mem_bytes e v \<noteq> []" by (metis length_mem_bytes length_0_conv less_irrefl)
  then show "ba_reads (\<lambda>b. bind_res (ba_read b (LENGTH('a) div 8)) (\<lambda>(bs, b').
      Inr (if e = Big then byteswap (of_mem Little bs) else of_mem Little bs, b'))) e (mem_bytes e v) v"
    by (intro ba_cursor.reads_map [OF ba_cursor.reads_rd]) (simp_all add: of_mem_mem assms)
qed (simp add: readF_def Let_def)

lemma readFuint8_reads: "ba_reads readFuint8 e [x] x"
  by (rule ba_cursor.reads_cong [OF ba_cursor.reads_map [OF ba_cursor.reads_rd [of 1 "[x]"], of _ hd]])
     (simp_all add: readFuint8_def)

subsection \<open>Zigzag\<close>

lemma drop_bit_double:
  assumes "\<not> bit v (LENGTH('a::len) - 1)"
  shows "drop_bit 1 (push_bit 1 (v :: 'a word)) = v"
proof (rule bit_word_eqI)
  fix n assume n: "n < LENGTH('a)"
  then have "Suc n < LENGTH('a) \<or> n = LENGTH('a) - 1" by linarith
  then show "bit (drop_bit 1 (push_bit 1 v)) n = bit v n" using assms n by (auto simp: bit_simps mult.commute [of _ 2] bit_double_iff)
qed

lemma drop_bit_not_double:
  assumes "bit v (LENGTH('a::len) - 1)"
  shows "NOT (drop_bit 1 (NOT (push_bit 1 (v :: 'a word)))) = v"
proof (rule bit_word_eqI)
  fix n assume n: "n < LENGTH('a)"
  then have "Suc n < LENGTH('a) \<or> n = LENGTH('a) - 1" by linarith
  then show "bit (NOT (drop_bit 1 (NOT (push_bit 1 v)))) n = bit v n" using assms n by (auto simp: bit_simps mult.commute [of _ 2] bit_double_iff)
qed

lemma Decode_Encode_Zigzag: "DecodeZigzag (EncodeZigzag v) = (v :: 'a::len word)"
proof (cases "sint v < 0")
  case True
  then have top: "bit v (LENGTH('a) - 1)" by (simp add: bit_last_iff)
  have enc: "EncodeZigzag v = NOT (push_bit 1 v)"
    using True by (simp add: EncodeZigzag_def not_eq_complement push_bit_eq_mult)
  have "NOT (push_bit 1 v) AND 1 = (1 :: 'a word)"
    by (rule bit_word_eqI) (auto simp: bit_simps mult.commute [of _ 2] bit_double_iff)
  then show ?thesis
    using drop_bit_not_double [OF top] enc by (simp add: DecodeZigzag_def)
next
  case False
  then have top: "\<not> bit v (LENGTH('a) - 1)" by (simp add: bit_last_iff)
  have enc: "EncodeZigzag v = push_bit 1 v"
    using False by (simp add: EncodeZigzag_def push_bit_eq_mult)
  have "push_bit 1 v AND 1 = (0 :: 'a word)"
    by (rule bit_word_eqI) (auto simp: bit_simps mult.commute [of _ 2] bit_double_iff)
  then show ?thesis
    using drop_bit_double [OF top] enc by (simp add: DecodeZigzag_def)
qed

subsection \<open>Variable-length integers\<close>

lemma unat_0x80:
  assumes "8 \<le> LENGTH('a::len)"
  shows "unat (0x80 :: 'a word) = 128"
proof -
  have "(2::nat) ^ 8 \<le> 2 ^ LENGTH('a)" using assms by (rule power_increasing) simp
  then show ?thesis by (simp add: take_bit_nat_eq_self)
qed

lemma varint_loop_total:
  assumes "length tmp < cap" and "unat v < 2 ^ (7 * (cap - length tmp))" and "8 \<le> LENGTH('a::len)"
  shows "\<exists>ys. varint_loop cap tmp (v :: 'a word) = Inr (tmp @ ys) \<and> 0 < length ys \<and> length tmp + length ys \<le> cap"
  using assms
proof (induction cap tmp v rule: varint_loop.induct)
  case (1 cap tmp v)
  note big = unat_0x80 [OF "1.prems"(3)]
  show ?case
  proof (cases "0x80 \<le> v")
    case False
    then show ?thesis using "1.prems"(1) by (simp add: varint_loop.simps [of cap tmp])
  next
    case True
    then have ge: "128 \<le> unat v" using big by (simp add: word_le_nat_alt)
    obtain k where k: "cap - length tmp = Suc k" using "1.prems"(1) by (metis Suc_diff_Suc)
    have "k \<noteq> 0" using ge "1.prems"(2) k by (intro notI) simp
    have "unat (drop_bit 7 v) = unat v div 128" by (simp only: unat_drop_bit_eq) (simp add: drop_bit_eq_div)
    also have "\<dots> < 2 ^ (7 * k)"
      using "1.prems"(2) k by (simp add: div_less_iff_less_mult power_add mult.commute)
    finally have "unat (drop_bit 7 v) < 2 ^ (7 * (cap - length (tmp @ [ucast (v AND 0x7f OR 0x80)])))"
      using k by (simp add: diff_Suc)
    then obtain ys where "varint_loop cap (tmp @ [ucast ((v AND 0x7f) OR 0x80)]) (drop_bit 7 v)
        = Inr ((tmp @ [ucast ((v AND 0x7f) OR 0x80)]) @ ys)" "length tmp + Suc (length ys) \<le> cap"
      using "1.IH" [OF _ True] "1.prems" k \<open>k \<noteq> 0\<close> by fastforce
    then show ?thesis using True "1.prems"(1)
      by (intro exI [of _ "ucast ((v AND 0x7f) OR 0x80) # ys"]) (simp add: varint_loop.simps [of cap tmp])
  qed
qed

lemma varint_bounds:
  shows varint32_ok: "\<exists>bs. varint_loop 5 [] (v :: u32) = Inr bs \<and> 0 < length bs \<and> length bs \<le> 5"
    and varint64_ok: "\<exists>bs. varint_loop 10 [] (w :: u64) = Inr bs \<and> 0 < length bs \<and> length bs \<le> 10"
proof -
  have "unat v < 2 ^ 35" "unat w < 2 ^ 70"
    using unsigned_less [of v, where 'a = nat] unsigned_less [of w, where 'a = nat] by simp_all
  then show "\<exists>bs. varint_loop 5 [] v = Inr bs \<and> 0 < length bs \<and> length bs \<le> 5"
    and "\<exists>bs. varint_loop 10 [] w = Inr bs \<and> 0 < length bs \<and> length bs \<le> 10"
    using varint_loop_total [of "[]" 5 v] varint_loop_total [of "[]" 10 w] by auto
qed

lemma take_bit_step: "take_bit i V OR push_bit i (take_bit 7 (drop_bit i V)) = take_bit (i + 7) (V :: 'a::len word)"
  by (rule bit_word_eqI) (auto simp: bit_simps)

lemma varint_small:
  "8 \<le> LENGTH('a::len) \<Longrightarrow> v < (0x80 :: 'a word) \<longleftrightarrow> take_bit 7 v = v"
  using unat_0x80 [where 'a = 'a]
  by (simp only: word_less_nat_alt word_unat_eq_iff unsigned_take_bit_eq take_bit_nat_eq_self_iff) simp

lemma varint_last:
  assumes "take_bit 7 v = v" and "8 \<le> LENGTH('a::len)"
  shows "ucast v < (0x80 :: byte)" and "ucast (ucast v :: byte) = (v :: 'a word)"
proof -
  have *: "bit v n \<Longrightarrow> n < 7" for n
    using arg_cong [OF assms(1), of "\<lambda>w. bit w n"] by (simp add: bit_take_bit_iff)
  have "take_bit 7 (ucast v :: byte) = ucast v"
    by (rule bit_word_eqI) (auto simp: bit_simps dest: *)
  then show "ucast v < (0x80 :: byte)" by (simp add: varint_small)
  show "ucast (ucast v :: byte) = v"
    by (rule bit_word_eqI) (auto simp: bit_simps dest: *)
qed

lemma and_0x7f: "x AND 0x7f = take_bit 7 (x :: 'a::len word)"
  by (simp add: take_bit_eq_mask mask_eq_decr_exp)

lemma bit_0x80: "bit (0x80 :: 'a::len word) n \<longleftrightarrow> n = 7 \<and> 7 < LENGTH('a)"
  using bit_exp_iff [of 7 n, where 'a = "'a word"] by (auto simp: possible_bit_word)

lemma varint_cont:
  assumes "8 \<le> LENGTH('a::len)"
  shows "\<not> (ucast (((v :: 'a word) AND 0x7f) OR 0x80) :: byte) < 0x80"
    and "ucast ((ucast ((v AND 0x7f) OR 0x80) :: byte) AND 0x7f) = take_bit 7 v"
proof -
  let ?x = "ucast ((v AND 0x7f) OR 0x80) :: byte"
  have bx: "bit ?x n \<longleftrightarrow> n < 7 \<and> bit v n \<or> n = 7" for n
    using assms by (auto simp only: bit_unsigned_iff bit_or_iff and_0x7f bit_take_bit_iff bit_0x80
        possible_bit_word) (simp_all add: bit_imp_le_length)
  have "\<not> bit (take_bit 7 ?x) 7" by (simp add: bit_take_bit_iff)
  then show "\<not> ?x < 0x80" using bx [of 7] by (simp add: varint_small) metis
  show "ucast (?x AND 0x7f) = take_bit 7 v"
    unfolding and_0x7f [of ?x]
    by (rule bit_word_eqI) (subst bit_unsigned_iff, subst bit_take_bit_iff, subst bx, auto simp: bit_take_bit_iff)
qed

lemma varint_more:
  assumes "0x80 \<le> drop_bit i (V :: 'a::len word)" and "8 \<le> LENGTH('a)"
  shows "i + 7 < LENGTH('a)"
proof (rule ccontr)
  assume "\<not> i + 7 < LENGTH('a)"
  then have "take_bit 7 (drop_bit i V) = drop_bit i V"
    by (intro bit_word_eqI) (auto simp: bit_simps dest: bit_imp_le_length)
  then show False using assms by (simp add: varint_small [symmetric])
qed

lemma take_bit_last: "take_bit i V OR push_bit i (drop_bit i V) = (V :: 'a::len word)"
proof (rule bit_word_eqI)
  fix n assume "n < LENGTH('a)"
  then show "bit (take_bit i V OR push_bit i (drop_bit i V)) n = bit V n"
    by (cases "n < i") (simp_all add: bit_simps)
qed

lemma unvarint_reads:
  assumes "varint_loop cap tmp (drop_bit i (V :: 'a::len word)) = Inr bs" and "i < LENGTH('a)"
    and "8 \<le> LENGTH('a)"
  shows "\<exists>ys. bs = tmp @ ys \<and> ba_reads (unvarint_loop i (take_bit i V)) e ys V"
  using assms
proof (induction cap tmp "drop_bit i V" arbitrary: i rule: varint_loop.induct)
  case (1 cap tmp)
  let ?v = "drop_bit i V"
  have read: "unvarint_loop i r b = bind_res (readFuint8 b) (\<lambda>(x, b').
      (\<lambda>x b'. if x < 0x80 then Inr (r OR push_bit i (ucast x), b')
       else unvarint_loop (i + 7) (r OR push_bit i (ucast (x AND 0x7f))) b') x b')" for r :: "'a word" and b
    using "1.prems"(2) by (simp add: unvarint_loop.simps [of i])
  have cap: "\<not> cap \<le> length tmp" using "1.prems"(1) by (auto simp: varint_loop.simps [of cap tmp])
  show ?case
  proof (cases "0x80 \<le> ?v")
    case False
    have small: "take_bit 7 ?v = ?v"
      using False "1.prems"(3) by (simp add: varint_small [symmetric] not_le)
    have x: "ucast ?v < (0x80 :: byte)" "ucast (ucast ?v :: byte) = ?v"
      using varint_last [OF small "1.prems"(3)] by simp_all
    have "bs = tmp @ [ucast ?v]"
      using "1.prems"(1) cap False by (simp add: varint_loop.simps [of cap tmp])
    moreover have "take_bit i V OR push_bit i ?v = V" by (rule take_bit_last)
    then have "ba_reads (unvarint_loop i (take_bit i V)) e ([ucast ?v] @ []) V"
      unfolding read [abs_def]
      by (intro ba_cursor.reads_bind [OF readFuint8_reads]) (simp add: x ba_cursor.reads_return)
    ultimately show ?thesis by simp
  next
    case True
    let ?x = "ucast ((?v AND 0x7f) OR 0x80) :: byte"
    have x: "\<not> ?x < 0x80" "ucast (?x AND 0x7f) = take_bit 7 ?v"
      using varint_cont [OF "1.prems"(3), of ?v] by simp_all
    have dd: "drop_bit 7 ?v = drop_bit (i + 7) V" by (simp add: add.commute)
    have lt: "i + 7 < LENGTH('a)"
      by (rule varint_more [OF True "1.prems"(3)])
    obtain ys where ys: "bs = (tmp @ [?x]) @ ys"
      "ba_reads (unvarint_loop (i + 7) (take_bit (i + 7) V)) e ys V"
      using "1.hyps" [OF cap True dd] "1.prems" cap True lt dd
      by (auto simp: varint_loop.simps [of cap tmp])
    have "ba_reads (unvarint_loop i (take_bit i V)) e ([?x] @ ys) V"
      unfolding read [abs_def]
      by (intro ba_cursor.reads_bind [OF readFuint8_reads]) (simp add: x take_bit_step ys(2))
    then show ?thesis using ys(1) by auto
  qed
qed

lemma writeUint_writes:
  shows writeUint32_writes: "\<exists>bs. varint_loop 5 [] v = Inr bs \<and> 0 < length bs \<and> length bs \<le> 5 \<and>
      ba_writes (\<lambda>b. writeUint32 b v) e bs \<and> ba_reads readUint32 e bs v"
    and writeUint64_writes: "\<exists>bs. varint_loop 10 [] w = Inr bs \<and> 0 < length bs \<and> length bs \<le> 10 \<and>
      ba_writes (\<lambda>b. writeUint64 b w) e bs \<and> ba_reads readUint64 e bs w"
proof -
  obtain bs where bs: "varint_loop 5 [] v = Inr bs" "0 < length bs" "length bs \<le> 5"
    using varint32_ok [of v] by blast
  have "ba_writes (\<lambda>b. writeUint32 b v) e bs"
    by (rule ba_cursor.writes_cong [OF ba_cursor.writes_wr]) (simp add: writeUint32_def bs(1))
  moreover have "ba_reads readUint32 e bs v"
    using unvarint_reads [of 5 "[]" 0 v bs e] bs(1) by (simp add: readUint32_def [abs_def])
  ultimately show "\<exists>bs. varint_loop 5 [] v = Inr bs \<and> 0 < length bs \<and> length bs \<le> 5 \<and>
      ba_writes (\<lambda>b. writeUint32 b v) e bs \<and> ba_reads readUint32 e bs v"
    using bs by blast
next
  obtain bs where bs: "varint_loop 10 [] w = Inr bs" "0 < length bs" "length bs \<le> 10"
    using varint64_ok [of w] by blast
  have "ba_writes (\<lambda>b. writeUint64 b w) e bs"
    by (rule ba_cursor.writes_cong [OF ba_cursor.writes_wr]) (simp add: writeUint64_def bs(1))
  moreover have "ba_reads readUint64 e bs w"
    using unvarint_reads [of 10 "[]" 0 w bs e] bs(1) by (simp add: readUint64_def [abs_def])
  ultimately show "\<exists>bs. varint_loop 10 [] w = Inr bs \<and> 0 < length bs \<and> length bs \<le> 10 \<and>
      ba_writes (\<lambda>b. writeUint64 b w) e bs \<and> ba_reads readUint64 e bs w"
    using bs by blast
qed

lemma readInt_reads:
  shows "ba_reads readUint32 e bs (EncodeZigzag32 v) \<Longrightarrow> ba_reads readInt32 e bs v"
    and "ba_reads readUint64 e bs (EncodeZigzag64 w) \<Longrightarrow> ba_reads readInt64 e bs w"
  unfolding readInt32_def [abs_def] readInt64_def [abs_def]
  by (erule ba_cursor.reads_map,
      simp add: DecodeZigzag32_def EncodeZigzag32_def DecodeZigzag64_def EncodeZigzag64_def
        Decode_Encode_Zigzag)+

subsection \<open>Strings\<close>

lemma sized_string_writes:
  "ba_writes (\<lambda>b. bind_res (writeF host b (n :: 'a::len word)) (\<lambda>b'. ba_write b' value)) e
     (mem_bytes e n @ value)"
  by (rule ba_cursor.writes_seq [OF writeF_writes ba_cursor.writes_wr])

lemma sized_string_reads:
  assumes "8 dvd LENGTH('a::len)" and "value \<noteq> []" and "length value < 2 ^ LENGTH('a)"
  shows "ba_reads (\<lambda>b. bind_res (readF Little b) (\<lambda>(len :: 'a word, b'). ba_read b' (unat len))) e
     (mem_bytes e (of_nat (length value) :: 'a word) @ value) value"
  by (rule ba_cursor.reads_bind [OF readF_reads [OF assms(1)]], rule ba_cursor.reads_rd)
     (use assms in \<open>simp_all add: unat_of_nat take_bit_nat_eq_self\<close>)

section \<open>Round trips\<close>

text \<open>Encode at the position, seek back to it, decode.\<close>

definition round_trip :: "byte_array \<Rightarrow> (byte_array \<Rightarrow> ba_error + byte_array)
    \<Rightarrow> (byte_array \<Rightarrow> ba_error + 'a \<times> byte_array) \<Rightarrow> ba_error + 'a \<times> byte_array" where
  "round_trip b enc dec = bind_res (enc b) (\<lambda>b1. bind_res (setPosition b1 (m_position b)) dec)"

definition trips :: "byte_array \<Rightarrow> (byte_array \<Rightarrow> ba_error + byte_array)
    \<Rightarrow> (byte_array \<Rightarrow> ba_error + 'a \<times> byte_array) \<Rightarrow> 'a \<Rightarrow> bool" where
  "trips b enc dec x = (case round_trip b enc dec of Inl _ \<Rightarrow> False | Inr (y, _) \<Rightarrow> y = x)"

lemma trips_if:
  assumes "ba_inv b" and "ba_writes enc (m_endian b) bs" and "ba_reads dec (m_endian b) bs x"
  shows "trips b enc dec x"
  by (rule ba_cursor.writes_reads [OF assms]) (simp add: trips_def round_trip_def)

lemmas trips_fixed = trips_if [OF _ writeF_writes readF_reads]

lemma readFint8_eq: "readFint8 = readFuint8"
  by (simp add: fun_eq_iff readFint8_def readFuint8_def)

lemma codec_float_defs:
  "writeFloat = writeF" "writeDouble = writeF" "readFloat = readF" "readDouble = readF"
  by (simp_all add: fun_eq_iff writeFloat_def writeDouble_def readFloat_def readDouble_def codec_fixed_defs)

lemmas codec_string_defs =
  writeStringF16_def [abs_def] writeStringF32_def [abs_def] writeStringF64_def [abs_def]
  readStringF16_def [abs_def] readStringF32_def [abs_def] readStringF64_def [abs_def]

section \<open>Properties of the codec\<close>

text \<open>
  C20. On a little-endian machine every fixed-width integer, float or double written at the
  position of a well-formed buffer is what the matching reader returns there, in both byte
  orders of the buffer.
\<close>

theorem fixed_width_round_trip:
  assumes "ba_inv b"
  shows "trips b (\<lambda>b. writeFint8 b vb) readFint8 vb
    \<and> trips b (\<lambda>b. writeFuint8 b vb) readFuint8 vb
    \<and> trips b (\<lambda>b. writeFint16 Little b vh) (readFint16 Little) vh
    \<and> trips b (\<lambda>b. writeFuint16 Little b vh) (readFuint16 Little) vh
    \<and> trips b (\<lambda>b. writeFint32 Little b vi) (readFint32 Little) vi
    \<and> trips b (\<lambda>b. writeFuint32 Little b vi) (readFuint32 Little) vi
    \<and> trips b (\<lambda>b. writeFint64 Little b vl) (readFint64 Little) vl
    \<and> trips b (\<lambda>b. writeFuint64 Little b vl) (readFuint64 Little) vl
    \<and> trips b (\<lambda>b. writeFloat Little b vi) (readFloat Little) vi
    \<and> trips b (\<lambda>b. writeDouble Little b vl) (readDouble Little) vl"
  unfolding codec_fixed_defs codec_float_defs writeFint8_def writeFuint8_def readFint8_eq
  by (intro conjI trips_fixed [OF assms] trips_if [OF assms ba_cursor.writes_wr readFuint8_reads]) simp_all

lemma fixed_width_round_trip_witness:
  "trips (byte_array_new (\<lambda>_. 0) 3) (\<lambda>b. writeFint32 Little b 0xdeadbeef) (readFint32 Little) 0xdeadbeef"
  using fixed_width_round_trip [OF ba_inv_new [of 3 "\<lambda>_. 0"],
      where vb = 0 and vh = 0 and vi = "0xdeadbeef" and vl = 0] by simp

text \<open>
  The bytes a fixed-width writer stores depend on the byte order of the buffer only:
  on every host they are the little-endian bytes of the value, reversed when the buffer is
  big-endian; the bytes around them are kept and the position moves past them.
\<close>

theorem fixed_width_wire_format:
  assumes "ba_inv b"
  shows "\<exists>b'. writeFint32 host b v = Inr b' \<and> ba_inv b' \<and> m_position b' = m_position b + 4 \<and>
    ba_data b' = take (m_position b) (ba_data b)
      @ (if isLittleEndian b then le_bytes v else rev (le_bytes v))
      @ drop (m_position b + 4) (ba_data b)"
proof -
  have "mem_bytes (m_endian b) v = (if isLittleEndian b then le_bytes v else rev (le_bytes v))"
    by (cases "m_endian b") (simp_all add: mem_bytes_def isLittleEndian_def)
  then show ?thesis
    using writeF_writes [of host v "m_endian b", unfolded ba_cursor.writes_def, rule_format, OF assms refl]
    by (auto simp only: writeFint32_def length_mem_bytes) simp
qed

lemma fixed_width_wire_format_witness:
  "\<exists>b'. writeFint32 Big (byte_array_new (\<lambda>_. 0) 3) 0x01020304 = Inr b' \<and> ba_data b' = [1, 2, 3, 4]"
proof -
  have "rev (le_bytes (0x01020304 :: u32)) = [1, 2, 3, 4]" by code_simp
  then show ?thesis
    using fixed_width_wire_format [OF ba_inv_new [of 3 "\<lambda>_. 0"], where host = Big and v = "0x01020304"]
    by (auto simp: byte_array_new_def isLittleEndian_def ba_data_def)
qed

text \<open>
  C2. Variable-length integers: the encoder never leaves its local array (5 bytes for 32 bits,
  10 for 64), and the decoder returns the value that was written, for unsigned and for
  zigzag-coded signed values.
\<close>

theorem varint_round_trip:
  assumes "ba_inv b"
  shows "trips b (\<lambda>b. writeUint32 b v) readUint32 v
    \<and> trips b (\<lambda>b. writeInt32 b v) readInt32 v
    \<and> trips b (\<lambda>b. writeUint64 b w) readUint64 w
    \<and> trips b (\<lambda>b. writeInt64 b w) readInt64 w"
  using writeUint32_writes [of v "m_endian b"] writeUint32_writes [of "EncodeZigzag32 v" "m_endian b"]
    writeUint64_writes [of w "m_endian b"] writeUint64_writes [of "EncodeZigzag64 w" "m_endian b"]
  by (auto intro: trips_if [OF assms] readInt_reads simp: writeInt32_def writeInt64_def)

lemma varint_round_trip_witness:
  "trips (byte_array_new (\<lambda>_. 0) 1) (\<lambda>b. writeInt32 b 0x80000000) readInt32 0x80000000"
  using varint_round_trip [OF ba_inv_new [of 1 "\<lambda>_. 0"], where v = "0x80000000" and w = 0] by simp

text \<open>
  C27. A string whose size fits the length field and that is not empty is read back by the
  reader of the same format.
\<close>

theorem string_round_trip:
  assumes "ba_inv b" and "s \<noteq> []"
  shows "(length s < 2 ^ 16 \<longrightarrow> trips b (\<lambda>b. writeStringF16 Little b s) (readStringF16 Little) s)
    \<and> (length s < 2 ^ 32 \<longrightarrow> trips b (\<lambda>b. writeStringF32 Little b s) (readStringF32 Little) s)
    \<and> (length s < 2 ^ 64 \<longrightarrow> trips b (\<lambda>b. writeStringF64 Little b s) (readStringF64 Little) s)"
  unfolding codec_string_defs codec_fixed_defs
  by (intro conjI impI trips_if [OF assms(1) sized_string_writes sized_string_reads [OF _ assms(2)]]) simp_all

lemma string_round_trip_witness:
  "trips (byte_array_new (\<lambda>_. 0) 4) (\<lambda>b. writeStringF16 Little b [1, 2, 3]) (readStringF16 Little) [1, 2, 3]"
  using string_round_trip [OF ba_inv_new [of 4 "\<lambda>_. 0"], where s = "[1, 2, 3]"] by simp

text \<open>
  C40. Zigzag maps a signed value of 32 bits to the even numbers when it is not negative and to
  the odd numbers otherwise, small magnitudes to small numbers, and decoding inverts it.
\<close>

theorem zigzag32_spec:
  "uint (EncodeZigzag32 v) = (if sint v < 0 then - 2 * sint v - 1 else 2 * sint v)
   \<and> DecodeZigzag32 (EncodeZigzag32 v) = v"
proof -
  have b: "- (2 ^ 31) \<le> sint v" "sint v < 2 ^ 31"
    using sint_ge [of v] sint_lt [of v] by simp_all
  have "EncodeZigzag32 v = word_of_int (if sint v < 0 then - 2 * sint v - 1 else 2 * sint v)"
    by (simp add: EncodeZigzag32_def EncodeZigzag_def of_int_sint mult.commute)
  then have "uint (EncodeZigzag32 v) = (if sint v < 0 then - 2 * sint v - 1 else 2 * sint v) mod 2 ^ 32"
    by (simp add: uint_word_of_int)
  then show ?thesis
    using b by (auto simp: DecodeZigzag32_def EncodeZigzag32_def Decode_Encode_Zigzag)
qed

text \<open>
  The variable-length string format does not round-trip: the writer stores the size as a
  fixed 64-bit number and the reader expects a variable-length one.
\<close>

theorem string_vint_mismatch:
  "\<not> trips (byte_array_new (\<lambda>_. 0) 16) (\<lambda>b. writeStringVint Little b [65, 66]) readStringVint [65, 66]"
  by code_simp

text \<open>
  An empty string whose length field ends at the end of the last node cannot be read back:
  the zero-byte \<open>read\<close> looks at the current node before its loop, and there is none.
\<close>

theorem empty_string_null:
  "case round_trip (byte_array_new (\<lambda>_. 0) 2) (\<lambda>b. writeStringF16 Little b []) (readStringF16 Little)
   of Inl e \<Rightarrow> e = NullDeref | Inr _ \<Rightarrow> False"
  by code_simp

end
