(* ===== verification/Ordered.thy ===== *)
theory Ordered
  imports Prelude
begin

text \<open>
  \<open>std::set\<close> and \<open>std::map\<close> with a comparator. A set is the list of its elements in
  iteration order, a map the list of its pairs; the operations compare with the comparator
  \<open>lt\<close> only and treat two keys as equal when neither is less than the other. The locale
  \<open>strict_weak_order\<close> is what the standard asks of a comparator; under it the lookup laws of
  the containers hold. Components interpret it for their comparators.
\<close>

section \<open>Operations\<close>

definition equivalent :: "('k \<Rightarrow> 'k \<Rightarrow> bool) \<Rightarrow> 'k \<Rightarrow> 'k \<Rightarrow> bool" where
  "equivalent lt x y \<longleftrightarrow> \<not> lt x y \<and> \<not> lt y x"

fun oset_insert :: "('k \<Rightarrow> 'k \<Rightarrow> bool) \<Rightarrow> 'k \<Rightarrow> 'k list \<Rightarrow> 'k list" where
  "oset_insert lt x [] = [x]"
| "oset_insert lt x (y # ys) =
     (if lt x y then x # y # ys else if lt y x then y # oset_insert lt x ys else y # ys)"

fun oset_find :: "('k \<Rightarrow> 'k \<Rightarrow> bool) \<Rightarrow> 'k \<Rightarrow> 'k list \<Rightarrow> 'k option" where
  "oset_find lt x [] = None"
| "oset_find lt x (y # ys) =
     (if lt x y then None else if lt y x then oset_find lt x ys else Some y)"

fun oset_erase :: "('k \<Rightarrow> 'k \<Rightarrow> bool) \<Rightarrow> 'k \<Rightarrow> 'k list \<Rightarrow> 'k list" where
  "oset_erase lt x [] = []"
| "oset_erase lt x (y # ys) =
     (if lt x y then y # ys else if lt y x then y # oset_erase lt x ys else ys)"

text \<open>The elements before \<open>upper_bound x\<close>, and those from it on.\<close>

definition oset_upto :: "('k \<Rightarrow> 'k \<Rightarrow> bool) \<Rightarrow> 'k \<Rightarrow> 'k list \<Rightarrow> 'k list" where
  "oset_upto lt x xs = takeWhile (\<lambda>y. \<not> lt x y) xs"

definition oset_from :: "('k \<Rightarrow> 'k \<Rightarrow> bool) \<Rightarrow> 'k \<Rightarrow> 'k list \<Rightarrow> 'k list" where
  "oset_from lt x xs = dropWhile (\<lambda>y. \<not> lt x y) xs"

text \<open>\<open>m[k] = v\<close>, \<open>m.find (k)\<close> and \<open>m.erase (k)\<close>; the key of an existing pair is kept.\<close>

fun omap_put :: "('k \<Rightarrow> 'k \<Rightarrow> bool) \<Rightarrow> 'k \<Rightarrow> 'v \<Rightarrow> ('k \<times> 'v) list \<Rightarrow> ('k \<times> 'v) list" where
  "omap_put lt k v [] = [(k, v)]"
| "omap_put lt k v ((k', v') # m) =
     (if lt k k' then (k, v) # (k', v') # m
      else if lt k' k then (k', v') # omap_put lt k v m
      else (k', v) # m)"

fun omap_get :: "('k \<Rightarrow> 'k \<Rightarrow> bool) \<Rightarrow> 'k \<Rightarrow> ('k \<times> 'v) list \<Rightarrow> 'v option" where
  "omap_get lt k [] = None"
| "omap_get lt k ((k', v') # m) =
     (if lt k k' then None else if lt k' k then omap_get lt k m else Some v')"

fun omap_del :: "('k \<Rightarrow> 'k \<Rightarrow> bool) \<Rightarrow> 'k \<Rightarrow> ('k \<times> 'v) list \<Rightarrow> ('k \<times> 'v) list" where
  "omap_del lt k [] = []"
| "omap_del lt k ((k', v') # m) =
     (if lt k k' then (k', v') # m else if lt k' k then (k', v') # omap_del lt k m else m)"

text \<open>\<open>m.insert ({k, v})\<close> keeps the value of an existing pair.\<close>

definition omap_add :: "('k \<Rightarrow> 'k \<Rightarrow> bool) \<Rightarrow> 'k \<Rightarrow> 'v \<Rightarrow> ('k \<times> 'v) list \<Rightarrow> ('k \<times> 'v) list" where
  "omap_add lt k v m = (case omap_get lt k m of None \<Rightarrow> omap_put lt k v m | Some _ \<Rightarrow> m)"

definition omap_ok :: "('k \<Rightarrow> 'k \<Rightarrow> bool) \<Rightarrow> ('k \<times> 'v) list \<Rightarrow> bool" where
  "omap_ok lt m = sorted_wrt lt (map fst m)"

lemma omap_ok_simps [simp]:
  "omap_ok lt []" "omap_ok lt ((k, v) # m) \<longleftrightarrow> (\<forall>k'\<in>fst ` set m. lt k k') \<and> omap_ok lt m"
  by (simp_all add: omap_ok_def)

lemma omap_put_keys: "fst ` set (omap_put lt k v m) \<subseteq> insert k (fst ` set m)"
  by (induction lt k v m rule: omap_put.induct) auto

lemma omap_del_keys: "fst ` set (omap_del lt k m) \<subseteq> fst ` set m"
  by (induction lt k m rule: omap_del.induct) auto

lemma set_oset_insert: "set (oset_insert lt x xs) \<subseteq> insert x (set xs)"
  by (induction lt x xs rule: oset_insert.induct) auto

section \<open>The contract of a comparator\<close>

locale strict_weak_order =
  fixes lt :: "'k \<Rightarrow> 'k \<Rightarrow> bool"
  assumes irrefl: "\<not> lt x x"
    and trans: "lt x y \<Longrightarrow> lt y z \<Longrightarrow> lt x z"
    and equiv_trans: "equivalent lt x y \<Longrightarrow> equivalent lt y z \<Longrightarrow> equivalent lt x z"
begin

lemma asym: "lt x y \<Longrightarrow> \<not> lt y x"
  using irrefl trans by blast

lemma equivalent_refl [simp]: "equivalent lt x x"
  by (simp add: equivalent_def irrefl)

lemma equivalent_sym: "equivalent lt x y \<Longrightarrow> equivalent lt y x"
  by (simp add: equivalent_def)

lemma lt_equivalent_left: "equivalent lt x y \<Longrightarrow> lt x z \<longleftrightarrow> lt y z"
  by (metis asym equiv_trans equivalent_def trans)

lemma lt_equivalent_right: "equivalent lt x y \<Longrightarrow> lt z x \<longleftrightarrow> lt z y"
  by (metis asym equiv_trans equivalent_def trans)

text \<open>Maps.\<close>

lemma omap_put_ok: "omap_ok lt m \<Longrightarrow> omap_ok lt (omap_put lt k v m)"
proof (induction m)
  case (Cons p m)
  obtain k' v' where p: "p = (k', v')" by (cases p)
  show ?case
    using Cons omap_put_keys [of lt k v m] unfolding p by (fastforce dest: trans asym)
qed simp

lemma omap_del_ok: "omap_ok lt m \<Longrightarrow> omap_ok lt (omap_del lt k m)"
proof (induction m)
  case (Cons p m)
  then show ?case
    using omap_del_keys [of lt k m] by (cases p) (fastforce dest: trans asym)
qed simp

lemma omap_get_below: "\<forall>k'\<in>fst ` set m. lt k k' \<Longrightarrow> omap_get lt k m = None"
  by (cases m) auto

lemma omap_get_put:
  "omap_get lt j (omap_put lt k v m) = (if equivalent lt j k then Some v else omap_get lt j m)"
proof (induction m)
  case Nil
  show ?case by (auto simp: equivalent_def)
next
  case (Cons p m)
  obtain k' v' where p: "p = (k', v')" by (cases p)
  have below: "lt j k' \<Longrightarrow> lt k' k \<Longrightarrow> \<not> equivalent lt j k"
    using trans by (auto simp: equivalent_def)
  have above: "lt k k' \<Longrightarrow> \<not> lt j k' \<Longrightarrow> \<not> equivalent lt j k \<and> \<not> lt j k"
    using trans lt_equivalent_left by blast
  show ?case
  proof (cases "equivalent lt k k'")
    case True
    then show ?thesis
      using p lt_equivalent_right [OF True, of j] lt_equivalent_left [OF True, of j]
      by (auto simp: equivalent_def)
  next
    case False
    then show ?thesis
      using p Cons.IH below above lt_equivalent_left [of j k' k] by (auto simp: equivalent_def)
  qed
qed

lemma omap_get_del:
  "omap_ok lt m \<Longrightarrow> omap_get lt j (omap_del lt k m) = (if equivalent lt j k then None else omap_get lt j m)"
proof (induction m)
  case (Cons p m)
  obtain k' v' where p: "p = (k', v')" by (cases p)
  have below: "lt j k' \<Longrightarrow> lt k' k \<Longrightarrow> \<not> equivalent lt j k"
    using trans by (auto simp: equivalent_def)
  have gone: "omap_get lt j m = None"
    if "equivalent lt k k'" and "lt j k' \<or> equivalent lt j k"
  proof (rule omap_get_below, rule ballI)
    fix k2 assume "k2 \<in> fst ` set m"
    then have "lt k' k2" using Cons.prems p by auto
    then show "lt j k2" using that trans equiv_trans lt_equivalent_left by blast
  qed
  show ?case
  proof (cases "equivalent lt k k'")
    case True
    then show ?thesis
      using p gone lt_equivalent_right [OF True, of j] lt_equivalent_left [OF True, of j]
      by (auto simp: equivalent_def)
  next
    case False
    then show ?thesis
      using p Cons below lt_equivalent_left [of j k k'] lt_equivalent_left [of j k' k]
      by (auto simp: equivalent_def)
  qed
qed simp

lemma omap_get_equivalent: "equivalent lt j k \<Longrightarrow> omap_get lt j m = omap_get lt k m"
  by (induction m) (auto simp: lt_equivalent_left lt_equivalent_right)

lemma omap_get_Some_iff:
  assumes "omap_ok lt m"
  shows "omap_get lt k m = Some v \<longleftrightarrow> (\<exists>k'. (k', v) \<in> set m \<and> equivalent lt k k')"
  using assms
proof (induction m)
  case (Cons p m)
  obtain k' v' where p: "p = (k', v')" by (cases p)
  have *: "(k2, w) \<in> set m \<Longrightarrow> equivalent lt k k2 \<Longrightarrow> lt k' k" for k2 w
    using Cons.prems p lt_equivalent_right [of k k2 k'] by force
  show ?case
    using Cons p * asym by (auto simp: equivalent_def irrefl)
qed simp

text \<open>Sets.\<close>

lemma oset_insert_sorted: "sorted_wrt lt xs \<Longrightarrow> sorted_wrt lt (oset_insert lt x xs)"
proof (induction xs)
  case (Cons y ys)
  then show ?case using set_oset_insert [of lt x ys] by (fastforce dest: trans asym)
qed simp

lemma oset_find_iff:
  assumes "sorted_wrt lt xs"
  shows "oset_find lt x xs = Some y \<longleftrightarrow> y \<in> set xs \<and> equivalent lt x y"
  using assms
proof (induction xs)
  case (Cons z zs)
  have *: "y \<in> set zs \<Longrightarrow> equivalent lt x y \<Longrightarrow> lt z x"
    using Cons.prems lt_equivalent_right [of x y z] by auto
  show ?case
    using Cons * asym by (auto simp: equivalent_def irrefl)
qed simp

lemma oset_upto_from: "oset_upto lt x xs @ oset_from lt x xs = xs"
  by (simp add: oset_upto_def oset_from_def)

lemma oset_upto_filter:
  assumes "sorted_wrt lt xs"
  shows "oset_upto lt x xs = filter (\<lambda>y. \<not> lt x y) xs" and "oset_from lt x xs = filter (lt x) xs"
proof -
  have "oset_upto lt x xs = filter (\<lambda>y. \<not> lt x y) xs \<and> oset_from lt x xs = filter (lt x) xs"
    using assms
  proof (induction xs)
    case (Cons y ys)
    then show ?case
      using trans by (auto simp: oset_upto_def oset_from_def filter_empty_conv intro!: filter_True [symmetric])
  qed (simp add: oset_upto_def oset_from_def)
  then show "oset_upto lt x xs = filter (\<lambda>y. \<not> lt x y) xs" and "oset_from lt x xs = filter (lt x) xs" by auto
qed

end

text \<open>A comparator under which different keys are never equivalent.\<close>

locale strict_total_order = strict_weak_order lt for lt :: "'k \<Rightarrow> 'k \<Rightarrow> bool" +
  assumes total: "x \<noteq> y \<Longrightarrow> lt x y \<or> lt y x"
begin

lemma equivalent_eq [simp]: "equivalent lt x y \<longleftrightarrow> x = y"
  using total irrefl by (auto simp: equivalent_def)

lemma set_oset_insert_eq: "set (oset_insert lt x xs) = insert x (set xs)"
proof (induction xs)
  case (Cons y ys)
  then show ?case using total [of x y] by auto
qed simp

lemma set_oset_erase:
  "sorted_wrt lt xs \<Longrightarrow> set (oset_erase lt x xs) = set xs - {x}"
proof (induction xs)
  case (Cons y ys)
  then show ?case using total [of x y] irrefl asym by (auto dest: trans)
qed simp

lemma oset_erase_eq: "sorted_wrt lt xs \<Longrightarrow> oset_erase lt x xs = removeAll x xs"
proof (induction xs)
  case (Cons y ys)
  have "lt x y \<Longrightarrow> x \<notin> set (y # ys)" using Cons.prems irrefl asym by fastforce
  moreover have "\<not> lt y x \<Longrightarrow> \<not> lt x y \<Longrightarrow> y = x \<and> x \<notin> set ys" using Cons.prems total irrefl by auto
  ultimately show ?case using Cons irrefl [of x] by auto
qed simp

lemma oset_find_eq:
  assumes "sorted_wrt lt xs"
  shows "oset_find lt x xs = (if x \<in> set xs then Some x else None)"
proof (cases "x \<in> set xs")
  case True
  then show ?thesis using oset_find_iff [OF assms, of x x] by simp
next
  case False
  then have "oset_find lt x xs \<noteq> Some y" for y by (auto simp: oset_find_iff [OF assms])
  then show ?thesis using False by (cases "oset_find lt x xs") auto
qed

lemma sorted_distinct: "sorted_wrt lt xs \<Longrightarrow> distinct xs"
  by (induction xs) (auto simp: irrefl)

end

end
