(* ===== verification/C_String.thy ===== *)
theory C_String
  imports Ordered
begin

text \<open>
  Strings as the source uses them: the C string of a \<open>std::string\<close> ends at its first NUL,
  \<open>strcasecmp\<close> compares C strings byte by byte after folding the letters A to Z, and
  \<open>std::string\<close> itself is ordered byte by byte. Both orders are interpreted as comparators of
  the ordered containers.
\<close>

section \<open>C strings\<close>

definition cstr :: "string \<Rightarrow> string" where
  "cstr s = takeWhile (\<lambda>c. c \<noteq> CHR 0x00) s"

definition tolower :: "char \<Rightarrow> nat" where
  "tolower c = (let n = of_char c in if 65 \<le> n \<and> n \<le> 90 then n + 32 else n)"

definition fold_key :: "string \<Rightarrow> nat list" where
  "fold_key s = map tolower (cstr s)"

text \<open>The difference of the first two bytes that differ; the end of a string counts as 0.\<close>

fun byte_diff :: "nat list \<Rightarrow> nat list \<Rightarrow> int" where
  "byte_diff [] [] = 0"
| "byte_diff (x # xs) [] = int x"
| "byte_diff [] (y # ys) = - int y"
| "byte_diff (x # xs) (y # ys) = (if x = y then byte_diff xs ys else int x - int y)"

definition strcmp :: "string \<Rightarrow> string \<Rightarrow> int" where
  "strcmp a b = byte_diff (map of_char (cstr a)) (map of_char (cstr b))"

definition strcasecmp :: "string \<Rightarrow> string \<Rightarrow> int" where
  "strcasecmp a b = byte_diff (fold_key a) (fold_key b)"

text \<open>\<open>strncmp\<close> looks at the first \<open>n\<close> bytes only.\<close>

definition strncmp :: "string \<Rightarrow> string \<Rightarrow> nat \<Rightarrow> int" where
  "strncmp a b n = byte_diff (map of_char (take n (cstr a))) (map of_char (take n (cstr b)))"

fun bytes_less :: "nat list \<Rightarrow> nat list \<Rightarrow> bool" where
  "bytes_less xs [] = False"
| "bytes_less [] (y # ys) = True"
| "bytes_less (x # xs) (y # ys) = (x < y \<or> x = y \<and> bytes_less xs ys)"

definition string_less :: "string \<Rightarrow> string \<Rightarrow> bool" where
  "string_less a b = bytes_less (map of_char a) (map of_char b)"

text \<open>\<open>atoi\<close>: white space, a sign and digits up to the first other character.\<close>

definition digit_val :: "char \<Rightarrow> nat" where "digit_val c = of_char c - 48"
definition is_digit :: "char \<Rightarrow> bool" where "is_digit c \<longleftrightarrow> 48 \<le> (of_char c :: nat) \<and> (of_char c :: nat) \<le> 57"
definition is_space :: "char \<Rightarrow> bool" where
  "is_space c \<longleftrightarrow> (of_char c :: nat) = 32 \<or> 9 \<le> (of_char c :: nat) \<and> (of_char c :: nat) \<le> 13"

definition digits_value :: "string \<Rightarrow> int" where
  "digits_value s = foldl (\<lambda>n c. n * 10 + int (digit_val c)) 0 (takeWhile is_digit s)"

definition atoi :: "string \<Rightarrow> int" where
  "atoi s = (case dropWhile is_space s of
     [] \<Rightarrow> 0
   | c # cs \<Rightarrow> if c = CHR ''-'' then - digits_value cs else if c = CHR ''+'' then digits_value cs
               else digits_value (c # cs))"

section \<open>Facts\<close>

lemma bytes_less_irrefl [simp]: "\<not> bytes_less xs xs"
  by (induction xs) auto

lemma bytes_less_trans: "bytes_less xs ys \<Longrightarrow> bytes_less ys zs \<Longrightarrow> bytes_less xs zs"
proof (induction xs ys arbitrary: zs rule: bytes_less.induct)
  case (2 y ys)
  then show ?case by (cases zs) auto
next
  case (3 x xs y ys)
  then show ?case by (cases zs) auto
qed simp

lemma bytes_less_total: "xs \<noteq> ys \<Longrightarrow> bytes_less xs ys \<or> bytes_less ys xs"
proof (induction xs ys rule: bytes_less.induct)
  case (1 xs)
  then show ?case by (cases xs) auto
qed auto

lemma of_char_inj: "map of_char a = (map of_char b :: nat list) \<longleftrightarrow> a = b"
  using inj_map_eq_map [of "of_char :: char \<Rightarrow> nat" a b] by (simp add: inj_of_char)

lemma byte_diff_eq_0: "0 \<notin> set xs \<Longrightarrow> 0 \<notin> set ys \<Longrightarrow> byte_diff xs ys = 0 \<longleftrightarrow> xs = ys"
  by (induction xs ys rule: byte_diff.induct) auto

lemma byte_diff_less_0: "0 \<notin> set xs \<Longrightarrow> 0 \<notin> set ys \<Longrightarrow> byte_diff xs ys < 0 \<longleftrightarrow> bytes_less xs ys"
  by (induction xs ys rule: byte_diff.induct) auto

lemma of_char_eq_0: "of_char c = (0 :: nat) \<longleftrightarrow> c = CHR 0x00"
  using of_char_eq_iff [where 'a = nat, of c "CHR 0x00"] by simp

lemma cstr_no_nul: "CHR 0x00 \<notin> set (cstr s)"
  by (auto simp: cstr_def dest: set_takeWhileD)

lemma cstr_id [simp]: "CHR 0x00 \<notin> set s \<Longrightarrow> cstr s = s"
  by (auto simp: cstr_def takeWhile_eq_all_conv)

lemma map_of_char_no_nul: "0 \<notin> set (map of_char (cstr s) :: nat list)"
  using cstr_no_nul [of s] by (auto simp: of_char_eq_0)

lemma fold_key_no_nul: "0 \<notin> set (fold_key s)"
  using cstr_no_nul [of s] by (auto simp: fold_key_def tolower_def Let_def of_char_eq_0 split: if_splits)

lemma strcmp_eq_0: "strcmp a b = 0 \<longleftrightarrow> cstr a = cstr b"
  unfolding strcmp_def
  by (subst byte_diff_eq_0) (simp_all only: map_of_char_no_nul not_False_eq_True of_char_inj)

lemma strcasecmp_eq_0: "strcasecmp a b = 0 \<longleftrightarrow> fold_key a = fold_key b"
  unfolding strcasecmp_def by (simp add: byte_diff_eq_0 fold_key_no_nul)

lemma strcasecmp_less_0: "strcasecmp a b < 0 \<longleftrightarrow> bytes_less (fold_key a) (fold_key b)"
  unfolding strcasecmp_def by (simp add: byte_diff_less_0 fold_key_no_nul)

lemma strncmp_eq_0: "strncmp a b n = 0 \<longleftrightarrow> take n (cstr a) = take n (cstr b)"
proof -
  have "0 \<notin> set (map of_char (take n (cstr s)) :: nat list)" for s
    using cstr_no_nul [of s] by (auto simp: of_char_eq_0 dest: in_set_takeD)
  then show ?thesis unfolding strncmp_def by (simp only: byte_diff_eq_0 not_False_eq_True of_char_inj)
qed

section \<open>Comparators\<close>

text \<open>Comparing byte sequences \<open>f a\<close> of the keys is a comparator whose equivalence is equality of \<open>f\<close>.\<close>

lemma equivalent_keyed:
  "equivalent (\<lambda>a b. bytes_less (f a) (f b)) a b \<longleftrightarrow> f a = f b"
  using bytes_less_total [of "f a" "f b"] by (auto simp: equivalent_def)

lemma keyed_order: "strict_weak_order (\<lambda>a b. bytes_less (f a) (f b))"
  by (rule strict_weak_order.intro) (simp, rule bytes_less_trans, assumption+, simp add: equivalent_keyed)

lemma string_less_keyed: "string_less = (\<lambda>a b. bytes_less (map of_char a) (map of_char b))"
  by (simp add: fun_eq_iff string_less_def)

interpretation str_ord: strict_total_order string_less
proof (rule strict_total_order.intro)
  show "strict_weak_order string_less" unfolding string_less_keyed by (rule keyed_order)
  show "strict_total_order_axioms string_less"
  proof
    fix x y :: string
    assume "x \<noteq> y"
    then have "map of_char x \<noteq> (map of_char y :: nat list)" by (simp only: of_char_inj not_False_eq_True)
    then show "string_less x y \<or> string_less y x" unfolding string_less_def by (rule bytes_less_total)
  qed
qed

text \<open>Printed numbers are read back.\<close>

lemma digit_char_dec: "d < 10 \<Longrightarrow> is_digit (digit_char d) \<and> digit_val (digit_char d) = d"
proof -
  assume "d < 10"
  then have "d = 0 \<or> d = 1 \<or> d = 2 \<or> d = 3 \<or> d = 4 \<or> d = 5 \<or> d = 6 \<or> d = 7 \<or> d = 8 \<or> d = 9" by presburger
  then show ?thesis by (elim disjE; simp add: digit_char_def is_digit_def digit_val_def)
qed

lemma show_dec_digits: "list_all is_digit (show_dec n) \<and> foldl (\<lambda>n c. n * 10 + int (digit_val c)) 0 (show_dec n) = int n"
  unfolding show_dec_def
proof (induction n rule: less_induct)
  case (less n)
  show ?case
  proof (cases "n < 10")
    case True
    then show ?thesis using digit_char_dec by (subst (1 2) show_base.simps) simp
  next
    case False
    moreover have "int (n div 10) * 10 + int (n mod 10) = int n" by presburger
    ultimately show ?thesis using less [of "n div 10"] digit_char_dec [of "n mod 10"] by (subst (1 2) show_base.simps) simp
  qed
qed

lemma show_dec_nonempty: "show_dec n \<noteq> []"
  by (simp add: show_dec_def)

lemma atoi_show:
  assumes "s = [] \<or> \<not> is_digit (hd s)"
  shows "atoi (show_dec n @ s) = int n"
proof -
  obtain c cs where c: "show_dec n = c # cs" using show_dec_nonempty [of n] by (cases "show_dec n") auto
  have d: "\<forall>x\<in>set (show_dec n). is_digit x" using show_dec_digits [of n] by (simp add: list_all_iff)
  have "takeWhile is_digit s = []" using assms by (cases s) auto
  then have "takeWhile is_digit (show_dec n @ s) = show_dec n" using d by simp
  then have v: "digits_value (show_dec n @ s) = int n" using show_dec_digits [of n] by (simp add: digits_value_def)
  have "is_digit c" using d c by simp
  then have "\<not> is_space c" "c \<noteq> CHR ''-''" "c \<noteq> CHR ''+''" by (auto simp: is_digit_def is_space_def)
  then show ?thesis using v c by (simp add: atoi_def)
qed

end
