(* ===== verification/Ragel.thy ===== *)
theory Ragel
  imports C_String
begin

text \<open>
  The code Ragel writes for a state machine (\<open>-G2\<close>): a \<open>case\<close> for every state that chooses a label
  by the current character, a label \<open>tr\<close> for every transition with actions, a label \<open>st\<close> for every
  state that moves to the next character, and the end of the buffer, which leaves the state in
  \<open>cs\<close>. The parsers of requests, responses and URIs are machines of this form; here is what they
  share.
\<close>

section \<open>The machine\<close>

text \<open>\<open>(*p)\<close> is a signed \<open>char\<close>.\<close>

definition schar :: "char \<Rightarrow> int" where
  "schar ch = (let n = of_char ch in if n < 128 then n else n - 256)"

text \<open>\<open>goto stN\<close> and \<open>goto trN\<close>; \<open>st0\<close> sets \<open>cs = 0\<close> and leaves without moving.\<close>

datatype jump = St int | Tr int

text \<open>A \<open>switch\<close> whose cases only jump, and what follows it.\<close>

fun switch :: "int \<Rightarrow> (int \<times> jump) list \<Rightarrow> jump \<Rightarrow> jump" where
  "switch c [] d = d"
| "switch c ((n, l) # ls) d = (if c = n then l else switch c ls d)"

text \<open>The wide character of a conditional transition: shifted, and once more if the condition holds.\<close>

definition widen :: "bool \<Rightarrow> int \<Rightarrow> int" where
  "widen cond c = 128 + (c - -128) + (if cond then 256 else 0)"

record ('a, 's) machine =
  m_cases :: "int \<Rightarrow> int \<Rightarrow> jump"
  m_trs :: "int \<Rightarrow> 'a list \<times> int"
  m_act :: "nat \<Rightarrow> 'a \<Rightarrow> 's \<Rightarrow> 's"
  m_breaks :: "'a \<Rightarrow> bool"

text \<open>
  The loop from the character at \<open>p\<close> on: where it stops, the state it leaves in \<open>cs\<close> and what the
  actions made. An action that breaks ends the loop behind its character.
\<close>

fun ragel_scan :: "('a, 's) machine \<Rightarrow> int \<Rightarrow> nat \<Rightarrow> string \<Rightarrow> 's \<Rightarrow> nat \<times> int \<times> 's" where
  "ragel_scan M cs p [] s = (p, cs, s)"
| "ragel_scan M cs p (ch # rest) s =
     (case m_cases M cs (schar ch) of
        St n \<Rightarrow> if n = 0 then (p, 0, s) else ragel_scan M n (p + 1) rest s
      | Tr k \<Rightarrow> (case m_trs M k of (acts, n) \<Rightarrow>
          let s' = foldl (\<lambda>s a. m_act M p a s) s acts in
          if list_ex (m_breaks M) acts then (p + 1, n, s') else ragel_scan M n (p + 1) rest s'))"

section \<open>Facts\<close>

text \<open>A stretch of the input that neither fails nor breaks.\<close>

fun feed :: "('a, 's) machine \<Rightarrow> int \<Rightarrow> nat \<Rightarrow> string \<Rightarrow> 's \<Rightarrow> (int \<times> 's) option" where
  "feed M cs p [] s = Some (cs, s)"
| "feed M cs p (ch # rest) s =
     (case m_cases M cs (schar ch) of
        St n \<Rightarrow> if n = 0 then None else feed M n (p + 1) rest s
      | Tr k \<Rightarrow> (case m_trs M k of (acts, n) \<Rightarrow>
          if list_ex (m_breaks M) acts then None
          else feed M n (p + 1) rest (foldl (\<lambda>s a. m_act M p a s) s acts)))"

lemma ragel_scan_feed:
  "feed M cs p xs s = Some (cs', s') \<Longrightarrow> ragel_scan M cs p (xs @ ys) s = ragel_scan M cs' (p + length xs) ys s'"
  by (induction M cs p xs s rule: feed.induct) (auto simp: Let_def split: jump.splits if_splits prod.splits)

lemma feed_append:
  "feed M cs p xs s = Some (cs1, s1) \<Longrightarrow> feed M cs1 (p + length xs) ys s1 = r \<Longrightarrow> feed M cs p (xs @ ys) s = r"
  by (induction M cs p xs s rule: feed.induct) (auto simp: Let_def split: jump.splits if_splits prod.splits)

text \<open>A state that a character keeps consumes any number of them.\<close>

lemma feed_loop:
  "\<forall>ch\<in>set xs. m_cases M cs (schar ch) = St cs \<Longrightarrow> cs \<noteq> 0 \<Longrightarrow> feed M cs p xs s = Some (cs, s)"
  by (induction xs arbitrary: p) auto

lemma ragel_scan_position: "ragel_scan M cs p xs s = (q, cs', s') \<Longrightarrow> p \<le> q \<and> q \<le> p + length xs"
  by (induction M cs p xs s rule: ragel_scan.induct)
    (fastforce simp: Let_def split: jump.splits if_splits prod.splits)+

lemma schar_range: "-128 \<le> schar ch" "schar ch < 128"
proof -
  have "of_char ch < (256 :: int)" using of_char_mod_256 [of ch] by (metis pos_mod_bound zero_less_numeral)
  moreover have "0 \<le> (of_char ch :: int)" by (metis of_char_mod_256 pos_mod_sign zero_less_numeral)
  ultimately show "-128 \<le> schar ch" "schar ch < 128" by (auto simp: schar_def Let_def)
qed

lemma schar_of_char: "of_char ch = (schar ch) mod (256::int)"
proof -
  have "of_char ch mod (256 :: int) = of_char ch" by (rule of_char_mod_256)
  then show ?thesis by (auto simp: schar_def Let_def)
qed

lemma schar_inj [simp]: "schar a = schar b \<longleftrightarrow> a = b"
  using schar_of_char [of a] schar_of_char [of b] of_char_eq_iff [where 'a = int, of a b] by auto

lemma is_digit_schar: "is_digit ch \<longleftrightarrow> 48 \<le> schar ch \<and> schar ch \<le> 57"
proof -
  obtain k where k: "of_char ch = (k :: nat)" by blast
  have "k < 256" unfolding k [symmetric] by (metis of_char_mod_256 mod_less_divisor zero_less_numeral)
  moreover have "of_char ch = int k" unfolding k [symmetric] by (simp add: of_nat_of_char)
  ultimately show ?thesis unfolding is_digit_def schar_def Let_def k by auto
qed

definition xdigit :: "char \<Rightarrow> bool" where
  "xdigit ch \<longleftrightarrow> (let c = schar ch in 48 \<le> c \<and> c \<le> 57 \<or> 65 \<le> c \<and> c \<le> 70 \<or> 97 \<le> c \<and> c \<le> 102)"

fun encoded :: "(char \<Rightarrow> bool) \<Rightarrow> string \<Rightarrow> bool" where
  "encoded ok [] = True"
| "encoded ok (c # s) =
     (if c = CHR ''%'' then (case s of d # e # s' \<Rightarrow> xdigit d \<and> xdigit e \<and> encoded ok s' | _ \<Rightarrow> False)
      else ok c \<and> encoded ok s)"

text \<open>A state that keeps the characters of a class and reads percent codes through two more states.\<close>

definition reads_encoded :: "('a, 's) machine \<Rightarrow> (char \<Rightarrow> bool) \<Rightarrow> int \<Rightarrow> int \<Rightarrow> int \<Rightarrow> bool" where
  "reads_encoded M ok cs a b \<longleftrightarrow> cs \<noteq> 0 \<and> a \<noteq> 0 \<and> b \<noteq> 0 \<and> m_cases M cs 37 = St a \<and>
     (\<forall>ch. ok ch \<longrightarrow> m_cases M cs (schar ch) = St cs) \<and>
     (\<forall>ch. xdigit ch \<longrightarrow> m_cases M a (schar ch) = St b \<and> m_cases M b (schar ch) = St cs)"

lemma schar_percent [simp]: "schar (CHR ''%'') = 37"
  by (simp add: schar_def)

lemma feed_encoded:
  "reads_encoded M ok cs a b \<Longrightarrow> encoded ok xs \<Longrightarrow> feed M cs p xs s = Some (cs, s)"
proof (induction ok xs arbitrary: p rule: encoded.induct)
  case (2 ok c xs)
  note r = "2.prems"(1) [unfolded reads_encoded_def]
  show ?case
  proof (cases "c = CHR ''%''")
    case True
    with "2.prems" obtain d e ys where xs: "xs = d # e # ys" and d: "xdigit d" "xdigit e" "encoded ok ys"
      by (auto split: list.splits)
    have "feed M cs (Suc (Suc (Suc p))) ys s = Some (cs, s)" by (rule "2.IH"(1) [OF True xs refl "2.prems"(1) d(3)])
    then show ?thesis using True xs d r by simp
  next
    case False
    then show ?thesis using 2 r by simp
  qed
qed simp

lemma feed_entry:
  assumes r: "reads_encoded M ok cs a b" and e: "encoded ok xs" "xs \<noteq> []"
    and c: "\<And>ch. ok ch \<Longrightarrow> m_cases M n (schar ch) = Tr k" "m_trs M k = (acts, cs)"
    and h: "m_cases M n 37 = Tr k'" "m_trs M k' = (acts, a)"
    and nb: "\<not> list_ex (m_breaks M) acts"
  shows "feed M n p xs s = Some (cs, foldl (\<lambda>s x. m_act M p x s) s acts)"
proof (cases xs)
  case (Cons c xs')
  show ?thesis
  proof (cases "c = CHR ''%''")
    case True
    then obtain d f ys where "xs' = d # f # ys" "xdigit d" "xdigit f" "encoded ok ys"
      using e Cons by (auto split: list.splits)
    then show ?thesis using Cons True r h nb feed_encoded [OF r] by (simp add: reads_encoded_def)
  next
    case False
    then show ?thesis using Cons e c nb feed_encoded [OF r] by simp
  qed
qed (use e in simp)

text \<open>A set of states that keeps the characters of a class and reads percent codes through two more states.\<close>

definition reads_in :: "('a, 's) machine \<Rightarrow> (char \<Rightarrow> bool) \<Rightarrow> int list \<Rightarrow> int \<Rightarrow> int \<Rightarrow> int \<Rightarrow> bool" where
  "reads_in M ok A a b c \<longleftrightarrow> 0 \<notin> set A \<and> a \<noteq> 0 \<and> b \<noteq> 0 \<and> c \<in> set A \<and>
     (\<forall>n\<in>set A. m_cases M n 37 = St a \<and> (\<forall>ch. ok ch \<longrightarrow> (\<exists>m\<in>set A. m_cases M n (schar ch) = St m))) \<and>
     (\<forall>ch. xdigit ch \<longrightarrow> m_cases M a (schar ch) = St b \<and> m_cases M b (schar ch) = St c)"

lemma feed_in:
  "reads_in M ok A a b c \<Longrightarrow> n \<in> set A \<Longrightarrow> encoded ok xs \<Longrightarrow> \<exists>m\<in>set A. feed M n p xs s = Some (m, s)"
proof (induction ok xs arbitrary: n p rule: encoded.induct)
  case (2 ok x xs)
  note r = "2.prems"(1) [unfolded reads_in_def]
  show ?case
  proof (cases "x = CHR ''%''")
    case True
    with "2.prems" obtain d e ys where xs: "xs = d # e # ys" and d: "xdigit d" "xdigit e" "encoded ok ys"
      by (auto split: list.splits)
    have "c \<in> set A" using r by blast
    from "2.IH"(1) [OF True xs refl "2.prems"(1) this d(3), of "Suc (Suc (Suc p))"]
    obtain m where m: "m \<in> set A" "feed M c (Suc (Suc (Suc p))) ys s = Some (m, s)" by blast
    have "m_cases M n 37 = St a" "a \<noteq> 0" "b \<noteq> 0" "c \<noteq> 0" "m_cases M a (schar d) = St b" "m_cases M b (schar e) = St c"
      using r d "2.prems"(2) by metis+
    then show ?thesis using True xs m by simp
  next
    case False
    then have "ok x" "encoded ok xs" using "2.prems"(3) by simp_all
    then obtain n' where n': "n' \<in> set A" "m_cases M n (schar x) = St n'" "n' \<noteq> 0" using r "2.prems"(2) by metis
    from "2.IH"(2) [OF False "2.prems"(1) n'(1) \<open>encoded ok xs\<close>, of "Suc p"] n' False show ?thesis by simp
  qed
qed simp

lemma feed_in_entry:
  assumes r: "reads_in M ok A a b c" and e: "encoded ok xs" "xs \<noteq> []"
    and c: "\<And>ch. ok ch \<Longrightarrow> \<exists>k m. m_cases M n (schar ch) = Tr k \<and> m_trs M k = (acts, m) \<and> m \<in> set A"
    and h: "m_cases M n 37 = Tr k'" "m_trs M k' = (acts, a)"
    and nb: "\<not> list_ex (m_breaks M) acts"
  shows "\<exists>m\<in>set A. feed M n p xs s = Some (m, foldl (\<lambda>s x. m_act M p x s) s acts)"
proof (cases xs)
  case (Cons x xs')
  show ?thesis
  proof (cases "x = CHR ''%''")
    case True
    then obtain d f ys where xs': "xs' = d # f # ys" "xdigit d" "xdigit f" "encoded ok ys"
      using e Cons by (auto split: list.splits)
    have "m_cases M a (schar d) = St b" "m_cases M b (schar f) = St c" "b \<noteq> 0" "c \<noteq> 0" "c \<in> set A"
      using r xs' unfolding reads_in_def by metis+
    then show ?thesis using Cons True xs' h nb feed_in [OF r _ xs'(4), of c "Suc (Suc (Suc p))"] by simp
  next
    case False
    then obtain k m where "m_cases M n (schar x) = Tr k" "m_trs M k = (acts, m)" "m \<in> set A" "encoded ok xs'"
      using Cons e c [of x] by auto
    then show ?thesis using Cons nb feed_in [OF r, of m xs' "Suc p"] by simp
  qed
qed (use e in simp)

section \<open>Facts at every state\<close>

text \<open>
  A property of the jumps that a state may make, read off the code of a machine branch by branch:
  the conditions do not matter.
\<close>

locale jump_property =
  fixes ok :: "int \<Rightarrow> jump \<Rightarrow> bool"
begin

lemma case_branch: "ok n a \<Longrightarrow> ok cs b \<Longrightarrow> ok cs (if cs = n then a else b)"
  by simp

lemma if_branch: "ok cs a \<Longrightarrow> ok cs b \<Longrightarrow> ok cs (if P then a else b)"
  by simp

lemma let_branch: "(\<And>w. ok cs (f w)) \<Longrightarrow> ok cs (let w = x in f w)"
  by simp

lemma switch_branch: "list_all (\<lambda>(n, j). ok cs j) ls \<Longrightarrow> ok cs d \<Longrightarrow> ok cs (switch c ls d)"
  by (induction c ls d rule: switch.induct) auto

end

end
