(* ===== verification/Http11_Machine.thy ===== *)
theory Http11_Machine
  imports Ragel
begin

text \<open>
  The machine Ragel wrote for \<open>src/include/http/http11_parser.rl\<close>: the states and transitions of
  \<open>http_parser_execute\<close> in \<open>http11_parser.rl.cc\<close>, in the order of the file. \<open>request_cases_k\<close> holds
  the \<open>case\<close> labels of a stretch of the code and \<open>request_trs_k\<close> its \<open>tr\<close> labels: the actions and the
  state that follows. \<open>relaxed\<close> is \<open>parser->uri_relaxed\<close>.
\<close>

section \<open>Actions\<close>

datatype request_action =
    Mark | Request_method | Request_path | Request_uri | Fragment | Start_query | Query_string | Http_version |
      Start_value | Write_value | Start_field | Write_field | Done | Xml | Json

section \<open>States and transitions\<close>

definition request_cases_1 :: "bool \<Rightarrow> int \<Rightarrow> int \<Rightarrow> jump" where
  "request_cases_1 relaxed cs c =
   (if cs = 1 then
     (switch c [(60, Tr 2), (64, Tr 3)]
     (if c > 57 then (if 65 \<le> c \<and> c \<le> 90 then Tr 0 else St 0) else if c \<ge> 48 then Tr 0 else St 0))
    else if cs = 2 then
      (if c = 32 then Tr 4 else if c > 57 then (if 65 \<le> c \<and> c \<le> 90 then St 175 else St 0) else if c
      \<ge> 48 then St 175 else St 0)
    else if cs = 3 then
      (let w = (if c < 123 then (if 94 \<le> c \<and> c \<le> 94 then widen relaxed c else c) else (if c > 123 then
      (if 125 \<le> c \<and> c \<le> 125 then widen relaxed c else c) else widen relaxed c)) in
      switch w [(32, Tr 6), (33, Tr 7), (35, Tr 8), (37, Tr 9), (47, Tr 10), (59, Tr 7), (61, Tr 7), (63, Tr 11),
      (64, Tr 7), (95, Tr 7), (126, Tr 7), (606, Tr 7), (635, Tr 7), (637, Tr 7)]
      (if w < 65 then (if 36 \<le> w \<and> w \<le> 57 then Tr 7 else St 0) else if w > 90 then (if 97 \<le> w \<and>
      w \<le> 122 then Tr 12 else St 0) else Tr 12))
    else St 0)"

definition request_trs_1 :: "(int \<times> request_action list \<times> int) list" where
  "request_trs_1 =
    [(0, [Mark], 2), (4, [Request_method], 3), (6, [Mark, Request_path, Request_uri], 4), (37, [Request_path,
      Request_uri], 4), (44, [Mark, Fragment], 4), (47, [Fragment], 4), (54, [Start_query, Query_string,
      Request_uri], 4)]"

definition request_cases_2 :: "bool \<Rightarrow> int \<Rightarrow> int \<Rightarrow> jump" where
  "request_cases_2 relaxed cs c =
   (if cs = 4 then
     (if c = 72 then Tr 13 else St 0)
    else if cs = 5 then
      (if c = 84 then St 6 else St 0)
    else if cs = 6 then
      (if c = 84 then St 7 else St 0)
    else if cs = 7 then
      (if c = 80 then St 8 else St 0)
    else if cs = 8 then
      (if c = 47 then St 9 else St 0)
    else if cs = 9 then
      (if c = 49 then St 10 else St 0)
    else if cs = 10 then
      (if c = 46 then St 11 else St 0)
    else if cs = 11 then
      (if 48 \<le> c \<and> c \<le> 49 then St 12 else St 0)
    else if cs = 12 then
      (switch c [(10, Tr 21), (13, Tr 22)]
      (St 0))
    else if cs = 13 then
      (switch c [(10, Tr 24), (13, Tr 25), (33, Tr 23), (124, Tr 23), (126, Tr 23)]
      (if c < 42 then (if c < 11 then (if 1 \<le> c \<and> c \<le> 8 then Tr 23 else St 0) else if c > 31 then (if 35
      \<le> c \<and> c \<le> 39 then Tr 23 else St 0) else Tr 23) else if c > 43 then (if c < 48 then (if 45 \<le> c
      \<and> c \<le> 46 then Tr 23 else St 0) else if c > 57 then (if c > 90 then (if 94 \<le> c \<and> c \<le> 122
      then Tr 23 else St 0) else if c \<ge> 65 then Tr 23 else St 0) else Tr 23) else Tr 23))
    else St 0)"

definition request_trs_2 :: "(int \<times> request_action list \<times> int) list" where
  "request_trs_2 =
    [(58, [Query_string, Request_uri], 4), (13, [Mark], 5), (21, [Http_version], 13), (30, [Start_value,
      Write_value], 13), (33, [Write_value], 13), (23, [Start_field], 14)]"

definition request_cases_3 :: "bool \<Rightarrow> int \<Rightarrow> int \<Rightarrow> jump" where
  "request_cases_3 relaxed cs c =
   (if cs = 14 then
     (switch c [(33, St 14), (58, Tr 27), (124, St 14), (126, St 14)]
     (if c < 42 then (if c < 10 then (if 1 \<le> c \<and> c \<le> 8 then St 14 else St 0) else if c > 31 then (if 35
     \<le> c \<and> c \<le> 39 then St 14 else St 0) else St 14) else if c > 43 then (if c < 48 then (if 45 \<le> c
     \<and> c \<le> 46 then St 14 else St 0) else if c > 57 then (if c > 90 then (if 94 \<le> c \<and> c \<le> 122
     then St 14 else St 0) else if c \<ge> 65 then St 14 else St 0) else St 14) else St 14))
    else if cs = 15 then
      (switch c [(0, St 0), (9, Tr 29), (10, Tr 30), (13, Tr 31), (32, Tr 29), (127, St 0)]
      (Tr 28))
    else if cs = 16 then
      (switch c [(0, St 0), (10, Tr 33), (13, Tr 34), (127, St 0)]
      (St 16))
    else if cs = 17 then
      (if c = 10 then St 13 else St 0)
    else St 0)"

definition request_trs_3 :: "(int \<times> request_action list \<times> int) list" where
  "request_trs_3 =
    [(27, [Write_field], 15), (29, [Start_value], 15), (28, [Start_value], 16), (22, [Http_version], 17), (31,
      [Start_value, Write_value], 17), (34, [Write_value], 17), (24, [Start_field, Done], 348), (36, [Done], 348)]"

definition request_cases_4 :: "bool \<Rightarrow> int \<Rightarrow> int \<Rightarrow> jump" where
  "request_cases_4 relaxed cs c =
   (if cs = 348 then
     (switch c [(33, St 14), (58, Tr 27), (124, St 14), (126, St 14)]
     (if c < 42 then (if c < 10 then (if 1 \<le> c \<and> c \<le> 8 then St 14 else St 0) else if c > 31 then (if 35
     \<le> c \<and> c \<le> 39 then St 14 else St 0) else St 14) else if c > 43 then (if c < 48 then (if 45 \<le> c
     \<and> c \<le> 46 then St 14 else St 0) else if c > 57 then (if c > 90 then (if 94 \<le> c \<and> c \<le> 122
     then St 14 else St 0) else if c \<ge> 65 then St 14 else St 0) else St 14) else St 14))
    else if cs = 18 then
      (switch c [(10, Tr 36), (33, St 14), (58, Tr 27), (124, St 14), (126, St 14)]
      (if c < 42 then (if c < 11 then (if 1 \<le> c \<and> c \<le> 8 then St 14 else St 0) else if c > 31 then (if 35
      \<le> c \<and> c \<le> 39 then St 14 else St 0) else St 14) else if c > 43 then (if c < 48 then (if 45 \<le> c
      \<and> c \<le> 46 then St 14 else St 0) else if c > 57 then (if c > 90 then (if 94 \<le> c \<and> c \<le> 122
      then St 14 else St 0) else if c \<ge> 65 then St 14 else St 0) else St 14) else St 14))
    else if cs = 19 then
      (let w = (if c < 123 then (if 94 \<le> c \<and> c \<le> 94 then widen relaxed c else c) else (if c > 123 then
      (if 125 \<le> c \<and> c \<le> 125 then widen relaxed c else c) else widen relaxed c)) in
      switch w [(32, Tr 37), (33, St 19), (35, Tr 39), (37, St 24), (47, St 26), (59, St 19), (61, St 19), (63, Tr
      42), (95, St 19), (126, St 19), (606, St 19), (635, St 19), (637, St 19)]
      (if w < 64 then (if 36 \<le> w \<and> w \<le> 57 then St 19 else St 0) else if w > 90 then (if 97 \<le> w
      \<and> w \<le> 122 then St 19 else St 0) else St 19))
    else St 0)"

definition request_trs_4 :: "(int \<times> request_action list \<times> int) list" where
  "request_trs_4 =
    [(25, [Start_field], 18), (7, [Mark], 19), (8, [Mark, Request_path, Request_uri], 20)]"

definition request_cases_5 :: "bool \<Rightarrow> int \<Rightarrow> int \<Rightarrow> jump" where
  "request_cases_5 relaxed cs c =
   (if cs = 20 then
     (let w = (if c < 123 then (if 94 \<le> c \<and> c \<le> 94 then widen relaxed c else c) else (if c > 123 then
     (if 125 \<le> c \<and> c \<le> 125 then widen relaxed c else c) else widen relaxed c)) in
     switch w [(32, Tr 44), (33, Tr 43), (37, Tr 45), (61, Tr 43), (95, Tr 43), (126, Tr 43), (606, Tr 43), (635, Tr
     43), (637, Tr 43)]
     (if w < 36 then (if w \<le> (-1) then Tr 43 else St 0) else if w > 59 then (if w > 90 then (if 97 \<le> w \<and>
     w \<le> 122 then Tr 43 else St 0) else if w \<ge> 63 then Tr 43 else St 0) else Tr 43))
    else if cs = 21 then
      (let w = (if c < 123 then (if 94 \<le> c \<and> c \<le> 94 then widen relaxed c else c) else (if c > 123 then
      (if 125 \<le> c \<and> c \<le> 125 then widen relaxed c else c) else widen relaxed c)) in
      switch w [(32, Tr 47), (33, St 21), (37, St 22), (61, St 21), (95, St 21), (126, St 21), (606, St 21), (635, St
      21), (637, St 21)]
      (if w < 36 then (if w \<le> (-1) then St 21 else St 0) else if w > 59 then (if w > 90 then (if 97 \<le> w
      \<and> w \<le> 122 then St 21 else St 0) else if w \<ge> 63 then St 21 else St 0) else St 21))
    else St 0)"

definition request_trs_5 :: "(int \<times> request_action list \<times> int) list" where
  "request_trs_5 =
    [(39, [Request_path, Request_uri], 20), (55, [Start_query, Query_string, Request_uri], 20), (59, [Query_string,
      Request_uri], 20), (43, [Mark], 21), (45, [Mark], 22)]"

definition request_cases_6 :: "bool \<Rightarrow> int \<Rightarrow> int \<Rightarrow> jump" where
  "request_cases_6 relaxed cs c =
   (if cs = 22 then
     (if c < 65 then (if 48 \<le> c \<and> c \<le> 57 then St 23 else St 0) else if c > 70 then (if 97 \<le> c \<and>
     c \<le> 102 then St 23 else St 0) else St 23)
    else if cs = 23 then
      (if c < 65 then (if 48 \<le> c \<and> c \<le> 57 then St 21 else St 0) else if c > 70 then (if 97 \<le> c
      \<and> c \<le> 102 then St 21 else St 0) else St 21)
    else if cs = 24 then
      (if c < 65 then (if 48 \<le> c \<and> c \<le> 57 then St 25 else St 0) else if c > 70 then (if 97 \<le> c
      \<and> c \<le> 102 then St 25 else St 0) else St 25)
    else if cs = 25 then
      (if c < 65 then (if 48 \<le> c \<and> c \<le> 57 then St 19 else St 0) else if c > 70 then (if 97 \<le> c
      \<and> c \<le> 102 then St 19 else St 0) else St 19)
    else if cs = 26 then
      (let w = (if c < 123 then (if 94 \<le> c \<and> c \<le> 94 then widen relaxed c else c) else (if c > 123 then
      (if 125 \<le> c \<and> c \<le> 125 then widen relaxed c else c) else widen relaxed c)) in
      switch w [(32, Tr 37), (33, St 26), (35, Tr 39), (37, St 27), (61, St 26), (63, Tr 42), (95, St 26), (126, St
      26), (606, St 26), (635, St 26), (637, St 26)]
      (if w < 36 then (if w \<le> (-1) then St 26 else St 0) else if w > 59 then (if w > 90 then (if 97 \<le> w
      \<and> w \<le> 122 then St 26 else St 0) else if w \<ge> 64 then St 26 else St 0) else St 26))
    else if cs = 27 then
      (if c < 65 then (if 48 \<le> c \<and> c \<le> 57 then St 28 else St 0) else if c > 70 then (if 97 \<le> c
      \<and> c \<le> 102 then St 28 else St 0) else St 28)
    else if cs = 28 then
      (if c < 65 then (if 48 \<le> c \<and> c \<le> 57 then St 26 else St 0) else if c > 70 then (if 97 \<le> c
      \<and> c \<le> 102 then St 26 else St 0) else St 26)
    else St 0)"

definition request_trs_6 :: "(int \<times> request_action list \<times> int) list" where
  "request_trs_6 =
    [(9, [Mark], 24), (203, [Mark], 26), (204, [Mark], 27)]"

definition request_cases_7 :: "bool \<Rightarrow> int \<Rightarrow> int \<Rightarrow> jump" where
  "request_cases_7 relaxed cs c =
   (if cs = 29 then
     (let w = (if c < 123 then (if 94 \<le> c \<and> c \<le> 94 then widen relaxed c else c) else (if c > 123 then
     (if 125 \<le> c \<and> c \<le> 125 then widen relaxed c else c) else widen relaxed c)) in
     switch w [(32, Tr 54), (33, Tr 53), (35, Tr 55), (37, Tr 56), (61, Tr 53), (95, Tr 53), (126, Tr 53), (606, Tr
     53), (635, Tr 53), (637, Tr 53)]
     (if w < 36 then (if w \<le> (-1) then Tr 53 else St 0) else if w > 59 then (if w > 90 then (if 97 \<le> w \<and>
     w \<le> 122 then Tr 53 else St 0) else if w \<ge> 63 then Tr 53 else St 0) else Tr 53))
    else if cs = 30 then
      (let w = (if c < 123 then (if 94 \<le> c \<and> c \<le> 94 then widen relaxed c else c) else (if c > 123 then
      (if 125 \<le> c \<and> c \<le> 125 then widen relaxed c else c) else widen relaxed c)) in
      switch w [(32, Tr 58), (33, St 30), (35, Tr 59), (37, St 31), (61, St 30), (95, St 30), (126, St 30), (606, St
      30), (635, St 30), (637, St 30)]
      (if w < 36 then (if w \<le> (-1) then St 30 else St 0) else if w > 59 then (if w > 90 then (if 97 \<le> w
      \<and> w \<le> 122 then St 30 else St 0) else if w \<ge> 63 then St 30 else St 0) else St 30))
    else if cs = 31 then
      (if c < 65 then (if 48 \<le> c \<and> c \<le> 57 then St 32 else St 0) else if c > 70 then (if 97 \<le> c
      \<and> c \<le> 102 then St 32 else St 0) else St 32)
    else St 0)"

definition request_trs_7 :: "(int \<times> request_action list \<times> int) list" where
  "request_trs_7 =
    [(11, [Mark, Request_path], 29), (42, [Request_path], 29), (53, [Start_query], 30), (56, [Start_query], 31)]"

definition request_cases_8 :: "bool \<Rightarrow> int \<Rightarrow> int \<Rightarrow> jump" where
  "request_cases_8 relaxed cs c =
   (if cs = 32 then
     (if c < 65 then (if 48 \<le> c \<and> c \<le> 57 then St 30 else St 0) else if c > 70 then (if 97 \<le> c \<and>
     c \<le> 102 then St 30 else St 0) else St 30)
    else if cs = 33 then
      (let w = (if c < 123 then (if 94 \<le> c \<and> c \<le> 94 then widen relaxed c else c) else (if c > 123 then
      (if 125 \<le> c \<and> c \<le> 125 then widen relaxed c else c) else widen relaxed c)) in
      switch w [(32, Tr 37), (33, St 26), (35, Tr 39), (37, St 27), (47, St 34), (61, St 26), (63, Tr 42), (95, St
      26), (126, St 26), (606, St 26), (635, St 26), (637, St 26)]
      (if w < 36 then (if w \<le> (-1) then St 26 else St 0) else if w > 59 then (if w > 90 then (if 97 \<le> w
      \<and> w \<le> 122 then St 26 else St 0) else if w \<ge> 64 then St 26 else St 0) else St 26))
    else if cs = 34 then
      (let w = (if c < 123 then (if 94 \<le> c \<and> c \<le> 94 then widen relaxed c else c) else (if c > 123 then
      (if 125 \<le> c \<and> c \<le> 125 then widen relaxed c else c) else widen relaxed c)) in
      switch w [(32, Tr 37), (33, St 35), (35, Tr 39), (37, St 36), (47, St 26), (58, St 38), (61, St 35), (63, Tr
      42), (64, St 42), (91, St 47), (95, St 35), (126, St 35), (606, St 35), (635, St 35), (637, St 35)]
      (if w < 65 then (if 36 \<le> w \<and> w \<le> 59 then St 35 else St 0) else if w > 90 then (if 97 \<le> w
      \<and> w \<le> 122 then St 35 else St 0) else St 35))
    else St 0)"

definition request_trs_8 :: "(int \<times> request_action list \<times> int) list" where
  "request_trs_8 =
    [(10, [Mark], 33)]"

definition request_cases_9 :: "bool \<Rightarrow> int \<Rightarrow> int \<Rightarrow> jump" where
  "request_cases_9 relaxed cs c =
   (if cs = 35 then
     (let w = (if c < 123 then (if 94 \<le> c \<and> c \<le> 94 then widen relaxed c else c) else (if c > 123 then
     (if 125 \<le> c \<and> c \<le> 125 then widen relaxed c else c) else widen relaxed c)) in
     switch w [(32, Tr 37), (33, St 35), (35, Tr 39), (37, St 36), (47, St 26), (58, St 38), (61, St 35), (63, Tr
     42), (64, St 42), (95, St 35), (126, St 35), (606, St 35), (635, St 35), (637, St 35)]
     (if w < 65 then (if 36 \<le> w \<and> w \<le> 59 then St 35 else St 0) else if w > 90 then (if 97 \<le> w \<and>
     w \<le> 122 then St 35 else St 0) else St 35))
    else if cs = 36 then
      (if c < 65 then (if 48 \<le> c \<and> c \<le> 57 then St 37 else St 0) else if c > 70 then (if 97 \<le> c
      \<and> c \<le> 102 then St 37 else St 0) else St 37)
    else if cs = 37 then
      (if c < 65 then (if 48 \<le> c \<and> c \<le> 57 then St 35 else St 0) else if c > 70 then (if 97 \<le> c
      \<and> c \<le> 102 then St 35 else St 0) else St 35)
    else if cs = 38 then
      (let w = (if c < 123 then (if 94 \<le> c \<and> c \<le> 94 then widen relaxed c else c) else (if c > 123 then
      (if 125 \<le> c \<and> c \<le> 125 then widen relaxed c else c) else widen relaxed c)) in
      switch w [(32, Tr 37), (33, St 39), (35, Tr 39), (37, St 40), (47, St 26), (61, St 39), (63, Tr 42), (64, St
      42), (95, St 39), (126, St 39), (606, St 39), (635, St 39), (637, St 39)]
      (if w < 58 then (if w > 46 then (if 48 \<le> w \<and> w \<le> 57 then St 38 else St 0) else if w \<ge> 36 then
      St 39 else St 0) else if w > 59 then (if w > 90 then (if 97 \<le> w \<and> w \<le> 122 then St 39 else St 0)
      else if w \<ge> 65 then St 39 else St 0) else St 39))
    else St 0)"

definition request_cases_10 :: "bool \<Rightarrow> int \<Rightarrow> int \<Rightarrow> jump" where
  "request_cases_10 relaxed cs c =
   (if cs = 39 then
     (let w = (if c < 123 then (if 94 \<le> c \<and> c \<le> 94 then widen relaxed c else c) else (if c > 123 then
     (if 125 \<le> c \<and> c \<le> 125 then widen relaxed c else c) else widen relaxed c)) in
     switch w [(33, St 39), (37, St 40), (61, St 39), (64, St 42), (95, St 39), (126, St 39), (606, St 39), (635, St
     39), (637, St 39)]
     (if w < 48 then (if 36 \<le> w \<and> w \<le> 46 then St 39 else St 0) else if w > 59 then (if w > 90 then (if
     97 \<le> w \<and> w \<le> 122 then St 39 else St 0) else if w \<ge> 65 then St 39 else St 0) else St 39))
    else if cs = 40 then
      (if c < 65 then (if 48 \<le> c \<and> c \<le> 57 then St 41 else St 0) else if c > 70 then (if 97 \<le> c
      \<and> c \<le> 102 then St 41 else St 0) else St 41)
    else if cs = 41 then
      (if c < 65 then (if 48 \<le> c \<and> c \<le> 57 then St 39 else St 0) else if c > 70 then (if 97 \<le> c
      \<and> c \<le> 102 then St 39 else St 0) else St 39)
    else if cs = 42 then
      (let w = (if c < 123 then (if 94 \<le> c \<and> c \<le> 94 then widen relaxed c else c) else (if c > 123 then
      (if 125 \<le> c \<and> c \<le> 125 then widen relaxed c else c) else widen relaxed c)) in
      switch w [(32, Tr 37), (33, St 43), (35, Tr 39), (37, St 44), (47, St 26), (58, St 46), (61, St 43), (63, Tr
      42), (91, St 47), (95, St 43), (126, St 43), (606, St 43), (635, St 43), (637, St 43)]
      (if w < 65 then (if 36 \<le> w \<and> w \<le> 59 then St 43 else St 0) else if w > 90 then (if 97 \<le> w
      \<and> w \<le> 122 then St 43 else St 0) else St 43))
    else St 0)"

definition request_cases_11 :: "bool \<Rightarrow> int \<Rightarrow> int \<Rightarrow> jump" where
  "request_cases_11 relaxed cs c =
   (if cs = 43 then
     (let w = (if c < 123 then (if 94 \<le> c \<and> c \<le> 94 then widen relaxed c else c) else (if c > 123 then
     (if 125 \<le> c \<and> c \<le> 125 then widen relaxed c else c) else widen relaxed c)) in
     switch w [(32, Tr 37), (33, St 43), (35, Tr 39), (37, St 44), (47, St 26), (58, St 46), (61, St 43), (63, Tr
     42), (95, St 43), (126, St 43), (606, St 43), (635, St 43), (637, St 43)]
     (if w < 65 then (if 36 \<le> w \<and> w \<le> 59 then St 43 else St 0) else if w > 90 then (if 97 \<le> w \<and>
     w \<le> 122 then St 43 else St 0) else St 43))
    else if cs = 44 then
      (if c < 65 then (if 48 \<le> c \<and> c \<le> 57 then St 45 else St 0) else if c > 70 then (if 97 \<le> c
      \<and> c \<le> 102 then St 45 else St 0) else St 45)
    else if cs = 45 then
      (if c < 65 then (if 48 \<le> c \<and> c \<le> 57 then St 43 else St 0) else if c > 70 then (if 97 \<le> c
      \<and> c \<le> 102 then St 43 else St 0) else St 43)
    else if cs = 46 then
      (switch c [(32, Tr 37), (35, Tr 39), (47, St 26), (63, Tr 42)]
      (if 48 \<le> c \<and> c \<le> 57 then St 46 else St 0))
    else if cs = 47 then
      (switch c [(6, St 48), (58, St 167), (118, St 169)]
      (if c < 65 then (if 48 \<le> c \<and> c \<le> 57 then St 91 else St 0) else if c > 70 then (if 97 \<le> c
      \<and> c \<le> 102 then St 91 else St 0) else St 91))
    else if cs = 48 then
      (if c < 65 then (if 48 \<le> c \<and> c \<le> 57 then St 49 else St 0) else if c > 70 then (if 97 \<le> c
      \<and> c \<le> 102 then St 49 else St 0) else St 49)
    else if cs = 49 then
      (if c = 58 then St 53 else if c < 65 then (if 48 \<le> c \<and> c \<le> 57 then St 50 else St 0) else if c > 70
      then (if 97 \<le> c \<and> c \<le> 102 then St 50 else St 0) else St 50)
    else if cs = 50 then
      (if c = 58 then St 53 else if c < 65 then (if 48 \<le> c \<and> c \<le> 57 then St 51 else St 0) else if c > 70
      then (if 97 \<le> c \<and> c \<le> 102 then St 51 else St 0) else St 51)
    else St 0)"

definition request_cases_12 :: "bool \<Rightarrow> int \<Rightarrow> int \<Rightarrow> jump" where
  "request_cases_12 relaxed cs c =
   (if cs = 51 then
     (if c = 58 then St 53 else if c < 65 then (if 48 \<le> c \<and> c \<le> 57 then St 52 else St 0) else if c > 70
     then (if 97 \<le> c \<and> c \<le> 102 then St 52 else St 0) else St 52)
    else if cs = 52 then
      (if c = 58 then St 53 else St 0)
    else if cs = 53 then
      (switch c [(49, St 84), (50, St 87)]
      (if c < 65 then (if 48 \<le> c \<and> c \<le> 57 then St 54 else St 0) else if c > 70 then (if 97 \<le> c
      \<and> c \<le> 102 then St 90 else St 0) else St 90))
    else if cs = 54 then
      (switch c [(46, St 55), (58, St 80)]
      (if c < 65 then (if 48 \<le> c \<and> c \<le> 57 then St 77 else St 0) else if c > 70 then (if 97 \<le> c
      \<and> c \<le> 102 then St 77 else St 0) else St 77))
    else if cs = 55 then
      (switch c [(49, St 72), (50, St 74)]
      (if 48 \<le> c \<and> c \<le> 57 then St 56 else St 0))
    else if cs = 56 then
      (if c = 46 then St 57 else St 0)
    else if cs = 57 then
      (switch c [(49, St 67), (50, St 69)]
      (if 48 \<le> c \<and> c \<le> 57 then St 58 else St 0))
    else if cs = 58 then
      (if c = 46 then St 59 else St 0)
    else if cs = 59 then
      (switch c [(49, St 62), (50, St 64)]
      (if 48 \<le> c \<and> c \<le> 57 then St 60 else St 0))
    else if cs = 60 then
      (if c = 93 then St 61 else St 0)
    else if cs = 61 then
      (switch c [(32, Tr 37), (35, Tr 39), (47, St 26), (58, St 46), (63, Tr 42)]
      (St 0))
    else if cs = 62 then
      (if c = 93 then St 61 else if 48 \<le> c \<and> c \<le> 57 then St 63 else St 0)
    else if cs = 63 then
      (if c = 93 then St 61 else if 48 \<le> c \<and> c \<le> 57 then St 60 else St 0)
    else if cs = 64 then
      (switch c [(48, St 65), (53, St 66), (93, St 61)]
      (St 0))
    else St 0)"

definition request_cases_13 :: "bool \<Rightarrow> int \<Rightarrow> int \<Rightarrow> jump" where
  "request_cases_13 relaxed cs c =
   (if cs = 65 then
     (if 48 \<le> c \<and> c \<le> 57 then St 60 else St 0)
    else if cs = 66 then
      (if c = 48 then St 60 else St 0)
    else if cs = 67 then
      (if c = 46 then St 59 else if 48 \<le> c \<and> c \<le> 57 then St 68 else St 0)
    else if cs = 68 then
      (if c = 46 then St 59 else if 48 \<le> c \<and> c \<le> 57 then St 58 else St 0)
    else if cs = 69 then
      (switch c [(46, St 59), (48, St 70), (53, St 71)]
      (St 0))
    else if cs = 70 then
      (if 48 \<le> c \<and> c \<le> 57 then St 58 else St 0)
    else if cs = 71 then
      (if c = 48 then St 58 else St 0)
    else if cs = 72 then
      (if c = 46 then St 57 else if 48 \<le> c \<and> c \<le> 57 then St 73 else St 0)
    else if cs = 73 then
      (if c = 46 then St 57 else if 48 \<le> c \<and> c \<le> 57 then St 56 else St 0)
    else if cs = 74 then
      (switch c [(46, St 57), (48, St 75), (53, St 76)]
      (St 0))
    else if cs = 75 then
      (if 48 \<le> c \<and> c \<le> 57 then St 56 else St 0)
    else if cs = 76 then
      (if c = 48 then St 56 else St 0)
    else if cs = 77 then
      (if c = 58 then St 80 else if c < 65 then (if 48 \<le> c \<and> c \<le> 57 then St 78 else St 0) else if c > 70
      then (if 97 \<le> c \<and> c \<le> 102 then St 78 else St 0) else St 78)
    else if cs = 78 then
      (if c = 58 then St 80 else if c < 65 then (if 48 \<le> c \<and> c \<le> 57 then St 79 else St 0) else if c > 70
      then (if 97 \<le> c \<and> c \<le> 102 then St 79 else St 0) else St 79)
    else if cs = 79 then
      (if c = 58 then St 80 else St 0)
    else if cs = 80 then
      (if c < 65 then (if 48 \<le> c \<and> c \<le> 57 then St 81 else St 0) else if c > 70 then (if 97 \<le> c
      \<and> c \<le> 102 then St 81 else St 0) else St 81)
    else St 0)"

definition request_cases_14 :: "bool \<Rightarrow> int \<Rightarrow> int \<Rightarrow> jump" where
  "request_cases_14 relaxed cs c =
   (if cs = 81 then
     (if c = 93 then St 61 else if c < 65 then (if 48 \<le> c \<and> c \<le> 57 then St 82 else St 0) else if c > 70
     then (if 97 \<le> c \<and> c \<le> 102 then St 82 else St 0) else St 82)
    else if cs = 82 then
      (if c = 93 then St 61 else if c < 65 then (if 48 \<le> c \<and> c \<le> 57 then St 83 else St 0) else if c > 70
      then (if 97 \<le> c \<and> c \<le> 102 then St 83 else St 0) else St 83)
    else if cs = 83 then
      (if c = 93 then St 61 else if c < 65 then (if 48 \<le> c \<and> c \<le> 57 then St 60 else St 0) else if c > 70
      then (if 97 \<le> c \<and> c \<le> 102 then St 60 else St 0) else St 60)
    else if cs = 84 then
      (switch c [(46, St 55), (58, St 80)]
      (if c < 65 then (if 48 \<le> c \<and> c \<le> 57 then St 85 else St 0) else if c > 70 then (if 97 \<le> c
      \<and> c \<le> 102 then St 77 else St 0) else St 77))
    else if cs = 85 then
      (switch c [(46, St 55), (58, St 80)]
      (if c < 65 then (if 48 \<le> c \<and> c \<le> 57 then St 86 else St 0) else if c > 70 then (if 97 \<le> c
      \<and> c \<le> 102 then St 78 else St 0) else St 78))
    else if cs = 86 then
      (switch c [(46, St 55), (58, St 80)]
      (if c < 65 then (if 48 \<le> c \<and> c \<le> 57 then St 79 else St 0) else if c > 70 then (if 97 \<le> c
      \<and> c \<le> 102 then St 79 else St 0) else St 79))
    else if cs = 87 then
      (switch c [(46, St 55), (48, St 88), (53, St 89), (58, St 80)]
      (if c < 65 then (if 49 \<le> c \<and> c \<le> 57 then St 77 else St 0) else if c > 70 then (if 97 \<le> c
      \<and> c \<le> 102 then St 77 else St 0) else St 77))
    else if cs = 88 then
      (if c = 58 then St 80 else if c < 65 then (if 48 \<le> c \<and> c \<le> 57 then St 86 else St 0) else if c > 70
      then (if 97 \<le> c \<and> c \<le> 102 then St 78 else St 0) else St 78)
    else if cs = 89 then
      (switch c [(48, St 86), (58, St 80)]
      (if c < 65 then (if 49 \<le> c \<and> c \<le> 57 then St 78 else St 0) else if c > 70 then (if 97 \<le> c
      \<and> c \<le> 102 then St 78 else St 0) else St 78))
    else St 0)"

definition request_cases_15 :: "bool \<Rightarrow> int \<Rightarrow> int \<Rightarrow> jump" where
  "request_cases_15 relaxed cs c =
   (if cs = 90 then
     (if c = 58 then St 80 else if c < 65 then (if 48 \<le> c \<and> c \<le> 57 then St 77 else St 0) else if c > 70
     then (if 97 \<le> c \<and> c \<le> 102 then St 77 else St 0) else St 77)
    else if cs = 91 then
      (if c = 58 then St 95 else if c < 65 then (if 48 \<le> c \<and> c \<le> 57 then St 92 else St 0) else if c > 70
      then (if 97 \<le> c \<and> c \<le> 102 then St 92 else St 0) else St 92)
    else if cs = 92 then
      (if c = 58 then St 95 else if c < 65 then (if 48 \<le> c \<and> c \<le> 57 then St 93 else St 0) else if c > 70
      then (if 97 \<le> c \<and> c \<le> 102 then St 93 else St 0) else St 93)
    else if cs = 93 then
      (if c = 58 then St 95 else if c < 65 then (if 48 \<le> c \<and> c \<le> 57 then St 94 else St 0) else if c > 70
      then (if 97 \<le> c \<and> c \<le> 102 then St 94 else St 0) else St 94)
    else if cs = 94 then
      (if c = 58 then St 95 else St 0)
    else if cs = 95 then
      (if c = 58 then St 166 else if c < 65 then (if 48 \<le> c \<and> c \<le> 57 then St 96 else St 0) else if c >
      70 then (if 97 \<le> c \<and> c \<le> 102 then St 96 else St 0) else St 96)
    else if cs = 96 then
      (if c = 58 then St 100 else if c < 65 then (if 48 \<le> c \<and> c \<le> 57 then St 97 else St 0) else if c >
      70 then (if 97 \<le> c \<and> c \<le> 102 then St 97 else St 0) else St 97)
    else if cs = 97 then
      (if c = 58 then St 100 else if c < 65 then (if 48 \<le> c \<and> c \<le> 57 then St 98 else St 0) else if c >
      70 then (if 97 \<le> c \<and> c \<le> 102 then St 98 else St 0) else St 98)
    else if cs = 98 then
      (if c = 58 then St 100 else if c < 65 then (if 48 \<le> c \<and> c \<le> 57 then St 99 else St 0) else if c >
      70 then (if 97 \<le> c \<and> c \<le> 102 then St 99 else St 0) else St 99)
    else if cs = 99 then
      (if c = 58 then St 100 else St 0)
    else if cs = 100 then
      (if c = 58 then St 165 else if c < 65 then (if 48 \<le> c \<and> c \<le> 57 then St 101 else St 0) else if c >
      70 then (if 97 \<le> c \<and> c \<le> 102 then St 101 else St 0) else St 101)
    else St 0)"

definition request_cases_16 :: "bool \<Rightarrow> int \<Rightarrow> int \<Rightarrow> jump" where
  "request_cases_16 relaxed cs c =
   (if cs = 101 then
     (if c = 58 then St 105 else if c < 65 then (if 48 \<le> c \<and> c \<le> 57 then St 102 else St 0) else if c >
     70 then (if 97 \<le> c \<and> c \<le> 102 then St 102 else St 0) else St 102)
    else if cs = 102 then
      (if c = 58 then St 105 else if c < 65 then (if 48 \<le> c \<and> c \<le> 57 then St 103 else St 0) else if c >
      70 then (if 97 \<le> c \<and> c \<le> 102 then St 103 else St 0) else St 103)
    else if cs = 103 then
      (if c = 58 then St 105 else if c < 65 then (if 48 \<le> c \<and> c \<le> 57 then St 104 else St 0) else if c >
      70 then (if 97 \<le> c \<and> c \<le> 102 then St 104 else St 0) else St 104)
    else if cs = 104 then
      (if c = 58 then St 105 else St 0)
    else if cs = 105 then
      (if c = 58 then St 164 else if c < 65 then (if 48 \<le> c \<and> c \<le> 57 then St 106 else St 0) else if c >
      70 then (if 97 \<le> c \<and> c \<le> 102 then St 106 else St 0) else St 106)
    else if cs = 106 then
      (if c = 58 then St 110 else if c < 65 then (if 48 \<le> c \<and> c \<le> 57 then St 107 else St 0) else if c >
      70 then (if 97 \<le> c \<and> c \<le> 102 then St 107 else St 0) else St 107)
    else if cs = 107 then
      (if c = 58 then St 110 else if c < 65 then (if 48 \<le> c \<and> c \<le> 57 then St 108 else St 0) else if c >
      70 then (if 97 \<le> c \<and> c \<le> 102 then St 108 else St 0) else St 108)
    else if cs = 108 then
      (if c = 58 then St 110 else if c < 65 then (if 48 \<le> c \<and> c \<le> 57 then St 109 else St 0) else if c >
      70 then (if 97 \<le> c \<and> c \<le> 102 then St 109 else St 0) else St 109)
    else if cs = 109 then
      (if c = 58 then St 110 else St 0)
    else if cs = 110 then
      (if c = 58 then St 163 else if c < 65 then (if 48 \<le> c \<and> c \<le> 57 then St 111 else St 0) else if c >
      70 then (if 97 \<le> c \<and> c \<le> 102 then St 111 else St 0) else St 111)
    else if cs = 111 then
      (if c = 58 then St 115 else if c < 65 then (if 48 \<le> c \<and> c \<le> 57 then St 112 else St 0) else if c >
      70 then (if 97 \<le> c \<and> c \<le> 102 then St 112 else St 0) else St 112)
    else St 0)"

definition request_cases_17 :: "bool \<Rightarrow> int \<Rightarrow> int \<Rightarrow> jump" where
  "request_cases_17 relaxed cs c =
   (if cs = 112 then
     (if c = 58 then St 115 else if c < 65 then (if 48 \<le> c \<and> c \<le> 57 then St 113 else St 0) else if c >
     70 then (if 97 \<le> c \<and> c \<le> 102 then St 113 else St 0) else St 113)
    else if cs = 113 then
      (if c = 58 then St 115 else if c < 65 then (if 48 \<le> c \<and> c \<le> 57 then St 114 else St 0) else if c >
      70 then (if 97 \<le> c \<and> c \<le> 102 then St 114 else St 0) else St 114)
    else if cs = 114 then
      (if c = 58 then St 115 else St 0)
    else if cs = 115 then
      (if c = 58 then St 151 else if c < 65 then (if 48 \<le> c \<and> c \<le> 57 then St 116 else St 0) else if c >
      70 then (if 97 \<le> c \<and> c \<le> 102 then St 116 else St 0) else St 116)
    else if cs = 116 then
      (if c = 58 then St 120 else if c < 65 then (if 48 \<le> c \<and> c \<le> 57 then St 117 else St 0) else if c >
      70 then (if 97 \<le> c \<and> c \<le> 102 then St 117 else St 0) else St 117)
    else if cs = 117 then
      (if c = 58 then St 120 else if c < 65 then (if 48 \<le> c \<and> c \<le> 57 then St 118 else St 0) else if c >
      70 then (if 97 \<le> c \<and> c \<le> 102 then St 118 else St 0) else St 118)
    else if cs = 118 then
      (if c = 58 then St 120 else if c < 65 then (if 48 \<le> c \<and> c \<le> 57 then St 119 else St 0) else if c >
      70 then (if 97 \<le> c \<and> c \<le> 102 then St 119 else St 0) else St 119)
    else if cs = 119 then
      (if c = 58 then St 120 else St 0)
    else if cs = 120 then
      (if c = 58 then St 150 else if c < 65 then (if 48 \<le> c \<and> c \<le> 57 then St 121 else St 0) else if c >
      70 then (if 97 \<le> c \<and> c \<le> 102 then St 121 else St 0) else St 121)
    else if cs = 121 then
      (if c = 58 then St 125 else if c < 65 then (if 48 \<le> c \<and> c \<le> 57 then St 122 else St 0) else if c >
      70 then (if 97 \<le> c \<and> c \<le> 102 then St 122 else St 0) else St 122)
    else if cs = 122 then
      (if c = 58 then St 125 else if c < 65 then (if 48 \<le> c \<and> c \<le> 57 then St 123 else St 0) else if c >
      70 then (if 97 \<le> c \<and> c \<le> 102 then St 123 else St 0) else St 123)
    else St 0)"

definition request_cases_18 :: "bool \<Rightarrow> int \<Rightarrow> int \<Rightarrow> jump" where
  "request_cases_18 relaxed cs c =
   (if cs = 123 then
     (if c = 58 then St 125 else if c < 65 then (if 48 \<le> c \<and> c \<le> 57 then St 124 else St 0) else if c >
     70 then (if 97 \<le> c \<and> c \<le> 102 then St 124 else St 0) else St 124)
    else if cs = 124 then
      (if c = 58 then St 125 else St 0)
    else if cs = 125 then
      (if c = 58 then St 126 else if c < 65 then (if 48 \<le> c \<and> c \<le> 57 then St 121 else St 0) else if c >
      70 then (if 97 \<le> c \<and> c \<le> 102 then St 121 else St 0) else St 121)
    else if cs = 126 then
      (switch c [(49, St 143), (50, St 146), (93, St 61)]
      (if c < 48 then (if 2 \<le> c \<and> c \<le> 3 then St 48 else St 0) else if c > 57 then (if c > 70 then (if 97
      \<le> c \<and> c \<le> 102 then St 149 else St 0) else if c \<ge> 65 then St 149 else St 0) else St 127))
    else if cs = 127 then
      (switch c [(46, St 55), (58, St 131), (93, St 61)]
      (if c < 65 then (if 48 \<le> c \<and> c \<le> 57 then St 128 else St 0) else if c > 70 then (if 97 \<le> c
      \<and> c \<le> 102 then St 128 else St 0) else St 128))
    else if cs = 128 then
      (switch c [(58, St 131), (93, St 61)]
      (if c < 65 then (if 48 \<le> c \<and> c \<le> 57 then St 129 else St 0) else if c > 70 then (if 97 \<le> c
      \<and> c \<le> 102 then St 129 else St 0) else St 129))
    else if cs = 129 then
      (switch c [(58, St 131), (93, St 61)]
      (if c < 65 then (if 48 \<le> c \<and> c \<le> 57 then St 130 else St 0) else if c > 70 then (if 97 \<le> c
      \<and> c \<le> 102 then St 130 else St 0) else St 130))
    else if cs = 130 then
      (switch c [(58, St 131), (93, St 61)]
      (St 0))
    else if cs = 131 then
      (switch c [(49, St 136), (50, St 139)]
      (if c < 65 then (if 48 \<le> c \<and> c \<le> 57 then St 132 else St 0) else if c > 70 then (if 97 \<le> c
      \<and> c \<le> 102 then St 142 else St 0) else St 142))
    else St 0)"

definition request_cases_19 :: "bool \<Rightarrow> int \<Rightarrow> int \<Rightarrow> jump" where
  "request_cases_19 relaxed cs c =
   (if cs = 132 then
     (switch c [(46, St 55), (58, St 80), (93, St 61)]
     (if c < 65 then (if 48 \<le> c \<and> c \<le> 57 then St 133 else St 0) else if c > 70 then (if 97 \<le> c
     \<and> c \<le> 102 then St 133 else St 0) else St 133))
    else if cs = 133 then
      (switch c [(58, St 80), (93, St 61)]
      (if c < 65 then (if 48 \<le> c \<and> c \<le> 57 then St 134 else St 0) else if c > 70 then (if 97 \<le> c
      \<and> c \<le> 102 then St 134 else St 0) else St 134))
    else if cs = 134 then
      (switch c [(58, St 80), (93, St 61)]
      (if c < 65 then (if 48 \<le> c \<and> c \<le> 57 then St 135 else St 0) else if c > 70 then (if 97 \<le> c
      \<and> c \<le> 102 then St 135 else St 0) else St 135))
    else if cs = 135 then
      (switch c [(58, St 80), (93, St 61)]
      (St 0))
    else if cs = 136 then
      (switch c [(46, St 55), (58, St 80), (93, St 61)]
      (if c < 65 then (if 48 \<le> c \<and> c \<le> 57 then St 137 else St 0) else if c > 70 then (if 97 \<le> c
      \<and> c \<le> 102 then St 133 else St 0) else St 133))
    else if cs = 137 then
      (switch c [(46, St 55), (58, St 80), (93, St 61)]
      (if c < 65 then (if 48 \<le> c \<and> c \<le> 57 then St 138 else St 0) else if c > 70 then (if 97 \<le> c
      \<and> c \<le> 102 then St 134 else St 0) else St 134))
    else if cs = 138 then
      (switch c [(46, St 55), (58, St 80), (93, St 61)]
      (if c < 65 then (if 48 \<le> c \<and> c \<le> 57 then St 135 else St 0) else if c > 70 then (if 97 \<le> c
      \<and> c \<le> 102 then St 135 else St 0) else St 135))
    else if cs = 139 then
      (switch c [(46, St 55), (48, St 140), (53, St 141), (58, St 80), (93, St 61)]
      (if c < 65 then (if 49 \<le> c \<and> c \<le> 57 then St 133 else St 0) else if c > 70 then (if 97 \<le> c
      \<and> c \<le> 102 then St 133 else St 0) else St 133))
    else St 0)"

definition request_cases_20 :: "bool \<Rightarrow> int \<Rightarrow> int \<Rightarrow> jump" where
  "request_cases_20 relaxed cs c =
   (if cs = 140 then
     (switch c [(58, St 80), (93, St 61)]
     (if c < 65 then (if 48 \<le> c \<and> c \<le> 57 then St 138 else St 0) else if c > 70 then (if 97 \<le> c
     \<and> c \<le> 102 then St 134 else St 0) else St 134))
    else if cs = 141 then
      (switch c [(48, St 138), (58, St 80), (93, St 61)]
      (if c < 65 then (if 49 \<le> c \<and> c \<le> 57 then St 134 else St 0) else if c > 70 then (if 97 \<le> c
      \<and> c \<le> 102 then St 134 else St 0) else St 134))
    else if cs = 142 then
      (switch c [(58, St 80), (93, St 61)]
      (if c < 65 then (if 48 \<le> c \<and> c \<le> 57 then St 133 else St 0) else if c > 70 then (if 97 \<le> c
      \<and> c \<le> 102 then St 133 else St 0) else St 133))
    else if cs = 143 then
      (switch c [(46, St 55), (58, St 131), (93, St 61)]
      (if c < 65 then (if 48 \<le> c \<and> c \<le> 57 then St 144 else St 0) else if c > 70 then (if 97 \<le> c
      \<and> c \<le> 102 then St 128 else St 0) else St 128))
    else if cs = 144 then
      (switch c [(46, St 55), (58, St 131), (93, St 61)]
      (if c < 65 then (if 48 \<le> c \<and> c \<le> 57 then St 145 else St 0) else if c > 70 then (if 97 \<le> c
      \<and> c \<le> 102 then St 129 else St 0) else St 129))
    else if cs = 145 then
      (switch c [(46, St 55), (58, St 131), (93, St 61)]
      (if c < 65 then (if 48 \<le> c \<and> c \<le> 57 then St 130 else St 0) else if c > 70 then (if 97 \<le> c
      \<and> c \<le> 102 then St 130 else St 0) else St 130))
    else if cs = 146 then
      (switch c [(46, St 55), (48, St 147), (53, St 148), (58, St 131), (93, St 61)]
      (if c < 65 then (if 49 \<le> c \<and> c \<le> 57 then St 128 else St 0) else if c > 70 then (if 97 \<le> c
      \<and> c \<le> 102 then St 128 else St 0) else St 128))
    else if cs = 147 then
      (switch c [(58, St 131), (93, St 61)]
      (if c < 65 then (if 48 \<le> c \<and> c \<le> 57 then St 145 else St 0) else if c > 70 then (if 97 \<le> c
      \<and> c \<le> 102 then St 129 else St 0) else St 129))
    else St 0)"

definition request_cases_21 :: "bool \<Rightarrow> int \<Rightarrow> int \<Rightarrow> jump" where
  "request_cases_21 relaxed cs c =
   (if cs = 148 then
     (switch c [(48, St 145), (58, St 131), (93, St 61)]
     (if c < 65 then (if 49 \<le> c \<and> c \<le> 57 then St 129 else St 0) else if c > 70 then (if 97 \<le> c
     \<and> c \<le> 102 then St 129 else St 0) else St 129))
    else if cs = 149 then
      (switch c [(58, St 131), (93, St 61)]
      (if c < 65 then (if 48 \<le> c \<and> c \<le> 57 then St 128 else St 0) else if c > 70 then (if 97 \<le> c
      \<and> c \<le> 102 then St 128 else St 0) else St 128))
    else if cs = 150 then
      (switch c [(49, St 143), (50, St 146)]
      (if c < 48 then (if 2 \<le> c \<and> c \<le> 3 then St 48 else St 0) else if c > 57 then (if c > 70 then (if 97
      \<le> c \<and> c \<le> 102 then St 149 else St 0) else if c \<ge> 65 then St 149 else St 0) else St 127))
    else if cs = 151 then
      (switch c [(49, St 156), (50, St 159)]
      (if c < 48 then (if 2 \<le> c \<and> c \<le> 3 then St 48 else St 0) else if c > 57 then (if c > 70 then (if 97
      \<le> c \<and> c \<le> 102 then St 162 else St 0) else if c \<ge> 65 then St 162 else St 0) else St 152))
    else if cs = 152 then
      (switch c [(46, St 55), (58, St 131)]
      (if c < 65 then (if 48 \<le> c \<and> c \<le> 57 then St 153 else St 0) else if c > 70 then (if 97 \<le> c
      \<and> c \<le> 102 then St 153 else St 0) else St 153))
    else if cs = 153 then
      (if c = 58 then St 131 else if c < 65 then (if 48 \<le> c \<and> c \<le> 57 then St 154 else St 0) else if c >
      70 then (if 97 \<le> c \<and> c \<le> 102 then St 154 else St 0) else St 154)
    else if cs = 154 then
      (if c = 58 then St 131 else if c < 65 then (if 48 \<le> c \<and> c \<le> 57 then St 155 else St 0) else if c >
      70 then (if 97 \<le> c \<and> c \<le> 102 then St 155 else St 0) else St 155)
    else if cs = 155 then
      (if c = 58 then St 131 else St 0)
    else if cs = 156 then
      (switch c [(46, St 55), (58, St 131)]
      (if c < 65 then (if 48 \<le> c \<and> c \<le> 57 then St 157 else St 0) else if c > 70 then (if 97 \<le> c
      \<and> c \<le> 102 then St 153 else St 0) else St 153))
    else St 0)"

definition request_cases_22 :: "bool \<Rightarrow> int \<Rightarrow> int \<Rightarrow> jump" where
  "request_cases_22 relaxed cs c =
   (if cs = 157 then
     (switch c [(46, St 55), (58, St 131)]
     (if c < 65 then (if 48 \<le> c \<and> c \<le> 57 then St 158 else St 0) else if c > 70 then (if 97 \<le> c
     \<and> c \<le> 102 then St 154 else St 0) else St 154))
    else if cs = 158 then
      (switch c [(46, St 55), (58, St 131)]
      (if c < 65 then (if 48 \<le> c \<and> c \<le> 57 then St 155 else St 0) else if c > 70 then (if 97 \<le> c
      \<and> c \<le> 102 then St 155 else St 0) else St 155))
    else if cs = 159 then
      (switch c [(46, St 55), (48, St 160), (53, St 161), (58, St 131)]
      (if c < 65 then (if 49 \<le> c \<and> c \<le> 57 then St 153 else St 0) else if c > 70 then (if 97 \<le> c
      \<and> c \<le> 102 then St 153 else St 0) else St 153))
    else if cs = 160 then
      (if c = 58 then St 131 else if c < 65 then (if 48 \<le> c \<and> c \<le> 57 then St 158 else St 0) else if c >
      70 then (if 97 \<le> c \<and> c \<le> 102 then St 154 else St 0) else St 154)
    else if cs = 161 then
      (switch c [(48, St 158), (58, St 131)]
      (if c < 65 then (if 49 \<le> c \<and> c \<le> 57 then St 154 else St 0) else if c > 70 then (if 97 \<le> c
      \<and> c \<le> 102 then St 154 else St 0) else St 154))
    else if cs = 162 then
      (if c = 58 then St 131 else if c < 65 then (if 48 \<le> c \<and> c \<le> 57 then St 153 else St 0) else if c >
      70 then (if 97 \<le> c \<and> c \<le> 102 then St 153 else St 0) else St 153)
    else if cs = 163 then
      (if c < 48 then (if 2 \<le> c \<and> c \<le> 3 then St 48 else St 0) else if c > 57 then (if c > 70 then (if 97
      \<le> c \<and> c \<le> 102 then St 49 else St 0) else if c \<ge> 65 then St 49 else St 0) else St 49)
    else if cs = 164 then
      (if 2 \<le> c \<and> c \<le> 3 then St 48 else St 0)
    else if cs = 165 then
      (if c = 3 then St 48 else St 0)
    else if cs = 166 then
      (if c = 4 then St 48 else St 0)
    else if cs = 167 then
      (if c = 58 then St 168 else St 0)
    else St 0)"

definition request_cases_23 :: "bool \<Rightarrow> int \<Rightarrow> int \<Rightarrow> jump" where
  "request_cases_23 relaxed cs c =
   (if cs = 168 then
     (switch c [(49, St 143), (50, St 146), (93, St 61)]
     (if c < 48 then (if 2 \<le> c \<and> c \<le> 5 then St 48 else St 0) else if c > 57 then (if c > 70 then (if 97
     \<le> c \<and> c \<le> 102 then St 149 else St 0) else if c \<ge> 65 then St 149 else St 0) else St 127))
    else if cs = 169 then
      (if c < 65 then (if 48 \<le> c \<and> c \<le> 57 then St 170 else St 0) else if c > 70 then (if 97 \<le> c
      \<and> c \<le> 102 then St 170 else St 0) else St 170)
    else if cs = 170 then
      (if c = 46 then St 171 else if c < 65 then (if 48 \<le> c \<and> c \<le> 57 then St 170 else St 0) else if c >
      70 then (if 97 \<le> c \<and> c \<le> 102 then St 170 else St 0) else St 170)
    else if cs = 171 then
      (let w = (if c < 123 then (if 94 \<le> c \<and> c \<le> 94 then widen relaxed c else c) else (if c > 123 then
      (if 125 \<le> c \<and> c \<le> 125 then widen relaxed c else c) else widen relaxed c)) in
      switch w [(33, St 172), (36, St 172), (61, St 172), (95, St 172), (126, St 172), (606, St 172), (635, St 172),
      (637, St 172)]
      (if w < 48 then (if 38 \<le> w \<and> w \<le> 46 then St 172 else St 0) else if w > 59 then (if w > 90 then (if
      97 \<le> w \<and> w \<le> 122 then St 172 else St 0) else if w \<ge> 65 then St 172 else St 0) else St 172))
    else if cs = 172 then
      (let w = (if c < 123 then (if 94 \<le> c \<and> c \<le> 94 then widen relaxed c else c) else (if c > 123 then
      (if 125 \<le> c \<and> c \<le> 125 then widen relaxed c else c) else widen relaxed c)) in
      switch w [(33, St 172), (36, St 172), (61, St 172), (93, St 61), (95, St 172), (126, St 172), (606, St 172),
      (635, St 172), (637, St 172)]
      (if w < 48 then (if 38 \<le> w \<and> w \<le> 46 then St 172 else St 0) else if w > 59 then (if w > 90 then (if
      97 \<le> w \<and> w \<le> 122 then St 172 else St 0) else if w \<ge> 65 then St 172 else St 0) else St 172))
    else St 0)"

definition request_trs_23 :: "(int \<times> request_action list \<times> int) list" where
  "request_trs_23 =
    [(12, [Mark], 173)]"

definition request_cases_24 :: "bool \<Rightarrow> int \<Rightarrow> int \<Rightarrow> jump" where
  "request_cases_24 relaxed cs c =
   (if cs = 173 then
     (let w = (if c < 123 then (if 94 \<le> c \<and> c \<le> 94 then widen relaxed c else c) else (if c > 123 then
     (if 125 \<le> c \<and> c \<le> 125 then widen relaxed c else c) else widen relaxed c)) in
     switch w [(32, Tr 37), (33, St 19), (35, Tr 39), (37, St 24), (43, St 173), (47, St 26), (58, St 174), (59, St
     19), (61, St 19), (63, Tr 42), (64, St 19), (95, St 19), (126, St 19), (606, St 19), (635, St 19), (637, St 19)]
     (if w < 45 then (if 36 \<le> w \<and> w \<le> 44 then St 19 else St 0) else if w > 57 then (if w > 90 then (if
     97 \<le> w \<and> w \<le> 122 then St 173 else St 0) else if w \<ge> 65 then St 173 else St 0) else St 173))
    else if cs = 174 then
      (let w = (if c < 123 then (if 94 \<le> c \<and> c \<le> 94 then widen relaxed c else c) else (if c > 123 then
      (if 125 \<le> c \<and> c \<le> 125 then widen relaxed c else c) else widen relaxed c)) in
      switch w [(32, Tr 6), (33, Tr 203), (35, Tr 8), (37, Tr 204), (47, Tr 10), (61, Tr 203), (63, Tr 11), (95, Tr
      203), (126, Tr 203), (606, Tr 203), (635, Tr 203), (637, Tr 203)]
      (if w < 36 then (if w \<le> (-1) then Tr 203 else St 0) else if w > 59 then (if w > 90 then (if 97 \<le> w
      \<and> w \<le> 122 then Tr 203 else St 0) else if w \<ge> 64 then Tr 203 else St 0) else Tr 203))
    else if cs = 175 then
      (if c = 32 then Tr 4 else if c > 57 then (if 65 \<le> c \<and> c \<le> 90 then St 176 else St 0) else if c
      \<ge> 48 then St 176 else St 0)
    else if cs = 176 then
      (if c = 32 then Tr 4 else if c > 57 then (if 65 \<le> c \<and> c \<le> 90 then St 177 else St 0) else if c
      \<ge> 48 then St 177 else St 0)
    else if cs = 177 then
      (if c = 32 then Tr 4 else if c > 57 then (if 65 \<le> c \<and> c \<le> 90 then St 178 else St 0) else if c
      \<ge> 48 then St 178 else St 0)
    else St 0)"

definition request_cases_25 :: "bool \<Rightarrow> int \<Rightarrow> int \<Rightarrow> jump" where
  "request_cases_25 relaxed cs c =
   (if cs = 178 then
     (if c = 32 then Tr 4 else if c > 57 then (if 65 \<le> c \<and> c \<le> 90 then St 179 else St 0) else if c \<ge>
     48 then St 179 else St 0)
    else if cs = 179 then
      (if c = 32 then Tr 4 else if c > 57 then (if 65 \<le> c \<and> c \<le> 90 then St 180 else St 0) else if c
      \<ge> 48 then St 180 else St 0)
    else if cs = 180 then
      (if c = 32 then Tr 4 else if c > 57 then (if 65 \<le> c \<and> c \<le> 90 then St 181 else St 0) else if c
      \<ge> 48 then St 181 else St 0)
    else if cs = 181 then
      (if c = 32 then Tr 4 else if c > 57 then (if 65 \<le> c \<and> c \<le> 90 then St 182 else St 0) else if c
      \<ge> 48 then St 182 else St 0)
    else if cs = 182 then
      (if c = 32 then Tr 4 else if c > 57 then (if 65 \<le> c \<and> c \<le> 90 then St 183 else St 0) else if c
      \<ge> 48 then St 183 else St 0)
    else if cs = 183 then
      (if c = 32 then Tr 4 else if c > 57 then (if 65 \<le> c \<and> c \<le> 90 then St 184 else St 0) else if c
      \<ge> 48 then St 184 else St 0)
    else if cs = 184 then
      (if c = 32 then Tr 4 else if c > 57 then (if 65 \<le> c \<and> c \<le> 90 then St 185 else St 0) else if c
      \<ge> 48 then St 185 else St 0)
    else if cs = 185 then
      (if c = 32 then Tr 4 else if c > 57 then (if 65 \<le> c \<and> c \<le> 90 then St 186 else St 0) else if c
      \<ge> 48 then St 186 else St 0)
    else if cs = 186 then
      (if c = 32 then Tr 4 else if c > 57 then (if 65 \<le> c \<and> c \<le> 90 then St 187 else St 0) else if c
      \<ge> 48 then St 187 else St 0)
    else if cs = 187 then
      (if c = 32 then Tr 4 else if c > 57 then (if 65 \<le> c \<and> c \<le> 90 then St 188 else St 0) else if c
      \<ge> 48 then St 188 else St 0)
    else if cs = 188 then
      (if c = 32 then Tr 4 else if c > 57 then (if 65 \<le> c \<and> c \<le> 90 then St 189 else St 0) else if c
      \<ge> 48 then St 189 else St 0)
    else if cs = 189 then
      (if c = 32 then Tr 4 else if c > 57 then (if 65 \<le> c \<and> c \<le> 90 then St 190 else St 0) else if c
      \<ge> 48 then St 190 else St 0)
    else St 0)"

definition request_cases_26 :: "bool \<Rightarrow> int \<Rightarrow> int \<Rightarrow> jump" where
  "request_cases_26 relaxed cs c =
   (if cs = 190 then
     (if c = 32 then Tr 4 else if c > 57 then (if 65 \<le> c \<and> c \<le> 90 then St 191 else St 0) else if c \<ge>
     48 then St 191 else St 0)
    else if cs = 191 then
      (if c = 32 then Tr 4 else if c > 57 then (if 65 \<le> c \<and> c \<le> 90 then St 192 else St 0) else if c
      \<ge> 48 then St 192 else St 0)
    else if cs = 192 then
      (if c = 32 then Tr 4 else if c > 57 then (if 65 \<le> c \<and> c \<le> 90 then St 193 else St 0) else if c
      \<ge> 48 then St 193 else St 0)
    else if cs = 193 then
      (if c = 32 then Tr 4 else St 0)
    else if cs = 194 then
      (if c < 48 then (if 45 \<le> c \<and> c \<le> 46 then St 195 else St 0) else if c > 57 then (if c > 90 then (if
      97 \<le> c \<and> c \<le> 122 then St 195 else St 0) else if c \<ge> 65 then St 195 else St 0) else St 195)
    else if cs = 195 then
      (switch c [(32, Tr 224), (47, Tr 224), (62, Tr 224)]
      (if c < 45 then (if 9 \<le> c \<and> c \<le> 13 then Tr 224 else St 0) else if c > 57 then (if c > 90 then (if
      97 \<le> c \<and> c \<le> 122 then St 195 else St 0) else if c \<ge> 65 then St 195 else St 0) else St 195))
    else if cs = 196 then
      (if c = 62 then St 197 else St 196)
    else if cs = 197 then
      (switch c [(0, Tr 227), (62, St 197)]
      (St 196))
    else St 0)"

definition request_trs_26 :: "(int \<times> request_action list \<times> int) list" where
  "request_trs_26 =
    [(2, [Mark], 194), (224, [Request_path], 196), (227, [Xml, Done], 349)]"

definition request_cases_27 :: "bool \<Rightarrow> int \<Rightarrow> int \<Rightarrow> jump" where
  "request_cases_27 relaxed cs c =
   (if cs = 349 then
     (St 0)
    else if cs = 198 then
      (let w = (if c < 123 then (if 94 \<le> c \<and> c \<le> 94 then widen relaxed c else c) else (if c > 123 then
      (if 125 \<le> c \<and> c \<le> 125 then widen relaxed c else c) else widen relaxed c)) in
      switch w [(32, Tr 228), (33, St 202), (37, St 203), (47, St 208), (59, St 202), (61, St 202), (95, St 202),
      (126, St 202), (606, St 202), (635, St 202), (637, St 202)]
      (if w < 64 then (if 36 \<le> w \<and> w \<le> 57 then St 202 else St 0) else if w > 90 then (if 97 \<le> w
      \<and> w \<le> 122 then St 202 else St 0) else St 202))
    else if cs = 199 then
      (if c = 123 then Tr 232 else St 0)
    else if cs = 200 then
      (if c = 125 then St 201 else St 200)
    else if cs = 201 then
      (switch c [(0, Tr 235), (125, St 201)]
      (St 200))
    else St 0)"

definition request_trs_27 :: "(int \<times> request_action list \<times> int) list" where
  "request_trs_27 =
    [(235, [Json, Done], 349), (3, [Mark], 198), (228, [Request_path], 199), (232, [Mark], 200)]"

definition request_cases_28 :: "bool \<Rightarrow> int \<Rightarrow> int \<Rightarrow> jump" where
  "request_cases_28 relaxed cs c =
   (if cs = 202 then
     (let w = (if c < 123 then (if 94 \<le> c \<and> c \<le> 94 then widen relaxed c else c) else (if c > 123 then
     (if 125 \<le> c \<and> c \<le> 125 then widen relaxed c else c) else widen relaxed c)) in
     switch w [(32, Tr 228), (33, St 202), (37, St 203), (47, St 205), (59, St 202), (61, St 202), (95, St 202),
     (126, St 202), (606, St 202), (635, St 202), (637, St 202)]
     (if w < 64 then (if 36 \<le> w \<and> w \<le> 57 then St 202 else St 0) else if w > 90 then (if 97 \<le> w
     \<and> w \<le> 122 then St 202 else St 0) else St 202))
    else if cs = 203 then
      (if c < 65 then (if 48 \<le> c \<and> c \<le> 57 then St 204 else St 0) else if c > 70 then (if 97 \<le> c
      \<and> c \<le> 102 then St 204 else St 0) else St 204)
    else if cs = 204 then
      (if c < 65 then (if 48 \<le> c \<and> c \<le> 57 then St 202 else St 0) else if c > 70 then (if 97 \<le> c
      \<and> c \<le> 102 then St 202 else St 0) else St 202)
    else if cs = 205 then
      (let w = (if c < 123 then (if 94 \<le> c \<and> c \<le> 94 then widen relaxed c else c) else (if c > 123 then
      (if 125 \<le> c \<and> c \<le> 125 then widen relaxed c else c) else widen relaxed c)) in
      switch w [(32, Tr 228), (33, St 205), (37, St 206), (61, St 205), (95, St 205), (126, St 205), (606, St 205),
      (635, St 205), (637, St 205)]
      (if w < 36 then (if w \<le> (-1) then St 205 else St 0) else if w > 59 then (if w > 90 then (if 97 \<le> w
      \<and> w \<le> 122 then St 205 else St 0) else if w \<ge> 64 then St 205 else St 0) else St 205))
    else if cs = 206 then
      (if c < 65 then (if 48 \<le> c \<and> c \<le> 57 then St 207 else St 0) else if c > 70 then (if 97 \<le> c
      \<and> c \<le> 102 then St 207 else St 0) else St 207)
    else if cs = 207 then
      (if c < 65 then (if 48 \<le> c \<and> c \<le> 57 then St 205 else St 0) else if c > 70 then (if 97 \<le> c
      \<and> c \<le> 102 then St 205 else St 0) else St 205)
    else St 0)"

definition request_cases_29 :: "bool \<Rightarrow> int \<Rightarrow> int \<Rightarrow> jump" where
  "request_cases_29 relaxed cs c =
   (if cs = 208 then
     (let w = (if c < 123 then (if 94 \<le> c \<and> c \<le> 94 then widen relaxed c else c) else (if c > 123 then
     (if 125 \<le> c \<and> c \<le> 125 then widen relaxed c else c) else widen relaxed c)) in
     switch w [(32, Tr 228), (33, St 205), (37, St 206), (47, St 209), (61, St 205), (95, St 205), (126, St 205),
     (606, St 205), (635, St 205), (637, St 205)]
     (if w < 36 then (if w \<le> (-1) then St 205 else St 0) else if w > 59 then (if w > 90 then (if 97 \<le> w
     \<and> w \<le> 122 then St 205 else St 0) else if w \<ge> 64 then St 205 else St 0) else St 205))
    else if cs = 209 then
      (let w = (if c < 123 then (if 94 \<le> c \<and> c \<le> 94 then widen relaxed c else c) else (if c > 123 then
      (if 125 \<le> c \<and> c \<le> 125 then widen relaxed c else c) else widen relaxed c)) in
      switch w [(32, Tr 228), (33, St 210), (37, St 211), (47, St 205), (58, St 213), (61, St 210), (64, St 217),
      (91, St 222), (95, St 210), (126, St 210), (606, St 210), (635, St 210), (637, St 210)]
      (if w < 65 then (if 36 \<le> w \<and> w \<le> 59 then St 210 else St 0) else if w > 90 then (if 97 \<le> w
      \<and> w \<le> 122 then St 210 else St 0) else St 210))
    else if cs = 210 then
      (let w = (if c < 123 then (if 94 \<le> c \<and> c \<le> 94 then widen relaxed c else c) else (if c > 123 then
      (if 125 \<le> c \<and> c \<le> 125 then widen relaxed c else c) else widen relaxed c)) in
      switch w [(32, Tr 228), (33, St 210), (37, St 211), (47, St 205), (58, St 213), (61, St 210), (64, St 217),
      (95, St 210), (126, St 210), (606, St 210), (635, St 210), (637, St 210)]
      (if w < 65 then (if 36 \<le> w \<and> w \<le> 59 then St 210 else St 0) else if w > 90 then (if 97 \<le> w
      \<and> w \<le> 122 then St 210 else St 0) else St 210))
    else St 0)"

definition request_cases_30 :: "bool \<Rightarrow> int \<Rightarrow> int \<Rightarrow> jump" where
  "request_cases_30 relaxed cs c =
   (if cs = 211 then
     (if c < 65 then (if 48 \<le> c \<and> c \<le> 57 then St 212 else St 0) else if c > 70 then (if 97 \<le> c
     \<and> c \<le> 102 then St 212 else St 0) else St 212)
    else if cs = 212 then
      (if c < 65 then (if 48 \<le> c \<and> c \<le> 57 then St 210 else St 0) else if c > 70 then (if 97 \<le> c
      \<and> c \<le> 102 then St 210 else St 0) else St 210)
    else if cs = 213 then
      (let w = (if c < 123 then (if 94 \<le> c \<and> c \<le> 94 then widen relaxed c else c) else (if c > 123 then
      (if 125 \<le> c \<and> c \<le> 125 then widen relaxed c else c) else widen relaxed c)) in
      switch w [(32, Tr 228), (33, St 214), (37, St 215), (47, St 205), (61, St 214), (64, St 217), (95, St 214),
      (126, St 214), (606, St 214), (635, St 214), (637, St 214)]
      (if w < 58 then (if w > 46 then (if 48 \<le> w \<and> w \<le> 57 then St 213 else St 0) else if w \<ge> 36 then
      St 214 else St 0) else if w > 59 then (if w > 90 then (if 97 \<le> w \<and> w \<le> 122 then St 214 else St 0)
      else if w \<ge> 65 then St 214 else St 0) else St 214))
    else if cs = 214 then
      (let w = (if c < 123 then (if 94 \<le> c \<and> c \<le> 94 then widen relaxed c else c) else (if c > 123 then
      (if 125 \<le> c \<and> c \<le> 125 then widen relaxed c else c) else widen relaxed c)) in
      switch w [(33, St 214), (37, St 215), (61, St 214), (64, St 217), (95, St 214), (126, St 214), (606, St 214),
      (635, St 214), (637, St 214)]
      (if w < 48 then (if 36 \<le> w \<and> w \<le> 46 then St 214 else St 0) else if w > 59 then (if w > 90 then (if
      97 \<le> w \<and> w \<le> 122 then St 214 else St 0) else if w \<ge> 65 then St 214 else St 0) else St 214))
    else if cs = 215 then
      (if c < 65 then (if 48 \<le> c \<and> c \<le> 57 then St 216 else St 0) else if c > 70 then (if 97 \<le> c
      \<and> c \<le> 102 then St 216 else St 0) else St 216)
    else St 0)"

definition request_cases_31 :: "bool \<Rightarrow> int \<Rightarrow> int \<Rightarrow> jump" where
  "request_cases_31 relaxed cs c =
   (if cs = 216 then
     (if c < 65 then (if 48 \<le> c \<and> c \<le> 57 then St 214 else St 0) else if c > 70 then (if 97 \<le> c
     \<and> c \<le> 102 then St 214 else St 0) else St 214)
    else if cs = 217 then
      (let w = (if c < 123 then (if 94 \<le> c \<and> c \<le> 94 then widen relaxed c else c) else (if c > 123 then
      (if 125 \<le> c \<and> c \<le> 125 then widen relaxed c else c) else widen relaxed c)) in
      switch w [(32, Tr 228), (33, St 218), (37, St 219), (47, St 205), (58, St 221), (61, St 218), (91, St 222),
      (95, St 218), (126, St 218), (606, St 218), (635, St 218), (637, St 218)]
      (if w < 65 then (if 36 \<le> w \<and> w \<le> 59 then St 218 else St 0) else if w > 90 then (if 97 \<le> w
      \<and> w \<le> 122 then St 218 else St 0) else St 218))
    else if cs = 218 then
      (let w = (if c < 123 then (if 94 \<le> c \<and> c \<le> 94 then widen relaxed c else c) else (if c > 123 then
      (if 125 \<le> c \<and> c \<le> 125 then widen relaxed c else c) else widen relaxed c)) in
      switch w [(32, Tr 228), (33, St 218), (37, St 219), (47, St 205), (58, St 221), (61, St 218), (95, St 218),
      (126, St 218), (606, St 218), (635, St 218), (637, St 218)]
      (if w < 65 then (if 36 \<le> w \<and> w \<le> 59 then St 218 else St 0) else if w > 90 then (if 97 \<le> w
      \<and> w \<le> 122 then St 218 else St 0) else St 218))
    else if cs = 219 then
      (if c < 65 then (if 48 \<le> c \<and> c \<le> 57 then St 220 else St 0) else if c > 70 then (if 97 \<le> c
      \<and> c \<le> 102 then St 220 else St 0) else St 220)
    else if cs = 220 then
      (if c < 65 then (if 48 \<le> c \<and> c \<le> 57 then St 218 else St 0) else if c > 70 then (if 97 \<le> c
      \<and> c \<le> 102 then St 218 else St 0) else St 218)
    else if cs = 221 then
      (switch c [(32, Tr 228), (47, St 205)]
      (if 48 \<le> c \<and> c \<le> 57 then St 221 else St 0))
    else St 0)"

definition request_cases_32 :: "bool \<Rightarrow> int \<Rightarrow> int \<Rightarrow> jump" where
  "request_cases_32 relaxed cs c =
   (if cs = 222 then
     (switch c [(6, St 223), (58, St 342), (118, St 344)]
     (if c < 65 then (if 48 \<le> c \<and> c \<le> 57 then St 266 else St 0) else if c > 70 then (if 97 \<le> c
     \<and> c \<le> 102 then St 266 else St 0) else St 266))
    else if cs = 223 then
      (if c < 65 then (if 48 \<le> c \<and> c \<le> 57 then St 224 else St 0) else if c > 70 then (if 97 \<le> c
      \<and> c \<le> 102 then St 224 else St 0) else St 224)
    else if cs = 224 then
      (if c = 58 then St 228 else if c < 65 then (if 48 \<le> c \<and> c \<le> 57 then St 225 else St 0) else if c >
      70 then (if 97 \<le> c \<and> c \<le> 102 then St 225 else St 0) else St 225)
    else if cs = 225 then
      (if c = 58 then St 228 else if c < 65 then (if 48 \<le> c \<and> c \<le> 57 then St 226 else St 0) else if c >
      70 then (if 97 \<le> c \<and> c \<le> 102 then St 226 else St 0) else St 226)
    else if cs = 226 then
      (if c = 58 then St 228 else if c < 65 then (if 48 \<le> c \<and> c \<le> 57 then St 227 else St 0) else if c >
      70 then (if 97 \<le> c \<and> c \<le> 102 then St 227 else St 0) else St 227)
    else if cs = 227 then
      (if c = 58 then St 228 else St 0)
    else if cs = 228 then
      (switch c [(49, St 259), (50, St 262)]
      (if c < 65 then (if 48 \<le> c \<and> c \<le> 57 then St 229 else St 0) else if c > 70 then (if 97 \<le> c
      \<and> c \<le> 102 then St 265 else St 0) else St 265))
    else if cs = 229 then
      (switch c [(46, St 230), (58, St 255)]
      (if c < 65 then (if 48 \<le> c \<and> c \<le> 57 then St 252 else St 0) else if c > 70 then (if 97 \<le> c
      \<and> c \<le> 102 then St 252 else St 0) else St 252))
    else if cs = 230 then
      (switch c [(49, St 247), (50, St 249)]
      (if 48 \<le> c \<and> c \<le> 57 then St 231 else St 0))
    else if cs = 231 then
      (if c = 46 then St 232 else St 0)
    else if cs = 232 then
      (switch c [(49, St 242), (50, St 244)]
      (if 48 \<le> c \<and> c \<le> 57 then St 233 else St 0))
    else St 0)"

definition request_cases_33 :: "bool \<Rightarrow> int \<Rightarrow> int \<Rightarrow> jump" where
  "request_cases_33 relaxed cs c =
   (if cs = 233 then
     (if c = 46 then St 234 else St 0)
    else if cs = 234 then
      (switch c [(49, St 237), (50, St 239)]
      (if 48 \<le> c \<and> c \<le> 57 then St 235 else St 0))
    else if cs = 235 then
      (if c = 93 then St 236 else St 0)
    else if cs = 236 then
      (switch c [(32, Tr 228), (47, St 205), (58, St 221)]
      (St 0))
    else if cs = 237 then
      (if c = 93 then St 236 else if 48 \<le> c \<and> c \<le> 57 then St 238 else St 0)
    else if cs = 238 then
      (if c = 93 then St 236 else if 48 \<le> c \<and> c \<le> 57 then St 235 else St 0)
    else if cs = 239 then
      (switch c [(48, St 240), (53, St 241), (93, St 236)]
      (St 0))
    else if cs = 240 then
      (if 48 \<le> c \<and> c \<le> 57 then St 235 else St 0)
    else if cs = 241 then
      (if c = 48 then St 235 else St 0)
    else if cs = 242 then
      (if c = 46 then St 234 else if 48 \<le> c \<and> c \<le> 57 then St 243 else St 0)
    else if cs = 243 then
      (if c = 46 then St 234 else if 48 \<le> c \<and> c \<le> 57 then St 233 else St 0)
    else if cs = 244 then
      (switch c [(46, St 234), (48, St 245), (53, St 246)]
      (St 0))
    else if cs = 245 then
      (if 48 \<le> c \<and> c \<le> 57 then St 233 else St 0)
    else if cs = 246 then
      (if c = 48 then St 233 else St 0)
    else if cs = 247 then
      (if c = 46 then St 232 else if 48 \<le> c \<and> c \<le> 57 then St 248 else St 0)
    else if cs = 248 then
      (if c = 46 then St 232 else if 48 \<le> c \<and> c \<le> 57 then St 231 else St 0)
    else if cs = 249 then
      (switch c [(46, St 232), (48, St 250), (53, St 251)]
      (St 0))
    else St 0)"

definition request_cases_34 :: "bool \<Rightarrow> int \<Rightarrow> int \<Rightarrow> jump" where
  "request_cases_34 relaxed cs c =
   (if cs = 250 then
     (if 48 \<le> c \<and> c \<le> 57 then St 231 else St 0)
    else if cs = 251 then
      (if c = 48 then St 231 else St 0)
    else if cs = 252 then
      (if c = 58 then St 255 else if c < 65 then (if 48 \<le> c \<and> c \<le> 57 then St 253 else St 0) else if c >
      70 then (if 97 \<le> c \<and> c \<le> 102 then St 253 else St 0) else St 253)
    else if cs = 253 then
      (if c = 58 then St 255 else if c < 65 then (if 48 \<le> c \<and> c \<le> 57 then St 254 else St 0) else if c >
      70 then (if 97 \<le> c \<and> c \<le> 102 then St 254 else St 0) else St 254)
    else if cs = 254 then
      (if c = 58 then St 255 else St 0)
    else if cs = 255 then
      (if c < 65 then (if 48 \<le> c \<and> c \<le> 57 then St 256 else St 0) else if c > 70 then (if 97 \<le> c
      \<and> c \<le> 102 then St 256 else St 0) else St 256)
    else if cs = 256 then
      (if c = 93 then St 236 else if c < 65 then (if 48 \<le> c \<and> c \<le> 57 then St 257 else St 0) else if c >
      70 then (if 97 \<le> c \<and> c \<le> 102 then St 257 else St 0) else St 257)
    else if cs = 257 then
      (if c = 93 then St 236 else if c < 65 then (if 48 \<le> c \<and> c \<le> 57 then St 258 else St 0) else if c >
      70 then (if 97 \<le> c \<and> c \<le> 102 then St 258 else St 0) else St 258)
    else if cs = 258 then
      (if c = 93 then St 236 else if c < 65 then (if 48 \<le> c \<and> c \<le> 57 then St 235 else St 0) else if c >
      70 then (if 97 \<le> c \<and> c \<le> 102 then St 235 else St 0) else St 235)
    else if cs = 259 then
      (switch c [(46, St 230), (58, St 255)]
      (if c < 65 then (if 48 \<le> c \<and> c \<le> 57 then St 260 else St 0) else if c > 70 then (if 97 \<le> c
      \<and> c \<le> 102 then St 252 else St 0) else St 252))
    else if cs = 260 then
      (switch c [(46, St 230), (58, St 255)]
      (if c < 65 then (if 48 \<le> c \<and> c \<le> 57 then St 261 else St 0) else if c > 70 then (if 97 \<le> c
      \<and> c \<le> 102 then St 253 else St 0) else St 253))
    else St 0)"

definition request_cases_35 :: "bool \<Rightarrow> int \<Rightarrow> int \<Rightarrow> jump" where
  "request_cases_35 relaxed cs c =
   (if cs = 261 then
     (switch c [(46, St 230), (58, St 255)]
     (if c < 65 then (if 48 \<le> c \<and> c \<le> 57 then St 254 else St 0) else if c > 70 then (if 97 \<le> c
     \<and> c \<le> 102 then St 254 else St 0) else St 254))
    else if cs = 262 then
      (switch c [(46, St 230), (48, St 263), (53, St 264), (58, St 255)]
      (if c < 65 then (if 49 \<le> c \<and> c \<le> 57 then St 252 else St 0) else if c > 70 then (if 97 \<le> c
      \<and> c \<le> 102 then St 252 else St 0) else St 252))
    else if cs = 263 then
      (if c = 58 then St 255 else if c < 65 then (if 48 \<le> c \<and> c \<le> 57 then St 261 else St 0) else if c >
      70 then (if 97 \<le> c \<and> c \<le> 102 then St 253 else St 0) else St 253)
    else if cs = 264 then
      (switch c [(48, St 261), (58, St 255)]
      (if c < 65 then (if 49 \<le> c \<and> c \<le> 57 then St 253 else St 0) else if c > 70 then (if 97 \<le> c
      \<and> c \<le> 102 then St 253 else St 0) else St 253))
    else if cs = 265 then
      (if c = 58 then St 255 else if c < 65 then (if 48 \<le> c \<and> c \<le> 57 then St 252 else St 0) else if c >
      70 then (if 97 \<le> c \<and> c \<le> 102 then St 252 else St 0) else St 252)
    else if cs = 266 then
      (if c = 58 then St 270 else if c < 65 then (if 48 \<le> c \<and> c \<le> 57 then St 267 else St 0) else if c >
      70 then (if 97 \<le> c \<and> c \<le> 102 then St 267 else St 0) else St 267)
    else if cs = 267 then
      (if c = 58 then St 270 else if c < 65 then (if 48 \<le> c \<and> c \<le> 57 then St 268 else St 0) else if c >
      70 then (if 97 \<le> c \<and> c \<le> 102 then St 268 else St 0) else St 268)
    else if cs = 268 then
      (if c = 58 then St 270 else if c < 65 then (if 48 \<le> c \<and> c \<le> 57 then St 269 else St 0) else if c >
      70 then (if 97 \<le> c \<and> c \<le> 102 then St 269 else St 0) else St 269)
    else if cs = 269 then
      (if c = 58 then St 270 else St 0)
    else if cs = 270 then
      (if c = 58 then St 341 else if c < 65 then (if 48 \<le> c \<and> c \<le> 57 then St 271 else St 0) else if c >
      70 then (if 97 \<le> c \<and> c \<le> 102 then St 271 else St 0) else St 271)
    else St 0)"

definition request_cases_36 :: "bool \<Rightarrow> int \<Rightarrow> int \<Rightarrow> jump" where
  "request_cases_36 relaxed cs c =
   (if cs = 271 then
     (if c = 58 then St 275 else if c < 65 then (if 48 \<le> c \<and> c \<le> 57 then St 272 else St 0) else if c >
     70 then (if 97 \<le> c \<and> c \<le> 102 then St 272 else St 0) else St 272)
    else if cs = 272 then
      (if c = 58 then St 275 else if c < 65 then (if 48 \<le> c \<and> c \<le> 57 then St 273 else St 0) else if c >
      70 then (if 97 \<le> c \<and> c \<le> 102 then St 273 else St 0) else St 273)
    else if cs = 273 then
      (if c = 58 then St 275 else if c < 65 then (if 48 \<le> c \<and> c \<le> 57 then St 274 else St 0) else if c >
      70 then (if 97 \<le> c \<and> c \<le> 102 then St 274 else St 0) else St 274)
    else if cs = 274 then
      (if c = 58 then St 275 else St 0)
    else if cs = 275 then
      (if c = 58 then St 340 else if c < 65 then (if 48 \<le> c \<and> c \<le> 57 then St 276 else St 0) else if c >
      70 then (if 97 \<le> c \<and> c \<le> 102 then St 276 else St 0) else St 276)
    else if cs = 276 then
      (if c = 58 then St 280 else if c < 65 then (if 48 \<le> c \<and> c \<le> 57 then St 277 else St 0) else if c >
      70 then (if 97 \<le> c \<and> c \<le> 102 then St 277 else St 0) else St 277)
    else if cs = 277 then
      (if c = 58 then St 280 else if c < 65 then (if 48 \<le> c \<and> c \<le> 57 then St 278 else St 0) else if c >
      70 then (if 97 \<le> c \<and> c \<le> 102 then St 278 else St 0) else St 278)
    else if cs = 278 then
      (if c = 58 then St 280 else if c < 65 then (if 48 \<le> c \<and> c \<le> 57 then St 279 else St 0) else if c >
      70 then (if 97 \<le> c \<and> c \<le> 102 then St 279 else St 0) else St 279)
    else if cs = 279 then
      (if c = 58 then St 280 else St 0)
    else if cs = 280 then
      (if c = 58 then St 339 else if c < 65 then (if 48 \<le> c \<and> c \<le> 57 then St 281 else St 0) else if c >
      70 then (if 97 \<le> c \<and> c \<le> 102 then St 281 else St 0) else St 281)
    else if cs = 281 then
      (if c = 58 then St 285 else if c < 65 then (if 48 \<le> c \<and> c \<le> 57 then St 282 else St 0) else if c >
      70 then (if 97 \<le> c \<and> c \<le> 102 then St 282 else St 0) else St 282)
    else St 0)"

definition request_cases_37 :: "bool \<Rightarrow> int \<Rightarrow> int \<Rightarrow> jump" where
  "request_cases_37 relaxed cs c =
   (if cs = 282 then
     (if c = 58 then St 285 else if c < 65 then (if 48 \<le> c \<and> c \<le> 57 then St 283 else St 0) else if c >
     70 then (if 97 \<le> c \<and> c \<le> 102 then St 283 else St 0) else St 283)
    else if cs = 283 then
      (if c = 58 then St 285 else if c < 65 then (if 48 \<le> c \<and> c \<le> 57 then St 284 else St 0) else if c >
      70 then (if 97 \<le> c \<and> c \<le> 102 then St 284 else St 0) else St 284)
    else if cs = 284 then
      (if c = 58 then St 285 else St 0)
    else if cs = 285 then
      (if c = 58 then St 338 else if c < 65 then (if 48 \<le> c \<and> c \<le> 57 then St 286 else St 0) else if c >
      70 then (if 97 \<le> c \<and> c \<le> 102 then St 286 else St 0) else St 286)
    else if cs = 286 then
      (if c = 58 then St 290 else if c < 65 then (if 48 \<le> c \<and> c \<le> 57 then St 287 else St 0) else if c >
      70 then (if 97 \<le> c \<and> c \<le> 102 then St 287 else St 0) else St 287)
    else if cs = 287 then
      (if c = 58 then St 290 else if c < 65 then (if 48 \<le> c \<and> c \<le> 57 then St 288 else St 0) else if c >
      70 then (if 97 \<le> c \<and> c \<le> 102 then St 288 else St 0) else St 288)
    else if cs = 288 then
      (if c = 58 then St 290 else if c < 65 then (if 48 \<le> c \<and> c \<le> 57 then St 289 else St 0) else if c >
      70 then (if 97 \<le> c \<and> c \<le> 102 then St 289 else St 0) else St 289)
    else if cs = 289 then
      (if c = 58 then St 290 else St 0)
    else if cs = 290 then
      (if c = 58 then St 326 else if c < 65 then (if 48 \<le> c \<and> c \<le> 57 then St 291 else St 0) else if c >
      70 then (if 97 \<le> c \<and> c \<le> 102 then St 291 else St 0) else St 291)
    else if cs = 291 then
      (if c = 58 then St 295 else if c < 65 then (if 48 \<le> c \<and> c \<le> 57 then St 292 else St 0) else if c >
      70 then (if 97 \<le> c \<and> c \<le> 102 then St 292 else St 0) else St 292)
    else if cs = 292 then
      (if c = 58 then St 295 else if c < 65 then (if 48 \<le> c \<and> c \<le> 57 then St 293 else St 0) else if c >
      70 then (if 97 \<le> c \<and> c \<le> 102 then St 293 else St 0) else St 293)
    else St 0)"

definition request_cases_38 :: "bool \<Rightarrow> int \<Rightarrow> int \<Rightarrow> jump" where
  "request_cases_38 relaxed cs c =
   (if cs = 293 then
     (if c = 58 then St 295 else if c < 65 then (if 48 \<le> c \<and> c \<le> 57 then St 294 else St 0) else if c >
     70 then (if 97 \<le> c \<and> c \<le> 102 then St 294 else St 0) else St 294)
    else if cs = 294 then
      (if c = 58 then St 295 else St 0)
    else if cs = 295 then
      (if c = 58 then St 325 else if c < 65 then (if 48 \<le> c \<and> c \<le> 57 then St 296 else St 0) else if c >
      70 then (if 97 \<le> c \<and> c \<le> 102 then St 296 else St 0) else St 296)
    else if cs = 296 then
      (if c = 58 then St 300 else if c < 65 then (if 48 \<le> c \<and> c \<le> 57 then St 297 else St 0) else if c >
      70 then (if 97 \<le> c \<and> c \<le> 102 then St 297 else St 0) else St 297)
    else if cs = 297 then
      (if c = 58 then St 300 else if c < 65 then (if 48 \<le> c \<and> c \<le> 57 then St 298 else St 0) else if c >
      70 then (if 97 \<le> c \<and> c \<le> 102 then St 298 else St 0) else St 298)
    else if cs = 298 then
      (if c = 58 then St 300 else if c < 65 then (if 48 \<le> c \<and> c \<le> 57 then St 299 else St 0) else if c >
      70 then (if 97 \<le> c \<and> c \<le> 102 then St 299 else St 0) else St 299)
    else if cs = 299 then
      (if c = 58 then St 300 else St 0)
    else if cs = 300 then
      (if c = 58 then St 301 else if c < 65 then (if 48 \<le> c \<and> c \<le> 57 then St 296 else St 0) else if c >
      70 then (if 97 \<le> c \<and> c \<le> 102 then St 296 else St 0) else St 296)
    else if cs = 301 then
      (switch c [(49, St 318), (50, St 321), (93, St 236)]
      (if c < 48 then (if 2 \<le> c \<and> c \<le> 3 then St 223 else St 0) else if c > 57 then (if c > 70 then (if
      97 \<le> c \<and> c \<le> 102 then St 324 else St 0) else if c \<ge> 65 then St 324 else St 0) else St 302))
    else if cs = 302 then
      (switch c [(46, St 230), (58, St 306), (93, St 236)]
      (if c < 65 then (if 48 \<le> c \<and> c \<le> 57 then St 303 else St 0) else if c > 70 then (if 97 \<le> c
      \<and> c \<le> 102 then St 303 else St 0) else St 303))
    else St 0)"

definition request_cases_39 :: "bool \<Rightarrow> int \<Rightarrow> int \<Rightarrow> jump" where
  "request_cases_39 relaxed cs c =
   (if cs = 303 then
     (switch c [(58, St 306), (93, St 236)]
     (if c < 65 then (if 48 \<le> c \<and> c \<le> 57 then St 304 else St 0) else if c > 70 then (if 97 \<le> c
     \<and> c \<le> 102 then St 304 else St 0) else St 304))
    else if cs = 304 then
      (switch c [(58, St 306), (93, St 236)]
      (if c < 65 then (if 48 \<le> c \<and> c \<le> 57 then St 305 else St 0) else if c > 70 then (if 97 \<le> c
      \<and> c \<le> 102 then St 305 else St 0) else St 305))
    else if cs = 305 then
      (switch c [(58, St 306), (93, St 236)]
      (St 0))
    else if cs = 306 then
      (switch c [(49, St 311), (50, St 314)]
      (if c < 65 then (if 48 \<le> c \<and> c \<le> 57 then St 307 else St 0) else if c > 70 then (if 97 \<le> c
      \<and> c \<le> 102 then St 317 else St 0) else St 317))
    else if cs = 307 then
      (switch c [(46, St 230), (58, St 255), (93, St 236)]
      (if c < 65 then (if 48 \<le> c \<and> c \<le> 57 then St 308 else St 0) else if c > 70 then (if 97 \<le> c
      \<and> c \<le> 102 then St 308 else St 0) else St 308))
    else if cs = 308 then
      (switch c [(58, St 255), (93, St 236)]
      (if c < 65 then (if 48 \<le> c \<and> c \<le> 57 then St 309 else St 0) else if c > 70 then (if 97 \<le> c
      \<and> c \<le> 102 then St 309 else St 0) else St 309))
    else if cs = 309 then
      (switch c [(58, St 255), (93, St 236)]
      (if c < 65 then (if 48 \<le> c \<and> c \<le> 57 then St 310 else St 0) else if c > 70 then (if 97 \<le> c
      \<and> c \<le> 102 then St 310 else St 0) else St 310))
    else if cs = 310 then
      (switch c [(58, St 255), (93, St 236)]
      (St 0))
    else if cs = 311 then
      (switch c [(46, St 230), (58, St 255), (93, St 236)]
      (if c < 65 then (if 48 \<le> c \<and> c \<le> 57 then St 312 else St 0) else if c > 70 then (if 97 \<le> c
      \<and> c \<le> 102 then St 308 else St 0) else St 308))
    else St 0)"

definition request_cases_40 :: "bool \<Rightarrow> int \<Rightarrow> int \<Rightarrow> jump" where
  "request_cases_40 relaxed cs c =
   (if cs = 312 then
     (switch c [(46, St 230), (58, St 255), (93, St 236)]
     (if c < 65 then (if 48 \<le> c \<and> c \<le> 57 then St 313 else St 0) else if c > 70 then (if 97 \<le> c
     \<and> c \<le> 102 then St 309 else St 0) else St 309))
    else if cs = 313 then
      (switch c [(46, St 230), (58, St 255), (93, St 236)]
      (if c < 65 then (if 48 \<le> c \<and> c \<le> 57 then St 310 else St 0) else if c > 70 then (if 97 \<le> c
      \<and> c \<le> 102 then St 310 else St 0) else St 310))
    else if cs = 314 then
      (switch c [(46, St 230), (48, St 315), (53, St 316), (58, St 255), (93, St 236)]
      (if c < 65 then (if 49 \<le> c \<and> c \<le> 57 then St 308 else St 0) else if c > 70 then (if 97 \<le> c
      \<and> c \<le> 102 then St 308 else St 0) else St 308))
    else if cs = 315 then
      (switch c [(58, St 255), (93, St 236)]
      (if c < 65 then (if 48 \<le> c \<and> c \<le> 57 then St 313 else St 0) else if c > 70 then (if 97 \<le> c
      \<and> c \<le> 102 then St 309 else St 0) else St 309))
    else if cs = 316 then
      (switch c [(48, St 313), (58, St 255), (93, St 236)]
      (if c < 65 then (if 49 \<le> c \<and> c \<le> 57 then St 309 else St 0) else if c > 70 then (if 97 \<le> c
      \<and> c \<le> 102 then St 309 else St 0) else St 309))
    else if cs = 317 then
      (switch c [(58, St 255), (93, St 236)]
      (if c < 65 then (if 48 \<le> c \<and> c \<le> 57 then St 308 else St 0) else if c > 70 then (if 97 \<le> c
      \<and> c \<le> 102 then St 308 else St 0) else St 308))
    else if cs = 318 then
      (switch c [(46, St 230), (58, St 306), (93, St 236)]
      (if c < 65 then (if 48 \<le> c \<and> c \<le> 57 then St 319 else St 0) else if c > 70 then (if 97 \<le> c
      \<and> c \<le> 102 then St 303 else St 0) else St 303))
    else if cs = 319 then
      (switch c [(46, St 230), (58, St 306), (93, St 236)]
      (if c < 65 then (if 48 \<le> c \<and> c \<le> 57 then St 320 else St 0) else if c > 70 then (if 97 \<le> c
      \<and> c \<le> 102 then St 304 else St 0) else St 304))
    else St 0)"

definition request_cases_41 :: "bool \<Rightarrow> int \<Rightarrow> int \<Rightarrow> jump" where
  "request_cases_41 relaxed cs c =
   (if cs = 320 then
     (switch c [(46, St 230), (58, St 306), (93, St 236)]
     (if c < 65 then (if 48 \<le> c \<and> c \<le> 57 then St 305 else St 0) else if c > 70 then (if 97 \<le> c
     \<and> c \<le> 102 then St 305 else St 0) else St 305))
    else if cs = 321 then
      (switch c [(46, St 230), (48, St 322), (53, St 323), (58, St 306), (93, St 236)]
      (if c < 65 then (if 49 \<le> c \<and> c \<le> 57 then St 303 else St 0) else if c > 70 then (if 97 \<le> c
      \<and> c \<le> 102 then St 303 else St 0) else St 303))
    else if cs = 322 then
      (switch c [(58, St 306), (93, St 236)]
      (if c < 65 then (if 48 \<le> c \<and> c \<le> 57 then St 320 else St 0) else if c > 70 then (if 97 \<le> c
      \<and> c \<le> 102 then St 304 else St 0) else St 304))
    else if cs = 323 then
      (switch c [(48, St 320), (58, St 306), (93, St 236)]
      (if c < 65 then (if 49 \<le> c \<and> c \<le> 57 then St 304 else St 0) else if c > 70 then (if 97 \<le> c
      \<and> c \<le> 102 then St 304 else St 0) else St 304))
    else if cs = 324 then
      (switch c [(58, St 306), (93, St 236)]
      (if c < 65 then (if 48 \<le> c \<and> c \<le> 57 then St 303 else St 0) else if c > 70 then (if 97 \<le> c
      \<and> c \<le> 102 then St 303 else St 0) else St 303))
    else if cs = 325 then
      (switch c [(49, St 318), (50, St 321)]
      (if c < 48 then (if 2 \<le> c \<and> c \<le> 3 then St 223 else St 0) else if c > 57 then (if c > 70 then (if
      97 \<le> c \<and> c \<le> 102 then St 324 else St 0) else if c \<ge> 65 then St 324 else St 0) else St 302))
    else if cs = 326 then
      (switch c [(49, St 331), (50, St 334)]
      (if c < 48 then (if 2 \<le> c \<and> c \<le> 3 then St 223 else St 0) else if c > 57 then (if c > 70 then (if
      97 \<le> c \<and> c \<le> 102 then St 337 else St 0) else if c \<ge> 65 then St 337 else St 0) else St 327))
    else if cs = 327 then
      (switch c [(46, St 230), (58, St 306)]
      (if c < 65 then (if 48 \<le> c \<and> c \<le> 57 then St 328 else St 0) else if c > 70 then (if 97 \<le> c
      \<and> c \<le> 102 then St 328 else St 0) else St 328))
    else St 0)"

definition request_cases_42 :: "bool \<Rightarrow> int \<Rightarrow> int \<Rightarrow> jump" where
  "request_cases_42 relaxed cs c =
   (if cs = 328 then
     (if c = 58 then St 306 else if c < 65 then (if 48 \<le> c \<and> c \<le> 57 then St 329 else St 0) else if c >
     70 then (if 97 \<le> c \<and> c \<le> 102 then St 329 else St 0) else St 329)
    else if cs = 329 then
      (if c = 58 then St 306 else if c < 65 then (if 48 \<le> c \<and> c \<le> 57 then St 330 else St 0) else if c >
      70 then (if 97 \<le> c \<and> c \<le> 102 then St 330 else St 0) else St 330)
    else if cs = 330 then
      (if c = 58 then St 306 else St 0)
    else if cs = 331 then
      (switch c [(46, St 230), (58, St 306)]
      (if c < 65 then (if 48 \<le> c \<and> c \<le> 57 then St 332 else St 0) else if c > 70 then (if 97 \<le> c
      \<and> c \<le> 102 then St 328 else St 0) else St 328))
    else if cs = 332 then
      (switch c [(46, St 230), (58, St 306)]
      (if c < 65 then (if 48 \<le> c \<and> c \<le> 57 then St 333 else St 0) else if c > 70 then (if 97 \<le> c
      \<and> c \<le> 102 then St 329 else St 0) else St 329))
    else if cs = 333 then
      (switch c [(46, St 230), (58, St 306)]
      (if c < 65 then (if 48 \<le> c \<and> c \<le> 57 then St 330 else St 0) else if c > 70 then (if 97 \<le> c
      \<and> c \<le> 102 then St 330 else St 0) else St 330))
    else if cs = 334 then
      (switch c [(46, St 230), (48, St 335), (53, St 336), (58, St 306)]
      (if c < 65 then (if 49 \<le> c \<and> c \<le> 57 then St 328 else St 0) else if c > 70 then (if 97 \<le> c
      \<and> c \<le> 102 then St 328 else St 0) else St 328))
    else if cs = 335 then
      (if c = 58 then St 306 else if c < 65 then (if 48 \<le> c \<and> c \<le> 57 then St 333 else St 0) else if c >
      70 then (if 97 \<le> c \<and> c \<le> 102 then St 329 else St 0) else St 329)
    else if cs = 336 then
      (switch c [(48, St 333), (58, St 306)]
      (if c < 65 then (if 49 \<le> c \<and> c \<le> 57 then St 329 else St 0) else if c > 70 then (if 97 \<le> c
      \<and> c \<le> 102 then St 329 else St 0) else St 329))
    else St 0)"

definition request_cases_43 :: "bool \<Rightarrow> int \<Rightarrow> int \<Rightarrow> jump" where
  "request_cases_43 relaxed cs c =
   (if cs = 337 then
     (if c = 58 then St 306 else if c < 65 then (if 48 \<le> c \<and> c \<le> 57 then St 328 else St 0) else if c >
     70 then (if 97 \<le> c \<and> c \<le> 102 then St 328 else St 0) else St 328)
    else if cs = 338 then
      (if c < 48 then (if 2 \<le> c \<and> c \<le> 3 then St 223 else St 0) else if c > 57 then (if c > 70 then (if
      97 \<le> c \<and> c \<le> 102 then St 224 else St 0) else if c \<ge> 65 then St 224 else St 0) else St 224)
    else if cs = 339 then
      (if 2 \<le> c \<and> c \<le> 3 then St 223 else St 0)
    else if cs = 340 then
      (if c = 3 then St 223 else St 0)
    else if cs = 341 then
      (if c = 4 then St 223 else St 0)
    else if cs = 342 then
      (if c = 58 then St 343 else St 0)
    else if cs = 343 then
      (switch c [(49, St 318), (50, St 321), (93, St 236)]
      (if c < 48 then (if 2 \<le> c \<and> c \<le> 5 then St 223 else St 0) else if c > 57 then (if c > 70 then (if
      97 \<le> c \<and> c \<le> 102 then St 324 else St 0) else if c \<ge> 65 then St 324 else St 0) else St 302))
    else if cs = 344 then
      (if c < 65 then (if 48 \<le> c \<and> c \<le> 57 then St 345 else St 0) else if c > 70 then (if 97 \<le> c
      \<and> c \<le> 102 then St 345 else St 0) else St 345)
    else if cs = 345 then
      (if c = 46 then St 346 else if c < 65 then (if 48 \<le> c \<and> c \<le> 57 then St 345 else St 0) else if c >
      70 then (if 97 \<le> c \<and> c \<le> 102 then St 345 else St 0) else St 345)
    else St 0)"

definition request_cases_44 :: "bool \<Rightarrow> int \<Rightarrow> int \<Rightarrow> jump" where
  "request_cases_44 relaxed cs c =
   (if cs = 346 then
     (let w = (if c < 123 then (if 94 \<le> c \<and> c \<le> 94 then widen relaxed c else c) else (if c > 123 then
     (if 125 \<le> c \<and> c \<le> 125 then widen relaxed c else c) else widen relaxed c)) in
     switch w [(33, St 347), (36, St 347), (61, St 347), (95, St 347), (126, St 347), (606, St 347), (635, St 347),
     (637, St 347)]
     (if w < 48 then (if 38 \<le> w \<and> w \<le> 46 then St 347 else St 0) else if w > 59 then (if w > 90 then (if
     97 \<le> w \<and> w \<le> 122 then St 347 else St 0) else if w \<ge> 65 then St 347 else St 0) else St 347))
    else if cs = 347 then
      (let w = (if c < 123 then (if 94 \<le> c \<and> c \<le> 94 then widen relaxed c else c) else (if c > 123 then
      (if 125 \<le> c \<and> c \<le> 125 then widen relaxed c else c) else widen relaxed c)) in
      switch w [(33, St 347), (36, St 347), (61, St 347), (93, St 236), (95, St 347), (126, St 347), (606, St 347),
      (635, St 347), (637, St 347)]
      (if w < 48 then (if 38 \<le> w \<and> w \<le> 46 then St 347 else St 0) else if w > 59 then (if w > 90 then (if
      97 \<le> w \<and> w \<le> 122 then St 347 else St 0) else if w \<ge> 65 then St 347 else St 0) else St 347))
    else St 0)"

definition request_cases :: "bool \<Rightarrow> int \<Rightarrow> int \<Rightarrow> jump" where
  "request_cases relaxed cs c =
    (if cs < 1 then St 0
     else if cs < 4 then request_cases_1 relaxed cs c
     else if cs < 14 then request_cases_2 relaxed cs c
     else if cs < 18 then request_cases_3 relaxed cs c
     else if cs < 20 then request_cases_4 relaxed cs c
     else if cs < 22 then request_cases_5 relaxed cs c
     else if cs < 29 then request_cases_6 relaxed cs c
     else if cs < 32 then request_cases_7 relaxed cs c
     else if cs < 35 then request_cases_8 relaxed cs c
     else if cs < 39 then request_cases_9 relaxed cs c
     else if cs < 43 then request_cases_10 relaxed cs c
     else if cs < 51 then request_cases_11 relaxed cs c
     else if cs < 65 then request_cases_12 relaxed cs c
     else if cs < 81 then request_cases_13 relaxed cs c
     else if cs < 90 then request_cases_14 relaxed cs c
     else if cs < 101 then request_cases_15 relaxed cs c
     else if cs < 112 then request_cases_16 relaxed cs c
     else if cs < 123 then request_cases_17 relaxed cs c
     else if cs < 132 then request_cases_18 relaxed cs c
     else if cs < 140 then request_cases_19 relaxed cs c
     else if cs < 148 then request_cases_20 relaxed cs c
     else if cs < 157 then request_cases_21 relaxed cs c
     else if cs < 168 then request_cases_22 relaxed cs c
     else if cs < 173 then request_cases_23 relaxed cs c
     else if cs < 178 then request_cases_24 relaxed cs c
     else if cs < 190 then request_cases_25 relaxed cs c
     else if cs < 198 then request_cases_26 relaxed cs c
     else if cs < 202 then request_cases_27 relaxed cs c
     else if cs < 208 then request_cases_28 relaxed cs c
     else if cs < 211 then request_cases_29 relaxed cs c
     else if cs < 216 then request_cases_30 relaxed cs c
     else if cs < 222 then request_cases_31 relaxed cs c
     else if cs < 233 then request_cases_32 relaxed cs c
     else if cs < 250 then request_cases_33 relaxed cs c
     else if cs < 261 then request_cases_34 relaxed cs c
     else if cs < 271 then request_cases_35 relaxed cs c
     else if cs < 282 then request_cases_36 relaxed cs c
     else if cs < 293 then request_cases_37 relaxed cs c
     else if cs < 303 then request_cases_38 relaxed cs c
     else if cs < 312 then request_cases_39 relaxed cs c
     else if cs < 320 then request_cases_40 relaxed cs c
     else if cs < 328 then request_cases_41 relaxed cs c
     else if cs < 337 then request_cases_42 relaxed cs c
     else if cs < 346 then request_cases_43 relaxed cs c
     else if cs < 348 then request_cases_44 relaxed cs c
     else if cs < 349 then request_cases_4 relaxed cs c
     else if cs < 350 then request_cases_27 relaxed cs c
     else St 0)"

definition request_table :: "(int \<times> request_action list \<times> int) list" where
  "request_table = request_trs_1 @ request_trs_2 @ request_trs_3 @ request_trs_4 @ request_trs_5 @ request_trs_6 @
    request_trs_7 @ request_trs_8 @ request_trs_23 @ request_trs_26 @ request_trs_27"

definition request_trs :: "int \<Rightarrow> request_action list \<times> int" where
  "request_trs k = (case map_of request_table k of Some t \<Rightarrow> t | None \<Rightarrow> ([], 0))"

end
