(* ===== verification/Http.thy ===== *)
theory Http
  imports C_String
begin

text \<open>
  The messages of \<open>src/http/http.cpp\<close> and \<open>include/http/http.h\<close>: methods, status codes, the
  case-insensitive maps of headers, parameters and cookies, and the text of requests and responses.
  \<open>boost::lexical_cast\<close> is the parameter \<open>lexical_cast\<close> of the typed getters.
\<close>

section \<open>Methods and status codes\<close>

datatype HttpMethod =
  DELETE | GET | HEAD | POST | PUT | CONNECT | OPTIONS | TRACE | COPY | LOCK | MKCOL | MOVE |
  PROPFIND | PROPPATCH | SEARCH | UNLOCK | BIND | REBIND | UNBIND | ACL | REPORT | MKACTIVITY |
  CHECKOUT | MERGE | MSEARCH | NOTIFY | SUBSCRIBE | UNSUBSCRIBE | PATCH | PURGE | MKCALENDAR |
  LINK | UNLINK | SOURCE | HTTP_INVALID_METHOD

text \<open>\<open>HTTP_METHOD_MAP\<close>: number, enumerator and text.\<close>

definition HTTP_METHOD_MAP :: "(nat \<times> HttpMethod \<times> string) list" where
  "HTTP_METHOD_MAP = [
     (0, DELETE, ''DELETE''), (1, GET, ''GET''), (2, HEAD, ''HEAD''), (3, POST, ''POST''),
     (4, PUT, ''PUT''), (5, CONNECT, ''CONNECT''), (6, OPTIONS, ''OPTIONS''),
     (7, TRACE, ''TRACE''), (8, COPY, ''COPY''), (9, LOCK, ''LOCK''), (10, MKCOL, ''MKCOL''),
     (11, MOVE, ''MOVE''), (12, PROPFIND, ''PROPFIND''), (13, PROPPATCH, ''PROPPATCH''),
     (14, SEARCH, ''SEARCH''), (15, UNLOCK, ''UNLOCK''), (16, BIND, ''BIND''),
     (17, REBIND, ''REBIND''), (18, UNBIND, ''UNBIND''), (19, ACL, ''ACL''),
     (20, REPORT, ''REPORT''), (21, MKACTIVITY, ''MKACTIVITY''), (22, CHECKOUT, ''CHECKOUT''),
     (23, MERGE, ''MERGE''), (24, MSEARCH, ''M-SEARCH''), (25, NOTIFY, ''NOTIFY''),
     (26, SUBSCRIBE, ''SUBSCRIBE''), (27, UNSUBSCRIBE, ''UNSUBSCRIBE''), (28, PATCH, ''PATCH''),
     (29, PURGE, ''PURGE''), (30, MKCALENDAR, ''MKCALENDAR''), (31, LINK, ''LINK''),
     (32, UNLINK, ''UNLINK''), (33, SOURCE, ''SOURCE'')]"

text \<open>\<open>HttpStatus\<close> is an enumeration over \<open>int\<close>; a parsed status may be any \<open>int\<close>.\<close>

type_synonym HttpStatus = int

definition HTTP_STATUS_MAP :: "(HttpStatus \<times> string) list" where
  "HTTP_STATUS_MAP = [
     (100, ''Continue''), (101, ''Switching Protocols''), (102, ''Processing''), (200, ''OK''),
     (201, ''Created''), (202, ''Accepted''), (203, ''Non-Authoritative Information''),
     (204, ''No Content''), (205, ''Reset Content''), (206, ''Partial Content''),
     (207, ''Multi-Status''), (208, ''Already Reported''), (226, ''IM Used''),
     (300, ''Multiple Choices''), (301, ''Moved Permanently''), (302, ''Found''),
     (303, ''See Other''), (304, ''Not Modified''), (305, ''Use Proxy''),
     (307, ''Temporary Redirect''), (308, ''Permanent Redirect''), (400, ''Bad Request''),
     (401, ''Unauthorized''), (402, ''Payment Required''), (403, ''Forbidden''),
     (404, ''Not Found''), (405, ''Method Not Allowed''), (406, ''Not Acceptable''),
     (407, ''Proxy Authentication Required''), (408, ''Request Timeout''), (409, ''Conflict''),
     (410, ''Gone''), (411, ''Length Required''), (412, ''Precondition Failed''),
     (413, ''Payload Too Large''), (414, ''URI Too Long''), (415, ''Unsupported Media Type''),
     (416, ''Range Not Satisfiable''), (417, ''Expectation Failed''),
     (421, ''Misdirected Request''), (422, ''Unprocessable Entity''), (423, ''Locked''),
     (424, ''Failed Dependency''), (426, ''Upgrade Required''), (428, ''Precondition Required''),
     (429, ''Too Many Requests''), (431, ''Request Header Fields Too Large''),
     (451, ''Unavailable For Legal Reasons''), (500, ''Internal Server Error''),
     (501, ''Not Implemented''), (502, ''Bad Gateway''), (503, ''Service Unavailable''),
     (504, ''Gateway Timeout''), (505, ''HTTP Version Not Supported''),
     (506, ''Variant Also Negotiates''), (507, ''Insufficient Storage''), (508, ''Loop Detected''),
     (510, ''Not Extended''), (511, ''Network Authentication Required'')]"

text \<open>The tests of the expanded macro, in the order of the map.\<close>

definition StringToHttpMethod :: "string \<Rightarrow> HttpMethod" where
  "StringToHttpMethod m =
     (case find (\<lambda>(num, name, s). strcmp s m = 0) HTTP_METHOD_MAP of
        Some (num, name, s) \<Rightarrow> name
      | None \<Rightarrow> HTTP_INVALID_METHOD)"

definition CharsToHttpMethod :: "string \<Rightarrow> HttpMethod" where
  "CharsToHttpMethod m =
     (case find (\<lambda>(num, name, s). strncmp s m (length s) = 0) HTTP_METHOD_MAP of
        Some (num, name, s) \<Rightarrow> name
      | None \<Rightarrow> HTTP_INVALID_METHOD)"

definition s_method_string :: "string list" where
  "s_method_string = map (\<lambda>(num, name, s). s) HTTP_METHOD_MAP"

text \<open>The number of an enumerator; the one after the last of the map for the invalid method.\<close>

definition method_num :: "HttpMethod \<Rightarrow> nat" where
  "method_num m =
     (case find (\<lambda>(num, name, s). name = m) HTTP_METHOD_MAP of
        Some (num, name, s) \<Rightarrow> num
      | None \<Rightarrow> 34)"

definition HttpMethodToString :: "HttpMethod \<Rightarrow> string" where
  "HttpMethodToString m =
     (let idx = method_num m in
      if length s_method_string \<le> idx then ''<unknown>'' else s_method_string ! idx)"

definition HttpStatusToString :: "HttpStatus \<Rightarrow> string" where
  "HttpStatusToString s = (case map_of HTTP_STATUS_MAP s of Some msg \<Rightarrow> msg | None \<Rightarrow> ''<unknown>'')"

section \<open>Facts about methods\<close>

lemma find_unique:
  assumes "x \<in> set xs" "P x" "\<And>y. y \<in> set xs \<Longrightarrow> P y \<Longrightarrow> y = x"
  shows "find P xs = Some x"
proof (cases "find P xs")
  case None
  with assms(1,2) show ?thesis by (simp add: find_None_iff)
next
  case (Some y)
  then have "y \<in> set xs" "P y" by (auto simp: find_Some_iff)
  with Some assms(3) show ?thesis by blast
qed

text \<open>No method's text begins with another one's, and none contains a NUL.\<close>

lemma method_texts_prefix_free:
  "\<forall>x\<in>set HTTP_METHOD_MAP. \<forall>y\<in>set HTTP_METHOD_MAP.
     take (length (snd (snd x))) (snd (snd y)) = snd (snd x) \<longrightarrow> x = y"
  by (simp add: HTTP_METHOD_MAP_def)

lemma method_texts_no_nul: "\<forall>x\<in>set HTTP_METHOD_MAP. CHR 0x00 \<notin> set (snd (snd x))"
  by (simp add: HTTP_METHOD_MAP_def)

lemma method_entry:
  "m \<noteq> HTTP_INVALID_METHOD \<Longrightarrow> (method_num m, m, HttpMethodToString m) \<in> set HTTP_METHOD_MAP"
  by (induction m)
    (simp_all add: HTTP_METHOD_MAP_def method_num_def HttpMethodToString_def s_method_string_def)

lemma cstr_append: "CHR 0x00 \<notin> set a \<Longrightarrow> cstr (a @ b) = a @ cstr b"
  by (induction a) (auto simp: cstr_def)

lemma method_text_matches:
  assumes x: "x \<in> set HTTP_METHOD_MAP" and y: "y \<in> set HTTP_METHOD_MAP"
    and m: "take (length (snd (snd x))) (snd (snd y) @ t) = snd (snd x)"
  shows "x = y"
proof (cases "length (snd (snd x)) \<le> length (snd (snd y))")
  case True
  with m have "take (length (snd (snd x))) (snd (snd y)) = snd (snd x)" by simp
  with x y method_texts_prefix_free show ?thesis by blast
next
  case False
  then have "take (length (snd (snd y))) (snd (snd x)) = snd (snd y)" by (subst m [symmetric]) simp
  with x y method_texts_prefix_free show ?thesis by blast
qed

section \<open>Maps of fields\<close>

definition CaseInsensitiveLess :: "string \<Rightarrow> string \<Rightarrow> bool" where
  "CaseInsensitiveLess lhs rhs \<longleftrightarrow> strcasecmp lhs rhs < 0"

type_synonym fields = "(string \<times> string) list"

text \<open>\<open>checkGetAs\<close> returns the flag and \<open>val\<close>; \<open>lexical_cast\<close> gives \<open>None\<close> where it throws.\<close>

definition checkGetAs :: "(string \<Rightarrow> 'a option) \<Rightarrow> fields \<Rightarrow> string \<Rightarrow> 'a \<Rightarrow> bool \<times> 'a" where
  "checkGetAs lexical_cast m key d =
     (case omap_get CaseInsensitiveLess key m of
        None \<Rightarrow> (False, d)
      | Some v \<Rightarrow> (case lexical_cast v of Some x \<Rightarrow> (True, x) | None \<Rightarrow> (False, d)))"

definition getAs :: "(string \<Rightarrow> 'a option) \<Rightarrow> fields \<Rightarrow> string \<Rightarrow> 'a \<Rightarrow> 'a" where
  "getAs lexical_cast m key d =
     (case omap_get CaseInsensitiveLess key m of
        None \<Rightarrow> d
      | Some v \<Rightarrow> (case lexical_cast v of Some x \<Rightarrow> x | None \<Rightarrow> d))"

definition get_field :: "fields \<Rightarrow> string \<Rightarrow> string \<Rightarrow> string" where
  "get_field m key d = (case omap_get CaseInsensitiveLess key m of None \<Rightarrow> d | Some v \<Rightarrow> v)"

text \<open>\<open>hasHeader\<close> and its like: the flag, and what \<open>*val\<close> holds afterwards.\<close>

definition has_field :: "fields \<Rightarrow> string \<Rightarrow> string option \<Rightarrow> bool \<times> string option" where
  "has_field m key val =
     (case omap_get CaseInsensitiveLess key m of
        None \<Rightarrow> (False, val)
      | Some v \<Rightarrow> (True, map_option (\<lambda>_. v) val))"

section \<open>Requests\<close>

text \<open>The constructor leaves the status of a request uninitialised: \<open>None\<close>.\<close>

record http_request =
  rq_method :: HttpMethod
  rq_status :: "HttpStatus option"
  rq_version :: byte
  rq_close :: bool
  rq_path :: string
  rq_query :: string
  rq_fragment :: string
  rq_body :: string
  rq_headers :: fields
  rq_params :: fields
  rq_cookies :: fields

definition HttpRequest :: "byte \<Rightarrow> bool \<Rightarrow> http_request" where
  "HttpRequest version close =
     \<lparr>rq_method = GET, rq_status = None, rq_version = version, rq_close = close, rq_path = ''/'',
      rq_query = [], rq_fragment = [], rq_body = [], rq_headers = [], rq_params = [], rq_cookies = []\<rparr>"

definition getHeader where "getHeader r key d = get_field (rq_headers r) key d"
definition getParam where "getParam r key d = get_field (rq_params r) key d"
definition getCookie where "getCookie r key d = get_field (rq_cookies r) key d"

definition setHeader :: "http_request \<Rightarrow> string \<Rightarrow> string \<Rightarrow> http_request" where
  "setHeader r key val = r\<lparr>rq_headers := omap_put CaseInsensitiveLess key val (rq_headers r)\<rparr>"
definition setParam :: "http_request \<Rightarrow> string \<Rightarrow> string \<Rightarrow> http_request" where
  "setParam r key val = r\<lparr>rq_params := omap_put CaseInsensitiveLess key val (rq_params r)\<rparr>"
definition setCookie :: "http_request \<Rightarrow> string \<Rightarrow> string \<Rightarrow> http_request" where
  "setCookie r key val = r\<lparr>rq_cookies := omap_put CaseInsensitiveLess key val (rq_cookies r)\<rparr>"

definition delHeader :: "http_request \<Rightarrow> string \<Rightarrow> http_request" where
  "delHeader r key = r\<lparr>rq_headers := omap_del CaseInsensitiveLess key (rq_headers r)\<rparr>"
definition delParam :: "http_request \<Rightarrow> string \<Rightarrow> http_request" where
  "delParam r key = r\<lparr>rq_params := omap_del CaseInsensitiveLess key (rq_params r)\<rparr>"
definition delCookie :: "http_request \<Rightarrow> string \<Rightarrow> http_request" where
  "delCookie r key = r\<lparr>rq_cookies := omap_del CaseInsensitiveLess key (rq_cookies r)\<rparr>"

definition hasHeader where "hasHeader r key val = has_field (rq_headers r) key val"
definition hasParam where "hasParam r key val = has_field (rq_params r) key val"
definition hasCookie where "hasCookie r key val = has_field (rq_cookies r) key val"

text \<open>The typed getters; those of parameters and cookies look into the headers.\<close>

definition getHeaderAs where "getHeaderAs lexical_cast r key d = getAs lexical_cast (rq_headers r) key d"
definition checkGetHeaderAs where
  "checkGetHeaderAs lexical_cast r key d = checkGetAs lexical_cast (rq_headers r) key d"
definition getParamAs where "getParamAs lexical_cast r key d = getAs lexical_cast (rq_headers r) key d"
definition checkGetParamAs where
  "checkGetParamAs lexical_cast r key d = checkGetAs lexical_cast (rq_headers r) key d"
definition getCookieAs where "getCookieAs lexical_cast r key d = getAs lexical_cast (rq_headers r) key d"
definition checkGetCookieAs where
  "checkGetCookieAs lexical_cast r key d = checkGetAs lexical_cast (rq_headers r) key d"

section \<open>Responses\<close>

record http_response =
  rs_status :: HttpStatus
  rs_version :: byte
  rs_close :: bool
  rs_body :: string
  rs_reason :: string
  rs_headers :: fields

definition HttpResponse :: "byte \<Rightarrow> bool \<Rightarrow> http_response" where
  "HttpResponse version close =
     \<lparr>rs_status = 200, rs_version = version, rs_close = close, rs_body = [], rs_reason = [], rs_headers = []\<rparr>"

definition rsp_getHeader where "rsp_getHeader r key d = get_field (rs_headers r) key d"
definition rsp_setHeader :: "http_response \<Rightarrow> string \<Rightarrow> string \<Rightarrow> http_response" where
  "rsp_setHeader r key val = r\<lparr>rs_headers := omap_put CaseInsensitiveLess key val (rs_headers r)\<rparr>"
definition rsp_delHeader :: "http_response \<Rightarrow> string \<Rightarrow> http_response" where
  "rsp_delHeader r key = r\<lparr>rs_headers := omap_del CaseInsensitiveLess key (rs_headers r)\<rparr>"
definition rsp_getHeaderAs where
  "rsp_getHeaderAs lexical_cast r key d = getAs lexical_cast (rs_headers r) key d"
definition rsp_checkGetHeaderAs where
  "rsp_checkGetHeaderAs lexical_cast r key d = checkGetAs lexical_cast (rs_headers r) key d"

section \<open>Text\<close>

definition crlf :: string where "crlf = [CHR 0x0D, CHR 0x0A]"

text \<open>\<open>(m_version >> 4) . (m_version & 0x0f)\<close>\<close>

definition dump_version :: "byte \<Rightarrow> string" where
  "dump_version v = show_dec (unat (drop_bit 4 v)) @ ''.'' @ show_dec (unat (v AND 0x0f))"

text \<open>The loop over the headers, which leaves out \<open>connection\<close>.\<close>

fun dump_headers :: "fields \<Rightarrow> string" where
  "dump_headers [] = []"
| "dump_headers ((k, v) # m) =
     (if strcasecmp k ''connection'' \<noteq> 0 then k @ '': '' @ v @ crlf else []) @ dump_headers m"

definition dump_connection :: "bool \<Rightarrow> string" where
  "dump_connection close = ''connection: '' @ (if close then ''close'' else ''keep-alive'') @ crlf"

definition dump_body :: "string \<Rightarrow> string" where
  "dump_body body =
     (if body \<noteq> [] then ''content-length: '' @ show_dec (length body) @ crlf @ crlf @ body else crlf)"

definition request_dump :: "http_request \<Rightarrow> string" where
  "request_dump r =
     HttpMethodToString (rq_method r) @ '' '' @ rq_path r
     @ (if rq_query r = [] then [] else ''?'') @ rq_query r
     @ (if rq_fragment r = [] then [] else ''#'') @ rq_fragment r
     @ '' HTTP/'' @ dump_version (rq_version r) @ crlf
     @ dump_connection (rq_close r) @ dump_headers (rq_headers r) @ dump_body (rq_body r)"

definition response_dump :: "http_response \<Rightarrow> string" where
  "response_dump r =
     ''HTTP/'' @ dump_version (rs_version r) @ '' '' @ show_dec (unat (word_of_int (rs_status r) :: u32)) @ '' ''
     @ (if rs_reason r = [] then HttpStatusToString (rs_status r) else rs_reason r) @ crlf
     @ dump_headers (rs_headers r) @ dump_connection (rs_close r) @ dump_body (rs_body r)"

section \<open>Facts about fields\<close>

lemma CaseInsensitiveLess_keyed:
  "CaseInsensitiveLess = (\<lambda>a b. bytes_less (fold_key a) (fold_key b))"
  by (simp add: fun_eq_iff CaseInsensitiveLess_def strcasecmp_less_0)

interpretation ci: strict_weak_order CaseInsensitiveLess
  unfolding CaseInsensitiveLess_keyed by (rule keyed_order)

lemma ci_equivalent [simp]: "equivalent CaseInsensitiveLess a b \<longleftrightarrow> fold_key a = fold_key b"
  unfolding CaseInsensitiveLess_keyed by (rule equivalent_keyed)

lemmas field_defs = getHeader_def setHeader_def delHeader_def hasHeader_def get_field_def has_field_def

section \<open>A reader of message heads\<close>

text \<open>The line up to the first CR LF, and the lines up to an empty one.\<close>

fun read_line :: "string \<Rightarrow> (string \<times> string) option" where
  "read_line (a # b # s) =
     (if a = CHR 0x0D \<and> b = CHR 0x0A then Some ([], s)
      else map_option (\<lambda>(l, r). (a # l, r)) (read_line (b # s)))"
| "read_line _ = None"

lemma read_line_shorter: "read_line s = Some (l, r) \<Longrightarrow> length r < length s"
  by (induction s arbitrary: l rule: read_line.induct) (auto split: if_splits)

function read_head :: "string \<Rightarrow> (string list \<times> string) option" where
  "read_head s = (case read_line s of
      None \<Rightarrow> None
    | Some (l, r) \<Rightarrow> if l = [] then Some ([], r)
                      else map_option (\<lambda>(ls, b). (l # ls, b)) (read_head r))"
  by pat_completeness auto
termination
  by (relation "measure length") (auto dest: read_line_shorter)

declare read_head.simps [simp del]

definition one_line :: "string \<Rightarrow> bool" where
  "one_line s \<longleftrightarrow> CHR 0x0D \<notin> set s"

lemma read_line_crlf: "one_line l \<Longrightarrow> read_line (l @ crlf @ r) = Some (l, r)"
proof (induction l)
  case (Cons a l)
  then have IH: "read_line (l @ crlf @ r) = Some (l, r)" and a: "a \<noteq> CHR 0x0D" by (auto simp: one_line_def)
  obtain b s where "l @ crlf @ r = b # s" by (cases l) (auto simp: crlf_def)
  with IH a show ?case by simp
qed (simp add: crlf_def)

lemma read_head_lines:
  "\<forall>l\<in>set ls. l \<noteq> [] \<and> one_line l \<Longrightarrow>
   read_head (concat (map (\<lambda>l. l @ crlf) ls) @ crlf @ body) = Some (ls, body)"
proof (induction ls)
  case Nil
  show ?case
    using read_line_crlf [of "[]" body] by (subst read_head.simps) (simp add: one_line_def)
next
  case (Cons l ls)
  have l: "l \<noteq> []" "one_line l" using Cons.prems by auto
  show ?case
    using Cons.IH Cons.prems l
      read_line_crlf [OF l(2), of "concat (map (\<lambda>l. l @ crlf) ls) @ crlf @ body"]
    by (subst read_head.simps) simp
qed

section \<open>The lines of a message\<close>

definition field_lines :: "fields \<Rightarrow> string list" where
  "field_lines m = map (\<lambda>(k, v). k @ '': '' @ v) (filter (\<lambda>(k, v). fold_key k \<noteq> fold_key ''connection'') m)"

definition connection_line :: "bool \<Rightarrow> string" where
  "connection_line close = ''connection: '' @ (if close then ''close'' else ''keep-alive'')"

definition length_lines :: "string \<Rightarrow> string list" where
  "length_lines body = (if body = [] then [] else [''content-length: '' @ show_dec (length body)])"

definition status_line :: "http_response \<Rightarrow> string" where
  "status_line r = ''HTTP/'' @ dump_version (rs_version r) @ '' '' @ show_dec (unat (word_of_int (rs_status r) :: u32)) @ '' ''
     @ (if rs_reason r = [] then HttpStatusToString (rs_status r) else rs_reason r)"

definition request_line :: "http_request \<Rightarrow> string" where
  "request_line r = HttpMethodToString (rq_method r) @ '' '' @ rq_path r
     @ (if rq_query r = [] then [] else ''?'' @ rq_query r)
     @ (if rq_fragment r = [] then [] else ''#'' @ rq_fragment r) @ '' HTTP/'' @ dump_version (rq_version r)"

lemma dump_headers_lines: "dump_headers m = concat (map (\<lambda>l. l @ crlf) (field_lines m))"
  by (induction m rule: dump_headers.induct) (simp_all add: field_lines_def strcasecmp_eq_0)

lemma dump_body_lines: "dump_body body = concat (map (\<lambda>l. l @ crlf) (length_lines body)) @ crlf @ body"
  by (simp add: dump_body_def length_lines_def)

lemma response_dump_lines:
  "response_dump r = concat (map (\<lambda>l. l @ crlf)
     ([status_line r] @ field_lines (rs_headers r) @ [connection_line (rs_close r)] @ length_lines (rs_body r)))
     @ crlf @ rs_body r"
  by (simp add: response_dump_def status_line_def dump_headers_lines dump_body_lines connection_line_def
      dump_connection_def)

lemma request_dump_lines:
  "request_dump r = concat (map (\<lambda>l. l @ crlf)
     ([request_line r, connection_line (rq_close r)] @ field_lines (rq_headers r) @ length_lines (rq_body r)))
     @ crlf @ rq_body r"
  by (simp add: request_dump_def request_line_def dump_headers_lines dump_body_lines connection_line_def
      dump_connection_def)

text \<open>None of the pieces the code writes itself contains a CR.\<close>

lemma one_line_simps [simp]:
  "one_line []" "one_line (c # s) \<longleftrightarrow> c \<noteq> CHR 0x0D \<and> one_line s" "one_line (s @ t) \<longleftrightarrow> one_line s \<and> one_line t"
  by (auto simp: one_line_def)

lemma digit_char_cr: "digit_char d \<noteq> CHR 0x0D"
proof -
  have "digit_char d \<in> set ''0123456789abcdef''" unfolding digit_char_def by (rule nth_mem) simp
  then show ?thesis by auto
qed

lemma one_line_show_base [simp]: "one_line (show_base b n)"
proof (induction b n rule: show_base.induct)
  case (1 b n)
  then show ?case by (subst show_base.simps) (auto simp: digit_char_cr)
qed

lemma one_line_show_dec [simp]: "one_line (show_dec n)"
  by (simp add: show_dec_def)

lemma one_line_version [simp]: "one_line (dump_version v)"
  by (simp add: dump_version_def)

lemma status_texts_one_line: "\<forall>(c, s) \<in> set HTTP_STATUS_MAP. one_line s"
  by (simp add: HTTP_STATUS_MAP_def)

lemma one_line_status [simp]: "one_line (HttpStatusToString s)"
  using status_texts_one_line
  by (auto simp: HttpStatusToString_def split: option.splits dest: map_of_SomeD)

lemma one_line_connection [simp]: "one_line (connection_line c)" "connection_line c \<noteq> []"
  by (simp_all add: connection_line_def)

lemma length_lines_one_line: "l \<in> set (length_lines b) \<Longrightarrow> l \<noteq> [] \<and> one_line l"
  by (auto simp: length_lines_def split: if_splits)

lemma field_lines_one_line:
  "\<forall>(k, v)\<in>set m. one_line k \<and> one_line v \<Longrightarrow> l \<in> set (field_lines m) \<Longrightarrow> l \<noteq> [] \<and> one_line l"
  by (auto simp: field_lines_def)

section \<open>Properties\<close>

text \<open>
  C23. What a peer reads of a written response: when neither the reason nor a header contains a CR,
  reading lines up to the empty one gives exactly the status line, the headers without
  \<open>connection\<close>, one \<open>connection\<close> line and, for a body that is not empty, its length; the rest is the
  body, byte for byte.
\<close>
theorem response_round_trip:
  assumes "one_line (rs_reason r)" and "\<forall>(k, v)\<in>set (rs_headers r). one_line k \<and> one_line v"
  shows "read_head (response_dump r) =
    Some ([status_line r] @ field_lines (rs_headers r) @ [connection_line (rs_close r)] @ length_lines (rs_body r),
          rs_body r)"
  unfolding response_dump_lines using assms
  by (intro read_head_lines) (auto simp: status_line_def dest: length_lines_one_line field_lines_one_line)

theorem response_round_trip_witness:
  "read_head (response_dump ((rsp_setHeader (HttpResponse 0x11 True) ''Server'' ''azure'')\<lparr>rs_body := ''hi''\<rparr>)) =
     Some ([''HTTP/1.1 200 OK'', ''Server: azure'', ''connection: close'', ''content-length: 2''], ''hi'')"
proof -
  let ?r = "(rsp_setHeader (HttpResponse 0x11 True) ''Server'' ''azure'')\<lparr>rs_body := ''hi''\<rparr>"
  have "one_line (rs_reason ?r)" "\<forall>(k, v)\<in>set (rs_headers ?r). one_line k \<and> one_line v"
    by (simp_all add: rsp_setHeader_def HttpResponse_def)
  from response_round_trip [OF this] have "read_head (response_dump ?r) =
    Some ([status_line ?r] @ field_lines (rs_headers ?r) @ [connection_line (rs_close ?r)] @ length_lines (rs_body ?r),
          rs_body ?r)" .
  also have "\<dots> = Some ([''HTTP/1.1 200 OK'', ''Server: azure'', ''connection: close'', ''content-length: 2''], ''hi'')"
    by code_simp
  finally show ?thesis .
qed

text \<open>
  Methods and their texts: every valid method is found again from its text, by the exact test
  and by the test of the request parser. The latter looks at the beginning only, so whatever
  follows the text of a method in the buffer, more letters included, gives that method.
\<close>
theorem method_round_trip:
  assumes "m \<noteq> HTTP_INVALID_METHOD"
  shows "StringToHttpMethod (HttpMethodToString m) = m \<and> CharsToHttpMethod (HttpMethodToString m @ t) = m"
proof -
  let ?x = "(method_num m, m, HttpMethodToString m)"
  have x: "?x \<in> set HTTP_METHOD_MAP" by (rule method_entry [OF assms])
  have nul: "CHR 0x00 \<notin> set s" if "(n, k, s) \<in> set HTTP_METHOD_MAP" for n k s
    using method_texts_no_nul that by fastforce
  have "find (\<lambda>(num, name, s). strcmp s (HttpMethodToString m) = 0) HTTP_METHOD_MAP = Some ?x"
  proof (rule find_unique [OF x])
    fix y assume y: "y \<in> set HTTP_METHOD_MAP" "case y of (num, name, s) \<Rightarrow> strcmp s (HttpMethodToString m) = 0"
    then have "snd (snd y) = snd (snd ?x)" using nul [OF x] by (auto simp: strcmp_eq_0 dest: nul)
    then show "y = ?x" using method_text_matches [OF y(1) x, of "[]"] by simp
  qed (simp add: strcmp_eq_0)
  moreover have "find (\<lambda>(num, name, s). strncmp s (HttpMethodToString m @ t) (length s) = 0) HTTP_METHOD_MAP = Some ?x"
  proof (rule find_unique [OF x])
    fix y assume y: "y \<in> set HTTP_METHOD_MAP"
      "case y of (num, name, s) \<Rightarrow> strncmp s (HttpMethodToString m @ t) (length s) = 0"
    then have "take (length (snd (snd y))) (snd (snd ?x) @ cstr t) = snd (snd y)"
      using nul [OF x] by (auto simp: strncmp_eq_0 cstr_append dest: nul)
    then show "y = ?x" by (rule method_text_matches [OF y(1) x])
  qed (use nul [OF x] in \<open>simp add: strncmp_eq_0 cstr_append\<close>)
  ultimately show ?thesis by (simp add: StringToHttpMethod_def CharsToHttpMethod_def)
qed

theorem method_round_trip_witness: "CharsToHttpMethod ''GETTER /'' = GET"
  using method_round_trip [of GET "''TER /''"] by (simp add: HttpMethodToString_def method_num_def
    s_method_string_def HTTP_METHOD_MAP_def)

text \<open>
  Header names ignore case: after \<open>setHeader\<close> a header is found under every spelling of its name
  and all others are as before, \<open>delHeader\<close> removes it under every spelling, \<open>hasHeader\<close> agrees with
  \<open>getHeader\<close>, and the map stays ordered.
\<close>
theorem header_laws:
  assumes "omap_ok CaseInsensitiveLess (rq_headers r)"
  shows "getHeader (setHeader r k v) j d = (if fold_key j = fold_key k then v else getHeader r j d) \<and>
    getHeader (delHeader r k) j d = (if fold_key j = fold_key k then d else getHeader r j d) \<and>
    (if fst (hasHeader r j (Some x)) then snd (hasHeader r j (Some x)) = Some (getHeader r j d)
     else getHeader r j d = d) \<and>
    omap_ok CaseInsensitiveLess (rq_headers (setHeader r k v)) \<and>
    omap_ok CaseInsensitiveLess (rq_headers (delHeader r k))"
  using assms
  by (auto simp: field_defs ci.omap_get_put ci.omap_get_del ci.omap_put_ok ci.omap_del_ok split: option.splits)

theorem header_laws_witness:
  "getHeader (setHeader (setHeader (HttpRequest 0x11 True) ''Host'' ''a'') ''Accept'' ''b'') ''HOST'' [] = ''a''"
proof -
  have ok: "omap_ok CaseInsensitiveLess (rq_headers (setHeader (HttpRequest 0x11 True) ''Host'' ''a''))"
    using header_laws [of "HttpRequest 0x11 True"] by (simp add: HttpRequest_def)
  have "fold_key ''HOST'' = fold_key ''Host''" "fold_key ''HOST'' \<noteq> fold_key ''Accept''" by code_simp+
  then show ?thesis
    using header_laws [OF ok] header_laws [of "HttpRequest 0x11 True"] by (simp add: HttpRequest_def)
qed

end
