(* ===== verification/Servlet.thy ===== *)
theory Servlet
  imports Http
begin

text \<open>
  \<open>src/http/servlet.cpp\<close>: servlets and their dispatch by path. A servlet's \<open>handle\<close> may change the
  request, the response and the session \<open>'s\<close> it is given. A \<open>Servlet::ptr\<close> may be null: \<open>None\<close>. The
  pattern test \<open>fnmatch (pattern, string, 0) == 0\<close> of the C library is the parameter \<open>fnmatch\<close>.
\<close>

type_synonym 's handler =
  "http_request \<Rightarrow> http_response \<Rightarrow> 's \<Rightarrow> int \<times> http_request \<times> http_response \<times> 's"

datatype 's servlet = FunctionServlet "'s handler" | NotFoundServlet | UserServlet "'s handler"

record 's dispatch =
  sd_data :: "string \<Rightarrow> 's servlet option option"
  sd_globs :: "(string \<times> 's servlet option) list"
  sd_default :: "'s servlet option"

definition not_found_body :: string where
  "not_found_body = ''<html><head><title>404 Not Found'' @ ''</title></head><body><center><h1>404 Not Found</h1></center>''
     @ ''<hr><center>azure/1.0.0</center></body></html>''"

definition not_found_handle :: "'s handler" where
  "not_found_handle rq rs s =
     (let rs1 = rs\<lparr>rs_status := 404\<rparr>;
          rs2 = rsp_setHeader rs1 ''Server'' ''azure/1.0.0'';
          rs3 = rsp_setHeader rs2 ''Content-Type'' ''text/html''
      in (0, rq, rs3\<lparr>rs_body := not_found_body\<rparr>, s))"

fun servlet_handle :: "'s servlet \<Rightarrow> 's handler" where
  "servlet_handle (FunctionServlet cb) rq rs s = cb rq rs s"
| "servlet_handle NotFoundServlet rq rs s = not_found_handle rq rs s"
| "servlet_handle (UserServlet h) rq rs s = h rq rs s"

definition servlet_dispatch_new :: "'s dispatch" where
  "servlet_dispatch_new = \<lparr>sd_data = Map.empty, sd_globs = [], sd_default = Some NotFoundServlet\<rparr>"

definition addServlet :: "'s dispatch \<Rightarrow> string \<Rightarrow> 's servlet option \<Rightarrow> 's dispatch" where
  "addServlet d uri slt = d\<lparr>sd_data := (sd_data d)(uri \<mapsto> slt)\<rparr>"

definition addServlet_cb :: "'s dispatch \<Rightarrow> string \<Rightarrow> 's handler \<Rightarrow> 's dispatch" where
  "addServlet_cb d uri cb = d\<lparr>sd_data := (sd_data d)(uri \<mapsto> Some (FunctionServlet cb))\<rparr>"

text \<open>The loops that erase the first pair with a key.\<close>

fun glob_erase :: "string \<Rightarrow> (string \<times> 'b) list \<Rightarrow> (string \<times> 'b) list" where
  "glob_erase uri [] = []"
| "glob_erase uri ((p, x) # gs) = (if p = uri then gs else (p, x) # glob_erase uri gs)"

definition addGlobServlet :: "'s dispatch \<Rightarrow> string \<Rightarrow> 's servlet option \<Rightarrow> 's dispatch" where
  "addGlobServlet d uri slt = d\<lparr>sd_globs := glob_erase uri (sd_globs d) @ [(uri, slt)]\<rparr>"

definition addGlobServlet_cb :: "'s dispatch \<Rightarrow> string \<Rightarrow> 's handler \<Rightarrow> 's dispatch" where
  "addGlobServlet_cb d uri cb = addGlobServlet d uri (Some (FunctionServlet cb))"

definition delServlet :: "'s dispatch \<Rightarrow> string \<Rightarrow> 's dispatch" where
  "delServlet d uri = d\<lparr>sd_data := (sd_data d)(uri := None)\<rparr>"

definition delGlobServlett :: "'s dispatch \<Rightarrow> string \<Rightarrow> 's dispatch" where
  "delGlobServlett d uri = d\<lparr>sd_globs := glob_erase uri (sd_globs d)\<rparr>"

definition getServlet :: "'s dispatch \<Rightarrow> string \<Rightarrow> 's servlet option" where
  "getServlet d uri = (case sd_data d uri of None \<Rightarrow> None | Some slt \<Rightarrow> slt)"

fun glob_find :: "(string \<Rightarrow> bool) \<Rightarrow> (string \<times> 'b) list \<Rightarrow> 'b option" where
  "glob_find test [] = None"
| "glob_find test ((p, x) # gs) = (if test p then Some x else glob_find test gs)"

definition getGlobServlet :: "'s dispatch \<Rightarrow> string \<Rightarrow> 's servlet option" where
  "getGlobServlet d uri = (case glob_find (\<lambda>p. p = uri) (sd_globs d) of None \<Rightarrow> None | Some slt \<Rightarrow> slt)"

definition getMatchedServlet :: "(string \<Rightarrow> string \<Rightarrow> bool) \<Rightarrow> 's dispatch \<Rightarrow> string \<Rightarrow> 's servlet option" where
  "getMatchedServlet fnmatch d uri =
     (case sd_data d uri of
        Some slt \<Rightarrow> slt
      | None \<Rightarrow>
          (case glob_find (\<lambda>p. fnmatch (cstr p) (cstr uri)) (sd_globs d) of
             Some slt \<Rightarrow> slt
           | None \<Rightarrow> sd_default d))"

definition dispatch_handle :: "(string \<Rightarrow> string \<Rightarrow> bool) \<Rightarrow> 's dispatch \<Rightarrow> 's handler" where
  "dispatch_handle fnmatch d rq rs s =
     (case getMatchedServlet fnmatch d (rq_path rq) of
        None \<Rightarrow> (0, rq, rs, s)
      | Some slt \<Rightarrow> (case servlet_handle slt rq rs s of (_, rq', rs', s') \<Rightarrow> (0, rq', rs', s')))"

section \<open>Sequences of registrations\<close>

datatype 's reg_op = AddExact string "'s servlet option" | AddGlob string "'s servlet option"
  | DelExact string | DelGlob string

fun reg_step :: "'s dispatch \<Rightarrow> 's reg_op \<Rightarrow> 's dispatch" where
  "reg_step d (AddExact u s) = addServlet d u s"
| "reg_step d (AddGlob u s) = addGlobServlet d u s"
| "reg_step d (DelExact u) = delServlet d u"
| "reg_step d (DelGlob u) = delGlobServlett d u"

definition globs_ok :: "'s dispatch \<Rightarrow> bool" where
  "globs_ok d \<longleftrightarrow> distinct (map fst (sd_globs d))"

lemma glob_erase_keys: "set (map fst (glob_erase u gs)) \<subseteq> set (map fst gs)"
  by (induction u gs rule: glob_erase.induct) auto

lemma glob_erase_filter: "distinct (map fst gs) \<Longrightarrow> glob_erase u gs = filter (\<lambda>g. fst g \<noteq> u) gs"
  by (induction u gs rule: glob_erase.induct) (auto intro!: filter_True [symmetric])

lemma distinct_map_fst_filter: "distinct (map fst gs) \<Longrightarrow> distinct (map fst (filter P gs))"
  by (induction gs) auto

lemma reg_step_globs_ok: "globs_ok d \<Longrightarrow> globs_ok (reg_step d op)"
  by (cases op) (auto simp: globs_ok_def addServlet_def addGlobServlet_def delServlet_def delGlobServlett_def
      glob_erase_filter distinct_map_fst_filter)

lemma reg_globs_ok: "globs_ok d \<Longrightarrow> globs_ok (foldl reg_step d ops)"
  by (induction ops arbitrary: d) (simp_all add: reg_step_globs_ok)

lemma globs_ok_reached: "globs_ok (foldl reg_step servlet_dispatch_new ops)"
  by (rule reg_globs_ok) (simp add: globs_ok_def servlet_dispatch_new_def)

lemma glob_find_append:
  "glob_find t (xs @ ys) = (case glob_find t xs of None \<Rightarrow> glob_find t ys | Some x \<Rightarrow> Some x)"
  by (induction t xs rule: glob_find.induct) simp_all

lemma glob_find_filter: "glob_find t (filter (\<lambda>g. P (fst g)) gs) = glob_find (\<lambda>p. P p \<and> t p) gs"
  by (induction gs) auto

lemma glob_find_absent: "\<forall>p\<in>set (map fst gs). \<not> t p \<Longrightarrow> glob_find t gs = None"
  by (induction t gs rule: glob_find.induct) simp_all

section \<open>Properties\<close>

text \<open>
  C38. Routing after any sequence of registrations: a path registered exactly goes to the servlet it was
  registered with last; adding a pattern replaces its old entry and puts it behind all others, so for
  a path that is not registered exactly the first other matching pattern wins before it; a removed
  pattern is gone; without any match the default servlet answers.
\<close>
theorem routing_precedence:
  "let d = foldl reg_step servlet_dispatch_new ops in
    getMatchedServlet fnmatch (addServlet d u s) u = s \<and>
    (if sd_data d v = None then
       getMatchedServlet fnmatch (addGlobServlet d u s) v =
         (case glob_find (\<lambda>p. p \<noteq> u \<and> fnmatch (cstr p) (cstr v)) (sd_globs d) of
            Some slt \<Rightarrow> slt
          | None \<Rightarrow> if fnmatch (cstr u) (cstr v) then s else sd_default d) \<and>
       getMatchedServlet fnmatch (delGlobServlett d u) v =
         (case glob_find (\<lambda>p. p \<noteq> u \<and> fnmatch (cstr p) (cstr v)) (sd_globs d) of
            Some slt \<Rightarrow> slt
          | None \<Rightarrow> sd_default d)
     else getMatchedServlet fnmatch (addGlobServlet d u s) v = getServlet d v) \<and>
    getGlobServlet (addGlobServlet d u s) u = s \<and> getGlobServlet (delGlobServlett d u) u = None"
proof -
  define d where "d = foldl reg_step servlet_dispatch_new ops"
  have e: "glob_erase u (sd_globs d) = filter (\<lambda>g. fst g \<noteq> u) (sd_globs d)"
    using globs_ok_reached [of ops] by (simp add: d_def globs_ok_def glob_erase_filter)
  have gone: "glob_find (\<lambda>p. p = u) (filter (\<lambda>g. fst g \<noteq> u) (sd_globs d)) = None"
    by (rule glob_find_absent) auto
  note others = glob_find_filter [of "\<lambda>p. fnmatch (cstr p) (cstr v)" "\<lambda>p. p \<noteq> u" "sd_globs d"]
  show ?thesis unfolding Let_def d_def [symmetric]
    by (auto simp: getMatchedServlet_def getServlet_def getGlobServlet_def addServlet_def addGlobServlet_def
        delGlobServlett_def e gone glob_find_append others split: option.splits)
qed

end
