(* ===== verification/Stream_IO.thy ===== *)
theory Stream_IO
  imports Byte_Array_Spec
begin

text \<open>
  \<open>src/stream.cpp\<close> and \<open>src/socket_stream.cpp\<close>: the loops that read or write an exact number of
  bytes over \<open>read\<close> and \<open>write\<close>, for a plain buffer and for a byte array. What the peer and the kernel
  do is the list of the outcomes of the calls; \<open>None\<close> means that the loop has consumed all of them and
  calls again. Sizes are 64-bit words because the loops store the signed result of a call in a
  \<open>size_t\<close>.
\<close>

datatype 'a recv_result = Received "'a list" | RecvError
datatype send_result = Sent nat | SendError
datatype stream_error = OutOfBounds | InBuffer ba_error

definition recv_ret :: "'a recv_result \<Rightarrow> int" where
  "recv_ret r = (case r of Received d \<Rightarrow> int (length d) | RecvError \<Rightarrow> -1)"

definition send_ret :: "send_result \<Rightarrow> int" where
  "send_ret r = (case r of Sent n \<Rightarrow> int n | SendError \<Rightarrow> -1)"

text \<open>\<open>return length\<close> from a function whose result is an \<open>int\<close>.\<close>

definition size_to_int :: "u64 \<Rightarrow> int" where
  "size_to_int n = sint (ucast n :: u32)"

lemma size_to_int_small:
  assumes "n < 2 ^ 31"
  shows "size_to_int (of_nat n) = int n"
proof -
  have "(ucast (of_nat n :: u64) :: u32) = of_nat n" using assms by (simp add: unsigned_of_nat take_bit_nat_eq_self)
  then show ?thesis using assms by (simp add: size_to_int_def signed_of_nat signed_take_bit_int_eq_self)
qed

section \<open>Plain buffers\<close>

text \<open>What a call stores at the address \<open>offset\<close> of a block; storing outside the block is an error.\<close>

definition store_at :: "'a list \<Rightarrow> u64 \<Rightarrow> 'a recv_result \<Rightarrow> stream_error + 'a list" where
  "store_at buf offset r = (case r of
     RecvError \<Rightarrow> Inr buf
   | Received d \<Rightarrow> if unat offset + length d \<le> length buf then Inr (list_write buf (unat offset) d)
                  else Inl OutOfBounds)"

fun readFixSize_loop :: "u64 \<Rightarrow> 'a list \<Rightarrow> u64 \<Rightarrow> u64 \<Rightarrow> 'a recv_result list
    \<Rightarrow> (stream_error + int \<times> 'a list \<times> 'a recv_result list) option" where
  "readFixSize_loop need buf offset left [] =
     (if 0 < left then None else Some (Inr (size_to_int need, buf, [])))"
| "readFixSize_loop need buf offset left (r # rs) =
     (if 0 < left then
        case store_at buf offset r of
          Inl e \<Rightarrow> Some (Inl e)
        | Inr buf' \<Rightarrow>
            let len = word_of_int (recv_ret r) :: u64 in
            if len \<le> 0 then Some (Inr (size_to_int len, buf', rs))
            else readFixSize_loop need buf' (offset + len) (left - len) rs
      else Some (Inr (size_to_int need, buf, r # rs)))"

text \<open>The argument \<open>buffer\<close> points to the element \<open>base\<close> of the block \<open>buf\<close>.\<close>

definition readFixSize :: "'a list \<Rightarrow> u64 \<Rightarrow> u64 \<Rightarrow> 'a recv_result list
    \<Rightarrow> (stream_error + int \<times> 'a list \<times> 'a recv_result list) option" where
  "readFixSize buf base need rs = readFixSize_loop need buf base need rs"

text \<open>What a call transmits from \<open>buffer + offset\<close>.\<close>

definition load_at :: "'a list \<Rightarrow> u64 \<Rightarrow> send_result \<Rightarrow> stream_error + 'a list" where
  "load_at buf offset r = (case r of
     SendError \<Rightarrow> Inr []
   | Sent n \<Rightarrow> if unat offset + n \<le> length buf then Inr (take n (drop (unat offset) buf)) else Inl OutOfBounds)"

fun writeFixSize_loop :: "u64 \<Rightarrow> 'a list \<Rightarrow> u64 \<Rightarrow> u64 \<Rightarrow> 'a list \<Rightarrow> send_result list
    \<Rightarrow> (stream_error + int \<times> 'a list) option" where
  "writeFixSize_loop need buf offset left out [] =
     (if 0 < left then None else Some (Inr (size_to_int need, out)))"
| "writeFixSize_loop need buf offset left out (r # rs) =
     (if 0 < left then
        case load_at buf offset r of
          Inl e \<Rightarrow> Some (Inl e)
        | Inr bs \<Rightarrow>
            let len = word_of_int (send_ret r) :: u64 in
            if len \<le> 0 then Some (Inr (size_to_int len, out @ bs))
            else writeFixSize_loop need buf (offset + len) (left - len) (out @ bs) rs
      else Some (Inr (size_to_int need, out)))"

definition writeFixSize :: "'a list \<Rightarrow> u64 \<Rightarrow> send_result list \<Rightarrow> (stream_error + int \<times> 'a list) option" where
  "writeFixSize buf need rs = writeFixSize_loop need buf 0 need [] rs"

section \<open>Byte arrays\<close>

text \<open>\<open>SocketStream::read (ba, length)\<close> and \<open>write (ba, length)\<close>: the result and the array; for \<open>write\<close> also
  the bytes transmitted. \<open>&iovs[0]\<close> of an empty vector is not used by the kernel.\<close>

definition stream_read_ba :: "bool \<Rightarrow> byte_array \<Rightarrow> nat \<Rightarrow> byte recv_result \<Rightarrow> ba_error + int \<times> byte_array" where
  "stream_read_ba connected ba len r =
     (if \<not> connected then Inr (-1, ba)
      else bind_res (getWriteBuffers ba len) (\<lambda>(_, iovs, ba1).
        case r of
          RecvError \<Rightarrow> Inr (-1, ba1)
        | Received d \<Rightarrow>
            let ba2 = iov_fill ba1 iovs d; rt = int (length d) in
            if 0 < rt then bind_res (setPosition ba2 (m_position ba2 + length d)) (\<lambda>ba3. Inr (rt, ba3))
            else Inr (rt, ba2)))"

definition stream_write_ba :: "bool \<Rightarrow> byte_array \<Rightarrow> nat \<Rightarrow> send_result \<Rightarrow> ba_error + int \<times> byte list \<times> byte_array" where
  "stream_write_ba connected ba len r =
     (if \<not> connected then Inr (-1, [], ba)
      else bind_res (getReadBuffers ba len) (\<lambda>(_, iovs).
        case r of
          SendError \<Rightarrow> Inr (-1, [], ba)
        | Sent n \<Rightarrow>
            if 0 < n then bind_res (setPosition ba (m_position ba + n)) (\<lambda>ba'. Inr (int n, take n (iov_bytes ba iovs), ba'))
            else Inr (0, [], ba)))"

fun readFixSize_ba_loop :: "u64 \<Rightarrow> byte_array \<Rightarrow> u64 \<Rightarrow> byte recv_result list \<Rightarrow> (ba_error + int \<times> byte_array) option" where
  "readFixSize_ba_loop need ba left [] = (if 0 < left then None else Some (Inr (size_to_int need, ba)))"
| "readFixSize_ba_loop need ba left (r # rs) =
     (if 0 < left then
        case stream_read_ba True ba (unat left) r of
          Inl e \<Rightarrow> Some (Inl e)
        | Inr (n, ba') \<Rightarrow>
            let len = word_of_int n :: u64 in
            if len \<le> 0 then Some (Inr (size_to_int len, ba'))
            else readFixSize_ba_loop need ba' (left - len) rs
      else Some (Inr (size_to_int need, ba)))"

definition readFixSize_ba :: "byte_array \<Rightarrow> u64 \<Rightarrow> byte recv_result list \<Rightarrow> (ba_error + int \<times> byte_array) option" where
  "readFixSize_ba ba need rs = readFixSize_ba_loop need ba need rs"

fun writeFixSize_ba_loop :: "u64 \<Rightarrow> byte_array \<Rightarrow> u64 \<Rightarrow> byte list \<Rightarrow> send_result list
    \<Rightarrow> (ba_error + int \<times> byte list \<times> byte_array) option" where
  "writeFixSize_ba_loop need ba left out [] = (if 0 < left then None else Some (Inr (size_to_int need, out, ba)))"
| "writeFixSize_ba_loop need ba left out (r # rs) =
     (if 0 < left then
        case stream_write_ba True ba (unat left) r of
          Inl e \<Rightarrow> Some (Inl e)
        | Inr (n, bs, ba') \<Rightarrow>
            let len = word_of_int n :: u64 in
            if len \<le> 0 then Some (Inr (size_to_int len, out @ bs, ba'))
            else writeFixSize_ba_loop need ba' (left - len) (out @ bs) rs
      else Some (Inr (size_to_int need, out, ba)))"

definition writeFixSize_ba :: "byte_array \<Rightarrow> u64 \<Rightarrow> send_result list \<Rightarrow> (ba_error + int \<times> byte list \<times> byte_array) option" where
  "writeFixSize_ba ba need rs = writeFixSize_ba_loop need ba need [] rs"

section \<open>Facts about the loops\<close>

lemma unat_chunk:
  assumes "n < 2 ^ 64"
  shows "unat (word_of_int (int n) :: u64) = n"
  using assms by (simp add: unsigned_of_nat take_bit_nat_eq_self)

lemma chunk_pos: "0 < n \<Longrightarrow> n < 2 ^ 64 \<Longrightarrow> \<not> (word_of_int (int n) :: u64) \<le> 0"
  using unat_chunk [of n] by (auto simp: word_le_nat_alt)

lemma unat_add_chunk:
  fixes x :: u64
  assumes "unat x + n < 2 ^ 64"
  shows "unat (x + word_of_int (int n)) = unat x + n"
  using assms unat_chunk [of n] by (simp add: unat_word_ariths)

lemma unat_sub_chunk:
  fixes x :: u64
  assumes "n \<le> unat x"
  shows "unat (x - word_of_int (int n)) = unat x - n"
proof -
  have n: "n < 2 ^ 64" using assms unsigned_less [where 'a = nat, of x] by (simp add: le_less_trans)
  then have "(word_of_int (int n) :: u64) \<le> x" using assms unat_chunk [OF n] by (simp add: word_le_nat_alt)
  then show ?thesis using unat_chunk [OF n] by (simp add: unat_sub)
qed

lemma unat_sub_wrap:
  assumes "0 < k" "k < 2 ^ 64"
  shows "unat (- of_nat k :: u64) = 2 ^ 64 - k"
proof -
  have "(- of_nat k :: u64) = of_nat (2 ^ 64 - k)" using assms by (simp add: of_nat_diff)
  then show ?thesis using assms by (simp only: unsigned_of_nat) (simp add: take_bit_nat_eq_self)
qed

lemma readFixSize_loop_chunks:
  assumes "length buf < 2 ^ 64"
  shows "[] \<notin> set ds \<Longrightarrow> unat left = length (concat ds) \<Longrightarrow> unat offset + length (concat ds) \<le> length buf \<Longrightarrow>
    readFixSize_loop need buf offset left (map Received ds @ rs) =
      Some (Inr (size_to_int need, list_write buf (unat offset) (concat ds), rs))"
  using assms
proof (induction ds arbitrary: buf offset left)
  case Nil
  then have "left = 0" by (simp add: unat_eq_zero)
  then show ?case by (cases rs) simp_all
next
  case (Cons d ds)
  have d: "0 < length d" "length d < 2 ^ 64" using Cons.prems by auto
  have left: "0 < left" using Cons.prems(2) d(1) by (auto simp: word_less_nat_alt)
  have off: "unat (offset + word_of_int (int (length d))) = unat offset + length d"
    by (rule unat_add_chunk) (use Cons.prems in auto)
  have left': "unat (left - word_of_int (int (length d))) = length (concat ds)"
    using Cons.prems(2) by (subst unat_sub_chunk) auto
  have store: "store_at buf offset (Received d) = Inr (list_write buf (unat offset) d)"
    using Cons.prems(3) by (simp add: store_at_def)
  have "readFixSize_loop need (list_write buf (unat offset) d) (offset + word_of_int (int (length d)))
      (left - word_of_int (int (length d))) (map Received ds @ rs) =
    Some (Inr (size_to_int need, list_write (list_write buf (unat offset) d) (unat offset + length d) (concat ds), rs))"
    using Cons.IH [of "left - word_of_int (int (length d))" "offset + word_of_int (int (length d))"
        "list_write buf (unat offset) d"] Cons.prems left' off by simp
  then show ?case
    using left store chunk_pos [OF d] Cons.prems(3)
    by (simp add: recv_ret_def Let_def list_write_append)
qed

text \<open>A failed call: \<open>size_t len = -1\<close> passes the test \<open>len <= 0\<close>.\<close>

lemma readFixSize_loop_error:
  "0 < left \<Longrightarrow> readFixSize_loop need buf offset left (RecvError # rs)
     = readFixSize_loop need buf (offset - 1) (left + 1) rs"
proof -
  have "\<not> (- 1 :: u64) \<le> 0" by simp
  then show "0 < left \<Longrightarrow> ?thesis" by (simp add: store_at_def recv_ret_def Let_def)
qed

lemma readFixSize_loop_errors:
  "unat left + k < 2 ^ 64 \<Longrightarrow> 0 < left \<Longrightarrow>
   readFixSize_loop need buf offset left (replicate k RecvError @ rs)
     = readFixSize_loop need buf (offset - of_nat k) (left + of_nat k) rs"
proof (induction k arbitrary: offset left)
  case (Suc k)
  have u: "unat (left + 1) = unat left + 1" using unat_add_chunk [of left 1] Suc.prems by simp
  then have "0 < left + 1" by (simp add: word_less_nat_alt)
  moreover have "offset - 1 - of_nat k = offset - of_nat (Suc k)" "left + 1 + of_nat k = left + of_nat (Suc k)"
    by (simp_all add: algebra_simps)
  ultimately show ?case
    using Suc.IH [of "left + 1" "offset - 1"] Suc.prems u
    by (simp only: replicate_Suc append_Cons readFixSize_loop_error)
qed simp

lemma writeFixSize_loop_chunks:
  assumes "length buf < 2 ^ 64"
  shows "0 \<notin> set ns \<Longrightarrow> unat left = sum_list ns \<Longrightarrow> unat offset + sum_list ns \<le> length buf \<Longrightarrow>
    writeFixSize_loop need buf offset left out (map Sent ns @ rs) =
      Some (Inr (size_to_int need, out @ take (sum_list ns) (drop (unat offset) buf)))"
proof (induction ns arbitrary: offset left out)
  case Nil
  then have "left = 0" by (simp add: unat_eq_zero)
  then show ?case by (cases rs) simp_all
next
  case (Cons n ns)
  have n: "0 < n" "n < 2 ^ 64" using Cons.prems assms by auto
  have left: "0 < left" using Cons.prems(2) n(1) by (auto simp: word_less_nat_alt)
  have off: "unat (offset + word_of_int (int n)) = unat offset + n"
    by (rule unat_add_chunk) (use Cons.prems assms in auto)
  have left': "unat (left - word_of_int (int n)) = sum_list ns"
    using Cons.prems(2) by (subst unat_sub_chunk) auto
  show ?case
    using Cons.IH [of "left - word_of_int (int n)" "offset + word_of_int (int n)" "out @ take n (drop (unat offset) buf)"]
      Cons.prems left' off left chunk_pos [OF n]
    by (simp add: load_at_def send_ret_def Let_def take_add add.commute)
qed

section \<open>Properties\<close>

text \<open>
  \<open>readFixSize\<close> over calls that all deliver something: the chunks are stored one after the other
  from the start of the buffer, the calls after the last needed byte are left to later reads, and
  the result is the length asked for.
\<close>
theorem read_fix_size_collects:
  assumes "length buf < 2 ^ 64" and "length (concat ds) \<le> length buf" and "[] \<notin> set ds"
  shows "readFixSize buf 0 (of_nat (length (concat ds))) (map Received ds @ rs) =
    Some (Inr (size_to_int (of_nat (length (concat ds))), concat ds @ drop (length (concat ds)) buf, rs))"
  unfolding readFixSize_def using assms
  by (subst readFixSize_loop_chunks) (simp_all add: unsigned_of_nat take_bit_nat_eq_self list_write_def)

theorem read_fix_size_collects_witness:
  "readFixSize (replicate 5 CHR ''.'') 0 3 [Received ''ab'', Received ''c'', Received ''d''] =
     Some (Inr (3, ''abc..'', [Received ''d'']))"
proof -
  have l: "length (concat [''ab'', ''c'']) = 3" by simp
  have "readFixSize (replicate 5 CHR ''.'') 0 3 (map Received [''ab'', ''c''] @ [Received ''d'']) =
    Some (Inr (size_to_int 3, concat [''ab'', ''c''] @ drop 3 (replicate 5 CHR ''.''), [Received ''d'']))"
    using read_fix_size_collects [of "replicate 5 CHR ''.''" "[''ab'', ''c'']" "[Received ''d'']"]
    unfolding l by simp
  moreover have "size_to_int 3 = 3" by (simp add: size_to_int_def)
  moreover have "drop 3 (replicate 5 CHR ''.'') = ''..''" by (simp add: numeral_eq_Suc)
  ultimately show ?thesis by simp
qed

text \<open>
  A failed call does not end \<open>readFixSize\<close>: -1 is stored in an unsigned variable and passes the
  test for an error. The loop steps one byte back and asks for one byte more; over a connection that
  only fails it never returns, and a failure before the first byte makes the next chunk be stored
  before a buffer that starts its block.
\<close>
theorem read_fix_size_ignores_errors:
  assumes "0 < n" "n + k < 2 ^ 64"
  shows "readFixSize buf 0 (of_nat n) (replicate k RecvError) = None \<and>
    (0 < k \<and> d \<noteq> [] \<and> length buf + k < 2 ^ 64 \<longrightarrow>
       readFixSize buf 0 (of_nat n) (replicate k RecvError @ [Received d]) = Some (Inl OutOfBounds))"
proof -
  have unat_n: "unat (of_nat n :: u64) = n" using assms by (simp add: unsigned_of_nat take_bit_nat_eq_self)
  note steps = readFixSize_loop_errors [of "of_nat n" k]
  have left: "(0 :: u64) < of_nat n + of_nat k" "(0 :: u64) < of_nat n"
    using assms unat_add_chunk [of "of_nat n" k] unat_n by (auto simp: word_less_nat_alt)
  have "store_at buf (0 - of_nat k) (Received d) = Inl OutOfBounds"
    if "0 < k" "d \<noteq> []" "length buf + k < 2 ^ 64"
  proof -
    have "unat (- of_nat k :: u64) = 2 ^ 64 - k"
      using that assms unat_sub_wrap [of k] by simp
    then show ?thesis using that by (simp add: store_at_def)
  qed
  with left steps [of "of_nat n" buf 0 "[]"] steps [of "of_nat n" buf 0 "[Received d]"] unat_n assms
  show ?thesis by (auto simp: readFixSize_def)
qed

theorem read_fix_size_ignores_errors_witness:
  "readFixSize ''....'' 0 (of_nat 4) (replicate 7 RecvError) = None \<and>
   readFixSize ''....'' 0 (of_nat 4) (replicate 2 RecvError @ [Received ''a'']) = Some (Inl OutOfBounds)"
  using read_fix_size_ignores_errors [of 4 7 "''....''"] read_fix_size_ignores_errors [of 4 2 "''....''" "''a''"]
  by simp

text \<open>
  \<open>writeFixSize\<close> over calls that all transmit something sends the buffer's bytes in order, each
  once, and returns the length.
\<close>
theorem write_fix_size_sends:
  assumes "length buf < 2 ^ 64" and "sum_list ns \<le> length buf" and "0 \<notin> set ns"
  shows "writeFixSize buf (of_nat (sum_list ns)) (map Sent ns @ rs) =
    Some (Inr (size_to_int (of_nat (sum_list ns)), take (sum_list ns) buf))"
  unfolding writeFixSize_def using assms
  by (subst writeFixSize_loop_chunks) (simp_all add: unsigned_of_nat take_bit_nat_eq_self)

theorem write_fix_size_sends_witness: "writeFixSize ''abcd'' 3 [Sent 2, Sent 1] = Some (Inr (3, ''abc''))"
proof -
  have "size_to_int 3 = 3" by (simp add: size_to_int_def)
  then show ?thesis
    using write_fix_size_sends [of "''abcd''" "[2, 1]" "[]"] by (simp add: numeral_3_eq_3)
qed

lemma iov_fill_position [simp]: "m_position (iov_fill b iovs bs) = m_position b"
  by (induction b iovs bs rule: iov_fill.induct) simp_all

lemma getWriteBuffers_position: "getWriteBuffers b n = Inr (k, iovs, b') \<Longrightarrow> m_position b' = m_position b"
  by (auto simp: getWriteBuffers_def Let_def bind_res_eq_Inr split: if_splits option.splits)

lemma stream_read_ba_received:
  assumes "ba_inv b" and "d \<noteq> []" and "length d \<le> n"
  shows "\<exists>b'. stream_read_ba True b n (Received d) = Inr (int (length d), b') \<and> ba_inv b' \<and>
    m_position b' = m_position b + length d \<and>
    ba_data b' = take (m_position b) (ba_data b) @ d @ drop (m_position b + length d) (ba_data b)"
proof -
  have n: "0 < n" using assms(2,3) by (cases n) simp_all
  from getWriteBuffers_receive [OF assms(1) n assms(3)] obtain iovs b1 b2 where w:
    "getWriteBuffers b n = Inr (n, iovs, b1)" "setPosition (iov_fill b1 iovs d) (m_position b + length d) = Inr b2"
    "ba_inv b2" "m_position b2 = m_position b + length d"
    "ba_data b2 = take (m_position b) (ba_data b) @ d @ drop (m_position b + length d) (ba_data b)" by blast
  have "m_position (iov_fill b1 iovs d) = m_position b"
    using getWriteBuffers_position [OF w(1)] by simp
  with w assms(2) show ?thesis by (auto simp: stream_read_ba_def)
qed

lemma readFixSize_ba_loop_chunks:
  "ba_inv b \<Longrightarrow> [] \<notin> set ds \<Longrightarrow> unat left = length (concat ds) \<Longrightarrow>
   \<exists>b'. readFixSize_ba_loop need b left (map Received ds @ rs) = Some (Inr (size_to_int need, b')) \<and> ba_inv b' \<and>
     m_position b' = m_position b + length (concat ds) \<and>
     ba_data b' = take (m_position b) (ba_data b) @ concat ds @ drop (m_position b + length (concat ds)) (ba_data b)"
proof (induction ds arbitrary: b left)
  case Nil
  then have "left = 0" by (simp add: unat_eq_zero)
  with Nil show ?case by (cases rs) simp_all
next
  case (Cons d ds)
  have d: "d \<noteq> []" "0 < length d" using Cons.prems by auto
  have left: "length d \<le> unat left" using Cons.prems by simp
  then have d2: "length d < 2 ^ 64" using unsigned_less [where 'a = nat, of left] by (simp add: le_less_trans)
  from stream_read_ba_received [OF Cons.prems(1) d(1) left] obtain b1 where b1:
    "stream_read_ba True b (unat left) (Received d) = Inr (int (length d), b1)" "ba_inv b1"
    "m_position b1 = m_position b + length d"
    "ba_data b1 = take (m_position b) (ba_data b) @ d @ drop (m_position b + length d) (ba_data b)" by blast
  have "unat (left - word_of_int (int (length d))) = length (concat ds)"
    using Cons.prems(3) by (subst unat_sub_chunk) auto
  from Cons.IH [OF b1(2) _ this] Cons.prems(2) obtain b' where b':
    "readFixSize_ba_loop need b1 (left - word_of_int (int (length d))) (map Received ds @ rs) = Some (Inr (size_to_int need, b'))"
    "ba_inv b'" "m_position b' = m_position b1 + length (concat ds)"
    "ba_data b' = take (m_position b1) (ba_data b1) @ concat ds @ drop (m_position b1 + length (concat ds)) (ba_data b1)"
    by auto
  have pos: "0 < left" using less_le_trans [OF d(2) left] by (simp add: word_less_nat_alt)
  have p: "m_position b \<le> length (ba_data b)" using Cons.prems(1) length_ba_data by (auto simp: ba_inv_def)
  have "readFixSize_ba_loop need b left (map Received (d # ds) @ rs) = Some (Inr (size_to_int need, b'))"
    using b1(1) b'(1) pos chunk_pos [OF d(2) d2] by simp
  moreover have "ba_data b' = take (m_position b) (ba_data b) @ concat (d # ds)
      @ drop (m_position b + length (concat (d # ds))) (ba_data b)"
    using b'(4) p unfolding b1(3,4) by (simp add: add.commute add.left_commute)
  ultimately show ?case using b'(2,3) b1(3) by simp
qed

text \<open>\<open>readFixSize\<close> into a byte array over calls that all deliver something is one write of the
  concatenated chunks at the position: the result is the length, the position moves past them, the
  bytes outside them stay and the array's invariant is kept.
\<close>
theorem read_fix_size_ba_receives:
  assumes "ba_inv b" and "[] \<notin> set ds" and "length (concat ds) < 2 ^ 64"
  shows "\<exists>b'. readFixSize_ba b (of_nat (length (concat ds))) (map Received ds @ rs) =
      Some (Inr (size_to_int (of_nat (length (concat ds))), b')) \<and> ba_inv b' \<and>
    m_position b' = m_position b + length (concat ds) \<and>
    ba_data b' = take (m_position b) (ba_data b) @ concat ds @ drop (m_position b + length (concat ds)) (ba_data b)"
  unfolding readFixSize_ba_def using assms
  by (intro readFixSize_ba_loop_chunks) (simp_all add: unsigned_of_nat take_bit_nat_eq_self)

theorem read_fix_size_ba_receives_witness:
  "\<exists>b'. readFixSize_ba (byte_array_new (\<lambda>_. 0) 2) 3 [Received [7, 8], Received [9]] = Some (Inr (3, b')) \<and>
     ba_data b' = [7, 8, 9]"
proof -
  have l: "length (concat [[7, 8], [9 :: byte]]) = 3" by simp
  have "size_to_int 3 = 3" by (simp add: size_to_int_def)
  moreover have "ba_data (byte_array_new (\<lambda>_. 0) 2) = []" by (simp add: byte_array_new_def ba_data_def)
  ultimately show ?thesis
    using read_fix_size_ba_receives [OF ba_inv_new [of 2 "\<lambda>_. 0"], of "[[7, 8], [9]]" "[]"]
    unfolding l by auto
qed

end
