(* ===== verification/Http_Session.thy ===== *)
theory Http_Session
  imports Servlet Stream_IO
begin

text \<open>
  \<open>src/http/http_parser.cpp\<close>, \<open>src/http/http_session.cpp\<close> and \<open>src/http/http_server.cpp\<close>: the callbacks of
  the request and response parsers, receiving a request and serving a client. The scanner
  generated by Ragel is a parameter: \<open>exec\<close> runs it on the bytes of the buffer and gives the number of
  bytes it consumed, its new state and the callbacks it makes in order; \<open>fin\<close> and \<open>err\<close> are
  \<open>http_parser_finish\<close> and \<open>http_parser_has_error\<close>. A callback's pointer \<open>at\<close> is the rest of the
  buffer from there on.
\<close>

section \<open>The request parser\<close>

datatype request_event =
    OnMethod string nat | OnUri string nat | OnFragment string nat | OnPath string nat
  | OnQuery string nat | OnVersion string nat | OnHeaderDone string nat | OnField string nat string nat

record 'p request_parser =
  pr_parser :: 'p
  pr_data :: http_request
  pr_error :: int

definition on_request_method :: "'p request_parser \<Rightarrow> string \<Rightarrow> nat \<Rightarrow> 'p request_parser" where
  "on_request_method p at len =
     (let m = CharsToHttpMethod at in
      if m = HTTP_INVALID_METHOD then p\<lparr>pr_error := 1000\<rparr>
      else p\<lparr>pr_data := (pr_data p)\<lparr>rq_method := m\<rparr>\<rparr>)"

definition on_request_fragment :: "'p request_parser \<Rightarrow> string \<Rightarrow> nat \<Rightarrow> 'p request_parser" where
  "on_request_fragment p at len = p\<lparr>pr_data := (pr_data p)\<lparr>rq_fragment := take len at\<rparr>\<rparr>"

definition on_request_path :: "'p request_parser \<Rightarrow> string \<Rightarrow> nat \<Rightarrow> 'p request_parser" where
  "on_request_path p at len = p\<lparr>pr_data := (pr_data p)\<lparr>rq_path := take len at\<rparr>\<rparr>"

definition on_request_query :: "'p request_parser \<Rightarrow> string \<Rightarrow> nat \<Rightarrow> 'p request_parser" where
  "on_request_query p at len = p\<lparr>pr_data := (pr_data p)\<lparr>rq_query := take len at\<rparr>\<rparr>"

definition on_request_version :: "'p request_parser \<Rightarrow> string \<Rightarrow> nat \<Rightarrow> 'p request_parser" where
  "on_request_version p at len =
     (if strncmp at ''HTTP/1.1'' len = 0 then p\<lparr>pr_data := (pr_data p)\<lparr>rq_version := 0x11\<rparr>\<rparr>
      else if strncmp at ''HTTP/1.0'' len = 0 then p\<lparr>pr_data := (pr_data p)\<lparr>rq_version := 0x10\<rparr>\<rparr>
      else p\<lparr>pr_error := 1001\<rparr>)"

definition on_request_http_field :: "'p request_parser \<Rightarrow> string \<Rightarrow> nat \<Rightarrow> string \<Rightarrow> nat \<Rightarrow> 'p request_parser" where
  "on_request_http_field p field flen value vlen =
     (if flen = 0 then p
      else p\<lparr>pr_data := setHeader (pr_data p) (take flen field) (take vlen value)\<rparr>)"

fun on_request :: "'p request_parser \<Rightarrow> request_event \<Rightarrow> 'p request_parser" where
  "on_request p (OnMethod at len) = on_request_method p at len"
| "on_request p (OnUri at len) = p"
| "on_request p (OnFragment at len) = on_request_fragment p at len"
| "on_request p (OnPath at len) = on_request_path p at len"
| "on_request p (OnQuery at len) = on_request_query p at len"
| "on_request p (OnVersion at len) = on_request_version p at len"
| "on_request p (OnHeaderDone at len) = p"
| "on_request p (OnField field flen value vlen) = on_request_http_field p field flen value vlen"

definition HttpRequestParser :: "'p \<Rightarrow> 'p request_parser" where
  "HttpRequestParser p0 = \<lparr>pr_parser = p0, pr_data = HttpRequest 0x11 True, pr_error = 0\<rparr>"

type_synonym ('p, 'e) scanner = "'p \<Rightarrow> string \<Rightarrow> nat \<times> 'p \<times> 'e list"

text \<open>\<open>execute\<close>: the number of bytes consumed, the parser, and the rest moved to the front of the buffer.\<close>

definition request_execute :: "('p, request_event) scanner \<Rightarrow> 'p request_parser \<Rightarrow> string
    \<Rightarrow> nat \<times> 'p request_parser \<times> string" where
  "request_execute exec p data =
     (case exec (pr_parser p) data of (offset, q, evs) \<Rightarrow>
        (offset, (foldl on_request p evs)\<lparr>pr_parser := q\<rparr>, drop offset data))"

definition request_hasError :: "('p \<Rightarrow> int) \<Rightarrow> 'p request_parser \<Rightarrow> bool" where
  "request_hasError err p \<longleftrightarrow> pr_error p \<noteq> 0 \<or> err (pr_parser p) \<noteq> 0"

definition request_getContentLength :: "(string \<Rightarrow> u64 option) \<Rightarrow> 'p request_parser \<Rightarrow> u64" where
  "request_getContentLength lexical_cast p = getHeaderAs lexical_cast (pr_data p) ''content-length'' 0"

section \<open>Receiving a request\<close>

text \<open>
  The loop up to the end of the head: \<open>data\<close> are the first \<open>offset\<close> bytes of the buffer. \<open>None\<close> is a
  loop that waits for more calls, \<open>Some None\<close> the null result after \<open>close\<close>.
\<close>

fun recv_head :: "('p, request_event) scanner \<Rightarrow> ('p \<Rightarrow> int) \<Rightarrow> ('p \<Rightarrow> int) \<Rightarrow> nat
    \<Rightarrow> 'p request_parser \<Rightarrow> string \<Rightarrow> char recv_result list
    \<Rightarrow> ('p request_parser \<times> string \<times> char recv_result list) option option" where
  "recv_head exec fin err buffer_size p data [] = None"
| "recv_head exec fin err buffer_size p data (RecvError # rs) = Some None"
| "recv_head exec fin err buffer_size p data (Received d # rs) =
     (if d = [] then Some None
      else case request_execute exec p (data @ d) of (nparse, p', data') \<Rightarrow>
        if request_hasError err p' then Some None
        else if length data' = buffer_size then Some None
        else if fin (pr_parser p') \<noteq> 0 then Some (Some (p', data', rs))
        else recv_head exec fin err buffer_size p' data' rs)"

text \<open>
  The body: a string of the announced length, an \<open>int64_t\<close>, the bytes already in the buffer copied to
  its start and the rest read behind them.
\<close>

definition recv_body :: "u64 \<Rightarrow> string \<Rightarrow> char recv_result list
    \<Rightarrow> (stream_error + (string \<times> char recv_result list) option) option" where
  "recv_body len data rs =
     (let length0 = sint len; offset = int (length data) in
      if 0 < length0 then
        let body = replicate (nat length0) (CHR 0x00);
            n = (if offset \<le> length0 then nat offset else nat length0);
            body1 = list_write body 0 (take n data);
            left = length0 - offset
        in if 0 < left then
             (case readFixSize body1 (of_nat n) (word_of_int left) rs of
                None \<Rightarrow> None
              | Some (Inl e) \<Rightarrow> Some (Inl e)
              | Some (Inr (r, body2, rs')) \<Rightarrow> Some (Inr (if r \<le> 0 then None else Some (body2, rs'))))
           else Some (Inr (Some (body1, rs)))
      else Some (Inr (Some ([], rs))))"

definition set_keep_alive :: "http_request \<Rightarrow> http_request" where
  "set_keep_alive req =
     (if strcasecmp (getHeader req ''Connection'' []) ''keep-alive'' = 0 then req\<lparr>rq_close := False\<rparr> else req)"

definition recvRequest :: "('p, request_event) scanner \<Rightarrow> ('p \<Rightarrow> int) \<Rightarrow> ('p \<Rightarrow> int) \<Rightarrow> (string \<Rightarrow> u64 option)
    \<Rightarrow> nat \<Rightarrow> 'p \<Rightarrow> char recv_result list
    \<Rightarrow> (stream_error + (http_request \<times> char recv_result list) option) option" where
  "recvRequest exec fin err lexical_cast buffer_size p0 rs =
     (case recv_head exec fin err buffer_size (HttpRequestParser p0) [] rs of
        None \<Rightarrow> None
      | Some None \<Rightarrow> Some (Inr None)
      | Some (Some (p, data, rs')) \<Rightarrow>
          let len = request_getContentLength lexical_cast p in
          (case recv_body len data rs' of
             None \<Rightarrow> None
           | Some (Inl e) \<Rightarrow> Some (Inl e)
           | Some (Inr None) \<Rightarrow> Some (Inr None)
           | Some (Inr (Some (body, rs''))) \<Rightarrow>
               Some (Inr (Some (set_keep_alive (if 0 < sint len then (pr_data p)\<lparr>rq_body := body\<rparr> else pr_data p),
                                rs'')))))"

section \<open>Serving a client\<close>

text \<open>One round of \<open>handleClient\<close>: the request as the servlet left it, the session and the text that
  \<open>sendResponse\<close> hands to \<open>writeFixSize\<close>; the result of sending is ignored.\<close>

definition serve_one :: "(string \<Rightarrow> string \<Rightarrow> bool) \<Rightarrow> 's dispatch \<Rightarrow> bool \<Rightarrow> http_request \<Rightarrow> 's
    \<Rightarrow> http_request \<times> 's \<times> string" where
  "serve_one fnmatch d keepalive req s =
     (let rsp = HttpResponse (rq_version req) (rq_close req \<or> \<not> keepalive) in
      case dispatch_handle fnmatch d req rsp s of (_, req', rsp', s') \<Rightarrow> (req', s', response_dump rsp'))"

lemma readFixSize_loop_rest:
  "readFixSize_loop need buf offset left rs = Some (Inr (r, buf', rs')) \<Longrightarrow> length rs' \<le> length rs"
proof (induction need buf offset left rs rule: readFixSize_loop.induct)
  case (2 need buf offset left r rs)
  then show ?case by (auto simp: Let_def split: if_splits sum.splits) fastforce+
qed (simp split: if_splits)

lemma recv_head_rest:
  "recv_head exec fin err n p data rs = Some (Some (p', data', rs')) \<Longrightarrow> length rs' < length rs"
proof (induction rs arbitrary: p data)
  case (Cons r rs)
  then show ?case by (cases r) (fastforce split: if_splits prod.splits)+
qed simp

lemma recv_body_rest: "recv_body len data rs = Some (Inr (Some (body, rs'))) \<Longrightarrow> length rs' \<le> length rs"
  by (auto simp: recv_body_def readFixSize_def Let_def dest: readFixSize_loop_rest
      split: if_splits option.splits sum.splits)

lemma recvRequest_rest:
  assumes "recvRequest exec fin err lc n p0 rs = Some (Inr (Some (req, rs')))"
  shows "length rs' < length rs"
  using assms by (fastforce simp: recvRequest_def Let_def dest: recv_head_rest recv_body_rest
      split: option.splits sum.splits)

function handleClient :: "('p, request_event) scanner \<Rightarrow> ('p \<Rightarrow> int) \<Rightarrow> ('p \<Rightarrow> int) \<Rightarrow> (string \<Rightarrow> u64 option)
    \<Rightarrow> nat \<Rightarrow> 'p \<Rightarrow> (string \<Rightarrow> string \<Rightarrow> bool) \<Rightarrow> 's dispatch \<Rightarrow> bool \<Rightarrow> 's \<Rightarrow> char recv_result list
    \<Rightarrow> (stream_error + string list \<times> 's) option" where
  "handleClient exec fin err lexical_cast buffer_size p0 fnmatch d keepalive s rs =
     (case recvRequest exec fin err lexical_cast buffer_size p0 rs of
        None \<Rightarrow> None
      | Some (Inl e) \<Rightarrow> Some (Inl e)
      | Some (Inr None) \<Rightarrow> Some (Inr ([], s))
      | Some (Inr (Some (req, rs'))) \<Rightarrow>
          (case serve_one fnmatch d keepalive req s of (req', s', text) \<Rightarrow>
             if \<not> keepalive \<or> rq_close req' then Some (Inr ([text], s'))
             else (case handleClient exec fin err lexical_cast buffer_size p0 fnmatch d keepalive s' rs' of
                     None \<Rightarrow> None
                   | Some (Inl e) \<Rightarrow> Some (Inl e)
                   | Some (Inr (out, s'')) \<Rightarrow> Some (Inr (text # out, s'')))))"
  by pat_completeness auto
termination
  by (relation "measure (\<lambda>(exec, fin, err, lc, n, p0, fnmatch, d, keepalive, s, rs). length rs)")
    (auto dest: recvRequest_rest)

declare handleClient.simps [simp del]

section \<open>Facts about bodies\<close>

lemma sint_pos:
  fixes x :: u64
  assumes "0 < sint x"
  shows "nat (sint x) < 2 ^ 63" "of_nat (nat (sint x)) = x"
proof -
  have "sint x < 2 ^ 63" using sint_lt [of x] by simp
  then show "nat (sint x) < 2 ^ 63" using assms by simp
  show "of_nat (nat (sint x)) = x" using assms by simp
qed

lemma recv_body_chunks:
  assumes len: "0 < sint len" and ds: "[] \<notin> set ds" and small: "length (concat ds) < 2 ^ 31"
    and total: "int (length data + length (concat ds)) = sint len"
  shows "recv_body len data (map Received ds @ rs) = Some (Inr (Some (data @ concat ds, rs)))"
proof -
  let ?body = "list_write (replicate (nat (sint len)) (CHR 0x00)) 0 data"
  have n: "nat (sint len) = length data + length (concat ds)" using total by simp
  have lb: "length ?body = length data + length (concat ds)" by (simp add: n)
  have l64: "length data + length (concat ds) < 2 ^ 64" using sint_pos(1) [OF len] n by simp
  have w: "list_write ?body (length data) (concat ds) = data @ concat ds"
    by (simp add: n list_write_def)
  show ?thesis
  proof (cases ds)
    case Nil
    then show ?thesis using total len by (simp add: recv_body_def Let_def list_write_def)
  next
    case (Cons d ds')
    then have pos: "0 < length (concat ds)" using ds by auto
    have left: "word_of_int (sint len - int (length data)) = (of_nat (length (concat ds)) :: u64)"
      using total by (metis add_diff_cancel_left' of_int_of_nat_eq of_nat_add)
    have r: "0 < size_to_int (of_nat (length (concat ds)))"
      using pos small by (simp add: size_to_int_small)
    have "readFixSize ?body (of_nat (length data)) (of_nat (length (concat ds))) (map Received ds @ rs)
      = Some (Inr (size_to_int (of_nat (length (concat ds))), data @ concat ds, rs))"
      unfolding readFixSize_def using l64 lb ds w
      by (subst readFixSize_loop_chunks) (simp_all add: unsigned_of_nat take_bit_nat_eq_self)
    moreover have "int (length data) < sint len" using total pos by linarith
    ultimately show ?thesis
      using len r left by (simp add: recv_body_def Let_def)
  qed
qed

section \<open>Properties\<close>

text \<open>
  C29. The body of a request: when the head has been read and announces n bytes, of which the buffer
  already holds some and later calls deliver the rest in any chunks, the request returned carries
  exactly these bytes as its body, and the calls after them are left.
\<close>
theorem recv_request_body:
  assumes head: "recv_head exec fin err bufsize (HttpRequestParser p0) [] rs0 = Some (Some (p, data, map Received ds @ rs))"
    and len: "0 < sint (request_getContentLength lc p)"
    and ds: "[] \<notin> set ds" "length (concat ds) < 2 ^ 31"
    and n: "int (length data + length (concat ds)) = sint (request_getContentLength lc p)"
  shows "recvRequest exec fin err lc bufsize p0 rs0 =
    Some (Inr (Some (set_keep_alive ((pr_data p)\<lparr>rq_body := data @ concat ds\<rparr>), rs)))"
  using head len recv_body_chunks [OF len ds n] by (simp add: recvRequest_def)

text \<open>A scanner for witnesses: it accepts a head as soon as it is complete and reports one field.\<close>

definition sample_exec :: "(bool, request_event) scanner" where
  "sample_exec p s = (case read_head s of
     None \<Rightarrow> (0, p, [])
   | Some (_, rest) \<Rightarrow> (length s - length rest, True, [OnField ''content-length: 3'' 14 ''3'' 1]))"

definition sample_cast :: "string \<Rightarrow> u64 option" where
  "sample_cast s = (if s = ''3'' then Some 3 else None)"

theorem recv_request_body_witness:
  "case recvRequest sample_exec (\<lambda>p. if p then 1 else 0) (\<lambda>_. 0) sample_cast 4096 False
      [Received (''GET /'' @ crlf), Received (crlf @ ''a''), Received ''bc''] of
    Some (Inr (Some (req, rs))) \<Rightarrow> rq_body req = ''abc'' \<and> rs = [] | _ \<Rightarrow> False"
proof -
  let ?p = "\<lparr>pr_parser = True, pr_data = setHeader (HttpRequest 0x11 True) ''content-length'' ''3'', pr_error = 0\<rparr>"
  have head: "recv_head sample_exec (\<lambda>p. if p then 1 else 0) (\<lambda>_. 0) 4096 (HttpRequestParser False) []
      [Received (''GET /'' @ crlf), Received (crlf @ ''a''), Received ''bc''] = Some (Some (?p, ''a'', map Received [''bc''] @ []))"
    by code_simp
  have len: "request_getContentLength sample_cast ?p = 3" by code_simp
  have "recvRequest sample_exec (\<lambda>p. if p then 1 else 0) (\<lambda>_. 0) sample_cast 4096 False
      [Received (''GET /'' @ crlf), Received (crlf @ ''a''), Received ''bc''] =
    Some (Inr (Some (set_keep_alive ((pr_data ?p)\<lparr>rq_body := ''a'' @ concat [''bc'']\<rparr>), [])))"
    by (rule recv_request_body [OF head]) (simp_all add: len)
  then show ?thesis by (simp add: set_keep_alive_def)
qed

text \<open>
  Bytes that arrive behind a request in the same buffer are lost: once the buffer holds the whole
  body (or there is none), the result does not depend on what follows it, and the next request
  starts from later calls only.
\<close>
theorem pipelined_bytes_lost:
  assumes "sint len \<le> int (length data)"
  shows "recv_body len (data @ extra) rs = recv_body len data rs \<and>
    (\<exists>body. recv_body len (data @ extra) rs = Some (Inr (Some (body, rs))))"
  using assms by (auto simp: recv_body_def Let_def)

theorem pipelined_bytes_lost_witness:
  "recv_body 2 (''hi'' @ ''GET /next'') [] = recv_body 2 ''hi'' []"
  using pipelined_bytes_lost [of 2 "''hi''" "''GET /next''" "[]"] by simp

text \<open>Requests that arrive one after the other.\<close>

fun requests_follow :: "(char recv_result list \<Rightarrow> (stream_error + (http_request \<times> char recv_result list) option) option)
    \<Rightarrow> char recv_result list \<Rightarrow> http_request list \<Rightarrow> char recv_result list \<Rightarrow> bool" where
  "requests_follow recv rs [] rs' \<longleftrightarrow> rs' = rs"
| "requests_follow recv rs (q # qs) rs' \<longleftrightarrow>
     (case recv rs of Some (Inr (Some (q', rs1))) \<Rightarrow> q' = q \<and> requests_follow recv rs1 qs rs' | _ \<Rightarrow> False)"

text \<open>The texts and the session after answering a list of requests in order.\<close>

fun answers :: "(string \<Rightarrow> string \<Rightarrow> bool) \<Rightarrow> 's dispatch \<Rightarrow> bool \<Rightarrow> http_request list \<Rightarrow> 's \<Rightarrow> string list \<times> 's" where
  "answers fnmatch d keepalive [] s = ([], s)"
| "answers fnmatch d keepalive (q # qs) s =
     (case serve_one fnmatch d keepalive q s of (_, s', text) \<Rightarrow>
        case answers fnmatch d keepalive qs s' of (out, s'') \<Rightarrow> (text # out, s''))"

text \<open>The servlets leave the \<open>close\<close> flag of a request alone.\<close>

definition keeps_close :: "(string \<Rightarrow> string \<Rightarrow> bool) \<Rightarrow> 's dispatch \<Rightarrow> bool" where
  "keeps_close fnmatch d \<longleftrightarrow> (\<forall>q r s. rq_close (fst (snd (dispatch_handle fnmatch d q r s))) = rq_close q)"

lemma serve_one_close:
  "keeps_close fnmatch d \<Longrightarrow> serve_one fnmatch d keepalive q s = (q', s', t) \<Longrightarrow> rq_close q' = rq_close q"
  unfolding serve_one_def keeps_close_def Let_def by (auto split: prod.splits) (metis fst_conv snd_conv)+



end
