(* ===== verification/Http11_Parser.thy ===== *)
theory Http11_Parser
  imports Http11_Machine Http_Session
begin

text \<open>
  \<open>src/include/http/http11_parser.rl.cc\<close> around its machine: the struct \<open>http_parser\<close>, the actions, and
  \<open>http_parser_init\<close>, \<open>http_parser_execute\<close>, \<open>http_parser_finish\<close> and \<open>http_parser_has_error\<close>. They are
  the scanner \<open>exec\<close>, \<open>fin\<close> and \<open>err\<close> of \<open>Http_Session\<close>. The constructor of \<open>HttpRequestParser\<close> sets all
  callbacks, so their tests against NULL are always true; \<open>query_start\<close> and \<open>uri_relaxed\<close> are set neither
  by the constructor nor by \<open>http_parser_init\<close>: they hold what the memory held.
\<close>

section \<open>The parser\<close>

record http_parser =
  hp_cs :: int
  hp_body_start :: u64
  hp_content_len :: int
  hp_nread :: u64
  hp_mark :: u64
  hp_field_start :: u64
  hp_field_len :: u64
  hp_query_start :: u64
  hp_xml_sent :: int
  hp_json_sent :: int
  hp_uri_relaxed :: int

text \<open>\<open>fpc - buffer\<close> as the offsets hold it.\<close>

definition pos :: "nat \<Rightarrow> u64" where
  "pos p = of_nat p"

text \<open>\<open>PTR_TO\<close>: the buffer from an offset on. \<open>LEN\<close> subtracts as \<open>size_t\<close>.\<close>

definition ptr_to :: "string \<Rightarrow> u64 \<Rightarrow> string" where
  "ptr_to buffer off = drop (unat off) buffer"

definition len_from :: "u64 \<Rightarrow> nat \<Rightarrow> nat" where
  "len_from at p = unat (pos p - at)"

type_synonym request_scan = "http_parser \<times> request_event list"

text \<open>The actions at the character \<open>p\<close> of \<open>buffer\<close>; the callbacks made so far are listed in order.\<close>

fun request_act :: "string \<Rightarrow> nat \<Rightarrow> request_action \<Rightarrow> request_scan \<Rightarrow> request_scan" where
  "request_act buffer p Mark (q, evs) = (q\<lparr>hp_mark := pos p\<rparr>, evs)"
| "request_act buffer p Start_field (q, evs) = (q\<lparr>hp_field_start := pos p\<rparr>, evs)"
| "request_act buffer p Write_field (q, evs) = (q\<lparr>hp_field_len := pos p - hp_field_start q\<rparr>, evs)"
| "request_act buffer p Start_value (q, evs) = (q\<lparr>hp_mark := pos p\<rparr>, evs)"
| "request_act buffer p Write_value (q, evs) =
     (q, evs @ [OnField (ptr_to buffer (hp_field_start q)) (unat (hp_field_len q))
                        (ptr_to buffer (hp_mark q)) (len_from (hp_mark q) p)])"
| "request_act buffer p Request_method (q, evs) =
     (q, evs @ [OnMethod (ptr_to buffer (hp_mark q)) (len_from (hp_mark q) p)])"
| "request_act buffer p Request_uri (q, evs) =
     (q, evs @ [OnUri (ptr_to buffer (hp_mark q)) (len_from (hp_mark q) p)])"
| "request_act buffer p Fragment (q, evs) =
     (q, evs @ [OnFragment (ptr_to buffer (hp_mark q)) (len_from (hp_mark q) p)])"
| "request_act buffer p Start_query (q, evs) = (q\<lparr>hp_query_start := pos p\<rparr>, evs)"
| "request_act buffer p Query_string (q, evs) =
     (q, evs @ [OnQuery (ptr_to buffer (hp_query_start q)) (len_from (hp_query_start q) p)])"
| "request_act buffer p Http_version (q, evs) =
     (q, evs @ [OnVersion (ptr_to buffer (hp_mark q)) (len_from (hp_mark q) p)])"
| "request_act buffer p Request_path (q, evs) =
     (q, evs @ [OnPath (ptr_to buffer (hp_mark q)) (len_from (hp_mark q) p)])"
| "request_act buffer p Done (q, evs) =
     (if hp_xml_sent q \<noteq> 0 \<or> hp_json_sent q \<noteq> 0 then
        (q\<lparr>hp_body_start := hp_mark q, hp_content_len := size_to_int (pos p - hp_mark q + 1)\<rparr>, evs)
      else
        (q\<lparr>hp_body_start := pos p + 1\<rparr>,
         evs @ [OnHeaderDone (drop (p + 1) buffer) (length buffer - p - 1)]))"
| "request_act buffer p Xml (q, evs) = (q\<lparr>hp_xml_sent := 1\<rparr>, evs)"
| "request_act buffer p Json (q, evs) = (q\<lparr>hp_json_sent := 1\<rparr>, evs)"

definition request_machine :: "bool \<Rightarrow> string \<Rightarrow> (request_action, request_scan) machine" where
  "request_machine relaxed buffer =
     \<lparr>m_cases = request_cases relaxed, m_trs = request_trs, m_act = request_act buffer, m_breaks = (\<lambda>a. a = Done)\<rparr>"

section \<open>Operations\<close>

definition http_parser_start :: int where "http_parser_start = 1"
definition http_parser_first_final :: int where "http_parser_first_final = 348"
definition http_parser_error :: int where "http_parser_error = 0"

definition http_parser_init :: "http_parser \<Rightarrow> http_parser" where
  "http_parser_init parser =
     parser\<lparr>hp_cs := http_parser_start, hp_body_start := 0, hp_content_len := 0, hp_mark := 0, hp_nread := 0,
            hp_field_len := 0, hp_field_start := 0, hp_xml_sent := 0, hp_json_sent := 0\<rparr>"

definition http_parser_has_error :: "http_parser \<Rightarrow> int" where
  "http_parser_has_error parser = (if hp_cs parser = http_parser_error then 1 else 0)"

definition http_parser_is_finished :: "http_parser \<Rightarrow> int" where
  "http_parser_is_finished parser = (if http_parser_first_final \<le> hp_cs parser then 1 else 0)"

definition http_parser_finish :: "http_parser \<Rightarrow> int" where
  "http_parser_finish parser =
     (if http_parser_has_error parser \<noteq> 0 then -1 else if http_parser_is_finished parser \<noteq> 0 then 1 else 0)"

text \<open>
  \<open>http_parser_execute\<close> with \<open>off\<close> 0, as \<open>HttpRequestParser::execute\<close> calls it. The test for an error looks
  at the state before the call.
\<close>

definition http_parser_execute :: "http_parser \<Rightarrow> string \<Rightarrow> nat \<times> http_parser \<times> request_event list" where
  "http_parser_execute parser buffer =
     (if buffer = [] then (0, parser, [])
      else
        let parser0 = parser\<lparr>hp_nread := 0, hp_mark := 0, hp_field_len := 0, hp_field_start := 0\<rparr>;
            (p, cs, parser1, evs) = ragel_scan (request_machine (hp_uri_relaxed parser \<noteq> 0) buffer) (hp_cs parser) 0 buffer (parser0, []);
            parser2 = (if http_parser_has_error parser1 = 0 then parser1\<lparr>hp_cs := cs\<rparr> else parser1);
            parser3 = parser2\<lparr>hp_nread := hp_nread parser2 + of_nat p\<rparr>
        in (unat (hp_nread parser3), parser3, evs))"

text \<open>The assertions at the end of \<open>http_parser_execute\<close>.\<close>

definition http_parser_asserts :: "http_parser \<Rightarrow> string \<Rightarrow> bool" where
  "http_parser_asserts parser buffer \<longleftrightarrow>
     unat (hp_nread parser) \<le> length buffer \<and> unat (hp_body_start parser) \<le> length buffer \<and>
     unat (hp_mark parser) < length buffer \<and> unat (hp_field_len parser) \<le> length buffer \<and>
     unat (hp_field_start parser) < length buffer"

text \<open>The parser of a new \<open>HttpRequestParser\<close>, whose memory held \<open>parser\<close>.\<close>

definition HttpRequestParser_new :: "http_parser \<Rightarrow> http_parser request_parser" where
  "HttpRequestParser_new parser = HttpRequestParser (http_parser_init parser)"

end
