(* ===== verification/Request_Scan.thy ===== *)
theory Request_Scan
  imports Http11_Parser
begin

text \<open>
  What the machine of \<open>Http11_Machine\<close> makes of a request. A text that \<open>HttpRequest::dump\<close> writes is
  scanned in one piece to the request it came from; whatever the text is, the callbacks get strings
  inside the buffer as long as the head of the request arrives in one read.
\<close>

section \<open>Offsets\<close>

lemma ptr_to_pos [simp]: "p < 2 ^ 64 \<Longrightarrow> ptr_to buf (pos p) = drop p buf"
  by (simp add: ptr_to_def pos_def unsigned_of_nat take_bit_nat_eq_self)

lemma unat_pos_diff [simp]: "p \<le> e \<Longrightarrow> e - p < 2 ^ 64 \<Longrightarrow> unat (pos e - pos p) = e - p"
  by (simp add: pos_def unsigned_of_nat take_bit_nat_eq_self flip: of_nat_diff)

lemma len_from_pos [simp]: "p \<le> e \<Longrightarrow> e - p < 2 ^ 64 \<Longrightarrow> len_from (pos p) e = e - p"
  by (simp add: len_from_def)

section \<open>Characters and states\<close>

definition url_char :: "char \<Rightarrow> bool" where
  "url_char ch \<longleftrightarrow> (let c = schar ch in c < 0 \<or> c = 33 \<or> c = 36 \<or> 38 \<le> c \<and> c \<le> 59 \<or> c = 61 \<or> 64 \<le> c \<and> c \<le> 90 \<or>
     c = 95 \<or> 97 \<le> c \<and> c \<le> 122 \<or> c = 126)"

definition query_char :: "char \<Rightarrow> bool" where
  "query_char ch \<longleftrightarrow> url_char ch \<or> schar ch = 63"

definition token_char :: "char \<Rightarrow> bool" where
  "token_char ch \<longleftrightarrow> (let c = schar ch in c = 33 \<or> 35 \<le> c \<and> c \<le> 39 \<or> c = 42 \<or> c = 43 \<or> c = 45 \<or> c = 46 \<or>
     48 \<le> c \<and> c \<le> 57 \<or> 65 \<le> c \<and> c \<le> 90 \<or> 94 \<le> c \<and> c \<le> 122 \<or> c = 124 \<or> c = 126)"

definition value_char :: "char \<Rightarrow> bool" where
  "value_char ch \<longleftrightarrow> schar ch \<notin> {0, 10, 13, 127}"

definition method_char :: "char \<Rightarrow> bool" where
  "method_char ch \<longleftrightarrow> (let c = schar ch in 48 \<le> c \<and> c \<le> 57 \<or> 65 \<le> c \<and> c \<le> 90)"

lemmas request_states = request_cases_def request_cases_1_def request_cases_2_def request_cases_3_def request_cases_4_def
  request_cases_5_def request_cases_6_def request_cases_7_def request_cases_8_def request_cases_9_def
  request_cases_10_def widen_def

lemmas request_transitions = request_trs_def request_table_def request_trs_1_def request_trs_2_def request_trs_3_def request_trs_4_def request_trs_5_def request_trs_6_def request_trs_7_def request_trs_8_def request_trs_23_def request_trs_26_def request_trs_27_def

lemma request_machine_simps [simp]:
  "m_cases (request_machine r buf) = request_cases r" "m_trs (request_machine r buf) = request_trs"
  "m_act (request_machine r buf) = request_act buf" "m_breaks (request_machine r buf) = (\<lambda>a. a = Done)"
  by (simp_all add: request_machine_def)

lemma reads_path: "reads_encoded (request_machine r buf) url_char 26 27 28"
  by (auto simp: reads_encoded_def url_char_def xdigit_def Let_def request_states)

lemma reads_query: "reads_encoded (request_machine r buf) query_char 30 31 32"
  by (auto simp: reads_encoded_def query_char_def url_char_def xdigit_def Let_def request_states)

lemma reads_fragment: "reads_encoded (request_machine r buf) query_char 21 22 23"
  by (auto simp: reads_encoded_def query_char_def url_char_def xdigit_def Let_def request_states)

lemma feed_query:
  assumes "encoded query_char xs" "xs \<noteq> []"
  shows "feed (request_machine r buf) 29 p xs (q, evs) = Some (30, (q\<lparr>hp_query_start := pos p\<rparr>, evs))"
proof -
  have c: "request_cases r 29 37 = Tr 56" "query_char ch \<Longrightarrow> request_cases r 29 (schar ch) = Tr 53" for ch
    unfolding query_char_def url_char_def Let_def by (simp_all add: request_states, elim disjE) (simp_all add: request_states)
  have t: "request_trs 53 = ([Start_query], 30)" "request_trs 56 = ([Start_query], 31)"
    by (simp_all add: request_transitions)
  have "feed (request_machine r buf) 29 p xs (q, evs) =
      Some (30, foldl (\<lambda>s x. m_act (request_machine r buf) p x s) (q, evs) [Start_query])"
    using c t by (intro feed_entry [OF reads_query assms, where k = 53 and k' = 56]) simp_all
  then show ?thesis by simp
qed

lemma feed_fragment:
  assumes "encoded query_char xs" "xs \<noteq> []"
  shows "feed (request_machine r buf) 20 p xs (q, evs) = Some (21, (q\<lparr>hp_mark := pos p\<rparr>, evs))"
proof -
  have c: "request_cases r 20 37 = Tr 45" "query_char ch \<Longrightarrow> request_cases r 20 (schar ch) = Tr 43" for ch
    unfolding query_char_def url_char_def Let_def by (simp_all add: request_states, elim disjE) (simp_all add: request_states)
  have t: "request_trs 43 = ([Mark], 21)" "request_trs 45 = ([Mark], 22)"
    by (simp_all add: request_transitions)
  have "feed (request_machine r buf) 20 p xs (q, evs) =
      Some (21, foldl (\<lambda>s x. m_act (request_machine r buf) p x s) (q, evs) [Mark])"
    using c t by (intro feed_entry [OF reads_fragment assms, where k = 43 and k' = 45]) simp_all
  then show ?thesis by simp
qed

lemma method_state:
  assumes "method_char ch" "175 \<le> n" "n < 193"
  shows "request_cases r n (schar ch) = St (n + 1)"
proof -
  have "n = 175 \<or> n = 176 \<or> n = 177 \<or> n = 178 \<or> n = 179 \<or> n = 180 \<or> n = 181 \<or> n = 182 \<or> 
      n = 183 \<or> n = 184 \<or> n = 185 \<or> n = 186 \<or> n = 187 \<or> n = 188 \<or> n = 189 \<or> n = 190 \<or> n = 191 \<or> n = 192"
    using assms by presburger
  then show ?thesis using assms(1) unfolding method_char_def Let_def
    by (elim disjE) (simp_all add: request_cases_def request_cases_24_def request_cases_25_def request_cases_26_def)
qed


lemma feed_method_rest:
  assumes "list_all method_char xs" "175 \<le> n" "n + int (length xs) < 194"
  shows "feed (request_machine r buf) n p xs s = Some (n + int (length xs), s)"
  using assms
proof (induction xs arbitrary: n p)
  case (Cons c xs)
  then show ?case using method_state [of c n r] by (simp add: algebra_simps)
qed simp

lemma request_method_end:
  assumes "n = 2 \<or> 175 \<le> n \<and> n < 194"
  shows "request_cases r n 32 = Tr 4"
proof -
  have "n = 2 \<or> n = 193 \<or> n = 175 \<or> n = 176 \<or> n = 177 \<or> n = 178 \<or> n = 179 \<or> n = 180 \<or> n = 181 \<or> n = 182 \<or> n = 183 \<or> n = 184 \<or>
      n = 185 \<or> n = 186 \<or> n = 187 \<or> n = 188 \<or> n = 189 \<or> n = 190 \<or> n = 191 \<or> n = 192"
    using assms by presburger
  then show ?thesis
    by (elim disjE) (simp_all add: request_cases_def request_cases_1_def request_cases_24_def request_cases_25_def request_cases_26_def)
qed

lemma schar_simps [simp]: "schar (CHR '' '') = 32" "schar (CHR 0x0D) = 13" "schar (CHR 0x0A) = 10"
  by (simp_all add: schar_def)

lemma feed_method:
  assumes m: "list_all method_char m" "m \<noteq> []" "length m \<le> 20"
  shows "feed (request_machine r buf) 1 p (m @ '' '') (q, evs) =
    Some (3, (q\<lparr>hp_mark := pos p\<rparr>, evs @ [OnMethod (ptr_to buf (pos p)) (len_from (pos p) (p + length m))]))"
proof -
  obtain c m' where m': "m = c # m'" using m(2) by (cases m) auto
  have c: "request_cases r 1 (schar c) = Tr 0" "\<And>d. method_char d \<Longrightarrow> request_cases r 2 (schar d) = St 175"
    using m(1) by (auto simp: m' method_char_def Let_def request_cases_def request_cases_1_def)
  have t: "request_trs 0 = ([Mark], 2)" "request_trs 4 = ([Request_method], 3)" by (simp_all add: request_transitions)
  have "\<exists>n. feed (request_machine r buf) 2 (Suc p) m' s = Some (n, s) \<and> request_cases r n 32 = Tr 4" for s :: request_scan
  proof (cases m')
    case (Cons d m'')
    then show ?thesis
      using m c feed_method_rest [of m'' 175] by (auto simp: m' intro: request_method_end)
  qed (simp add: request_method_end)
  then obtain n where n: "feed (request_machine r buf) 2 (Suc p) m' (q\<lparr>hp_mark := pos p\<rparr>, evs) = Some (n, (q\<lparr>hp_mark := pos p\<rparr>, evs))"
    "request_cases r n 32 = Tr 4" by blast
  have "feed (request_machine r buf) 2 (Suc p) (m' @ '' '') (q\<lparr>hp_mark := pos p\<rparr>, evs) =
    Some (3, (q\<lparr>hp_mark := pos p\<rparr>, evs @ [OnMethod (ptr_to buf (pos p)) (len_from (pos p) (p + length m))]))"
    by (rule feed_append [OF n(1)]) (simp add: n(2) t m')
  then show ?thesis by (simp add: m' c t)
qed

text \<open>A path that starts with one slash: the state behind it, from which a blank, a query and a fragment go on alike.\<close>

fun path_text :: "string \<Rightarrow> bool" where
  "path_text [] = False"
| "path_text (c # xs) \<longleftrightarrow> c = CHR ''/'' \<and> encoded url_char xs \<and> take 1 xs \<noteq> ''/''"

lemma feed_path:
  assumes "path_text path"
  shows "\<exists>n. n \<in> {26, 33} \<and> feed (request_machine r buf) 3 p path (q, evs) = Some (n, (q\<lparr>hp_mark := pos p\<rparr>, evs))"
proof -
  obtain xs where path: "path = CHR ''/'' # xs" and e: "encoded url_char xs" "take 1 xs \<noteq> ''/''"
    using assms by (cases path) auto
  have 3: "request_cases r 3 (schar CHR ''/'') = Tr 10" "request_trs 10 = ([Mark], 33)"
    by (simp_all add: schar_def request_states request_transitions)
  have slash: "schar CHR ''/'' = 47" by (simp add: schar_def)
  have 33: "url_char ch \<Longrightarrow> ch \<noteq> CHR ''/'' \<Longrightarrow> request_cases r 33 (schar ch) = St 26" for ch
  proof -
    assume u: "url_char ch" and "ch \<noteq> CHR ''/''"
    then have "schar ch < 47 \<or> 47 < schar ch" using schar_inj [of ch "CHR ''/''"] unfolding slash by linarith
    with u show ?thesis unfolding url_char_def Let_def by (elim disjE) (auto simp: request_states)
  qed
  show ?thesis
  proof (cases xs)
    case Nil
    then show ?thesis using 3 path by simp
  next
    case (Cons c xs')
    have "feed (request_machine r buf) 33 (Suc p) xs s = Some (26, s)" for s :: request_scan
    proof (cases "c = CHR ''%''")
      case True
      then obtain d f ys where "xs' = d # f # ys" "xdigit d" "xdigit f" "encoded url_char ys"
        using e Cons by (auto split: list.splits)
      moreover have "request_cases r 33 37 = St 27" by (simp add: request_states)
      ultimately show ?thesis using Cons True feed_encoded [OF reads_path] reads_path [of r buf]
        by (simp add: reads_encoded_def)
    next
      case False
      then show ?thesis using Cons e 33 [of c] feed_encoded [OF reads_path] by simp
    qed
    then show ?thesis using 3 path by simp
  qed
qed

section \<open>The request line\<close>

text \<open>What a stretch of the head leaves as it is.\<close>

definition kept :: "http_parser \<Rightarrow> int \<times> int \<times> int \<times> u64" where
  "kept q = (hp_xml_sent q, hp_json_sent q, hp_cs q, hp_nread q)"

lemma kept_simps [simp]:
  "kept (q\<lparr>hp_mark := a\<rparr>) = kept q" "kept (q\<lparr>hp_field_start := b\<rparr>) = kept q"
  "kept (q\<lparr>hp_field_len := c\<rparr>) = kept q" "kept (q\<lparr>hp_query_start := d\<rparr>) = kept q"
  by (simp_all add: kept_def)

definition query_text :: "string \<Rightarrow> string" where
  "query_text query = (if query = [] then [] else CHR ''?'' # query)"

definition fragment_text :: "string \<Rightarrow> string" where
  "fragment_text fragment = (if fragment = [] then [] else CHR ''#'' # fragment)"

lemma text_Nil [simp]: "query_text [] = []" "fragment_text [] = []"
  by (simp_all add: query_text_def fragment_text_def)

text \<open>The callbacks for a target at \<open>p\<close>.\<close>

definition target_events :: "string \<Rightarrow> nat \<Rightarrow> string \<Rightarrow> string \<Rightarrow> string \<Rightarrow> request_event list" where
  "target_events buf p path query fragment =
     [OnPath (drop p buf) (length path)]
     @ (if query = [] then [] else [OnQuery (drop (p + length path + 1) buf) (length query)])
     @ [OnUri (drop p buf) (length path + length (query_text query))]
     @ (if fragment = [] then []
        else [OnFragment (drop (p + length path + length (query_text query) + 1) buf) (length fragment)])"

lemma path_ends:
  assumes "n \<in> {26, 33}"
  shows "request_cases r n 32 = Tr 37" "request_cases r n 63 = Tr 42" "request_cases r n 35 = Tr 39"
  using assms unfolding insert_iff empty_iff by (elim disjE FalseE; simp add: request_states)+

lemma target_trs:
  "request_trs 37 = ([Request_path, Request_uri], 4)" "request_trs 42 = ([Request_path], 29)"
  "request_trs 39 = ([Request_path, Request_uri], 20)" "request_trs 58 = ([Query_string, Request_uri], 4)"
  "request_trs 59 = ([Query_string, Request_uri], 20)" "request_trs 47 = ([Fragment], 4)"
  by (simp_all add: request_transitions)

lemma target_ends:
  "request_cases r 30 32 = Tr 58" "request_cases r 30 35 = Tr 59" "request_cases r 21 32 = Tr 47"
  by (simp_all add: request_states)

lemma schar_delims [simp]: "schar (CHR ''?'') = 63" "schar (CHR ''#'') = 35"
  by (simp_all add: schar_def)

text \<open>The end of a path or query: a blank, or a fragment and a blank.\<close>

lemma feed_fragment_end:
  assumes f: "encoded query_char f" and b: "p + length f + 1 < 2 ^ 64"
    and c: "request_cases r n 32 = Tr k" "request_cases r n 35 = Tr k'" "request_trs k = (acts, 4)" "request_trs k' = (acts, 20)"
      "Done \<notin> set acts"
    and a: "foldl (\<lambda>s a. request_act buf p a s) (q, evs) acts = (q, evs1)"
  shows "\<exists>q'. feed (request_machine r buf) n p (fragment_text f @ '' '') (q, evs) =
      Some (4, (q', evs1 @ (if f = [] then [] else [OnFragment (drop (p + 1) buf) (length f)]))) \<and> kept q' = kept q"
proof (cases "f = []")
  case True
  then show ?thesis using c a by (simp add: fragment_text_def list_ex_iff)
next
  case False
  have "feed (request_machine r buf) 20 (Suc p) (f @ '' '') (q, evs1) =
      Some (4, (q\<lparr>hp_mark := pos (Suc p)\<rparr>, evs1 @ [OnFragment (drop (Suc p) buf) (length f)]))"
    by (rule feed_append [OF feed_fragment [OF f False]]) (use b in \<open>simp add: target_ends target_trs\<close>)
  then show ?thesis using False c a by (simp add: fragment_text_def list_ex_iff)
qed

lemma feed_target:
  assumes path: "path_text path" and query: "encoded query_char query" and f: "encoded query_char f"
    and b: "p + length (path @ query_text query @ fragment_text f) + 1 < 2 ^ 64"
  shows "\<exists>q'. feed (request_machine r buf) 3 p (path @ query_text query @ fragment_text f @ '' '') (q, evs) =
      Some (4, (q', evs @ target_events buf p path query f)) \<and> kept q' = kept q"
proof -
  let ?M = "request_machine r buf" and ?q = "q\<lparr>hp_mark := pos p\<rparr>"
  obtain n where n: "n \<in> {26, 33}" and fp: "feed ?M 3 p path (q, evs) = Some (n, (?q, evs))"
    using feed_path [OF path, of r buf p q evs] by blast
  have "\<exists>q'. feed ?M n (p + length path) (query_text query @ fragment_text f @ '' '') (?q, evs) =
      Some (4, (q', evs @ target_events buf p path query f)) \<and> kept q' = kept ?q"
  proof (cases "query = []")
    case True
    let ?evs = "evs @ [OnPath (drop p buf) (length path), OnUri (drop p buf) (length path)]"
    have a: "foldl (\<lambda>s a. request_act buf (p + length path) a s) (?q, evs) [Request_path, Request_uri] = (?q, ?evs)"
      using b by simp
    have "\<exists>q'. feed ?M n (p + length path) (fragment_text f @ '' '') (?q, evs) =
      Some (4, (q', ?evs @ (if f = [] then [] else [OnFragment (drop (p + length path + 1) buf) (length f)]))) \<and> kept q' = kept ?q"
      using b True by (intro feed_fragment_end [OF f _ path_ends(1,3) [OF n] target_trs(1,3) _ a])
        (simp_all add: query_text_def fragment_text_def split: if_splits)
    then show ?thesis using True by (cases "f = []") (simp_all add: target_events_def)
  next
    case False
    let ?p = "p + length path + 1" and ?p' = "p + length path + 1 + length query"
    let ?q1 = "?q\<lparr>hp_query_start := pos ?p\<rparr>" and ?e1 = "evs @ [OnPath (drop p buf) (length path)]"
    let ?e2 = "?e1 @ [OnQuery (drop ?p buf) (length query), OnUri (drop p buf) (length path + 1 + length query)]"
    have uri: "len_from (pos p) ?p' = length path + 1 + length query"
      using b False by (simp add: query_text_def)
    have q: "feed ?M 29 ?p query (?q, ?e1) = Some (30, (?q1, ?e1))"
      by (rule feed_query [OF query False])
    have a: "foldl (\<lambda>s a. request_act buf ?p' a s) (?q1, ?e1) [Query_string, Request_uri] = (?q1, ?e2)"
      using b False uri by (simp add: query_text_def)
    have "\<exists>q'. feed ?M 30 ?p' (fragment_text f @ '' '') (?q1, ?e1) =
        Some (4, (q', ?e2 @ (if f = [] then [] else [OnFragment (drop (?p' + 1) buf) (length f)]))) \<and> kept q' = kept ?q1"
      using b False by (intro feed_fragment_end [OF f _ target_ends(1,2) target_trs(4,5) _ a])
        (simp_all add: query_text_def fragment_text_def split: if_splits)
    then obtain q' where q': "feed ?M 30 ?p' (fragment_text f @ '' '') (?q1, ?e1) =
        Some (4, (q', ?e2 @ (if f = [] then [] else [OnFragment (drop (?p' + 1) buf) (length f)])))" "kept q' = kept ?q1"
      by blast
    have "feed ?M 29 ?p (query @ fragment_text f @ '' '') (?q, ?e1) =
        Some (4, (q', ?e2 @ (if f = [] then [] else [OnFragment (drop (?p' + 1) buf) (length f)])))"
      by (rule feed_append [OF q]) (rule q'(1))
    then show ?thesis using False b q'(2) path_ends(2) [OF n, of r] target_trs(2)
      by (auto simp: query_text_def target_events_def split: if_splits)
  qed
  then show ?thesis using feed_append [OF fp] by auto
qed

text \<open>The version and the end of the line.\<close>

definition version_text :: "char \<Rightarrow> string" where
  "version_text minor = ''HTTP/1.'' @ [minor]"

lemma feed_version:
  assumes m: "minor = CHR ''0'' \<or> minor = CHR ''1''" and b: "p + 8 < 2 ^ 64"
  shows "feed (request_machine r buf) 4 p (version_text minor @ crlf) (q, evs) =
    Some (13, (q\<lparr>hp_mark := pos p\<rparr>, evs @ [OnVersion (drop p buf) 8]))"
  using m b by (elim disjE) (simp_all add: version_text_def crlf_def schar_def request_states request_transitions)

section \<open>Header lines and the end of the head\<close>

text \<open>A field the machine reads back: a token, and a value without control bytes that does not start with a blank.\<close>

definition field_ok :: "string \<times> string \<Rightarrow> bool" where
  "field_ok kv \<longleftrightarrow> (case kv of (k, v) \<Rightarrow> k \<noteq> [] \<and> list_all token_char k \<and> list_all value_char v \<and>
     take 1 v \<noteq> '' '' \<and> take 1 v \<noteq> [CHR 0x09])"

definition field_line :: "string \<times> string \<Rightarrow> string" where
  "field_line kv = fst kv @ '': '' @ snd kv @ crlf"

definition field_event :: "string \<Rightarrow> nat \<Rightarrow> string \<times> string \<Rightarrow> request_event" where
  "field_event buf p kv =
     OnField (drop p buf) (length (fst kv)) (drop (p + length (fst kv) + 2) buf) (length (snd kv))"

lemma field_trs:
  "request_trs 22 = ([Http_version], 17)" "request_trs 23 = ([Start_field], 14)" "request_trs 27 = ([Write_field], 15)"
  "request_trs 28 = ([Start_value], 16)" "request_trs 29 = ([Start_value], 15)"
  "request_trs 31 = ([Start_value, Write_value], 17)" "request_trs 34 = ([Write_value], 17)"
  "request_trs 25 = ([Start_field], 18)" "request_trs 36 = ([Done], 348)"
  by (simp_all add: request_transitions)

lemma token_states:
  assumes "token_char ch"
  shows "request_cases r 13 (schar ch) = Tr 23" "request_cases r 14 (schar ch) = St 14"
  using assms unfolding token_char_def Let_def by (elim disjE; simp add: request_states)+

lemma field_states:
  "value_char ch \<Longrightarrow> request_cases r 16 (schar ch) = St 16"
  "request_cases r 14 58 = Tr 27" "request_cases r 15 32 = Tr 29" "request_cases r 15 13 = Tr 31"
  "request_cases r 16 13 = Tr 34" "request_cases r 17 10 = St 13" "request_cases r 13 13 = Tr 25" "request_cases r 18 10 = Tr 36"
  by (simp_all add: value_char_def request_states)

lemma value_state:
  assumes "value_char ch" "ch \<noteq> CHR '' ''" "ch \<noteq> CHR 0x09"
  shows "request_cases r 15 (schar ch) = Tr 28"
proof -
  have "schar ch \<noteq> 32" "schar ch \<noteq> 9"
    using assms schar_inj [of ch "CHR '' ''"] schar_inj [of ch "CHR 0x09"] by (auto simp: schar_def simp del: schar_inj)
  then show ?thesis using assms(1) by (simp add: value_char_def request_states)
qed

text \<open>The value from behind the blank on.\<close>

lemma feed_value:
  assumes v: "list_all value_char v" "take 1 v \<noteq> '' ''" "take 1 v \<noteq> [CHR 0x09]" and b: "p + length v < 2 ^ 64"
  shows "\<exists>q'. feed (request_machine r buf) 15 p (v @ crlf) (q, evs) =
      Some (13, (q', evs @ [OnField (ptr_to buf (hp_field_start q)) (unat (hp_field_len q)) (drop p buf) (length v)])) \<and>
      kept q' = kept q"
proof (cases v)
  case Nil
  then show ?thesis using b by (simp add: crlf_def field_states field_trs)
next
  case (Cons c v')
  let ?M = "request_machine r buf" and ?q = "q\<lparr>hp_mark := pos p\<rparr>"
  have "feed ?M 16 (Suc p) v' (?q, evs) = Some (16, (?q, evs))"
    using v Cons by (intro feed_loop) (auto simp: list_all_iff field_states)
  then have "feed ?M 16 (Suc p) (v' @ crlf) (?q, evs) =
      Some (13, (?q, evs @ [OnField (ptr_to buf (hp_field_start q)) (unat (hp_field_len q)) (drop p buf) (length v)]))"
    by (rule feed_append) (use b Cons in \<open>simp add: crlf_def field_states field_trs\<close>)
  moreover have "request_cases r 15 (schar c) = Tr 28"
    using v Cons by (intro value_state) auto
  ultimately show ?thesis using Cons by (simp add: field_trs)
qed

lemma feed_field:
  assumes ok: "field_ok kv" and b: "p + length (field_line kv) < 2 ^ 64"
  shows "\<exists>q'. feed (request_machine r buf) 13 p (field_line kv) (q, evs) = Some (13, (q', evs @ [field_event buf p kv])) \<and>
    kept q' = kept q"
proof -
  let ?M = "request_machine r buf"
  obtain c k v where kv: "kv = (c # k, v)" using ok by (cases kv; cases "fst kv") (auto simp: field_ok_def)
  let ?q = "q\<lparr>hp_field_start := pos p\<rparr>" and ?p = "Suc p + length k"
  let ?q1 = "?q\<lparr>hp_field_len := pos ?p - pos p, hp_mark := pos (Suc ?p)\<rparr>"
  have k: "feed ?M 14 (Suc p) k (?q, evs) = Some (14, (?q, evs))"
    using ok by (intro feed_loop) (auto simp: kv field_ok_def list_all_iff token_states)
  have "\<exists>q'. feed ?M 15 (Suc (Suc ?p)) (v @ crlf) (?q1, evs) =
      Some (13, (q', evs @ [OnField (ptr_to buf (hp_field_start ?q1)) (unat (hp_field_len ?q1)) (drop (Suc (Suc ?p)) buf) (length v)])) \<and>
      kept q' = kept ?q1"
    using ok b by (intro feed_value) (auto simp: kv field_ok_def field_line_def)
  then obtain q' where q': "feed ?M 15 (Suc (Suc ?p)) (v @ crlf) (?q1, evs) = Some (13, (q', evs @ [field_event buf p kv]))"
    "kept q' = kept q" using b by (auto simp: kv field_event_def field_line_def)
  have "feed ?M 14 (Suc p) (k @ '': '' @ v @ crlf) (?q, evs) = Some (13, (q', evs @ [field_event buf p kv]))"
    by (rule feed_append [OF k]) (use q' in \<open>simp add: schar_def field_states field_trs\<close>)
  then show ?thesis using q'(2) ok by (simp add: kv field_ok_def field_line_def token_states field_trs)
qed

text \<open>All header lines, each at its own place.\<close>

fun field_events :: "string \<Rightarrow> nat \<Rightarrow> (string \<times> string) list \<Rightarrow> request_event list" where
  "field_events buf p [] = []"
| "field_events buf p (kv # kvs) = field_event buf p kv # field_events buf (p + length (field_line kv)) kvs"

lemma feed_fields:
  assumes "list_all field_ok kvs" "p + length (concat (map field_line kvs)) < 2 ^ 64"
  shows "\<exists>q'. feed (request_machine r buf) 13 p (concat (map field_line kvs)) (q, evs) =
      Some (13, (q', evs @ field_events buf p kvs)) \<and> kept q' = kept q"
  using assms
proof (induction kvs arbitrary: p q evs)
  case (Cons kv kvs)
  have "\<exists>q'. feed (request_machine r buf) 13 p (field_line kv) (q, evs) = Some (13, (q', evs @ [field_event buf p kv])) \<and>
    kept q' = kept q"
    using Cons.prems by (intro feed_field) auto
  then obtain q1 where 1: "feed (request_machine r buf) 13 p (field_line kv) (q, evs) = Some (13, (q1, evs @ [field_event buf p kv]))"
    "kept q1 = kept q" by blast
  from Cons.IH [of "p + length (field_line kv)" q1 "evs @ [field_event buf p kv]"] Cons.prems
  obtain q2 where 2: "feed (request_machine r buf) 13 (p + length (field_line kv)) (concat (map field_line kvs)) (q1, evs @ [field_event buf p kv]) =
      Some (13, (q2, (evs @ [field_event buf p kv]) @ field_events buf (p + length (field_line kv)) kvs))" "kept q2 = kept q1"
    by auto
  show ?case using feed_append [OF 1(1) 2(1)] 1(2) 2(2) by auto
qed simp

text \<open>The empty line breaks the loop behind it.\<close>

lemma scan_end:
  assumes "hp_xml_sent q = 0" "hp_json_sent q = 0"
  shows "ragel_scan (request_machine r buf) 13 p (crlf @ body) (q, evs) =
    (p + 2, 348, (q\<lparr>hp_field_start := pos p, hp_body_start := pos (p + 1) + 1\<rparr>, evs @ [OnHeaderDone (drop (p + 2) buf) (length buf - p - 2)]))"
  using assms by (simp add: crlf_def field_states field_trs)

section \<open>What the callbacks make of it\<close>

definition put_fields :: "fields \<Rightarrow> (string \<times> string) list \<Rightarrow> fields" where
  "put_fields m kvs = foldl (\<lambda>m (k, v). omap_put CaseInsensitiveLess k v m) m kvs"

lemma put_fields_simps [simp]:
  "put_fields m [] = m" "put_fields m ((k, v) # kvs) = put_fields (omap_put CaseInsensitiveLess k v m) kvs"
  by (simp_all add: put_fields_def)

lemma on_target:
  assumes "drop p buf = path @ query_text query @ fragment_text f @ rest"
  shows "foldl on_request P (target_events buf p path query f) = P\<lparr>pr_data := (pr_data P)\<lparr>rq_path := path,
    rq_query := (if query = [] then rq_query (pr_data P) else query),
    rq_fragment := (if f = [] then rq_fragment (pr_data P) else f)\<rparr>\<rparr>"
proof -
  have d: "drop (p + n) buf = drop n (path @ query_text query @ fragment_text f @ rest)" for n
    unfolding assms [symmetric] by (simp add: add.commute)
  have "drop (p + length path + 1) buf = query @ fragment_text f @ rest" if "query \<noteq> []"
    using d [of "length path + 1"] that by (simp add: query_text_def)
  moreover have "drop (p + length path + length (query_text query) + 1) buf = f @ rest" if "f \<noteq> []"
    using d [of "length path + length (query_text query) + 1"] that by (simp add: fragment_text_def add.assoc)
  ultimately show ?thesis
    using assms by (simp add: target_events_def on_request_path_def on_request_query_def on_request_fragment_def)
qed

lemma on_version:
  assumes "drop p buf = version_text minor @ rest" "minor = CHR ''0'' \<or> minor = CHR ''1''"
  shows "on_request P (OnVersion (drop p buf) 8) =
    P\<lparr>pr_data := (pr_data P)\<lparr>rq_version := (if minor = CHR ''1'' then 0x11 else 0x10)\<rparr>\<rparr>"
  using assms by (auto simp: version_text_def on_request_version_def strncmp_eq_0 cstr_def)

lemma on_fields:
  assumes "drop p buf = concat (map field_line kvs) @ rest" "list_all field_ok kvs"
  shows "foldl on_request P (field_events buf p kvs) =
    P\<lparr>pr_data := (pr_data P)\<lparr>rq_headers := put_fields (rq_headers (pr_data P)) kvs\<rparr>\<rparr>"
  using assms
proof (induction kvs arbitrary: p P)
  case (Cons kv kvs)
  obtain k v where kv: "kv = (k, v)" by (cases kv)
  have d: "drop (p + n) buf = drop n (field_line kv @ concat (map field_line kvs) @ rest)" for n
    using arg_cong [OF Cons.prems(1), of "drop n"] by (simp add: add.commute)
  have "on_request P (field_event buf p kv) = P\<lparr>pr_data := setHeader (pr_data P) k v\<rparr>"
    using Cons.prems(2) d [of 0] d [of "length k + 2"]
    by (simp add: kv field_event_def field_line_def on_request_http_field_def field_ok_def add.assoc)
  then show ?case
    using Cons.IH [of "p + length (field_line kv)" "P\<lparr>pr_data := setHeader (pr_data P) k v\<rparr>"] Cons.prems(2) d [of "length (field_line kv)"]
    by (simp add: kv setHeader_def)
qed simp

section \<open>Requests that are written\<close>

text \<open>The fields \<open>HttpRequest::dump\<close> writes, in order, and its text up to the body.\<close>

definition wire_fields :: "http_request \<Rightarrow> (string \<times> string) list" where
  "wire_fields r =
     (''connection'', if rq_close r then ''close'' else ''keep-alive'')
     # filter (\<lambda>(k, v). fold_key k \<noteq> fold_key ''connection'') (rq_headers r)
     @ (if rq_body r = [] then [] else [(''content-length'', show_dec (length (rq_body r)))])"

definition request_head :: "http_request \<Rightarrow> string" where
  "request_head r = HttpMethodToString (rq_method r) @ '' '' @ rq_path r @ query_text (rq_query r)
     @ fragment_text (rq_fragment r) @ '' HTTP/'' @ dump_version (rq_version r) @ crlf
     @ concat (map field_line (wire_fields r)) @ crlf"

lemma dump_headers_fields:
  "dump_headers m = concat (map field_line (filter (\<lambda>(k, v). fold_key k \<noteq> fold_key ''connection'') m))"
  by (induction m rule: dump_headers.induct) (simp_all add: field_line_def strcasecmp_eq_0)

lemma request_dump_head: "request_dump r = request_head r @ rq_body r"
  by (simp add: request_dump_def request_head_def dump_headers_fields wire_fields_def dump_connection_def dump_body_def
      field_line_def query_text_def fragment_text_def)

text \<open>
  A request the grammar can carry: its method has only capital letters, its path starts with one
  slash, path, query and fragment are percent-encoded where they must be, and its fields are tokens
  with visible values. Without a body it announces none.
\<close>

definition sendable :: "http_request \<Rightarrow> bool" where
  "sendable r \<longleftrightarrow> rq_method r \<noteq> MSEARCH \<and> rq_method r \<noteq> HTTP_INVALID_METHOD \<and> path_text (rq_path r) \<and>
     encoded query_char (rq_query r) \<and> encoded query_char (rq_fragment r) \<and> rq_version r \<in> {0x10, 0x11} \<and>
     list_all field_ok (rq_headers r) \<and>
     (rq_body r = [] \<longrightarrow> list_all (\<lambda>(k, v). fold_key k \<noteq> fold_key ''content-length'') (rq_headers r))"

text \<open>The request the parser builds from the head.\<close>

definition received_head :: "http_request \<Rightarrow> http_request" where
  "received_head r = (HttpRequest (rq_version r) True)\<lparr>rq_method := rq_method r, rq_path := rq_path r, rq_query := rq_query r,
     rq_fragment := rq_fragment r, rq_headers := put_fields [] (wire_fields r)\<rparr>"

lemma method_map_texts:
  "list_all (\<lambda>(n, m, t). m \<noteq> MSEARCH \<longrightarrow> list_all method_char t \<and> t \<noteq> [] \<and> length t \<le> 20) HTTP_METHOD_MAP"
  by (simp add: HTTP_METHOD_MAP_def method_char_def schar_def)

lemma method_texts:
  "m \<noteq> MSEARCH \<Longrightarrow> m \<noteq> HTTP_INVALID_METHOD \<Longrightarrow>
   list_all method_char (HttpMethodToString m) \<and> HttpMethodToString m \<noteq> [] \<and> length (HttpMethodToString m) \<le> 20"
  using method_map_texts method_entry [of m] by (auto simp: list_all_iff)

lemma version_texts:
  assumes "v \<in> {0x10, 0x11}"
  shows "'' HTTP/'' @ dump_version v = '' '' @ version_text (if v = 0x11 then CHR ''1'' else CHR ''0'')"
proof -
  have "dump_version 0x10 = ''1.0''" "dump_version 0x11 = ''1.1''" by code_simp+
  then show ?thesis using assms by (auto simp: version_text_def)
qed

lemma digit_values: "c \<in> digit_set \<Longrightarrow> value_char c \<and> c \<noteq> CHR '' '' \<and> c \<noteq> CHR 0x09"
  by (auto simp: digit_set_def value_char_def schar_def)

lemma wire_fields_ok:
  assumes "sendable r"
  shows "list_all field_ok (wire_fields r)"
proof -
  let ?d = "show_dec (length (rq_body r))"
  have "set ?d \<subseteq> digit_set" unfolding show_dec_def by (rule set_show_base)
  then have "list_all value_char ?d" "take 1 ?d \<noteq> '' ''" "take 1 ?d \<noteq> [CHR 0x09]"
    using digit_values by (cases ?d; auto simp: list_all_iff)+
  then have "field_ok (''content-length'', ?d)" by (simp add: field_ok_def token_char_def schar_def)
  moreover have "field_ok (''connection'', ''close'')" "field_ok (''connection'', ''keep-alive'')"
    by (simp_all add: field_ok_def token_char_def value_char_def schar_def)
  ultimately show ?thesis using assms by (auto simp: wire_fields_def sendable_def list_all_iff)
qed

text \<open>The head of a written request, with whatever follows it in the buffer.\<close>

lemma scan_head:
  assumes ok: "sendable r" and b: "length (request_head r @ tail) < 2 ^ 64"
    and q: "hp_cs q = 1" "hp_xml_sent q = 0" "hp_json_sent q = 0" "hp_nread q = 0"
  shows "\<exists>q' evs. ragel_scan (request_machine rel (request_head r @ tail)) 1 0 (request_head r @ tail) (q, []) =
      (length (request_head r), 348, (q', evs)) \<and> hp_cs q' = 1 \<and> hp_nread q' = 0 \<and>
    foldl on_request (HttpRequestParser p0) evs = (HttpRequestParser p0)\<lparr>pr_data := received_head r\<rparr>"
proof -
  let ?m = "HttpMethodToString (rq_method r)" and ?t = "rq_path r @ query_text (rq_query r) @ fragment_text (rq_fragment r)"
  let ?minor = "if rq_version r = 0x11 then CHR ''1'' else CHR ''0''" and ?kvs = "wire_fields r"
  let ?f = "concat (map field_line ?kvs)" and ?buf = "request_head r @ tail" and ?M = "request_machine rel (request_head r @ tail)"
  let ?p1 = "length ?m + 1" and ?p2 = "length ?m + 1 + length ?t + 1"
  let ?p3 = "length ?m + 1 + length ?t + 1 + 10"
  let ?e1 = "[OnMethod (drop 0 ?buf) (length ?m)]" and ?e2 = "target_events ?buf ?p1 (rq_path r) (rq_query r) (rq_fragment r)"
  let ?e3 = "[OnVersion (drop ?p2 ?buf) 8]" and ?e4 = "field_events ?buf ?p3 ?kvs"
  have v: "rq_version r \<in> {0x10, 0x11}" and s: "sendable r" using ok by (simp_all add: sendable_def)
  have buf: "?buf = (?m @ '' '') @ (?t @ '' '') @ (version_text ?minor @ crlf) @ ?f @ crlf @ tail"
    using version_texts [OF v] by (simp add: request_head_def)
  have l: "length (version_text ?minor @ crlf) = 10" by (simp add: version_text_def crlf_def)
  have len: "?p3 + length ?f + 2 + length tail = length ?buf" unfolding buf using l by (simp add: crlf_def)
  have "feed ?M 1 0 (?m @ '' '') (q, []) = Some (3, (q\<lparr>hp_mark := pos 0\<rparr>, ?e1))"
    using feed_method [of ?m rel ?buf 0 q "[]"] method_texts [of "rq_method r"] s b len by (simp add: sendable_def)
  note 1 = ragel_scan_feed [OF this]
  have "\<exists>q'. feed ?M 3 ?p1 (rq_path r @ query_text (rq_query r) @ fragment_text (rq_fragment r) @ '' '') (q\<lparr>hp_mark := pos 0\<rparr>, ?e1) =
      Some (4, (q', ?e1 @ ?e2)) \<and> kept q' = kept (q\<lparr>hp_mark := pos 0\<rparr>)"
    using s b len by (intro feed_target) (auto simp: sendable_def)
  then obtain q2 where 2: "feed ?M 3 ?p1 (?t @ '' '') (q\<lparr>hp_mark := pos 0\<rparr>, ?e1) = Some (4, (q2, ?e1 @ ?e2))" "kept q2 = kept q" by auto
  have 3: "feed ?M 4 ?p2 (version_text ?minor @ crlf) (q2, ?e1 @ ?e2) = Some (13, (q2\<lparr>hp_mark := pos ?p2\<rparr>, (?e1 @ ?e2) @ ?e3))"
    using b len by (intro feed_version) auto
  have "\<exists>q'. feed ?M 13 ?p3 ?f (q2\<lparr>hp_mark := pos ?p2\<rparr>, (?e1 @ ?e2) @ ?e3) = Some (13, (q', ((?e1 @ ?e2) @ ?e3) @ ?e4)) \<and>
      kept q' = kept (q2\<lparr>hp_mark := pos ?p2\<rparr>)"
    using b len by (intro feed_fields wire_fields_ok s) linarith
  then obtain q4 where 4: "feed ?M 13 ?p3 ?f (q2\<lparr>hp_mark := pos ?p2\<rparr>, (?e1 @ ?e2) @ ?e3) = Some (13, (q4, ((?e1 @ ?e2) @ ?e3) @ ?e4))"
    "kept q4 = kept q" using 2(2) by auto
  let ?q5 = "q4\<lparr>hp_field_start := pos (?p3 + length ?f), hp_body_start := pos (?p3 + length ?f + 1) + 1\<rparr>"
  let ?e5 = "[OnHeaderDone (drop (?p3 + length ?f + 2) ?buf) (length ?buf - (?p3 + length ?f) - 2)]"
  have 5: "ragel_scan ?M 13 (?p3 + length ?f) (crlf @ tail) (q4, ((?e1 @ ?e2) @ ?e3) @ ?e4) =
      (?p3 + length ?f + 2, 348, (?q5, (((?e1 @ ?e2) @ ?e3) @ ?e4) @ ?e5))"
    using 4(2) q by (intro scan_end) (simp_all add: kept_def)
  have p: "0 + length (?m @ '' '') = ?p1" "?p1 + length (?t @ '' '') = ?p2" "?p2 + length (version_text ?minor @ crlf) = ?p3"
    using l by simp_all
  have scan: "ragel_scan ?M 1 0 ?buf (q, []) = (length (request_head r), 348, (?q5, (((?e1 @ ?e2) @ ?e3) @ ?e4) @ ?e5))"
    using 5 len unfolding buf [THEN arg_cong, of "\<lambda>x. ragel_scan ?M 1 0 x (q, [])"] 1 p ragel_scan_feed [OF 2(1)] ragel_scan_feed [OF 3] ragel_scan_feed [OF 4(1)]
    by simp
  have d: "drop ?p1 ?buf = rq_path r @ query_text (rq_query r) @ fragment_text (rq_fragment r) @ '' '' @ (version_text ?minor @ crlf) @ ?f @ crlf @ tail"
    "drop ?p2 ?buf = version_text ?minor @ crlf @ ?f @ crlf @ tail"
    unfolding buf p [symmetric] by simp_all
  have "?p3 = length ((?m @ '' '') @ (?t @ '' '') @ (version_text ?minor @ crlf))" using l by simp
  moreover have "?buf = ((?m @ '' '') @ (?t @ '' '') @ (version_text ?minor @ crlf)) @ ?f @ crlf @ tail"
    unfolding buf by simp
  ultimately have d3: "drop ?p3 ?buf = ?f @ crlf @ tail" by (metis append_eq_conv_conj)
  have m: "foldl on_request P ?e1 = P\<lparr>pr_data := (pr_data P)\<lparr>rq_method := rq_method r\<rparr>\<rparr>" for P :: "'a request_parser"
    using method_round_trip [of "rq_method r"] s unfolding buf by (simp add: on_request_method_def sendable_def)
  let ?P = "\<lambda>d. (HttpRequestParser p0)\<lparr>pr_data := d\<rparr>" and ?d1 = "(HttpRequest 0x11 True)\<lparr>rq_method := rq_method r\<rparr>"
  let ?d2 = "?d1\<lparr>rq_path := rq_path r, rq_query := rq_query r, rq_fragment := rq_fragment r\<rparr>"
  let ?d3 = "?d2\<lparr>rq_version := rq_version r\<rparr>"
  have "foldl on_request (HttpRequestParser p0) ?e1 = ?P ?d1" unfolding m by (simp add: HttpRequestParser_def)
  moreover have "foldl on_request (?P ?d1) ?e2 = ?P ?d2" unfolding on_target [OF d(1)] by (simp add: HttpRequest_def)
  moreover have "foldl on_request (?P ?d2) ?e3 = ?P ?d3" using on_version [OF d(2), of "?P ?d2"] v by auto
  moreover have "foldl on_request (?P ?d3) ?e4 = ?P (received_head r)"
    unfolding on_fields [OF d3 wire_fields_ok [OF s]] by (simp add: received_head_def HttpRequest_def)
  ultimately have "foldl on_request (HttpRequestParser p0) ((((?e1 @ ?e2) @ ?e3) @ ?e4) @ ?e5) = ?P (received_head r)"
    unfolding foldl_append by simp
  moreover have "hp_cs ?q5 = 1" "hp_nread ?q5 = 0" using 4(2) q by (simp_all add: kept_def)
  ultimately show ?thesis using scan by blast
qed

text \<open>One call of \<open>HttpRequestParser::execute\<close> on a buffer that holds the whole head.\<close>

lemma execute_head:
  assumes ok: "sendable r" and b: "length (request_head r @ tail) < 2 ^ 64"
  shows "\<exists>q. request_execute http_parser_execute (HttpRequestParser_new parser) (request_head r @ tail) =
      (length (request_head r), (HttpRequestParser_new parser)\<lparr>pr_parser := q, pr_data := received_head r\<rparr>, tail) \<and>
    http_parser_finish q = 1 \<and> http_parser_has_error q = 0"
proof -
  let ?init = "http_parser_init parser" and ?buf = "request_head r @ tail"
  let ?q = "?init\<lparr>hp_nread := 0, hp_mark := 0, hp_field_len := 0, hp_field_start := 0\<rparr>"
  obtain q' evs where s: "ragel_scan (request_machine (hp_uri_relaxed ?init \<noteq> 0) ?buf) 1 0 ?buf (?q, []) = (length (request_head r), 348, (q', evs))"
    "hp_cs q' = 1" "hp_nread q' = 0" "foldl on_request (HttpRequestParser ?init) evs = (HttpRequestParser ?init)\<lparr>pr_data := received_head r\<rparr>"
    using scan_head [OF ok b, of ?q "hp_uri_relaxed ?init \<noteq> 0" ?init] by (auto simp: http_parser_init_def http_parser_start_def)
  have ne: "request_head r \<noteq> []" by (simp add: request_head_def crlf_def)
  have n: "length (request_head r) < 2 ^ 64" using b by simp
  have "http_parser_execute ?init ?buf = (length (request_head r), q'\<lparr>hp_cs := 348, hp_nread := of_nat (length (request_head r))\<rparr>, evs)"
    using ne s(1-3) n
    by (simp add: http_parser_execute_def http_parser_init_def http_parser_start_def http_parser_has_error_def http_parser_error_def
        unsigned_of_nat take_bit_nat_eq_self)
  then show ?thesis
    using s(4) by (simp add: request_execute_def HttpRequestParser_new_def HttpRequestParser_def http_parser_finish_def
        http_parser_has_error_def http_parser_is_finished_def http_parser_error_def http_parser_first_final_def)
qed

lemma put_fields_other:
  "\<forall>(k, v)\<in>set kvs. fold_key k \<noteq> fold_key key \<Longrightarrow> omap_get CaseInsensitiveLess key (put_fields m kvs) = omap_get CaseInsensitiveLess key m"
proof (induction kvs arbitrary: m)
  case (Cons kv kvs)
  then show ?case by (cases kv) (auto simp: ci.omap_get_put)
qed simp

lemma put_fields_append [simp]: "put_fields m (kvs @ kvs') = put_fields (put_fields m kvs) kvs'"
  by (simp add: put_fields_def)

lemma received_connection:
  "omap_get CaseInsensitiveLess ''Connection'' (rq_headers (received_head r)) = Some (if rq_close r then ''close'' else ''keep-alive'')"
proof -
  have "fold_key ''connection'' = fold_key ''Connection''" "fold_key ''content-length'' \<noteq> fold_key ''Connection''"
    "\<not> CaseInsensitiveLess ''connection'' ''Connection''" "\<not> CaseInsensitiveLess ''Connection'' ''connection''" by code_simp+
  then show ?thesis
    by (auto simp: received_head_def wire_fields_def put_fields_other ci.omap_get_put)
qed

lemma received_length:
  assumes "sendable r"
  shows "omap_get CaseInsensitiveLess ''content-length'' (rq_headers (received_head r)) =
    (if rq_body r = [] then None else Some (show_dec (length (rq_body r))))"
proof -
  have "fold_key ''connection'' \<noteq> fold_key ''content-length''" "CaseInsensitiveLess ''connection'' ''content-length''" by code_simp+
  then show ?thesis
    using assms by (auto simp: received_head_def wire_fields_def put_fields_other ci.omap_get_put sendable_def list_all_iff)
qed

lemma received_keep_alive: "set_keep_alive ((received_head r)\<lparr>rq_body := b\<rparr>) = (received_head r)\<lparr>rq_close := rq_close r, rq_body := b\<rparr>"
proof -
  have "strcasecmp ''keep-alive'' ''keep-alive'' = 0" "strcasecmp ''close'' ''keep-alive'' \<noteq> 0" by code_simp+
  then show ?thesis
    using received_connection [of r] by (simp add: set_keep_alive_def getHeader_def get_field_def) (simp add: received_head_def HttpRequest_def)
qed

section \<open>Properties\<close>

text \<open>
  C5. A request that \<open>HttpRequest::dump\<close> writes arrives: when the head comes with the first read and the body in any
  pieces, \<open>recvRequest\<close> returns a request with the same method, version, path, query, fragment, connection mode and
  body, and with the fields that were written, and leaves the reads behind it.
\<close>

theorem request_travels:
  assumes ok: "sendable r" and head: "length (request_head r @ b) \<le> buffer_size" "buffer_size < 2 ^ 64"
    and body: "rq_body r = b @ concat ds" "[] \<notin> set ds" "length (rq_body r) < 2 ^ 31"
    and lc: "lexical_cast (show_dec (length (rq_body r))) = Some (of_nat (length (rq_body r)))"
  shows "recvRequest http_parser_execute http_parser_finish http_parser_has_error lexical_cast buffer_size (http_parser_init parser)
      (Received (request_head r @ b) # map Received ds @ rs) =
    Some (Inr (Some ((received_head r)\<lparr>rq_close := rq_close r, rq_body := rq_body r\<rparr>, rs)))"
proof -
  let ?P = "HttpRequestParser_new parser"
  obtain q where e: "request_execute http_parser_execute ?P (request_head r @ b) =
      (length (request_head r), ?P\<lparr>pr_parser := q, pr_data := received_head r\<rparr>, b)" "http_parser_finish q = 1" "http_parser_has_error q = 0"
    using execute_head [OF ok, of b parser] head by auto
  have ne: "request_head r \<noteq> []" by (simp add: request_head_def crlf_def)
  then have nb: "length b \<noteq> buffer_size" using head(1) by auto
  have h: "recv_head http_parser_execute http_parser_finish http_parser_has_error buffer_size ?P []
      (Received (request_head r @ b) # map Received ds @ rs) =
    Some (Some (?P\<lparr>pr_parser := q, pr_data := received_head r\<rparr>, b, map Received ds @ rs))"
    using e ne nb by (simp add: request_hasError_def HttpRequestParser_new_def HttpRequestParser_def)
  let ?len = "request_getContentLength lexical_cast (?P\<lparr>pr_parser := q, pr_data := received_head r\<rparr>)"
  have len: "?len = of_nat (length (rq_body r))"
    using received_length [OF ok] lc by (simp add: request_getContentLength_def getHeaderAs_def getAs_def)
  have s: "sint ?len = int (length (rq_body r))"
    unfolding len using body(3) by (simp add: signed_of_nat signed_take_bit_int_eq_self)
  show ?thesis
  proof (cases "rq_body r = []")
    case True
    then have "b = []" "ds = []" using body by (auto, cases ds) auto
    then show ?thesis
      using h s True received_keep_alive [where r = r and b = "[]"] by (simp add: recvRequest_def recv_body_def Let_def flip: HttpRequestParser_new_def)
        (simp add: received_head_def HttpRequest_def)
  next
    case False
    then have "0 < sint ?len" unfolding s by simp
    moreover from recv_body_chunks [OF this body(2), of b rs] have "recv_body ?len b (map Received ds @ rs) = Some (Inr (Some (rq_body r, rs)))"
      unfolding s using body by simp
    ultimately show ?thesis
      using h received_keep_alive [where r = r and b = "rq_body r"] by (simp add: recvRequest_def Let_def flip: HttpRequestParser_new_def)
  qed
qed

text \<open>The request with which \<open>request_travels\<close> is applied: a query, a body that arrives in two reads, and one header.\<close>

definition sample_request :: http_request where
  "sample_request = (HttpRequest 0x11 False)\<lparr>rq_method := POST, rq_path := ''/a'', rq_query := ''x'', rq_body := ''hi'',
    rq_headers := [(''Host'', ''h'')]\<rparr>"

theorem request_travels_witness:
  "\<forall>parser. recvRequest http_parser_execute http_parser_finish http_parser_has_error (\<lambda>s. if s = ''2'' then Some 2 else None) 4096
      (http_parser_init parser) [Received (request_head sample_request @ ''h''), Received ''i'', Received []] =
    Some (Inr (Some ((received_head sample_request)\<lparr>rq_close := False, rq_body := ''hi''\<rparr>, [Received []])))"
proof
  fix parser
  have "sendable sample_request" by code_simp
  moreover have "length (request_head sample_request @ ''h'') \<le> 4096" by code_simp
  moreover have "show_dec (Suc (Suc 0)) = ''2''" by code_simp
  ultimately show "recvRequest http_parser_execute http_parser_finish http_parser_has_error (\<lambda>s. if s = ''2'' then Some 2 else None) 4096
      (http_parser_init parser) [Received (request_head sample_request @ ''h''), Received ''i'', Received []] =
    Some (Inr (Some ((received_head sample_request)\<lparr>rq_close := False, rq_body := ''hi''\<rparr>, [Received []])))"
    using request_travels [of sample_request "''h''" 4096 "[''i'']" "\<lambda>s. if s = ''2'' then Some 2 else None" parser "[Received []]"]
    by (simp add: sample_request_def HttpRequest_def)
qed

end
