(* ===== verification/Request_Safety.thy ===== *)
theory Request_Safety
  imports Http11_Parser
begin

text \<open>
  The offsets of the request parser stay inside the buffer. The machine writes a field only behind a
  field name and a query only behind the start of one, which is a fact about its transitions at every
  state; the offsets of a query survive from one call to the next, those of a field do not.
\<close>

section \<open>The flow of offsets\<close>

definition in_field :: "int \<Rightarrow> bool" where "in_field cs \<longleftrightarrow> cs = 15 \<or> cs = 16"
definition in_query :: "int \<Rightarrow> bool" where "in_query cs \<longleftrightarrow> cs = 30 \<or> cs = 31 \<or> cs = 32"

text \<open>The states of a field value and of a query are entered from themselves or by the transitions that set the offsets.\<close>

fun flow_ok :: "int \<Rightarrow> jump \<Rightarrow> bool" where
  "flow_ok cs (St n) \<longleftrightarrow> (in_field n \<longrightarrow> in_field cs) \<and> (in_query n \<longrightarrow> in_query cs)"
| "flow_ok cs (Tr k) \<longleftrightarrow> (k \<in> {28, 29, 30, 31, 33, 34} \<longrightarrow> in_field cs) \<and> (k \<in> {58, 59} \<longrightarrow> in_query cs)"

interpretation rf: jump_property flow_ok .

lemmas flow_simps = flow_ok.simps in_field_def in_query_def

lemma flow_blocks:
  "flow_ok cs (request_cases_1 r cs c)" "flow_ok cs (request_cases_2 r cs c)" "flow_ok cs (request_cases_3 r cs c)"
  "flow_ok cs (request_cases_4 r cs c)" "flow_ok cs (request_cases_5 r cs c)" "flow_ok cs (request_cases_6 r cs c)"
  "flow_ok cs (request_cases_7 r cs c)" "flow_ok cs (request_cases_8 r cs c)" "flow_ok cs (request_cases_9 r cs c)"
  "flow_ok cs (request_cases_10 r cs c)" "flow_ok cs (request_cases_11 r cs c)" "flow_ok cs (request_cases_12 r cs c)"
  "flow_ok cs (request_cases_13 r cs c)" "flow_ok cs (request_cases_14 r cs c)" "flow_ok cs (request_cases_15 r cs c)"
  "flow_ok cs (request_cases_16 r cs c)" "flow_ok cs (request_cases_17 r cs c)" "flow_ok cs (request_cases_18 r cs c)"
  "flow_ok cs (request_cases_19 r cs c)" "flow_ok cs (request_cases_20 r cs c)" "flow_ok cs (request_cases_21 r cs c)"
  "flow_ok cs (request_cases_22 r cs c)" "flow_ok cs (request_cases_23 r cs c)" "flow_ok cs (request_cases_24 r cs c)"
  "flow_ok cs (request_cases_25 r cs c)" "flow_ok cs (request_cases_26 r cs c)" "flow_ok cs (request_cases_27 r cs c)"
  "flow_ok cs (request_cases_28 r cs c)" "flow_ok cs (request_cases_29 r cs c)" "flow_ok cs (request_cases_30 r cs c)"
  "flow_ok cs (request_cases_31 r cs c)" "flow_ok cs (request_cases_32 r cs c)" "flow_ok cs (request_cases_33 r cs c)"
  "flow_ok cs (request_cases_34 r cs c)" "flow_ok cs (request_cases_35 r cs c)" "flow_ok cs (request_cases_36 r cs c)"
  "flow_ok cs (request_cases_37 r cs c)" "flow_ok cs (request_cases_38 r cs c)" "flow_ok cs (request_cases_39 r cs c)"
  "flow_ok cs (request_cases_40 r cs c)" "flow_ok cs (request_cases_41 r cs c)" "flow_ok cs (request_cases_42 r cs c)"
  "flow_ok cs (request_cases_43 r cs c)" "flow_ok cs (request_cases_44 r cs c)"
  unfolding
    request_cases_1_def request_cases_2_def request_cases_3_def request_cases_4_def request_cases_5_def
    request_cases_6_def request_cases_7_def request_cases_8_def request_cases_9_def request_cases_10_def
    request_cases_11_def request_cases_12_def request_cases_13_def request_cases_14_def request_cases_15_def
    request_cases_16_def request_cases_17_def request_cases_18_def request_cases_19_def request_cases_20_def
    request_cases_21_def request_cases_22_def request_cases_23_def request_cases_24_def request_cases_25_def
    request_cases_26_def request_cases_27_def request_cases_28_def request_cases_29_def request_cases_30_def
    request_cases_31_def request_cases_32_def request_cases_33_def request_cases_34_def request_cases_35_def
    request_cases_36_def request_cases_37_def request_cases_38_def request_cases_39_def request_cases_40_def
    request_cases_41_def request_cases_42_def request_cases_43_def request_cases_44_def
  by (rule rf.case_branch | rule rf.switch_branch | rule rf.let_branch | rule rf.if_branch | simp add: flow_simps; fail)+

lemma flow_cases: "flow_ok cs (request_cases r cs c)"
  unfolding request_cases_def by (rule rf.if_branch flow_blocks | simp add: flow_simps; fail)+

section \<open>The offsets of a scan\<close>

text \<open>A callback gets a string inside the buffer.\<close>

fun event_ok :: "request_event \<Rightarrow> bool" where
  "event_ok (OnMethod at len) = (len \<le> length at)"
| "event_ok (OnUri at len) = (len \<le> length at)"
| "event_ok (OnFragment at len) = (len \<le> length at)"
| "event_ok (OnPath at len) = (len \<le> length at)"
| "event_ok (OnQuery at len) = (len \<le> length at)"
| "event_ok (OnVersion at len) = (len \<le> length at)"
| "event_ok (OnHeaderDone at len) = (len \<le> length at)"
| "event_ok (OnField field flen value vlen) = (flen \<le> length field \<and> vlen \<le> length value)"

definition offsets_ok :: "string \<Rightarrow> nat \<Rightarrow> request_scan \<Rightarrow> bool" where
  "offsets_ok buf p s \<longleftrightarrow> (case s of (q, evs) \<Rightarrow> unat (hp_mark q) \<le> p \<and> unat (hp_mark q) < length buf \<and>
     unat (hp_field_start q) \<le> p \<and> unat (hp_field_start q) < length buf \<and> unat (hp_field_len q) \<le> length buf \<and>
     unat (hp_body_start q) \<le> length buf \<and> hp_nread q = 0 \<and> list_all event_ok evs)"

definition field_set :: "nat \<Rightarrow> request_scan \<Rightarrow> bool" where
  "field_set p s \<longleftrightarrow> unat (hp_field_start (fst s)) + unat (hp_field_len (fst s)) \<le> p"

definition query_set :: "nat \<Rightarrow> request_scan \<Rightarrow> bool" where
  "query_set p s \<longleftrightarrow> unat (hp_query_start (fst s)) \<le> p"

lemma unat_pos: "p < 2 ^ 64 \<Longrightarrow> unat (pos p) = p"
  by (simp add: pos_def unsigned_of_nat take_bit_nat_eq_self)

lemma unat_pos_minus: "p < 2 ^ 64 \<Longrightarrow> unat a \<le> p \<Longrightarrow> unat (pos p - a) = p - unat a"
  by (simp add: unat_pos unat_sub word_le_nat_alt)

lemma len_from_le: "p < 2 ^ 64 \<Longrightarrow> unat a \<le> p \<Longrightarrow> p \<le> length buf \<Longrightarrow> len_from a p \<le> length buf - unat a"
  by (simp add: len_from_def unat_pos_minus)

lemma act_offsets:
  assumes "offsets_ok buf p s" "p < length buf" "length buf < 2 ^ 64"
    and "a = Write_value \<longrightarrow> field_set p s" "a = Query_string \<longrightarrow> query_set p s"
  shows "offsets_ok buf p (request_act buf p a s)"
proof -
  obtain q evs where s: "s = (q, evs)" by (cases s)
  have p: "p < 2 ^ 64" using assms by simp
  have "pos p + 1 = pos (p + 1)" by (simp add: pos_def)
  then have "unat (pos p + 1) \<le> length buf" using assms(2,3) by (simp add: unat_pos)
  moreover have "unat (hp_mark q) \<le> length buf" using assms by (simp add: s offsets_ok_def)
  ultimately show ?thesis
    using assms p by (cases a) (auto simp: s offsets_ok_def field_set_def query_set_def unat_pos unat_pos_minus len_from_le ptr_to_def)
qed

text \<open>Actions other than the two that use them keep the offsets of a field and of a query.\<close>

lemma act_field_set: "field_set p s \<Longrightarrow> a \<notin> {Start_field, Write_field} \<Longrightarrow> field_set p (request_act buf p a s)"
  by (cases s; cases a) (auto simp: field_set_def)

lemma act_query_set: "query_set p s \<Longrightarrow> p < 2 ^ 64 \<Longrightarrow> query_set p (request_act buf p a s)"
  by (cases s; cases a) (auto simp: query_set_def unat_pos)

lemma acts_offsets:
  assumes "offsets_ok buf p s" "p < length buf" "length buf < 2 ^ 64" "Write_value \<notin> set acts" "Query_string \<notin> set acts"
  shows "offsets_ok buf p (foldl (\<lambda>s a. request_act buf p a s) s acts)"
  using assms(1,4,5)
proof (induction acts arbitrary: s)
  case (Cons a acts)
  have "offsets_ok buf p (request_act buf p a s)" using Cons.prems assms(2,3) by (intro act_offsets) auto
  then show ?case using Cons by auto
qed simp

text \<open>What the table of transitions says of those that matter here.\<close>

definition tr_ok :: "int \<Rightarrow> request_action list \<Rightarrow> int \<Rightarrow> bool" where
  "tr_ok k acts n \<longleftrightarrow>
     (if k \<in> {30, 31} then acts = [Start_value, Write_value] \<and> n \<in> {13, 17}
      else if k \<in> {33, 34} then acts = [Write_value] \<and> n \<in> {13, 17}
      else if k \<in> {28, 29} then acts = [Start_value] \<and> in_field n
      else if k = 27 then acts = [Write_field] \<and> n = 15
      else if k \<in> {58, 59} then acts = [Query_string, Request_uri] \<and> n \<in> {4, 20}
      else if k \<in> {54, 55} then acts = [Start_query, Query_string, Request_uri] \<and> n \<in> {4, 20}
      else if k \<in> {53, 56} then acts = [Start_query] \<and> in_query n
      else Write_value \<notin> set acts \<and> Query_string \<notin> set acts \<and> \<not> in_field n \<and> \<not> in_query n)"

lemma table_ok: "list_all (\<lambda>(k, acts, n). tr_ok k acts n) request_table"
  by (simp add: request_table_def tr_ok_def in_field_def in_query_def
    request_trs_1_def request_trs_2_def request_trs_3_def request_trs_4_def request_trs_5_def request_trs_6_def request_trs_7_def request_trs_8_def request_trs_23_def request_trs_26_def request_trs_27_def)

lemma table_keys: "k \<in> {27, 28, 29, 30, 31, 33, 34, 53, 54, 55, 56, 58, 59} \<Longrightarrow> map_of request_table k \<noteq> None"
  by (auto simp: request_table_def
    request_trs_1_def request_trs_2_def request_trs_3_def request_trs_4_def request_trs_5_def request_trs_6_def request_trs_7_def request_trs_8_def request_trs_23_def request_trs_26_def request_trs_27_def)

lemma trs_ok: "request_trs k = (acts, n) \<Longrightarrow> tr_ok k acts n"
proof (cases "map_of request_table k")
  case (Some t)
  then show "request_trs k = (acts, n) \<Longrightarrow> tr_ok k acts n"
    using table_ok by (auto simp: request_trs_def list_all_iff dest: map_of_SomeD)
next
  case None
  then show "request_trs k = (acts, n) \<Longrightarrow> tr_ok k acts n"
    using table_keys [of k] by (auto simp: request_trs_def tr_ok_def in_field_def in_query_def)
qed

definition scan_ok :: "string \<Rightarrow> int \<Rightarrow> nat \<Rightarrow> request_scan \<Rightarrow> bool" where
  "scan_ok buf cs p s \<longleftrightarrow> offsets_ok buf p s \<and> (in_field cs \<longrightarrow> field_set p s) \<and> (in_query cs \<longrightarrow> query_set p s)"

lemma offsets_later: "offsets_ok buf p s \<Longrightarrow> offsets_ok buf (Suc p) s"
  "field_set p s \<Longrightarrow> field_set (Suc p) s" "query_set p s \<Longrightarrow> query_set (Suc p) s"
  by (auto simp: offsets_ok_def field_set_def query_set_def split: prod.splits)

lemma write_field_set:
  assumes "offsets_ok buf p s" "p < 2 ^ 64"
  shows "field_set p (request_act buf p Write_field s)"
  using assms by (cases s) (simp add: offsets_ok_def field_set_def unat_pos_minus)

lemma start_query_set: "p < 2 ^ 64 \<Longrightarrow> query_set p (request_act buf p Start_query s)"
  by (cases s) (simp add: query_set_def unat_pos)

lemma tr_scan_ok:
  assumes ok: "scan_ok buf cs p s" and p: "p < length buf" "length buf < 2 ^ 64"
    and f: "flow_ok cs (Tr k)" and t: "request_trs k = (acts, n)"
  shows "scan_ok buf n (Suc p) (foldl (\<lambda>s a. request_act buf p a s) s acts)"
proof -
  have p64: "p < 2 ^ 64" using p by simp
  note off = act_offsets [OF _ p] 
  have o: "offsets_ok buf p s" using ok by (simp add: scan_ok_def)
  have F: "k \<in> {28, 29, 30, 31, 33, 34} \<Longrightarrow> field_set p s" and Q: "k \<in> {58, 59} \<Longrightarrow> query_set p s"
    using f ok by (auto simp: scan_ok_def)
  consider "k \<in> {30, 31}" | "k \<in> {33, 34}" | "k \<in> {28, 29}" | "k = 27" | "k \<in> {58, 59}" | "k \<in> {54, 55}" | "k \<in> {53, 56}"
    | "k \<notin> {27, 28, 29, 30, 31, 33, 34, 53, 54, 55, 56, 58, 59}" by blast
  then have "offsets_ok buf p (foldl (\<lambda>s a. request_act buf p a s) s acts) \<and>
      (in_field n \<longrightarrow> field_set p (foldl (\<lambda>s a. request_act buf p a s) s acts)) \<and>
      (in_query n \<longrightarrow> query_set p (foldl (\<lambda>s a. request_act buf p a s) s acts))"
  proof cases
    case 1
    then have "acts = [Start_value, Write_value]" "\<not> in_field n" "\<not> in_query n"
      using trs_ok [OF t] by (auto simp: tr_ok_def in_field_def in_query_def)
    moreover have "field_set p s" using 1 by (intro F) auto
    ultimately show ?thesis by (simp add: off o act_field_set)
  next
    case 2
    then have "acts = [Write_value]" "\<not> in_field n" "\<not> in_query n"
      using trs_ok [OF t] by (auto simp: tr_ok_def in_field_def in_query_def)
    moreover have "field_set p s" using 2 by (intro F) auto
    ultimately show ?thesis by (simp add: off o)
  next
    case 3
    then have "acts = [Start_value]" "\<not> in_query n"
      using trs_ok [OF t] by (auto simp: tr_ok_def in_field_def in_query_def)
    moreover have "field_set p s" using 3 by (intro F) auto
    ultimately show ?thesis by (simp add: off o act_field_set)
  next
    case 4
    then have "acts = [Write_field]" "\<not> in_query n"
      using trs_ok [OF t] by (auto simp: tr_ok_def in_field_def in_query_def)
    then show ?thesis by (simp add: off o write_field_set [OF o p64])
  next
    case 5
    then have "acts = [Query_string, Request_uri]" "\<not> in_field n" "\<not> in_query n"
      using trs_ok [OF t] by (auto simp: tr_ok_def in_field_def in_query_def)
    moreover have "query_set p s" using 5 by (intro Q) auto
    ultimately show ?thesis by (simp add: off o)
  next
    case 6
    then have "acts = [Start_query, Query_string, Request_uri]" "\<not> in_field n" "\<not> in_query n"
      using trs_ok [OF t] by (auto simp: tr_ok_def in_field_def in_query_def)
    then show ?thesis by (simp add: off o start_query_set [OF p64])
  next
    case 7
    then have "acts = [Start_query]" "\<not> in_field n"
      using trs_ok [OF t] by (auto simp: tr_ok_def in_field_def in_query_def)
    then show ?thesis by (simp add: off o start_query_set [OF p64])
  next
    case 8
    then have "Write_value \<notin> set acts" "Query_string \<notin> set acts" "\<not> in_field n" "\<not> in_query n"
      using trs_ok [OF t] by (auto simp: tr_ok_def)
    then show ?thesis using acts_offsets [OF o p] by simp
  qed
  then show ?thesis by (auto simp: scan_ok_def intro: offsets_later)
qed

text \<open>So the whole scan keeps the offsets.\<close>

lemma scan_offsets:
  assumes "scan_ok buf cs p s" "p + length xs = length buf" "length buf < 2 ^ 64"
    and "ragel_scan (request_machine r buf) cs p xs s = (p', cs', s')"
  shows "\<exists>p''. offsets_ok buf p'' s'"
  using assms(1,2,4)
proof (induction xs arbitrary: cs p s)
  case (Cons c xs)
  have p: "p < length buf" using Cons.prems(2) by simp
  have f: "flow_ok cs (request_cases r cs (schar c))" by (rule flow_cases)
  show ?case
  proof (cases "request_cases r cs (schar c)")
    case (St n)
    then have "scan_ok buf n (Suc p) s" using f Cons.prems(1) by (auto simp: scan_ok_def intro: offsets_later)
    then show ?thesis
      using St Cons.prems Cons.IH [of n "Suc p" s] by (auto simp: request_machine_def scan_ok_def split: if_splits)
  next
    case (Tr k)
    obtain acts n where t: "request_trs k = (acts, n)" by (cases "request_trs k")
    have "scan_ok buf n (Suc p) (foldl (\<lambda>s a. request_act buf p a s) s acts)"
      using tr_scan_ok [OF Cons.prems(1) p assms(3) _ t] f Tr by simp
    then show ?thesis
      using Tr t Cons.prems Cons.IH [of n "Suc p" "foldl (\<lambda>s a. request_act buf p a s) s acts"]
      by (auto simp: request_machine_def scan_ok_def Let_def split: if_splits)
  qed
qed (auto simp: scan_ok_def)

lemma execute_offsets:
  assumes e: "http_parser_execute parser buf = (n, parser', evs)" and b: "buf \<noteq> []" "length buf < 2 ^ 64"
    and cs: "\<not> in_query (hp_cs parser)" and body: "unat (hp_body_start parser) \<le> length buf"
  shows "list_all event_ok evs \<and> http_parser_asserts parser' buf \<and> n \<le> length buf"
proof -
  let ?q = "parser\<lparr>hp_nread := 0, hp_mark := 0, hp_field_len := 0, hp_field_start := 0\<rparr>"
  obtain p cs' q evs' where s: "ragel_scan (request_machine (hp_uri_relaxed parser \<noteq> 0) buf) (hp_cs parser) 0 buf (?q, []) = (p, cs', q, evs')"
    by (metis prod_cases4)
  have "scan_ok buf (hp_cs parser) 0 (?q, [])"
    using b cs body by (simp add: scan_ok_def offsets_ok_def field_set_def)
  from scan_offsets [OF this _ b(2) s] obtain p'' where o: "offsets_ok buf p'' (q, evs')" by auto
  have p: "p \<le> length buf" using ragel_scan_position [OF s] by simp
  then have "unat (of_nat p :: u64) = p" using b(2) by (simp add: unsigned_of_nat take_bit_nat_eq_self)
  then show ?thesis
    using e s o p b by (auto simp: http_parser_execute_def http_parser_asserts_def offsets_ok_def Let_def split: if_splits)
qed

section \<open>Properties\<close>

text \<open>
  C6. The request parser stays inside its buffer: whatever bytes a read brings, if the call does not go on inside a
  query that an earlier read began, every callback gets a string of the buffer and all assertions at the end of
  \<open>http_parser_execute\<close> hold.
\<close>

theorem request_parser_in_bounds:
  assumes "http_parser_execute parser buf = (n, parser', evs)" and "buf \<noteq> []" "length buf < 2 ^ 64"
    and "\<not> in_query (hp_cs parser)" and "unat (hp_body_start parser) \<le> length buf"
  shows "list_all event_ok evs \<and> http_parser_asserts parser' buf \<and> n \<le> length buf"
  using assms by (rule execute_offsets)

lemmas request_eval = http_parser_execute_def http_parser_init_def http_parser_has_error_def http_parser_is_finished_def
  http_parser_finish_def http_parser_start_def http_parser_error_def http_parser_first_final_def request_machine_def
  request_cases_def request_cases_1_def request_cases_2_def request_cases_3_def request_cases_4_def request_cases_5_def
  request_cases_6_def request_cases_7_def request_cases_8_def request_cases_24_def widen_def schar_def
  request_trs_def request_table_def request_trs_1_def request_trs_2_def request_trs_3_def request_trs_4_def request_trs_5_def
  request_trs_6_def request_trs_7_def request_trs_8_def request_trs_23_def request_trs_26_def request_trs_27_def
  ptr_to_def len_from_def pos_def crlf_def

text \<open>Inside a query the next read goes wrong: \<open>query_start\<close> still counts from the start of the read before, so the
  length handed to \<open>on_request_query\<close> wraps around to almost \<open>2 ^ 64\<close>.
\<close>

theorem split_query_overruns:
  "case http_parser_execute (http_parser_init parser) ''GET /?abc'' of (n, parser1, evs1) \<Rightarrow>
     case http_parser_execute parser1 ''d HTTP/1.1'' of (m, parser2, evs2) \<Rightarrow>
       evs2 = [OnQuery ''/1.1'' (2 ^ 64 - 5), OnUri ''d HTTP/1.1'' 1]"
  by (simp add: request_eval)


lemma get_callback: "CharsToHttpMethod (''GET'' @ t) = GET"
  using method_round_trip [of GET t] by (simp add: HttpMethodToString_def method_num_def s_method_string_def HTTP_METHOD_MAP_def)

lemma version_callback: "strncmp (''HTTP/1.1'' @ t) ''HTTP/1.1'' 8 = 0"
  by (simp add: strncmp_eq_0 cstr_def)

lemmas callback_eval = request_execute_def on_request_method_def on_request_path_def on_request_version_def
  on_request_http_field_def HttpRequestParser_def HttpRequestParser_new_def HttpRequest_def
  get_callback [simplified] version_callback [simplified]


text \<open>The control bytes are part of a field name for the machine, so a line end inside a name is kept.\<close>

theorem header_name_with_line_end:
  "case request_execute http_parser_execute (HttpRequestParser_new parser)
      (''GET / HTTP/1.1'' @ crlf @ ''a'' @ crlf @ ''b: c'' @ crlf @ crlf) of (n, p1, rest1) \<Rightarrow>
     http_parser_finish (pr_parser p1) = 1 \<and> pr_data p1 = setHeader (HttpRequest 0x11 True) (''a'' @ crlf @ ''b'') ''c''"
  by (simp add: request_eval callback_eval)

section \<open>Witness\<close>

theorem request_parser_in_bounds_witness:
  "\<forall>parser. case http_parser_execute (http_parser_init parser) ''GET /?abc'' of (n, parser', evs) \<Rightarrow>
     list_all event_ok evs \<and> http_parser_asserts parser' ''GET /?abc''"
proof
  fix parser
  obtain n parser' evs where e: "http_parser_execute (http_parser_init parser) ''GET /?abc'' = (n, parser', evs)"
    by (metis prod_cases3)
  have "\<not> in_query (hp_cs (http_parser_init parser))" "unat (hp_body_start (http_parser_init parser)) \<le> length ''GET /?abc''"
    by (simp_all add: http_parser_init_def http_parser_start_def in_query_def)
  from request_parser_in_bounds [OF e _ _ this]
  show "case http_parser_execute (http_parser_init parser) ''GET /?abc'' of (n, parser', evs) \<Rightarrow>
     list_all event_ok evs \<and> http_parser_asserts parser' ''GET /?abc''"
    by (simp add: e)
qed

end
