(* ===== verification/Httpclient_Machine.thy ===== *)
theory Httpclient_Machine
  imports Ragel
begin

text \<open>
  The machine Ragel wrote for \<open>src/include/http/httpclient_parser.rl\<close>: the states and transitions of
  \<open>httpclient_parser_execute\<close> in \<open>httpclient_parser.rl.cc\<close>, in the order of the file. \<open>response_cases_k\<close>
  holds the \<open>case\<close> labels of a stretch of the code and \<open>response_trs_k\<close> its \<open>tr\<close> labels.
\<close>

section \<open>Actions\<close>

datatype response_action =
    Rsp_mark | Rsp_chunk_size | Rsp_done | Rsp_write_field | Rsp_start_value | Rsp_write_value |
      Rsp_write_connection_close | Rsp_start_field | Rsp_http_version | Rsp_status_code | Rsp_reason_phrase |
      Rsp_trans_chunked | Rsp_write_content_len

section \<open>States and transitions\<close>

definition response_cases_1 :: "int \<Rightarrow> int \<Rightarrow> jump" where
  "response_cases_1 cs c =
   (if cs = 1 then
     (if c = 72 then Tr 2 else if c < 65 then (if 48 \<le> c \<and> c \<le> 57 then Tr 0 else St 0) else if c > 70
     then (if 97 \<le> c \<and> c \<le> 102 then Tr 0 else St 0) else Tr 0)
    else if cs = 2 then
      (switch c [(10, Tr 3), (13, Tr 4), (59, Tr 6)]
      (if c < 65 then (if 48 \<le> c \<and> c \<le> 57 then St 2 else St 0) else if c > 70 then (if 97 \<le> c \<and>
      c \<le> 102 then St 2 else St 0) else St 2))
    else if cs = 120 then
      (St 0)
    else St 0)"

definition response_trs_1 :: "(int \<times> response_action list \<times> int) list" where
  "response_trs_1 =
    [(0, [Rsp_mark], 2), (3, [Rsp_chunk_size, Rsp_done], 120), (7, [Rsp_done], 120), (9, [Rsp_write_field,
      Rsp_start_value, Rsp_write_value, Rsp_done], 120), (15, [Rsp_write_value, Rsp_done], 120), (74,
      [Rsp_write_connection_close, Rsp_done], 120), (4, [Rsp_chunk_size], 3)]"

definition response_cases_2 :: "int \<Rightarrow> int \<Rightarrow> jump" where
  "response_cases_2 cs c =
   (if cs = 3 then
     (if c = 10 then Tr 7 else St 0)
    else if cs = 4 then
      (switch c [(33, Tr 8), (124, Tr 8), (126, Tr 8)]
      (if c < 45 then (if c > 39 then (if 42 \<le> c \<and> c \<le> 43 then Tr 8 else St 0) else if c \<ge> 35 then
      Tr 8 else St 0) else if c > 46 then (if c < 65 then (if 48 \<le> c \<and> c \<le> 57 then Tr 8 else St 0) else
      if c > 90 then (if 94 \<le> c \<and> c \<le> 122 then Tr 8 else St 0) else Tr 8) else Tr 8))
    else if cs = 5 then
      (switch c [(10, Tr 9), (13, Tr 10), (33, St 5), (59, Tr 12), (61, Tr 13), (124, St 5), (126, St 5)]
      (if c < 45 then (if c > 39 then (if 42 \<le> c \<and> c \<le> 43 then St 5 else St 0) else if c \<ge> 35 then
      St 5 else St 0) else if c > 46 then (if c < 65 then (if 48 \<le> c \<and> c \<le> 57 then St 5 else St 0) else
      if c > 90 then (if 94 \<le> c \<and> c \<le> 122 then St 5 else St 0) else St 5) else St 5))
    else St 0)"

definition response_trs_2 :: "(int \<times> response_action list \<times> int) list" where
  "response_trs_2 =
    [(10, [Rsp_write_field, Rsp_start_value, Rsp_write_value], 3), (16, [Rsp_write_value], 3), (75,
      [Rsp_write_connection_close], 3), (6, [Rsp_chunk_size], 4), (12, [Rsp_write_field, Rsp_start_value,
      Rsp_write_value], 4), (18, [Rsp_write_value], 4), (8, [Rsp_start_field], 5), (13, [Rsp_write_field,
      Rsp_start_value], 6)]"

definition response_cases_3 :: "int \<Rightarrow> int \<Rightarrow> jump" where
  "response_cases_3 cs c =
   (if cs = 6 then
     (switch c [(33, Tr 14), (124, Tr 14), (126, Tr 14)]
     (if c < 45 then (if c > 39 then (if 42 \<le> c \<and> c \<le> 43 then Tr 14 else St 0) else if c \<ge> 35 then
     Tr 14 else St 0) else if c > 46 then (if c < 65 then (if 48 \<le> c \<and> c \<le> 57 then Tr 14 else St 0) else
     if c > 90 then (if 94 \<le> c \<and> c \<le> 122 then Tr 14 else St 0) else Tr 14) else Tr 14))
    else if cs = 7 then
      (switch c [(10, Tr 15), (13, Tr 16), (33, St 7), (59, Tr 18), (124, St 7), (126, St 7)]
      (if c < 45 then (if c > 39 then (if 42 \<le> c \<and> c \<le> 43 then St 7 else St 0) else if c \<ge> 35 then
      St 7 else St 0) else if c > 46 then (if c < 65 then (if 48 \<le> c \<and> c \<le> 57 then St 7 else St 0) else
      if c > 90 then (if 94 \<le> c \<and> c \<le> 122 then St 7 else St 0) else St 7) else St 7))
    else if cs = 8 then
      (if c = 84 then St 9 else St 0)
    else if cs = 9 then
      (if c = 84 then St 10 else St 0)
    else if cs = 10 then
      (if c = 80 then St 11 else St 0)
    else if cs = 11 then
      (if c = 47 then St 12 else St 0)
    else if cs = 12 then
      (if 48 \<le> c \<and> c \<le> 57 then St 13 else St 0)
    else if cs = 13 then
      (if c = 46 then St 14 else if 48 \<le> c \<and> c \<le> 57 then St 13 else St 0)
    else if cs = 14 then
      (if 48 \<le> c \<and> c \<le> 57 then St 15 else St 0)
    else if cs = 15 then
      (if c = 32 then Tr 26 else if 48 \<le> c \<and> c \<le> 57 then St 15 else St 0)
    else if cs = 16 then
      (if 48 \<le> c \<and> c \<le> 57 then Tr 27 else St 0)
    else St 0)"

definition response_trs_3 :: "(int \<times> response_action list \<times> int) list" where
  "response_trs_3 =
    [(14, [Rsp_start_value], 7), (2, [Rsp_mark], 8), (26, [Rsp_http_version], 16), (27, [Rsp_mark], 17)]"

definition response_cases_4 :: "int \<Rightarrow> int \<Rightarrow> jump" where
  "response_cases_4 cs c =
   (if cs = 17 then
     (if c = 32 then Tr 28 else if 48 \<le> c \<and> c \<le> 57 then St 17 else St 0)
    else if cs = 18 then
      (if c = 10 then St 0 else Tr 30)
    else if cs = 19 then
      (switch c [(10, Tr 32), (13, Tr 33)]
      (St 19))
    else if cs = 20 then
      (switch c [(10, Tr 7), (13, St 3), (33, Tr 35), (67, Tr 36), (84, Tr 37), (99, Tr 36), (116, Tr 37), (124, Tr
      35), (126, Tr 35)]
      (if c < 45 then (if c > 39 then (if 42 \<le> c \<and> c \<le> 43 then Tr 35 else St 0) else if c \<ge> 35 then
      Tr 35 else St 0) else if c > 46 then (if c < 65 then (if 48 \<le> c \<and> c \<le> 57 then Tr 35 else St 0)
      else if c > 90 then (if 94 \<le> c \<and> c \<le> 122 then Tr 35 else St 0) else Tr 35) else Tr 35))
    else St 0)"

definition response_trs_4 :: "(int \<times> response_action list \<times> int) list" where
  "response_trs_4 =
    [(28, [Rsp_status_code], 18), (30, [Rsp_mark], 19), (45, [Rsp_write_value], 20), (32, [Rsp_reason_phrase], 20),
      (42, [Rsp_start_value, Rsp_write_value], 20), (111, [Rsp_write_value, Rsp_trans_chunked], 20), (113,
      [Rsp_trans_chunked], 20), (158, [Rsp_write_content_len, Rsp_write_value], 20), (35, [Rsp_start_field], 21),
      (76, [Rsp_write_connection_close, Rsp_start_field], 21)]"

definition response_cases_5 :: "int \<Rightarrow> int \<Rightarrow> jump" where
  "response_cases_5 cs c =
   (if cs = 21 then
     (switch c [(33, St 21), (58, Tr 39), (124, St 21), (126, St 21)]
     (if c < 45 then (if c > 39 then (if 42 \<le> c \<and> c \<le> 43 then St 21 else St 0) else if c \<ge> 35 then
     St 21 else St 0) else if c > 46 then (if c < 65 then (if 48 \<le> c \<and> c \<le> 57 then St 21 else St 0) else
     if c > 90 then (if 94 \<le> c \<and> c \<le> 122 then St 21 else St 0) else St 21) else St 21))
    else if cs = 22 then
      (switch c [(10, Tr 42), (13, Tr 43), (32, Tr 41)]
      (if 9 \<le> c \<and> c \<le> 12 then Tr 41 else Tr 40))
    else if cs = 23 then
      (switch c [(10, Tr 45), (13, Tr 46)]
      (St 23))
    else if cs = 24 then
      (if c = 10 then St 20 else St 0)
    else St 0)"

definition response_trs_5 :: "(int \<times> response_action list \<times> int) list" where
  "response_trs_5 =
    [(41, [Rsp_start_value], 22), (39, [Rsp_write_field], 22), (40, [Rsp_start_value], 23), (46, [Rsp_write_value],
      24), (33, [Rsp_reason_phrase], 24), (43, [Rsp_start_value, Rsp_write_value], 24), (159, [Rsp_write_content_len,
      Rsp_write_value], 24), (36, [Rsp_start_field], 25), (77, [Rsp_write_connection_close, Rsp_start_field], 25)]"

definition response_cases_6 :: "int \<Rightarrow> int \<Rightarrow> jump" where
  "response_cases_6 cs c =
   (if cs = 25 then
     (switch c [(33, St 21), (58, Tr 39), (79, St 26), (111, St 26), (124, St 21), (126, St 21)]
     (if c < 45 then (if c > 39 then (if 42 \<le> c \<and> c \<le> 43 then St 21 else St 0) else if c \<ge> 35 then
     St 21 else St 0) else if c > 46 then (if c < 65 then (if 48 \<le> c \<and> c \<le> 57 then St 21 else St 0) else
     if c > 90 then (if 94 \<le> c \<and> c \<le> 122 then St 21 else St 0) else St 21) else St 21))
    else if cs = 26 then
      (switch c [(33, St 21), (58, Tr 39), (78, St 27), (110, St 27), (124, St 21), (126, St 21)]
      (if c < 45 then (if c > 39 then (if 42 \<le> c \<and> c \<le> 43 then St 21 else St 0) else if c \<ge> 35 then
      St 21 else St 0) else if c > 46 then (if c < 65 then (if 48 \<le> c \<and> c \<le> 57 then St 21 else St 0)
      else if c > 90 then (if 94 \<le> c \<and> c \<le> 122 then St 21 else St 0) else St 21) else St 21))
    else if cs = 27 then
      (switch c [(33, St 21), (58, Tr 39), (78, St 28), (84, St 101), (110, St 28), (116, St 101), (124, St 21),
      (126, St 21)]
      (if c < 45 then (if c > 39 then (if 42 \<le> c \<and> c \<le> 43 then St 21 else St 0) else if c \<ge> 35 then
      St 21 else St 0) else if c > 46 then (if c < 65 then (if 48 \<le> c \<and> c \<le> 57 then St 21 else St 0)
      else if c > 90 then (if 94 \<le> c \<and> c \<le> 122 then St 21 else St 0) else St 21) else St 21))
    else if cs = 28 then
      (switch c [(33, St 21), (58, Tr 39), (69, St 29), (101, St 29), (124, St 21), (126, St 21)]
      (if c < 45 then (if c > 39 then (if 42 \<le> c \<and> c \<le> 43 then St 21 else St 0) else if c \<ge> 35 then
      St 21 else St 0) else if c > 46 then (if c < 65 then (if 48 \<le> c \<and> c \<le> 57 then St 21 else St 0)
      else if c > 90 then (if 94 \<le> c \<and> c \<le> 122 then St 21 else St 0) else St 21) else St 21))
    else St 0)"

definition response_cases_7 :: "int \<Rightarrow> int \<Rightarrow> jump" where
  "response_cases_7 cs c =
   (if cs = 29 then
     (switch c [(33, St 21), (58, Tr 39), (67, St 30), (99, St 30), (124, St 21), (126, St 21)]
     (if c < 45 then (if c > 39 then (if 42 \<le> c \<and> c \<le> 43 then St 21 else St 0) else if c \<ge> 35 then
     St 21 else St 0) else if c > 46 then (if c < 65 then (if 48 \<le> c \<and> c \<le> 57 then St 21 else St 0) else
     if c > 90 then (if 94 \<le> c \<and> c \<le> 122 then St 21 else St 0) else St 21) else St 21))
    else if cs = 30 then
      (switch c [(33, St 21), (58, Tr 39), (84, St 31), (116, St 31), (124, St 21), (126, St 21)]
      (if c < 45 then (if c > 39 then (if 42 \<le> c \<and> c \<le> 43 then St 21 else St 0) else if c \<ge> 35 then
      St 21 else St 0) else if c > 46 then (if c < 65 then (if 48 \<le> c \<and> c \<le> 57 then St 21 else St 0)
      else if c > 90 then (if 94 \<le> c \<and> c \<le> 122 then St 21 else St 0) else St 21) else St 21))
    else if cs = 31 then
      (switch c [(33, St 21), (58, Tr 39), (73, St 32), (105, St 32), (124, St 21), (126, St 21)]
      (if c < 45 then (if c > 39 then (if 42 \<le> c \<and> c \<le> 43 then St 21 else St 0) else if c \<ge> 35 then
      St 21 else St 0) else if c > 46 then (if c < 65 then (if 48 \<le> c \<and> c \<le> 57 then St 21 else St 0)
      else if c > 90 then (if 94 \<le> c \<and> c \<le> 122 then St 21 else St 0) else St 21) else St 21))
    else if cs = 32 then
      (switch c [(33, St 21), (58, Tr 39), (79, St 33), (111, St 33), (124, St 21), (126, St 21)]
      (if c < 45 then (if c > 39 then (if 42 \<le> c \<and> c \<le> 43 then St 21 else St 0) else if c \<ge> 35 then
      St 21 else St 0) else if c > 46 then (if c < 65 then (if 48 \<le> c \<and> c \<le> 57 then St 21 else St 0)
      else if c > 90 then (if 94 \<le> c \<and> c \<le> 122 then St 21 else St 0) else St 21) else St 21))
    else if cs = 33 then
      (switch c [(33, St 21), (58, Tr 39), (78, St 34), (110, St 34), (124, St 21), (126, St 21)]
      (if c < 45 then (if c > 39 then (if 42 \<le> c \<and> c \<le> 43 then St 21 else St 0) else if c \<ge> 35 then
      St 21 else St 0) else if c > 46 then (if c < 65 then (if 48 \<le> c \<and> c \<le> 57 then St 21 else St 0)
      else if c > 90 then (if 94 \<le> c \<and> c \<le> 122 then St 21 else St 0) else St 21) else St 21))
    else St 0)"

definition response_cases_8 :: "int \<Rightarrow> int \<Rightarrow> jump" where
  "response_cases_8 cs c =
   (if cs = 34 then
     (switch c [(33, St 21), (58, Tr 58), (124, St 21), (126, St 21)]
     (if c < 45 then (if c > 39 then (if 42 \<le> c \<and> c \<le> 43 then St 21 else St 0) else if c \<ge> 35 then
     St 21 else St 0) else if c > 46 then (if c < 65 then (if 48 \<le> c \<and> c \<le> 57 then St 21 else St 0) else
     if c > 90 then (if 94 \<le> c \<and> c \<le> 122 then St 21 else St 0) else St 21) else St 21))
    else if cs = 35 then
      (switch c [(10, Tr 60), (13, Tr 61), (32, Tr 59), (67, Tr 62), (99, Tr 62)]
      (if 9 \<le> c \<and> c \<le> 12 then Tr 59 else Tr 40))
    else if cs = 36 then
      (switch c [(10, Tr 64), (13, St 89), (32, St 37), (33, Tr 35), (67, Tr 66), (84, Tr 37), (99, Tr 66), (116, Tr
      37), (124, Tr 35), (126, Tr 35)]
      (if c < 45 then (if c < 35 then (if 9 \<le> c \<and> c \<le> 12 then St 37 else St 0) else if c > 39 then (if
      42 \<le> c \<and> c \<le> 43 then Tr 35 else St 0) else Tr 35) else if c > 46 then (if c < 65 then (if 48 \<le>
      c \<and> c \<le> 57 then Tr 35 else St 0) else if c > 90 then (if 94 \<le> c \<and> c \<le> 122 then Tr 35 else
      St 0) else Tr 35) else Tr 35))
    else if cs = 37 then
      (switch c [(32, St 37), (67, St 38), (99, St 38)]
      (if 9 \<le> c \<and> c \<le> 13 then St 37 else St 0))
    else if cs = 38 then
      (switch c [(76, St 39), (108, St 39)]
      (St 0))
    else if cs = 39 then
      (switch c [(79, St 40), (111, St 40)]
      (St 0))
    else if cs = 40 then
      (switch c [(83, St 41), (115, St 41)]
      (St 0))
    else if cs = 41 then
      (switch c [(69, St 42), (101, St 42)]
      (St 0))
    else St 0)"

definition response_trs_8 :: "(int \<times> response_action list \<times> int) list" where
  "response_trs_8 =
    [(59, [Rsp_start_value], 35), (58, [Rsp_write_field], 35), (60, [Rsp_start_value, Rsp_write_value], 36)]"

definition response_cases_9 :: "int \<Rightarrow> int \<Rightarrow> jump" where
  "response_cases_9 cs c =
   (if cs = 42 then
     (switch c [(10, St 43), (13, St 88)]
     (St 0))
    else if cs = 43 then
      (switch c [(10, Tr 74), (13, Tr 75), (33, Tr 76), (67, Tr 77), (84, Tr 78), (99, Tr 77), (116, Tr 78), (124, Tr
      76), (126, Tr 76)]
      (if c < 45 then (if c > 39 then (if 42 \<le> c \<and> c \<le> 43 then Tr 76 else St 0) else if c \<ge> 35 then
      Tr 76 else St 0) else if c > 46 then (if c < 65 then (if 48 \<le> c \<and> c \<le> 57 then Tr 76 else St 0)
      else if c > 90 then (if 94 \<le> c \<and> c \<le> 122 then Tr 76 else St 0) else Tr 76) else Tr 76))
    else if cs = 44 then
      (switch c [(33, St 21), (58, Tr 39), (82, St 45), (114, St 45), (124, St 21), (126, St 21)]
      (if c < 45 then (if c > 39 then (if 42 \<le> c \<and> c \<le> 43 then St 21 else St 0) else if c \<ge> 35 then
      St 21 else St 0) else if c > 46 then (if c < 65 then (if 48 \<le> c \<and> c \<le> 57 then St 21 else St 0)
      else if c > 90 then (if 94 \<le> c \<and> c \<le> 122 then St 21 else St 0) else St 21) else St 21))
    else if cs = 45 then
      (switch c [(33, St 21), (58, Tr 39), (65, St 46), (97, St 46), (124, St 21), (126, St 21)]
      (if c < 45 then (if c > 39 then (if 42 \<le> c \<and> c \<le> 43 then St 21 else St 0) else if c \<ge> 35 then
      St 21 else St 0) else if c > 46 then (if c < 66 then (if 48 \<le> c \<and> c \<le> 57 then St 21 else St 0)
      else if c > 90 then (if 94 \<le> c \<and> c \<le> 122 then St 21 else St 0) else St 21) else St 21))
    else St 0)"

definition response_trs_9 :: "(int \<times> response_action list \<times> int) list" where
  "response_trs_9 =
    [(136, [Rsp_write_value], 43), (37, [Rsp_start_field], 44), (78, [Rsp_write_connection_close, Rsp_start_field],
      44)]"

definition response_cases_10 :: "int \<Rightarrow> int \<Rightarrow> jump" where
  "response_cases_10 cs c =
   (if cs = 46 then
     (switch c [(33, St 21), (58, Tr 39), (78, St 47), (110, St 47), (124, St 21), (126, St 21)]
     (if c < 45 then (if c > 39 then (if 42 \<le> c \<and> c \<le> 43 then St 21 else St 0) else if c \<ge> 35 then
     St 21 else St 0) else if c > 46 then (if c < 65 then (if 48 \<le> c \<and> c \<le> 57 then St 21 else St 0) else
     if c > 90 then (if 94 \<le> c \<and> c \<le> 122 then St 21 else St 0) else St 21) else St 21))
    else if cs = 47 then
      (switch c [(33, St 21), (58, Tr 39), (83, St 48), (115, St 48), (124, St 21), (126, St 21)]
      (if c < 45 then (if c > 39 then (if 42 \<le> c \<and> c \<le> 43 then St 21 else St 0) else if c \<ge> 35 then
      St 21 else St 0) else if c > 46 then (if c < 65 then (if 48 \<le> c \<and> c \<le> 57 then St 21 else St 0)
      else if c > 90 then (if 94 \<le> c \<and> c \<le> 122 then St 21 else St 0) else St 21) else St 21))
    else if cs = 48 then
      (switch c [(33, St 21), (58, Tr 39), (70, St 49), (102, St 49), (124, St 21), (126, St 21)]
      (if c < 45 then (if c > 39 then (if 42 \<le> c \<and> c \<le> 43 then St 21 else St 0) else if c \<ge> 35 then
      St 21 else St 0) else if c > 46 then (if c < 65 then (if 48 \<le> c \<and> c \<le> 57 then St 21 else St 0)
      else if c > 90 then (if 94 \<le> c \<and> c \<le> 122 then St 21 else St 0) else St 21) else St 21))
    else if cs = 49 then
      (switch c [(33, St 21), (58, Tr 39), (69, St 50), (101, St 50), (124, St 21), (126, St 21)]
      (if c < 45 then (if c > 39 then (if 42 \<le> c \<and> c \<le> 43 then St 21 else St 0) else if c \<ge> 35 then
      St 21 else St 0) else if c > 46 then (if c < 65 then (if 48 \<le> c \<and> c \<le> 57 then St 21 else St 0)
      else if c > 90 then (if 94 \<le> c \<and> c \<le> 122 then St 21 else St 0) else St 21) else St 21))
    else if cs = 50 then
      (switch c [(33, St 21), (58, Tr 39), (82, St 51), (114, St 51), (124, St 21), (126, St 21)]
      (if c < 45 then (if c > 39 then (if 42 \<le> c \<and> c \<le> 43 then St 21 else St 0) else if c \<ge> 35 then
      St 21 else St 0) else if c > 46 then (if c < 65 then (if 48 \<le> c \<and> c \<le> 57 then St 21 else St 0)
      else if c > 90 then (if 94 \<le> c \<and> c \<le> 122 then St 21 else St 0) else St 21) else St 21))
    else St 0)"

definition response_cases_11 :: "int \<Rightarrow> int \<Rightarrow> jump" where
  "response_cases_11 cs c =
   (if cs = 51 then
     (switch c [(33, St 21), (45, St 52), (46, St 21), (58, Tr 39), (124, St 21), (126, St 21)]
     (if c < 48 then (if c > 39 then (if 42 \<le> c \<and> c \<le> 43 then St 21 else St 0) else if c \<ge> 35 then
     St 21 else St 0) else if c > 57 then (if c > 90 then (if 94 \<le> c \<and> c \<le> 122 then St 21 else St 0)
     else if c \<ge> 65 then St 21 else St 0) else St 21))
    else if cs = 52 then
      (switch c [(33, St 21), (58, Tr 39), (69, St 53), (101, St 53), (124, St 21), (126, St 21)]
      (if c < 45 then (if c > 39 then (if 42 \<le> c \<and> c \<le> 43 then St 21 else St 0) else if c \<ge> 35 then
      St 21 else St 0) else if c > 46 then (if c < 65 then (if 48 \<le> c \<and> c \<le> 57 then St 21 else St 0)
      else if c > 90 then (if 94 \<le> c \<and> c \<le> 122 then St 21 else St 0) else St 21) else St 21))
    else if cs = 53 then
      (switch c [(33, St 21), (58, Tr 39), (78, St 54), (110, St 54), (124, St 21), (126, St 21)]
      (if c < 45 then (if c > 39 then (if 42 \<le> c \<and> c \<le> 43 then St 21 else St 0) else if c \<ge> 35 then
      St 21 else St 0) else if c > 46 then (if c < 65 then (if 48 \<le> c \<and> c \<le> 57 then St 21 else St 0)
      else if c > 90 then (if 94 \<le> c \<and> c \<le> 122 then St 21 else St 0) else St 21) else St 21))
    else if cs = 54 then
      (switch c [(33, St 21), (58, Tr 39), (67, St 55), (99, St 55), (124, St 21), (126, St 21)]
      (if c < 45 then (if c > 39 then (if 42 \<le> c \<and> c \<le> 43 then St 21 else St 0) else if c \<ge> 35 then
      St 21 else St 0) else if c > 46 then (if c < 65 then (if 48 \<le> c \<and> c \<le> 57 then St 21 else St 0)
      else if c > 90 then (if 94 \<le> c \<and> c \<le> 122 then St 21 else St 0) else St 21) else St 21))
    else if cs = 55 then
      (switch c [(33, St 21), (58, Tr 39), (79, St 56), (111, St 56), (124, St 21), (126, St 21)]
      (if c < 45 then (if c > 39 then (if 42 \<le> c \<and> c \<le> 43 then St 21 else St 0) else if c \<ge> 35 then
      St 21 else St 0) else if c > 46 then (if c < 65 then (if 48 \<le> c \<and> c \<le> 57 then St 21 else St 0)
      else if c > 90 then (if 94 \<le> c \<and> c \<le> 122 then St 21 else St 0) else St 21) else St 21))
    else St 0)"

definition response_cases_12 :: "int \<Rightarrow> int \<Rightarrow> jump" where
  "response_cases_12 cs c =
   (if cs = 56 then
     (switch c [(33, St 21), (58, Tr 39), (68, St 57), (100, St 57), (124, St 21), (126, St 21)]
     (if c < 45 then (if c > 39 then (if 42 \<le> c \<and> c \<le> 43 then St 21 else St 0) else if c \<ge> 35 then
     St 21 else St 0) else if c > 46 then (if c < 65 then (if 48 \<le> c \<and> c \<le> 57 then St 21 else St 0) else
     if c > 90 then (if 94 \<le> c \<and> c \<le> 122 then St 21 else St 0) else St 21) else St 21))
    else if cs = 57 then
      (switch c [(33, St 21), (58, Tr 39), (73, St 58), (105, St 58), (124, St 21), (126, St 21)]
      (if c < 45 then (if c > 39 then (if 42 \<le> c \<and> c \<le> 43 then St 21 else St 0) else if c \<ge> 35 then
      St 21 else St 0) else if c > 46 then (if c < 65 then (if 48 \<le> c \<and> c \<le> 57 then St 21 else St 0)
      else if c > 90 then (if 94 \<le> c \<and> c \<le> 122 then St 21 else St 0) else St 21) else St 21))
    else if cs = 58 then
      (switch c [(33, St 21), (58, Tr 39), (78, St 59), (110, St 59), (124, St 21), (126, St 21)]
      (if c < 45 then (if c > 39 then (if 42 \<le> c \<and> c \<le> 43 then St 21 else St 0) else if c \<ge> 35 then
      St 21 else St 0) else if c > 46 then (if c < 65 then (if 48 \<le> c \<and> c \<le> 57 then St 21 else St 0)
      else if c > 90 then (if 94 \<le> c \<and> c \<le> 122 then St 21 else St 0) else St 21) else St 21))
    else if cs = 59 then
      (switch c [(33, St 21), (58, Tr 39), (71, St 60), (103, St 60), (124, St 21), (126, St 21)]
      (if c < 45 then (if c > 39 then (if 42 \<le> c \<and> c \<le> 43 then St 21 else St 0) else if c \<ge> 35 then
      St 21 else St 0) else if c > 46 then (if c < 65 then (if 48 \<le> c \<and> c \<le> 57 then St 21 else St 0)
      else if c > 90 then (if 94 \<le> c \<and> c \<le> 122 then St 21 else St 0) else St 21) else St 21))
    else if cs = 60 then
      (switch c [(33, St 21), (58, Tr 95), (124, St 21), (126, St 21)]
      (if c < 45 then (if c > 39 then (if 42 \<le> c \<and> c \<le> 43 then St 21 else St 0) else if c \<ge> 35 then
      St 21 else St 0) else if c > 46 then (if c < 65 then (if 48 \<le> c \<and> c \<le> 57 then St 21 else St 0)
      else if c > 90 then (if 94 \<le> c \<and> c \<le> 122 then St 21 else St 0) else St 21) else St 21))
    else St 0)"

definition response_cases_13 :: "int \<Rightarrow> int \<Rightarrow> jump" where
  "response_cases_13 cs c =
   (if cs = 61 then
     (switch c [(10, Tr 97), (13, Tr 98), (32, Tr 96), (67, Tr 99), (99, Tr 99)]
     (if 9 \<le> c \<and> c \<le> 12 then Tr 96 else Tr 40))
    else if cs = 62 then
      (switch c [(10, Tr 101), (13, St 72), (32, St 63), (33, Tr 35), (67, Tr 103), (84, Tr 37), (99, Tr 103), (116,
      Tr 37), (124, Tr 35), (126, Tr 35)]
      (if c < 45 then (if c < 35 then (if 9 \<le> c \<and> c \<le> 12 then St 63 else St 0) else if c > 39 then (if
      42 \<le> c \<and> c \<le> 43 then Tr 35 else St 0) else Tr 35) else if c > 46 then (if c < 65 then (if 48 \<le>
      c \<and> c \<le> 57 then Tr 35 else St 0) else if c > 90 then (if 94 \<le> c \<and> c \<le> 122 then Tr 35 else
      St 0) else Tr 35) else Tr 35))
    else if cs = 63 then
      (switch c [(32, St 63), (67, Tr 104), (99, Tr 104)]
      (if 9 \<le> c \<and> c \<le> 13 then St 63 else St 0))
    else if cs = 64 then
      (switch c [(72, St 65), (104, St 65)]
      (St 0))
    else if cs = 65 then
      (switch c [(85, St 66), (117, St 66)]
      (St 0))
    else if cs = 66 then
      (switch c [(78, St 67), (110, St 67)]
      (St 0))
    else if cs = 67 then
      (switch c [(75, St 68), (107, St 68)]
      (St 0))
    else if cs = 68 then
      (switch c [(69, St 69), (101, St 69)]
      (St 0))
    else if cs = 69 then
      (switch c [(68, St 70), (100, St 70)]
      (St 0))
    else St 0)"

definition response_trs_13 :: "(int \<times> response_action list \<times> int) list" where
  "response_trs_13 =
    [(96, [Rsp_start_value], 61), (95, [Rsp_write_field], 61), (97, [Rsp_start_value, Rsp_write_value], 62), (104,
      [Rsp_start_value], 64)]"

definition response_cases_14 :: "int \<Rightarrow> int \<Rightarrow> jump" where
  "response_cases_14 cs c =
   (if cs = 70 then
     (switch c [(10, Tr 111), (13, Tr 112)]
     (St 0))
    else if cs = 71 then
      (if c = 10 then Tr 113 else St 0)
    else if cs = 121 then
      (switch c [(32, St 63), (67, Tr 104), (99, Tr 104)]
      (if 9 \<le> c \<and> c \<le> 13 then St 63 else St 0))
    else if cs = 72 then
      (switch c [(10, Tr 101), (32, St 63), (67, Tr 104), (99, Tr 104)]
      (if 9 \<le> c \<and> c \<le> 13 then St 63 else St 0))
    else if cs = 73 then
      (switch c [(33, St 21), (58, Tr 39), (72, St 74), (79, St 26), (104, St 74), (111, St 26), (124, St 21), (126,
      St 21)]
      (if c < 45 then (if c > 39 then (if 42 \<le> c \<and> c \<le> 43 then St 21 else St 0) else if c \<ge> 35 then
      St 21 else St 0) else if c > 46 then (if c < 65 then (if 48 \<le> c \<and> c \<le> 57 then St 21 else St 0)
      else if c > 90 then (if 94 \<le> c \<and> c \<le> 122 then St 21 else St 0) else St 21) else St 21))
    else if cs = 74 then
      (switch c [(33, St 21), (58, Tr 39), (85, St 75), (117, St 75), (124, St 21), (126, St 21)]
      (if c < 45 then (if c > 39 then (if 42 \<le> c \<and> c \<le> 43 then St 21 else St 0) else if c \<ge> 35 then
      St 21 else St 0) else if c > 46 then (if c < 65 then (if 48 \<le> c \<and> c \<le> 57 then St 21 else St 0)
      else if c > 90 then (if 94 \<le> c \<and> c \<le> 122 then St 21 else St 0) else St 21) else St 21))
    else St 0)"

definition response_trs_14 :: "(int \<times> response_action list \<times> int) list" where
  "response_trs_14 =
    [(112, [Rsp_write_value], 71), (101, [Rsp_done], 121), (103, [Rsp_start_value, Rsp_start_field], 73)]"

definition response_cases_15 :: "int \<Rightarrow> int \<Rightarrow> jump" where
  "response_cases_15 cs c =
   (if cs = 75 then
     (switch c [(33, St 21), (58, Tr 39), (78, St 76), (110, St 76), (124, St 21), (126, St 21)]
     (if c < 45 then (if c > 39 then (if 42 \<le> c \<and> c \<le> 43 then St 21 else St 0) else if c \<ge> 35 then
     St 21 else St 0) else if c > 46 then (if c < 65 then (if 48 \<le> c \<and> c \<le> 57 then St 21 else St 0) else
     if c > 90 then (if 94 \<le> c \<and> c \<le> 122 then St 21 else St 0) else St 21) else St 21))
    else if cs = 76 then
      (switch c [(33, St 21), (58, Tr 39), (75, St 77), (107, St 77), (124, St 21), (126, St 21)]
      (if c < 45 then (if c > 39 then (if 42 \<le> c \<and> c \<le> 43 then St 21 else St 0) else if c \<ge> 35 then
      St 21 else St 0) else if c > 46 then (if c < 65 then (if 48 \<le> c \<and> c \<le> 57 then St 21 else St 0)
      else if c > 90 then (if 94 \<le> c \<and> c \<le> 122 then St 21 else St 0) else St 21) else St 21))
    else if cs = 77 then
      (switch c [(33, St 21), (58, Tr 39), (69, St 78), (101, St 78), (124, St 21), (126, St 21)]
      (if c < 45 then (if c > 39 then (if 42 \<le> c \<and> c \<le> 43 then St 21 else St 0) else if c \<ge> 35 then
      St 21 else St 0) else if c > 46 then (if c < 65 then (if 48 \<le> c \<and> c \<le> 57 then St 21 else St 0)
      else if c > 90 then (if 94 \<le> c \<and> c \<le> 122 then St 21 else St 0) else St 21) else St 21))
    else if cs = 78 then
      (switch c [(33, St 21), (58, Tr 39), (68, St 79), (100, St 79), (124, St 21), (126, St 21)]
      (if c < 45 then (if c > 39 then (if 42 \<le> c \<and> c \<le> 43 then St 21 else St 0) else if c \<ge> 35 then
      St 21 else St 0) else if c > 46 then (if c < 65 then (if 48 \<le> c \<and> c \<le> 57 then St 21 else St 0)
      else if c > 90 then (if 94 \<le> c \<and> c \<le> 122 then St 21 else St 0) else St 21) else St 21))
    else if cs = 79 then
      (switch c [(10, Tr 111), (13, Tr 112), (33, St 21), (58, Tr 39), (124, St 21), (126, St 21)]
      (if c < 45 then (if c > 39 then (if 42 \<le> c \<and> c \<le> 43 then St 21 else St 0) else if c \<ge> 35 then
      St 21 else St 0) else if c > 46 then (if c < 65 then (if 48 \<le> c \<and> c \<le> 57 then St 21 else St 0)
      else if c > 90 then (if 94 \<le> c \<and> c \<le> 122 then St 21 else St 0) else St 21) else St 21))
    else St 0)"

definition response_cases_16 :: "int \<Rightarrow> int \<Rightarrow> jump" where
  "response_cases_16 cs c =
   (if cs = 80 then
     (switch c [(10, St 62), (32, St 63), (67, Tr 104), (99, Tr 104)]
     (if 9 \<le> c \<and> c \<le> 13 then St 63 else St 0))
    else if cs = 81 then
      (switch c [(10, Tr 45), (13, Tr 46), (72, St 82), (104, St 82)]
      (St 23))
    else if cs = 82 then
      (switch c [(10, Tr 45), (13, Tr 46), (85, St 83), (117, St 83)]
      (St 23))
    else if cs = 83 then
      (switch c [(10, Tr 45), (13, Tr 46), (78, St 84), (110, St 84)]
      (St 23))
    else if cs = 84 then
      (switch c [(10, Tr 45), (13, Tr 46), (75, St 85), (107, St 85)]
      (St 23))
    else if cs = 85 then
      (switch c [(10, Tr 45), (13, Tr 46), (69, St 86), (101, St 86)]
      (St 23))
    else if cs = 86 then
      (switch c [(10, Tr 45), (13, Tr 46), (68, St 87), (100, St 87)]
      (St 23))
    else if cs = 87 then
      (switch c [(10, Tr 111), (13, Tr 112)]
      (St 23))
    else if cs = 88 then
      (if c = 10 then St 43 else St 0)
    else if cs = 122 then
      (switch c [(32, St 37), (67, St 38), (99, St 38)]
      (if 9 \<le> c \<and> c \<le> 13 then St 37 else St 0))
    else St 0)"

definition response_trs_16 :: "(int \<times> response_action list \<times> int) list" where
  "response_trs_16 =
    [(98, [Rsp_start_value, Rsp_write_value], 80), (99, [Rsp_start_value], 81), (137, [Rsp_write_value], 88), (64,
      [Rsp_done], 122)]"

definition response_cases_17 :: "int \<Rightarrow> int \<Rightarrow> jump" where
  "response_cases_17 cs c =
   (if cs = 89 then
     (switch c [(10, Tr 64), (32, St 37), (67, St 38), (99, St 38)]
     (if 9 \<le> c \<and> c \<le> 13 then St 37 else St 0))
    else if cs = 90 then
      (switch c [(33, St 21), (58, Tr 39), (76, St 91), (79, St 26), (108, St 91), (111, St 26), (124, St 21), (126,
      St 21)]
      (if c < 45 then (if c > 39 then (if 42 \<le> c \<and> c \<le> 43 then St 21 else St 0) else if c \<ge> 35 then
      St 21 else St 0) else if c > 46 then (if c < 65 then (if 48 \<le> c \<and> c \<le> 57 then St 21 else St 0)
      else if c > 90 then (if 94 \<le> c \<and> c \<le> 122 then St 21 else St 0) else St 21) else St 21))
    else if cs = 91 then
      (switch c [(33, St 21), (58, Tr 39), (79, St 92), (111, St 92), (124, St 21), (126, St 21)]
      (if c < 45 then (if c > 39 then (if 42 \<le> c \<and> c \<le> 43 then St 21 else St 0) else if c \<ge> 35 then
      St 21 else St 0) else if c > 46 then (if c < 65 then (if 48 \<le> c \<and> c \<le> 57 then St 21 else St 0)
      else if c > 90 then (if 94 \<le> c \<and> c \<le> 122 then St 21 else St 0) else St 21) else St 21))
    else if cs = 92 then
      (switch c [(33, St 21), (58, Tr 39), (83, St 93), (115, St 93), (124, St 21), (126, St 21)]
      (if c < 45 then (if c > 39 then (if 42 \<le> c \<and> c \<le> 43 then St 21 else St 0) else if c \<ge> 35 then
      St 21 else St 0) else if c > 46 then (if c < 65 then (if 48 \<le> c \<and> c \<le> 57 then St 21 else St 0)
      else if c > 90 then (if 94 \<le> c \<and> c \<le> 122 then St 21 else St 0) else St 21) else St 21))
    else if cs = 93 then
      (switch c [(33, St 21), (58, Tr 39), (69, St 94), (101, St 94), (124, St 21), (126, St 21)]
      (if c < 45 then (if c > 39 then (if 42 \<le> c \<and> c \<le> 43 then St 21 else St 0) else if c \<ge> 35 then
      St 21 else St 0) else if c > 46 then (if c < 65 then (if 48 \<le> c \<and> c \<le> 57 then St 21 else St 0)
      else if c > 90 then (if 94 \<le> c \<and> c \<le> 122 then St 21 else St 0) else St 21) else St 21))
    else St 0)"

definition response_trs_17 :: "(int \<times> response_action list \<times> int) list" where
  "response_trs_17 =
    [(66, [Rsp_start_field], 90)]"

definition response_cases_18 :: "int \<Rightarrow> int \<Rightarrow> jump" where
  "response_cases_18 cs c =
   (if cs = 94 then
     (switch c [(10, St 43), (13, St 88), (33, St 21), (58, Tr 39), (124, St 21), (126, St 21)]
     (if c < 45 then (if c > 39 then (if 42 \<le> c \<and> c \<le> 43 then St 21 else St 0) else if c \<ge> 35 then
     St 21 else St 0) else if c > 46 then (if c < 65 then (if 48 \<le> c \<and> c \<le> 57 then St 21 else St 0) else
     if c > 90 then (if 94 \<le> c \<and> c \<le> 122 then St 21 else St 0) else St 21) else St 21))
    else if cs = 95 then
      (switch c [(10, St 36), (32, St 37), (67, St 38), (99, St 38)]
      (if 9 \<le> c \<and> c \<le> 13 then St 37 else St 0))
    else if cs = 96 then
      (switch c [(10, Tr 45), (13, Tr 46), (76, St 97), (108, St 97)]
      (St 23))
    else if cs = 97 then
      (switch c [(10, Tr 45), (13, Tr 46), (79, St 98), (111, St 98)]
      (St 23))
    else if cs = 98 then
      (switch c [(10, Tr 45), (13, Tr 46), (83, St 99), (115, St 99)]
      (St 23))
    else if cs = 99 then
      (switch c [(10, Tr 45), (13, Tr 46), (69, St 100), (101, St 100)]
      (St 23))
    else if cs = 100 then
      (switch c [(10, Tr 136), (13, Tr 137)]
      (St 23))
    else if cs = 101 then
      (switch c [(33, St 21), (58, Tr 39), (69, St 102), (101, St 102), (124, St 21), (126, St 21)]
      (if c < 45 then (if c > 39 then (if 42 \<le> c \<and> c \<le> 43 then St 21 else St 0) else if c \<ge> 35 then
      St 21 else St 0) else if c > 46 then (if c < 65 then (if 48 \<le> c \<and> c \<le> 57 then St 21 else St 0)
      else if c > 90 then (if 94 \<le> c \<and> c \<le> 122 then St 21 else St 0) else St 21) else St 21))
    else St 0)"

definition response_trs_18 :: "(int \<times> response_action list \<times> int) list" where
  "response_trs_18 =
    [(61, [Rsp_start_value, Rsp_write_value], 95), (62, [Rsp_start_value], 96)]"

definition response_cases_19 :: "int \<Rightarrow> int \<Rightarrow> jump" where
  "response_cases_19 cs c =
   (if cs = 102 then
     (switch c [(33, St 21), (58, Tr 39), (78, St 103), (110, St 103), (124, St 21), (126, St 21)]
     (if c < 45 then (if c > 39 then (if 42 \<le> c \<and> c \<le> 43 then St 21 else St 0) else if c \<ge> 35 then
     St 21 else St 0) else if c > 46 then (if c < 65 then (if 48 \<le> c \<and> c \<le> 57 then St 21 else St 0) else
     if c > 90 then (if 94 \<le> c \<and> c \<le> 122 then St 21 else St 0) else St 21) else St 21))
    else if cs = 103 then
      (switch c [(33, St 21), (58, Tr 39), (84, St 104), (116, St 104), (124, St 21), (126, St 21)]
      (if c < 45 then (if c > 39 then (if 42 \<le> c \<and> c \<le> 43 then St 21 else St 0) else if c \<ge> 35 then
      St 21 else St 0) else if c > 46 then (if c < 65 then (if 48 \<le> c \<and> c \<le> 57 then St 21 else St 0)
      else if c > 90 then (if 94 \<le> c \<and> c \<le> 122 then St 21 else St 0) else St 21) else St 21))
    else if cs = 104 then
      (switch c [(33, St 21), (45, St 105), (46, St 21), (58, Tr 39), (124, St 21), (126, St 21)]
      (if c < 48 then (if c > 39 then (if 42 \<le> c \<and> c \<le> 43 then St 21 else St 0) else if c \<ge> 35 then
      St 21 else St 0) else if c > 57 then (if c > 90 then (if 94 \<le> c \<and> c \<le> 122 then St 21 else St 0)
      else if c \<ge> 65 then St 21 else St 0) else St 21))
    else if cs = 105 then
      (switch c [(33, St 21), (58, Tr 39), (76, St 106), (108, St 106), (124, St 21), (126, St 21)]
      (if c < 45 then (if c > 39 then (if 42 \<le> c \<and> c \<le> 43 then St 21 else St 0) else if c \<ge> 35 then
      St 21 else St 0) else if c > 46 then (if c < 65 then (if 48 \<le> c \<and> c \<le> 57 then St 21 else St 0)
      else if c > 90 then (if 94 \<le> c \<and> c \<le> 122 then St 21 else St 0) else St 21) else St 21))
    else if cs = 106 then
      (switch c [(33, St 21), (58, Tr 39), (69, St 107), (101, St 107), (124, St 21), (126, St 21)]
      (if c < 45 then (if c > 39 then (if 42 \<le> c \<and> c \<le> 43 then St 21 else St 0) else if c \<ge> 35 then
      St 21 else St 0) else if c > 46 then (if c < 65 then (if 48 \<le> c \<and> c \<le> 57 then St 21 else St 0)
      else if c > 90 then (if 94 \<le> c \<and> c \<le> 122 then St 21 else St 0) else St 21) else St 21))
    else St 0)"

definition response_cases_20 :: "int \<Rightarrow> int \<Rightarrow> jump" where
  "response_cases_20 cs c =
   (if cs = 107 then
     (switch c [(33, St 21), (58, Tr 39), (78, St 108), (110, St 108), (124, St 21), (126, St 21)]
     (if c < 45 then (if c > 39 then (if 42 \<le> c \<and> c \<le> 43 then St 21 else St 0) else if c \<ge> 35 then
     St 21 else St 0) else if c > 46 then (if c < 65 then (if 48 \<le> c \<and> c \<le> 57 then St 21 else St 0) else
     if c > 90 then (if 94 \<le> c \<and> c \<le> 122 then St 21 else St 0) else St 21) else St 21))
    else if cs = 108 then
      (switch c [(33, St 21), (58, Tr 39), (71, St 109), (103, St 109), (124, St 21), (126, St 21)]
      (if c < 45 then (if c > 39 then (if 42 \<le> c \<and> c \<le> 43 then St 21 else St 0) else if c \<ge> 35 then
      St 21 else St 0) else if c > 46 then (if c < 65 then (if 48 \<le> c \<and> c \<le> 57 then St 21 else St 0)
      else if c > 90 then (if 94 \<le> c \<and> c \<le> 122 then St 21 else St 0) else St 21) else St 21))
    else if cs = 109 then
      (switch c [(33, St 21), (58, Tr 39), (84, St 110), (116, St 110), (124, St 21), (126, St 21)]
      (if c < 45 then (if c > 39 then (if 42 \<le> c \<and> c \<le> 43 then St 21 else St 0) else if c \<ge> 35 then
      St 21 else St 0) else if c > 46 then (if c < 65 then (if 48 \<le> c \<and> c \<le> 57 then St 21 else St 0)
      else if c > 90 then (if 94 \<le> c \<and> c \<le> 122 then St 21 else St 0) else St 21) else St 21))
    else if cs = 110 then
      (switch c [(33, St 21), (58, Tr 39), (72, St 111), (104, St 111), (124, St 21), (126, St 21)]
      (if c < 45 then (if c > 39 then (if 42 \<le> c \<and> c \<le> 43 then St 21 else St 0) else if c \<ge> 35 then
      St 21 else St 0) else if c > 46 then (if c < 65 then (if 48 \<le> c \<and> c \<le> 57 then St 21 else St 0)
      else if c > 90 then (if 94 \<le> c \<and> c \<le> 122 then St 21 else St 0) else St 21) else St 21))
    else if cs = 111 then
      (switch c [(33, St 21), (58, Tr 148), (124, St 21), (126, St 21)]
      (if c < 45 then (if c > 39 then (if 42 \<le> c \<and> c \<le> 43 then St 21 else St 0) else if c \<ge> 35 then
      St 21 else St 0) else if c > 46 then (if c < 65 then (if 48 \<le> c \<and> c \<le> 57 then St 21 else St 0)
      else if c > 90 then (if 94 \<le> c \<and> c \<le> 122 then St 21 else St 0) else St 21) else St 21))
    else St 0)"

definition response_cases_21 :: "int \<Rightarrow> int \<Rightarrow> jump" where
  "response_cases_21 cs c =
   (if cs = 112 then
     (switch c [(10, Tr 150), (13, Tr 151), (32, Tr 149)]
     (if c > 12 then (if 48 \<le> c \<and> c \<le> 57 then Tr 152 else Tr 40) else if c \<ge> 9 then Tr 149 else Tr
     40))
    else if cs = 113 then
      (switch c [(10, Tr 154), (13, St 116), (32, St 114), (33, Tr 35), (67, Tr 36), (84, Tr 37), (99, Tr 36), (116,
      Tr 37), (124, Tr 35), (126, Tr 35)]
      (if c < 45 then (if c < 35 then (if 9 \<le> c \<and> c \<le> 12 then St 114 else St 0) else if c > 39 then (if
      42 \<le> c \<and> c \<le> 43 then Tr 35 else St 0) else Tr 35) else if c > 46 then (if c < 65 then (if 48 \<le>
      c \<and> c \<le> 57 then Tr 156 else St 0) else if c > 90 then (if 94 \<le> c \<and> c \<le> 122 then Tr 35
      else St 0) else Tr 35) else Tr 35))
    else if cs = 114 then
      (if c = 32 then St 114 else if c > 13 then (if 48 \<le> c \<and> c \<le> 57 then Tr 157 else St 0) else if c
      \<ge> 9 then St 114 else St 0)
    else if cs = 115 then
      (switch c [(10, Tr 158), (13, Tr 159)]
      (if 48 \<le> c \<and> c \<le> 57 then St 115 else St 0))
    else if cs = 123 then
      (if c = 32 then St 114 else if c > 13 then (if 48 \<le> c \<and> c \<le> 57 then Tr 157 else St 0) else if c
      \<ge> 9 then St 114 else St 0)
    else if cs = 116 then
      (switch c [(10, Tr 154), (32, St 114)]
      (if c > 13 then (if 48 \<le> c \<and> c \<le> 57 then Tr 157 else St 0) else if c \<ge> 9 then St 114 else St
      0))
    else St 0)"

definition response_trs_21 :: "(int \<times> response_action list \<times> int) list" where
  "response_trs_21 =
    [(149, [Rsp_start_value], 112), (148, [Rsp_write_field], 112), (150, [Rsp_start_value, Rsp_write_value], 113),
      (157, [Rsp_start_value], 115), (154, [Rsp_done], 123), (156, [Rsp_start_value, Rsp_start_field], 117)]"

definition response_cases_22 :: "int \<Rightarrow> int \<Rightarrow> jump" where
  "response_cases_22 cs c =
   (if cs = 117 then
     (switch c [(10, Tr 158), (13, Tr 159), (33, St 21), (58, Tr 39), (124, St 21), (126, St 21)]
     (if c < 45 then (if c > 39 then (if 42 \<le> c \<and> c \<le> 43 then St 21 else St 0) else if c \<ge> 35 then
     St 21 else St 0) else if c > 46 then (if c < 65 then (if 48 \<le> c \<and> c \<le> 57 then St 117 else St 0)
     else if c > 90 then (if 94 \<le> c \<and> c \<le> 122 then St 21 else St 0) else St 21) else St 21))
    else if cs = 118 then
      (switch c [(10, St 113), (32, St 114)]
      (if c > 13 then (if 48 \<le> c \<and> c \<le> 57 then Tr 157 else St 0) else if c \<ge> 9 then St 114 else St
      0))
    else if cs = 119 then
      (switch c [(10, Tr 158), (13, Tr 159)]
      (if 48 \<le> c \<and> c \<le> 57 then St 119 else St 23))
    else St 0)"

definition response_trs_22 :: "(int \<times> response_action list \<times> int) list" where
  "response_trs_22 =
    [(151, [Rsp_start_value, Rsp_write_value], 118), (152, [Rsp_start_value], 119)]"

definition response_cases :: "int \<Rightarrow> int \<Rightarrow> jump" where
  "response_cases cs c =
    (if cs < 1 then St 0
     else if cs < 3 then response_cases_1 cs c
     else if cs < 6 then response_cases_2 cs c
     else if cs < 17 then response_cases_3 cs c
     else if cs < 21 then response_cases_4 cs c
     else if cs < 25 then response_cases_5 cs c
     else if cs < 29 then response_cases_6 cs c
     else if cs < 34 then response_cases_7 cs c
     else if cs < 42 then response_cases_8 cs c
     else if cs < 46 then response_cases_9 cs c
     else if cs < 51 then response_cases_10 cs c
     else if cs < 56 then response_cases_11 cs c
     else if cs < 61 then response_cases_12 cs c
     else if cs < 70 then response_cases_13 cs c
     else if cs < 75 then response_cases_14 cs c
     else if cs < 80 then response_cases_15 cs c
     else if cs < 89 then response_cases_16 cs c
     else if cs < 94 then response_cases_17 cs c
     else if cs < 102 then response_cases_18 cs c
     else if cs < 107 then response_cases_19 cs c
     else if cs < 112 then response_cases_20 cs c
     else if cs < 117 then response_cases_21 cs c
     else if cs < 120 then response_cases_22 cs c
     else if cs < 121 then response_cases_1 cs c
     else if cs < 122 then response_cases_14 cs c
     else if cs < 123 then response_cases_16 cs c
     else if cs < 124 then response_cases_21 cs c
     else St 0)"

definition response_table :: "(int \<times> response_action list \<times> int) list" where
  "response_table = response_trs_1 @ response_trs_2 @ response_trs_3 @ response_trs_4 @ response_trs_5 @
    response_trs_8 @ response_trs_9 @ response_trs_13 @ response_trs_14 @ response_trs_16 @ response_trs_17 @
    response_trs_18 @ response_trs_21 @ response_trs_22"

definition response_trs :: "int \<Rightarrow> response_action list \<times> int" where
  "response_trs k = (case map_of response_table k of Some t \<Rightarrow> t | None \<Rightarrow> ([], 0))"

end
