(* ===== verification/Http_Connection.thy ===== *)
theory Http_Connection
  imports Http_Session
begin

text \<open>
  \<open>src/http/http_connection.cpp\<close> and the response parser of \<open>src/http/http_parser.cpp\<close>: receiving a
  response with its body, by length or in chunks, building and sending requests, and the pool of
  connections. The Ragel scanner is a parameter as for requests; \<open>chunked\<close>, \<open>content_len\<close> and
  \<open>chunks_done\<close> are the fields of its state the code reads, \<open>reinit\<close> is \<open>httpclient_parser_init\<close>.
\<close>

section \<open>The response parser\<close>

datatype response_event =
    OnReason string nat | OnStatus string nat | OnChunk string nat | OnRspVersion string nat
  | OnRspHeaderDone string nat | OnLastChunk string nat | OnRspField string nat string nat

record 'p response_parser =
  ps_parser :: 'p
  ps_data :: http_response
  ps_error :: int

definition on_response_reason :: "'p response_parser \<Rightarrow> string \<Rightarrow> nat \<Rightarrow> 'p response_parser" where
  "on_response_reason p at len = p\<lparr>ps_data := (ps_data p)\<lparr>rs_reason := take len at\<rparr>\<rparr>"

definition on_response_status :: "'p response_parser \<Rightarrow> string \<Rightarrow> nat \<Rightarrow> 'p response_parser" where
  "on_response_status p at len = p\<lparr>ps_data := (ps_data p)\<lparr>rs_status := atoi at\<rparr>\<rparr>"

definition on_response_version :: "'p response_parser \<Rightarrow> string \<Rightarrow> nat \<Rightarrow> 'p response_parser" where
  "on_response_version p at len =
     (if strncmp at ''HTTP/1.1'' len = 0 then p\<lparr>ps_data := (ps_data p)\<lparr>rs_version := 0x11\<rparr>\<rparr>
      else if strncmp at ''HTTP/1.0'' len = 0 then p\<lparr>ps_data := (ps_data p)\<lparr>rs_version := 0x10\<rparr>\<rparr>
      else p\<lparr>ps_error := 1001\<rparr>)"

definition on_response_http_field :: "'p response_parser \<Rightarrow> string \<Rightarrow> nat \<Rightarrow> string \<Rightarrow> nat \<Rightarrow> 'p response_parser" where
  "on_response_http_field p field flen value vlen =
     (if flen = 0 then p
      else p\<lparr>ps_data := rsp_setHeader (ps_data p) (take flen field) (take vlen value)\<rparr>)"

fun on_response :: "'p response_parser \<Rightarrow> response_event \<Rightarrow> 'p response_parser" where
  "on_response p (OnReason at len) = on_response_reason p at len"
| "on_response p (OnStatus at len) = on_response_status p at len"
| "on_response p (OnChunk at len) = p"
| "on_response p (OnRspVersion at len) = on_response_version p at len"
| "on_response p (OnRspHeaderDone at len) = p"
| "on_response p (OnLastChunk at len) = p"
| "on_response p (OnRspField field flen value vlen) = on_response_http_field p field flen value vlen"

definition HttpResponseParser :: "'p \<Rightarrow> 'p response_parser" where
  "HttpResponseParser p0 = \<lparr>ps_parser = p0, ps_data = HttpResponse 0x11 True, ps_error = 0\<rparr>"

text \<open>The parameters of the scanner together.\<close>

record 'p client_scanner =
  cs_exec :: "('p, response_event) scanner"
  cs_reinit :: "'p \<Rightarrow> 'p"
  cs_finish :: "'p \<Rightarrow> int"
  cs_has_error :: "'p \<Rightarrow> int"
  cs_chunked :: "'p \<Rightarrow> bool"
  cs_content_len :: "'p \<Rightarrow> int"
  cs_chunks_done :: "'p \<Rightarrow> bool"

definition response_execute :: "'p client_scanner \<Rightarrow> 'p response_parser \<Rightarrow> string \<Rightarrow> bool
    \<Rightarrow> nat \<times> 'p response_parser \<times> string" where
  "response_execute sc p data chunk =
     (let q0 = (if chunk then cs_reinit sc (ps_parser p) else ps_parser p) in
      case cs_exec sc q0 data of (offset, q, evs) \<Rightarrow>
        (offset, (foldl on_response p evs)\<lparr>ps_parser := q\<rparr>, drop offset data))"

definition response_hasError :: "'p client_scanner \<Rightarrow> 'p response_parser \<Rightarrow> bool" where
  "response_hasError sc p \<longleftrightarrow> ps_error p \<noteq> 0 \<or> cs_has_error sc (ps_parser p) \<noteq> 0"

definition response_isFinished :: "'p client_scanner \<Rightarrow> 'p response_parser \<Rightarrow> bool" where
  "response_isFinished sc p \<longleftrightarrow> cs_finish sc (ps_parser p) \<noteq> 0"

definition response_getContentLength :: "(string \<Rightarrow> u64 option) \<Rightarrow> 'p response_parser \<Rightarrow> u64" where
  "response_getContentLength lexical_cast p = rsp_getHeaderAs lexical_cast (ps_data p) ''content-length'' 0"

section \<open>Receiving a response\<close>

type_synonym reads = "char recv_result list"

text \<open>What follows a call of \<open>execute\<close>: \<open>None\<close> for a failure that closes the connection.\<close>

definition executed :: "'p client_scanner \<Rightarrow> nat \<Rightarrow> 'p response_parser \<Rightarrow> string \<Rightarrow> bool
    \<Rightarrow> ('p response_parser \<times> string) option" where
  "executed sc buff_size p data chunk =
     (case response_execute sc p data chunk of (nparse, p', data') \<Rightarrow>
        if response_hasError sc p' then None
        else if length data' = buff_size then None
        else Some (p', data'))"

fun recv_rsp_head :: "'p client_scanner \<Rightarrow> nat \<Rightarrow> bool \<Rightarrow> 'p response_parser \<Rightarrow> string \<Rightarrow> reads
    \<Rightarrow> ('p response_parser \<times> string \<times> reads) option option" where
  "recv_rsp_head sc buff_size chunk p data [] = None"
| "recv_rsp_head sc buff_size chunk p data (RecvError # rs) = Some None"
| "recv_rsp_head sc buff_size chunk p data (Received d # rs) =
     (if d = [] then Some None
      else case executed sc buff_size p (data @ d) chunk of
        None \<Rightarrow> Some None
      | Some (p', data') \<Rightarrow>
          if response_isFinished sc p' then Some (Some (p', data', rs))
          else recv_rsp_head sc buff_size chunk p' data' rs)"

text \<open>The inner loop over a chunk's header: the first round reads only into an empty buffer.\<close>

definition recv_chunk_head :: "'p client_scanner \<Rightarrow> nat \<Rightarrow> 'p response_parser \<Rightarrow> string \<Rightarrow> reads
    \<Rightarrow> ('p response_parser \<times> string \<times> reads) option option" where
  "recv_chunk_head sc buff_size p data rs =
     (if data = [] then recv_rsp_head sc buff_size True p data rs
      else case executed sc buff_size p data True of
        None \<Rightarrow> Some None
      | Some (p', data') \<Rightarrow>
          if response_isFinished sc p' then Some (Some (p', data', rs))
          else recv_rsp_head sc buff_size True p' data' rs)"

text \<open>The loop that reads the rest of a chunk; \<open>left\<close> counts its closing CR LF.\<close>

fun recv_chunk_rest :: "int \<Rightarrow> string \<Rightarrow> reads \<Rightarrow> (string \<times> reads) option option" where
  "recv_chunk_rest left body [] = (if 0 < left then None else Some (Some (body, [])))"
| "recv_chunk_rest left body (r # rs) =
     (if 0 < left then
        case r of
          RecvError \<Rightarrow> Some None
        | Received d \<Rightarrow> if d = [] then Some None else recv_chunk_rest (left - int (length d)) (body @ d) rs
      else Some (Some (body, r # rs)))"

text \<open>The bytes and calls still to come, which every round of the chunk loop lessens.\<close>

definition wire :: "string \<Rightarrow> reads \<Rightarrow> nat" where
  "wire data rs = length data + sum_list (map (\<lambda>r. case r of Received d \<Rightarrow> length d | RecvError \<Rightarrow> 0) rs) + length rs"

lemma executed_wire: "executed sc n p data chunk = Some (p', data') \<Longrightarrow> length data' \<le> length data"
  by (auto simp: executed_def response_execute_def Let_def split: if_splits prod.splits)

lemma recv_rsp_head_wire:
  "recv_rsp_head sc n chunk p data rs = Some (Some (p', data', rs')) \<Longrightarrow> wire data' rs' < wire data rs"
proof (induction rs arbitrary: p data)
  case (Cons r rs)
  then show ?case
    by (cases r) (fastforce simp: wire_def dest: executed_wire split: if_splits prod.splits option.splits)+
qed simp

lemma recv_chunk_head_wire:
  "recv_chunk_head sc n p data rs = Some (Some (p', data', rs')) \<Longrightarrow> wire data' rs' \<le> wire data rs"
  by (fastforce simp: recv_chunk_head_def wire_def
      dest: executed_wire recv_rsp_head_wire [unfolded wire_def] split: if_splits option.splits prod.splits)

lemma recv_chunk_rest_wire:
  "0 < left \<Longrightarrow> recv_chunk_rest left body rs = Some (Some (body', rs')) \<Longrightarrow> wire [] rs' < wire [] rs"
proof (induction rs arbitrary: left body)
  case (Cons r rs)
  show ?case
  proof (cases r)
    case (Received d)
    with Cons.prems have d: "d \<noteq> []" and rec: "recv_chunk_rest (left - int (length d)) (body @ d) rs = Some (Some (body', rs'))"
      by (auto split: if_splits)
    show ?thesis
    proof (cases "0 < left - int (length d)")
      case True
      from Cons.IH [OF this rec] Received show ?thesis by (simp add: wire_def)
    next
      case False
      with rec have "rs' = rs" by (cases rs) auto
      with Received show ?thesis by (simp add: wire_def)
    qed
  qed (use Cons.prems in simp)
qed simp

lemma chunk_in_buffer_wire:
  assumes "recv_chunk_head sc k p data rs = Some (Some (p', data', rs'))" "n + 2 \<le> int (length data')" "\<not> n < 0"
  shows "wire (drop (nat n + 2) data') rs' < wire data rs"
  using recv_chunk_head_wire [OF assms(1)] assms(2,3) by (simp add: wire_def)

lemma chunk_read_wire:
  assumes "recv_chunk_head sc k p data rs = Some (Some (p', data', rs'))" "\<not> n + 2 \<le> int (length data')"
    "recv_chunk_rest (n - int (length data') + 2) b rs' = Some (Some (b', rs''))"
  shows "wire [] rs'' < wire data rs"
  using recv_chunk_head_wire [OF assms(1)] recv_chunk_rest_wire [OF _ assms(3)] assms(2) by (simp add: wire_def)

text \<open>
  The outer loop: after a chunk's header, the chunk either lies in the buffer with its CR LF or the
  buffer is appended and the rest read, whose last two bytes are cut off. A negative length makes
  \<open>append\<close> throw.
\<close>

function recv_chunks :: "'p client_scanner \<Rightarrow> nat \<Rightarrow> 'p response_parser \<Rightarrow> string \<Rightarrow> string \<Rightarrow> reads
    \<Rightarrow> (stream_error + ('p response_parser \<times> string \<times> reads) option) option" where
  "recv_chunks sc buff_size p body data rs =
     (case recv_chunk_head sc buff_size p data rs of
        None \<Rightarrow> None
      | Some None \<Rightarrow> Some (Inr None)
      | Some (Some (p', data', rs')) \<Rightarrow>
          let n = cs_content_len sc (ps_parser p'); len = int (length data') in
          if n + 2 \<le> len then
            if n < 0 then Some (Inl OutOfBounds)
            else
              let body' = body @ take (nat n) data'; data'' = drop (nat n + 2) data' in
              if cs_chunks_done sc (ps_parser p') then Some (Inr (Some (p', body', rs')))
              else recv_chunks sc buff_size p' body' data'' rs'
          else
            (case recv_chunk_rest (n - len + 2) (body @ data') rs' of
               None \<Rightarrow> None
             | Some None \<Rightarrow> Some (Inr None)
             | Some (Some (body', rs'')) \<Rightarrow>
                 let body'' = take (length body' - 2) body' in
                 if cs_chunks_done sc (ps_parser p') then Some (Inr (Some (p', body'', rs'')))
                 else recv_chunks sc buff_size p' body'' [] rs''))"
  by pat_completeness auto
termination
  by (relation "measure (\<lambda>(sc, n, p, body, data, rs). wire data rs)")
    (auto intro: chunk_in_buffer_wire [simplified] chunk_read_wire)

declare recv_chunks.simps [simp del]

text \<open>\<open>recvResponse\<close>; the buffer size is that of requests. The body by length is received as for a request.\<close>

definition recvResponse :: "'p client_scanner \<Rightarrow> (string \<Rightarrow> u64 option) \<Rightarrow> nat \<Rightarrow> 'p \<Rightarrow> reads
    \<Rightarrow> (stream_error + (http_response \<times> reads) option) option" where
  "recvResponse sc lexical_cast buff_size p0 rs =
     (case recv_rsp_head sc buff_size False (HttpResponseParser p0) [] rs of
        None \<Rightarrow> None
      | Some None \<Rightarrow> Some (Inr None)
      | Some (Some (p, data, rs')) \<Rightarrow>
          let with_body = (\<lambda>p body. if body \<noteq> [] then (ps_data p)\<lparr>rs_body := body\<rparr> else ps_data p) in
          if cs_chunked sc (ps_parser p) then
            (case recv_chunks sc buff_size p [] data rs' of
               None \<Rightarrow> None
             | Some (Inl e) \<Rightarrow> Some (Inl e)
             | Some (Inr None) \<Rightarrow> Some (Inr None)
             | Some (Inr (Some (p', body, rs''))) \<Rightarrow> Some (Inr (Some (with_body p' body, rs''))))
          else
            (case recv_body (response_getContentLength lexical_cast p) data rs' of
               None \<Rightarrow> None
             | Some (Inl e) \<Rightarrow> Some (Inl e)
             | Some (Inr None) \<Rightarrow> Some (Inr None)
             | Some (Inr (Some (body, rs''))) \<Rightarrow> Some (Inr (Some (with_body p body, rs'')))))"

section \<open>Requests\<close>

datatype HttpResultError = HR_OK | INVALID_URL | INVALID_HOST | CREATE_SOCKET_ERROR | CONNECT_FAIL
  | SEND_CLOSE_BY_PEER | SEND_SOCKET_ERROR | HR_TIMEOUT | POOL_GET_CONNECTION | POOL_INVALID_CONNECTION

record http_result =
  hr_result :: HttpResultError
  hr_response :: "http_response option"
  hr_error :: string

primrec result_code :: "HttpResultError \<Rightarrow> int" where
  "result_code HR_OK = 0"
| "result_code INVALID_URL = 1"
| "result_code INVALID_HOST = 2"
| "result_code CREATE_SOCKET_ERROR = 3"
| "result_code CONNECT_FAIL = 4"
| "result_code SEND_CLOSE_BY_PEER = 5"
| "result_code SEND_SOCKET_ERROR = 6"
| "result_code HR_TIMEOUT = 7"
| "result_code POOL_GET_CONNECTION = 8"
| "result_code POOL_INVALID_CONNECTION = 9"

definition HttpResult_toString :: "http_result \<Rightarrow> string" where
  "HttpResult_toString r = ''[HttpResult result='' @ show_int (result_code (hr_result r)) @ '' error='' @ hr_error r
     @ '' response='' @ (case hr_response r of Some rsp \<Rightarrow> response_dump rsp | None \<Rightarrow> ''nullptr'') @ '']''"

record uri_parts =
  u_path :: string
  u_query :: string
  u_fragment :: string
  u_host :: string

text \<open>The loop over the headers: the request and \<open>has_host\<close>.\<close>

fun add_headers :: "http_request \<Rightarrow> bool \<Rightarrow> fields \<Rightarrow> http_request \<times> bool" where
  "add_headers req has_host [] = (req, has_host)"
| "add_headers req has_host ((k, v) # hs) =
     (if strcasecmp k ''connection'' = 0 then
        add_headers (if strcasecmp v ''keep-alive'' = 0 then req\<lparr>rq_close := False\<rparr> else req) has_host hs
      else
        let has_host' = (if \<not> has_host \<and> strcasecmp k ''host'' = 0 then v \<noteq> [] else has_host)
        in add_headers (setHeader req k v) has_host' hs)"

definition build_request :: "HttpMethod \<Rightarrow> uri_parts \<Rightarrow> fields \<Rightarrow> string \<Rightarrow> http_request" where
  "build_request method uri headers body =
     (let req0 = (HttpRequest 0x11 True)\<lparr>rq_path := u_path uri, rq_query := u_query uri, rq_fragment := u_fragment uri,
                   rq_method := method\<rparr>;
          (req1, has_host) = add_headers req0 False headers;
          req2 = (if \<not> has_host then setHeader req1 ''Host'' (u_host uri) else req1)
      in req2\<lparr>rq_body := body\<rparr>)"

text \<open>
  \<open>DoRequest (req, uri, timeout)\<close>: whether the address, the socket and the connection come about, the
  result of \<open>sendRequest\<close> and the response are inputs, each used only when the steps before it
  succeeded. \<open>txt\<close> are the texts that depend on the system: the address and \<open>errno\<close> with its message.
\<close>

record net_texts =
  t_addr :: string
  t_errno :: string
  t_timeout :: string

definition send_and_receive :: "net_texts \<Rightarrow> int \<Rightarrow> http_response option \<Rightarrow> http_result" where
  "send_and_receive txt rt rsp =
     (if rt = 0 then \<lparr>hr_result = SEND_CLOSE_BY_PEER, hr_response = None, hr_error = ''send rquest closed by peer: '' @ t_addr txt\<rparr>
      else if rt < 0 then \<lparr>hr_result = SEND_SOCKET_ERROR, hr_response = None, hr_error = ''send socket error, errno='' @ t_errno txt\<rparr>
      else case rsp of
        None \<Rightarrow> \<lparr>hr_result = HR_TIMEOUT, hr_response = None,
                 hr_error = ''recv response timeout: '' @ t_addr txt @ '' timeout_ms:'' @ t_timeout txt\<rparr>
      | Some r \<Rightarrow> \<lparr>hr_result = HR_OK, hr_response = Some r, hr_error = ''ok''\<rparr>)"

definition DoRequest :: "net_texts \<Rightarrow> uri_parts \<Rightarrow> bool \<Rightarrow> bool \<Rightarrow> bool \<Rightarrow> int \<Rightarrow> http_response option \<Rightarrow> http_result" where
  "DoRequest txt uri addr sock connected rt rsp =
     (if \<not> addr then \<lparr>hr_result = INVALID_HOST, hr_response = None, hr_error = ''invalid host: '' @ u_host uri\<rparr>
      else if \<not> sock then \<lparr>hr_result = CREATE_SOCKET_ERROR, hr_response = None,
                           hr_error = ''create socket fail: '' @ t_addr txt @ '' errno='' @ t_errno txt\<rparr>
      else if \<not> connected then \<lparr>hr_result = CONNECT_FAIL, hr_response = None, hr_error = ''connect fail: '' @ t_addr txt\<rparr>
      else send_and_receive txt rt rsp)"

text \<open>The variants that take a URL; \<open>parsed\<close> is the result of \<open>Uri::Create\<close>.\<close>

definition DoRequest_url :: "string \<Rightarrow> uri_parts option \<Rightarrow> (uri_parts \<Rightarrow> http_result) \<Rightarrow> http_result" where
  "DoRequest_url url parsed request =
     (case parsed of
        None \<Rightarrow> \<lparr>hr_result = INVALID_URL, hr_response = None, hr_error = ''invalid url: '' @ url\<rparr>
      | Some uri \<Rightarrow> request uri)"

text \<open>The pool's requests: the path is the whole target, the connection is kept alive.\<close>

definition request_target :: "uri_parts \<Rightarrow> string" where
  "request_target uri = u_path uri @ (if u_query uri = [] then [] else ''?'') @ u_query uri
     @ (if u_fragment uri = [] then [] else ''#'') @ u_fragment uri"

definition pool_build_request :: "string \<Rightarrow> string \<Rightarrow> HttpMethod \<Rightarrow> string \<Rightarrow> fields \<Rightarrow> string \<Rightarrow> http_request" where
  "pool_build_request host vhost method url headers body =
     (let req0 = (HttpRequest 0x11 True)\<lparr>rq_path := url, rq_method := method, rq_close := False\<rparr>;
          (req1, has_host) = add_headers req0 False headers;
          req2 = (if \<not> has_host then setHeader req1 ''Host'' (if vhost = [] then host else vhost) else req1)
      in req2\<lparr>rq_body := body\<rparr>)"

definition pool_doRequest :: "net_texts \<Rightarrow> string \<Rightarrow> string \<Rightarrow> bool \<Rightarrow> bool \<Rightarrow> int \<Rightarrow> http_response option \<Rightarrow> http_result" where
  "pool_doRequest txt host port conn sock rt rsp =
     (if \<not> conn then \<lparr>hr_result = POOL_GET_CONNECTION, hr_response = None,
                      hr_error = ''pool host: '' @ host @ '' port:'' @ port\<rparr>
      else if \<not> sock then \<lparr>hr_result = POOL_INVALID_CONNECTION, hr_response = None,
                           hr_error = ''pool host: '' @ host @ '' port:'' @ port\<rparr>
      else send_and_receive txt rt rsp)"

section \<open>The pool\<close>

text \<open>Connections live on a heap; \<open>cp_lent\<close> are those handed out and not yet released, which the code
  does not record.\<close>

record http_conn =
  hc_createTime :: u64
  hc_request :: int
  hc_connected :: bool

record conn_pool =
  cp_maxAliveTime :: "32 word"
  cp_maxRequest :: int
  cp_conns :: "nat list"
  cp_total :: int
  cp_heap :: "nat \<Rightarrow> http_conn option"
  cp_lent :: "nat list"

definition conn_pool_new :: "32 word \<Rightarrow> int \<Rightarrow> conn_pool" where
  "conn_pool_new max_alive_time max_request =
     \<lparr>cp_maxAliveTime = max_alive_time, cp_maxRequest = max_request, cp_conns = [], cp_total = 0,
      cp_heap = Map.empty, cp_lent = []\<rparr>"

text \<open>\<open>m_createTime + m_maxAliveTime <= now\<close>: the \<open>int32_t\<close> is extended to 64 bits.\<close>

definition conn_expired :: "conn_pool \<Rightarrow> http_conn \<Rightarrow> u64 \<Rightarrow> bool" where
  "conn_expired cp c now \<longleftrightarrow> hc_createTime c + scast (cp_maxAliveTime cp) \<le> now"

text \<open>The loop over the idle connections: the one taken, those to delete, those left.\<close>

fun take_conn :: "conn_pool \<Rightarrow> u64 \<Rightarrow> nat list \<Rightarrow> nat option \<times> nat list \<times> nat list" where
  "take_conn cp now [] = (None, [], [])"
| "take_conn cp now (a # as) =
     (case cp_heap cp a of
        None \<Rightarrow> (None, [], a # as)
      | Some c \<Rightarrow>
          if \<not> hc_connected c \<or> conn_expired cp c now
          then (case take_conn cp now as of (r, bad, left) \<Rightarrow> (r, a # bad, left))
          else (Some a, [], as))"

definition heap_delete :: "(nat \<Rightarrow> http_conn option) \<Rightarrow> nat list \<Rightarrow> nat \<Rightarrow> http_conn option" where
  "heap_delete h as = (\<lambda>a. if a \<in> set as then None else h a)"

text \<open>\<open>getConnection\<close>: \<open>fresh\<close> is the address of a new connection, \<open>None\<close> when the look-up, the socket or the
  connect fails; \<open>created\<close> is its creation time.\<close>

definition getConnection :: "conn_pool \<Rightarrow> u64 \<Rightarrow> nat option \<Rightarrow> u64 \<Rightarrow> nat option \<times> conn_pool" where
  "getConnection cp now fresh created =
     (case take_conn cp now (cp_conns cp) of (r, bad, left) \<Rightarrow>
        let cp1 = cp\<lparr>cp_conns := left, cp_heap := heap_delete (cp_heap cp) bad, cp_total := cp_total cp - int (length bad)\<rparr> in
        case r of
          Some a \<Rightarrow> (Some a, cp1\<lparr>cp_lent := a # cp_lent cp1\<rparr>)
        | None \<Rightarrow>
            (case fresh of
               None \<Rightarrow> (None, cp1)
             | Some a \<Rightarrow> (Some a, cp1\<lparr>cp_heap := (cp_heap cp1)(a \<mapsto> \<lparr>hc_createTime = created, hc_request = 0, hc_connected = True\<rparr>),
                                   cp_total := cp_total cp1 + 1, cp_lent := a # cp_lent cp1\<rparr>)))"

definition ReleasePtr :: "conn_pool \<Rightarrow> nat \<Rightarrow> u64 \<Rightarrow> conn_pool option" where
  "ReleasePtr cp a now =
     (case cp_heap cp a of
        None \<Rightarrow> None
      | Some c \<Rightarrow>
          let c' = c\<lparr>hc_request := hc_request c + 1\<rparr>;
              cp1 = cp\<lparr>cp_lent := removeAll a (cp_lent cp)\<rparr> in
          Some (if \<not> hc_connected c' \<or> conn_expired cp c' now \<or> cp_maxRequest cp \<le> hc_request c'
                then cp1\<lparr>cp_heap := heap_delete (cp_heap cp) [a], cp_total := cp_total cp - 1\<rparr>
                else cp1\<lparr>cp_heap := (cp_heap cp)(a \<mapsto> c'), cp_conns := cp_conns cp @ [a]\<rparr>))"

section \<open>Facts about requests\<close>

lemma getHeader_setHeader: "getHeader (setHeader r k v) j d = (if fold_key j = fold_key k then v else getHeader r j d)"
  by (simp add: field_defs ci.omap_get_put)

lemma getHeader_frame [simp]:
  "getHeader (r\<lparr>rq_close := c\<rparr>) j d = getHeader r j d" "getHeader (r\<lparr>rq_body := b\<rparr>) j d = getHeader r j d"
  by (simp_all add: field_defs)

lemma setHeader_frame [simp]:
  "rq_close (setHeader r k v) = rq_close r" "rq_method (setHeader r k v) = rq_method r"
  "rq_path (setHeader r k v) = rq_path r" "rq_body (setHeader r k v) = rq_body r"
  by (simp_all add: setHeader_def)

text \<open>The values of a name in a list of headers, whatever its case.\<close>

definition values_of :: "string \<Rightarrow> fields \<Rightarrow> string list" where
  "values_of j hs = map snd (filter (\<lambda>(k, v). fold_key k = fold_key j) hs)"

lemma values_of_simps [simp]:
  "values_of j [] = []"
  "values_of j ((k, v) # hs) = (if fold_key k = fold_key j then v # values_of j hs else values_of j hs)"
  by (simp_all add: values_of_def)

definition last_or :: "string \<Rightarrow> string list \<Rightarrow> string" where
  "last_or d vs = (if vs = [] then d else last vs)"

lemma add_headers_get:
  "fold_key j \<noteq> fold_key ''connection'' \<Longrightarrow>
   getHeader (fst (add_headers req h hs)) j d = last_or (getHeader req j d) (values_of j hs)"
proof (induction hs arbitrary: req h)
  case (Cons p hs)
  obtain k v where p: "p = (k, v)" by (cases p)
  show ?case
  proof (cases "fold_key k = fold_key ''connection''")
    case True
    then show ?thesis using Cons by (auto simp: p strcasecmp_eq_0)
  next
    case False
    then show ?thesis using Cons by (simp add: p strcasecmp_eq_0 Let_def getHeader_setHeader last_or_def)
  qed
qed (simp add: last_or_def)

lemma add_headers_host:
  "snd (add_headers req h hs) \<longleftrightarrow> h \<or> list_ex (\<lambda>v. v \<noteq> []) (values_of ''host'' hs)"
proof -
  have "fold_key ''connection'' \<noteq> fold_key ''host''" by code_simp
  then show ?thesis
    by (induction req h hs rule: add_headers.induct) (auto simp: strcasecmp_eq_0 Let_def)
qed

lemma add_headers_close:
  "rq_close (fst (add_headers req h hs)) \<longleftrightarrow>
     rq_close req \<and> \<not> list_ex (\<lambda>v. fold_key v = fold_key ''keep-alive'') (values_of ''connection'' hs)"
  by (induction req h hs rule: add_headers.induct) (auto simp: strcasecmp_eq_0 Let_def)

lemma add_headers_frame:
  "rq_method (fst (add_headers req h hs)) = rq_method req" "rq_path (fst (add_headers req h hs)) = rq_path req"
  by (induction req h hs rule: add_headers.induct) (auto simp: Let_def)

section \<open>Properties\<close>

text \<open>
  The headers of a request that \<open>DoRequest\<close> builds: it always has a \<open>Host\<close>, the last value given for
  it unless all are empty, then the host of the address; it keeps the connection exactly when a
  given \<open>connection\<close> header says keep-alive; every other header has its last given value.
\<close>
theorem built_request_headers:
  "getHeader (build_request m uri hs body) ''Host'' d =
     (if list_ex (\<lambda>v. v \<noteq> []) (values_of ''host'' hs) then last_or d (values_of ''host'' hs) else u_host uri) \<and>
   rq_close (build_request m uri hs body) =
     (\<not> list_ex (\<lambda>v. fold_key v = fold_key ''keep-alive'') (values_of ''connection'' hs)) \<and>
   (if fold_key j = fold_key ''host'' \<or> fold_key j = fold_key ''connection'' then True
    else getHeader (build_request m uri hs body) j d = last_or d (values_of j hs)) \<and>
   rq_method (build_request m uri hs body) = m \<and> rq_path (build_request m uri hs body) = u_path uri \<and>
   rq_body (build_request m uri hs body) = body"
proof -
  let ?req = "(HttpRequest 0x11 True)\<lparr>rq_path := u_path uri, rq_query := u_query uri, rq_fragment := u_fragment uri,
                   rq_method := m\<rparr>"
  have k: "fold_key ''Host'' = fold_key ''host''" "fold_key ''Host'' \<noteq> fold_key ''connection''"
    "fold_key ''host'' \<noteq> fold_key ''connection''" by code_simp+
  have v: "values_of ''Host'' hs = values_of ''host'' hs" by (simp add: values_of_def k(1))
  have e: "getHeader ?req j d = d" "rq_close ?req" "rq_method ?req = m" "rq_path ?req = u_path uri" for j d
    by (simp_all add: field_defs HttpRequest_def)
  have b: "build_request m uri hs body =
    (if snd (add_headers ?req False hs) then fst (add_headers ?req False hs)
     else setHeader (fst (add_headers ?req False hs)) ''Host'' (u_host uri))\<lparr>rq_body := body\<rparr>"
    by (simp add: build_request_def case_prod_beta Let_def)
  show ?thesis
    unfolding b
    by (auto simp: add_headers_host add_headers_close add_headers_frame getHeader_setHeader k v e
        add_headers_get [OF k(2)] add_headers_get)
qed

section \<open>The pool's books\<close>

definition pool_inv :: "conn_pool \<Rightarrow> bool" where
  "pool_inv cp \<longleftrightarrow> distinct (cp_conns cp @ cp_lent cp) \<and>
     (\<forall>a\<in>set (cp_conns cp @ cp_lent cp). cp_heap cp a \<noteq> None) \<and>
     (\<forall>a\<in>set (cp_conns cp). \<forall>c. cp_heap cp a = Some c \<longrightarrow> hc_request c < cp_maxRequest cp) \<and>
     cp_total cp = int (length (cp_conns cp) + length (cp_lent cp))"

inductive pool_reach :: "conn_pool \<Rightarrow> bool" where
  pool_start: "pool_reach (conn_pool_new alive reqs)"
| pool_get: "pool_reach cp \<Longrightarrow> getConnection cp now fresh created = (r, cp') \<Longrightarrow>
    (\<And>a. fresh = Some a \<Longrightarrow> a \<notin> set (cp_conns (snd (getConnection cp now None created))) \<and> a \<notin> set (cp_lent cp)) \<Longrightarrow>
    pool_reach cp'"
| pool_release: "pool_reach cp \<Longrightarrow> a \<in> set (cp_lent cp) \<Longrightarrow> ReleasePtr cp a now = Some cp' \<Longrightarrow> pool_reach cp'"
| pool_lost: "pool_reach cp \<Longrightarrow> cp_heap cp a = Some c \<Longrightarrow>
    pool_reach (cp\<lparr>cp_heap := (cp_heap cp)(a \<mapsto> c\<lparr>hc_connected := False\<rparr>)\<rparr>)"

text \<open>The loop of \<open>getConnection\<close> skips the connections to delete and takes the first other one.\<close>

lemma take_conn_split:
  assumes "\<forall>a\<in>set as. cp_heap cp a \<noteq> None" and "take_conn cp now as = (r, bad, left)"
  shows "as = bad @ (case r of None \<Rightarrow> [] | Some a \<Rightarrow> [a]) @ left \<and>
    (\<forall>a\<in>set bad. \<forall>c. cp_heap cp a = Some c \<longrightarrow> \<not> hc_connected c \<or> conn_expired cp c now) \<and>
    (case r of None \<Rightarrow> left = []
     | Some a \<Rightarrow> \<exists>c. cp_heap cp a = Some c \<and> hc_connected c \<and> \<not> conn_expired cp c now)"
  using assms
proof (induction as arbitrary: r bad left)
  case (Cons a as)
  obtain c where c: "cp_heap cp a = Some c" using Cons.prems(1) by auto
  show ?case
  proof (cases "\<not> hc_connected c \<or> conn_expired cp c now")
    case True
    obtain r' bad' left' where t: "take_conn cp now as = (r', bad', left')" by (cases "take_conn cp now as")
    with Cons.prems c True have "r = r'" "bad = a # bad'" "left = left'" by auto
    with Cons.IH [OF _ t] Cons.prems(1) c True show ?thesis by auto
  next
    case False
    with Cons.prems c show ?thesis by auto
  qed
qed simp

lemma getConnection_reused:
  assumes "take_conn cp now (cp_conns cp) = (Some a, bad, left)"
  shows "getConnection cp now fresh created =
    (Some a, cp\<lparr>cp_conns := left, cp_heap := heap_delete (cp_heap cp) bad, cp_total := cp_total cp - int (length bad),
      cp_lent := a # cp_lent cp\<rparr>)"
  using assms by (simp add: getConnection_def)

lemma getConnection_new:
  assumes "take_conn cp now (cp_conns cp) = (None, bad, left)"
  shows "getConnection cp now fresh created = (case fresh of
      None \<Rightarrow> (None, cp\<lparr>cp_conns := left, cp_heap := heap_delete (cp_heap cp) bad, cp_total := cp_total cp - int (length bad)\<rparr>)
    | Some a \<Rightarrow> (Some a, cp\<lparr>cp_conns := left,
        cp_heap := (heap_delete (cp_heap cp) bad)(a \<mapsto> \<lparr>hc_createTime = created, hc_request = 0, hc_connected = True\<rparr>),
        cp_total := cp_total cp - int (length bad) + 1, cp_lent := a # cp_lent cp\<rparr>))"
  using assms by (simp add: getConnection_def split: option.splits)

lemma getConnection_inv:
  assumes inv: "pool_inv cp" and get: "getConnection cp now fresh created = (r, cp')"
    and fresh: "\<And>a. fresh = Some a \<Longrightarrow> a \<notin> set (cp_conns (snd (getConnection cp now None created))) \<and> a \<notin> set (cp_lent cp)"
  shows "pool_inv cp'"
proof -
  obtain t bad left where t: "take_conn cp now (cp_conns cp) = (t, bad, left)" by (cases "take_conn cp now (cp_conns cp)")
  from inv have live: "\<forall>a\<in>set (cp_conns cp). cp_heap cp a \<noteq> None" by (auto simp: pool_inv_def)
  note split = take_conn_split [OF live t]
  show ?thesis
  proof (cases t)
    case (Some a)
    note eq = getConnection_reused [OF t [unfolded Some], of fresh created]
    have s: "cp_conns cp = bad @ a # left" using split Some by simp
    from get eq have "cp' = cp\<lparr>cp_conns := left, cp_heap := heap_delete (cp_heap cp) bad,
      cp_total := cp_total cp - int (length bad), cp_lent := a # cp_lent cp\<rparr>" by simp
    with inv s show ?thesis by (auto simp: pool_inv_def heap_delete_def)
  next
    case None
    note eq = getConnection_new [OF t [unfolded None], of _ created]
    have s: "cp_conns cp = bad" "left = []" using split None by simp_all
    show ?thesis
    proof (cases fresh)
      case None
      with get eq [of None] inv s show ?thesis by (auto simp: pool_inv_def heap_delete_def)
    next
      case (Some a)
      with get eq [of "Some a"] inv s fresh [OF Some] show ?thesis by (auto simp: pool_inv_def heap_delete_def)
    qed
  qed
qed

lemma ReleasePtr_inv:
  assumes inv: "pool_inv cp" and a: "a \<in> set (cp_lent cp)" and rel: "ReleasePtr cp a now = Some cp'"
  shows "pool_inv cp'"
proof -
  have "cp_heap cp a \<noteq> None" using inv a unfolding pool_inv_def by simp
  then obtain c where c: "cp_heap cp a = Some c" by blast
  have d: "distinct (cp_lent cp)" "a \<notin> set (cp_conns cp)" using inv a by (auto simp: pool_inv_def)
  have len: "length (removeAll a (cp_lent cp)) = length (cp_lent cp) - 1" "0 < length (cp_lent cp)"
    using a d(1) by (auto simp: distinct_remove1_removeAll [symmetric] length_remove1 intro: length_pos_if_in_set)
  then have int: "int (length (removeAll a (cp_lent cp))) = int (length (cp_lent cp)) - 1" by linarith
  from rel c inv d int a show ?thesis
    by (auto simp: ReleasePtr_def Let_def pool_inv_def heap_delete_def distinct_removeAll split: if_splits)
qed

lemma pool_reach_inv: "pool_reach cp \<Longrightarrow> pool_inv cp"
proof (induction rule: pool_reach.induct)
  case (pool_start alive reqs)
  show ?case by (simp add: pool_inv_def conn_pool_new_def)
next
  case (pool_get cp now fresh created r cp')
  from getConnection_inv [OF pool_get.IH pool_get.hyps(2,3)] show ?case .
next
  case (pool_release cp a now cp')
  from ReleasePtr_inv [OF pool_release.IH pool_release.hyps(2,3)] show ?case .
next
  case (pool_lost cp a c)
  then show ?case by (auto simp: pool_inv_def)
qed

text \<open>
  C24. The books of the pool hold after any sequence of getting, releasing and losing connections:
  \<open>m_total\<close> is the number of idle and lent connections together, no connection is in both groups or
  twice in one, all of them are alive on the heap, and no idle one has used up its requests.
\<close>
theorem pool_books_balance:
  assumes "pool_reach cp"
  shows "cp_total cp = int (length (cp_conns cp) + length (cp_lent cp)) \<and> distinct (cp_conns cp @ cp_lent cp) \<and>
    list_all (\<lambda>a. case cp_heap cp a of None \<Rightarrow> False | Some c \<Rightarrow> hc_request c < cp_maxRequest cp) (cp_conns cp) \<and>
    list_all (\<lambda>a. cp_heap cp a \<noteq> None) (cp_lent cp)"
  using pool_reach_inv [OF assms] by (fastforce simp: pool_inv_def list_all_iff split: option.splits)

theorem pool_books_balance_witness:
  "cp_total (snd (getConnection (conn_pool_new 1000 5) 10 (Some 7) 10)) = 1"
proof -
  have "pool_reach (snd (getConnection (conn_pool_new 1000 5) 10 (Some 7) 10))"
    by (rule pool_reach.pool_get [OF pool_reach.pool_start, of _ _ 10 "Some 7" 10 "Some 7"])
      (simp_all add: getConnection_def conn_pool_new_def)
  from pool_books_balance [OF this] show ?thesis by (simp add: getConnection_def conn_pool_new_def)
qed



section \<open>Chunked bodies\<close>

text \<open>The events of a chunk's header; their callbacks do nothing.\<close>

fun chunk_event :: "response_event \<Rightarrow> bool" where
  "chunk_event (OnChunk at len) = True"
| "chunk_event (OnLastChunk at len) = True"
| "chunk_event (OnRspHeaderDone at len) = True"
| "chunk_event _ = False"

definition encode_chunk :: "(nat \<Rightarrow> string) \<Rightarrow> string \<Rightarrow> string" where
  "encode_chunk hdr c = hdr (length c) @ c @ crlf"

definition encode_chunks :: "(nat \<Rightarrow> string) \<Rightarrow> string list \<Rightarrow> string" where
  "encode_chunks hdr cs = concat (map (encode_chunk hdr) cs) @ encode_chunk hdr []"

lemma chunk_events_ignored: "list_all chunk_event evs \<Longrightarrow> foldl on_response p evs = p"
proof (induction evs arbitrary: p)
  case (Cons e evs)
  then show ?case by (cases e) auto
qed simp

lemma recv_chunk_rest_pieces:
  assumes "[] \<notin> set ds"
  shows "recv_chunk_rest (int (length (concat ds))) body (map Received ds @ rs) = Some (Some (body @ concat ds, rs))"
  using assms
proof (induction ds arbitrary: body)
  case Nil
  then show ?case by (cases rs) simp_all
next
  case (Cons d ds)
  have "0 < int (length d) + int (length (concat ds))" using Cons.prems by (cases d) auto
  then show ?case using Cons.IH [of "body @ d"] Cons.prems by auto
qed

text \<open>
  What receiving a chunked body needs of a scanner: on a buffer that starts with the header line of a
  chunk of length n it consumes exactly that line, makes only the callbacks for chunks, and reports n;
  a length of 0 is the last chunk.
\<close>

locale chunk_scanner =
  fixes sc :: "'p client_scanner" and hdr :: "nat \<Rightarrow> string"
  assumes header: "hdr n \<noteq> []"
    and scanned: "n < 2 ^ 31 \<Longrightarrow> length (hdr n @ rest) < 2 ^ 31 \<Longrightarrow>
      \<exists>q evs. cs_exec sc (cs_reinit sc p) (hdr n @ rest) = (length (hdr n), q, evs) \<and>
        list_all chunk_event evs \<and> cs_has_error sc q = 0 \<and> cs_finish sc q \<noteq> 0 \<and>
        cs_content_len sc q = int n \<and> cs_chunks_done sc q = (n = 0)"
begin

lemma recv_chunk_head_scanned:
  assumes n: "n < 2 ^ 31" and p: "ps_error p = 0" and b: "length (hdr n @ rest) \<le> buff_size" "buff_size < 2 ^ 31"
  shows "\<exists>q. recv_chunk_head sc buff_size p (hdr n @ rest) rs = Some (Some (p\<lparr>ps_parser := q\<rparr>, rest, rs)) \<and>
    cs_content_len sc q = int n \<and> cs_chunks_done sc q = (n = 0)"
proof -
  obtain q evs where q: "cs_exec sc (cs_reinit sc (ps_parser p)) (hdr n @ rest) = (length (hdr n), q, evs)"
    "list_all chunk_event evs" "cs_has_error sc q = 0" "cs_finish sc q \<noteq> 0"
    "cs_content_len sc q = int n" "cs_chunks_done sc q = (n = 0)"
    using scanned [of n rest "ps_parser p"] n b by force
  have h: "hdr n \<noteq> []" by (rule header)
  then have l: "length rest \<noteq> buff_size" using b by auto
  have "executed sc buff_size p (hdr n @ rest) True = Some (p\<lparr>ps_parser := q\<rparr>, rest)"
    using q p l by (simp add: executed_def response_execute_def response_hasError_def chunk_events_ignored)
  then show ?thesis
    using q h by (auto simp: recv_chunk_head_def response_isFinished_def)
qed

lemma recv_chunks_buffered:
  assumes c: "length c < 2 ^ 31" and p: "ps_error p = 0"
    and b: "length (encode_chunk hdr c @ rest) \<le> buff_size" "buff_size < 2 ^ 31"
  shows "\<exists>q. recv_chunks sc buff_size p body (encode_chunk hdr c @ rest) rs =
    (if c = [] then Some (Inr (Some (p\<lparr>ps_parser := q\<rparr>, body, rs)))
     else recv_chunks sc buff_size (p\<lparr>ps_parser := q\<rparr>) (body @ c) rest rs)"
proof -
  have e: "encode_chunk hdr c @ rest = hdr (length c) @ (c @ crlf @ rest)" by (simp add: encode_chunk_def)
  from recv_chunk_head_scanned [OF c p, of "c @ crlf @ rest" buff_size rs] b obtain q where q:
    "recv_chunk_head sc buff_size p (hdr (length c) @ c @ crlf @ rest) rs = Some (Some (p\<lparr>ps_parser := q\<rparr>, c @ crlf @ rest, rs))"
    "cs_content_len sc q = int (length c)" "cs_chunks_done sc q = (c = [])" unfolding e by auto
  show ?thesis
    unfolding e using q by (intro exI [of _ q], subst recv_chunks.simps) (simp add: Let_def crlf_def)
qed

lemma recv_chunks_across_reads:
  assumes c: "c \<noteq> []" "length c < 2 ^ 31" and p: "ps_error p = 0"
    and b: "length (hdr (length c) @ pre) \<le> buff_size" "buff_size < 2 ^ 31"
    and cut: "c @ crlf = pre @ concat ds" and ds: "ds \<noteq> []" "[] \<notin> set ds"
  shows "\<exists>q. recv_chunks sc buff_size p body (hdr (length c) @ pre) (map Received ds @ rs) =
    recv_chunks sc buff_size (p\<lparr>ps_parser := q\<rparr>) (body @ c) [] rs"
proof -
  from recv_chunk_head_scanned [OF c(2) p b, of "map Received ds @ rs"] obtain q where q:
    "recv_chunk_head sc buff_size p (hdr (length c) @ pre) (map Received ds @ rs) =
       Some (Some (p\<lparr>ps_parser := q\<rparr>, pre, map Received ds @ rs))"
    "cs_content_len sc q = int (length c)" "cs_chunks_done sc q = (c = [])"
    using c(1) by auto
  have len: "length c + 2 = length pre + length (concat ds)"
    using arg_cong [OF cut, of length] by (simp add: crlf_def)
  have pos: "0 < length (concat ds)" using ds by (cases ds) auto
  have left: "int (length c) - int (length pre) + 2 = int (length (concat ds))" using len by linarith
  have cutoff: "take (length (body @ pre @ concat ds) - 2) (body @ pre @ concat ds) = body @ c"
    unfolding cut [symmetric] by (simp add: crlf_def)
  have "\<not> int (length c) + 2 \<le> int (length pre)" using len pos by linarith
  then show ?thesis
    using q c(1) left recv_chunk_rest_pieces [OF ds(2), of "body @ pre" rs] cutoff
    by (intro exI [of _ q], subst recv_chunks.simps) (simp add: Let_def)
qed

lemma recv_chunks_all:
  assumes "list_all (\<lambda>c. c \<noteq> [] \<and> length c < 2 ^ 31) cs" "length (encode_chunks hdr cs @ rest) \<le> buff_size" "buff_size < 2 ^ 31"
    and "ps_error p = 0"
  shows "\<exists>q. recv_chunks sc buff_size p body (encode_chunks hdr cs @ rest) rs =
    Some (Inr (Some (p\<lparr>ps_parser := q\<rparr>, body @ concat cs, rs)))"
  using assms
proof (induction cs arbitrary: body p)
  case Nil
  then show ?case
    using recv_chunks_buffered [of "[]" p rest buff_size body rs] by (simp add: encode_chunks_def)
next
  case (Cons c cs)
  have e: "encode_chunks hdr (c # cs) @ rest = encode_chunk hdr c @ (encode_chunks hdr cs @ rest)"
    by (simp add: encode_chunks_def)
  from recv_chunks_buffered [of c p "encode_chunks hdr cs @ rest" buff_size body rs] Cons.prems
  obtain q where q: "recv_chunks sc buff_size p body (encode_chunk hdr c @ encode_chunks hdr cs @ rest) rs =
      recv_chunks sc buff_size (p\<lparr>ps_parser := q\<rparr>) (body @ c) (encode_chunks hdr cs @ rest) rs"
    unfolding e by auto
  from Cons.IH [of "p\<lparr>ps_parser := q\<rparr>" "body @ c"] Cons.prems
  show ?case unfolding e q by (auto simp: encode_chunks_def)
qed

end

end
