(* ===== verification/Httpclient_Parser.thy ===== *)
theory Httpclient_Parser
  imports Httpclient_Machine Http_Connection Http11_Parser
begin

text \<open>
  \<open>src/include/http/httpclient_parser.rl.cc\<close> around its machine: the struct \<open>httpclient_parser\<close>, the actions, and
  \<open>httpclient_parser_init\<close>, \<open>httpclient_parser_execute\<close>, \<open>httpclient_parser_finish\<close> and
  \<open>httpclient_parser_has_error\<close>: the scanner of \<open>Http_Connection\<close>. The constructor of \<open>HttpResponseParser\<close> sets
  all callbacks.
\<close>

section \<open>The parser\<close>

record httpclient_parser =
  hc_cs :: int
  hc_body_start :: u64
  hc_content_len :: int
  hc_status :: int
  hc_chunked :: int
  hc_chunks_done :: int
  hc_close :: int
  hc_nread :: u64
  hc_mark :: u64
  hc_field_start :: u64
  hc_field_len :: u64

text \<open>\<open>strtol\<close>: white space, a sign, for base 16 a prefix \<open>0x\<close>, and digits; a \<open>long\<close>, which saturates.\<close>

definition digit_of :: "int \<Rightarrow> char \<Rightarrow> int option" where
  "digit_of base c =
     (let n = schar c;
          d = (if 48 \<le> n \<and> n \<le> 57 then n - 48 else if 97 \<le> n \<and> n \<le> 122 then n - 87
               else if 65 \<le> n \<and> n \<le> 90 then n - 55 else 36)
      in if d < base then Some d else None)"

fun digits_base :: "int \<Rightarrow> int \<Rightarrow> string \<Rightarrow> int" where
  "digits_base base n [] = n"
| "digits_base base n (c # s) = (case digit_of base c of None \<Rightarrow> n | Some d \<Rightarrow> digits_base base (n * base + d) s)"

definition skip_0x :: "int \<Rightarrow> string \<Rightarrow> string" where
  "skip_0x base s =
     (case s of
        a # x # d # s' \<Rightarrow> if base = 16 \<and> a = CHR ''0'' \<and> (x = CHR ''x'' \<or> x = CHR ''X'') \<and> digit_of 16 d \<noteq> None then d # s' else s
      | _ \<Rightarrow> s)"

definition strtol :: "string \<Rightarrow> int \<Rightarrow> int" where
  "strtol s base =
     (let t = dropWhile is_space s;
          neg = (t \<noteq> [] \<and> hd t = CHR ''-'');
          u = (if t \<noteq> [] \<and> (hd t = CHR ''-'' \<or> hd t = CHR ''+'') then tl t else t);
          n = digits_base base 0 (skip_0x base u)
      in max (- (2 ^ 63)) (min (2 ^ 63 - 1) (if neg then - n else n)))"

text \<open>The \<open>long\<close> is assigned to an \<open>int\<close>.\<close>

definition int_of_long :: "int \<Rightarrow> int" where
  "int_of_long n = sint (word_of_int n :: 32 word)"

type_synonym response_scan = "httpclient_parser \<times> response_event list"

fun response_act :: "string \<Rightarrow> nat \<Rightarrow> response_action \<Rightarrow> response_scan \<Rightarrow> response_scan" where
  "response_act buffer p Rsp_mark (q, evs) = (q\<lparr>hc_mark := pos p\<rparr>, evs)"
| "response_act buffer p Rsp_start_field (q, evs) = (q\<lparr>hc_field_start := pos p\<rparr>, evs)"
| "response_act buffer p Rsp_write_field (q, evs) = (q\<lparr>hc_field_len := pos p - hc_field_start q\<rparr>, evs)"
| "response_act buffer p Rsp_start_value (q, evs) = (q\<lparr>hc_mark := pos p\<rparr>, evs)"
| "response_act buffer p Rsp_write_content_len (q, evs) =
     (q\<lparr>hc_content_len := int_of_long (strtol (ptr_to buffer (hc_mark q)) 10)\<rparr>, evs)"
| "response_act buffer p Rsp_write_connection_close (q, evs) = (q\<lparr>hc_close := 1\<rparr>, evs)"
| "response_act buffer p Rsp_write_value (q, evs) =
     (q, evs @ [OnRspField (ptr_to buffer (hc_field_start q)) (unat (hc_field_len q))
                           (ptr_to buffer (hc_mark q)) (len_from (hc_mark q) p)])"
| "response_act buffer p Rsp_reason_phrase (q, evs) =
     (q, evs @ [OnReason (ptr_to buffer (hc_mark q)) (len_from (hc_mark q) p)])"
| "response_act buffer p Rsp_status_code (q, evs) =
     (q\<lparr>hc_status := int_of_long (strtol (ptr_to buffer (hc_mark q)) 10)\<rparr>,
      evs @ [OnStatus (ptr_to buffer (hc_mark q)) (len_from (hc_mark q) p)])"
| "response_act buffer p Rsp_http_version (q, evs) =
     (q, evs @ [OnRspVersion (ptr_to buffer (hc_mark q)) (len_from (hc_mark q) p)])"
| "response_act buffer p Rsp_chunk_size (q, evs) =
     (let n = int_of_long (strtol (ptr_to buffer (hc_mark q)) 16);
          over = n \<le> 0;
          ev = (if over then OnLastChunk else OnChunk)
      in (q\<lparr>hc_chunked := 1, hc_content_len := n, hc_chunks_done := (if over then 1 else 0)\<rparr>,
          evs @ [ev (ptr_to buffer (hc_mark q)) (len_from (hc_mark q) p)]))"
| "response_act buffer p Rsp_trans_chunked (q, evs) = (q\<lparr>hc_chunked := 1\<rparr>, evs)"
| "response_act buffer p Rsp_done (q, evs) =
     (q\<lparr>hc_body_start := pos p + 1\<rparr>, evs @ [OnRspHeaderDone (drop (p + 1) buffer) (length buffer - p - 1)])"

definition response_machine :: "string \<Rightarrow> (response_action, response_scan) machine" where
  "response_machine buffer =
     \<lparr>m_cases = response_cases, m_trs = response_trs, m_act = response_act buffer, m_breaks = (\<lambda>a. a = Rsp_done)\<rparr>"

section \<open>Operations\<close>

definition httpclient_parser_start :: int where "httpclient_parser_start = 1"
definition httpclient_parser_first_final :: int where "httpclient_parser_first_final = 120"
definition httpclient_parser_error :: int where "httpclient_parser_error = 0"

definition httpclient_parser_init :: "httpclient_parser \<Rightarrow> httpclient_parser" where
  "httpclient_parser_init parser =
     parser\<lparr>hc_cs := httpclient_parser_start, hc_body_start := 0, hc_content_len := -1, hc_chunked := 0, hc_chunks_done := 0,
            hc_mark := 0, hc_nread := 0, hc_field_len := 0, hc_field_start := 0, hc_close := 0\<rparr>"

definition httpclient_parser_has_error :: "httpclient_parser \<Rightarrow> int" where
  "httpclient_parser_has_error parser = (if hc_cs parser = httpclient_parser_error then 1 else 0)"

definition httpclient_parser_is_finished :: "httpclient_parser \<Rightarrow> int" where
  "httpclient_parser_is_finished parser = (if hc_cs parser = httpclient_parser_first_final then 1 else 0)"

definition httpclient_parser_finish :: "httpclient_parser \<Rightarrow> int" where
  "httpclient_parser_finish parser =
     (if httpclient_parser_has_error parser \<noteq> 0 then -1 else if httpclient_parser_is_finished parser \<noteq> 0 then 1 else 0)"

text \<open>
  \<open>httpclient_parser_execute\<close> with \<open>off\<close> 0; the result is an \<open>int\<close> that \<open>HttpResponseParser::execute\<close> takes as a \<open>size_t\<close>,
  so the -1 of a failed check is \<open>2 ^ 64 - 1\<close>.
\<close>

definition httpclient_parser_execute :: "httpclient_parser \<Rightarrow> string \<Rightarrow> nat \<times> httpclient_parser \<times> response_event list" where
  "httpclient_parser_execute parser buffer =
     (let parser0 = parser\<lparr>hc_nread := 0, hc_mark := 0, hc_field_len := 0, hc_field_start := 0\<rparr>;
          (p, cs, parser1, evs) = ragel_scan (response_machine buffer) (hc_cs parser) 0 buffer (parser0, []);
          parser2 = parser1\<lparr>hc_cs := cs, hc_nread := hc_nread parser1 + of_nat p\<rparr>;
          ok = (unat (hc_mark parser2) < length buffer \<and> unat (hc_field_len parser2) \<le> length buffer \<and>
                unat (hc_field_start parser2) < length buffer);
          rt = (if ok then sint (ucast (hc_nread parser2) :: 32 word) else -1)
      in (unat (word_of_int rt :: u64), parser2, evs))"

definition client_parser :: "httpclient_parser client_scanner" where
  "client_parser = \<lparr>cs_exec = httpclient_parser_execute, cs_reinit = httpclient_parser_init, cs_finish = httpclient_parser_finish,
     cs_has_error = httpclient_parser_has_error, cs_chunked = (\<lambda>q. hc_chunked q \<noteq> 0), cs_content_len = hc_content_len,
     cs_chunks_done = (\<lambda>q. hc_chunks_done q \<noteq> 0)\<rparr>"

end
