(* ===== verification/Response_Scan.thy ===== *)
theory Response_Scan
  imports Httpclient_Parser Request_Scan
begin

text \<open>
  What the machine of \<open>Httpclient_Machine\<close> makes of a response: the headers of chunks, and the text that
  \<open>HttpResponse::dump\<close> writes.
\<close>

section \<open>Headers of chunks\<close>

lemma response_machine_simps [simp]:
  "m_cases (response_machine buf) = response_cases" "m_trs (response_machine buf) = response_trs"
  "m_act (response_machine buf) = response_act buf" "m_breaks (response_machine buf) = (\<lambda>a. a = Rsp_done)"
  by (simp_all add: response_machine_def)

lemma chunk_states:
  assumes "xdigit ch"
  shows "response_cases 1 (schar ch) = Tr 0" "response_cases 2 (schar ch) = St 2"
  using assms unfolding xdigit_def Let_def
  by (elim disjE; simp add: response_cases_def response_cases_1_def)+

lemma chunk_ends:
  "response_cases 2 13 = Tr 4" "response_cases 3 10 = Tr 7"
  by (simp_all add: response_cases_def response_cases_1_def response_cases_2_def)

lemma chunk_trs:
  "response_trs 0 = ([Rsp_mark], 2)" "response_trs 4 = ([Rsp_chunk_size], 3)" "response_trs 7 = ([Rsp_done], 120)"
  by (simp_all add: response_trs_def response_table_def response_trs_1_def response_trs_2_def)

lemma digit_of_digit_char:
  assumes "d < 16" "int d < base"
  shows "digit_of base (digit_char d) = Some (int d)"
proof -
  have "d \<in> set [0, 1, 2, 3, 4, 5, 6, 7, 8, 9, 10, 11, 12, 13, 14, 15]" using assms(1) by (auto simp: less_eq_Suc_le numeral_eq_Suc le_Suc_eq)
  then show ?thesis using assms(2) by (auto simp: digit_of_def digit_char_def schar_def)
qed

lemma digits_base_show:
  assumes "1 < b" "b \<le> 16"
  shows "digits_base (int b) 0 (show_base b n @ s) = digits_base (int b) (int n) s"
proof (induction n arbitrary: s rule: less_induct)
  case (less n)
  show ?case
  proof (cases "n < b")
    case True
    then show ?thesis using assms by (subst show_base.simps) (simp add: digit_of_digit_char)
  next
    case False
    have "n div b < n" using False assms by (intro div_less_dividend) auto
    from less.IH [OF this, of "digit_char (n mod b) # s"]
    have "digits_base (int b) 0 (show_base b n @ s) = digits_base (int b) (int (n div b)) (digit_char (n mod b) # s)"
      using False assms by (subst show_base.simps) simp
    moreover have "digit_of (int b) (digit_char (n mod b)) = Some (int (n mod b))"
      using assms mod_less_divisor [of b n] by (intro digit_of_digit_char) linarith+
    moreover have "int (n div b) * int b + int (n mod b) = int n" by (metis div_mult_mod_eq of_nat_add of_nat_mult)
    ultimately show ?thesis by simp
  qed
qed

lemma digit_set_facts: "c \<in> digit_set \<Longrightarrow> xdigit c \<and> \<not> is_space c \<and> c \<notin> {CHR ''-'', CHR ''+'', CHR ''x'', CHR ''X''}"
  by (auto simp: digit_set_def xdigit_def schar_def is_space_def)

lemma strtol_show:
  assumes b: "b = 10 \<or> b = 16" and n: "n < 2 ^ 63" and c: "digit_of (int b) c = None" "c \<notin> {CHR ''x'', CHR ''X''}"
  shows "strtol (show_base b n @ c # t) (int b) = int n"
proof -
  let ?s = "show_base b n @ c # t"
  have d: "set (show_base b n) \<subseteq> digit_set" by (rule set_show_base)
  obtain a u where a: "show_base b n = a # u" by (cases "show_base b n") auto
  then have "\<not> is_space a" "a \<noteq> CHR ''-''" "a \<noteq> CHR ''+''" using d digit_set_facts [of a] by auto
  moreover have "skip_0x (int b) ?s = ?s"
  proof (cases u)
    case Nil
    then show ?thesis using c(2) by (simp add: skip_0x_def a split: list.splits)
  next
    case (Cons x u')
    then have "x \<in> digit_set" using d a by simp
    then show ?thesis using digit_set_facts [of x] by (simp add: skip_0x_def a Cons split: list.splits)
  qed
  moreover have "digits_base (int b) 0 ?s = int n" using digits_base_show [of b n "c # t"] b c by auto
  ultimately show ?thesis using n a by (simp add: strtol_def)
qed

lemma int_of_long_small: "n < 2 ^ 31 \<Longrightarrow> int_of_long (int n) = int n"
  by (simp add: int_of_long_def signed_of_nat signed_take_bit_int_eq_self)

definition chunk_header :: "nat \<Rightarrow> string" where
  "chunk_header n = show_hex n @ crlf"

lemma scan_chunk_header:
  assumes v: "int_of_long (strtol (ptr_to buf (pos 0)) 16) = int n"
  shows "\<exists>q' evs. ragel_scan (response_machine buf) 1 0 (chunk_header n @ rest) (q, []) = (length (chunk_header n), 120, (q', evs)) \<and>
      list_all chunk_event evs \<and> hc_content_len q' = int n \<and> hc_chunks_done q' = (if n = 0 then 1 else 0) \<and> hc_mark q' = pos 0 \<and>
      hc_nread q' = hc_nread q \<and> hc_field_start q' = hc_field_start q \<and> hc_field_len q' = hc_field_len q"
proof -
  let ?M = "response_machine buf" and ?q = "q\<lparr>hc_mark := pos 0\<rparr>"
  obtain a u where a: "show_base 16 n = a # u" by (cases "show_base 16 n") auto
  have x: "xdigit a" "\<forall>c\<in>set u. xdigit c" using set_show_base [of 16 n] digit_set_facts by (auto simp: a)
  have "feed ?M 2 1 u (?q, []) = Some (2, (?q, []))" using x by (intro feed_loop) (auto simp: chunk_states)
  from ragel_scan_feed [OF this, of "crlf @ rest"]
  have "ragel_scan ?M 1 0 (chunk_header n @ rest) (q, []) = ragel_scan ?M 2 (Suc (length u)) (crlf @ rest) (?q, [])"
    using x by (simp add: chunk_header_def show_hex_def a chunk_states chunk_trs)
  also have "\<dots> = (length (chunk_header n), 120, response_act buf (Suc (Suc (length u))) Rsp_done (response_act buf (Suc (length u)) Rsp_chunk_size (?q, [])))"
    by (simp add: crlf_def chunk_ends chunk_trs chunk_header_def show_hex_def a del: response_act.simps)
  finally show ?thesis using v by (simp add: Let_def)
qed

lemma sint_small: "n < 2 ^ 31 \<Longrightarrow> sint (of_nat n :: 32 word) = int n"
  by (simp add: signed_of_nat signed_take_bit_int_eq_self)

text \<open>The result of \<open>execute\<close> when nothing fails.\<close>

lemma client_execute:
  assumes "ragel_scan (response_machine buf) (hc_cs parser) 0 buf (parser\<lparr>hc_nread := 0, hc_mark := 0, hc_field_len := 0, hc_field_start := 0\<rparr>, []) =
      (p, cs, (q, evs))" and "hc_nread q = 0" and "length buf < 2 ^ 31"
    and "unat (hc_mark q) < length buf" "unat (hc_field_len q) \<le> length buf" "unat (hc_field_start q) < length buf"
  shows "httpclient_parser_execute parser buf = (p, q\<lparr>hc_cs := cs, hc_nread := of_nat p\<rparr>, evs)"
proof -
  have p: "p < 2 ^ 31" using ragel_scan_position [OF assms(1)] assms(3) by simp
  then have "sint (ucast (of_nat p :: u64) :: 32 word) = int p"
    using p by (simp add: unsigned_of_nat take_bit_nat_eq_self signed_of_nat signed_take_bit_int_eq_self)
  then show ?thesis using assms p
    by (simp add: httpclient_parser_execute_def unsigned_of_nat take_bit_nat_eq_self signed_of_nat signed_take_bit_int_eq_self)
qed

text \<open>So the scanner reads the headers of chunks that \<open>Http_Connection\<close> relies on.\<close>

lemma client_parser_scans_chunk:
  assumes n: "n < 2 ^ 31" and b: "length (chunk_header n @ rest) < 2 ^ 31"
  shows "\<exists>q evs. cs_exec client_parser (cs_reinit client_parser p) (chunk_header n @ rest) = (length (chunk_header n), q, evs) \<and>
    list_all chunk_event evs \<and> cs_has_error client_parser q = 0 \<and> cs_finish client_parser q \<noteq> 0 \<and>
    cs_content_len client_parser q = int n \<and> cs_chunks_done client_parser q = (n = 0)"
proof -
  let ?buf = "chunk_header n @ rest" and ?init = "httpclient_parser_init p"
  have "ptr_to ?buf (pos 0) = show_base 16 n @ CHR 0x0D # CHR 0x0A # rest"
    by (simp add: chunk_header_def show_hex_def crlf_def)
  then have "int_of_long (strtol (ptr_to ?buf (pos 0)) 16) = int n"
    using strtol_show [of 16 n "CHR 0x0D" "CHR 0x0A # rest"] n int_of_long_small [OF n]
    by (simp add: digit_of_def schar_def)
  from scan_chunk_header [OF this, of rest "?init\<lparr>hc_nread := 0, hc_mark := 0, hc_field_len := 0, hc_field_start := 0\<rparr>"]
  obtain q evs where s: "ragel_scan (response_machine ?buf) 1 0 ?buf (?init\<lparr>hc_nread := 0, hc_mark := 0, hc_field_len := 0, hc_field_start := 0\<rparr>, []) =
      (length (chunk_header n), 120, (q, evs))" and q: "list_all chunk_event evs" "hc_content_len q = int n" "hc_chunks_done q = (if n = 0 then 1 else 0)"
      "hc_mark q = pos 0" "hc_nread q = 0" "hc_field_start q = 0" "hc_field_len q = 0"
    by auto
  have ne: "chunk_header n \<noteq> []" by (simp add: chunk_header_def crlf_def)
  have "httpclient_parser_execute ?init ?buf = (length (chunk_header n), q\<lparr>hc_cs := 120, hc_nread := of_nat (length (chunk_header n))\<rparr>, evs)"
    using s q b ne by (intro client_execute) (simp_all add: httpclient_parser_init_def httpclient_parser_start_def pos_def)
  then show ?thesis
    using q by (simp add: client_parser_def httpclient_parser_has_error_def httpclient_parser_finish_def
        httpclient_parser_is_finished_def httpclient_parser_error_def httpclient_parser_first_final_def)
qed

interpretation chunks: chunk_scanner client_parser chunk_header
proof
  fix n show "chunk_header n \<noteq> []" by (simp add: chunk_header_def crlf_def)
next
  fix n :: nat and rest and p :: httpclient_parser
  assume "n < 2 ^ 31" "length (chunk_header n @ rest) < 2 ^ 31"
  then show "\<exists>q evs. cs_exec client_parser (cs_reinit client_parser p) (chunk_header n @ rest) = (length (chunk_header n), q, evs) \<and>
    list_all chunk_event evs \<and> cs_has_error client_parser q = 0 \<and> cs_finish client_parser q \<noteq> 0 \<and>
    cs_content_len client_parser q = int n \<and> cs_chunks_done client_parser q = (n = 0)"
    by (rule client_parser_scans_chunk)
qed

lemmas response_eval = httpclient_parser_execute_def httpclient_parser_init_def httpclient_parser_has_error_def
  httpclient_parser_is_finished_def httpclient_parser_finish_def httpclient_parser_start_def httpclient_parser_error_def
  httpclient_parser_first_final_def response_cases_def response_trs_def response_table_def
  response_cases_1_def response_cases_2_def response_cases_3_def response_cases_4_def response_cases_5_def response_cases_6_def response_cases_7_def response_cases_8_def response_cases_9_def response_cases_10_def response_cases_11_def response_cases_12_def response_cases_13_def response_cases_14_def response_cases_15_def response_cases_16_def response_cases_17_def response_cases_18_def response_cases_19_def response_cases_20_def response_cases_21_def response_cases_22_def
  response_trs_1_def response_trs_2_def response_trs_3_def response_trs_4_def response_trs_5_def response_trs_8_def response_trs_9_def response_trs_13_def response_trs_14_def response_trs_16_def response_trs_17_def response_trs_18_def response_trs_21_def response_trs_22_def
  ptr_to_def len_from_def pos_def crlf_def schar_def

section \<open>Properties\<close>



text \<open>The length of a chunk is cut to an \<open>int\<close>: a chunk of \<open>2 ^ 32\<close> bytes counts as the last one.\<close>

theorem large_chunk_ends_body:
  "case httpclient_parser_execute (httpclient_parser_init parser) (''100000000'' @ crlf) of (n, parser1, evs) \<Rightarrow>
     httpclient_parser_finish parser1 = 1 \<and> hc_content_len parser1 = 0 \<and> hc_chunks_done parser1 = 1"
  by (simp add: response_eval strtol_def skip_0x_def digit_of_def is_space_def int_of_long_def)

text \<open>A chunk's header in two reads: the second call starts a new parser, so the digits of the first read are lost.\<close>

theorem split_chunk_header_misread:
  "case response_execute client_parser p ''1'' True of (n, p1, rest1) \<Rightarrow>
     case response_execute client_parser p1 (rest1 @ ''a'' @ crlf) True of (m, p2, rest2) \<Rightarrow>
       rest1 = [] \<and> response_isFinished client_parser p2 \<and> cs_content_len client_parser (ps_parser p2) = 10"
  by (simp add: response_execute_def response_isFinished_def client_parser_def response_eval strtol_def skip_0x_def digit_of_def is_space_def int_of_long_def)

text \<open>
  An empty \<open>Connection\<close> field at the end: the head is complete, but the machine stops in a final state other than the first,
  for which \<open>isFinished\<close> is false, and \<open>recvResponse\<close> waits for more.
\<close>

theorem empty_connection_not_finished:
  "case httpclient_parser_execute (httpclient_parser_init parser) (''HTTP/1.1 200 OK'' @ crlf @ ''Connection:'' @ crlf @ crlf) of (n, parser1, evs) \<Rightarrow>
     n = 32 \<and> hc_cs parser1 = 122 \<and> httpclient_parser_finish parser1 = 0 \<and> httpclient_parser_has_error parser1 = 0"
  by (simp add: response_eval strtol_def skip_0x_def digit_of_def is_space_def int_of_long_def)

text \<open>A status line without a reason: the CR becomes the reason.\<close>

theorem empty_reason_is_cr:
  "case httpclient_parser_execute (httpclient_parser_init parser) (''HTTP/1.1 200 '' @ crlf @ crlf) of (n, parser1, evs) \<Rightarrow>
     httpclient_parser_finish parser1 = 1 \<and> filter (\<lambda>e. case e of OnReason at len \<Rightarrow> True | _ \<Rightarrow> False) evs = [OnReason (crlf @ crlf) 1]"
  by (simp add: response_eval strtol_def skip_0x_def digit_of_def is_space_def int_of_long_def)

end
