(* ===== verification/Address.thy ===== *)
theory Address
  imports Byte_Codec C_String
begin

text \<open>
  \<open>src/address.cpp\<close>: socket addresses. The multi-byte fields of an IPv4 or IPv6 address are kept as the
  host reads them from memory, in network order; \<open>host\<close> is the byte order of the machine. What the
  code leaves undefined (a shift by the width of its type, an index outside the address) is \<open>None\<close>.
  The system's resolver and \<open>inet_pton\<close> are inputs.
\<close>

section \<open>Masks and counts\<close>

text \<open>\<open>CreateMask<uint32_t>\<close> and \<open>CreateMask<uint8_t>\<close>: the shift and the subtraction are those of an \<open>int\<close>,
  so a shift by 31 is followed by an overflow and one by 32 or more is undefined itself.\<close>

definition CreateMask32 :: "u32 \<Rightarrow> u32 option" where
  "CreateMask32 bits =
     (let s = 32 - bits in if unat s < 31 then Some (push_bit (unat s) 1 - 1) else None)"

definition CreateMask8 :: "u32 \<Rightarrow> byte option" where
  "CreateMask8 bits =
     (let s = 8 - bits in if unat s < 31 then Some (ucast (push_bit (unat s) (1 :: u32) - 1)) else None)"

text \<open>\<open>CountBytes\<close>: each round clears the lowest set bit.\<close>

lemma and_pred_less:
  fixes v :: "'a::len word"
  assumes "v \<noteq> 0"
  shows "v AND (v - 1) < v"
proof -
  have "v AND (v - 1) \<le> v - 1" by (simp add: word_and_le1)
  also have "v - 1 < v" using assms by (simp add: word_less_1 word_neq_0_conv word_less_nat_alt unat_minus_one)
  finally show ?thesis .
qed

function count_bits :: "u32 \<Rightarrow> 'a::len word \<Rightarrow> u32" where
  "count_bits result value = (if value = 0 then result else count_bits (result + 1) (value AND (value - 1)))"
  by pat_completeness auto
termination
  by (relation "measure (\<lambda>(r, v). unat v)") (auto simp flip: word_less_nat_alt intro: and_pred_less)

declare count_bits.simps [simp del]

definition CountBytes :: "'a::len word \<Rightarrow> u32" where
  "CountBytes value = count_bits 0 value"

section \<open>Addresses\<close>

record sockaddr_in =
  sin_family :: u16
  sin_port :: u16
  sin_addr :: u32
  sin_zero :: "byte list"

record sockaddr_in6 =
  sin6_family :: u16
  sin6_port :: u16
  sin6_flowinfo :: u32
  sin6_addr :: "byte list"
  sin6_scope_id :: u32

record sockaddr_un =
  sun_path :: string
  sun_length :: nat

definition AF_UNSPEC :: u16 where "AF_UNSPEC = 0"
definition AF_UNIX :: u16 where "AF_UNIX = 1"
definition AF_INET :: u16 where "AF_INET = 2"
definition AF_INET6 :: u16 where "AF_INET6 = 10"

datatype address =
    IPv4 sockaddr_in
  | IPv6 sockaddr_in6
  | UnixAddr sockaddr_un
  | Unknow u16 "byte list"

definition getFamily :: "address \<Rightarrow> u16" where
  "getFamily a = (case a of IPv4 x \<Rightarrow> sin_family x | IPv6 x \<Rightarrow> sin6_family x | UnixAddr _ \<Rightarrow> AF_UNIX | Unknow f _ \<Rightarrow> f)"

section \<open>IPv4\<close>

definition IPv4Address :: "endian \<Rightarrow> u32 \<Rightarrow> u16 \<Rightarrow> sockaddr_in" where
  "IPv4Address host addr port =
     \<lparr>sin_family = AF_INET, sin_port = byteswapOnLittleEndian host port, sin_addr = byteswapOnLittleEndian host addr,
      sin_zero = replicate 8 0\<rparr>"

text \<open>\<open>IPv4Address::Create\<close>: \<open>pton\<close> is what \<open>inet_pton\<close> stores, \<open>None\<close> for a failure.\<close>

definition IPv4_Create :: "endian \<Rightarrow> u32 option \<Rightarrow> u16 \<Rightarrow> sockaddr_in option" where
  "IPv4_Create host pton port =
     (case pton of
        None \<Rightarrow> None
      | Some a \<Rightarrow> Some ((IPv4Address host 0 0)\<lparr>sin_port := byteswapOnLittleEndian host port, sin_addr := a\<rparr>))"

definition IPv4_insert :: "endian \<Rightarrow> sockaddr_in \<Rightarrow> string" where
  "IPv4_insert host a =
     (let addr = byteswapOnLittleEndian host (sin_addr a) in
      show_dec (unat (drop_bit 24 addr AND 0xff)) @ ''.'' @ show_dec (unat (drop_bit 16 addr AND 0xff)) @ ''.''
      @ show_dec (unat (drop_bit 8 addr AND 0xff)) @ ''.'' @ show_dec (unat (addr AND 0xff))
      @ '':'' @ show_dec (unat (byteswapOnLittleEndian host (sin_port a))))"

text \<open>The outer option is undefined behaviour, the inner one a null result.\<close>

definition IPv4_broadcastAddress :: "endian \<Rightarrow> sockaddr_in \<Rightarrow> u32 \<Rightarrow> sockaddr_in option option" where
  "IPv4_broadcastAddress host a prefix_len =
     (if 32 < prefix_len then Some None
      else map_option (\<lambda>m. Some (a\<lparr>sin_addr := sin_addr a OR byteswapOnLittleEndian host m\<rparr>)) (CreateMask32 prefix_len))"

definition IPv4_networkAddress :: "endian \<Rightarrow> sockaddr_in \<Rightarrow> u32 \<Rightarrow> sockaddr_in option option" where
  "IPv4_networkAddress host a prefix_len =
     (if 32 < prefix_len then Some None
      else map_option (\<lambda>m. Some (a\<lparr>sin_addr := sin_addr a AND NOT (byteswapOnLittleEndian host m)\<rparr>)) (CreateMask32 prefix_len))"

definition IPv4_subnetMask :: "endian \<Rightarrow> u32 \<Rightarrow> sockaddr_in option" where
  "IPv4_subnetMask host prefix_len =
     map_option (\<lambda>m. \<lparr>sin_family = AF_INET, sin_port = 0, sin_addr = NOT (byteswapOnLittleEndian host m),
                    sin_zero = replicate 8 0\<rparr>) (CreateMask32 prefix_len)"

definition IPv4_getPort :: "endian \<Rightarrow> sockaddr_in \<Rightarrow> u16" where
  "IPv4_getPort host a = byteswapOnLittleEndian host (sin_port a)"

definition IPv4_setPort :: "endian \<Rightarrow> sockaddr_in \<Rightarrow> u16 \<Rightarrow> sockaddr_in" where
  "IPv4_setPort host a v = a\<lparr>sin_port := byteswapOnLittleEndian host v\<rparr>"

section \<open>IPv6\<close>

definition IPv6Address0 :: "sockaddr_in6" where
  "IPv6Address0 = \<lparr>sin6_family = AF_INET6, sin6_port = 0, sin6_flowinfo = 0, sin6_addr = replicate 16 0, sin6_scope_id = 0\<rparr>"

text \<open>The port is a \<open>uint32_t\<close> here: all four bytes are swapped before the result is cut to 16 bits.\<close>

definition IPv6Address :: "endian \<Rightarrow> byte list \<Rightarrow> u32 \<Rightarrow> sockaddr_in6" where
  "IPv6Address host addr port =
     IPv6Address0\<lparr>sin6_port := ucast (byteswapOnLittleEndian host port), sin6_addr := take 16 addr\<rparr>"

definition IPv6_Create :: "endian \<Rightarrow> byte list option \<Rightarrow> u32 \<Rightarrow> sockaddr_in6 option" where
  "IPv6_Create host pton port =
     (case pton of
        None \<Rightarrow> None
      | Some a \<Rightarrow> Some (IPv6Address0\<lparr>sin6_port := ucast (byteswapOnLittleEndian host port), sin6_addr := a\<rparr>))"

definition IPv6_getPort :: "endian \<Rightarrow> sockaddr_in6 \<Rightarrow> u16" where
  "IPv6_getPort host a = byteswapOnLittleEndian host (sin6_port a)"

definition IPv6_setPort :: "endian \<Rightarrow> sockaddr_in6 \<Rightarrow> u16 \<Rightarrow> sockaddr_in6" where
  "IPv6_setPort host a v = a\<lparr>sin6_port := byteswapOnLittleEndian host v\<rparr>"

text \<open>The eight groups as the host reads them, and the loop over them from group \<open>i\<close> on; \<open>prev\<close> is the
  group before, \<open>None\<close> for the first.\<close>

definition groups :: "endian \<Rightarrow> byte list \<Rightarrow> u16 list" where
  "groups host bs = map (\<lambda>i. of_mem host (take 2 (drop (2 * i) bs))) [0..<8]"

fun insert_groups :: "endian \<Rightarrow> u16 option \<Rightarrow> bool \<Rightarrow> u16 list \<Rightarrow> string \<times> bool" where
  "insert_groups host prev used_zeros [] = ([], used_zeros)"
| "insert_groups host prev used_zeros (g # gs) =
     (if g = 0 \<and> \<not> used_zeros then insert_groups host (Some g) used_zeros gs
      else
        let zeros = (prev = Some 0 \<and> \<not> used_zeros);
            used = (used_zeros \<or> zeros);
            text = (if zeros then '':'' else []) @ (if prev \<noteq> None then '':'' else [])
                     @ show_hex (unat (byteswapOnLittleEndian host g))
        in case insert_groups host (Some g) used gs of (rest, u) \<Rightarrow> (text @ rest, u))"

definition IPv6_insert :: "endian \<Rightarrow> sockaddr_in6 \<Rightarrow> string" where
  "IPv6_insert host a =
     (let gs = groups host (sin6_addr a) in
      case insert_groups host None False gs of (text, used_zeros) \<Rightarrow>
        ''['' @ text @ (if \<not> used_zeros \<and> gs ! 7 = 0 then ''::'' else [])
        @ '']:'' @ show_dec (unat (byteswapOnLittleEndian host (sin6_port a))))"

definition IPv6_broadcastAddress :: "sockaddr_in6 \<Rightarrow> u32 \<Rightarrow> sockaddr_in6 option" where
  "IPv6_broadcastAddress a prefix_len =
     (let k = unat prefix_len div 8; bs = sin6_addr a in
      if k < length bs then
        map_option (\<lambda>m. a\<lparr>sin6_addr := take k bs @ [bs ! k OR m] @ replicate (16 - (k + 1)) 0xff\<rparr>)
          (CreateMask8 (prefix_len mod 8))
      else None)"

definition IPv6_networkAddress :: "sockaddr_in6 \<Rightarrow> u32 \<Rightarrow> sockaddr_in6 option" where
  "IPv6_networkAddress a prefix_len =
     (let k = unat prefix_len div 8; bs = sin6_addr a in
      if k < length bs then
        map_option (\<lambda>m. a\<lparr>sin6_addr := bs[k := bs ! k AND m]\<rparr>) (CreateMask8 (prefix_len mod 8))
      else None)"

definition IPv6_subnetMask :: "u32 \<Rightarrow> sockaddr_in6 option" where
  "IPv6_subnetMask prefix_len =
     (let k = unat prefix_len div 8 in
      if k < 16 then
        map_option (\<lambda>m. IPv6Address0\<lparr>sin6_addr := replicate k 0xff @ [NOT m] @ replicate (16 - (k + 1)) 0\<rparr>)
          (CreateMask8 (prefix_len mod 8))
      else None)"

section \<open>Local and unknown addresses\<close>

definition UnixAddress0 :: sockaddr_un where
  "UnixAddress0 = \<lparr>sun_path = replicate 108 (CHR 0x00), sun_length = 2 + 107\<rparr>"

text \<open>A path that starts with NUL is an abstract name, without a closing NUL; \<open>None\<close> is the exception.\<close>

definition UnixAddress :: "string \<Rightarrow> sockaddr_un option" where
  "UnixAddress path =
     (let n = (if path \<noteq> [] \<and> hd path = CHR 0x00 then length path else length path + 1) in
      if 108 < n then None
      else Some \<lparr>sun_path = list_write (replicate 108 (CHR 0x00)) 0 (take n (path @ [CHR 0x00])), sun_length = n + 2\<rparr>)"

definition Unix_setAddrLen :: "sockaddr_un \<Rightarrow> nat \<Rightarrow> sockaddr_un" where
  "Unix_setAddrLen a v = a\<lparr>sun_length := v\<rparr>"

definition Unix_insert :: "sockaddr_un \<Rightarrow> string" where
  "Unix_insert a =
     (if 2 < sun_length a \<and> hd (sun_path a) = CHR 0x00
      then [CHR 0x5C, CHR ''0''] @ take (sun_length a - 2 - 1) (drop 1 (sun_path a))
      else cstr (sun_path a))"

definition Unknow_insert :: "u16 \<Rightarrow> string" where
  "Unknow_insert family = ''[UnknownAddress family='' @ show_dec (unat family) @ '']''"

definition address_toString :: "endian \<Rightarrow> address \<Rightarrow> string" where
  "address_toString host a = (case a of
     IPv4 x \<Rightarrow> IPv4_insert host x | IPv6 x \<Rightarrow> IPv6_insert host x | UnixAddr x \<Rightarrow> Unix_insert x | Unknow f _ \<Rightarrow> Unknow_insert f)"

text \<open>\<open>Address::Create\<close> from the system's address; \<open>raw\<close> is it read as each of the three structures.\<close>

record raw_sockaddr =
  raw_family :: u16
  raw_in :: sockaddr_in
  raw_in6 :: sockaddr_in6
  raw_bytes :: "byte list"

definition of_sockaddr :: "raw_sockaddr \<Rightarrow> address" where
  "of_sockaddr r =
     (if raw_family r = AF_INET then IPv4 (raw_in r)
      else if raw_family r = AF_INET6 then IPv6 (raw_in6 r)
      else Unknow (raw_family r) (raw_bytes r))"

definition Address_Create :: "raw_sockaddr option \<Rightarrow> address option" where
  "Address_Create addr = (case addr of None \<Rightarrow> None | Some r \<Rightarrow> Some (of_sockaddr r))"

section \<open>Comparison\<close>

definition getAddrLen :: "address \<Rightarrow> nat" where
  "getAddrLen a = (case a of IPv4 _ \<Rightarrow> 16 | IPv6 _ \<Rightarrow> 28 | UnixAddr x \<Rightarrow> sun_length x | Unknow _ _ \<Rightarrow> 16)"

text \<open>The memory behind \<open>getAddr\<close>.\<close>

definition addr_bytes :: "endian \<Rightarrow> address \<Rightarrow> byte list" where
  "addr_bytes host a = (case a of
     IPv4 x \<Rightarrow> mem_bytes host (sin_family x) @ mem_bytes host (sin_port x) @ mem_bytes host (sin_addr x) @ sin_zero x
   | IPv6 x \<Rightarrow> mem_bytes host (sin6_family x) @ mem_bytes host (sin6_port x) @ mem_bytes host (sin6_flowinfo x)
       @ sin6_addr x @ mem_bytes host (sin6_scope_id x)
   | UnixAddr x \<Rightarrow> mem_bytes host AF_UNIX @ map of_char (sun_path x)
   | Unknow f bs \<Rightarrow> mem_bytes host f @ bs)"

text \<open>The arrays have their size and the length stays inside the structure.\<close>

definition addr_ok :: "address \<Rightarrow> bool" where
  "addr_ok a \<longleftrightarrow> (case a of
     IPv4 x \<Rightarrow> length (sin_zero x) = 8
   | IPv6 x \<Rightarrow> length (sin6_addr x) = 16
   | UnixAddr x \<Rightarrow> length (sun_path x) = 108 \<and> sun_length x \<le> 110
   | Unknow _ bs \<Rightarrow> length bs = 14)"

definition memcmp :: "byte list \<Rightarrow> byte list \<Rightarrow> nat \<Rightarrow> int" where
  "memcmp xs ys n = byte_diff (map unat (take n xs)) (map unat (take n ys))"

definition address_less :: "endian \<Rightarrow> address \<Rightarrow> address \<Rightarrow> bool" where
  "address_less host a b =
     (let la = getAddrLen a; lb = getAddrLen b;
          result = memcmp (addr_bytes host a) (addr_bytes host b) (min la lb)
      in if result = 0 then la < lb else result < 0)"

definition address_eq :: "endian \<Rightarrow> address \<Rightarrow> address \<Rightarrow> bool" where
  "address_eq host a b \<longleftrightarrow> getAddrLen a = getAddrLen b \<and>
     memcmp (addr_bytes host a) (addr_bytes host b) (getAddrLen a) = 0"

section \<open>Looking up a host\<close>

fun memchr :: "string \<Rightarrow> char \<Rightarrow> nat option" where
  "memchr [] c = None"
| "memchr (x # xs) c = (if x = c then Some 0 else map_option Suc (memchr xs c))"

text \<open>The node and the service that \<open>Lookup\<close> hands to \<open>getaddrinfo\<close>.\<close>

definition split_host :: "string \<Rightarrow> string \<times> string option" where
  "split_host host =
     (let (node, service) =
        (if host \<noteq> [] \<and> hd host = CHR ''['' then
           (case memchr (tl host) (CHR '']'') of
              None \<Rightarrow> ([], None)
            | Some k \<Rightarrow> (take k (tl host),
                 if take 1 (drop (k + 2) host) = '':'' then Some (drop (k + 3) host) else None))
         else ([], None));
        (node, service) =
        (if node = [] then
           (case memchr host (CHR '':'') of
              None \<Rightarrow> (node, None)
            | Some i \<Rightarrow>
                if memchr (drop (i + 1) host) (CHR '':'') = None then (take i host, Some (drop (i + 1) host))
                else (node, Some (drop i host)))
         else (node, service))
      in (if node = [] then host else node, service))"

text \<open>\<open>getaddrinfo\<close> stands for the system's resolver under the given hints. \<open>Lookup\<close> appends to \<open>result\<close>.\<close>

definition Lookup :: "(string \<Rightarrow> string option \<Rightarrow> raw_sockaddr list option) \<Rightarrow> string \<Rightarrow> address list \<Rightarrow> bool \<times> address list" where
  "Lookup getaddrinfo host result =
     (case split_host host of (node, service) \<Rightarrow>
        (case getaddrinfo (cstr node) (map_option cstr service) of
           None \<Rightarrow> (False, result)
         | Some results \<Rightarrow> let result = result @ map of_sockaddr results in (result \<noteq> [], result)))"

definition LookupAny :: "(string \<Rightarrow> string option \<Rightarrow> raw_sockaddr list option) \<Rightarrow> string \<Rightarrow> address option" where
  "LookupAny getaddrinfo host =
     (case Lookup getaddrinfo host [] of (ok, result) \<Rightarrow> if ok then Some (result ! 0) else None)"

fun is_ip :: "address \<Rightarrow> bool" where
  "is_ip (IPv4 _) = True" | "is_ip (IPv6 _) = True" | "is_ip _ = False"

definition LookupAnyIPAddress :: "(string \<Rightarrow> string option \<Rightarrow> raw_sockaddr list option) \<Rightarrow> string \<Rightarrow> address option" where
  "LookupAnyIPAddress getaddrinfo host =
     (case Lookup getaddrinfo host [] of (ok, result) \<Rightarrow> if ok then find is_ip result else None)"

definition setPort :: "endian \<Rightarrow> address \<Rightarrow> u16 \<Rightarrow> address" where
  "setPort host a v = (case a of IPv4 x \<Rightarrow> IPv4 (IPv4_setPort host x v) | IPv6 x \<Rightarrow> IPv6 (IPv6_setPort host x v) | _ \<Rightarrow> a)"

text \<open>\<open>IPAddress::Create\<close> with the first result of the resolver.\<close>

definition IPAddress_Create :: "endian \<Rightarrow> raw_sockaddr option \<Rightarrow> u16 \<Rightarrow> address option" where
  "IPAddress_Create host resolved port =
     (case Address_Create resolved of
        None \<Rightarrow> None
      | Some a \<Rightarrow> if is_ip a then Some (setPort host a port) else None)"

section \<open>Interfaces\<close>

text \<open>One entry of the system's list; the entries with another family than the wanted one are skipped, and so
  are those that are neither IPv4 nor IPv6. An entry without an address is a null pointer the loop reads: the
  result is \<open>None\<close>. The multimap keeps the order of equal names.\<close>

record ifaddr =
  ifa_name :: string
  ifa_addr :: "raw_sockaddr option"
  ifa_mask :: u32
  ifa_mask6 :: "byte list"

definition interface_entry :: "u16 \<Rightarrow> ifaddr \<Rightarrow> (string \<times> address \<times> u16) list option" where
  "interface_entry family i =
     (case ifa_addr i of
        None \<Rightarrow> None
      | Some sa \<Rightarrow> Some
          (if family \<noteq> AF_UNSPEC \<and> family \<noteq> raw_family sa then []
           else if raw_family sa = AF_INET then [(ifa_name i, of_sockaddr sa, ucast (CountBytes (ifa_mask i)))]
           else if raw_family sa = AF_INET6 then
             [(ifa_name i, of_sockaddr sa, ucast (foldl (\<lambda>n b. n + CountBytes b) 0 (take 16 (ifa_mask6 i))))]
           else []))"

fun interface_loop :: "u16 \<Rightarrow> ifaddr list \<Rightarrow> (string \<times> address \<times> u16) list \<Rightarrow> (string \<times> address \<times> u16) list option" where
  "interface_loop family [] result = Some result"
| "interface_loop family (i # is) result =
     (case interface_entry family i of None \<Rightarrow> None | Some e \<Rightarrow> interface_loop family is (result @ e))"

text \<open>The inner option is the return value \<open>false\<close>.\<close>

definition GetInterfaceAddress :: "ifaddr list option \<Rightarrow> u16 \<Rightarrow> (string \<times> address \<times> u16) list option option" where
  "GetInterfaceAddress ifs family =
     (case ifs of None \<Rightarrow> Some None | Some is \<Rightarrow> map_option Some (interface_loop family is []))"

definition GetInterfaceAddress_of :: "ifaddr list option \<Rightarrow> string \<Rightarrow> u16 \<Rightarrow> (address \<times> u16) list option option" where
  "GetInterfaceAddress_of ifs iface family =
     (if iface = [] \<or> iface = ''*'' then
        Some (Some ((if family = AF_INET \<or> family = AF_UNSPEC then [(IPv4 (IPv4Address Little 0 0), 0)] else [])
              @ (if family = AF_INET6 \<or> family = AF_UNSPEC then [(IPv6 IPv6Address0, 0)] else [])))
      else map_option (map_option (\<lambda>rs. map snd (filter (\<lambda>r. fst r = iface) rs))) (GetInterfaceAddress ifs family))"

end
