(* ===== verification/Uri.thy ===== *)
theory Uri
  imports Address
begin

text \<open>
  The methods of \<open>Uri\<close> in \<open>src/uri.rl.cc\<close> behind the scanner that Ragel generates: the default ports, the text of a URI
  and its address. The resolver is a parameter.
\<close>

section \<open>The components of a URI\<close>

record uri =
  m_scheme :: string
  m_userinfo :: string
  m_host :: string
  m_path :: string
  m_query :: string
  m_fragment :: string
  m_port :: int

definition Uri_new :: uri where
  "Uri_new = \<lparr>m_scheme = [], m_userinfo = [], m_host = [], m_path = [], m_query = [], m_fragment = [], m_port = 0\<rparr>"

definition isDefaultPort :: "uri \<Rightarrow> bool" where
  "isDefaultPort u =
     (if m_port u = 0 then True
      else if m_scheme u = ''http'' \<or> m_scheme u = ''ws'' then m_port u = 80
      else if m_scheme u = ''https'' \<or> m_scheme u = ''wss'' then m_port u = 443
      else False)"

definition Uri_getPath :: "uri \<Rightarrow> string" where
  "Uri_getPath u = (if m_path u = [] then ''/'' else m_path u)"

definition Uri_getPort :: "uri \<Rightarrow> int" where
  "Uri_getPort u =
     (if m_port u \<noteq> 0 then m_port u
      else if m_scheme u = ''http'' \<or> m_scheme u = ''ws'' then 80
      else if m_scheme u = ''https'' \<or> m_scheme u = ''wss'' then 443
      else m_port u)"

definition Uri_dump :: "uri \<Rightarrow> string" where
  "Uri_dump u =
     m_scheme u @ ''://'' @ m_userinfo u @ (if m_userinfo u = [] then [] else ''@'') @ m_host u
     @ (if isDefaultPort u then [] else '':'' @ show_int (m_port u)) @ Uri_getPath u
     @ (if m_query u = [] then [] else ''?'') @ m_query u @ (if m_fragment u = [] then [] else ''#'') @ m_fragment u"

definition Uri_toString :: "uri \<Rightarrow> string" where "Uri_toString u = Uri_dump u"

text \<open>The port is passed as a \<open>uint16_t\<close>.\<close>

definition Uri_createAddress :: "(string \<Rightarrow> string option \<Rightarrow> raw_sockaddr list option) \<Rightarrow> endian \<Rightarrow> uri \<Rightarrow> address option" where
  "Uri_createAddress getaddrinfo host u =
     map_option (\<lambda>a. setPort host a (word_of_int (Uri_getPort u))) (LookupAnyIPAddress getaddrinfo (m_host u))"

section \<open>Reading a text\<close>

definition before :: "char \<Rightarrow> string \<Rightarrow> string" where "before c s = takeWhile (\<lambda>x. x \<noteq> c) s"
definition after :: "char \<Rightarrow> string \<Rightarrow> string" where "after c s = drop 1 (dropWhile (\<lambda>x. x \<noteq> c) s)"

lemma before_after [simp]:
  "c \<notin> set a \<Longrightarrow> before c (a @ c # b) = a" "c \<notin> set a \<Longrightarrow> after c (a @ c # b) = b"
  "c \<notin> set a \<Longrightarrow> before c a = a" "c \<notin> set a \<Longrightarrow> after c a = []"
  by (induction a) (auto simp: before_def after_def)

text \<open>The parts between the delimiters of a URI's grammar: scheme, user, host, port, path, query and fragment.\<close>

definition uri_parts_of :: "string \<Rightarrow> string \<times> string \<times> string \<times> string \<times> string \<times> string \<times> string" where
  "uri_parts_of s =
     (let rest = drop 2 (after CHR '':'' s);
          auth = before CHR ''/'' rest;
          tail = dropWhile (\<lambda>x. x \<noteq> CHR ''/'') rest;
          hp = (if CHR ''@'' \<in> set auth then after CHR ''@'' auth else auth);
          pq = before CHR ''#'' tail
      in (before CHR '':'' s, if CHR ''@'' \<in> set auth then before CHR ''@'' auth else [],
          before CHR '':'' hp, after CHR '':'' hp, before CHR ''?'' pq, after CHR ''?'' pq, after CHR ''#'' tail))"

text \<open>A URI whose components hold no delimiter that ends them; its path is empty or absolute.\<close>

definition uri_ok :: "uri \<Rightarrow> bool" where
  "uri_ok u \<longleftrightarrow> CHR '':'' \<notin> set (m_scheme u) \<and> set (m_userinfo u) \<inter> set ''@/'' = {} \<and>
     set (m_host u) \<inter> set ''@:/'' = {} \<and> (m_path u = [] \<or> hd (m_path u) = CHR ''/'') \<and>
     set (m_path u) \<inter> set ''?#'' = {} \<and> CHR ''#'' \<notin> set (m_query u)"

lemma set_show_int: "set (show_int i) \<subseteq> insert CHR ''-'' digit_set"
  using set_show_base [of 10] by (auto simp: show_int_def show_dec_def)

lemma show_int_delims [simp]: "CHR ''/'' \<notin> set (show_int i)" "CHR ''@'' \<notin> set (show_int i)"
  using set_show_int [of i] by (auto simp: digit_set_def)

lemma drop_to_path: "CHR ''/'' \<notin> set a \<Longrightarrow> p \<noteq> [] \<Longrightarrow> hd p = CHR ''/'' \<Longrightarrow>
   before CHR ''/'' (a @ p @ b) = a \<and> dropWhile (\<lambda>x. x \<noteq> CHR ''/'') (a @ p @ b) = p @ b"
  by (cases p) (auto simp: before_def dropWhile_append takeWhile_append split: if_splits)

section \<open>Properties\<close>

text \<open>The text of a URI whose components hold no delimiter of the grammar determines it: reading the parts between the
  delimiters gives back the scheme, the user, the host, the path, the query and the fragment, and the port unless it is
  the default of the scheme, which is the port a URI without one has.\<close>

theorem uri_text_read_back:
  assumes "uri_ok u"
  shows "uri_parts_of (Uri_toString u) = (m_scheme u, m_userinfo u, m_host u,
      if isDefaultPort u then [] else show_int (m_port u), Uri_getPath u, m_query u, m_fragment u) \<and>
    (if isDefaultPort u then Uri_getPort u = Uri_getPort (u\<lparr>m_port := 0\<rparr>) else Uri_getPort u = m_port u)"
proof -
  define port where "port = (if isDefaultPort u then [] else '':'' @ show_int (m_port u))"
  define hp where "hp = m_host u @ port"
  define auth where "auth = m_userinfo u @ (if m_userinfo u = [] then [] else ''@'') @ hp"
  define tail where "tail = Uri_getPath u @ (if m_query u = [] then [] else ''?'') @ m_query u
    @ (if m_fragment u = [] then [] else ''#'') @ m_fragment u"
  have path: "Uri_getPath u \<noteq> []" "hd (Uri_getPath u) = CHR ''/''" "CHR ''?'' \<notin> set (Uri_getPath u)" "CHR ''#'' \<notin> set (Uri_getPath u)"
    using assms by (auto simp: Uri_getPath_def uri_ok_def)
  have at: "CHR ''@'' \<notin> set hp" using assms by (auto simp: hp_def port_def uri_ok_def)
  have slash: "CHR ''/'' \<notin> set auth" using assms by (auto simp: auth_def hp_def port_def uri_ok_def)
  have printed: "Uri_toString u = m_scheme u @ CHR '':'' # ''//'' @ auth @ tail"
    by (simp add: Uri_toString_def Uri_dump_def auth_def hp_def port_def tail_def)
  have scheme: "before CHR '':'' (Uri_toString u) = m_scheme u" "after CHR '':'' (Uri_toString u) = ''//'' @ auth @ tail"
    using assms unfolding printed by (simp_all add: uri_ok_def)
  have parts: "before CHR ''/'' (auth @ tail) = auth" "dropWhile (\<lambda>x. x \<noteq> CHR ''/'') (auth @ tail) = tail"
    using drop_to_path [OF slash path(1,2)] by (simp_all add: tail_def)
  have user: "CHR ''@'' \<in> set auth \<longleftrightarrow> m_userinfo u \<noteq> []" using at assms by (auto simp: auth_def uri_ok_def)
  have host: "before CHR '':'' hp = m_host u" "after CHR '':'' hp = (if isDefaultPort u then [] else show_int (m_port u))"
    using assms by (simp_all add: hp_def port_def uri_ok_def)
  have pq: "before CHR ''#'' tail = Uri_getPath u @ (if m_query u = [] then [] else ''?'') @ m_query u" "after CHR ''#'' tail = m_fragment u"
    using assms path before_after(1,2) [of "CHR ''#''" "Uri_getPath u @ ''?'' @ m_query u" "m_fragment u"]
    by (auto simp: tail_def uri_ok_def)
  have "(if CHR ''@'' \<in> set auth then after CHR ''@'' auth else auth) = hp" "(if CHR ''@'' \<in> set auth then before CHR ''@'' auth else []) = m_userinfo u"
    using assms unfolding user by (auto simp: auth_def uri_ok_def)
  then have "uri_parts_of (Uri_toString u) = (m_scheme u, m_userinfo u, m_host u,
      if isDefaultPort u then [] else show_int (m_port u), Uri_getPath u, m_query u, m_fragment u)"
    using path by (simp add: uri_parts_of_def scheme parts host pq)
  then show ?thesis by (auto simp: isDefaultPort_def Uri_getPort_def split: if_splits)
qed

theorem uri_text_read_back_witness:
  "let u = \<lparr>m_scheme = ''http'', m_userinfo = ''me'', m_host = ''azure.org'', m_path = ''/a/b'', m_query = ''x=1'',
      m_fragment = ''top'', m_port = 8080\<rparr> in
   uri_parts_of (Uri_toString u) = (''http'', ''me'', ''azure.org'', show_int 8080, ''/a/b'', ''x=1'', ''top'')"
proof -
  define u where "u = \<lparr>m_scheme = ''http'', m_userinfo = ''me'', m_host = ''azure.org'', m_path = ''/a/b'', m_query = ''x=1'',
      m_fragment = ''top'', m_port = 8080\<rparr>"
  have "uri_ok u" by (simp add: uri_ok_def u_def)
  from uri_text_read_back [OF this] have "uri_parts_of (Uri_toString u) = (''http'', ''me'', ''azure.org'', show_int 8080, ''/a/b'', ''x=1'', ''top'')"
    by (simp add: u_def isDefaultPort_def Uri_getPath_def)
  then show ?thesis by (simp flip: u_def)
qed

end
