(* ===== verification/Uri_Machine.thy ===== *)
theory Uri_Machine
  imports Ragel
begin

text \<open>
  The machine Ragel wrote for \<open>src/include/uri.rl\<close>: the states and transitions of \<open>Uri::Create\<close> in
  \<open>src/uri.rl.cc\<close>, in the order of the file, and the actions at the end of the text. \<open>uri_cases_k\<close> holds
  the \<open>case\<close> labels of a stretch of the code and \<open>uri_trs_k\<close> its \<open>tr\<close> labels.
\<close>

section \<open>Actions\<close>

datatype uri_action =
    Marku | Save_query | Markh | Save_host | Save_port | Save_path | Save_userinfo | Save_scheme | Save_fragment

section \<open>States and transitions\<close>

definition uri_cases_1 :: "int \<Rightarrow> int \<Rightarrow> jump" where
  "uri_cases_1 cs c =
   (if cs = 451 then
     (switch c [(34, St 0), (35, St 453), (37, St 3), (47, St 458), (58, St 0), (60, St 0), (62, St 0), (63, St 456),
     (96, St 0), (127, St 0)]
     (if c < 91 then (if c > 32 then (if 65 \<le> c \<and> c \<le> 90 then Tr 461 else St 452) else if c \<ge> 0 then
     St 0 else St 452) else if c > 94 then (if c > 122 then (if 123 \<le> c \<and> c \<le> 125 then St 0 else St 452)
     else if c \<ge> 97 then Tr 461 else St 452) else St 0))
    else if cs = 452 then
      (switch c [(34, St 0), (35, St 453), (37, St 3), (47, St 455), (58, St 0), (60, St 0), (62, St 0), (63, St
      456), (96, St 0), (127, St 0)]
      (if c < 91 then (if 0 \<le> c \<and> c \<le> 32 then St 0 else St 452) else if c > 94 then (if 123 \<le> c
      \<and> c \<le> 125 then St 0 else St 452) else St 0))
    else St 0)"

definition uri_trs_1 :: "(int \<times> uri_action list \<times> int) list" where
  "uri_trs_1 =
    [(467, [Marku, Save_query], 453), (469, [Save_query], 453), (474, [Markh, Save_host], 453), (485, [Save_host],
      453), (489, [Markh, Save_port], 453), (493, [Save_port], 453), (548, [Markh, Save_host, Save_path], 453), (559,
      [Save_host, Markh, Save_path], 453)]"

definition uri_cases_2 :: "int \<Rightarrow> int \<Rightarrow> jump" where
  "uri_cases_2 cs c =
   (if cs = 453 then
     (switch c [(37, Tr 463), (60, St 0), (62, St 0), (96, St 0), (127, St 0)]
     (if c < 34 then (if 0 \<le> c \<and> c \<le> 32 then St 0 else Tr 462) else if c > 35 then (if c > 94 then (if
     123 \<le> c \<and> c \<le> 125 then St 0 else Tr 462) else if c \<ge> 91 then St 0 else Tr 462) else St 0))
    else if cs = 454 then
      (switch c [(37, St 1), (60, St 0), (62, St 0), (96, St 0), (127, St 0)]
      (if c < 34 then (if 0 \<le> c \<and> c \<le> 32 then St 0 else St 454) else if c > 35 then (if c > 94 then (if
      123 \<le> c \<and> c \<le> 125 then St 0 else St 454) else if c \<ge> 91 then St 0 else St 454) else St 0))
    else if cs = 1 then
      (if c < 65 then (if 48 \<le> c \<and> c \<le> 57 then St 2 else St 0) else if c > 70 then (if 97 \<le> c \<and>
      c \<le> 102 then St 2 else St 0) else St 2)
    else if cs = 2 then
      (if c < 65 then (if 48 \<le> c \<and> c \<le> 57 then St 454 else St 0) else if c > 70 then (if 97 \<le> c
      \<and> c \<le> 102 then St 454 else St 0) else St 454)
    else if cs = 3 then
      (if c < 65 then (if 48 \<le> c \<and> c \<le> 57 then St 4 else St 0) else if c > 70 then (if 97 \<le> c \<and>
      c \<le> 102 then St 4 else St 0) else St 4)
    else St 0)"

definition uri_trs_2 :: "(int \<times> uri_action list \<times> int) list" where
  "uri_trs_2 =
    [(563, [Save_path], 453), (566, [Markh, Save_port, Save_path], 453), (570, [Save_port, Markh, Save_path], 453),
      (462, [Marku], 454), (463, [Marku], 1)]"

definition uri_cases_3 :: "int \<Rightarrow> int \<Rightarrow> jump" where
  "uri_cases_3 cs c =
   (if cs = 4 then
     (if c < 65 then (if 48 \<le> c \<and> c \<le> 57 then St 452 else St 0) else if c > 70 then (if 97 \<le> c
     \<and> c \<le> 102 then St 452 else St 0) else St 452)
    else if cs = 455 then
      (switch c [(34, St 0), (35, St 453), (37, St 5), (60, St 0), (62, St 0), (63, St 456), (96, St 0), (127, St 0)]
      (if c < 91 then (if 0 \<le> c \<and> c \<le> 32 then St 0 else St 455) else if c > 94 then (if 123 \<le> c
      \<and> c \<le> 125 then St 0 else St 455) else St 0))
    else if cs = 5 then
      (if c < 65 then (if 48 \<le> c \<and> c \<le> 57 then St 6 else St 0) else if c > 70 then (if 97 \<le> c \<and>
      c \<le> 102 then St 6 else St 0) else St 6)
    else if cs = 6 then
      (if c < 65 then (if 48 \<le> c \<and> c \<le> 57 then St 455 else St 0) else if c > 70 then (if 97 \<le> c
      \<and> c \<le> 102 then St 455 else St 0) else St 455)
    else St 0)"

definition uri_trs_3 :: "(int \<times> uri_action list \<times> int) list" where
  "uri_trs_3 =
    [(476, [Markh, Save_host], 455), (486, [Save_host], 455), (490, [Markh, Save_port], 455), (494, [Save_port],
      455), (482, [Markh, Save_host], 456), (488, [Save_host], 456), (492, [Markh, Save_port], 456), (496,
      [Save_port], 456)]"

definition uri_cases_4 :: "int \<Rightarrow> int \<Rightarrow> jump" where
  "uri_cases_4 cs c =
   (if cs = 456 then
     (switch c [(34, St 0), (35, Tr 467), (37, Tr 468), (60, St 0), (62, St 0), (96, St 0), (127, St 0)]
     (if c < 91 then (if 0 \<le> c \<and> c \<le> 32 then St 0 else Tr 466) else if c > 94 then (if 123 \<le> c
     \<and> c \<le> 125 then St 0 else Tr 466) else St 0))
    else if cs = 457 then
      (switch c [(34, St 0), (35, Tr 469), (37, St 7), (60, St 0), (62, St 0), (96, St 0), (127, St 0)]
      (if c < 91 then (if 0 \<le> c \<and> c \<le> 32 then St 0 else St 457) else if c > 94 then (if 123 \<le> c
      \<and> c \<le> 125 then St 0 else St 457) else St 0))
    else if cs = 7 then
      (if c < 65 then (if 48 \<le> c \<and> c \<le> 57 then St 8 else St 0) else if c > 70 then (if 97 \<le> c \<and>
      c \<le> 102 then St 8 else St 0) else St 8)
    else St 0)"

definition uri_trs_4 :: "(int \<times> uri_action list \<times> int) list" where
  "uri_trs_4 =
    [(556, [Markh, Save_host, Save_path], 456), (562, [Save_host, Markh, Save_path], 456), (565, [Save_path], 456),
      (569, [Markh, Save_port, Save_path], 456), (573, [Save_port, Markh, Save_path], 456), (466, [Marku], 457),
      (468, [Marku], 7)]"

definition uri_cases_5 :: "int \<Rightarrow> int \<Rightarrow> jump" where
  "uri_cases_5 cs c =
   (if cs = 8 then
     (if c < 65 then (if 48 \<le> c \<and> c \<le> 57 then St 457 else St 0) else if c > 70 then (if 97 \<le> c
     \<and> c \<le> 102 then St 457 else St 0) else St 457)
    else if cs = 458 then
      (switch c [(34, St 0), (35, St 453), (37, St 5), (47, St 459), (60, St 0), (62, St 0), (63, St 456), (96, St
      0), (127, St 0)]
      (if c < 91 then (if 0 \<le> c \<and> c \<le> 32 then St 0 else St 455) else if c > 94 then (if 123 \<le> c
      \<and> c \<le> 125 then St 0 else St 455) else St 0))
    else if cs = 459 then
      (switch c [(2, Tr 472), (33, Tr 473), (35, Tr 474), (37, Tr 475), (47, Tr 476), (48, Tr 477), (49, Tr 478),
      (50, Tr 479), (58, Tr 481), (59, Tr 473), (61, Tr 473), (63, Tr 482), (64, Tr 483), (91, Tr 484), (95, Tr 473),
      (126, Tr 473)]
      (if c < 51 then (if 36 \<le> c \<and> c \<le> 46 then Tr 473 else St 0) else if c > 57 then (if c > 90 then (if
      97 \<le> c \<and> c \<le> 122 then Tr 473 else St 0) else if c \<ge> 65 then Tr 473 else St 0) else Tr 480))
    else if cs = 9 then
      (if 48 \<le> c \<and> c \<le> 52 then St 10 else St 0)
    else if cs = 10 then
      (if 48 \<le> c \<and> c \<le> 57 then St 11 else St 0)
    else if cs = 11 then
      (if c = 46 then St 12 else St 0)
    else if cs = 12 then
      (switch c [(2, St 13), (48, St 15), (49, St 27), (50, St 29)]
      (if 51 \<le> c \<and> c \<le> 57 then St 28 else St 0))
    else if cs = 13 then
      (if 48 \<le> c \<and> c \<le> 52 then St 14 else St 0)
    else if cs = 14 then
      (if 48 \<le> c \<and> c \<le> 57 then St 15 else St 0)
    else if cs = 15 then
      (if c = 46 then St 16 else St 0)
    else if cs = 16 then
      (switch c [(2, St 17), (48, St 19), (49, St 23), (50, St 25)]
      (if 51 \<le> c \<and> c \<le> 57 then St 24 else St 0))
    else St 0)"

definition uri_trs_5 :: "(int \<times> uri_action list \<times> int) list" where
  "uri_trs_5 =
    [(472, [Markh], 9)]"

definition uri_cases_6 :: "int \<Rightarrow> int \<Rightarrow> jump" where
  "uri_cases_6 cs c =
   (if cs = 17 then
     (if 48 \<le> c \<and> c \<le> 52 then St 18 else St 0)
    else if cs = 18 then
      (if 48 \<le> c \<and> c \<le> 57 then St 19 else St 0)
    else if cs = 19 then
      (if c = 46 then St 20 else St 0)
    else if cs = 20 then
      (switch c [(2, St 21), (48, St 460), (49, St 463), (50, St 465)]
      (if 51 \<le> c \<and> c \<le> 57 then St 464 else St 0))
    else if cs = 21 then
      (if 48 \<le> c \<and> c \<le> 52 then St 22 else St 0)
    else if cs = 22 then
      (if 48 \<le> c \<and> c \<le> 57 then St 460 else St 0)
    else if cs = 460 then
      (switch c [(35, Tr 485), (47, Tr 486), (58, Tr 487), (63, Tr 488)]
      (St 0))
    else if cs = 461 then
      (switch c [(35, Tr 489), (47, Tr 490), (63, Tr 492)]
      (if 48 \<le> c \<and> c \<le> 57 then Tr 491 else St 0))
    else if cs = 462 then
      (switch c [(35, Tr 493), (47, Tr 494), (63, Tr 496)]
      (if 48 \<le> c \<and> c \<le> 57 then St 462 else St 0))
    else if cs = 463 then
      (switch c [(35, Tr 485), (47, Tr 486), (58, Tr 487), (63, Tr 488)]
      (if 48 \<le> c \<and> c \<le> 57 then St 464 else St 0))
    else if cs = 464 then
      (switch c [(35, Tr 485), (47, Tr 486), (58, Tr 487), (63, Tr 488)]
      (if 48 \<le> c \<and> c \<le> 57 then St 460 else St 0))
    else if cs = 465 then
      (switch c [(35, Tr 485), (47, Tr 486), (53, St 466), (58, Tr 487), (63, Tr 488)]
      (if 48 \<le> c \<and> c \<le> 57 then St 460 else St 0))
    else St 0)"

definition uri_trs_6 :: "(int \<times> uri_action list \<times> int) list" where
  "uri_trs_6 =
    [(507, [Markh, Save_host], 461), (487, [Save_host], 461), (491, [Markh], 462)]"

definition uri_cases_7 :: "int \<Rightarrow> int \<Rightarrow> jump" where
  "uri_cases_7 cs c =
   (if cs = 466 then
     (switch c [(35, Tr 485), (47, Tr 486), (58, Tr 487), (63, Tr 488)]
     (if 48 \<le> c \<and> c \<le> 53 then St 460 else St 0))
    else if cs = 23 then
      (if c = 46 then St 20 else if 48 \<le> c \<and> c \<le> 57 then St 24 else St 0)
    else if cs = 24 then
      (if c = 46 then St 20 else if 48 \<le> c \<and> c \<le> 57 then St 19 else St 0)
    else if cs = 25 then
      (switch c [(46, St 20), (53, St 26)]
      (if 48 \<le> c \<and> c \<le> 57 then St 19 else St 0))
    else if cs = 26 then
      (if c = 46 then St 20 else if 48 \<le> c \<and> c \<le> 53 then St 19 else St 0)
    else if cs = 27 then
      (if c = 46 then St 16 else if 48 \<le> c \<and> c \<le> 57 then St 28 else St 0)
    else if cs = 28 then
      (if c = 46 then St 16 else if 48 \<le> c \<and> c \<le> 57 then St 15 else St 0)
    else if cs = 29 then
      (switch c [(46, St 16), (53, St 30)]
      (if 48 \<le> c \<and> c \<le> 57 then St 15 else St 0))
    else if cs = 30 then
      (if c = 46 then St 16 else if 48 \<le> c \<and> c \<le> 53 then St 15 else St 0)
    else if cs = 467 then
      (switch c [(33, St 467), (35, Tr 485), (37, St 31), (47, Tr 486), (58, Tr 499), (61, St 467), (63, Tr 488),
      (64, Tr 38), (95, St 467), (126, St 467)]
      (if c < 65 then (if 36 \<le> c \<and> c \<le> 59 then St 467 else St 0) else if c > 90 then (if 97 \<le> c
      \<and> c \<le> 122 then St 467 else St 0) else St 467))
    else if cs = 31 then
      (if c < 65 then (if 48 \<le> c \<and> c \<le> 57 then St 32 else St 0) else if c > 70 then (if 97 \<le> c
      \<and> c \<le> 102 then St 32 else St 0) else St 32)
    else if cs = 32 then
      (if c < 65 then (if 48 \<le> c \<and> c \<le> 57 then St 467 else St 0) else if c > 70 then (if 97 \<le> c
      \<and> c \<le> 102 then St 467 else St 0) else St 467)
    else St 0)"

definition uri_trs_7 :: "(int \<times> uri_action list \<times> int) list" where
  "uri_trs_7 =
    [(473, [Markh], 467), (475, [Markh], 31)]"

definition uri_cases_8 :: "int \<Rightarrow> int \<Rightarrow> jump" where
  "uri_cases_8 cs c =
   (if cs = 468 then
     (switch c [(33, St 33), (35, Tr 489), (37, St 34), (47, Tr 490), (61, St 33), (63, Tr 492), (64, Tr 38), (95, St
     33), (126, St 33)]
     (if c < 58 then (if c > 46 then (if 48 \<le> c \<and> c \<le> 57 then Tr 500 else St 0) else if c \<ge> 36 then
     St 33 else St 0) else if c > 59 then (if c > 90 then (if 97 \<le> c \<and> c \<le> 122 then St 33 else St 0)
     else if c \<ge> 65 then St 33 else St 0) else St 33))
    else if cs = 33 then
      (switch c [(33, St 33), (37, St 34), (61, St 33), (64, Tr 38), (95, St 33), (126, St 33)]
      (if c < 48 then (if 36 \<le> c \<and> c \<le> 46 then St 33 else St 0) else if c > 59 then (if c > 90 then (if
      97 \<le> c \<and> c \<le> 122 then St 33 else St 0) else if c \<ge> 65 then St 33 else St 0) else St 33))
    else if cs = 34 then
      (if c < 65 then (if 48 \<le> c \<and> c \<le> 57 then St 35 else St 0) else if c > 70 then (if 97 \<le> c
      \<and> c \<le> 102 then St 35 else St 0) else St 35)
    else if cs = 35 then
      (if c < 65 then (if 48 \<le> c \<and> c \<le> 57 then St 33 else St 0) else if c > 70 then (if 97 \<le> c
      \<and> c \<le> 102 then St 33 else St 0) else St 33)
    else St 0)"

definition uri_trs_8 :: "(int \<times> uri_action list \<times> int) list" where
  "uri_trs_8 =
    [(481, [Markh, Save_host], 468), (499, [Save_host], 468), (38, [Save_userinfo], 469), (483, [Markh,
      Save_userinfo], 469)]"

definition uri_cases_9 :: "int \<Rightarrow> int \<Rightarrow> jump" where
  "uri_cases_9 cs c =
   (if cs = 469 then
     (switch c [(2, Tr 472), (33, Tr 501), (35, Tr 474), (37, Tr 502), (47, Tr 476), (48, Tr 503), (49, Tr 504), (50,
     Tr 505), (58, Tr 507), (59, Tr 501), (61, Tr 501), (63, Tr 482), (91, Tr 484), (95, Tr 501), (126, Tr 501)]
     (if c < 51 then (if 36 \<le> c \<and> c \<le> 46 then Tr 501 else St 0) else if c > 57 then (if c > 90 then (if
     97 \<le> c \<and> c \<le> 122 then Tr 501 else St 0) else if c \<ge> 65 then Tr 501 else St 0) else Tr 506))
    else if cs = 470 then
      (switch c [(33, St 470), (35, Tr 485), (37, St 36), (47, Tr 486), (58, Tr 487), (61, St 470), (63, Tr 488),
      (95, St 470), (126, St 470)]
      (if c < 65 then (if 36 \<le> c \<and> c \<le> 59 then St 470 else St 0) else if c > 90 then (if 97 \<le> c
      \<and> c \<le> 122 then St 470 else St 0) else St 470))
    else if cs = 36 then
      (if c < 65 then (if 48 \<le> c \<and> c \<le> 57 then St 37 else St 0) else if c > 70 then (if 97 \<le> c
      \<and> c \<le> 102 then St 37 else St 0) else St 37)
    else if cs = 37 then
      (if c < 65 then (if 48 \<le> c \<and> c \<le> 57 then St 470 else St 0) else if c > 70 then (if 97 \<le> c
      \<and> c \<le> 102 then St 470 else St 0) else St 470)
    else if cs = 471 then
      (switch c [(33, St 470), (35, Tr 485), (37, St 36), (46, St 472), (47, Tr 486), (58, Tr 487), (61, St 470),
      (63, Tr 488), (95, St 470), (126, St 470)]
      (if c < 65 then (if 36 \<le> c \<and> c \<le> 59 then St 470 else St 0) else if c > 90 then (if 97 \<le> c
      \<and> c \<le> 122 then St 470 else St 0) else St 470))
    else St 0)"

definition uri_trs_9 :: "(int \<times> uri_action list \<times> int) list" where
  "uri_trs_9 =
    [(501, [Markh], 470), (502, [Markh], 36), (503, [Markh], 471)]"

definition uri_cases_10 :: "int \<Rightarrow> int \<Rightarrow> jump" where
  "uri_cases_10 cs c =
   (if cs = 472 then
     (switch c [(2, St 13), (33, St 470), (35, Tr 485), (37, St 36), (47, Tr 486), (48, St 473), (49, St 481), (50,
     St 483), (58, Tr 487), (59, St 470), (61, St 470), (63, Tr 488), (95, St 470), (126, St 470)]
     (if c < 51 then (if 36 \<le> c \<and> c \<le> 46 then St 470 else St 0) else if c > 57 then (if c > 90 then (if
     97 \<le> c \<and> c \<le> 122 then St 470 else St 0) else if c \<ge> 65 then St 470 else St 0) else St 482))
    else if cs = 473 then
      (switch c [(33, St 470), (35, Tr 485), (37, St 36), (46, St 474), (47, Tr 486), (58, Tr 487), (61, St 470),
      (63, Tr 488), (95, St 470), (126, St 470)]
      (if c < 65 then (if 36 \<le> c \<and> c \<le> 59 then St 470 else St 0) else if c > 90 then (if 97 \<le> c
      \<and> c \<le> 122 then St 470 else St 0) else St 470))
    else if cs = 474 then
      (switch c [(2, St 17), (33, St 470), (35, Tr 485), (37, St 36), (47, Tr 486), (48, St 475), (49, St 477), (50,
      St 479), (58, Tr 487), (59, St 470), (61, St 470), (63, Tr 488), (95, St 470), (126, St 470)]
      (if c < 51 then (if 36 \<le> c \<and> c \<le> 46 then St 470 else St 0) else if c > 57 then (if c > 90 then (if
      97 \<le> c \<and> c \<le> 122 then St 470 else St 0) else if c \<ge> 65 then St 470 else St 0) else St 478))
    else if cs = 475 then
      (switch c [(33, St 470), (35, Tr 485), (37, St 36), (46, St 476), (47, Tr 486), (58, Tr 487), (61, St 470),
      (63, Tr 488), (95, St 470), (126, St 470)]
      (if c < 65 then (if 36 \<le> c \<and> c \<le> 59 then St 470 else St 0) else if c > 90 then (if 97 \<le> c
      \<and> c \<le> 122 then St 470 else St 0) else St 470))
    else if cs = 476 then
      (switch c [(2, St 21), (33, St 470), (35, Tr 485), (37, St 36), (47, Tr 486), (58, Tr 487), (61, St 470), (63,
      Tr 488), (95, St 470), (126, St 470)]
      (if c < 65 then (if 36 \<le> c \<and> c \<le> 59 then St 470 else St 0) else if c > 90 then (if 97 \<le> c
      \<and> c \<le> 122 then St 470 else St 0) else St 470))
    else St 0)"

definition uri_cases_11 :: "int \<Rightarrow> int \<Rightarrow> jump" where
  "uri_cases_11 cs c =
   (if cs = 477 then
     (switch c [(33, St 470), (35, Tr 485), (37, St 36), (46, St 476), (47, Tr 486), (58, Tr 487), (59, St 470), (61,
     St 470), (63, Tr 488), (95, St 470), (126, St 470)]
     (if c < 48 then (if 36 \<le> c \<and> c \<le> 45 then St 470 else St 0) else if c > 57 then (if c > 90 then (if
     97 \<le> c \<and> c \<le> 122 then St 470 else St 0) else if c \<ge> 65 then St 470 else St 0) else St 478))
    else if cs = 478 then
      (switch c [(33, St 470), (35, Tr 485), (37, St 36), (46, St 476), (47, Tr 486), (58, Tr 487), (59, St 470),
      (61, St 470), (63, Tr 488), (95, St 470), (126, St 470)]
      (if c < 48 then (if 36 \<le> c \<and> c \<le> 45 then St 470 else St 0) else if c > 57 then (if c > 90 then (if
      97 \<le> c \<and> c \<le> 122 then St 470 else St 0) else if c \<ge> 65 then St 470 else St 0) else St 475))
    else if cs = 479 then
      (switch c [(33, St 470), (35, Tr 485), (37, St 36), (46, St 476), (47, Tr 486), (53, St 480), (58, Tr 487),
      (59, St 470), (61, St 470), (63, Tr 488), (95, St 470), (126, St 470)]
      (if c < 48 then (if 36 \<le> c \<and> c \<le> 45 then St 470 else St 0) else if c > 57 then (if c > 90 then (if
      97 \<le> c \<and> c \<le> 122 then St 470 else St 0) else if c \<ge> 65 then St 470 else St 0) else St 475))
    else if cs = 480 then
      (switch c [(33, St 470), (35, Tr 485), (37, St 36), (46, St 476), (47, Tr 486), (58, Tr 487), (61, St 470),
      (63, Tr 488), (95, St 470), (126, St 470)]
      (if c < 54 then (if c > 45 then (if 48 \<le> c \<and> c \<le> 53 then St 475 else St 0) else if c \<ge> 36 then
      St 470 else St 0) else if c > 59 then (if c > 90 then (if 97 \<le> c \<and> c \<le> 122 then St 470 else St 0)
      else if c \<ge> 65 then St 470 else St 0) else St 470))
    else if cs = 481 then
      (switch c [(33, St 470), (35, Tr 485), (37, St 36), (46, St 474), (47, Tr 486), (58, Tr 487), (59, St 470),
      (61, St 470), (63, Tr 488), (95, St 470), (126, St 470)]
      (if c < 48 then (if 36 \<le> c \<and> c \<le> 45 then St 470 else St 0) else if c > 57 then (if c > 90 then (if
      97 \<le> c \<and> c \<le> 122 then St 470 else St 0) else if c \<ge> 65 then St 470 else St 0) else St 482))
    else St 0)"

definition uri_cases_12 :: "int \<Rightarrow> int \<Rightarrow> jump" where
  "uri_cases_12 cs c =
   (if cs = 482 then
     (switch c [(33, St 470), (35, Tr 485), (37, St 36), (46, St 474), (47, Tr 486), (58, Tr 487), (59, St 470), (61,
     St 470), (63, Tr 488), (95, St 470), (126, St 470)]
     (if c < 48 then (if 36 \<le> c \<and> c \<le> 45 then St 470 else St 0) else if c > 57 then (if c > 90 then (if
     97 \<le> c \<and> c \<le> 122 then St 470 else St 0) else if c \<ge> 65 then St 470 else St 0) else St 473))
    else if cs = 483 then
      (switch c [(33, St 470), (35, Tr 485), (37, St 36), (46, St 474), (47, Tr 486), (53, St 484), (58, Tr 487),
      (59, St 470), (61, St 470), (63, Tr 488), (95, St 470), (126, St 470)]
      (if c < 48 then (if 36 \<le> c \<and> c \<le> 45 then St 470 else St 0) else if c > 57 then (if c > 90 then (if
      97 \<le> c \<and> c \<le> 122 then St 470 else St 0) else if c \<ge> 65 then St 470 else St 0) else St 473))
    else if cs = 484 then
      (switch c [(33, St 470), (35, Tr 485), (37, St 36), (46, St 474), (47, Tr 486), (58, Tr 487), (61, St 470),
      (63, Tr 488), (95, St 470), (126, St 470)]
      (if c < 54 then (if c > 45 then (if 48 \<le> c \<and> c \<le> 53 then St 473 else St 0) else if c \<ge> 36 then
      St 470 else St 0) else if c > 59 then (if c > 90 then (if 97 \<le> c \<and> c \<le> 122 then St 470 else St 0)
      else if c \<ge> 65 then St 470 else St 0) else St 470))
    else if cs = 485 then
      (switch c [(33, St 470), (35, Tr 485), (37, St 36), (46, St 472), (47, Tr 486), (58, Tr 487), (59, St 470),
      (61, St 470), (63, Tr 488), (95, St 470), (126, St 470)]
      (if c < 48 then (if 36 \<le> c \<and> c \<le> 45 then St 470 else St 0) else if c > 57 then (if c > 90 then (if
      97 \<le> c \<and> c \<le> 122 then St 470 else St 0) else if c \<ge> 65 then St 470 else St 0) else St 486))
    else St 0)"

definition uri_trs_12 :: "(int \<times> uri_action list \<times> int) list" where
  "uri_trs_12 =
    [(504, [Markh], 485), (506, [Markh], 486)]"

definition uri_cases_13 :: "int \<Rightarrow> int \<Rightarrow> jump" where
  "uri_cases_13 cs c =
   (if cs = 486 then
     (switch c [(33, St 470), (35, Tr 485), (37, St 36), (46, St 472), (47, Tr 486), (58, Tr 487), (59, St 470), (61,
     St 470), (63, Tr 488), (95, St 470), (126, St 470)]
     (if c < 48 then (if 36 \<le> c \<and> c \<le> 45 then St 470 else St 0) else if c > 57 then (if c > 90 then (if
     97 \<le> c \<and> c \<le> 122 then St 470 else St 0) else if c \<ge> 65 then St 470 else St 0) else St 471))
    else if cs = 487 then
      (switch c [(33, St 470), (35, Tr 485), (37, St 36), (46, St 472), (47, Tr 486), (53, St 488), (58, Tr 487),
      (59, St 470), (61, St 470), (63, Tr 488), (95, St 470), (126, St 470)]
      (if c < 48 then (if 36 \<le> c \<and> c \<le> 45 then St 470 else St 0) else if c > 57 then (if c > 90 then (if
      97 \<le> c \<and> c \<le> 122 then St 470 else St 0) else if c \<ge> 65 then St 470 else St 0) else St 471))
    else if cs = 488 then
      (switch c [(33, St 470), (35, Tr 485), (37, St 36), (46, St 472), (47, Tr 486), (58, Tr 487), (61, St 470),
      (63, Tr 488), (95, St 470), (126, St 470)]
      (if c < 54 then (if c > 45 then (if 48 \<le> c \<and> c \<le> 53 then St 471 else St 0) else if c \<ge> 36 then
      St 470 else St 0) else if c > 59 then (if c > 90 then (if 97 \<le> c \<and> c \<le> 122 then St 470 else St 0)
      else if c \<ge> 65 then St 470 else St 0) else St 470))
    else if cs = 38 then
      (switch c [(58, St 146), (118, St 225)]
      (if c < 65 then (if 48 \<le> c \<and> c \<le> 57 then St 39 else St 0) else if c > 70 then (if 97 \<le> c
      \<and> c \<le> 102 then St 39 else St 0) else St 39))
    else if cs = 39 then
      (if c = 58 then St 43 else if c < 65 then (if 48 \<le> c \<and> c \<le> 57 then St 40 else St 0) else if c > 70
      then (if 97 \<le> c \<and> c \<le> 102 then St 40 else St 0) else St 40)
    else if cs = 40 then
      (if c = 58 then St 43 else if c < 65 then (if 48 \<le> c \<and> c \<le> 57 then St 41 else St 0) else if c > 70
      then (if 97 \<le> c \<and> c \<le> 102 then St 41 else St 0) else St 41)
    else St 0)"

definition uri_trs_13 :: "(int \<times> uri_action list \<times> int) list" where
  "uri_trs_13 =
    [(505, [Markh], 487), (484, [Markh], 38)]"

definition uri_cases_14 :: "int \<Rightarrow> int \<Rightarrow> jump" where
  "uri_cases_14 cs c =
   (if cs = 41 then
     (if c = 58 then St 43 else if c < 65 then (if 48 \<le> c \<and> c \<le> 57 then St 42 else St 0) else if c > 70
     then (if 97 \<le> c \<and> c \<le> 102 then St 42 else St 0) else St 42)
    else if cs = 42 then
      (if c = 58 then St 43 else St 0)
    else if cs = 43 then
      (if c = 58 then St 141 else if c < 65 then (if 48 \<le> c \<and> c \<le> 57 then St 44 else St 0) else if c >
      70 then (if 97 \<le> c \<and> c \<le> 102 then St 44 else St 0) else St 44)
    else if cs = 44 then
      (if c = 58 then St 48 else if c < 65 then (if 48 \<le> c \<and> c \<le> 57 then St 45 else St 0) else if c > 70
      then (if 97 \<le> c \<and> c \<le> 102 then St 45 else St 0) else St 45)
    else if cs = 45 then
      (if c = 58 then St 48 else if c < 65 then (if 48 \<le> c \<and> c \<le> 57 then St 46 else St 0) else if c > 70
      then (if 97 \<le> c \<and> c \<le> 102 then St 46 else St 0) else St 46)
    else if cs = 46 then
      (if c = 58 then St 48 else if c < 65 then (if 48 \<le> c \<and> c \<le> 57 then St 47 else St 0) else if c > 70
      then (if 97 \<le> c \<and> c \<le> 102 then St 47 else St 0) else St 47)
    else if cs = 47 then
      (if c = 58 then St 48 else St 0)
    else if cs = 48 then
      (if c = 58 then St 136 else if c < 65 then (if 48 \<le> c \<and> c \<le> 57 then St 49 else St 0) else if c >
      70 then (if 97 \<le> c \<and> c \<le> 102 then St 49 else St 0) else St 49)
    else if cs = 49 then
      (if c = 58 then St 53 else if c < 65 then (if 48 \<le> c \<and> c \<le> 57 then St 50 else St 0) else if c > 70
      then (if 97 \<le> c \<and> c \<le> 102 then St 50 else St 0) else St 50)
    else if cs = 50 then
      (if c = 58 then St 53 else if c < 65 then (if 48 \<le> c \<and> c \<le> 57 then St 51 else St 0) else if c > 70
      then (if 97 \<le> c \<and> c \<le> 102 then St 51 else St 0) else St 51)
    else if cs = 51 then
      (if c = 58 then St 53 else if c < 65 then (if 48 \<le> c \<and> c \<le> 57 then St 52 else St 0) else if c > 70
      then (if 97 \<le> c \<and> c \<le> 102 then St 52 else St 0) else St 52)
    else St 0)"

definition uri_cases_15 :: "int \<Rightarrow> int \<Rightarrow> jump" where
  "uri_cases_15 cs c =
   (if cs = 52 then
     (if c = 58 then St 53 else St 0)
    else if cs = 53 then
      (if c = 58 then St 131 else if c < 65 then (if 48 \<le> c \<and> c \<le> 57 then St 54 else St 0) else if c >
      70 then (if 97 \<le> c \<and> c \<le> 102 then St 54 else St 0) else St 54)
    else if cs = 54 then
      (if c = 58 then St 58 else if c < 65 then (if 48 \<le> c \<and> c \<le> 57 then St 55 else St 0) else if c > 70
      then (if 97 \<le> c \<and> c \<le> 102 then St 55 else St 0) else St 55)
    else if cs = 55 then
      (if c = 58 then St 58 else if c < 65 then (if 48 \<le> c \<and> c \<le> 57 then St 56 else St 0) else if c > 70
      then (if 97 \<le> c \<and> c \<le> 102 then St 56 else St 0) else St 56)
    else if cs = 56 then
      (if c = 58 then St 58 else if c < 65 then (if 48 \<le> c \<and> c \<le> 57 then St 57 else St 0) else if c > 70
      then (if 97 \<le> c \<and> c \<le> 102 then St 57 else St 0) else St 57)
    else if cs = 57 then
      (if c = 58 then St 58 else St 0)
    else if cs = 58 then
      (if c = 58 then St 126 else if c < 65 then (if 48 \<le> c \<and> c \<le> 57 then St 59 else St 0) else if c >
      70 then (if 97 \<le> c \<and> c \<le> 102 then St 59 else St 0) else St 59)
    else if cs = 59 then
      (if c = 58 then St 63 else if c < 65 then (if 48 \<le> c \<and> c \<le> 57 then St 60 else St 0) else if c > 70
      then (if 97 \<le> c \<and> c \<le> 102 then St 60 else St 0) else St 60)
    else if cs = 60 then
      (if c = 58 then St 63 else if c < 65 then (if 48 \<le> c \<and> c \<le> 57 then St 61 else St 0) else if c > 70
      then (if 97 \<le> c \<and> c \<le> 102 then St 61 else St 0) else St 61)
    else if cs = 61 then
      (if c = 58 then St 63 else if c < 65 then (if 48 \<le> c \<and> c \<le> 57 then St 62 else St 0) else if c > 70
      then (if 97 \<le> c \<and> c \<le> 102 then St 62 else St 0) else St 62)
    else if cs = 62 then
      (if c = 58 then St 63 else St 0)
    else St 0)"

definition uri_cases_16 :: "int \<Rightarrow> int \<Rightarrow> jump" where
  "uri_cases_16 cs c =
   (if cs = 63 then
     (if c = 58 then St 113 else if c < 65 then (if 48 \<le> c \<and> c \<le> 57 then St 64 else St 0) else if c > 70
     then (if 97 \<le> c \<and> c \<le> 102 then St 64 else St 0) else St 64)
    else if cs = 64 then
      (if c = 58 then St 68 else if c < 65 then (if 48 \<le> c \<and> c \<le> 57 then St 65 else St 0) else if c > 70
      then (if 97 \<le> c \<and> c \<le> 102 then St 65 else St 0) else St 65)
    else if cs = 65 then
      (if c = 58 then St 68 else if c < 65 then (if 48 \<le> c \<and> c \<le> 57 then St 66 else St 0) else if c > 70
      then (if 97 \<le> c \<and> c \<le> 102 then St 66 else St 0) else St 66)
    else if cs = 66 then
      (if c = 58 then St 68 else if c < 65 then (if 48 \<le> c \<and> c \<le> 57 then St 67 else St 0) else if c > 70
      then (if 97 \<le> c \<and> c \<le> 102 then St 67 else St 0) else St 67)
    else if cs = 67 then
      (if c = 58 then St 68 else St 0)
    else if cs = 68 then
      (switch c [(2, St 69), (48, St 96), (49, St 104), (50, St 107), (58, St 111)]
      (if c < 65 then (if 51 \<le> c \<and> c \<le> 57 then St 110 else St 0) else if c > 70 then (if 97 \<le> c
      \<and> c \<le> 102 then St 112 else St 0) else St 112))
    else if cs = 69 then
      (if 48 \<le> c \<and> c \<le> 52 then St 70 else St 0)
    else if cs = 70 then
      (if 48 \<le> c \<and> c \<le> 57 then St 71 else St 0)
    else if cs = 71 then
      (if c = 46 then St 72 else St 0)
    else if cs = 72 then
      (switch c [(2, St 73), (48, St 75), (49, St 92), (50, St 94)]
      (if 51 \<le> c \<and> c \<le> 57 then St 93 else St 0))
    else if cs = 73 then
      (if 48 \<le> c \<and> c \<le> 52 then St 74 else St 0)
    else if cs = 74 then
      (if 48 \<le> c \<and> c \<le> 57 then St 75 else St 0)
    else if cs = 75 then
      (if c = 46 then St 76 else St 0)
    else St 0)"

definition uri_cases_17 :: "int \<Rightarrow> int \<Rightarrow> jump" where
  "uri_cases_17 cs c =
   (if cs = 76 then
     (switch c [(2, St 77), (48, St 79), (49, St 88), (50, St 90)]
     (if 51 \<le> c \<and> c \<le> 57 then St 89 else St 0))
    else if cs = 77 then
      (if 48 \<le> c \<and> c \<le> 52 then St 78 else St 0)
    else if cs = 78 then
      (if 48 \<le> c \<and> c \<le> 57 then St 79 else St 0)
    else if cs = 79 then
      (if c = 46 then St 80 else St 0)
    else if cs = 80 then
      (switch c [(2, St 81), (48, St 83), (49, St 84), (50, St 86)]
      (if 51 \<le> c \<and> c \<le> 57 then St 85 else St 0))
    else if cs = 81 then
      (if 48 \<le> c \<and> c \<le> 52 then St 82 else St 0)
    else if cs = 82 then
      (if 48 \<le> c \<and> c \<le> 57 then St 83 else St 0)
    else if cs = 83 then
      (if c = 93 then St 460 else St 0)
    else if cs = 84 then
      (if c = 93 then St 460 else if 48 \<le> c \<and> c \<le> 57 then St 85 else St 0)
    else if cs = 85 then
      (if c = 93 then St 460 else if 48 \<le> c \<and> c \<le> 57 then St 83 else St 0)
    else if cs = 86 then
      (switch c [(53, St 87), (93, St 460)]
      (if 48 \<le> c \<and> c \<le> 57 then St 83 else St 0))
    else if cs = 87 then
      (if c = 93 then St 460 else if 48 \<le> c \<and> c \<le> 53 then St 83 else St 0)
    else if cs = 88 then
      (if c = 46 then St 80 else if 48 \<le> c \<and> c \<le> 57 then St 89 else St 0)
    else if cs = 89 then
      (if c = 46 then St 80 else if 48 \<le> c \<and> c \<le> 57 then St 79 else St 0)
    else if cs = 90 then
      (switch c [(46, St 80), (53, St 91)]
      (if 48 \<le> c \<and> c \<le> 57 then St 79 else St 0))
    else if cs = 91 then
      (if c = 46 then St 80 else if 48 \<le> c \<and> c \<le> 53 then St 79 else St 0)
    else St 0)"

definition uri_cases_18 :: "int \<Rightarrow> int \<Rightarrow> jump" where
  "uri_cases_18 cs c =
   (if cs = 92 then
     (if c = 46 then St 76 else if 48 \<le> c \<and> c \<le> 57 then St 93 else St 0)
    else if cs = 93 then
      (if c = 46 then St 76 else if 48 \<le> c \<and> c \<le> 57 then St 75 else St 0)
    else if cs = 94 then
      (switch c [(46, St 76), (53, St 95)]
      (if 48 \<le> c \<and> c \<le> 57 then St 75 else St 0))
    else if cs = 95 then
      (if c = 46 then St 76 else if 48 \<le> c \<and> c \<le> 53 then St 75 else St 0)
    else if cs = 96 then
      (switch c [(46, St 72), (58, St 100)]
      (if c < 65 then (if 48 \<le> c \<and> c \<le> 57 then St 97 else St 0) else if c > 70 then (if 97 \<le> c
      \<and> c \<le> 102 then St 97 else St 0) else St 97))
    else if cs = 97 then
      (if c = 58 then St 100 else if c < 65 then (if 48 \<le> c \<and> c \<le> 57 then St 98 else St 0) else if c >
      70 then (if 97 \<le> c \<and> c \<le> 102 then St 98 else St 0) else St 98)
    else if cs = 98 then
      (if c = 58 then St 100 else if c < 65 then (if 48 \<le> c \<and> c \<le> 57 then St 99 else St 0) else if c >
      70 then (if 97 \<le> c \<and> c \<le> 102 then St 99 else St 0) else St 99)
    else if cs = 99 then
      (if c = 58 then St 100 else St 0)
    else if cs = 100 then
      (if c = 58 then St 83 else if c < 65 then (if 48 \<le> c \<and> c \<le> 57 then St 101 else St 0) else if c >
      70 then (if 97 \<le> c \<and> c \<le> 102 then St 101 else St 0) else St 101)
    else if cs = 101 then
      (if c = 93 then St 460 else if c < 65 then (if 48 \<le> c \<and> c \<le> 57 then St 102 else St 0) else if c >
      70 then (if 97 \<le> c \<and> c \<le> 102 then St 102 else St 0) else St 102)
    else if cs = 102 then
      (if c = 93 then St 460 else if c < 65 then (if 48 \<le> c \<and> c \<le> 57 then St 103 else St 0) else if c >
      70 then (if 97 \<le> c \<and> c \<le> 102 then St 103 else St 0) else St 103)
    else St 0)"

definition uri_cases_19 :: "int \<Rightarrow> int \<Rightarrow> jump" where
  "uri_cases_19 cs c =
   (if cs = 103 then
     (if c = 93 then St 460 else if c < 65 then (if 48 \<le> c \<and> c \<le> 57 then St 83 else St 0) else if c > 70
     then (if 97 \<le> c \<and> c \<le> 102 then St 83 else St 0) else St 83)
    else if cs = 104 then
      (switch c [(46, St 72), (58, St 100)]
      (if c < 65 then (if 48 \<le> c \<and> c \<le> 57 then St 105 else St 0) else if c > 70 then (if 97 \<le> c
      \<and> c \<le> 102 then St 97 else St 0) else St 97))
    else if cs = 105 then
      (switch c [(46, St 72), (58, St 100)]
      (if c < 65 then (if 48 \<le> c \<and> c \<le> 57 then St 106 else St 0) else if c > 70 then (if 97 \<le> c
      \<and> c \<le> 102 then St 98 else St 0) else St 98))
    else if cs = 106 then
      (switch c [(46, St 72), (58, St 100)]
      (if c < 65 then (if 48 \<le> c \<and> c \<le> 57 then St 99 else St 0) else if c > 70 then (if 97 \<le> c
      \<and> c \<le> 102 then St 99 else St 0) else St 99))
    else if cs = 107 then
      (switch c [(46, St 72), (53, St 109), (58, St 100)]
      (if c < 65 then (if 48 \<le> c \<and> c \<le> 57 then St 108 else St 0) else if c > 70 then (if 97 \<le> c
      \<and> c \<le> 102 then St 97 else St 0) else St 97))
    else if cs = 108 then
      (switch c [(46, St 72), (58, St 100)]
      (if c < 65 then (if 48 \<le> c \<and> c \<le> 57 then St 98 else St 0) else if c > 70 then (if 97 \<le> c
      \<and> c \<le> 102 then St 98 else St 0) else St 98))
    else if cs = 109 then
      (switch c [(46, St 72), (58, St 100)]
      (if c < 54 then (if 48 \<le> c \<and> c \<le> 53 then St 106 else St 0) else if c > 57 then (if c > 70 then (if
      97 \<le> c \<and> c \<le> 102 then St 98 else St 0) else if c \<ge> 65 then St 98 else St 0) else St 98))
    else if cs = 110 then
      (switch c [(46, St 72), (58, St 100)]
      (if c < 65 then (if 48 \<le> c \<and> c \<le> 57 then St 108 else St 0) else if c > 70 then (if 97 \<le> c
      \<and> c \<le> 102 then St 97 else St 0) else St 97))
    else St 0)"

definition uri_cases_20 :: "int \<Rightarrow> int \<Rightarrow> jump" where
  "uri_cases_20 cs c =
   (if cs = 111 then
     (if c < 65 then (if 48 \<le> c \<and> c \<le> 57 then St 101 else St 0) else if c > 70 then (if 97 \<le> c
     \<and> c \<le> 102 then St 101 else St 0) else St 101)
    else if cs = 112 then
      (if c = 58 then St 100 else if c < 65 then (if 48 \<le> c \<and> c \<le> 57 then St 97 else St 0) else if c >
      70 then (if 97 \<le> c \<and> c \<le> 102 then St 97 else St 0) else St 97)
    else if cs = 113 then
      (switch c [(2, St 69), (48, St 114), (49, St 118), (50, St 121)]
      (if c < 65 then (if 51 \<le> c \<and> c \<le> 57 then St 124 else St 0) else if c > 70 then (if 97 \<le> c
      \<and> c \<le> 102 then St 125 else St 0) else St 125))
    else if cs = 114 then
      (switch c [(46, St 72), (58, St 111)]
      (if c < 65 then (if 48 \<le> c \<and> c \<le> 57 then St 115 else St 0) else if c > 70 then (if 97 \<le> c
      \<and> c \<le> 102 then St 115 else St 0) else St 115))
    else if cs = 115 then
      (if c = 58 then St 111 else if c < 65 then (if 48 \<le> c \<and> c \<le> 57 then St 116 else St 0) else if c >
      70 then (if 97 \<le> c \<and> c \<le> 102 then St 116 else St 0) else St 116)
    else if cs = 116 then
      (if c = 58 then St 111 else if c < 65 then (if 48 \<le> c \<and> c \<le> 57 then St 117 else St 0) else if c >
      70 then (if 97 \<le> c \<and> c \<le> 102 then St 117 else St 0) else St 117)
    else if cs = 117 then
      (if c = 58 then St 111 else St 0)
    else if cs = 118 then
      (switch c [(46, St 72), (58, St 111)]
      (if c < 65 then (if 48 \<le> c \<and> c \<le> 57 then St 119 else St 0) else if c > 70 then (if 97 \<le> c
      \<and> c \<le> 102 then St 115 else St 0) else St 115))
    else if cs = 119 then
      (switch c [(46, St 72), (58, St 111)]
      (if c < 65 then (if 48 \<le> c \<and> c \<le> 57 then St 120 else St 0) else if c > 70 then (if 97 \<le> c
      \<and> c \<le> 102 then St 116 else St 0) else St 116))
    else St 0)"

definition uri_cases_21 :: "int \<Rightarrow> int \<Rightarrow> jump" where
  "uri_cases_21 cs c =
   (if cs = 120 then
     (switch c [(46, St 72), (58, St 111)]
     (if c < 65 then (if 48 \<le> c \<and> c \<le> 57 then St 117 else St 0) else if c > 70 then (if 97 \<le> c
     \<and> c \<le> 102 then St 117 else St 0) else St 117))
    else if cs = 121 then
      (switch c [(46, St 72), (53, St 123), (58, St 111)]
      (if c < 65 then (if 48 \<le> c \<and> c \<le> 57 then St 122 else St 0) else if c > 70 then (if 97 \<le> c
      \<and> c \<le> 102 then St 115 else St 0) else St 115))
    else if cs = 122 then
      (switch c [(46, St 72), (58, St 111)]
      (if c < 65 then (if 48 \<le> c \<and> c \<le> 57 then St 116 else St 0) else if c > 70 then (if 97 \<le> c
      \<and> c \<le> 102 then St 116 else St 0) else St 116))
    else if cs = 123 then
      (switch c [(46, St 72), (58, St 111)]
      (if c < 54 then (if 48 \<le> c \<and> c \<le> 53 then St 120 else St 0) else if c > 57 then (if c > 70 then (if
      97 \<le> c \<and> c \<le> 102 then St 116 else St 0) else if c \<ge> 65 then St 116 else St 0) else St 116))
    else if cs = 124 then
      (switch c [(46, St 72), (58, St 111)]
      (if c < 65 then (if 48 \<le> c \<and> c \<le> 57 then St 122 else St 0) else if c > 70 then (if 97 \<le> c
      \<and> c \<le> 102 then St 115 else St 0) else St 115))
    else if cs = 125 then
      (if c = 58 then St 111 else if c < 65 then (if 48 \<le> c \<and> c \<le> 57 then St 115 else St 0) else if c >
      70 then (if 97 \<le> c \<and> c \<le> 102 then St 115 else St 0) else St 115)
    else if cs = 126 then
      (if c < 65 then (if 48 \<le> c \<and> c \<le> 57 then St 127 else St 0) else if c > 70 then (if 97 \<le> c
      \<and> c \<le> 102 then St 127 else St 0) else St 127)
    else if cs = 127 then
      (if c = 58 then St 113 else if c < 65 then (if 48 \<le> c \<and> c \<le> 57 then St 128 else St 0) else if c >
      70 then (if 97 \<le> c \<and> c \<le> 102 then St 128 else St 0) else St 128)
    else if cs = 128 then
      (if c = 58 then St 113 else if c < 65 then (if 48 \<le> c \<and> c \<le> 57 then St 129 else St 0) else if c >
      70 then (if 97 \<le> c \<and> c \<le> 102 then St 129 else St 0) else St 129)
    else St 0)"

definition uri_cases_22 :: "int \<Rightarrow> int \<Rightarrow> jump" where
  "uri_cases_22 cs c =
   (if cs = 129 then
     (if c = 58 then St 113 else if c < 65 then (if 48 \<le> c \<and> c \<le> 57 then St 130 else St 0) else if c >
     70 then (if 97 \<le> c \<and> c \<le> 102 then St 130 else St 0) else St 130)
    else if cs = 130 then
      (if c = 58 then St 113 else St 0)
    else if cs = 131 then
      (if c < 65 then (if 48 \<le> c \<and> c \<le> 57 then St 132 else St 0) else if c > 70 then (if 97 \<le> c
      \<and> c \<le> 102 then St 132 else St 0) else St 132)
    else if cs = 132 then
      (if c = 58 then St 126 else if c < 65 then (if 48 \<le> c \<and> c \<le> 57 then St 133 else St 0) else if c >
      70 then (if 97 \<le> c \<and> c \<le> 102 then St 133 else St 0) else St 133)
    else if cs = 133 then
      (if c = 58 then St 126 else if c < 65 then (if 48 \<le> c \<and> c \<le> 57 then St 134 else St 0) else if c >
      70 then (if 97 \<le> c \<and> c \<le> 102 then St 134 else St 0) else St 134)
    else if cs = 134 then
      (if c = 58 then St 126 else if c < 65 then (if 48 \<le> c \<and> c \<le> 57 then St 135 else St 0) else if c >
      70 then (if 97 \<le> c \<and> c \<le> 102 then St 135 else St 0) else St 135)
    else if cs = 135 then
      (if c = 58 then St 126 else St 0)
    else if cs = 136 then
      (if c < 65 then (if 48 \<le> c \<and> c \<le> 57 then St 137 else St 0) else if c > 70 then (if 97 \<le> c
      \<and> c \<le> 102 then St 137 else St 0) else St 137)
    else if cs = 137 then
      (if c = 58 then St 131 else if c < 65 then (if 48 \<le> c \<and> c \<le> 57 then St 138 else St 0) else if c >
      70 then (if 97 \<le> c \<and> c \<le> 102 then St 138 else St 0) else St 138)
    else if cs = 138 then
      (if c = 58 then St 131 else if c < 65 then (if 48 \<le> c \<and> c \<le> 57 then St 139 else St 0) else if c >
      70 then (if 97 \<le> c \<and> c \<le> 102 then St 139 else St 0) else St 139)
    else if cs = 139 then
      (if c = 58 then St 131 else if c < 65 then (if 48 \<le> c \<and> c \<le> 57 then St 140 else St 0) else if c >
      70 then (if 97 \<le> c \<and> c \<le> 102 then St 140 else St 0) else St 140)
    else St 0)"

definition uri_cases_23 :: "int \<Rightarrow> int \<Rightarrow> jump" where
  "uri_cases_23 cs c =
   (if cs = 140 then
     (if c = 58 then St 131 else St 0)
    else if cs = 141 then
      (if c < 65 then (if 48 \<le> c \<and> c \<le> 57 then St 142 else St 0) else if c > 70 then (if 97 \<le> c
      \<and> c \<le> 102 then St 142 else St 0) else St 142)
    else if cs = 142 then
      (if c = 58 then St 136 else if c < 65 then (if 48 \<le> c \<and> c \<le> 57 then St 143 else St 0) else if c >
      70 then (if 97 \<le> c \<and> c \<le> 102 then St 143 else St 0) else St 143)
    else if cs = 143 then
      (if c = 58 then St 136 else if c < 65 then (if 48 \<le> c \<and> c \<le> 57 then St 144 else St 0) else if c >
      70 then (if 97 \<le> c \<and> c \<le> 102 then St 144 else St 0) else St 144)
    else if cs = 144 then
      (if c = 58 then St 136 else if c < 65 then (if 48 \<le> c \<and> c \<le> 57 then St 145 else St 0) else if c >
      70 then (if 97 \<le> c \<and> c \<le> 102 then St 145 else St 0) else St 145)
    else if cs = 145 then
      (if c = 58 then St 136 else St 0)
    else if cs = 146 then
      (if c = 58 then St 147 else St 0)
    else if cs = 147 then
      (switch c [(2, St 69), (48, St 148), (49, St 217), (50, St 220), (93, St 460)]
      (if c < 65 then (if 51 \<le> c \<and> c \<le> 57 then St 223 else St 0) else if c > 70 then (if 97 \<le> c
      \<and> c \<le> 102 then St 224 else St 0) else St 224))
    else if cs = 148 then
      (switch c [(46, St 72), (58, St 152), (93, St 460)]
      (if c < 65 then (if 48 \<le> c \<and> c \<le> 57 then St 149 else St 0) else if c > 70 then (if 97 \<le> c
      \<and> c \<le> 102 then St 149 else St 0) else St 149))
    else if cs = 149 then
      (switch c [(58, St 152), (93, St 460)]
      (if c < 65 then (if 48 \<le> c \<and> c \<le> 57 then St 150 else St 0) else if c > 70 then (if 97 \<le> c
      \<and> c \<le> 102 then St 150 else St 0) else St 150))
    else St 0)"

definition uri_cases_24 :: "int \<Rightarrow> int \<Rightarrow> jump" where
  "uri_cases_24 cs c =
   (if cs = 150 then
     (switch c [(58, St 152), (93, St 460)]
     (if c < 65 then (if 48 \<le> c \<and> c \<le> 57 then St 151 else St 0) else if c > 70 then (if 97 \<le> c
     \<and> c \<le> 102 then St 151 else St 0) else St 151))
    else if cs = 151 then
      (switch c [(58, St 152), (93, St 460)]
      (St 0))
    else if cs = 152 then
      (switch c [(2, St 69), (48, St 153), (49, St 209), (50, St 212)]
      (if c < 65 then (if 51 \<le> c \<and> c \<le> 57 then St 215 else St 0) else if c > 70 then (if 97 \<le> c
      \<and> c \<le> 102 then St 216 else St 0) else St 216))
    else if cs = 153 then
      (switch c [(46, St 72), (58, St 157), (93, St 460)]
      (if c < 65 then (if 48 \<le> c \<and> c \<le> 57 then St 154 else St 0) else if c > 70 then (if 97 \<le> c
      \<and> c \<le> 102 then St 154 else St 0) else St 154))
    else if cs = 154 then
      (switch c [(58, St 157), (93, St 460)]
      (if c < 65 then (if 48 \<le> c \<and> c \<le> 57 then St 155 else St 0) else if c > 70 then (if 97 \<le> c
      \<and> c \<le> 102 then St 155 else St 0) else St 155))
    else if cs = 155 then
      (switch c [(58, St 157), (93, St 460)]
      (if c < 65 then (if 48 \<le> c \<and> c \<le> 57 then St 156 else St 0) else if c > 70 then (if 97 \<le> c
      \<and> c \<le> 102 then St 156 else St 0) else St 156))
    else if cs = 156 then
      (switch c [(58, St 157), (93, St 460)]
      (St 0))
    else if cs = 157 then
      (switch c [(2, St 69), (48, St 158), (49, St 201), (50, St 204)]
      (if c < 65 then (if 51 \<le> c \<and> c \<le> 57 then St 207 else St 0) else if c > 70 then (if 97 \<le> c
      \<and> c \<le> 102 then St 208 else St 0) else St 208))
    else if cs = 158 then
      (switch c [(46, St 72), (58, St 162), (93, St 460)]
      (if c < 65 then (if 48 \<le> c \<and> c \<le> 57 then St 159 else St 0) else if c > 70 then (if 97 \<le> c
      \<and> c \<le> 102 then St 159 else St 0) else St 159))
    else St 0)"

definition uri_cases_25 :: "int \<Rightarrow> int \<Rightarrow> jump" where
  "uri_cases_25 cs c =
   (if cs = 159 then
     (switch c [(58, St 162), (93, St 460)]
     (if c < 65 then (if 48 \<le> c \<and> c \<le> 57 then St 160 else St 0) else if c > 70 then (if 97 \<le> c
     \<and> c \<le> 102 then St 160 else St 0) else St 160))
    else if cs = 160 then
      (switch c [(58, St 162), (93, St 460)]
      (if c < 65 then (if 48 \<le> c \<and> c \<le> 57 then St 161 else St 0) else if c > 70 then (if 97 \<le> c
      \<and> c \<le> 102 then St 161 else St 0) else St 161))
    else if cs = 161 then
      (switch c [(58, St 162), (93, St 460)]
      (St 0))
    else if cs = 162 then
      (switch c [(2, St 69), (48, St 163), (49, St 193), (50, St 196)]
      (if c < 65 then (if 51 \<le> c \<and> c \<le> 57 then St 199 else St 0) else if c > 70 then (if 97 \<le> c
      \<and> c \<le> 102 then St 200 else St 0) else St 200))
    else if cs = 163 then
      (switch c [(46, St 72), (58, St 167), (93, St 460)]
      (if c < 65 then (if 48 \<le> c \<and> c \<le> 57 then St 164 else St 0) else if c > 70 then (if 97 \<le> c
      \<and> c \<le> 102 then St 164 else St 0) else St 164))
    else if cs = 164 then
      (switch c [(58, St 167), (93, St 460)]
      (if c < 65 then (if 48 \<le> c \<and> c \<le> 57 then St 165 else St 0) else if c > 70 then (if 97 \<le> c
      \<and> c \<le> 102 then St 165 else St 0) else St 165))
    else if cs = 165 then
      (switch c [(58, St 167), (93, St 460)]
      (if c < 65 then (if 48 \<le> c \<and> c \<le> 57 then St 166 else St 0) else if c > 70 then (if 97 \<le> c
      \<and> c \<le> 102 then St 166 else St 0) else St 166))
    else if cs = 166 then
      (switch c [(58, St 167), (93, St 460)]
      (St 0))
    else if cs = 167 then
      (switch c [(2, St 69), (48, St 168), (49, St 185), (50, St 188)]
      (if c < 65 then (if 51 \<le> c \<and> c \<le> 57 then St 191 else St 0) else if c > 70 then (if 97 \<le> c
      \<and> c \<le> 102 then St 192 else St 0) else St 192))
    else St 0)"

definition uri_cases_26 :: "int \<Rightarrow> int \<Rightarrow> jump" where
  "uri_cases_26 cs c =
   (if cs = 168 then
     (switch c [(46, St 72), (58, St 172), (93, St 460)]
     (if c < 65 then (if 48 \<le> c \<and> c \<le> 57 then St 169 else St 0) else if c > 70 then (if 97 \<le> c
     \<and> c \<le> 102 then St 169 else St 0) else St 169))
    else if cs = 169 then
      (switch c [(58, St 172), (93, St 460)]
      (if c < 65 then (if 48 \<le> c \<and> c \<le> 57 then St 170 else St 0) else if c > 70 then (if 97 \<le> c
      \<and> c \<le> 102 then St 170 else St 0) else St 170))
    else if cs = 170 then
      (switch c [(58, St 172), (93, St 460)]
      (if c < 65 then (if 48 \<le> c \<and> c \<le> 57 then St 171 else St 0) else if c > 70 then (if 97 \<le> c
      \<and> c \<le> 102 then St 171 else St 0) else St 171))
    else if cs = 171 then
      (switch c [(58, St 172), (93, St 460)]
      (St 0))
    else if cs = 172 then
      (switch c [(2, St 69), (48, St 173), (49, St 177), (50, St 180)]
      (if c < 65 then (if 51 \<le> c \<and> c \<le> 57 then St 183 else St 0) else if c > 70 then (if 97 \<le> c
      \<and> c \<le> 102 then St 184 else St 0) else St 184))
    else if cs = 173 then
      (switch c [(46, St 72), (58, St 111), (93, St 460)]
      (if c < 65 then (if 48 \<le> c \<and> c \<le> 57 then St 174 else St 0) else if c > 70 then (if 97 \<le> c
      \<and> c \<le> 102 then St 174 else St 0) else St 174))
    else if cs = 174 then
      (switch c [(58, St 111), (93, St 460)]
      (if c < 65 then (if 48 \<le> c \<and> c \<le> 57 then St 175 else St 0) else if c > 70 then (if 97 \<le> c
      \<and> c \<le> 102 then St 175 else St 0) else St 175))
    else if cs = 175 then
      (switch c [(58, St 111), (93, St 460)]
      (if c < 65 then (if 48 \<le> c \<and> c \<le> 57 then St 176 else St 0) else if c > 70 then (if 97 \<le> c
      \<and> c \<le> 102 then St 176 else St 0) else St 176))
    else if cs = 176 then
      (switch c [(58, St 111), (93, St 460)]
      (St 0))
    else St 0)"

definition uri_cases_27 :: "int \<Rightarrow> int \<Rightarrow> jump" where
  "uri_cases_27 cs c =
   (if cs = 177 then
     (switch c [(46, St 72), (58, St 111), (93, St 460)]
     (if c < 65 then (if 48 \<le> c \<and> c \<le> 57 then St 178 else St 0) else if c > 70 then (if 97 \<le> c
     \<and> c \<le> 102 then St 174 else St 0) else St 174))
    else if cs = 178 then
      (switch c [(46, St 72), (58, St 111), (93, St 460)]
      (if c < 65 then (if 48 \<le> c \<and> c \<le> 57 then St 179 else St 0) else if c > 70 then (if 97 \<le> c
      \<and> c \<le> 102 then St 175 else St 0) else St 175))
    else if cs = 179 then
      (switch c [(46, St 72), (58, St 111), (93, St 460)]
      (if c < 65 then (if 48 \<le> c \<and> c \<le> 57 then St 176 else St 0) else if c > 70 then (if 97 \<le> c
      \<and> c \<le> 102 then St 176 else St 0) else St 176))
    else if cs = 180 then
      (switch c [(46, St 72), (53, St 182), (58, St 111), (93, St 460)]
      (if c < 65 then (if 48 \<le> c \<and> c \<le> 57 then St 181 else St 0) else if c > 70 then (if 97 \<le> c
      \<and> c \<le> 102 then St 174 else St 0) else St 174))
    else if cs = 181 then
      (switch c [(46, St 72), (58, St 111), (93, St 460)]
      (if c < 65 then (if 48 \<le> c \<and> c \<le> 57 then St 175 else St 0) else if c > 70 then (if 97 \<le> c
      \<and> c \<le> 102 then St 175 else St 0) else St 175))
    else if cs = 182 then
      (switch c [(46, St 72), (58, St 111), (93, St 460)]
      (if c < 54 then (if 48 \<le> c \<and> c \<le> 53 then St 179 else St 0) else if c > 57 then (if c > 70 then (if
      97 \<le> c \<and> c \<le> 102 then St 175 else St 0) else if c \<ge> 65 then St 175 else St 0) else St 175))
    else if cs = 183 then
      (switch c [(46, St 72), (58, St 111), (93, St 460)]
      (if c < 65 then (if 48 \<le> c \<and> c \<le> 57 then St 181 else St 0) else if c > 70 then (if 97 \<le> c
      \<and> c \<le> 102 then St 174 else St 0) else St 174))
    else if cs = 184 then
      (switch c [(58, St 111), (93, St 460)]
      (if c < 65 then (if 48 \<le> c \<and> c \<le> 57 then St 174 else St 0) else if c > 70 then (if 97 \<le> c
      \<and> c \<le> 102 then St 174 else St 0) else St 174))
    else St 0)"

definition uri_cases_28 :: "int \<Rightarrow> int \<Rightarrow> jump" where
  "uri_cases_28 cs c =
   (if cs = 185 then
     (switch c [(46, St 72), (58, St 172), (93, St 460)]
     (if c < 65 then (if 48 \<le> c \<and> c \<le> 57 then St 186 else St 0) else if c > 70 then (if 97 \<le> c
     \<and> c \<le> 102 then St 169 else St 0) else St 169))
    else if cs = 186 then
      (switch c [(46, St 72), (58, St 172), (93, St 460)]
      (if c < 65 then (if 48 \<le> c \<and> c \<le> 57 then St 187 else St 0) else if c > 70 then (if 97 \<le> c
      \<and> c \<le> 102 then St 170 else St 0) else St 170))
    else if cs = 187 then
      (switch c [(46, St 72), (58, St 172), (93, St 460)]
      (if c < 65 then (if 48 \<le> c \<and> c \<le> 57 then St 171 else St 0) else if c > 70 then (if 97 \<le> c
      \<and> c \<le> 102 then St 171 else St 0) else St 171))
    else if cs = 188 then
      (switch c [(46, St 72), (53, St 190), (58, St 172), (93, St 460)]
      (if c < 65 then (if 48 \<le> c \<and> c \<le> 57 then St 189 else St 0) else if c > 70 then (if 97 \<le> c
      \<and> c \<le> 102 then St 169 else St 0) else St 169))
    else if cs = 189 then
      (switch c [(46, St 72), (58, St 172), (93, St 460)]
      (if c < 65 then (if 48 \<le> c \<and> c \<le> 57 then St 170 else St 0) else if c > 70 then (if 97 \<le> c
      \<and> c \<le> 102 then St 170 else St 0) else St 170))
    else if cs = 190 then
      (switch c [(46, St 72), (58, St 172), (93, St 460)]
      (if c < 54 then (if 48 \<le> c \<and> c \<le> 53 then St 187 else St 0) else if c > 57 then (if c > 70 then (if
      97 \<le> c \<and> c \<le> 102 then St 170 else St 0) else if c \<ge> 65 then St 170 else St 0) else St 170))
    else if cs = 191 then
      (switch c [(46, St 72), (58, St 172), (93, St 460)]
      (if c < 65 then (if 48 \<le> c \<and> c \<le> 57 then St 189 else St 0) else if c > 70 then (if 97 \<le> c
      \<and> c \<le> 102 then St 169 else St 0) else St 169))
    else if cs = 192 then
      (switch c [(58, St 172), (93, St 460)]
      (if c < 65 then (if 48 \<le> c \<and> c \<le> 57 then St 169 else St 0) else if c > 70 then (if 97 \<le> c
      \<and> c \<le> 102 then St 169 else St 0) else St 169))
    else St 0)"

definition uri_cases_29 :: "int \<Rightarrow> int \<Rightarrow> jump" where
  "uri_cases_29 cs c =
   (if cs = 193 then
     (switch c [(46, St 72), (58, St 167), (93, St 460)]
     (if c < 65 then (if 48 \<le> c \<and> c \<le> 57 then St 194 else St 0) else if c > 70 then (if 97 \<le> c
     \<and> c \<le> 102 then St 164 else St 0) else St 164))
    else if cs = 194 then
      (switch c [(46, St 72), (58, St 167), (93, St 460)]
      (if c < 65 then (if 48 \<le> c \<and> c \<le> 57 then St 195 else St 0) else if c > 70 then (if 97 \<le> c
      \<and> c \<le> 102 then St 165 else St 0) else St 165))
    else if cs = 195 then
      (switch c [(46, St 72), (58, St 167), (93, St 460)]
      (if c < 65 then (if 48 \<le> c \<and> c \<le> 57 then St 166 else St 0) else if c > 70 then (if 97 \<le> c
      \<and> c \<le> 102 then St 166 else St 0) else St 166))
    else if cs = 196 then
      (switch c [(46, St 72), (53, St 198), (58, St 167), (93, St 460)]
      (if c < 65 then (if 48 \<le> c \<and> c \<le> 57 then St 197 else St 0) else if c > 70 then (if 97 \<le> c
      \<and> c \<le> 102 then St 164 else St 0) else St 164))
    else if cs = 197 then
      (switch c [(46, St 72), (58, St 167), (93, St 460)]
      (if c < 65 then (if 48 \<le> c \<and> c \<le> 57 then St 165 else St 0) else if c > 70 then (if 97 \<le> c
      \<and> c \<le> 102 then St 165 else St 0) else St 165))
    else if cs = 198 then
      (switch c [(46, St 72), (58, St 167), (93, St 460)]
      (if c < 54 then (if 48 \<le> c \<and> c \<le> 53 then St 195 else St 0) else if c > 57 then (if c > 70 then (if
      97 \<le> c \<and> c \<le> 102 then St 165 else St 0) else if c \<ge> 65 then St 165 else St 0) else St 165))
    else if cs = 199 then
      (switch c [(46, St 72), (58, St 167), (93, St 460)]
      (if c < 65 then (if 48 \<le> c \<and> c \<le> 57 then St 197 else St 0) else if c > 70 then (if 97 \<le> c
      \<and> c \<le> 102 then St 164 else St 0) else St 164))
    else if cs = 200 then
      (switch c [(58, St 167), (93, St 460)]
      (if c < 65 then (if 48 \<le> c \<and> c \<le> 57 then St 164 else St 0) else if c > 70 then (if 97 \<le> c
      \<and> c \<le> 102 then St 164 else St 0) else St 164))
    else St 0)"

definition uri_cases_30 :: "int \<Rightarrow> int \<Rightarrow> jump" where
  "uri_cases_30 cs c =
   (if cs = 201 then
     (switch c [(46, St 72), (58, St 162), (93, St 460)]
     (if c < 65 then (if 48 \<le> c \<and> c \<le> 57 then St 202 else St 0) else if c > 70 then (if 97 \<le> c
     \<and> c \<le> 102 then St 159 else St 0) else St 159))
    else if cs = 202 then
      (switch c [(46, St 72), (58, St 162), (93, St 460)]
      (if c < 65 then (if 48 \<le> c \<and> c \<le> 57 then St 203 else St 0) else if c > 70 then (if 97 \<le> c
      \<and> c \<le> 102 then St 160 else St 0) else St 160))
    else if cs = 203 then
      (switch c [(46, St 72), (58, St 162), (93, St 460)]
      (if c < 65 then (if 48 \<le> c \<and> c \<le> 57 then St 161 else St 0) else if c > 70 then (if 97 \<le> c
      \<and> c \<le> 102 then St 161 else St 0) else St 161))
    else if cs = 204 then
      (switch c [(46, St 72), (53, St 206), (58, St 162), (93, St 460)]
      (if c < 65 then (if 48 \<le> c \<and> c \<le> 57 then St 205 else St 0) else if c > 70 then (if 97 \<le> c
      \<and> c \<le> 102 then St 159 else St 0) else St 159))
    else if cs = 205 then
      (switch c [(46, St 72), (58, St 162), (93, St 460)]
      (if c < 65 then (if 48 \<le> c \<and> c \<le> 57 then St 160 else St 0) else if c > 70 then (if 97 \<le> c
      \<and> c \<le> 102 then St 160 else St 0) else St 160))
    else if cs = 206 then
      (switch c [(46, St 72), (58, St 162), (93, St 460)]
      (if c < 54 then (if 48 \<le> c \<and> c \<le> 53 then St 203 else St 0) else if c > 57 then (if c > 70 then (if
      97 \<le> c \<and> c \<le> 102 then St 160 else St 0) else if c \<ge> 65 then St 160 else St 0) else St 160))
    else if cs = 207 then
      (switch c [(46, St 72), (58, St 162), (93, St 460)]
      (if c < 65 then (if 48 \<le> c \<and> c \<le> 57 then St 205 else St 0) else if c > 70 then (if 97 \<le> c
      \<and> c \<le> 102 then St 159 else St 0) else St 159))
    else if cs = 208 then
      (switch c [(58, St 162), (93, St 460)]
      (if c < 65 then (if 48 \<le> c \<and> c \<le> 57 then St 159 else St 0) else if c > 70 then (if 97 \<le> c
      \<and> c \<le> 102 then St 159 else St 0) else St 159))
    else St 0)"

definition uri_cases_31 :: "int \<Rightarrow> int \<Rightarrow> jump" where
  "uri_cases_31 cs c =
   (if cs = 209 then
     (switch c [(46, St 72), (58, St 157), (93, St 460)]
     (if c < 65 then (if 48 \<le> c \<and> c \<le> 57 then St 210 else St 0) else if c > 70 then (if 97 \<le> c
     \<and> c \<le> 102 then St 154 else St 0) else St 154))
    else if cs = 210 then
      (switch c [(46, St 72), (58, St 157), (93, St 460)]
      (if c < 65 then (if 48 \<le> c \<and> c \<le> 57 then St 211 else St 0) else if c > 70 then (if 97 \<le> c
      \<and> c \<le> 102 then St 155 else St 0) else St 155))
    else if cs = 211 then
      (switch c [(46, St 72), (58, St 157), (93, St 460)]
      (if c < 65 then (if 48 \<le> c \<and> c \<le> 57 then St 156 else St 0) else if c > 70 then (if 97 \<le> c
      \<and> c \<le> 102 then St 156 else St 0) else St 156))
    else if cs = 212 then
      (switch c [(46, St 72), (53, St 214), (58, St 157), (93, St 460)]
      (if c < 65 then (if 48 \<le> c \<and> c \<le> 57 then St 213 else St 0) else if c > 70 then (if 97 \<le> c
      \<and> c \<le> 102 then St 154 else St 0) else St 154))
    else if cs = 213 then
      (switch c [(46, St 72), (58, St 157), (93, St 460)]
      (if c < 65 then (if 48 \<le> c \<and> c \<le> 57 then St 155 else St 0) else if c > 70 then (if 97 \<le> c
      \<and> c \<le> 102 then St 155 else St 0) else St 155))
    else if cs = 214 then
      (switch c [(46, St 72), (58, St 157), (93, St 460)]
      (if c < 54 then (if 48 \<le> c \<and> c \<le> 53 then St 211 else St 0) else if c > 57 then (if c > 70 then (if
      97 \<le> c \<and> c \<le> 102 then St 155 else St 0) else if c \<ge> 65 then St 155 else St 0) else St 155))
    else if cs = 215 then
      (switch c [(46, St 72), (58, St 157), (93, St 460)]
      (if c < 65 then (if 48 \<le> c \<and> c \<le> 57 then St 213 else St 0) else if c > 70 then (if 97 \<le> c
      \<and> c \<le> 102 then St 154 else St 0) else St 154))
    else if cs = 216 then
      (switch c [(58, St 157), (93, St 460)]
      (if c < 65 then (if 48 \<le> c \<and> c \<le> 57 then St 154 else St 0) else if c > 70 then (if 97 \<le> c
      \<and> c \<le> 102 then St 154 else St 0) else St 154))
    else St 0)"

definition uri_cases_32 :: "int \<Rightarrow> int \<Rightarrow> jump" where
  "uri_cases_32 cs c =
   (if cs = 217 then
     (switch c [(46, St 72), (58, St 152), (93, St 460)]
     (if c < 65 then (if 48 \<le> c \<and> c \<le> 57 then St 218 else St 0) else if c > 70 then (if 97 \<le> c
     \<and> c \<le> 102 then St 149 else St 0) else St 149))
    else if cs = 218 then
      (switch c [(46, St 72), (58, St 152), (93, St 460)]
      (if c < 65 then (if 48 \<le> c \<and> c \<le> 57 then St 219 else St 0) else if c > 70 then (if 97 \<le> c
      \<and> c \<le> 102 then St 150 else St 0) else St 150))
    else if cs = 219 then
      (switch c [(46, St 72), (58, St 152), (93, St 460)]
      (if c < 65 then (if 48 \<le> c \<and> c \<le> 57 then St 151 else St 0) else if c > 70 then (if 97 \<le> c
      \<and> c \<le> 102 then St 151 else St 0) else St 151))
    else if cs = 220 then
      (switch c [(46, St 72), (53, St 222), (58, St 152), (93, St 460)]
      (if c < 65 then (if 48 \<le> c \<and> c \<le> 57 then St 221 else St 0) else if c > 70 then (if 97 \<le> c
      \<and> c \<le> 102 then St 149 else St 0) else St 149))
    else if cs = 221 then
      (switch c [(46, St 72), (58, St 152), (93, St 460)]
      (if c < 65 then (if 48 \<le> c \<and> c \<le> 57 then St 150 else St 0) else if c > 70 then (if 97 \<le> c
      \<and> c \<le> 102 then St 150 else St 0) else St 150))
    else if cs = 222 then
      (switch c [(46, St 72), (58, St 152), (93, St 460)]
      (if c < 54 then (if 48 \<le> c \<and> c \<le> 53 then St 219 else St 0) else if c > 57 then (if c > 70 then (if
      97 \<le> c \<and> c \<le> 102 then St 150 else St 0) else if c \<ge> 65 then St 150 else St 0) else St 150))
    else if cs = 223 then
      (switch c [(46, St 72), (58, St 152), (93, St 460)]
      (if c < 65 then (if 48 \<le> c \<and> c \<le> 57 then St 221 else St 0) else if c > 70 then (if 97 \<le> c
      \<and> c \<le> 102 then St 149 else St 0) else St 149))
    else if cs = 224 then
      (switch c [(58, St 152), (93, St 460)]
      (if c < 65 then (if 48 \<le> c \<and> c \<le> 57 then St 149 else St 0) else if c > 70 then (if 97 \<le> c
      \<and> c \<le> 102 then St 149 else St 0) else St 149))
    else St 0)"

definition uri_cases_33 :: "int \<Rightarrow> int \<Rightarrow> jump" where
  "uri_cases_33 cs c =
   (if cs = 225 then
     (if c < 65 then (if 48 \<le> c \<and> c \<le> 57 then St 226 else St 0) else if c > 70 then (if 97 \<le> c
     \<and> c \<le> 102 then St 226 else St 0) else St 226)
    else if cs = 226 then
      (if c = 46 then St 227 else if c < 65 then (if 48 \<le> c \<and> c \<le> 57 then St 226 else St 0) else if c >
      70 then (if 97 \<le> c \<and> c \<le> 102 then St 226 else St 0) else St 226)
    else if cs = 227 then
      (switch c [(33, St 228), (36, St 228), (61, St 228), (95, St 228), (126, St 228)]
      (if c < 48 then (if 38 \<le> c \<and> c \<le> 46 then St 228 else St 0) else if c > 59 then (if c > 90 then (if
      97 \<le> c \<and> c \<le> 122 then St 228 else St 0) else if c \<ge> 65 then St 228 else St 0) else St 228))
    else if cs = 228 then
      (switch c [(33, St 228), (36, St 228), (61, St 228), (93, St 460), (95, St 228), (126, St 228)]
      (if c < 48 then (if 38 \<le> c \<and> c \<le> 46 then St 228 else St 0) else if c > 59 then (if c > 90 then (if
      97 \<le> c \<and> c \<le> 122 then St 228 else St 0) else if c \<ge> 65 then St 228 else St 0) else St 228))
    else if cs = 489 then
      (switch c [(33, St 33), (35, Tr 493), (37, St 34), (47, Tr 494), (61, St 33), (63, Tr 496), (64, Tr 38), (95,
      St 33), (126, St 33)]
      (if c < 58 then (if c > 46 then (if 48 \<le> c \<and> c \<le> 57 then St 489 else St 0) else if c \<ge> 36 then
      St 33 else St 0) else if c > 59 then (if c > 90 then (if 97 \<le> c \<and> c \<le> 122 then St 33 else St 0)
      else if c \<ge> 65 then St 33 else St 0) else St 33))
    else if cs = 490 then
      (switch c [(33, St 467), (35, Tr 485), (37, St 31), (46, St 491), (47, Tr 486), (58, Tr 499), (61, St 467),
      (63, Tr 488), (64, Tr 38), (95, St 467), (126, St 467)]
      (if c < 65 then (if 36 \<le> c \<and> c \<le> 59 then St 467 else St 0) else if c > 90 then (if 97 \<le> c
      \<and> c \<le> 122 then St 467 else St 0) else St 467))
    else St 0)"

definition uri_trs_33 :: "(int \<times> uri_action list \<times> int) list" where
  "uri_trs_33 =
    [(500, [Markh], 489), (477, [Markh], 490)]"

definition uri_cases_34 :: "int \<Rightarrow> int \<Rightarrow> jump" where
  "uri_cases_34 cs c =
   (if cs = 491 then
     (switch c [(2, St 13), (33, St 467), (35, Tr 485), (37, St 31), (47, Tr 486), (48, St 492), (49, St 500), (50,
     St 502), (58, Tr 499), (59, St 467), (61, St 467), (63, Tr 488), (64, Tr 38), (95, St 467), (126, St 467)]
     (if c < 51 then (if 36 \<le> c \<and> c \<le> 46 then St 467 else St 0) else if c > 57 then (if c > 90 then (if
     97 \<le> c \<and> c \<le> 122 then St 467 else St 0) else if c \<ge> 65 then St 467 else St 0) else St 501))
    else if cs = 492 then
      (switch c [(33, St 467), (35, Tr 485), (37, St 31), (46, St 493), (47, Tr 486), (58, Tr 499), (61, St 467),
      (63, Tr 488), (64, Tr 38), (95, St 467), (126, St 467)]
      (if c < 65 then (if 36 \<le> c \<and> c \<le> 59 then St 467 else St 0) else if c > 90 then (if 97 \<le> c
      \<and> c \<le> 122 then St 467 else St 0) else St 467))
    else if cs = 493 then
      (switch c [(2, St 17), (33, St 467), (35, Tr 485), (37, St 31), (47, Tr 486), (48, St 494), (49, St 496), (50,
      St 498), (58, Tr 499), (59, St 467), (61, St 467), (63, Tr 488), (64, Tr 38), (95, St 467), (126, St 467)]
      (if c < 51 then (if 36 \<le> c \<and> c \<le> 46 then St 467 else St 0) else if c > 57 then (if c > 90 then (if
      97 \<le> c \<and> c \<le> 122 then St 467 else St 0) else if c \<ge> 65 then St 467 else St 0) else St 497))
    else if cs = 494 then
      (switch c [(33, St 467), (35, Tr 485), (37, St 31), (46, St 495), (47, Tr 486), (58, Tr 499), (61, St 467),
      (63, Tr 488), (64, Tr 38), (95, St 467), (126, St 467)]
      (if c < 65 then (if 36 \<le> c \<and> c \<le> 59 then St 467 else St 0) else if c > 90 then (if 97 \<le> c
      \<and> c \<le> 122 then St 467 else St 0) else St 467))
    else if cs = 495 then
      (switch c [(2, St 21), (33, St 467), (35, Tr 485), (37, St 31), (47, Tr 486), (58, Tr 499), (61, St 467), (63,
      Tr 488), (64, Tr 38), (95, St 467), (126, St 467)]
      (if c < 65 then (if 36 \<le> c \<and> c \<le> 59 then St 467 else St 0) else if c > 90 then (if 97 \<le> c
      \<and> c \<le> 122 then St 467 else St 0) else St 467))
    else St 0)"

definition uri_cases_35 :: "int \<Rightarrow> int \<Rightarrow> jump" where
  "uri_cases_35 cs c =
   (if cs = 496 then
     (switch c [(33, St 467), (35, Tr 485), (37, St 31), (46, St 495), (47, Tr 486), (58, Tr 499), (59, St 467), (61,
     St 467), (63, Tr 488), (64, Tr 38), (95, St 467), (126, St 467)]
     (if c < 48 then (if 36 \<le> c \<and> c \<le> 45 then St 467 else St 0) else if c > 57 then (if c > 90 then (if
     97 \<le> c \<and> c \<le> 122 then St 467 else St 0) else if c \<ge> 65 then St 467 else St 0) else St 497))
    else if cs = 497 then
      (switch c [(33, St 467), (35, Tr 485), (37, St 31), (46, St 495), (47, Tr 486), (58, Tr 499), (59, St 467),
      (61, St 467), (63, Tr 488), (64, Tr 38), (95, St 467), (126, St 467)]
      (if c < 48 then (if 36 \<le> c \<and> c \<le> 45 then St 467 else St 0) else if c > 57 then (if c > 90 then (if
      97 \<le> c \<and> c \<le> 122 then St 467 else St 0) else if c \<ge> 65 then St 467 else St 0) else St 494))
    else if cs = 498 then
      (switch c [(33, St 467), (35, Tr 485), (37, St 31), (46, St 495), (47, Tr 486), (53, St 499), (58, Tr 499),
      (59, St 467), (61, St 467), (63, Tr 488), (64, Tr 38), (95, St 467), (126, St 467)]
      (if c < 48 then (if 36 \<le> c \<and> c \<le> 45 then St 467 else St 0) else if c > 57 then (if c > 90 then (if
      97 \<le> c \<and> c \<le> 122 then St 467 else St 0) else if c \<ge> 65 then St 467 else St 0) else St 494))
    else if cs = 499 then
      (switch c [(33, St 467), (35, Tr 485), (37, St 31), (46, St 495), (47, Tr 486), (58, Tr 499), (61, St 467),
      (63, Tr 488), (64, Tr 38), (95, St 467), (126, St 467)]
      (if c < 54 then (if c > 45 then (if 48 \<le> c \<and> c \<le> 53 then St 494 else St 0) else if c \<ge> 36 then
      St 467 else St 0) else if c > 59 then (if c > 90 then (if 97 \<le> c \<and> c \<le> 122 then St 467 else St 0)
      else if c \<ge> 65 then St 467 else St 0) else St 467))
    else St 0)"

definition uri_cases_36 :: "int \<Rightarrow> int \<Rightarrow> jump" where
  "uri_cases_36 cs c =
   (if cs = 500 then
     (switch c [(33, St 467), (35, Tr 485), (37, St 31), (46, St 493), (47, Tr 486), (58, Tr 499), (59, St 467), (61,
     St 467), (63, Tr 488), (64, Tr 38), (95, St 467), (126, St 467)]
     (if c < 48 then (if 36 \<le> c \<and> c \<le> 45 then St 467 else St 0) else if c > 57 then (if c > 90 then (if
     97 \<le> c \<and> c \<le> 122 then St 467 else St 0) else if c \<ge> 65 then St 467 else St 0) else St 501))
    else if cs = 501 then
      (switch c [(33, St 467), (35, Tr 485), (37, St 31), (46, St 493), (47, Tr 486), (58, Tr 499), (59, St 467),
      (61, St 467), (63, Tr 488), (64, Tr 38), (95, St 467), (126, St 467)]
      (if c < 48 then (if 36 \<le> c \<and> c \<le> 45 then St 467 else St 0) else if c > 57 then (if c > 90 then (if
      97 \<le> c \<and> c \<le> 122 then St 467 else St 0) else if c \<ge> 65 then St 467 else St 0) else St 492))
    else if cs = 502 then
      (switch c [(33, St 467), (35, Tr 485), (37, St 31), (46, St 493), (47, Tr 486), (53, St 503), (58, Tr 499),
      (59, St 467), (61, St 467), (63, Tr 488), (64, Tr 38), (95, St 467), (126, St 467)]
      (if c < 48 then (if 36 \<le> c \<and> c \<le> 45 then St 467 else St 0) else if c > 57 then (if c > 90 then (if
      97 \<le> c \<and> c \<le> 122 then St 467 else St 0) else if c \<ge> 65 then St 467 else St 0) else St 492))
    else if cs = 503 then
      (switch c [(33, St 467), (35, Tr 485), (37, St 31), (46, St 493), (47, Tr 486), (58, Tr 499), (61, St 467),
      (63, Tr 488), (64, Tr 38), (95, St 467), (126, St 467)]
      (if c < 54 then (if c > 45 then (if 48 \<le> c \<and> c \<le> 53 then St 492 else St 0) else if c \<ge> 36 then
      St 467 else St 0) else if c > 59 then (if c > 90 then (if 97 \<le> c \<and> c \<le> 122 then St 467 else St 0)
      else if c \<ge> 65 then St 467 else St 0) else St 467))
    else St 0)"

definition uri_trs_36 :: "(int \<times> uri_action list \<times> int) list" where
  "uri_trs_36 =
    [(478, [Markh], 504)]"

definition uri_cases_37 :: "int \<Rightarrow> int \<Rightarrow> jump" where
  "uri_cases_37 cs c =
   (if cs = 504 then
     (switch c [(33, St 467), (35, Tr 485), (37, St 31), (46, St 491), (47, Tr 486), (58, Tr 499), (59, St 467), (61,
     St 467), (63, Tr 488), (64, Tr 38), (95, St 467), (126, St 467)]
     (if c < 48 then (if 36 \<le> c \<and> c \<le> 45 then St 467 else St 0) else if c > 57 then (if c > 90 then (if
     97 \<le> c \<and> c \<le> 122 then St 467 else St 0) else if c \<ge> 65 then St 467 else St 0) else St 505))
    else if cs = 505 then
      (switch c [(33, St 467), (35, Tr 485), (37, St 31), (46, St 491), (47, Tr 486), (58, Tr 499), (59, St 467),
      (61, St 467), (63, Tr 488), (64, Tr 38), (95, St 467), (126, St 467)]
      (if c < 48 then (if 36 \<le> c \<and> c \<le> 45 then St 467 else St 0) else if c > 57 then (if c > 90 then (if
      97 \<le> c \<and> c \<le> 122 then St 467 else St 0) else if c \<ge> 65 then St 467 else St 0) else St 490))
    else if cs = 506 then
      (switch c [(33, St 467), (35, Tr 485), (37, St 31), (46, St 491), (47, Tr 486), (53, St 507), (58, Tr 499),
      (59, St 467), (61, St 467), (63, Tr 488), (64, Tr 38), (95, St 467), (126, St 467)]
      (if c < 48 then (if 36 \<le> c \<and> c \<le> 45 then St 467 else St 0) else if c > 57 then (if c > 90 then (if
      97 \<le> c \<and> c \<le> 122 then St 467 else St 0) else if c \<ge> 65 then St 467 else St 0) else St 490))
    else if cs = 507 then
      (switch c [(33, St 467), (35, Tr 485), (37, St 31), (46, St 491), (47, Tr 486), (58, Tr 499), (61, St 467),
      (63, Tr 488), (64, Tr 38), (95, St 467), (126, St 467)]
      (if c < 54 then (if c > 45 then (if 48 \<le> c \<and> c \<le> 53 then St 490 else St 0) else if c \<ge> 36 then
      St 467 else St 0) else if c > 59 then (if c > 90 then (if 97 \<le> c \<and> c \<le> 122 then St 467 else St 0)
      else if c \<ge> 65 then St 467 else St 0) else St 467))
    else St 0)"

definition uri_trs_37 :: "(int \<times> uri_action list \<times> int) list" where
  "uri_trs_37 =
    [(480, [Markh], 505), (479, [Markh], 506), (461, [Marku], 508)]"

definition uri_cases_38 :: "int \<Rightarrow> int \<Rightarrow> jump" where
  "uri_cases_38 cs c =
   (if cs = 508 then
     (switch c [(34, St 0), (35, St 453), (37, St 3), (43, St 508), (47, St 455), (58, Tr 543), (60, St 0), (62, St
     0), (63, St 456), (96, St 0), (127, St 0)]
     (if c < 65 then (if c > 32 then (if 45 \<le> c \<and> c \<le> 57 then St 508 else St 452) else if c \<ge> 0 then
     St 0 else St 452) else if c > 90 then (if c < 97 then (if 91 \<le> c \<and> c \<le> 94 then St 0 else St 452)
     else if c > 122 then (if 123 \<le> c \<and> c \<le> 125 then St 0 else St 452) else St 508) else St 508))
    else if cs = 509 then
      (switch c [(34, St 0), (35, St 453), (37, St 5), (47, St 510), (60, St 0), (62, St 0), (63, St 456), (96, St
      0), (127, St 0)]
      (if c < 91 then (if 0 \<le> c \<and> c \<le> 32 then St 0 else St 455) else if c > 94 then (if 123 \<le> c
      \<and> c \<le> 125 then St 0 else St 455) else St 0))
    else if cs = 510 then
      (switch c [(34, St 0), (35, St 453), (37, St 5), (47, St 511), (60, St 0), (62, St 0), (63, St 456), (96, St
      0), (127, St 0)]
      (if c < 91 then (if 0 \<le> c \<and> c \<le> 32 then St 0 else St 455) else if c > 94 then (if 123 \<le> c
      \<and> c \<le> 125 then St 0 else St 455) else St 0))
    else if cs = 511 then
      (switch c [(2, Tr 546), (33, Tr 547), (35, Tr 548), (37, Tr 549), (47, Tr 550), (48, Tr 551), (49, Tr 552),
      (50, Tr 553), (58, Tr 555), (59, Tr 547), (61, Tr 547), (63, Tr 556), (64, Tr 557), (91, Tr 558), (95, Tr 547),
      (126, Tr 547)]
      (if c < 51 then (if 36 \<le> c \<and> c \<le> 46 then Tr 547 else St 0) else if c > 57 then (if c > 90 then (if
      97 \<le> c \<and> c \<le> 122 then Tr 547 else St 0) else if c \<ge> 65 then Tr 547 else St 0) else Tr 554))
    else if cs = 229 then
      (if 48 \<le> c \<and> c \<le> 52 then St 230 else St 0)
    else if cs = 230 then
      (if 48 \<le> c \<and> c \<le> 57 then St 231 else St 0)
    else St 0)"

definition uri_trs_38 :: "(int \<times> uri_action list \<times> int) list" where
  "uri_trs_38 =
    [(543, [Save_scheme], 509), (546, [Markh], 229)]"

definition uri_cases_39 :: "int \<Rightarrow> int \<Rightarrow> jump" where
  "uri_cases_39 cs c =
   (if cs = 231 then
     (if c = 46 then St 232 else St 0)
    else if cs = 232 then
      (switch c [(2, St 233), (48, St 235), (49, St 249), (50, St 251)]
      (if 51 \<le> c \<and> c \<le> 57 then St 250 else St 0))
    else if cs = 233 then
      (if 48 \<le> c \<and> c \<le> 52 then St 234 else St 0)
    else if cs = 234 then
      (if 48 \<le> c \<and> c \<le> 57 then St 235 else St 0)
    else if cs = 235 then
      (if c = 46 then St 236 else St 0)
    else if cs = 236 then
      (switch c [(2, St 237), (48, St 239), (49, St 245), (50, St 247)]
      (if 51 \<le> c \<and> c \<le> 57 then St 246 else St 0))
    else if cs = 237 then
      (if 48 \<le> c \<and> c \<le> 52 then St 238 else St 0)
    else if cs = 238 then
      (if 48 \<le> c \<and> c \<le> 57 then St 239 else St 0)
    else if cs = 239 then
      (if c = 46 then St 240 else St 0)
    else if cs = 240 then
      (switch c [(2, St 241), (48, St 512), (49, St 516), (50, St 518)]
      (if 51 \<le> c \<and> c \<le> 57 then St 517 else St 0))
    else if cs = 241 then
      (if 48 \<le> c \<and> c \<le> 52 then St 242 else St 0)
    else if cs = 242 then
      (if 48 \<le> c \<and> c \<le> 57 then St 512 else St 0)
    else if cs = 512 then
      (switch c [(35, Tr 559), (47, Tr 560), (58, Tr 561), (63, Tr 562)]
      (St 0))
    else St 0)"

definition uri_trs_39 :: "(int \<times> uri_action list \<times> int) list" where
  "uri_trs_39 =
    [(550, [Markh, Save_host], 513), (567, [Markh, Save_port], 513), (560, [Save_host, Markh], 513)]"

definition uri_cases_40 :: "int \<Rightarrow> int \<Rightarrow> jump" where
  "uri_cases_40 cs c =
   (if cs = 513 then
     (switch c [(34, St 0), (35, Tr 563), (37, St 243), (60, St 0), (62, St 0), (63, Tr 565), (96, St 0), (127, St
     0)]
     (if c < 91 then (if 0 \<le> c \<and> c \<le> 32 then St 0 else St 513) else if c > 94 then (if 123 \<le> c
     \<and> c \<le> 125 then St 0 else St 513) else St 0))
    else if cs = 243 then
      (if c < 65 then (if 48 \<le> c \<and> c \<le> 57 then St 244 else St 0) else if c > 70 then (if 97 \<le> c
      \<and> c \<le> 102 then St 244 else St 0) else St 244)
    else if cs = 244 then
      (if c < 65 then (if 48 \<le> c \<and> c \<le> 57 then St 513 else St 0) else if c > 70 then (if 97 \<le> c
      \<and> c \<le> 102 then St 513 else St 0) else St 513)
    else if cs = 514 then
      (switch c [(35, Tr 566), (47, Tr 567), (63, Tr 569)]
      (if 48 \<le> c \<and> c \<le> 57 then Tr 568 else St 0))
    else if cs = 515 then
      (switch c [(35, Tr 570), (47, Tr 571), (63, Tr 573)]
      (if 48 \<le> c \<and> c \<le> 57 then St 515 else St 0))
    else if cs = 516 then
      (switch c [(35, Tr 559), (47, Tr 560), (58, Tr 561), (63, Tr 562)]
      (if 48 \<le> c \<and> c \<le> 57 then St 517 else St 0))
    else if cs = 517 then
      (switch c [(35, Tr 559), (47, Tr 560), (58, Tr 561), (63, Tr 562)]
      (if 48 \<le> c \<and> c \<le> 57 then St 512 else St 0))
    else St 0)"

definition uri_trs_40 :: "(int \<times> uri_action list \<times> int) list" where
  "uri_trs_40 =
    [(571, [Save_port, Markh], 513), (584, [Markh, Save_host], 514), (561, [Save_host], 514), (568, [Markh], 515)]"

definition uri_cases_41 :: "int \<Rightarrow> int \<Rightarrow> jump" where
  "uri_cases_41 cs c =
   (if cs = 518 then
     (switch c [(35, Tr 559), (47, Tr 560), (53, St 519), (58, Tr 561), (63, Tr 562)]
     (if 48 \<le> c \<and> c \<le> 57 then St 512 else St 0))
    else if cs = 519 then
      (switch c [(35, Tr 559), (47, Tr 560), (58, Tr 561), (63, Tr 562)]
      (if 48 \<le> c \<and> c \<le> 53 then St 512 else St 0))
    else if cs = 245 then
      (if c = 46 then St 240 else if 48 \<le> c \<and> c \<le> 57 then St 246 else St 0)
    else if cs = 246 then
      (if c = 46 then St 240 else if 48 \<le> c \<and> c \<le> 57 then St 239 else St 0)
    else if cs = 247 then
      (switch c [(46, St 240), (53, St 248)]
      (if 48 \<le> c \<and> c \<le> 57 then St 239 else St 0))
    else if cs = 248 then
      (if c = 46 then St 240 else if 48 \<le> c \<and> c \<le> 53 then St 239 else St 0)
    else if cs = 249 then
      (if c = 46 then St 236 else if 48 \<le> c \<and> c \<le> 57 then St 250 else St 0)
    else if cs = 250 then
      (if c = 46 then St 236 else if 48 \<le> c \<and> c \<le> 57 then St 235 else St 0)
    else if cs = 251 then
      (switch c [(46, St 236), (53, St 252)]
      (if 48 \<le> c \<and> c \<le> 57 then St 235 else St 0))
    else if cs = 252 then
      (if c = 46 then St 236 else if 48 \<le> c \<and> c \<le> 53 then St 235 else St 0)
    else if cs = 520 then
      (switch c [(33, St 520), (35, Tr 559), (37, St 253), (47, Tr 560), (58, Tr 576), (61, St 520), (63, Tr 562),
      (64, Tr 263), (95, St 520), (126, St 520)]
      (if c < 65 then (if 36 \<le> c \<and> c \<le> 59 then St 520 else St 0) else if c > 90 then (if 97 \<le> c
      \<and> c \<le> 122 then St 520 else St 0) else St 520))
    else St 0)"

definition uri_trs_41 :: "(int \<times> uri_action list \<times> int) list" where
  "uri_trs_41 =
    [(547, [Markh], 520), (549, [Markh], 253)]"

definition uri_cases_42 :: "int \<Rightarrow> int \<Rightarrow> jump" where
  "uri_cases_42 cs c =
   (if cs = 253 then
     (if c < 65 then (if 48 \<le> c \<and> c \<le> 57 then St 254 else St 0) else if c > 70 then (if 97 \<le> c
     \<and> c \<le> 102 then St 254 else St 0) else St 254)
    else if cs = 254 then
      (if c < 65 then (if 48 \<le> c \<and> c \<le> 57 then St 520 else St 0) else if c > 70 then (if 97 \<le> c
      \<and> c \<le> 102 then St 520 else St 0) else St 520)
    else if cs = 521 then
      (switch c [(33, St 255), (35, Tr 566), (37, St 256), (47, Tr 567), (61, St 255), (63, Tr 569), (64, Tr 263),
      (95, St 255), (126, St 255)]
      (if c < 58 then (if c > 46 then (if 48 \<le> c \<and> c \<le> 57 then Tr 577 else St 0) else if c \<ge> 36 then
      St 255 else St 0) else if c > 59 then (if c > 90 then (if 97 \<le> c \<and> c \<le> 122 then St 255 else St 0)
      else if c \<ge> 65 then St 255 else St 0) else St 255))
    else if cs = 255 then
      (switch c [(33, St 255), (37, St 256), (61, St 255), (64, Tr 263), (95, St 255), (126, St 255)]
      (if c < 48 then (if 36 \<le> c \<and> c \<le> 46 then St 255 else St 0) else if c > 59 then (if c > 90 then (if
      97 \<le> c \<and> c \<le> 122 then St 255 else St 0) else if c \<ge> 65 then St 255 else St 0) else St 255))
    else if cs = 256 then
      (if c < 65 then (if 48 \<le> c \<and> c \<le> 57 then St 257 else St 0) else if c > 70 then (if 97 \<le> c
      \<and> c \<le> 102 then St 257 else St 0) else St 257)
    else if cs = 257 then
      (if c < 65 then (if 48 \<le> c \<and> c \<le> 57 then St 255 else St 0) else if c > 70 then (if 97 \<le> c
      \<and> c \<le> 102 then St 255 else St 0) else St 255)
    else St 0)"

definition uri_trs_42 :: "(int \<times> uri_action list \<times> int) list" where
  "uri_trs_42 =
    [(555, [Markh, Save_host], 521), (576, [Save_host], 521), (263, [Save_userinfo], 522), (557, [Markh,
      Save_userinfo], 522)]"

definition uri_cases_43 :: "int \<Rightarrow> int \<Rightarrow> jump" where
  "uri_cases_43 cs c =
   (if cs = 522 then
     (switch c [(2, Tr 546), (33, Tr 578), (35, Tr 548), (37, Tr 579), (47, Tr 550), (48, Tr 580), (49, Tr 581), (50,
     Tr 582), (58, Tr 584), (59, Tr 578), (61, Tr 578), (63, Tr 556), (91, Tr 558), (95, Tr 578), (126, Tr 578)]
     (if c < 51 then (if 36 \<le> c \<and> c \<le> 46 then Tr 578 else St 0) else if c > 57 then (if c > 90 then (if
     97 \<le> c \<and> c \<le> 122 then Tr 578 else St 0) else if c \<ge> 65 then Tr 578 else St 0) else Tr 583))
    else if cs = 523 then
      (switch c [(33, St 523), (35, Tr 559), (37, St 258), (47, Tr 560), (58, Tr 561), (61, St 523), (63, Tr 562),
      (95, St 523), (126, St 523)]
      (if c < 65 then (if 36 \<le> c \<and> c \<le> 59 then St 523 else St 0) else if c > 90 then (if 97 \<le> c
      \<and> c \<le> 122 then St 523 else St 0) else St 523))
    else if cs = 258 then
      (if c < 65 then (if 48 \<le> c \<and> c \<le> 57 then St 259 else St 0) else if c > 70 then (if 97 \<le> c
      \<and> c \<le> 102 then St 259 else St 0) else St 259)
    else if cs = 259 then
      (if c < 65 then (if 48 \<le> c \<and> c \<le> 57 then St 523 else St 0) else if c > 70 then (if 97 \<le> c
      \<and> c \<le> 102 then St 523 else St 0) else St 523)
    else if cs = 524 then
      (switch c [(33, St 523), (35, Tr 559), (37, St 258), (46, St 525), (47, Tr 560), (58, Tr 561), (61, St 523),
      (63, Tr 562), (95, St 523), (126, St 523)]
      (if c < 65 then (if 36 \<le> c \<and> c \<le> 59 then St 523 else St 0) else if c > 90 then (if 97 \<le> c
      \<and> c \<le> 122 then St 523 else St 0) else St 523))
    else St 0)"

definition uri_trs_43 :: "(int \<times> uri_action list \<times> int) list" where
  "uri_trs_43 =
    [(578, [Markh], 523), (579, [Markh], 258), (580, [Markh], 524)]"

definition uri_cases_44 :: "int \<Rightarrow> int \<Rightarrow> jump" where
  "uri_cases_44 cs c =
   (if cs = 525 then
     (switch c [(2, St 233), (33, St 523), (35, Tr 559), (37, St 258), (47, Tr 560), (48, St 526), (49, St 534), (50,
     St 536), (58, Tr 561), (59, St 523), (61, St 523), (63, Tr 562), (95, St 523), (126, St 523)]
     (if c < 51 then (if 36 \<le> c \<and> c \<le> 46 then St 523 else St 0) else if c > 57 then (if c > 90 then (if
     97 \<le> c \<and> c \<le> 122 then St 523 else St 0) else if c \<ge> 65 then St 523 else St 0) else St 535))
    else if cs = 526 then
      (switch c [(33, St 523), (35, Tr 559), (37, St 258), (46, St 527), (47, Tr 560), (58, Tr 561), (61, St 523),
      (63, Tr 562), (95, St 523), (126, St 523)]
      (if c < 65 then (if 36 \<le> c \<and> c \<le> 59 then St 523 else St 0) else if c > 90 then (if 97 \<le> c
      \<and> c \<le> 122 then St 523 else St 0) else St 523))
    else if cs = 527 then
      (switch c [(2, St 237), (33, St 523), (35, Tr 559), (37, St 258), (47, Tr 560), (48, St 528), (49, St 530),
      (50, St 532), (58, Tr 561), (59, St 523), (61, St 523), (63, Tr 562), (95, St 523), (126, St 523)]
      (if c < 51 then (if 36 \<le> c \<and> c \<le> 46 then St 523 else St 0) else if c > 57 then (if c > 90 then (if
      97 \<le> c \<and> c \<le> 122 then St 523 else St 0) else if c \<ge> 65 then St 523 else St 0) else St 531))
    else if cs = 528 then
      (switch c [(33, St 523), (35, Tr 559), (37, St 258), (46, St 529), (47, Tr 560), (58, Tr 561), (61, St 523),
      (63, Tr 562), (95, St 523), (126, St 523)]
      (if c < 65 then (if 36 \<le> c \<and> c \<le> 59 then St 523 else St 0) else if c > 90 then (if 97 \<le> c
      \<and> c \<le> 122 then St 523 else St 0) else St 523))
    else if cs = 529 then
      (switch c [(2, St 241), (33, St 523), (35, Tr 559), (37, St 258), (47, Tr 560), (58, Tr 561), (61, St 523),
      (63, Tr 562), (95, St 523), (126, St 523)]
      (if c < 65 then (if 36 \<le> c \<and> c \<le> 59 then St 523 else St 0) else if c > 90 then (if 97 \<le> c
      \<and> c \<le> 122 then St 523 else St 0) else St 523))
    else St 0)"

definition uri_cases_45 :: "int \<Rightarrow> int \<Rightarrow> jump" where
  "uri_cases_45 cs c =
   (if cs = 530 then
     (switch c [(33, St 523), (35, Tr 559), (37, St 258), (46, St 529), (47, Tr 560), (58, Tr 561), (59, St 523),
     (61, St 523), (63, Tr 562), (95, St 523), (126, St 523)]
     (if c < 48 then (if 36 \<le> c \<and> c \<le> 45 then St 523 else St 0) else if c > 57 then (if c > 90 then (if
     97 \<le> c \<and> c \<le> 122 then St 523 else St 0) else if c \<ge> 65 then St 523 else St 0) else St 531))
    else if cs = 531 then
      (switch c [(33, St 523), (35, Tr 559), (37, St 258), (46, St 529), (47, Tr 560), (58, Tr 561), (59, St 523),
      (61, St 523), (63, Tr 562), (95, St 523), (126, St 523)]
      (if c < 48 then (if 36 \<le> c \<and> c \<le> 45 then St 523 else St 0) else if c > 57 then (if c > 90 then (if
      97 \<le> c \<and> c \<le> 122 then St 523 else St 0) else if c \<ge> 65 then St 523 else St 0) else St 528))
    else if cs = 532 then
      (switch c [(33, St 523), (35, Tr 559), (37, St 258), (46, St 529), (47, Tr 560), (53, St 533), (58, Tr 561),
      (59, St 523), (61, St 523), (63, Tr 562), (95, St 523), (126, St 523)]
      (if c < 48 then (if 36 \<le> c \<and> c \<le> 45 then St 523 else St 0) else if c > 57 then (if c > 90 then (if
      97 \<le> c \<and> c \<le> 122 then St 523 else St 0) else if c \<ge> 65 then St 523 else St 0) else St 528))
    else if cs = 533 then
      (switch c [(33, St 523), (35, Tr 559), (37, St 258), (46, St 529), (47, Tr 560), (58, Tr 561), (61, St 523),
      (63, Tr 562), (95, St 523), (126, St 523)]
      (if c < 54 then (if c > 45 then (if 48 \<le> c \<and> c \<le> 53 then St 528 else St 0) else if c \<ge> 36 then
      St 523 else St 0) else if c > 59 then (if c > 90 then (if 97 \<le> c \<and> c \<le> 122 then St 523 else St 0)
      else if c \<ge> 65 then St 523 else St 0) else St 523))
    else if cs = 534 then
      (switch c [(33, St 523), (35, Tr 559), (37, St 258), (46, St 527), (47, Tr 560), (58, Tr 561), (59, St 523),
      (61, St 523), (63, Tr 562), (95, St 523), (126, St 523)]
      (if c < 48 then (if 36 \<le> c \<and> c \<le> 45 then St 523 else St 0) else if c > 57 then (if c > 90 then (if
      97 \<le> c \<and> c \<le> 122 then St 523 else St 0) else if c \<ge> 65 then St 523 else St 0) else St 535))
    else St 0)"

definition uri_cases_46 :: "int \<Rightarrow> int \<Rightarrow> jump" where
  "uri_cases_46 cs c =
   (if cs = 535 then
     (switch c [(33, St 523), (35, Tr 559), (37, St 258), (46, St 527), (47, Tr 560), (58, Tr 561), (59, St 523),
     (61, St 523), (63, Tr 562), (95, St 523), (126, St 523)]
     (if c < 48 then (if 36 \<le> c \<and> c \<le> 45 then St 523 else St 0) else if c > 57 then (if c > 90 then (if
     97 \<le> c \<and> c \<le> 122 then St 523 else St 0) else if c \<ge> 65 then St 523 else St 0) else St 526))
    else if cs = 536 then
      (switch c [(33, St 523), (35, Tr 559), (37, St 258), (46, St 527), (47, Tr 560), (53, St 537), (58, Tr 561),
      (59, St 523), (61, St 523), (63, Tr 562), (95, St 523), (126, St 523)]
      (if c < 48 then (if 36 \<le> c \<and> c \<le> 45 then St 523 else St 0) else if c > 57 then (if c > 90 then (if
      97 \<le> c \<and> c \<le> 122 then St 523 else St 0) else if c \<ge> 65 then St 523 else St 0) else St 526))
    else if cs = 537 then
      (switch c [(33, St 523), (35, Tr 559), (37, St 258), (46, St 527), (47, Tr 560), (58, Tr 561), (61, St 523),
      (63, Tr 562), (95, St 523), (126, St 523)]
      (if c < 54 then (if c > 45 then (if 48 \<le> c \<and> c \<le> 53 then St 526 else St 0) else if c \<ge> 36 then
      St 523 else St 0) else if c > 59 then (if c > 90 then (if 97 \<le> c \<and> c \<le> 122 then St 523 else St 0)
      else if c \<ge> 65 then St 523 else St 0) else St 523))
    else if cs = 538 then
      (switch c [(33, St 523), (35, Tr 559), (37, St 258), (46, St 525), (47, Tr 560), (58, Tr 561), (59, St 523),
      (61, St 523), (63, Tr 562), (95, St 523), (126, St 523)]
      (if c < 48 then (if 36 \<le> c \<and> c \<le> 45 then St 523 else St 0) else if c > 57 then (if c > 90 then (if
      97 \<le> c \<and> c \<le> 122 then St 523 else St 0) else if c \<ge> 65 then St 523 else St 0) else St 539))
    else St 0)"

definition uri_trs_46 :: "(int \<times> uri_action list \<times> int) list" where
  "uri_trs_46 =
    [(581, [Markh], 538), (583, [Markh], 539)]"

definition uri_cases_47 :: "int \<Rightarrow> int \<Rightarrow> jump" where
  "uri_cases_47 cs c =
   (if cs = 539 then
     (switch c [(33, St 523), (35, Tr 559), (37, St 258), (46, St 525), (47, Tr 560), (58, Tr 561), (59, St 523),
     (61, St 523), (63, Tr 562), (95, St 523), (126, St 523)]
     (if c < 48 then (if 36 \<le> c \<and> c \<le> 45 then St 523 else St 0) else if c > 57 then (if c > 90 then (if
     97 \<le> c \<and> c \<le> 122 then St 523 else St 0) else if c \<ge> 65 then St 523 else St 0) else St 524))
    else if cs = 540 then
      (switch c [(33, St 523), (35, Tr 559), (37, St 258), (46, St 525), (47, Tr 560), (53, St 541), (58, Tr 561),
      (59, St 523), (61, St 523), (63, Tr 562), (95, St 523), (126, St 523)]
      (if c < 48 then (if 36 \<le> c \<and> c \<le> 45 then St 523 else St 0) else if c > 57 then (if c > 90 then (if
      97 \<le> c \<and> c \<le> 122 then St 523 else St 0) else if c \<ge> 65 then St 523 else St 0) else St 524))
    else if cs = 541 then
      (switch c [(33, St 523), (35, Tr 559), (37, St 258), (46, St 525), (47, Tr 560), (58, Tr 561), (61, St 523),
      (63, Tr 562), (95, St 523), (126, St 523)]
      (if c < 54 then (if c > 45 then (if 48 \<le> c \<and> c \<le> 53 then St 524 else St 0) else if c \<ge> 36 then
      St 523 else St 0) else if c > 59 then (if c > 90 then (if 97 \<le> c \<and> c \<le> 122 then St 523 else St 0)
      else if c \<ge> 65 then St 523 else St 0) else St 523))
    else if cs = 260 then
      (switch c [(58, St 368), (118, St 447)]
      (if c < 65 then (if 48 \<le> c \<and> c \<le> 57 then St 261 else St 0) else if c > 70 then (if 97 \<le> c
      \<and> c \<le> 102 then St 261 else St 0) else St 261))
    else if cs = 261 then
      (if c = 58 then St 265 else if c < 65 then (if 48 \<le> c \<and> c \<le> 57 then St 262 else St 0) else if c >
      70 then (if 97 \<le> c \<and> c \<le> 102 then St 262 else St 0) else St 262)
    else if cs = 262 then
      (if c = 58 then St 265 else if c < 65 then (if 48 \<le> c \<and> c \<le> 57 then St 263 else St 0) else if c >
      70 then (if 97 \<le> c \<and> c \<le> 102 then St 263 else St 0) else St 263)
    else St 0)"

definition uri_trs_47 :: "(int \<times> uri_action list \<times> int) list" where
  "uri_trs_47 =
    [(582, [Markh], 540), (558, [Markh], 260)]"

definition uri_cases_48 :: "int \<Rightarrow> int \<Rightarrow> jump" where
  "uri_cases_48 cs c =
   (if cs = 263 then
     (if c = 58 then St 265 else if c < 65 then (if 48 \<le> c \<and> c \<le> 57 then St 264 else St 0) else if c >
     70 then (if 97 \<le> c \<and> c \<le> 102 then St 264 else St 0) else St 264)
    else if cs = 264 then
      (if c = 58 then St 265 else St 0)
    else if cs = 265 then
      (if c = 58 then St 363 else if c < 65 then (if 48 \<le> c \<and> c \<le> 57 then St 266 else St 0) else if c >
      70 then (if 97 \<le> c \<and> c \<le> 102 then St 266 else St 0) else St 266)
    else if cs = 266 then
      (if c = 58 then St 270 else if c < 65 then (if 48 \<le> c \<and> c \<le> 57 then St 267 else St 0) else if c >
      70 then (if 97 \<le> c \<and> c \<le> 102 then St 267 else St 0) else St 267)
    else if cs = 267 then
      (if c = 58 then St 270 else if c < 65 then (if 48 \<le> c \<and> c \<le> 57 then St 268 else St 0) else if c >
      70 then (if 97 \<le> c \<and> c \<le> 102 then St 268 else St 0) else St 268)
    else if cs = 268 then
      (if c = 58 then St 270 else if c < 65 then (if 48 \<le> c \<and> c \<le> 57 then St 269 else St 0) else if c >
      70 then (if 97 \<le> c \<and> c \<le> 102 then St 269 else St 0) else St 269)
    else if cs = 269 then
      (if c = 58 then St 270 else St 0)
    else if cs = 270 then
      (if c = 58 then St 358 else if c < 65 then (if 48 \<le> c \<and> c \<le> 57 then St 271 else St 0) else if c >
      70 then (if 97 \<le> c \<and> c \<le> 102 then St 271 else St 0) else St 271)
    else if cs = 271 then
      (if c = 58 then St 275 else if c < 65 then (if 48 \<le> c \<and> c \<le> 57 then St 272 else St 0) else if c >
      70 then (if 97 \<le> c \<and> c \<le> 102 then St 272 else St 0) else St 272)
    else if cs = 272 then
      (if c = 58 then St 275 else if c < 65 then (if 48 \<le> c \<and> c \<le> 57 then St 273 else St 0) else if c >
      70 then (if 97 \<le> c \<and> c \<le> 102 then St 273 else St 0) else St 273)
    else if cs = 273 then
      (if c = 58 then St 275 else if c < 65 then (if 48 \<le> c \<and> c \<le> 57 then St 274 else St 0) else if c >
      70 then (if 97 \<le> c \<and> c \<le> 102 then St 274 else St 0) else St 274)
    else St 0)"

definition uri_cases_49 :: "int \<Rightarrow> int \<Rightarrow> jump" where
  "uri_cases_49 cs c =
   (if cs = 274 then
     (if c = 58 then St 275 else St 0)
    else if cs = 275 then
      (if c = 58 then St 353 else if c < 65 then (if 48 \<le> c \<and> c \<le> 57 then St 276 else St 0) else if c >
      70 then (if 97 \<le> c \<and> c \<le> 102 then St 276 else St 0) else St 276)
    else if cs = 276 then
      (if c = 58 then St 280 else if c < 65 then (if 48 \<le> c \<and> c \<le> 57 then St 277 else St 0) else if c >
      70 then (if 97 \<le> c \<and> c \<le> 102 then St 277 else St 0) else St 277)
    else if cs = 277 then
      (if c = 58 then St 280 else if c < 65 then (if 48 \<le> c \<and> c \<le> 57 then St 278 else St 0) else if c >
      70 then (if 97 \<le> c \<and> c \<le> 102 then St 278 else St 0) else St 278)
    else if cs = 278 then
      (if c = 58 then St 280 else if c < 65 then (if 48 \<le> c \<and> c \<le> 57 then St 279 else St 0) else if c >
      70 then (if 97 \<le> c \<and> c \<le> 102 then St 279 else St 0) else St 279)
    else if cs = 279 then
      (if c = 58 then St 280 else St 0)
    else if cs = 280 then
      (if c = 58 then St 348 else if c < 65 then (if 48 \<le> c \<and> c \<le> 57 then St 281 else St 0) else if c >
      70 then (if 97 \<le> c \<and> c \<le> 102 then St 281 else St 0) else St 281)
    else if cs = 281 then
      (if c = 58 then St 285 else if c < 65 then (if 48 \<le> c \<and> c \<le> 57 then St 282 else St 0) else if c >
      70 then (if 97 \<le> c \<and> c \<le> 102 then St 282 else St 0) else St 282)
    else if cs = 282 then
      (if c = 58 then St 285 else if c < 65 then (if 48 \<le> c \<and> c \<le> 57 then St 283 else St 0) else if c >
      70 then (if 97 \<le> c \<and> c \<le> 102 then St 283 else St 0) else St 283)
    else if cs = 283 then
      (if c = 58 then St 285 else if c < 65 then (if 48 \<le> c \<and> c \<le> 57 then St 284 else St 0) else if c >
      70 then (if 97 \<le> c \<and> c \<le> 102 then St 284 else St 0) else St 284)
    else if cs = 284 then
      (if c = 58 then St 285 else St 0)
    else St 0)"

definition uri_cases_50 :: "int \<Rightarrow> int \<Rightarrow> jump" where
  "uri_cases_50 cs c =
   (if cs = 285 then
     (if c = 58 then St 335 else if c < 65 then (if 48 \<le> c \<and> c \<le> 57 then St 286 else St 0) else if c >
     70 then (if 97 \<le> c \<and> c \<le> 102 then St 286 else St 0) else St 286)
    else if cs = 286 then
      (if c = 58 then St 290 else if c < 65 then (if 48 \<le> c \<and> c \<le> 57 then St 287 else St 0) else if c >
      70 then (if 97 \<le> c \<and> c \<le> 102 then St 287 else St 0) else St 287)
    else if cs = 287 then
      (if c = 58 then St 290 else if c < 65 then (if 48 \<le> c \<and> c \<le> 57 then St 288 else St 0) else if c >
      70 then (if 97 \<le> c \<and> c \<le> 102 then St 288 else St 0) else St 288)
    else if cs = 288 then
      (if c = 58 then St 290 else if c < 65 then (if 48 \<le> c \<and> c \<le> 57 then St 289 else St 0) else if c >
      70 then (if 97 \<le> c \<and> c \<le> 102 then St 289 else St 0) else St 289)
    else if cs = 289 then
      (if c = 58 then St 290 else St 0)
    else if cs = 290 then
      (switch c [(2, St 291), (48, St 318), (49, St 326), (50, St 329), (58, St 333)]
      (if c < 65 then (if 51 \<le> c \<and> c \<le> 57 then St 332 else St 0) else if c > 70 then (if 97 \<le> c
      \<and> c \<le> 102 then St 334 else St 0) else St 334))
    else if cs = 291 then
      (if 48 \<le> c \<and> c \<le> 52 then St 292 else St 0)
    else if cs = 292 then
      (if 48 \<le> c \<and> c \<le> 57 then St 293 else St 0)
    else if cs = 293 then
      (if c = 46 then St 294 else St 0)
    else if cs = 294 then
      (switch c [(2, St 295), (48, St 297), (49, St 314), (50, St 316)]
      (if 51 \<le> c \<and> c \<le> 57 then St 315 else St 0))
    else if cs = 295 then
      (if 48 \<le> c \<and> c \<le> 52 then St 296 else St 0)
    else if cs = 296 then
      (if 48 \<le> c \<and> c \<le> 57 then St 297 else St 0)
    else if cs = 297 then
      (if c = 46 then St 298 else St 0)
    else St 0)"

definition uri_cases_51 :: "int \<Rightarrow> int \<Rightarrow> jump" where
  "uri_cases_51 cs c =
   (if cs = 298 then
     (switch c [(2, St 299), (48, St 301), (49, St 310), (50, St 312)]
     (if 51 \<le> c \<and> c \<le> 57 then St 311 else St 0))
    else if cs = 299 then
      (if 48 \<le> c \<and> c \<le> 52 then St 300 else St 0)
    else if cs = 300 then
      (if 48 \<le> c \<and> c \<le> 57 then St 301 else St 0)
    else if cs = 301 then
      (if c = 46 then St 302 else St 0)
    else if cs = 302 then
      (switch c [(2, St 303), (48, St 305), (49, St 306), (50, St 308)]
      (if 51 \<le> c \<and> c \<le> 57 then St 307 else St 0))
    else if cs = 303 then
      (if 48 \<le> c \<and> c \<le> 52 then St 304 else St 0)
    else if cs = 304 then
      (if 48 \<le> c \<and> c \<le> 57 then St 305 else St 0)
    else if cs = 305 then
      (if c = 93 then St 512 else St 0)
    else if cs = 306 then
      (if c = 93 then St 512 else if 48 \<le> c \<and> c \<le> 57 then St 307 else St 0)
    else if cs = 307 then
      (if c = 93 then St 512 else if 48 \<le> c \<and> c \<le> 57 then St 305 else St 0)
    else if cs = 308 then
      (switch c [(53, St 309), (93, St 512)]
      (if 48 \<le> c \<and> c \<le> 57 then St 305 else St 0))
    else if cs = 309 then
      (if c = 93 then St 512 else if 48 \<le> c \<and> c \<le> 53 then St 305 else St 0)
    else if cs = 310 then
      (if c = 46 then St 302 else if 48 \<le> c \<and> c \<le> 57 then St 311 else St 0)
    else if cs = 311 then
      (if c = 46 then St 302 else if 48 \<le> c \<and> c \<le> 57 then St 301 else St 0)
    else if cs = 312 then
      (switch c [(46, St 302), (53, St 313)]
      (if 48 \<le> c \<and> c \<le> 57 then St 301 else St 0))
    else if cs = 313 then
      (if c = 46 then St 302 else if 48 \<le> c \<and> c \<le> 53 then St 301 else St 0)
    else St 0)"

definition uri_cases_52 :: "int \<Rightarrow> int \<Rightarrow> jump" where
  "uri_cases_52 cs c =
   (if cs = 314 then
     (if c = 46 then St 298 else if 48 \<le> c \<and> c \<le> 57 then St 315 else St 0)
    else if cs = 315 then
      (if c = 46 then St 298 else if 48 \<le> c \<and> c \<le> 57 then St 297 else St 0)
    else if cs = 316 then
      (switch c [(46, St 298), (53, St 317)]
      (if 48 \<le> c \<and> c \<le> 57 then St 297 else St 0))
    else if cs = 317 then
      (if c = 46 then St 298 else if 48 \<le> c \<and> c \<le> 53 then St 297 else St 0)
    else if cs = 318 then
      (switch c [(46, St 294), (58, St 322)]
      (if c < 65 then (if 48 \<le> c \<and> c \<le> 57 then St 319 else St 0) else if c > 70 then (if 97 \<le> c
      \<and> c \<le> 102 then St 319 else St 0) else St 319))
    else if cs = 319 then
      (if c = 58 then St 322 else if c < 65 then (if 48 \<le> c \<and> c \<le> 57 then St 320 else St 0) else if c >
      70 then (if 97 \<le> c \<and> c \<le> 102 then St 320 else St 0) else St 320)
    else if cs = 320 then
      (if c = 58 then St 322 else if c < 65 then (if 48 \<le> c \<and> c \<le> 57 then St 321 else St 0) else if c >
      70 then (if 97 \<le> c \<and> c \<le> 102 then St 321 else St 0) else St 321)
    else if cs = 321 then
      (if c = 58 then St 322 else St 0)
    else if cs = 322 then
      (if c = 58 then St 305 else if c < 65 then (if 48 \<le> c \<and> c \<le> 57 then St 323 else St 0) else if c >
      70 then (if 97 \<le> c \<and> c \<le> 102 then St 323 else St 0) else St 323)
    else if cs = 323 then
      (if c = 93 then St 512 else if c < 65 then (if 48 \<le> c \<and> c \<le> 57 then St 324 else St 0) else if c >
      70 then (if 97 \<le> c \<and> c \<le> 102 then St 324 else St 0) else St 324)
    else if cs = 324 then
      (if c = 93 then St 512 else if c < 65 then (if 48 \<le> c \<and> c \<le> 57 then St 325 else St 0) else if c >
      70 then (if 97 \<le> c \<and> c \<le> 102 then St 325 else St 0) else St 325)
    else St 0)"

definition uri_cases_53 :: "int \<Rightarrow> int \<Rightarrow> jump" where
  "uri_cases_53 cs c =
   (if cs = 325 then
     (if c = 93 then St 512 else if c < 65 then (if 48 \<le> c \<and> c \<le> 57 then St 305 else St 0) else if c >
     70 then (if 97 \<le> c \<and> c \<le> 102 then St 305 else St 0) else St 305)
    else if cs = 326 then
      (switch c [(46, St 294), (58, St 322)]
      (if c < 65 then (if 48 \<le> c \<and> c \<le> 57 then St 327 else St 0) else if c > 70 then (if 97 \<le> c
      \<and> c \<le> 102 then St 319 else St 0) else St 319))
    else if cs = 327 then
      (switch c [(46, St 294), (58, St 322)]
      (if c < 65 then (if 48 \<le> c \<and> c \<le> 57 then St 328 else St 0) else if c > 70 then (if 97 \<le> c
      \<and> c \<le> 102 then St 320 else St 0) else St 320))
    else if cs = 328 then
      (switch c [(46, St 294), (58, St 322)]
      (if c < 65 then (if 48 \<le> c \<and> c \<le> 57 then St 321 else St 0) else if c > 70 then (if 97 \<le> c
      \<and> c \<le> 102 then St 321 else St 0) else St 321))
    else if cs = 329 then
      (switch c [(46, St 294), (53, St 331), (58, St 322)]
      (if c < 65 then (if 48 \<le> c \<and> c \<le> 57 then St 330 else St 0) else if c > 70 then (if 97 \<le> c
      \<and> c \<le> 102 then St 319 else St 0) else St 319))
    else if cs = 330 then
      (switch c [(46, St 294), (58, St 322)]
      (if c < 65 then (if 48 \<le> c \<and> c \<le> 57 then St 320 else St 0) else if c > 70 then (if 97 \<le> c
      \<and> c \<le> 102 then St 320 else St 0) else St 320))
    else if cs = 331 then
      (switch c [(46, St 294), (58, St 322)]
      (if c < 54 then (if 48 \<le> c \<and> c \<le> 53 then St 328 else St 0) else if c > 57 then (if c > 70 then (if
      97 \<le> c \<and> c \<le> 102 then St 320 else St 0) else if c \<ge> 65 then St 320 else St 0) else St 320))
    else if cs = 332 then
      (switch c [(46, St 294), (58, St 322)]
      (if c < 65 then (if 48 \<le> c \<and> c \<le> 57 then St 330 else St 0) else if c > 70 then (if 97 \<le> c
      \<and> c \<le> 102 then St 319 else St 0) else St 319))
    else St 0)"

definition uri_cases_54 :: "int \<Rightarrow> int \<Rightarrow> jump" where
  "uri_cases_54 cs c =
   (if cs = 333 then
     (if c < 65 then (if 48 \<le> c \<and> c \<le> 57 then St 323 else St 0) else if c > 70 then (if 97 \<le> c
     \<and> c \<le> 102 then St 323 else St 0) else St 323)
    else if cs = 334 then
      (if c = 58 then St 322 else if c < 65 then (if 48 \<le> c \<and> c \<le> 57 then St 319 else St 0) else if c >
      70 then (if 97 \<le> c \<and> c \<le> 102 then St 319 else St 0) else St 319)
    else if cs = 335 then
      (switch c [(2, St 291), (48, St 336), (49, St 340), (50, St 343)]
      (if c < 65 then (if 51 \<le> c \<and> c \<le> 57 then St 346 else St 0) else if c > 70 then (if 97 \<le> c
      \<and> c \<le> 102 then St 347 else St 0) else St 347))
    else if cs = 336 then
      (switch c [(46, St 294), (58, St 333)]
      (if c < 65 then (if 48 \<le> c \<and> c \<le> 57 then St 337 else St 0) else if c > 70 then (if 97 \<le> c
      \<and> c \<le> 102 then St 337 else St 0) else St 337))
    else if cs = 337 then
      (if c = 58 then St 333 else if c < 65 then (if 48 \<le> c \<and> c \<le> 57 then St 338 else St 0) else if c >
      70 then (if 97 \<le> c \<and> c \<le> 102 then St 338 else St 0) else St 338)
    else if cs = 338 then
      (if c = 58 then St 333 else if c < 65 then (if 48 \<le> c \<and> c \<le> 57 then St 339 else St 0) else if c >
      70 then (if 97 \<le> c \<and> c \<le> 102 then St 339 else St 0) else St 339)
    else if cs = 339 then
      (if c = 58 then St 333 else St 0)
    else if cs = 340 then
      (switch c [(46, St 294), (58, St 333)]
      (if c < 65 then (if 48 \<le> c \<and> c \<le> 57 then St 341 else St 0) else if c > 70 then (if 97 \<le> c
      \<and> c \<le> 102 then St 337 else St 0) else St 337))
    else if cs = 341 then
      (switch c [(46, St 294), (58, St 333)]
      (if c < 65 then (if 48 \<le> c \<and> c \<le> 57 then St 342 else St 0) else if c > 70 then (if 97 \<le> c
      \<and> c \<le> 102 then St 338 else St 0) else St 338))
    else St 0)"

definition uri_cases_55 :: "int \<Rightarrow> int \<Rightarrow> jump" where
  "uri_cases_55 cs c =
   (if cs = 342 then
     (switch c [(46, St 294), (58, St 333)]
     (if c < 65 then (if 48 \<le> c \<and> c \<le> 57 then St 339 else St 0) else if c > 70 then (if 97 \<le> c
     \<and> c \<le> 102 then St 339 else St 0) else St 339))
    else if cs = 343 then
      (switch c [(46, St 294), (53, St 345), (58, St 333)]
      (if c < 65 then (if 48 \<le> c \<and> c \<le> 57 then St 344 else St 0) else if c > 70 then (if 97 \<le> c
      \<and> c \<le> 102 then St 337 else St 0) else St 337))
    else if cs = 344 then
      (switch c [(46, St 294), (58, St 333)]
      (if c < 65 then (if 48 \<le> c \<and> c \<le> 57 then St 338 else St 0) else if c > 70 then (if 97 \<le> c
      \<and> c \<le> 102 then St 338 else St 0) else St 338))
    else if cs = 345 then
      (switch c [(46, St 294), (58, St 333)]
      (if c < 54 then (if 48 \<le> c \<and> c \<le> 53 then St 342 else St 0) else if c > 57 then (if c > 70 then (if
      97 \<le> c \<and> c \<le> 102 then St 338 else St 0) else if c \<ge> 65 then St 338 else St 0) else St 338))
    else if cs = 346 then
      (switch c [(46, St 294), (58, St 333)]
      (if c < 65 then (if 48 \<le> c \<and> c \<le> 57 then St 344 else St 0) else if c > 70 then (if 97 \<le> c
      \<and> c \<le> 102 then St 337 else St 0) else St 337))
    else if cs = 347 then
      (if c = 58 then St 333 else if c < 65 then (if 48 \<le> c \<and> c \<le> 57 then St 337 else St 0) else if c >
      70 then (if 97 \<le> c \<and> c \<le> 102 then St 337 else St 0) else St 337)
    else if cs = 348 then
      (if c < 65 then (if 48 \<le> c \<and> c \<le> 57 then St 349 else St 0) else if c > 70 then (if 97 \<le> c
      \<and> c \<le> 102 then St 349 else St 0) else St 349)
    else if cs = 349 then
      (if c = 58 then St 335 else if c < 65 then (if 48 \<le> c \<and> c \<le> 57 then St 350 else St 0) else if c >
      70 then (if 97 \<le> c \<and> c \<le> 102 then St 350 else St 0) else St 350)
    else if cs = 350 then
      (if c = 58 then St 335 else if c < 65 then (if 48 \<le> c \<and> c \<le> 57 then St 351 else St 0) else if c >
      70 then (if 97 \<le> c \<and> c \<le> 102 then St 351 else St 0) else St 351)
    else St 0)"

definition uri_cases_56 :: "int \<Rightarrow> int \<Rightarrow> jump" where
  "uri_cases_56 cs c =
   (if cs = 351 then
     (if c = 58 then St 335 else if c < 65 then (if 48 \<le> c \<and> c \<le> 57 then St 352 else St 0) else if c >
     70 then (if 97 \<le> c \<and> c \<le> 102 then St 352 else St 0) else St 352)
    else if cs = 352 then
      (if c = 58 then St 335 else St 0)
    else if cs = 353 then
      (if c < 65 then (if 48 \<le> c \<and> c \<le> 57 then St 354 else St 0) else if c > 70 then (if 97 \<le> c
      \<and> c \<le> 102 then St 354 else St 0) else St 354)
    else if cs = 354 then
      (if c = 58 then St 348 else if c < 65 then (if 48 \<le> c \<and> c \<le> 57 then St 355 else St 0) else if c >
      70 then (if 97 \<le> c \<and> c \<le> 102 then St 355 else St 0) else St 355)
    else if cs = 355 then
      (if c = 58 then St 348 else if c < 65 then (if 48 \<le> c \<and> c \<le> 57 then St 356 else St 0) else if c >
      70 then (if 97 \<le> c \<and> c \<le> 102 then St 356 else St 0) else St 356)
    else if cs = 356 then
      (if c = 58 then St 348 else if c < 65 then (if 48 \<le> c \<and> c \<le> 57 then St 357 else St 0) else if c >
      70 then (if 97 \<le> c \<and> c \<le> 102 then St 357 else St 0) else St 357)
    else if cs = 357 then
      (if c = 58 then St 348 else St 0)
    else if cs = 358 then
      (if c < 65 then (if 48 \<le> c \<and> c \<le> 57 then St 359 else St 0) else if c > 70 then (if 97 \<le> c
      \<and> c \<le> 102 then St 359 else St 0) else St 359)
    else if cs = 359 then
      (if c = 58 then St 353 else if c < 65 then (if 48 \<le> c \<and> c \<le> 57 then St 360 else St 0) else if c >
      70 then (if 97 \<le> c \<and> c \<le> 102 then St 360 else St 0) else St 360)
    else if cs = 360 then
      (if c = 58 then St 353 else if c < 65 then (if 48 \<le> c \<and> c \<le> 57 then St 361 else St 0) else if c >
      70 then (if 97 \<le> c \<and> c \<le> 102 then St 361 else St 0) else St 361)
    else if cs = 361 then
      (if c = 58 then St 353 else if c < 65 then (if 48 \<le> c \<and> c \<le> 57 then St 362 else St 0) else if c >
      70 then (if 97 \<le> c \<and> c \<le> 102 then St 362 else St 0) else St 362)
    else St 0)"

definition uri_cases_57 :: "int \<Rightarrow> int \<Rightarrow> jump" where
  "uri_cases_57 cs c =
   (if cs = 362 then
     (if c = 58 then St 353 else St 0)
    else if cs = 363 then
      (if c < 65 then (if 48 \<le> c \<and> c \<le> 57 then St 364 else St 0) else if c > 70 then (if 97 \<le> c
      \<and> c \<le> 102 then St 364 else St 0) else St 364)
    else if cs = 364 then
      (if c = 58 then St 358 else if c < 65 then (if 48 \<le> c \<and> c \<le> 57 then St 365 else St 0) else if c >
      70 then (if 97 \<le> c \<and> c \<le> 102 then St 365 else St 0) else St 365)
    else if cs = 365 then
      (if c = 58 then St 358 else if c < 65 then (if 48 \<le> c \<and> c \<le> 57 then St 366 else St 0) else if c >
      70 then (if 97 \<le> c \<and> c \<le> 102 then St 366 else St 0) else St 366)
    else if cs = 366 then
      (if c = 58 then St 358 else if c < 65 then (if 48 \<le> c \<and> c \<le> 57 then St 367 else St 0) else if c >
      70 then (if 97 \<le> c \<and> c \<le> 102 then St 367 else St 0) else St 367)
    else if cs = 367 then
      (if c = 58 then St 358 else St 0)
    else if cs = 368 then
      (if c = 58 then St 369 else St 0)
    else if cs = 369 then
      (switch c [(2, St 291), (48, St 370), (49, St 439), (50, St 442), (93, St 512)]
      (if c < 65 then (if 51 \<le> c \<and> c \<le> 57 then St 445 else St 0) else if c > 70 then (if 97 \<le> c
      \<and> c \<le> 102 then St 446 else St 0) else St 446))
    else if cs = 370 then
      (switch c [(46, St 294), (58, St 374), (93, St 512)]
      (if c < 65 then (if 48 \<le> c \<and> c \<le> 57 then St 371 else St 0) else if c > 70 then (if 97 \<le> c
      \<and> c \<le> 102 then St 371 else St 0) else St 371))
    else if cs = 371 then
      (switch c [(58, St 374), (93, St 512)]
      (if c < 65 then (if 48 \<le> c \<and> c \<le> 57 then St 372 else St 0) else if c > 70 then (if 97 \<le> c
      \<and> c \<le> 102 then St 372 else St 0) else St 372))
    else St 0)"

definition uri_cases_58 :: "int \<Rightarrow> int \<Rightarrow> jump" where
  "uri_cases_58 cs c =
   (if cs = 372 then
     (switch c [(58, St 374), (93, St 512)]
     (if c < 65 then (if 48 \<le> c \<and> c \<le> 57 then St 373 else St 0) else if c > 70 then (if 97 \<le> c
     \<and> c \<le> 102 then St 373 else St 0) else St 373))
    else if cs = 373 then
      (switch c [(58, St 374), (93, St 512)]
      (St 0))
    else if cs = 374 then
      (switch c [(2, St 291), (48, St 375), (49, St 431), (50, St 434)]
      (if c < 65 then (if 51 \<le> c \<and> c \<le> 57 then St 437 else St 0) else if c > 70 then (if 97 \<le> c
      \<and> c \<le> 102 then St 438 else St 0) else St 438))
    else if cs = 375 then
      (switch c [(46, St 294), (58, St 379), (93, St 512)]
      (if c < 65 then (if 48 \<le> c \<and> c \<le> 57 then St 376 else St 0) else if c > 70 then (if 97 \<le> c
      \<and> c \<le> 102 then St 376 else St 0) else St 376))
    else if cs = 376 then
      (switch c [(58, St 379), (93, St 512)]
      (if c < 65 then (if 48 \<le> c \<and> c \<le> 57 then St 377 else St 0) else if c > 70 then (if 97 \<le> c
      \<and> c \<le> 102 then St 377 else St 0) else St 377))
    else if cs = 377 then
      (switch c [(58, St 379), (93, St 512)]
      (if c < 65 then (if 48 \<le> c \<and> c \<le> 57 then St 378 else St 0) else if c > 70 then (if 97 \<le> c
      \<and> c \<le> 102 then St 378 else St 0) else St 378))
    else if cs = 378 then
      (switch c [(58, St 379), (93, St 512)]
      (St 0))
    else if cs = 379 then
      (switch c [(2, St 291), (48, St 380), (49, St 423), (50, St 426)]
      (if c < 65 then (if 51 \<le> c \<and> c \<le> 57 then St 429 else St 0) else if c > 70 then (if 97 \<le> c
      \<and> c \<le> 102 then St 430 else St 0) else St 430))
    else if cs = 380 then
      (switch c [(46, St 294), (58, St 384), (93, St 512)]
      (if c < 65 then (if 48 \<le> c \<and> c \<le> 57 then St 381 else St 0) else if c > 70 then (if 97 \<le> c
      \<and> c \<le> 102 then St 381 else St 0) else St 381))
    else St 0)"

definition uri_cases_59 :: "int \<Rightarrow> int \<Rightarrow> jump" where
  "uri_cases_59 cs c =
   (if cs = 381 then
     (switch c [(58, St 384), (93, St 512)]
     (if c < 65 then (if 48 \<le> c \<and> c \<le> 57 then St 382 else St 0) else if c > 70 then (if 97 \<le> c
     \<and> c \<le> 102 then St 382 else St 0) else St 382))
    else if cs = 382 then
      (switch c [(58, St 384), (93, St 512)]
      (if c < 65 then (if 48 \<le> c \<and> c \<le> 57 then St 383 else St 0) else if c > 70 then (if 97 \<le> c
      \<and> c \<le> 102 then St 383 else St 0) else St 383))
    else if cs = 383 then
      (switch c [(58, St 384), (93, St 512)]
      (St 0))
    else if cs = 384 then
      (switch c [(2, St 291), (48, St 385), (49, St 415), (50, St 418)]
      (if c < 65 then (if 51 \<le> c \<and> c \<le> 57 then St 421 else St 0) else if c > 70 then (if 97 \<le> c
      \<and> c \<le> 102 then St 422 else St 0) else St 422))
    else if cs = 385 then
      (switch c [(46, St 294), (58, St 389), (93, St 512)]
      (if c < 65 then (if 48 \<le> c \<and> c \<le> 57 then St 386 else St 0) else if c > 70 then (if 97 \<le> c
      \<and> c \<le> 102 then St 386 else St 0) else St 386))
    else if cs = 386 then
      (switch c [(58, St 389), (93, St 512)]
      (if c < 65 then (if 48 \<le> c \<and> c \<le> 57 then St 387 else St 0) else if c > 70 then (if 97 \<le> c
      \<and> c \<le> 102 then St 387 else St 0) else St 387))
    else if cs = 387 then
      (switch c [(58, St 389), (93, St 512)]
      (if c < 65 then (if 48 \<le> c \<and> c \<le> 57 then St 388 else St 0) else if c > 70 then (if 97 \<le> c
      \<and> c \<le> 102 then St 388 else St 0) else St 388))
    else if cs = 388 then
      (switch c [(58, St 389), (93, St 512)]
      (St 0))
    else if cs = 389 then
      (switch c [(2, St 291), (48, St 390), (49, St 407), (50, St 410)]
      (if c < 65 then (if 51 \<le> c \<and> c \<le> 57 then St 413 else St 0) else if c > 70 then (if 97 \<le> c
      \<and> c \<le> 102 then St 414 else St 0) else St 414))
    else St 0)"

definition uri_cases_60 :: "int \<Rightarrow> int \<Rightarrow> jump" where
  "uri_cases_60 cs c =
   (if cs = 390 then
     (switch c [(46, St 294), (58, St 394), (93, St 512)]
     (if c < 65 then (if 48 \<le> c \<and> c \<le> 57 then St 391 else St 0) else if c > 70 then (if 97 \<le> c
     \<and> c \<le> 102 then St 391 else St 0) else St 391))
    else if cs = 391 then
      (switch c [(58, St 394), (93, St 512)]
      (if c < 65 then (if 48 \<le> c \<and> c \<le> 57 then St 392 else St 0) else if c > 70 then (if 97 \<le> c
      \<and> c \<le> 102 then St 392 else St 0) else St 392))
    else if cs = 392 then
      (switch c [(58, St 394), (93, St 512)]
      (if c < 65 then (if 48 \<le> c \<and> c \<le> 57 then St 393 else St 0) else if c > 70 then (if 97 \<le> c
      \<and> c \<le> 102 then St 393 else St 0) else St 393))
    else if cs = 393 then
      (switch c [(58, St 394), (93, St 512)]
      (St 0))
    else if cs = 394 then
      (switch c [(2, St 291), (48, St 395), (49, St 399), (50, St 402)]
      (if c < 65 then (if 51 \<le> c \<and> c \<le> 57 then St 405 else St 0) else if c > 70 then (if 97 \<le> c
      \<and> c \<le> 102 then St 406 else St 0) else St 406))
    else if cs = 395 then
      (switch c [(46, St 294), (58, St 333), (93, St 512)]
      (if c < 65 then (if 48 \<le> c \<and> c \<le> 57 then St 396 else St 0) else if c > 70 then (if 97 \<le> c
      \<and> c \<le> 102 then St 396 else St 0) else St 396))
    else if cs = 396 then
      (switch c [(58, St 333), (93, St 512)]
      (if c < 65 then (if 48 \<le> c \<and> c \<le> 57 then St 397 else St 0) else if c > 70 then (if 97 \<le> c
      \<and> c \<le> 102 then St 397 else St 0) else St 397))
    else if cs = 397 then
      (switch c [(58, St 333), (93, St 512)]
      (if c < 65 then (if 48 \<le> c \<and> c \<le> 57 then St 398 else St 0) else if c > 70 then (if 97 \<le> c
      \<and> c \<le> 102 then St 398 else St 0) else St 398))
    else if cs = 398 then
      (switch c [(58, St 333), (93, St 512)]
      (St 0))
    else St 0)"

definition uri_cases_61 :: "int \<Rightarrow> int \<Rightarrow> jump" where
  "uri_cases_61 cs c =
   (if cs = 399 then
     (switch c [(46, St 294), (58, St 333), (93, St 512)]
     (if c < 65 then (if 48 \<le> c \<and> c \<le> 57 then St 400 else St 0) else if c > 70 then (if 97 \<le> c
     \<and> c \<le> 102 then St 396 else St 0) else St 396))
    else if cs = 400 then
      (switch c [(46, St 294), (58, St 333), (93, St 512)]
      (if c < 65 then (if 48 \<le> c \<and> c \<le> 57 then St 401 else St 0) else if c > 70 then (if 97 \<le> c
      \<and> c \<le> 102 then St 397 else St 0) else St 397))
    else if cs = 401 then
      (switch c [(46, St 294), (58, St 333), (93, St 512)]
      (if c < 65 then (if 48 \<le> c \<and> c \<le> 57 then St 398 else St 0) else if c > 70 then (if 97 \<le> c
      \<and> c \<le> 102 then St 398 else St 0) else St 398))
    else if cs = 402 then
      (switch c [(46, St 294), (53, St 404), (58, St 333), (93, St 512)]
      (if c < 65 then (if 48 \<le> c \<and> c \<le> 57 then St 403 else St 0) else if c > 70 then (if 97 \<le> c
      \<and> c \<le> 102 then St 396 else St 0) else St 396))
    else if cs = 403 then
      (switch c [(46, St 294), (58, St 333), (93, St 512)]
      (if c < 65 then (if 48 \<le> c \<and> c \<le> 57 then St 397 else St 0) else if c > 70 then (if 97 \<le> c
      \<and> c \<le> 102 then St 397 else St 0) else St 397))
    else if cs = 404 then
      (switch c [(46, St 294), (58, St 333), (93, St 512)]
      (if c < 54 then (if 48 \<le> c \<and> c \<le> 53 then St 401 else St 0) else if c > 57 then (if c > 70 then (if
      97 \<le> c \<and> c \<le> 102 then St 397 else St 0) else if c \<ge> 65 then St 397 else St 0) else St 397))
    else if cs = 405 then
      (switch c [(46, St 294), (58, St 333), (93, St 512)]
      (if c < 65 then (if 48 \<le> c \<and> c \<le> 57 then St 403 else St 0) else if c > 70 then (if 97 \<le> c
      \<and> c \<le> 102 then St 396 else St 0) else St 396))
    else if cs = 406 then
      (switch c [(58, St 333), (93, St 512)]
      (if c < 65 then (if 48 \<le> c \<and> c \<le> 57 then St 396 else St 0) else if c > 70 then (if 97 \<le> c
      \<and> c \<le> 102 then St 396 else St 0) else St 396))
    else St 0)"

definition uri_cases_62 :: "int \<Rightarrow> int \<Rightarrow> jump" where
  "uri_cases_62 cs c =
   (if cs = 407 then
     (switch c [(46, St 294), (58, St 394), (93, St 512)]
     (if c < 65 then (if 48 \<le> c \<and> c \<le> 57 then St 408 else St 0) else if c > 70 then (if 97 \<le> c
     \<and> c \<le> 102 then St 391 else St 0) else St 391))
    else if cs = 408 then
      (switch c [(46, St 294), (58, St 394), (93, St 512)]
      (if c < 65 then (if 48 \<le> c \<and> c \<le> 57 then St 409 else St 0) else if c > 70 then (if 97 \<le> c
      \<and> c \<le> 102 then St 392 else St 0) else St 392))
    else if cs = 409 then
      (switch c [(46, St 294), (58, St 394), (93, St 512)]
      (if c < 65 then (if 48 \<le> c \<and> c \<le> 57 then St 393 else St 0) else if c > 70 then (if 97 \<le> c
      \<and> c \<le> 102 then St 393 else St 0) else St 393))
    else if cs = 410 then
      (switch c [(46, St 294), (53, St 412), (58, St 394), (93, St 512)]
      (if c < 65 then (if 48 \<le> c \<and> c \<le> 57 then St 411 else St 0) else if c > 70 then (if 97 \<le> c
      \<and> c \<le> 102 then St 391 else St 0) else St 391))
    else if cs = 411 then
      (switch c [(46, St 294), (58, St 394), (93, St 512)]
      (if c < 65 then (if 48 \<le> c \<and> c \<le> 57 then St 392 else St 0) else if c > 70 then (if 97 \<le> c
      \<and> c \<le> 102 then St 392 else St 0) else St 392))
    else if cs = 412 then
      (switch c [(46, St 294), (58, St 394), (93, St 512)]
      (if c < 54 then (if 48 \<le> c \<and> c \<le> 53 then St 409 else St 0) else if c > 57 then (if c > 70 then (if
      97 \<le> c \<and> c \<le> 102 then St 392 else St 0) else if c \<ge> 65 then St 392 else St 0) else St 392))
    else if cs = 413 then
      (switch c [(46, St 294), (58, St 394), (93, St 512)]
      (if c < 65 then (if 48 \<le> c \<and> c \<le> 57 then St 411 else St 0) else if c > 70 then (if 97 \<le> c
      \<and> c \<le> 102 then St 391 else St 0) else St 391))
    else if cs = 414 then
      (switch c [(58, St 394), (93, St 512)]
      (if c < 65 then (if 48 \<le> c \<and> c \<le> 57 then St 391 else St 0) else if c > 70 then (if 97 \<le> c
      \<and> c \<le> 102 then St 391 else St 0) else St 391))
    else St 0)"

definition uri_cases_63 :: "int \<Rightarrow> int \<Rightarrow> jump" where
  "uri_cases_63 cs c =
   (if cs = 415 then
     (switch c [(46, St 294), (58, St 389), (93, St 512)]
     (if c < 65 then (if 48 \<le> c \<and> c \<le> 57 then St 416 else St 0) else if c > 70 then (if 97 \<le> c
     \<and> c \<le> 102 then St 386 else St 0) else St 386))
    else if cs = 416 then
      (switch c [(46, St 294), (58, St 389), (93, St 512)]
      (if c < 65 then (if 48 \<le> c \<and> c \<le> 57 then St 417 else St 0) else if c > 70 then (if 97 \<le> c
      \<and> c \<le> 102 then St 387 else St 0) else St 387))
    else if cs = 417 then
      (switch c [(46, St 294), (58, St 389), (93, St 512)]
      (if c < 65 then (if 48 \<le> c \<and> c \<le> 57 then St 388 else St 0) else if c > 70 then (if 97 \<le> c
      \<and> c \<le> 102 then St 388 else St 0) else St 388))
    else if cs = 418 then
      (switch c [(46, St 294), (53, St 420), (58, St 389), (93, St 512)]
      (if c < 65 then (if 48 \<le> c \<and> c \<le> 57 then St 419 else St 0) else if c > 70 then (if 97 \<le> c
      \<and> c \<le> 102 then St 386 else St 0) else St 386))
    else if cs = 419 then
      (switch c [(46, St 294), (58, St 389), (93, St 512)]
      (if c < 65 then (if 48 \<le> c \<and> c \<le> 57 then St 387 else St 0) else if c > 70 then (if 97 \<le> c
      \<and> c \<le> 102 then St 387 else St 0) else St 387))
    else if cs = 420 then
      (switch c [(46, St 294), (58, St 389), (93, St 512)]
      (if c < 54 then (if 48 \<le> c \<and> c \<le> 53 then St 417 else St 0) else if c > 57 then (if c > 70 then (if
      97 \<le> c \<and> c \<le> 102 then St 387 else St 0) else if c \<ge> 65 then St 387 else St 0) else St 387))
    else if cs = 421 then
      (switch c [(46, St 294), (58, St 389), (93, St 512)]
      (if c < 65 then (if 48 \<le> c \<and> c \<le> 57 then St 419 else St 0) else if c > 70 then (if 97 \<le> c
      \<and> c \<le> 102 then St 386 else St 0) else St 386))
    else if cs = 422 then
      (switch c [(58, St 389), (93, St 512)]
      (if c < 65 then (if 48 \<le> c \<and> c \<le> 57 then St 386 else St 0) else if c > 70 then (if 97 \<le> c
      \<and> c \<le> 102 then St 386 else St 0) else St 386))
    else St 0)"

definition uri_cases_64 :: "int \<Rightarrow> int \<Rightarrow> jump" where
  "uri_cases_64 cs c =
   (if cs = 423 then
     (switch c [(46, St 294), (58, St 384), (93, St 512)]
     (if c < 65 then (if 48 \<le> c \<and> c \<le> 57 then St 424 else St 0) else if c > 70 then (if 97 \<le> c
     \<and> c \<le> 102 then St 381 else St 0) else St 381))
    else if cs = 424 then
      (switch c [(46, St 294), (58, St 384), (93, St 512)]
      (if c < 65 then (if 48 \<le> c \<and> c \<le> 57 then St 425 else St 0) else if c > 70 then (if 97 \<le> c
      \<and> c \<le> 102 then St 382 else St 0) else St 382))
    else if cs = 425 then
      (switch c [(46, St 294), (58, St 384), (93, St 512)]
      (if c < 65 then (if 48 \<le> c \<and> c \<le> 57 then St 383 else St 0) else if c > 70 then (if 97 \<le> c
      \<and> c \<le> 102 then St 383 else St 0) else St 383))
    else if cs = 426 then
      (switch c [(46, St 294), (53, St 428), (58, St 384), (93, St 512)]
      (if c < 65 then (if 48 \<le> c \<and> c \<le> 57 then St 427 else St 0) else if c > 70 then (if 97 \<le> c
      \<and> c \<le> 102 then St 381 else St 0) else St 381))
    else if cs = 427 then
      (switch c [(46, St 294), (58, St 384), (93, St 512)]
      (if c < 65 then (if 48 \<le> c \<and> c \<le> 57 then St 382 else St 0) else if c > 70 then (if 97 \<le> c
      \<and> c \<le> 102 then St 382 else St 0) else St 382))
    else if cs = 428 then
      (switch c [(46, St 294), (58, St 384), (93, St 512)]
      (if c < 54 then (if 48 \<le> c \<and> c \<le> 53 then St 425 else St 0) else if c > 57 then (if c > 70 then (if
      97 \<le> c \<and> c \<le> 102 then St 382 else St 0) else if c \<ge> 65 then St 382 else St 0) else St 382))
    else if cs = 429 then
      (switch c [(46, St 294), (58, St 384), (93, St 512)]
      (if c < 65 then (if 48 \<le> c \<and> c \<le> 57 then St 427 else St 0) else if c > 70 then (if 97 \<le> c
      \<and> c \<le> 102 then St 381 else St 0) else St 381))
    else if cs = 430 then
      (switch c [(58, St 384), (93, St 512)]
      (if c < 65 then (if 48 \<le> c \<and> c \<le> 57 then St 381 else St 0) else if c > 70 then (if 97 \<le> c
      \<and> c \<le> 102 then St 381 else St 0) else St 381))
    else St 0)"

definition uri_cases_65 :: "int \<Rightarrow> int \<Rightarrow> jump" where
  "uri_cases_65 cs c =
   (if cs = 431 then
     (switch c [(46, St 294), (58, St 379), (93, St 512)]
     (if c < 65 then (if 48 \<le> c \<and> c \<le> 57 then St 432 else St 0) else if c > 70 then (if 97 \<le> c
     \<and> c \<le> 102 then St 376 else St 0) else St 376))
    else if cs = 432 then
      (switch c [(46, St 294), (58, St 379), (93, St 512)]
      (if c < 65 then (if 48 \<le> c \<and> c \<le> 57 then St 433 else St 0) else if c > 70 then (if 97 \<le> c
      \<and> c \<le> 102 then St 377 else St 0) else St 377))
    else if cs = 433 then
      (switch c [(46, St 294), (58, St 379), (93, St 512)]
      (if c < 65 then (if 48 \<le> c \<and> c \<le> 57 then St 378 else St 0) else if c > 70 then (if 97 \<le> c
      \<and> c \<le> 102 then St 378 else St 0) else St 378))
    else if cs = 434 then
      (switch c [(46, St 294), (53, St 436), (58, St 379), (93, St 512)]
      (if c < 65 then (if 48 \<le> c \<and> c \<le> 57 then St 435 else St 0) else if c > 70 then (if 97 \<le> c
      \<and> c \<le> 102 then St 376 else St 0) else St 376))
    else if cs = 435 then
      (switch c [(46, St 294), (58, St 379), (93, St 512)]
      (if c < 65 then (if 48 \<le> c \<and> c \<le> 57 then St 377 else St 0) else if c > 70 then (if 97 \<le> c
      \<and> c \<le> 102 then St 377 else St 0) else St 377))
    else if cs = 436 then
      (switch c [(46, St 294), (58, St 379), (93, St 512)]
      (if c < 54 then (if 48 \<le> c \<and> c \<le> 53 then St 433 else St 0) else if c > 57 then (if c > 70 then (if
      97 \<le> c \<and> c \<le> 102 then St 377 else St 0) else if c \<ge> 65 then St 377 else St 0) else St 377))
    else if cs = 437 then
      (switch c [(46, St 294), (58, St 379), (93, St 512)]
      (if c < 65 then (if 48 \<le> c \<and> c \<le> 57 then St 435 else St 0) else if c > 70 then (if 97 \<le> c
      \<and> c \<le> 102 then St 376 else St 0) else St 376))
    else if cs = 438 then
      (switch c [(58, St 379), (93, St 512)]
      (if c < 65 then (if 48 \<le> c \<and> c \<le> 57 then St 376 else St 0) else if c > 70 then (if 97 \<le> c
      \<and> c \<le> 102 then St 376 else St 0) else St 376))
    else St 0)"

definition uri_cases_66 :: "int \<Rightarrow> int \<Rightarrow> jump" where
  "uri_cases_66 cs c =
   (if cs = 439 then
     (switch c [(46, St 294), (58, St 374), (93, St 512)]
     (if c < 65 then (if 48 \<le> c \<and> c \<le> 57 then St 440 else St 0) else if c > 70 then (if 97 \<le> c
     \<and> c \<le> 102 then St 371 else St 0) else St 371))
    else if cs = 440 then
      (switch c [(46, St 294), (58, St 374), (93, St 512)]
      (if c < 65 then (if 48 \<le> c \<and> c \<le> 57 then St 441 else St 0) else if c > 70 then (if 97 \<le> c
      \<and> c \<le> 102 then St 372 else St 0) else St 372))
    else if cs = 441 then
      (switch c [(46, St 294), (58, St 374), (93, St 512)]
      (if c < 65 then (if 48 \<le> c \<and> c \<le> 57 then St 373 else St 0) else if c > 70 then (if 97 \<le> c
      \<and> c \<le> 102 then St 373 else St 0) else St 373))
    else if cs = 442 then
      (switch c [(46, St 294), (53, St 444), (58, St 374), (93, St 512)]
      (if c < 65 then (if 48 \<le> c \<and> c \<le> 57 then St 443 else St 0) else if c > 70 then (if 97 \<le> c
      \<and> c \<le> 102 then St 371 else St 0) else St 371))
    else if cs = 443 then
      (switch c [(46, St 294), (58, St 374), (93, St 512)]
      (if c < 65 then (if 48 \<le> c \<and> c \<le> 57 then St 372 else St 0) else if c > 70 then (if 97 \<le> c
      \<and> c \<le> 102 then St 372 else St 0) else St 372))
    else if cs = 444 then
      (switch c [(46, St 294), (58, St 374), (93, St 512)]
      (if c < 54 then (if 48 \<le> c \<and> c \<le> 53 then St 441 else St 0) else if c > 57 then (if c > 70 then (if
      97 \<le> c \<and> c \<le> 102 then St 372 else St 0) else if c \<ge> 65 then St 372 else St 0) else St 372))
    else if cs = 445 then
      (switch c [(46, St 294), (58, St 374), (93, St 512)]
      (if c < 65 then (if 48 \<le> c \<and> c \<le> 57 then St 443 else St 0) else if c > 70 then (if 97 \<le> c
      \<and> c \<le> 102 then St 371 else St 0) else St 371))
    else if cs = 446 then
      (switch c [(58, St 374), (93, St 512)]
      (if c < 65 then (if 48 \<le> c \<and> c \<le> 57 then St 371 else St 0) else if c > 70 then (if 97 \<le> c
      \<and> c \<le> 102 then St 371 else St 0) else St 371))
    else St 0)"

definition uri_cases_67 :: "int \<Rightarrow> int \<Rightarrow> jump" where
  "uri_cases_67 cs c =
   (if cs = 447 then
     (if c < 65 then (if 48 \<le> c \<and> c \<le> 57 then St 448 else St 0) else if c > 70 then (if 97 \<le> c
     \<and> c \<le> 102 then St 448 else St 0) else St 448)
    else if cs = 448 then
      (if c = 46 then St 449 else if c < 65 then (if 48 \<le> c \<and> c \<le> 57 then St 448 else St 0) else if c >
      70 then (if 97 \<le> c \<and> c \<le> 102 then St 448 else St 0) else St 448)
    else if cs = 449 then
      (switch c [(33, St 450), (36, St 450), (61, St 450), (95, St 450), (126, St 450)]
      (if c < 48 then (if 38 \<le> c \<and> c \<le> 46 then St 450 else St 0) else if c > 59 then (if c > 90 then (if
      97 \<le> c \<and> c \<le> 122 then St 450 else St 0) else if c \<ge> 65 then St 450 else St 0) else St 450))
    else if cs = 450 then
      (switch c [(33, St 450), (36, St 450), (61, St 450), (93, St 512), (95, St 450), (126, St 450)]
      (if c < 48 then (if 38 \<le> c \<and> c \<le> 46 then St 450 else St 0) else if c > 59 then (if c > 90 then (if
      97 \<le> c \<and> c \<le> 122 then St 450 else St 0) else if c \<ge> 65 then St 450 else St 0) else St 450))
    else if cs = 542 then
      (switch c [(33, St 255), (35, Tr 570), (37, St 256), (47, Tr 571), (61, St 255), (63, Tr 573), (64, Tr 263),
      (95, St 255), (126, St 255)]
      (if c < 58 then (if c > 46 then (if 48 \<le> c \<and> c \<le> 57 then St 542 else St 0) else if c \<ge> 36 then
      St 255 else St 0) else if c > 59 then (if c > 90 then (if 97 \<le> c \<and> c \<le> 122 then St 255 else St 0)
      else if c \<ge> 65 then St 255 else St 0) else St 255))
    else if cs = 543 then
      (switch c [(33, St 520), (35, Tr 559), (37, St 253), (46, St 544), (47, Tr 560), (58, Tr 576), (61, St 520),
      (63, Tr 562), (64, Tr 263), (95, St 520), (126, St 520)]
      (if c < 65 then (if 36 \<le> c \<and> c \<le> 59 then St 520 else St 0) else if c > 90 then (if 97 \<le> c
      \<and> c \<le> 122 then St 520 else St 0) else St 520))
    else St 0)"

definition uri_trs_67 :: "(int \<times> uri_action list \<times> int) list" where
  "uri_trs_67 =
    [(577, [Markh], 542), (551, [Markh], 543)]"

definition uri_cases_68 :: "int \<Rightarrow> int \<Rightarrow> jump" where
  "uri_cases_68 cs c =
   (if cs = 544 then
     (switch c [(2, St 233), (33, St 520), (35, Tr 559), (37, St 253), (47, Tr 560), (48, St 545), (49, St 553), (50,
     St 555), (58, Tr 576), (59, St 520), (61, St 520), (63, Tr 562), (64, Tr 263), (95, St 520), (126, St 520)]
     (if c < 51 then (if 36 \<le> c \<and> c \<le> 46 then St 520 else St 0) else if c > 57 then (if c > 90 then (if
     97 \<le> c \<and> c \<le> 122 then St 520 else St 0) else if c \<ge> 65 then St 520 else St 0) else St 554))
    else if cs = 545 then
      (switch c [(33, St 520), (35, Tr 559), (37, St 253), (46, St 546), (47, Tr 560), (58, Tr 576), (61, St 520),
      (63, Tr 562), (64, Tr 263), (95, St 520), (126, St 520)]
      (if c < 65 then (if 36 \<le> c \<and> c \<le> 59 then St 520 else St 0) else if c > 90 then (if 97 \<le> c
      \<and> c \<le> 122 then St 520 else St 0) else St 520))
    else if cs = 546 then
      (switch c [(2, St 237), (33, St 520), (35, Tr 559), (37, St 253), (47, Tr 560), (48, St 547), (49, St 549),
      (50, St 551), (58, Tr 576), (59, St 520), (61, St 520), (63, Tr 562), (64, Tr 263), (95, St 520), (126, St
      520)]
      (if c < 51 then (if 36 \<le> c \<and> c \<le> 46 then St 520 else St 0) else if c > 57 then (if c > 90 then (if
      97 \<le> c \<and> c \<le> 122 then St 520 else St 0) else if c \<ge> 65 then St 520 else St 0) else St 550))
    else if cs = 547 then
      (switch c [(33, St 520), (35, Tr 559), (37, St 253), (46, St 548), (47, Tr 560), (58, Tr 576), (61, St 520),
      (63, Tr 562), (64, Tr 263), (95, St 520), (126, St 520)]
      (if c < 65 then (if 36 \<le> c \<and> c \<le> 59 then St 520 else St 0) else if c > 90 then (if 97 \<le> c
      \<and> c \<le> 122 then St 520 else St 0) else St 520))
    else if cs = 548 then
      (switch c [(2, St 241), (33, St 520), (35, Tr 559), (37, St 253), (47, Tr 560), (58, Tr 576), (61, St 520),
      (63, Tr 562), (64, Tr 263), (95, St 520), (126, St 520)]
      (if c < 65 then (if 36 \<le> c \<and> c \<le> 59 then St 520 else St 0) else if c > 90 then (if 97 \<le> c
      \<and> c \<le> 122 then St 520 else St 0) else St 520))
    else St 0)"

definition uri_cases_69 :: "int \<Rightarrow> int \<Rightarrow> jump" where
  "uri_cases_69 cs c =
   (if cs = 549 then
     (switch c [(33, St 520), (35, Tr 559), (37, St 253), (46, St 548), (47, Tr 560), (58, Tr 576), (59, St 520),
     (61, St 520), (63, Tr 562), (64, Tr 263), (95, St 520), (126, St 520)]
     (if c < 48 then (if 36 \<le> c \<and> c \<le> 45 then St 520 else St 0) else if c > 57 then (if c > 90 then (if
     97 \<le> c \<and> c \<le> 122 then St 520 else St 0) else if c \<ge> 65 then St 520 else St 0) else St 550))
    else if cs = 550 then
      (switch c [(33, St 520), (35, Tr 559), (37, St 253), (46, St 548), (47, Tr 560), (58, Tr 576), (59, St 520),
      (61, St 520), (63, Tr 562), (64, Tr 263), (95, St 520), (126, St 520)]
      (if c < 48 then (if 36 \<le> c \<and> c \<le> 45 then St 520 else St 0) else if c > 57 then (if c > 90 then (if
      97 \<le> c \<and> c \<le> 122 then St 520 else St 0) else if c \<ge> 65 then St 520 else St 0) else St 547))
    else if cs = 551 then
      (switch c [(33, St 520), (35, Tr 559), (37, St 253), (46, St 548), (47, Tr 560), (53, St 552), (58, Tr 576),
      (59, St 520), (61, St 520), (63, Tr 562), (64, Tr 263), (95, St 520), (126, St 520)]
      (if c < 48 then (if 36 \<le> c \<and> c \<le> 45 then St 520 else St 0) else if c > 57 then (if c > 90 then (if
      97 \<le> c \<and> c \<le> 122 then St 520 else St 0) else if c \<ge> 65 then St 520 else St 0) else St 547))
    else if cs = 552 then
      (switch c [(33, St 520), (35, Tr 559), (37, St 253), (46, St 548), (47, Tr 560), (58, Tr 576), (61, St 520),
      (63, Tr 562), (64, Tr 263), (95, St 520), (126, St 520)]
      (if c < 54 then (if c > 45 then (if 48 \<le> c \<and> c \<le> 53 then St 547 else St 0) else if c \<ge> 36 then
      St 520 else St 0) else if c > 59 then (if c > 90 then (if 97 \<le> c \<and> c \<le> 122 then St 520 else St 0)
      else if c \<ge> 65 then St 520 else St 0) else St 520))
    else St 0)"

definition uri_cases_70 :: "int \<Rightarrow> int \<Rightarrow> jump" where
  "uri_cases_70 cs c =
   (if cs = 553 then
     (switch c [(33, St 520), (35, Tr 559), (37, St 253), (46, St 546), (47, Tr 560), (58, Tr 576), (59, St 520),
     (61, St 520), (63, Tr 562), (64, Tr 263), (95, St 520), (126, St 520)]
     (if c < 48 then (if 36 \<le> c \<and> c \<le> 45 then St 520 else St 0) else if c > 57 then (if c > 90 then (if
     97 \<le> c \<and> c \<le> 122 then St 520 else St 0) else if c \<ge> 65 then St 520 else St 0) else St 554))
    else if cs = 554 then
      (switch c [(33, St 520), (35, Tr 559), (37, St 253), (46, St 546), (47, Tr 560), (58, Tr 576), (59, St 520),
      (61, St 520), (63, Tr 562), (64, Tr 263), (95, St 520), (126, St 520)]
      (if c < 48 then (if 36 \<le> c \<and> c \<le> 45 then St 520 else St 0) else if c > 57 then (if c > 90 then (if
      97 \<le> c \<and> c \<le> 122 then St 520 else St 0) else if c \<ge> 65 then St 520 else St 0) else St 545))
    else if cs = 555 then
      (switch c [(33, St 520), (35, Tr 559), (37, St 253), (46, St 546), (47, Tr 560), (53, St 556), (58, Tr 576),
      (59, St 520), (61, St 520), (63, Tr 562), (64, Tr 263), (95, St 520), (126, St 520)]
      (if c < 48 then (if 36 \<le> c \<and> c \<le> 45 then St 520 else St 0) else if c > 57 then (if c > 90 then (if
      97 \<le> c \<and> c \<le> 122 then St 520 else St 0) else if c \<ge> 65 then St 520 else St 0) else St 545))
    else if cs = 556 then
      (switch c [(33, St 520), (35, Tr 559), (37, St 253), (46, St 546), (47, Tr 560), (58, Tr 576), (61, St 520),
      (63, Tr 562), (64, Tr 263), (95, St 520), (126, St 520)]
      (if c < 54 then (if c > 45 then (if 48 \<le> c \<and> c \<le> 53 then St 545 else St 0) else if c \<ge> 36 then
      St 520 else St 0) else if c > 59 then (if c > 90 then (if 97 \<le> c \<and> c \<le> 122 then St 520 else St 0)
      else if c \<ge> 65 then St 520 else St 0) else St 520))
    else St 0)"

definition uri_trs_70 :: "(int \<times> uri_action list \<times> int) list" where
  "uri_trs_70 =
    [(552, [Markh], 557)]"

definition uri_cases_71 :: "int \<Rightarrow> int \<Rightarrow> jump" where
  "uri_cases_71 cs c =
   (if cs = 557 then
     (switch c [(33, St 520), (35, Tr 559), (37, St 253), (46, St 544), (47, Tr 560), (58, Tr 576), (59, St 520),
     (61, St 520), (63, Tr 562), (64, Tr 263), (95, St 520), (126, St 520)]
     (if c < 48 then (if 36 \<le> c \<and> c \<le> 45 then St 520 else St 0) else if c > 57 then (if c > 90 then (if
     97 \<le> c \<and> c \<le> 122 then St 520 else St 0) else if c \<ge> 65 then St 520 else St 0) else St 558))
    else if cs = 558 then
      (switch c [(33, St 520), (35, Tr 559), (37, St 253), (46, St 544), (47, Tr 560), (58, Tr 576), (59, St 520),
      (61, St 520), (63, Tr 562), (64, Tr 263), (95, St 520), (126, St 520)]
      (if c < 48 then (if 36 \<le> c \<and> c \<le> 45 then St 520 else St 0) else if c > 57 then (if c > 90 then (if
      97 \<le> c \<and> c \<le> 122 then St 520 else St 0) else if c \<ge> 65 then St 520 else St 0) else St 543))
    else if cs = 559 then
      (switch c [(33, St 520), (35, Tr 559), (37, St 253), (46, St 544), (47, Tr 560), (53, St 560), (58, Tr 576),
      (59, St 520), (61, St 520), (63, Tr 562), (64, Tr 263), (95, St 520), (126, St 520)]
      (if c < 48 then (if 36 \<le> c \<and> c \<le> 45 then St 520 else St 0) else if c > 57 then (if c > 90 then (if
      97 \<le> c \<and> c \<le> 122 then St 520 else St 0) else if c \<ge> 65 then St 520 else St 0) else St 543))
    else if cs = 560 then
      (switch c [(33, St 520), (35, Tr 559), (37, St 253), (46, St 544), (47, Tr 560), (58, Tr 576), (61, St 520),
      (63, Tr 562), (64, Tr 263), (95, St 520), (126, St 520)]
      (if c < 54 then (if c > 45 then (if 48 \<le> c \<and> c \<le> 53 then St 543 else St 0) else if c \<ge> 36 then
      St 520 else St 0) else if c > 59 then (if c > 90 then (if 97 \<le> c \<and> c \<le> 122 then St 520 else St 0)
      else if c \<ge> 65 then St 520 else St 0) else St 520))
    else St 0)"

definition uri_trs_71 :: "(int \<times> uri_action list \<times> int) list" where
  "uri_trs_71 =
    [(554, [Markh], 558), (553, [Markh], 559)]"

definition uri_cases :: "int \<Rightarrow> int \<Rightarrow> jump" where
  "uri_cases cs c =
    (if cs < 1 then St 0
     else if cs < 4 then uri_cases_2 cs c
     else if cs < 7 then uri_cases_3 cs c
     else if cs < 8 then uri_cases_4 cs c
     else if cs < 17 then uri_cases_5 cs c
     else if cs < 23 then uri_cases_6 cs c
     else if cs < 33 then uri_cases_7 cs c
     else if cs < 36 then uri_cases_8 cs c
     else if cs < 38 then uri_cases_9 cs c
     else if cs < 41 then uri_cases_13 cs c
     else if cs < 52 then uri_cases_14 cs c
     else if cs < 63 then uri_cases_15 cs c
     else if cs < 76 then uri_cases_16 cs c
     else if cs < 92 then uri_cases_17 cs c
     else if cs < 103 then uri_cases_18 cs c
     else if cs < 111 then uri_cases_19 cs c
     else if cs < 120 then uri_cases_20 cs c
     else if cs < 129 then uri_cases_21 cs c
     else if cs < 140 then uri_cases_22 cs c
     else if cs < 150 then uri_cases_23 cs c
     else if cs < 159 then uri_cases_24 cs c
     else if cs < 168 then uri_cases_25 cs c
     else if cs < 177 then uri_cases_26 cs c
     else if cs < 185 then uri_cases_27 cs c
     else if cs < 193 then uri_cases_28 cs c
     else if cs < 201 then uri_cases_29 cs c
     else if cs < 209 then uri_cases_30 cs c
     else if cs < 217 then uri_cases_31 cs c
     else if cs < 225 then uri_cases_32 cs c
     else if cs < 229 then uri_cases_33 cs c
     else if cs < 231 then uri_cases_38 cs c
     else if cs < 243 then uri_cases_39 cs c
     else if cs < 245 then uri_cases_40 cs c
     else if cs < 253 then uri_cases_41 cs c
     else if cs < 258 then uri_cases_42 cs c
     else if cs < 260 then uri_cases_43 cs c
     else if cs < 263 then uri_cases_47 cs c
     else if cs < 274 then uri_cases_48 cs c
     else if cs < 285 then uri_cases_49 cs c
     else if cs < 298 then uri_cases_50 cs c
     else if cs < 314 then uri_cases_51 cs c
     else if cs < 325 then uri_cases_52 cs c
     else if cs < 333 then uri_cases_53 cs c
     else if cs < 342 then uri_cases_54 cs c
     else if cs < 351 then uri_cases_55 cs c
     else if cs < 362 then uri_cases_56 cs c
     else if cs < 372 then uri_cases_57 cs c
     else if cs < 381 then uri_cases_58 cs c
     else if cs < 390 then uri_cases_59 cs c
     else if cs < 399 then uri_cases_60 cs c
     else if cs < 407 then uri_cases_61 cs c
     else if cs < 415 then uri_cases_62 cs c
     else if cs < 423 then uri_cases_63 cs c
     else if cs < 431 then uri_cases_64 cs c
     else if cs < 439 then uri_cases_65 cs c
     else if cs < 447 then uri_cases_66 cs c
     else if cs < 451 then uri_cases_67 cs c
     else if cs < 453 then uri_cases_1 cs c
     else if cs < 455 then uri_cases_2 cs c
     else if cs < 456 then uri_cases_3 cs c
     else if cs < 458 then uri_cases_4 cs c
     else if cs < 460 then uri_cases_5 cs c
     else if cs < 466 then uri_cases_6 cs c
     else if cs < 468 then uri_cases_7 cs c
     else if cs < 469 then uri_cases_8 cs c
     else if cs < 472 then uri_cases_9 cs c
     else if cs < 477 then uri_cases_10 cs c
     else if cs < 482 then uri_cases_11 cs c
     else if cs < 486 then uri_cases_12 cs c
     else if cs < 489 then uri_cases_13 cs c
     else if cs < 491 then uri_cases_33 cs c
     else if cs < 496 then uri_cases_34 cs c
     else if cs < 500 then uri_cases_35 cs c
     else if cs < 504 then uri_cases_36 cs c
     else if cs < 508 then uri_cases_37 cs c
     else if cs < 512 then uri_cases_38 cs c
     else if cs < 513 then uri_cases_39 cs c
     else if cs < 518 then uri_cases_40 cs c
     else if cs < 521 then uri_cases_41 cs c
     else if cs < 522 then uri_cases_42 cs c
     else if cs < 525 then uri_cases_43 cs c
     else if cs < 530 then uri_cases_44 cs c
     else if cs < 535 then uri_cases_45 cs c
     else if cs < 539 then uri_cases_46 cs c
     else if cs < 542 then uri_cases_47 cs c
     else if cs < 544 then uri_cases_67 cs c
     else if cs < 549 then uri_cases_68 cs c
     else if cs < 553 then uri_cases_69 cs c
     else if cs < 557 then uri_cases_70 cs c
     else if cs < 561 then uri_cases_71 cs c
     else St 0)"

definition uri_table :: "(int \<times> uri_action list \<times> int) list" where
  "uri_table = uri_trs_1 @ uri_trs_2 @ uri_trs_3 @ uri_trs_4 @ uri_trs_5 @ uri_trs_6 @ uri_trs_7 @ uri_trs_8 @
    uri_trs_9 @ uri_trs_12 @ uri_trs_13 @ uri_trs_33 @ uri_trs_36 @ uri_trs_37 @ uri_trs_38 @ uri_trs_39 @ uri_trs_40
    @ uri_trs_41 @ uri_trs_42 @ uri_trs_43 @ uri_trs_46 @ uri_trs_47 @ uri_trs_67 @ uri_trs_70 @ uri_trs_71"

definition uri_trs :: "int \<Rightarrow> uri_action list \<times> int" where
  "uri_trs k = (case map_of uri_table k of Some t \<Rightarrow> t | None \<Rightarrow> ([], 0))"

text \<open>The actions when the text ends in a state.\<close>

definition uri_eof_table :: "(int list \<times> uri_action list) list" where
  "uri_eof_table =
    [([462, 489], [Save_port]),
     ([460, 463, 464, 465, 466, 467, 470, 471, 472, 473, 474, 475, 476, 477, 478, 479, 480, 481, 482, 483, 484, 485,
      486, 487, 488, 490, 491, 492, 493, 494, 495, 496, 497, 498, 499, 500, 501, 502, 503, 504, 505, 506, 507],
      [Save_host]),
     ([513], [Save_path]),
     ([457], [Save_query]),
     ([454], [Save_fragment]),
     ([456], [Marku, Save_query]),
     ([453], [Marku, Save_fragment]),
     ([461, 468], [Markh, Save_port]),
     ([459, 469], [Markh, Save_host]),
     ([514, 521], [Markh, Save_port, Save_path]),
     ([511, 522], [Markh, Save_host, Save_path]),
     ([515, 542], [Save_port, Markh, Save_path]),
     ([512, 516, 517, 518, 519, 520, 523, 524, 525, 526, 527, 528, 529, 530, 531, 532, 533, 534, 535, 536, 537, 538,
      539, 540, 541, 543, 544, 545, 546, 547, 548, 549, 550, 551, 552, 553, 554, 555, 556, 557, 558, 559, 560],
      [Save_host, Markh, Save_path])]"

definition uri_eof :: "int \<Rightarrow> uri_action list" where
  "uri_eof cs = (case find (\<lambda>(states, acts). cs \<in> set states) uri_eof_table of Some (states, acts) \<Rightarrow> acts | None \<Rightarrow> [])"

end
