(* ===== verification/Uri_Scan.thy ===== *)
theory Uri_Scan
  imports Uri Uri_Machine
begin

text \<open>
  \<open>Uri::Create\<close> of \<open>src/uri.rl.cc\<close> around the machine of \<open>Uri_Machine\<close>: the actions on the new \<open>Uri\<close> and on the
  pointer \<open>mark\<close>, and the result. What a text from \<open>Uri::toString\<close> becomes, and texts that \<open>Create\<close> does not read as meant.
\<close>

section \<open>Creating a URI\<close>

text \<open>
  \<open>std::string(mark, fpc - mark)\<close> throws \<open>std::logic_error\<close> when \<open>mark\<close> is NULL, and \<open>atoi\<close> crashes. The value of \<open>atoi\<close>
  is that of the digits: beyond the range of \<open>int\<close> it is undefined.
\<close>

datatype uri_failure = Null_string | Null_atoi

type_synonym uri_scan = "uri_failure + uri \<times> nat option"

definition text_of :: "string \<Rightarrow> nat \<Rightarrow> nat \<Rightarrow> string" where
  "text_of str m p = take (p - m) (drop m str)"

fun save_marked :: "string \<Rightarrow> nat \<Rightarrow> (string \<Rightarrow> uri \<Rightarrow> uri) \<Rightarrow> uri_scan \<Rightarrow> uri_scan" where
  "save_marked str p set_it (Inl e) = Inl e"
| "save_marked str p set_it (Inr (u, None)) = Inl Null_string"
| "save_marked str p set_it (Inr (u, Some m)) = Inr (set_it (text_of str m p) u, None)"

fun uri_act :: "string \<Rightarrow> nat \<Rightarrow> uri_action \<Rightarrow> uri_scan \<Rightarrow> uri_scan" where
  "uri_act str p Marku s = map_sum id (\<lambda>(u, mark). (u, Some p)) s"
| "uri_act str p Markh s = map_sum id (\<lambda>(u, mark). (u, Some p)) s"
| "uri_act str p Save_scheme s = save_marked str p (\<lambda>t u. u\<lparr>m_scheme := t\<rparr>) s"
| "uri_act str p Save_port s =
     (case s of
        Inl e \<Rightarrow> Inl e
      | Inr (u, None) \<Rightarrow> Inl Null_atoi
      | Inr (u, Some m) \<Rightarrow> Inr (if p \<noteq> m then u\<lparr>m_port := atoi (drop m str)\<rparr> else u, None))"
| "uri_act str p Save_userinfo s =
     (case s of
        Inl e \<Rightarrow> Inl e
      | Inr (u, mark) \<Rightarrow> Inr (case mark of None \<Rightarrow> u | Some m \<Rightarrow> u\<lparr>m_userinfo := text_of str m p\<rparr>, None))"
| "uri_act str p Save_host s =
     (case s of
        Inl e \<Rightarrow> Inl e
      | Inr (u, mark) \<Rightarrow> Inr (case mark of None \<Rightarrow> u | Some m \<Rightarrow> u\<lparr>m_host := text_of str m p\<rparr>, mark))"
| "uri_act str p Save_path s = save_marked str p (\<lambda>t u. u\<lparr>m_path := t\<rparr>) s"
| "uri_act str p Save_query s = save_marked str p (\<lambda>t u. u\<lparr>m_query := t\<rparr>) s"
| "uri_act str p Save_fragment s = save_marked str p (\<lambda>t u. u\<lparr>m_fragment := t\<rparr>) s"

definition uri_machine :: "string \<Rightarrow> (uri_action, uri_scan) machine" where
  "uri_machine str = \<lparr>m_cases = uri_cases, m_trs = uri_trs, m_act = uri_act str, m_breaks = (\<lambda>a. False)\<rparr>"

definition uri_parser_start :: int where "uri_parser_start = 451"
definition uri_parser_first_final :: int where "uri_parser_first_final = 451"
definition uri_parser_error :: int where "uri_parser_error = 0"

text \<open>The actions at the end are reached only when the loop did not leave through the state 0.\<close>

definition Uri_Create :: "string \<Rightarrow> uri_failure + uri option" where
  "Uri_Create uristr =
     (let (p, cs, s) = ragel_scan (uri_machine uristr) uri_parser_start 0 uristr (Inr (Uri_new, None));
          s' = (if cs = uri_parser_error then s else foldl (\<lambda>s a. uri_act uristr p a s) s (uri_eof cs))
      in map_sum id (\<lambda>(u, mark). if cs = uri_parser_error then None else if uri_parser_first_final \<le> cs then Some u else None) s')"


section \<open>Characters and states\<close>

definition reg_char :: "char \<Rightarrow> bool" where
  "reg_char ch \<longleftrightarrow> (let c = schar ch in c = 33 \<or> c = 36 \<or> 38 \<le> c \<and> c \<le> 46 \<or> 48 \<le> c \<and> c \<le> 57 \<or> c = 59 \<or> c = 61 \<or>
     65 \<le> c \<and> c \<le> 90 \<or> c = 95 \<or> 97 \<le> c \<and> c \<le> 122 \<or> c = 126)"

definition uri_path_char :: "char \<Rightarrow> bool" where
  "uri_path_char ch \<longleftrightarrow> reg_char ch \<or> (let c = schar ch in c < 0 \<or> c = 47 \<or> c = 58 \<or> c = 64)"

definition uri_query_char :: "char \<Rightarrow> bool" where
  "uri_query_char ch \<longleftrightarrow> uri_path_char ch \<or> schar ch = 63"

definition alpha_char :: "char \<Rightarrow> bool" where
  "alpha_char ch \<longleftrightarrow> (let c = schar ch in 65 \<le> c \<and> c \<le> 90 \<or> 97 \<le> c \<and> c \<le> 122)"

definition scheme_char :: "char \<Rightarrow> bool" where
  "scheme_char ch \<longleftrightarrow> alpha_char ch \<or> (let c = schar ch in c = 43 \<or> c = 45 \<or> c = 46 \<or> 48 \<le> c \<and> c \<le> 57)"

lemmas uri_states = uri_cases_def uri_cases_1_def uri_cases_2_def uri_cases_3_def uri_cases_4_def uri_cases_5_def
  uri_cases_6_def uri_cases_7_def uri_cases_8_def uri_cases_9_def uri_cases_10_def uri_cases_11_def uri_cases_12_def
  uri_cases_13_def uri_cases_14_def uri_cases_15_def uri_cases_16_def uri_cases_17_def uri_cases_18_def uri_cases_19_def
  uri_cases_20_def uri_cases_21_def uri_cases_22_def uri_cases_23_def uri_cases_24_def uri_cases_25_def uri_cases_26_def
  uri_cases_27_def uri_cases_28_def uri_cases_29_def uri_cases_30_def uri_cases_31_def uri_cases_32_def uri_cases_33_def
  uri_cases_34_def uri_cases_35_def uri_cases_36_def uri_cases_37_def uri_cases_38_def uri_cases_39_def uri_cases_40_def
  uri_cases_41_def uri_cases_42_def uri_cases_43_def uri_cases_44_def uri_cases_45_def uri_cases_46_def uri_cases_47_def
  uri_cases_48_def uri_cases_49_def uri_cases_50_def uri_cases_51_def uri_cases_52_def uri_cases_53_def uri_cases_54_def
  uri_cases_55_def uri_cases_56_def uri_cases_57_def uri_cases_58_def uri_cases_59_def uri_cases_60_def uri_cases_61_def
  uri_cases_62_def uri_cases_63_def uri_cases_64_def uri_cases_65_def uri_cases_66_def uri_cases_67_def uri_cases_68_def
  uri_cases_69_def uri_cases_70_def uri_cases_71_def

lemmas uri_transitions = uri_trs_def uri_table_def uri_trs_1_def uri_trs_2_def uri_trs_3_def uri_trs_4_def uri_trs_5_def
  uri_trs_6_def uri_trs_7_def uri_trs_8_def uri_trs_9_def uri_trs_12_def uri_trs_13_def uri_trs_33_def uri_trs_36_def
  uri_trs_37_def uri_trs_38_def uri_trs_39_def uri_trs_40_def uri_trs_41_def uri_trs_42_def uri_trs_43_def uri_trs_46_def
  uri_trs_47_def uri_trs_67_def uri_trs_70_def uri_trs_71_def

lemma uri_machine_simps [simp]:
  "m_cases (uri_machine str) = uri_cases" "m_trs (uri_machine str) = uri_trs" "m_act (uri_machine str) = uri_act str"
  "m_breaks (uri_machine str) a \<longleftrightarrow> False"
  by (simp_all add: uri_machine_def)

lemma uri_trs_eqs:
  "uri_trs 263 = ([Save_userinfo], 522)" "uri_trs 461 = ([Marku], 508)" "uri_trs 462 = ([Marku], 454)" "uri_trs 463 = ([Marku], 1)"
  "uri_trs 466 = ([Marku], 457)" "uri_trs 467 = ([Marku, Save_query], 453)" "uri_trs 468 = ([Marku], 7)"
  "uri_trs 469 = ([Save_query], 453)" "uri_trs 543 = ([Save_scheme], 509)" "uri_trs 547 = ([Markh], 520)"
  "uri_trs 549 = ([Markh], 253)" "uri_trs 551 = ([Markh], 543)" "uri_trs 552 = ([Markh], 557)" "uri_trs 553 = ([Markh], 559)"
  "uri_trs 554 = ([Markh], 558)" "uri_trs 560 = ([Save_host, Markh], 513)" "uri_trs 561 = ([Save_host], 514)"
  "uri_trs 563 = ([Save_path], 453)" "uri_trs 565 = ([Save_path], 456)" "uri_trs 568 = ([Markh], 515)"
  "uri_trs 571 = ([Save_port, Markh], 513)" "uri_trs 576 = ([Save_host], 521)" "uri_trs 577 = ([Markh], 542)"
  "uri_trs 578 = ([Markh], 523)" "uri_trs 579 = ([Markh], 258)" "uri_trs 580 = ([Markh], 524)" "uri_trs 581 = ([Markh], 538)"
  "uri_trs 582 = ([Markh], 540)" "uri_trs 583 = ([Markh], 539)"
  by (simp_all add: uri_transitions)

fun jumps_in :: "int list \<Rightarrow> jump \<Rightarrow> bool" where
  "jumps_in A (St m) \<longleftrightarrow> m \<in> set A"
| "jumps_in A (Tr k) \<longleftrightarrow> False"

lemma jumps_in_if: "jumps_in A (if P then a else b) \<longleftrightarrow> (P \<longrightarrow> jumps_in A a) \<and> (\<not> P \<longrightarrow> jumps_in A b)"
  by simp

lemma jumps_in_D: "jumps_in A j \<Longrightarrow> \<exists>m\<in>set A. j = St m"
  by (cases j) auto

text \<open>A host or a user: the machine tells addresses from names by the state. Behind an \<open>@\<close> the text is a host.\<close>

definition authority_states :: "int list" where
  "authority_states = [520, 543, 544, 545, 546, 547, 548, 549, 550, 551, 552, 553, 554, 555, 556, 557, 558, 559, 560]"

definition host_states :: "int list" where
  "host_states = [523, 524, 525, 526, 527, 528, 529, 530, 531, 532, 533, 534, 535, 536, 537, 538, 539, 540, 541]"

lemma authority_step:
  assumes "reg_char ch" "n \<in> set authority_states"
  shows "jumps_in authority_states (uri_cases n (schar ch))"
  using assms unfolding reg_char_def Let_def authority_states_def list.set insert_iff empty_iff
  by (elim disjE FalseE; simp add: uri_states jumps_in_if; simp add: authority_states_def)

lemma host_step:
  assumes "reg_char ch" "n \<in> set host_states"
  shows "jumps_in host_states (uri_cases n (schar ch))"
  using assms unfolding reg_char_def Let_def host_states_def list.set insert_iff empty_iff
  by (elim disjE FalseE; simp add: uri_states jumps_in_if; simp add: host_states_def)

lemma authority_ends:
  assumes "n \<in> set authority_states"
  shows "uri_cases n 37 = St 253" "uri_cases n 47 = Tr 560" "uri_cases n 58 = Tr 576" "uri_cases n 64 = Tr 263"
  using assms unfolding authority_states_def list.set insert_iff empty_iff
  by (elim disjE FalseE; simp add: uri_states)+

lemma host_ends:
  assumes "n \<in> set host_states"
  shows "uri_cases n 37 = St 258" "uri_cases n 47 = Tr 560" "uri_cases n 58 = Tr 561"
  using assms unfolding host_states_def list.set insert_iff empty_iff
  by (elim disjE FalseE; simp add: uri_states)+

lemma hex_states:
  assumes "xdigit ch"
  shows "uri_cases 253 (schar ch) = St 254" "uri_cases 254 (schar ch) = St 520" "uri_cases 258 (schar ch) = St 259"
    "uri_cases 259 (schar ch) = St 523" "uri_cases 256 (schar ch) = St 257" "uri_cases 257 (schar ch) = St 255"
    "uri_cases 243 (schar ch) = St 244" "uri_cases 244 (schar ch) = St 513" "uri_cases 7 (schar ch) = St 8"
    "uri_cases 8 (schar ch) = St 457" "uri_cases 1 (schar ch) = St 2" "uri_cases 2 (schar ch) = St 454"
  using assms unfolding xdigit_def Let_def by (elim disjE; simp add: uri_states)+

lemma reads_authority: "reads_in (uri_machine str) reg_char authority_states 253 254 520"
  using authority_ends(1) jumps_in_D [OF authority_step] hex_states(1,2)
  by (auto simp: reads_in_def) (simp_all add: authority_states_def)

lemma reads_host: "reads_in (uri_machine str) reg_char host_states 258 259 523"
  using host_ends(1) jumps_in_D [OF host_step] hex_states(3,4)
  by (auto simp: reads_in_def) (simp_all add: host_states_def)

fun enters :: "int list \<Rightarrow> jump \<Rightarrow> bool" where
  "enters A (St m) \<longleftrightarrow> False"
| "enters A (Tr k) \<longleftrightarrow> fst (uri_trs k) = [Markh] \<and> snd (uri_trs k) \<in> set A"

lemma enters_if: "enters A (if P then a else b) \<longleftrightarrow> (P \<longrightarrow> enters A a) \<and> (\<not> P \<longrightarrow> enters A b)"
  by simp

lemma enters_D: "enters A j \<Longrightarrow> \<exists>k m. j = Tr k \<and> uri_trs k = ([Markh], m) \<and> m \<in> set A"
  by (cases j) (auto simp: prod_eq_iff)

lemma authority_first: "reg_char ch \<Longrightarrow> enters authority_states (uri_cases 511 (schar ch))"
  unfolding reg_char_def Let_def
  by (elim disjE; simp add: uri_states enters_if; simp add: uri_trs_eqs authority_states_def)

lemma host_first: "reg_char ch \<Longrightarrow> enters host_states (uri_cases 522 (schar ch))"
  unfolding reg_char_def Let_def
  by (elim disjE; simp add: uri_states enters_if; simp add: uri_trs_eqs host_states_def)

section \<open>The parts of a text\<close>

lemma feed_authority:
  assumes "encoded reg_char xs" "xs \<noteq> []"
  shows "\<exists>m\<in>set authority_states. feed (uri_machine str) 511 p xs (Inr (u, mk)) = Some (m, Inr (u, Some p))"
  using feed_in_entry [OF reads_authority assms, where n = 511 and acts = "[Markh]" and k' = 549 and p = p and s = "Inr (u, mk)"] enters_D [OF authority_first]
  by (simp add: uri_trs_eqs uri_states)

lemma feed_host:
  assumes "encoded reg_char xs" "xs \<noteq> []"
  shows "\<exists>m\<in>set host_states. feed (uri_machine str) 522 p xs (Inr (u, mk)) = Some (m, Inr (u, Some p))"
  using feed_in_entry [OF reads_host assms, where n = 522 and acts = "[Markh]" and k' = 579 and p = p and s = "Inr (u, mk)"] enters_D [OF host_first]
  by (simp add: uri_trs_eqs uri_states)

lemma feed_scheme:
  assumes "alpha_char c" "list_all scheme_char s"
  shows "feed (uri_machine str) 451 0 ((c # s) @ ''://'') (Inr (u, mk)) =
    Some (511, Inr (u\<lparr>m_scheme := text_of str 0 (length (c # s))\<rparr>, None))"
proof -
  have c: "uri_cases 451 (schar c) = Tr 461" using assms(1) unfolding alpha_char_def Let_def by (elim disjE; simp add: uri_states)
  have "uri_cases 508 (schar ch) = St 508" if "scheme_char ch" for ch
    using that unfolding scheme_char_def alpha_char_def Let_def by (elim disjE; simp add: uri_states)
  then have "feed (uri_machine str) 508 (Suc 0) s (Inr (u, Some 0)) = Some (508, Inr (u, Some 0))"
    using assms(2) by (intro feed_loop) (simp_all add: list_all_iff)
  from feed_append [OF this, of "''://''"] show ?thesis using c by (simp add: uri_trs_eqs uri_states schar_def)
qed

definition password_char :: "char \<Rightarrow> bool" where
  "password_char ch \<longleftrightarrow> reg_char ch \<or> schar ch = 58"

text \<open>A user name, with a password that does not start with a digit.\<close>

definition user_text :: "string \<Rightarrow> bool" where
  "user_text s \<longleftrightarrow> (let name = takeWhile (\<lambda>c. c \<noteq> CHR '':'') s; rest = drop (length name) s in
     name \<noteq> [] \<and> encoded reg_char name \<and>
     (rest = [] \<or> encoded password_char (tl rest) \<and> (tl rest = [] \<or> \<not> is_digit (hd (tl rest)))))"

lemma reads_password: "reads_encoded (uri_machine str) password_char 255 256 257"
proof -
  have "uri_cases 255 (schar ch) = St 255" if "password_char ch" for ch
    using that unfolding password_char_def reg_char_def Let_def by (elim disjE; simp add: uri_states)
  then show ?thesis using hex_states(5,6) by (simp add: reads_encoded_def) (simp add: uri_states)
qed

lemma feed_password:
  assumes "encoded password_char r" "r = [] \<or> \<not> is_digit (hd r)"
  shows "feed (uri_machine str) 521 p (r @ ''@'') (Inr (u, Some m)) = Some (522, Inr (u\<lparr>m_userinfo := text_of str m (p + length r)\<rparr>, None))"
proof (cases r)
  case Nil
  then show ?thesis by (simp add: uri_states uri_trs_eqs schar_def)
next
  case (Cons x xs)
  note f = feed_encoded [OF reads_password, of _ str]
  have "feed (uri_machine str) 521 p r (Inr (u, Some m)) = Some (255, Inr (u, Some m))"
  proof (cases "x = CHR ''%''")
    case True
    then obtain d e ys where "xs = d # e # ys" "xdigit d" "xdigit e" "encoded password_char ys"
      using assms(1) Cons by (auto split: list.splits)
    moreover have "uri_cases 521 37 = St 256" by (simp add: uri_states)
    ultimately show ?thesis using Cons True f hex_states(5,6) by simp
  next
    case False
    then have x: "password_char x" "encoded password_char xs" "\<not> (48 \<le> schar x \<and> schar x \<le> 57)"
      using assms Cons by (auto simp: is_digit_schar)
    then have "uri_cases 521 (schar x) = St 255"
      unfolding password_char_def reg_char_def Let_def by (elim disjE; simp add: uri_states)
    then show ?thesis using Cons f x by simp
  qed
  from feed_append [OF this, of "''@''"] show ?thesis by (simp add: uri_states uri_trs_eqs schar_def)
qed

lemma feed_user:
  assumes "user_text s"
  shows "\<exists>h. feed (uri_machine str) 511 p (s @ ''@'') (Inr (u, mk)) =
    Some (522, Inr (u\<lparr>m_host := h, m_userinfo := text_of str p (p + length s)\<rparr>, None))"
proof -
  define name where "name = takeWhile (\<lambda>c. c \<noteq> CHR '':'') s"
  define rest where "rest = drop (length name) s"
  have s: "s = name @ rest" by (simp add: rest_def name_def flip: dropWhile_eq_drop)
  have n: "encoded reg_char name" "name \<noteq> []" using assms by (simp_all add: user_text_def Let_def name_def)
  have r: "rest = [] \<or> encoded password_char (tl rest) \<and> (tl rest = [] \<or> \<not> is_digit (hd (tl rest)))"
    using assms by (simp add: user_text_def Let_def rest_def name_def)
  from feed_authority [OF n, of str p u mk] obtain m where m: "m \<in> set authority_states"
    "feed (uri_machine str) 511 p name (Inr (u, mk)) = Some (m, Inr (u, Some p))" by blast
  show ?thesis
  proof (cases rest)
    case Nil
    show ?thesis
      by (rule exI [of _ "m_host u"]) (use feed_append [OF m(2), of "''@''"] authority_ends(4) [OF m(1)] Nil s in \<open>simp add: uri_trs_eqs schar_def\<close>)
  next
    case (Cons x r')
    have "rest = dropWhile (\<lambda>c. c \<noteq> CHR '':'') s" by (simp add: rest_def name_def dropWhile_eq_drop)
    then have "x = CHR '':''" using Cons hd_dropWhile [of "\<lambda>c. c \<noteq> CHR '':''" s] by (metis list.distinct(1) list.sel(1))
    moreover have "feed (uri_machine str) m (p + length name) ('':'' @ r' @ ''@'') (Inr (u, Some p)) =
        Some (522, Inr (u\<lparr>m_host := text_of str p (p + length name), m_userinfo := text_of str p (p + length s)\<rparr>, None))"
      using feed_password [of r' str "Suc (p + length name)" "u\<lparr>m_host := text_of str p (p + length name)\<rparr>" p] r Cons s authority_ends(3) [OF m(1)]
      by (simp add: uri_trs_eqs schar_def add.assoc)
    ultimately show ?thesis using feed_append [OF m(2), of "'':'' @ r' @ ''@''"] s Cons by auto
  qed
qed

text \<open>From the host to the slash of the path.\<close>

lemma port_states:
  assumes "is_digit ch"
  shows "uri_cases 514 (schar ch) = Tr 568" "uri_cases 515 (schar ch) = St 515" "uri_cases 521 (schar ch) = Tr 577"
    "uri_cases 542 (schar ch) = St 542"
  using assms unfolding is_digit_schar by (simp_all add: uri_states)

lemma feed_port:
  assumes "n = 514 \<or> n = 521" "ds \<noteq> []" "list_all is_digit ds"
  shows "feed (uri_machine str) n p (ds @ ''/'') (Inr (u, mk)) =
    Some (513, Inr (u\<lparr>m_port := atoi (drop p str)\<rparr>, Some (p + length ds)))"
proof -
  obtain d ds' where ds: "ds = d # ds'" "is_digit d" "list_all is_digit ds'" using assms by (cases ds) auto
  have l: "feed (uri_machine str) e (Suc p) ds' (Inr (u, Some p)) = Some (e, Inr (u, Some p))" if "e = 515 \<or> e = 542" for e
    using that ds(3) port_states(2,4) by (intro feed_loop) (auto simp: list_all_iff)
  have e: "feed (uri_machine str) e (Suc p) (ds' @ ''/'') (Inr (u, Some p)) =
      Some (513, Inr (u\<lparr>m_port := atoi (drop p str)\<rparr>, Some (p + length ds)))" if "e = 515 \<or> e = 542" for e
    using feed_append [OF l [OF that], of "''/''"] that ds(1) by (elim disjE) (simp_all add: uri_trs_eqs uri_states schar_def)
  from assms(1) show ?thesis
    by (elim disjE; use ds e port_states(1,3) in \<open>simp add: uri_trs_eqs\<close>)
qed

lemma feed_host_port:
  assumes h: "encoded reg_char host" "host \<noteq> []" and n: "n = 511 \<or> n = 522"
    and d: "ds = [] \<or> (\<exists>ds'. ds = CHR '':'' # ds' \<and> ds' \<noteq> [] \<and> list_all is_digit ds')"
  shows "feed (uri_machine str) n p (host @ ds @ ''/'') (Inr (u, mk)) =
    Some (513, Inr (u\<lparr>m_host := text_of str p (p + length host),
      m_port := if ds = [] then m_port u else atoi (drop (p + length host + 1) str)\<rparr>, Some (p + length host + length ds)))"
proof -
  obtain m c where m: "feed (uri_machine str) n p host (Inr (u, mk)) = Some (m, Inr (u, Some p))" "uri_cases m 47 = Tr 560"
      "uri_cases m 58 = Tr c" "uri_trs c = ([Save_host], 514) \<or> uri_trs c = ([Save_host], 521)"
    using feed_authority [OF h, of str p u mk] feed_host [OF h, of str p u mk] authority_ends host_ends n uri_trs_eqs(17,22) by metis
  have "feed (uri_machine str) m (p + length host) (ds @ ''/'') (Inr (u, Some p)) =
    Some (513, Inr (u\<lparr>m_host := text_of str p (p + length host),
      m_port := if ds = [] then m_port u else atoi (drop (p + length host + 1) str)\<rparr>, Some (p + length host + length ds)))"
    using d m(2-) feed_port [of _ _ str "Suc (p + length host)"] by (auto simp: uri_trs_eqs schar_def)
  from feed_append [OF m(1) this] show ?thesis by simp
qed

text \<open>The path behind its slash, the query and the fragment, and the end of the text.\<close>

lemma reads_uri_path: "reads_encoded (uri_machine str) uri_path_char 513 243 244"
proof -
  have "uri_cases 513 (schar ch) = St 513" if "uri_path_char ch" for ch
    using that unfolding uri_path_char_def reg_char_def Let_def by (elim disjE; simp add: uri_states)
  then show ?thesis using hex_states(7,8) by (simp add: reads_encoded_def) (simp add: uri_states)
qed

lemma query_first:
  assumes "uri_query_char ch"
  shows "uri_cases 456 (schar ch) = Tr 466" "uri_cases 453 (schar ch) = Tr 462" "uri_cases 457 (schar ch) = St 457"
    "uri_cases 454 (schar ch) = St 454"
  using assms unfolding uri_query_char_def uri_path_char_def reg_char_def Let_def by (elim disjE; simp add: uri_states)+

lemma reads_uri_query: "reads_encoded (uri_machine str) uri_query_char 457 7 8"
  using query_first hex_states(9,10) by (simp add: reads_encoded_def) (simp add: uri_states)

lemma reads_uri_fragment: "reads_encoded (uri_machine str) uri_query_char 454 1 2"
  using query_first hex_states(11,12) by (simp add: reads_encoded_def) (simp add: uri_states)

lemma feed_uri_query:
  assumes "encoded uri_query_char q" "q \<noteq> []"
  shows "feed (uri_machine str) 456 p q (Inr (u, mk)) = Some (457, Inr (u, Some p))"
  using feed_entry [OF reads_uri_query assms, where n = 456 and k = 466 and k' = 468 and acts = "[Marku]" and p = p and s = "Inr (u, mk)"] query_first
  by (simp add: uri_trs_eqs) (simp add: uri_states)

lemma feed_uri_fragment:
  assumes "encoded uri_query_char f" "f \<noteq> []"
  shows "feed (uri_machine str) 453 p f (Inr (u, mk)) = Some (454, Inr (u, Some p))"
  using feed_entry [OF reads_uri_fragment assms, where n = 453 and k = 462 and k' = 463 and acts = "[Marku]" and p = p and s = "Inr (u, mk)"] query_first
  by (simp add: uri_trs_eqs) (simp add: uri_states)

definition tail_of :: "string \<Rightarrow> string \<Rightarrow> string" where
  "tail_of q f = (if q = [] then [] else ''?'' @ q) @ (if f = [] then [] else ''#'' @ f)"

lemma uri_ends:
  "uri_cases 513 63 = Tr 565" "uri_cases 513 35 = Tr 563" "uri_cases 457 35 = Tr 469"
  "uri_eof 513 = [Save_path]" "uri_eof 457 = [Save_query]" "uri_eof 454 = [Save_fragment]"
  by (simp_all add: uri_states uri_eof_def uri_eof_table_def)

definition finishes :: "string \<Rightarrow> int \<Rightarrow> nat \<Rightarrow> string \<Rightarrow> uri_scan \<Rightarrow> uri \<Rightarrow> bool" where
  "finishes str n p xs s u \<longleftrightarrow> (\<exists>cs s'. feed (uri_machine str) n p xs s = Some (cs, s') \<and> 451 \<le> cs \<and>
     (\<exists>mk. foldl (\<lambda>s a. uri_act str (p + length xs) a s) s' (uri_eof cs) = Inr (u, mk)))"

lemma finishes_append:
  "feed (uri_machine str) n p xs s = Some (cs, s') \<Longrightarrow> finishes str cs (p + length xs) ys s' u \<Longrightarrow> finishes str n p (xs @ ys) s u"
  unfolding finishes_def using feed_append [of "uri_machine str" n p xs s cs s' ys] by (metis add.assoc length_append)

lemma text_of_eq: "drop p str = a @ b \<Longrightarrow> text_of str p (p + length a) = a"
  by (simp add: text_of_def)

lemma drop_further: "drop p str = a @ b \<Longrightarrow> drop (p + length a) str = b"
  by (metis add.commute append_eq_conv_conj drop_drop)

lemma finishes_fragment:
  assumes "encoded uri_query_char f" "f \<noteq> []" "drop p str = f"
  shows "finishes str 453 p f (Inr (u, mk)) (u\<lparr>m_fragment := f\<rparr>)"
  using feed_uri_fragment [OF assms(1,2), of str p u mk] text_of_eq [of p str f "[]"] assms(3) by (auto simp: finishes_def uri_ends)

lemma finishes_query:
  assumes q: "encoded uri_query_char q" "q \<noteq> []" and f: "encoded uri_query_char f" and u: "m_fragment u = []"
    and str: "drop p str = q @ tail_of [] f"
  shows "finishes str 456 p (q @ tail_of [] f) (Inr (u, mk)) (u\<lparr>m_query := q, m_fragment := f\<rparr>)"
proof (rule finishes_append [OF feed_uri_query [OF q]])
  note t = text_of_eq [OF str]
  show "finishes str 457 (p + length q) (tail_of [] f) (Inr (u, Some p)) (u\<lparr>m_query := q, m_fragment := f\<rparr>)"
  proof (cases "f = []")
    case True
    have "u\<lparr>m_query := q\<rparr> = u\<lparr>m_query := q, m_fragment := []\<rparr>" using u by simp
    then show ?thesis using True t by (simp add: finishes_def tail_of_def uri_ends)
  next
    case False
    have "feed (uri_machine str) 457 (p + length q) ''#'' (Inr (u, Some p)) = Some (453, Inr (u\<lparr>m_query := q\<rparr>, None))"
      using t by (simp add: uri_ends uri_trs_eqs schar_def)
    moreover have "drop (p + length q + length ''#'') str = f"
      using drop_further [OF str] False by (intro drop_further [of _ str "''#''"]) (simp add: tail_of_def)
    from finishes_fragment [OF f False this] have "finishes str 453 (p + length q + length ''#'') f (Inr (u\<lparr>m_query := q\<rparr>, None)) (u\<lparr>m_query := q, m_fragment := f\<rparr>)"
      by simp
    ultimately show ?thesis using finishes_append False by (fastforce simp: tail_of_def)
  qed
qed

lemma finishes_path:
  assumes x: "encoded uri_path_char xs" and q: "encoded uri_query_char q" and f: "encoded uri_query_char f"
    and u: "m_query u = []" "m_fragment u = []" and str: "drop p str = xs @ tail_of q f"
  shows "finishes str 513 p (xs @ tail_of q f) (Inr (u, Some m)) (u\<lparr>m_path := text_of str m (p + length xs), m_query := q, m_fragment := f\<rparr>)"
proof (rule finishes_append [OF feed_encoded [OF reads_uri_path x]])
  let ?p = "p + length xs" and ?u = "u\<lparr>m_path := text_of str m (p + length xs)\<rparr>"
  note d = drop_further [OF str]
  have s: "feed (uri_machine str) 513 ?p ''?'' (Inr (u, Some m)) = Some (456, Inr (?u, None))"
    "feed (uri_machine str) 513 ?p ''#'' (Inr (u, Some m)) = Some (453, Inr (?u, None))"
    by (simp_all add: uri_ends uri_trs_eqs schar_def)
  show "finishes str 513 ?p (tail_of q f) (Inr (u, Some m)) (u\<lparr>m_path := text_of str m ?p, m_query := q, m_fragment := f\<rparr>)"
  proof (cases "q = []")
    case True
    show ?thesis
    proof (cases "f = []")
      case True
      then show ?thesis using \<open>q = []\<close> u by (simp add: finishes_def tail_of_def uri_ends)
    next
      case False
      have "drop (?p + length ''#'') str = f" using d True False by (intro drop_further [of _ str "''#''"]) (simp add: tail_of_def)
      moreover have "?u\<lparr>m_fragment := f\<rparr> = ?u\<lparr>m_query := [], m_fragment := f\<rparr>" using u by (cases u) simp
      ultimately show ?thesis using finishes_append [OF s(2) finishes_fragment [OF f False]] True False by (simp add: tail_of_def)
    qed
  next
    case False
    have "drop (?p + length ''?'') str = q @ tail_of [] f" using d False by (intro drop_further [of _ str "''?''"]) (simp add: tail_of_def)
    from finishes_append [OF s(1) finishes_query [OF q False f _ this]] show ?thesis using False u by (simp add: tail_of_def)
  qed
qed


lemma finishes_create:
  assumes "finishes str 451 0 str (Inr (Uri_new, None)) u"
  shows "Uri_Create str = Inr (Some u)"
proof -
  obtain cs s mk where f: "feed (uri_machine str) 451 0 str (Inr (Uri_new, None)) = Some (cs, s)" "451 \<le> cs"
    "foldl (\<lambda>s a. uri_act str (length str) a s) s (uri_eof cs) = Inr (u, mk)" using assms by (auto simp: finishes_def)
  have "ragel_scan (uri_machine str) 451 0 str (Inr (Uri_new, None)) = (length str, cs, s)"
    using ragel_scan_feed [OF f(1), of "[]"] by simp
  then show ?thesis using f(2,3) by (simp add: Uri_Create_def uri_parser_start_def uri_parser_error_def uri_parser_first_final_def)
qed

text \<open>The URIs whose text the grammar describes, with a name as host.\<close>

definition uri_good :: "uri \<Rightarrow> bool" where
  "uri_good u \<longleftrightarrow> (case m_scheme u of [] \<Rightarrow> False | c # s \<Rightarrow> alpha_char c \<and> list_all scheme_char s) \<and>
     (m_userinfo u = [] \<or> user_text (m_userinfo u)) \<and> m_host u \<noteq> [] \<and> encoded reg_char (m_host u) \<and> 0 \<le> m_port u \<and>
     (m_path u = [] \<or> hd (m_path u) = CHR ''/'' \<and> encoded uri_path_char (tl (m_path u))) \<and>
     encoded uri_query_char (m_query u) \<and> encoded uri_query_char (m_fragment u)"

text \<open>The authority as \<open>Uri::dump\<close> writes it.\<close>

definition user_part :: "uri \<Rightarrow> string" where
  "user_part u = (if m_userinfo u = [] then [] else m_userinfo u @ ''@'')"

definition port_part :: "uri \<Rightarrow> string" where
  "port_part u = (if isDefaultPort u then [] else '':'' @ show_int (m_port u))"

definition shown_port :: "uri \<Rightarrow> int" where
  "shown_port u = (if isDefaultPort u then 0 else m_port u)"

lemma port_part_read:
  assumes "0 \<le> m_port u" and str: "drop p str = port_part u @ ''/'' @ rest"
  shows "port_part u = [] \<or> (\<exists>ds. port_part u = CHR '':'' # ds \<and> ds \<noteq> [] \<and> list_all is_digit ds)"
    and "(if port_part u = [] then 0 else atoi (drop (p + 1) str)) = shown_port u"
proof -
  have s: "show_int (m_port u) = show_dec (nat (m_port u))" using assms(1) by (simp add: show_int_def)
  have a: "atoi (show_dec (nat (m_port u)) @ ''/'' @ rest) = int (nat (m_port u))" by (rule atoi_show) (simp add: is_digit_def)
  have "drop (p + 1) str = show_int (m_port u) @ ''/'' @ rest" if "\<not> isDefaultPort u"
    using drop_further [of p str "'':''"] str that by (simp add: port_part_def)
  then show "(if port_part u = [] then 0 else atoi (drop (p + 1) str)) = shown_port u"
    using s a assms(1) by (auto simp: port_part_def shown_port_def)
  show "port_part u = [] \<or> (\<exists>ds. port_part u = CHR '':'' # ds \<and> ds \<noteq> [] \<and> list_all is_digit ds)"
    using s show_dec_nonempty show_dec_digits by (auto simp: port_part_def)
qed

lemma feed_user_part:
  assumes "uri_good u" "m_userinfo v = []" "drop p str = user_part u @ rest"
  shows "\<exists>n h. feed (uri_machine str) 511 p (user_part u) (Inr (v, None)) = Some (n, Inr (v\<lparr>m_host := h, m_userinfo := m_userinfo u\<rparr>, None)) \<and>
    (n = 511 \<or> n = 522)"
proof (cases "m_userinfo u = []")
  case True
  have "v = v\<lparr>m_host := m_host v, m_userinfo := []\<rparr>" using assms(2) by (cases v) simp
  then show ?thesis using True by (intro exI [of _ 511] exI [of _ "m_host v"]) (simp add: user_part_def)
next
  case False
  then have "user_text (m_userinfo u)" using assms by (simp add: uri_good_def)
  from feed_user [OF this, of str p v None] text_of_eq [of p str "m_userinfo u"] assms(3) False show ?thesis
    by (auto simp: user_part_def)
qed

lemma feed_authority_part:
  assumes ok: "uri_good u" and v: "m_userinfo v = []" "m_port v = 0"
    and str: "drop p str = (user_part u @ m_host u @ port_part u @ ''/'') @ rest"
  shows "feed (uri_machine str) 511 p (user_part u @ m_host u @ port_part u @ ''/'') (Inr (v, None)) =
    Some (513, Inr (v\<lparr>m_userinfo := m_userinfo u, m_host := m_host u, m_port := shown_port u\<rparr>,
      Some (p + length (user_part u @ m_host u @ port_part u))))"
proof -
  let ?p = "p + length (user_part u)"
  obtain n h where 1: "feed (uri_machine str) 511 p (user_part u) (Inr (v, None)) = Some (n, Inr (v\<lparr>m_host := h, m_userinfo := m_userinfo u\<rparr>, None))"
    "n = 511 \<or> n = 522" using feed_user_part [OF ok v(1), of p str] str by auto
  have d: "drop ?p str = m_host u @ port_part u @ ''/'' @ rest" using drop_further [of p str "user_part u"] str by simp
  have h: "encoded reg_char (m_host u)" "m_host u \<noteq> []" "0 \<le> m_port u" using ok by (simp_all add: uri_good_def)
  note ds = port_part_read [OF h(3) drop_further [OF d]]
  let ?v = "v\<lparr>m_host := h, m_userinfo := m_userinfo u\<rparr>"
  have port: "(if port_part u = [] then m_port ?v else atoi (drop (?p + length (m_host u) + 1) str)) = shown_port u"
    using ds(2) v(2) by (simp split: if_splits)
  have "feed (uri_machine str) n ?p (m_host u @ port_part u @ ''/'') (Inr (v\<lparr>m_host := h, m_userinfo := m_userinfo u\<rparr>, None)) =
    Some (513, Inr (v\<lparr>m_userinfo := m_userinfo u, m_host := m_host u, m_port := shown_port u\<rparr>, Some (p + length (user_part u @ m_host u @ port_part u))))"
    using feed_host_port [OF h(1,2) 1(2) ds(1), of str ?p ?v None] unfolding port text_of_eq [OF d] by (simp add: add.assoc)
  then show ?thesis by (rule feed_append [OF 1(1)])
qed

lemma Create_toString:
  assumes "uri_good u"
  shows "Uri_Create (Uri_toString u) = Inr (Some (u\<lparr>m_path := Uri_getPath u, m_port := shown_port u\<rparr>))"
proof -
  let ?str = "Uri_toString u" and ?tail = "tail_of (m_query u) (m_fragment u)" and ?auth = "user_part u @ m_host u @ port_part u"
  obtain c s where sch: "m_scheme u = c # s" "alpha_char c" "list_all scheme_char s"
    using assms by (auto simp: uri_good_def split: list.splits)
  obtain path where path: "Uri_getPath u = CHR ''/'' # path" "encoded uri_path_char path"
    using assms by (cases "m_path u") (auto simp: uri_good_def Uri_getPath_def)
  have str: "?str = ((c # s) @ ''://'') @ (?auth @ ''/'') @ path @ ?tail"
    by (simp add: Uri_toString_def Uri_dump_def sch path tail_of_def user_part_def port_part_def)
  let ?p1 = "0 + length ((c # s) @ ''://'')" and ?u1 = "Uri_new\<lparr>m_scheme := m_scheme u\<rparr>"
  let ?p2 = "?p1 + length ?auth"
  have d1: "drop ?p1 ?str = (?auth @ ''/'') @ path @ ?tail" unfolding str by simp
  have d2: "drop ?p2 ?str = (''/'' @ path) @ ?tail" using drop_further [of ?p1 ?str ?auth] d1 by simp
  have "text_of ?str 0 (length (c # s)) = m_scheme u" using text_of_eq [of 0 ?str "c # s"] sch str by simp
  then have 1: "feed (uri_machine ?str) 451 0 ((c # s) @ ''://'') (Inr (Uri_new, None)) = Some (511, Inr (?u1, None))"
    using feed_scheme [OF sch(2,3), of ?str Uri_new None] by simp
  let ?u2 = "?u1\<lparr>m_userinfo := m_userinfo u, m_host := m_host u, m_port := shown_port u\<rparr>"
  have 2: "feed (uri_machine ?str) 511 ?p1 (?auth @ ''/'') (Inr (?u1, None)) = Some (513, Inr (?u2, Some ?p2))"
    using feed_authority_part [OF assms, of ?u1 ?p1 ?str "path @ ?tail"] d1 by (simp add: Uri_new_def)
  let ?u3 = "?u2\<lparr>m_path := Uri_getPath u, m_query := m_query u, m_fragment := m_fragment u\<rparr>"
  have d3: "drop (?p1 + length (?auth @ ''/'')) ?str = path @ ?tail" by (rule drop_further [OF d1])
  have 3: "finishes ?str 513 (?p1 + length (?auth @ ''/'')) (path @ ?tail) (Inr (?u2, Some ?p2)) ?u3"
    using finishes_path [OF path(2) _ _ _ _ d3, of ?u2 ?p2] text_of_eq [OF d2] assms path(1) by (simp add: uri_good_def Uri_new_def add.assoc)
  have "finishes ?str 451 0 ?str (Inr (Uri_new, None)) ?u3"
    using finishes_append [OF 1 finishes_append [OF 2 3]] str by metis
  from finishes_create [OF this] show ?thesis by (simp add: Uri_new_def)
qed

section \<open>Properties\<close>

text \<open>C8. \<open>Uri::Create\<close> reads back what \<open>Uri::toString\<close> writes: the result is the URI itself, with the path that is shown for
  an empty one and without a port that is the default of the scheme.\<close>

theorem uri_created_from_text:
  assumes "uri_good u"
  shows "Uri_Create (Uri_toString u) = Inr (Some (u\<lparr>m_path := Uri_getPath u, m_port := if isDefaultPort u then 0 else m_port u\<rparr>))"
  using Create_toString [OF assms] by (simp add: shown_port_def)

text \<open>A URI with a user, a port, a query and a fragment.\<close>

definition sample_uri :: uri where
  "sample_uri = \<lparr>m_scheme = ''http'', m_userinfo = ''me:pw'', m_host = ''10.0.0.1'', m_path = ''/a%20b'', m_query = ''x=1'', m_fragment = ''top'', m_port = 8080\<rparr>"

theorem uri_created_from_text_witness:
  "Uri_toString sample_uri = ''http://me:pw@10.0.0.1:8080/a%20b?x=1#top'' \<and> Uri_Create (Uri_toString sample_uri) = Inr (Some sample_uri)"
proof
  show "Uri_toString sample_uri = ''http://me:pw@10.0.0.1:8080/a%20b?x=1#top''"
    by (simp add: Uri_toString_def Uri_dump_def sample_uri_def isDefaultPort_def Uri_getPath_def show_int_def show_dec_def show_base.simps digit_char_def)
  have "uri_good sample_uri"
    by (simp add: uri_good_def sample_uri_def user_text_def Let_def alpha_char_def scheme_char_def uri_query_char_def uri_path_char_def
        password_char_def reg_char_def is_digit_def xdigit_def schar_def)
  from uri_created_from_text [OF this] show "Uri_Create (Uri_toString sample_uri) = Inr (Some sample_uri)"
    by (simp add: sample_uri_def Uri_getPath_def isDefaultPort_def)
qed

section \<open>Texts that are not read as meant\<close>

lemmas uri_eval = Uri_Create_def uri_parser_start_def uri_parser_error_def uri_parser_first_final_def uri_eof_def uri_eof_table_def
  Uri_new_def text_of_def schar_def uri_states uri_transitions

text \<open>With a colon and no port, \<open>save_port\<close> clears \<open>mark\<close> and \<open>save_path\<close> builds a string from it.\<close>

theorem empty_port_throws:
  "Uri_Create ''http://h:'' = Inl Null_string" "Uri_Create ''http://h:/a'' = Inl Null_string" "Uri_Create ''http://h:?q'' = Inl Null_string"
  by (simp_all add: uri_eval)

text \<open>The path of a relative reference is not stored.\<close>

theorem relative_path_lost:
  "Uri_Create ''/a/b?q'' = Inr (Some (Uri_new\<lparr>m_query := ''q''\<rparr>))" "Uri_Create ''//h/a'' = Inr (Some (Uri_new\<lparr>m_host := ''h''\<rparr>))"
  by (simp_all add: uri_eval)

text \<open>A password that starts with a digit is first taken for a port, which moves \<open>mark\<close>.\<close>

theorem digit_password_loses_user:
  "Uri_Create ''http://u:1@h/'' = Inr (Some (Uri_new\<lparr>m_scheme := ''http'', m_userinfo := ''1'', m_host := ''h'', m_path := ''/''\<rparr>))"
  by (simp add: uri_eval)

text \<open>In \<open>dec_octet\<close> the grammar has the number 2 where it means the character.\<close>

theorem octet_is_control_byte:
  "Uri_Create ([CHR ''h'', CHR '':'', CHR ''/'', CHR ''/'', CHR 0x02] @ ''01.1.1.1/'') =
     Inr (Some (Uri_new\<lparr>m_scheme := ''h'', m_host := CHR 0x02 # ''01.1.1.1'', m_path := ''/''\<rparr>))"
  "Uri_Create ''h://[::201.1.1.1]/'' = Inr None"
  by (simp_all add: uri_eval)

end
