(* ===== verification/Address_Spec.thy ===== *)
theory Address_Spec
  imports Address
begin

text \<open>
  What the operations on addresses compute: \<open>CountBytes\<close> counts the set bits, the IPv4 masks cut and fill the
  host part of the address, an IPv6 address is printed with its first run of zeros shortened, addresses are
  ordered by their bytes, and the host of a lookup is split at its port.
\<close>

section \<open>Counting bits\<close>

lemma bits_double: "{i. bit (2 * m :: nat) i} = Suc ` {i. bit m i}"
  by (auto simp: bit_double_iff image_iff) (metis Suc_pred gr0I)+

lemma bits_Suc_double: "{i. bit (Suc (2 * m)) i} = insert 0 (Suc ` {i. bit m i})"
proof -
  have "bit (Suc (2 * m)) i \<longleftrightarrow> i = 0 \<or> (\<exists>j. i = Suc j \<and> bit m j)" for i
    by (cases i) (simp_all add: bit_0 bit_Suc)
  then show ?thesis by auto
qed

lemma finite_bits [simp]: "finite {i. bit (n :: nat) i}"
  by (induction n rule: nat_bit_induct) (simp_all add: bits_double bits_Suc_double)

lemma and_pred_double: "0 < m \<Longrightarrow> 2 * m AND (2 * m - 1) = 2 * (m AND (m - 1 :: nat))"
  by (rule bit_eqI) (auto simp: bit_simps bit_double_iff gr0_conv_Suc bit_Suc bit_0 split: nat.split)

lemma and_pred_Suc_double: "Suc (2 * m) AND 2 * m = 2 * m"
proof (rule bit_eqI)
  show "bit (Suc (2 * m) AND 2 * m) i \<longleftrightarrow> bit (2 * m) i" for i
    unfolding bit_and_iff by (cases i) (simp_all add: bit_0 bit_Suc)
qed

lemma card_bits_pred:
  "0 < n \<Longrightarrow> card {i. bit n i} = Suc (card {i. bit (n AND (n - 1)) i})" for n :: nat
proof (induction n rule: nat_bit_induct)
  case (even n)
  then show ?case by (simp add: and_pred_double [simplified] bits_double card_image)
next
  case (odd n)
  have "Suc (2 * n) AND (Suc (2 * n) - 1) = 2 * n" using and_pred_Suc_double by simp
  then show ?case by (simp add: bits_double bits_Suc_double card_image)
qed simp

lemma card_bits_word:
  fixes v :: "'a::len word"
  assumes "v \<noteq> 0"
  shows "card {i. bit v i} = Suc (card {i. bit (v AND (v - 1)) i})"
proof -
  have "{i. bit w i} = {i. bit (unat w) i}" for w :: "'a word"
    by (auto simp: bit_unsigned_iff dest: bit_imp_le_length)
  moreover have "unat (v AND (v - 1)) = unat v AND (unat v - 1)"
    using assms by (simp add: unsigned_and_eq unat_minus_one)
  moreover have "0 < unat v" using assms by (simp add: unat_gt_0)
  ultimately show ?thesis using card_bits_pred by simp
qed

lemma count_bits_card:
  fixes v :: "'a::len word"
  shows "count_bits r v = r + of_nat (card {i. bit v i})"
proof (induction r v rule: count_bits.induct)
  case (1 r v)
  then show ?case
    by (subst count_bits.simps) (simp add: card_bits_word bot_set_def [symmetric])
qed

lemma CountBytes_card: "CountBytes v = of_nat (card {i. bit v i})"
  by (simp add: CountBytes_def count_bits_card)

section \<open>Byte swapping bit by bit\<close>

definition swap_index :: "nat \<Rightarrow> nat \<Rightarrow> nat" where
  "swap_index bytes n = 8 * (bytes - Suc (n div 8)) + n mod 8"

lemma swap_index_less: "n < 8 * k \<Longrightarrow> swap_index k n < 8 * k"
  unfolding swap_index_def by linarith

lemma swap_index_involution: "n < 8 * k \<Longrightarrow> swap_index k (swap_index k n) = n"
  unfolding swap_index_def by (simp add: div_less_iff_less_mult) 

lemma bit_byteswap:
  fixes w :: "'a::len word"
  assumes "LENGTH('a) = 8 * k"
  shows "bit (byteswap w) n \<longleftrightarrow> n < 8 * k \<and> bit w (swap_index k n)"
proof (cases "n < 8 * k")
  case True
  then have n: "n div 8 < k" by (simp add: div_less_iff_less_mult mult.commute)
  have "rev (le_bytes w) ! (n div 8) = ucast (drop_bit (8 * (k - Suc (n div 8))) w)"
    using assms n by (simp add: rev_nth) (simp add: le_bytes_def)
  then show ?thesis using assms True n
    by (simp add: byteswap_def bit_of_le_bytes bit_simps swap_index_def)
qed (use assms in \<open>auto simp: byteswap_def bit_of_le_bytes\<close>)


lemma byteswap_bitwise:
  fixes v w :: "'a::len word"
  assumes "8 dvd LENGTH('a)"
  shows "byteswap (v AND w) = byteswap v AND byteswap w"
    and "byteswap (v OR w) = byteswap v OR byteswap w"
    and "byteswap (NOT v) = NOT (byteswap v)"
proof -
  obtain k where k: "LENGTH('a) = 8 * k" using assms by blast
  note * = bit_byteswap [OF k] bit_simps k swap_index_less
  show "byteswap (v AND w) = byteswap v AND byteswap w"
    and "byteswap (v OR w) = byteswap v OR byteswap w"
    and "byteswap (NOT v) = NOT (byteswap v)"
    by (rule bit_word_eqI, auto simp: *)+
qed

lemma card_bits_byteswap:
  fixes w :: "'a::len word"
  assumes "8 dvd LENGTH('a)"
  shows "card {i. bit (byteswap w) i} = card {i. bit w i}"
proof -
  obtain k where k: "LENGTH('a) = 8 * k" using assms by blast
  have "bij_betw (swap_index k) {i. bit (byteswap w) i} {i. bit w i}"
  proof (rule bij_betwI')
    show "swap_index k i = swap_index k j \<longleftrightarrow> i = j"
      if "i \<in> {i. bit (byteswap w) i}" and "j \<in> {i. bit (byteswap w) i}" for i j
      using that by (auto simp: bit_byteswap [OF k]) (metis swap_index_involution)
    show "\<exists>i\<in>{i. bit (byteswap w) i}. j = swap_index k i" if "j \<in> {i. bit w i}" for j
    proof (rule bexI [of _ "swap_index k j"])
      have "j < 8 * k" using that k by (auto dest: bit_imp_le_length)
      then show "j = swap_index k (swap_index k j)" and "swap_index k j \<in> {i. bit (byteswap w) i}"
        using that by (simp_all add: bit_byteswap [OF k] swap_index_involution swap_index_less)
    qed
  qed (simp add: bit_byteswap [OF k])
  then show ?thesis by (rule bij_betw_same_card)
qed

text \<open>The same for the swap that depends on the host.\<close>

lemma bswap_host:
  fixes v w :: "'a::len word"
  assumes "8 dvd LENGTH('a)"
  shows "byteswapOnLittleEndian host (byteswapOnLittleEndian host v) = v"
    and "byteswapOnLittleEndian host (v AND w) = byteswapOnLittleEndian host v AND byteswapOnLittleEndian host w"
    and "byteswapOnLittleEndian host (v OR w) = byteswapOnLittleEndian host v OR byteswapOnLittleEndian host w"
    and "byteswapOnLittleEndian host (NOT v) = NOT (byteswapOnLittleEndian host v)"
    and "card {i. bit (byteswapOnLittleEndian host v) i} = card {i. bit v i}"
  using assms
  by (cases host; simp add: byteswapOnLittleEndian_def byteswap_byteswap byteswap_bitwise card_bits_byteswap)+

section \<open>IPv4 masks\<close>

lemma CreateMask32_mask:
  assumes "2 \<le> prefix_len" and "prefix_len \<le> 32"
  shows "CreateMask32 prefix_len = Some (mask (32 - unat prefix_len))"
proof -
  have le: "2 \<le> unat prefix_len" "unat prefix_len \<le> 32"
    using assms by (simp_all add: word_le_nat_alt)
  have "unat (32 - prefix_len) = 32 - unat prefix_len"
    using assms by (simp add: unat_sub)
  then show ?thesis using le
    by (simp add: CreateMask32_def Let_def mask_eq_exp_minus_1 push_bit_eq_mult)
qed

lemma unat_clear_low: "unat (a AND NOT (mask s)) = unat a div 2 ^ s * 2 ^ s" for a :: "'a::len word"
proof -
  have eq: "a AND NOT (mask s) = push_bit s (drop_bit s a)"
    by (rule bit_word_eqI) (auto simp: bit_simps)
  have "unat a div 2 ^ s * 2 ^ s \<le> unat a" by (metis div_times_less_eq_dividend)
  moreover have "unat a < 2 ^ LENGTH('a)" by (rule unsigned_less)
  ultimately have "unat a div 2 ^ s * 2 ^ s < 2 ^ LENGTH('a)" by linarith
  then show ?thesis
    unfolding eq unsigned_push_bit_eq unsigned_drop_bit_eq
    unfolding push_bit_eq_mult drop_bit_eq_div
    by (simp add: take_bit_nat_eq_self)
qed

lemma unat_fill_low:
  fixes a :: "'a::len word"
  assumes "s \<le> LENGTH('a)"
  shows "unat (a OR mask s) = unat a div 2 ^ s * 2 ^ s + (2 ^ s - 1)"
proof -
  have "unat (a OR mask s) = push_bit s (drop_bit s (unat a)) OR mask s"
    using assms by (intro bit_eqI) (auto simp: bit_simps dest: bit_imp_le_length)
  also have "\<dots> = push_bit s (drop_bit s (unat a)) + mask s"
    by (rule disjunctive_add_eq_or [symmetric]) (auto simp: bit_eq_iff bit_simps)
  finally show ?thesis by (simp add: push_bit_eq_mult drop_bit_eq_div mask_eq_exp_minus_1)
qed

lemma unat_not_mask: "s \<le> 32 \<Longrightarrow> unat (NOT (mask s :: u32)) = 2 ^ 32 - 2 ^ s"
proof -
  assume "s \<le> 32"
  then have m: "unat (mask s :: u32) = 2 ^ s - 1" using unat_fill_low [of s "0 :: u32"] by simp
  have "unat (NOT (mask s :: u32)) = unat (- 1 :: u32) - unat (mask s :: u32)"
    by (simp only: not_eq_complement minus_diff_commute) (simp add: unat_sub)
  moreover have "unat (- 1 :: u32) = 2 ^ 32 - 1" by (simp add: unsigned_minus_1_eq_mask mask_eq_exp_minus_1)
  ultimately show ?thesis by (simp add: m)
qed

text \<open>The address in host order.\<close>

abbreviation ip_host :: "endian \<Rightarrow> sockaddr_in \<Rightarrow> nat" where
  "ip_host host a \<equiv> unat (byteswapOnLittleEndian host (sin_addr a))"

lemmas bswap32 = bswap_host [where 'a = 32, simplified]

text \<open>For a prefix of 2 to 32 bits, \<open>networkAddress\<close> clears the bits of the address behind the prefix,
  \<open>broadcastAddress\<close> sets them and \<open>subnetMask\<close> has ones in the prefix only, as numbers in host order on either
  kind of host; the port and family stay. The prefix length is recovered from the mask by \<open>CountBytes\<close>. For the
  prefix 0 the mask shifts by the width of an \<open>int\<close>, which is undefined.\<close>

theorem ipv4_subnets:
  assumes "2 \<le> prefix_len" and "prefix_len \<le> 32"
  shows "\<exists>net bc m.
    IPv4_networkAddress host a prefix_len = Some (Some net) \<and>
    IPv4_broadcastAddress host a prefix_len = Some (Some bc) \<and>
    IPv4_subnetMask host prefix_len = Some m \<and>
    (let block = 2 ^ (32 - unat prefix_len) in
       ip_host host net = ip_host host a div block * block \<and>
       ip_host host bc = ip_host host net + (block - 1) \<and>
       ip_host host m = 2 ^ 32 - block \<and>
       CountBytes (sin_addr m) = prefix_len \<and>
       (sin_port net, sin_family net) = (sin_port a, sin_family a) \<and>
       (sin_port bc, sin_family bc) = (sin_port a, sin_family a)) \<and>
    IPv4_networkAddress host a 0 = None"
proof -
  define s where "s = 32 - unat prefix_len"
  define M where "M = byteswapOnLittleEndian host (mask s :: u32)"
  have le: "2 \<le> unat prefix_len" "unat prefix_len \<le> 32" "s \<le> 32"
    using assms by (simp_all add: word_le_nat_alt s_def)
  have cm: "CreateMask32 prefix_len = Some (mask s)" using assms by (simp add: CreateMask32_mask s_def)
  have p: "\<not> 32 < prefix_len" using assms by simp
  have "{i. bit (NOT (mask s :: u32)) i} = {s..<32}" by (auto simp: bit_simps)
  then have "card {i. bit (NOT M) i} = unat prefix_len"
    using bswap32(5) [of host "NOT (mask s :: u32)"] le by (simp add: M_def bswap32 s_def)
  then have count: "CountBytes (NOT M) = prefix_len" by (simp add: CountBytes_card)
  have "unat (NOT (mask s :: u32)) = 2 ^ 32 - 2 ^ s" using le by (simp only: unat_not_mask)
  moreover have "CreateMask32 0 = None" by (simp add: CreateMask32_def)
  ultimately show ?thesis
    unfolding IPv4_networkAddress_def IPv4_broadcastAddress_def IPv4_subnetMask_def cm if_not_P [OF p]
    using count le 
    by (simp add: bswap32 unat_clear_low unat_fill_low M_def flip: s_def)
qed


theorem ipv4_subnets_witness:
  "\<exists>net bc m.
    IPv4_networkAddress Little (IPv4Address Little 0xC0A80117 80) 24 = Some (Some net) \<and>
    IPv4_broadcastAddress Little (IPv4Address Little 0xC0A80117 80) 24 = Some (Some bc) \<and>
    IPv4_subnetMask Little 24 = Some m \<and>
    ip_host Little net = 0xC0A80100 \<and> ip_host Little bc = 0xC0A801FF \<and> ip_host Little m = 0xFFFFFF00 \<and>
    CountBytes (sin_addr m) = 24"
proof -
  have "ip_host Little (IPv4Address Little 0xC0A80117 80) = 0xC0A80117"
    by (simp add: IPv4Address_def bswap32)
  then show ?thesis
    using ipv4_subnets [of 24 Little "IPv4Address Little 0xC0A80117 80"] by (auto simp: Let_def)
qed

section \<open>The text of an IPv6 address\<close>

text \<open>The shortest text of the eight groups with the first run of zeros written as two colons.\<close>

fun colons :: "nat list \<Rightarrow> string" where
  "colons [] = []"
| "colons [x] = show_hex x"
| "colons (x # y # r) = show_hex x @ '':'' @ colons (y # r)"

definition ipv6_text :: "nat list \<Rightarrow> string" where
  "ipv6_text hs =
     (let rest = dropWhile (\<lambda>h. h \<noteq> 0) hs in
      if rest = [] then colons hs
      else colons (takeWhile (\<lambda>h. h \<noteq> 0) hs) @ ''::'' @ colons (dropWhile (\<lambda>h. h = 0) rest))"

abbreviation hgroup :: "endian \<Rightarrow> u16 \<Rightarrow> nat" where
  "hgroup host g \<equiv> unat (byteswapOnLittleEndian host g)"

lemma bswap_0 [simp]: "byteswapOnLittleEndian host (0 :: u16) = 0"
  by (cases host) (simp_all add: byteswapOnLittleEndian_def byteswap_def le_bytes_def numeral_2_eq_2)

lemma hgroup_eq_0 [simp]: "hgroup host g = 0 \<longleftrightarrow> g = 0"
proof
  assume "hgroup host g = 0"
  then have "byteswapOnLittleEndian host g = 0" by (simp add: unsigned_eq_0_iff)
  then have "byteswapOnLittleEndian host (byteswapOnLittleEndian host g) = 0" by simp
  then show "g = 0" by (simp add: bswap_host)
qed simp

abbreviation each_colon :: "endian \<Rightarrow> u16 list \<Rightarrow> string" where
  "each_colon host gs \<equiv> concat (map (\<lambda>g. '':'' @ show_hex (hgroup host g)) gs)"

lemma colons_Cons: "colons (hgroup host g # map (hgroup host) gs) = show_hex (hgroup host g) @ each_colon host gs"
  by (induction gs arbitrary: g) simp_all

lemma insert_groups_used: "insert_groups host (Some g) True gs = (each_colon host gs, True)"
  by (induction gs arbitrary: g) simp_all

lemma insert_groups_zero:
  "insert_groups host (Some 0) False gs =
     (let post = dropWhile (\<lambda>g. g = 0) gs in
      if post = [] then ([], False) else (''::'' @ colons (map (hgroup host) post), True))"
  by (induction gs) (simp_all add: insert_groups_used colons_Cons)

lemma insert_groups_start:
  assumes "prev \<noteq> Some 0"
  shows "insert_groups host prev False gs =
     (let nz = map (hgroup host) (takeWhile (\<lambda>g. g \<noteq> 0) gs);
          post = dropWhile (\<lambda>g. g = 0) (dropWhile (\<lambda>g. g \<noteq> 0) gs)
      in ((if prev \<noteq> None \<and> nz \<noteq> [] then '':'' else []) @ colons nz
          @ (if post = [] then [] else ''::'' @ colons (map (hgroup host) post)), post \<noteq> []))"
  using assms
proof (induction gs arbitrary: prev)
  case (Cons g gs)
  show ?case
  proof (cases "g = 0")
    case True
    then show ?thesis by (simp add: insert_groups_zero Let_def)
  next
    case False
    then have "Some g \<noteq> Some 0" by simp
    note IH = Cons.IH [OF this]
    have "colons (hgroup host g # map (hgroup host) (takeWhile (\<lambda>g. g \<noteq> 0) gs)) = show_hex (hgroup host g) @
        (if map (hgroup host) (takeWhile (\<lambda>g. g \<noteq> 0) gs) \<noteq> [] then '':'' else [])
        @ colons (map (hgroup host) (takeWhile (\<lambda>g. g \<noteq> 0) gs))"
      by (cases "map (hgroup host) (takeWhile (\<lambda>g. g \<noteq> 0) gs)") simp_all
    then show ?thesis using False Cons.prems by (simp add: IH Let_def)
  qed
qed simp

text \<open>C39. \<open>IPv6Address::insert\<close> prints the eight groups in host order, in hexadecimal and separated by colons,
  with exactly the first run of zero groups written as two colons wherever it lies, and the port in decimal.\<close>

theorem ipv6_printed:
  "IPv6_insert host a = ''['' @ ipv6_text (map (hgroup host) (groups host (sin6_addr a))) @ '']:'' @
    show_dec (unat (IPv6_getPort host a))"
proof -
  define gs where "gs = groups host (sin6_addr a)"
  have "length gs = 8" by (simp add: gs_def groups_def)
  then have "gs \<noteq> []" by auto
  then have last: "gs ! 7 = last gs" using \<open>length gs = 8\<close> by (simp add: last_conv_nth)
  define nz rest post where "nz = takeWhile (\<lambda>g. g \<noteq> 0) gs" and "rest = dropWhile (\<lambda>g. g \<noteq> 0) gs"
    and "post = dropWhile (\<lambda>g. g = 0) rest"
  have maps: "takeWhile (\<lambda>h. h \<noteq> 0) (map (hgroup host) gs) = map (hgroup host) nz"
    "dropWhile (\<lambda>h. h \<noteq> 0) (map (hgroup host) gs) = map (hgroup host) rest"
    "dropWhile (\<lambda>h. h = 0) (map (hgroup host) rest) = map (hgroup host) post"
    by (simp_all only: nz_def rest_def post_def takeWhile_map dropWhile_map comp_def hgroup_eq_0)
  have "gs = nz @ rest" by (simp add: nz_def rest_def)
  have "last gs \<noteq> 0" if "rest = []"
    using that \<open>gs \<noteq> []\<close> by (auto simp: rest_def)
  moreover have "last gs = 0" if "rest \<noteq> []" "post = []"
    using that \<open>gs = nz @ rest\<close> by (auto simp: post_def)
  moreover have "nz = gs" if "rest = []" using that \<open>gs = nz @ rest\<close> by simp
  moreover have "rest \<noteq> []" if "post \<noteq> []" using that by (auto simp: post_def)
  moreover have "insert_groups host None False gs = (colons (map (hgroup host) nz)
      @ (if post = [] then [] else ''::'' @ colons (map (hgroup host) post)), post \<noteq> [])"
    unfolding nz_def post_def rest_def
    by (subst insert_groups_start) (simp_all only: Let_def append_Nil if_False simp_thms option.distinct)
  moreover have "ipv6_text (map (hgroup host) gs) = (if rest = [] then colons (map (hgroup host) gs)
      else colons (map (hgroup host) nz) @ ''::'' @ colons (map (hgroup host) post))"
    unfolding ipv6_text_def maps Let_def by (simp only: maps map_is_Nil_conv)
  ultimately show ?thesis
    unfolding IPv6_insert_def gs_def [symmetric] IPv6_getPort_def Let_def last
    by (cases "rest = []"; cases "post = []") simp_all
qed

section \<open>Ports\<close>

lemma swapped_small_port: "ucast (byteswap (ucast p :: u32)) = (0 :: u16)" for p :: u16
proof (rule bit_word_eqI)
  fix n assume "n < LENGTH(16)"
  then have "n div 8 \<le> 1" by simp
  then have "16 \<le> 8 * (3 - n div 8)" by arith
  then have "16 \<le> swap_index 4 n" by (simp add: swap_index_def trans_le_add1)
  then show "bit (ucast (byteswap (ucast p :: u32)) :: u16) n \<longleftrightarrow> bit (0 :: u16) n"
    using bit_imp_le_length [of p "swap_index 4 n"] by (auto simp: bit_simps bit_byteswap [where k = 4])
qed

text \<open>The port is read back from an IPv4 address and from one that \<open>setPort\<close> changed. The constructor and
  \<open>Create\<close> of IPv6 addresses take a 32-bit port and swap all four bytes before the upper half is cut off: on a
  little-endian host every port below 65536 becomes 0.\<close>

theorem ipv6_port_lost:
  "IPv4_getPort host (IPv4Address host ip p) = p \<and>
   map_option (IPv4_getPort host) (IPv4_Create host (Some pton) p) = Some p \<and>
   IPv4_getPort host (IPv4_setPort host x p) = p \<and>
   IPv6_getPort host (IPv6_setPort host y p) = p \<and>
   IPv6_getPort Little (IPv6Address Little bs (ucast p)) = 0 \<and>
   map_option (IPv6_getPort Little) (IPv6_Create Little (Some bs) (ucast p)) = Some 0"
proof -
  have "byteswapOnLittleEndian Little (ucast p :: u32) = byteswap (ucast p)"
    by (simp add: byteswapOnLittleEndian_def)
  then show ?thesis
    by (simp add: IPv4_getPort_def IPv4Address_def IPv4_Create_def IPv4_setPort_def IPv6_getPort_def IPv6_setPort_def
        IPv6Address_def IPv6_Create_def bswap_host swapped_small_port)
qed

section \<open>IPv6 masks\<close>

text \<open>Bit \<open>i\<close> of an address, counted from the front.\<close>

definition ip6_bit :: "byte list \<Rightarrow> nat \<Rightarrow> bool" where
  "ip6_bit bs i = bit (bs ! (i div 8)) (7 - i mod 8)"

lemma CreateMask8_mask: "CreateMask8 (p mod 8) = Some (mask (8 - unat p mod 8))"
proof -
  have m: "unat (p mod 8) = unat p mod 8" by (simp add: unat_mod)
  then have "p mod 8 \<le> 8" by (simp add: word_le_nat_alt)
  then have s: "unat (8 - p mod 8) = 8 - unat p mod 8" by (simp add: unat_sub m)
  have "(ucast (push_bit n 1 - 1 :: u32) :: byte) = mask n" if "n \<le> 8" for n
  proof -
    have "push_bit n 1 - 1 = (mask n :: u32)" by (simp add: mask_eq_exp_minus_1 push_bit_eq_mult)
    then show ?thesis by (simp only:) (rule bit_word_eqI, auto simp: bit_simps)
  qed
  moreover have "8 - unat p mod 8 < (31 :: nat)" by simp
  ultimately show ?thesis by (simp add: CreateMask8_def Let_def s)
qed


lemma ip6_bits_of_append:
  assumes "length bs = 16" "k < 16" "i < 128"
  shows "ip6_bit (take k bs @ [b] @ replicate (16 - (k + 1)) c) i =
    (if i div 8 < k then ip6_bit bs i else if i div 8 = k then bit b (7 - i mod 8) else bit c (7 - i mod 8))"
proof -
  have "i div 8 < 16" using assms by (simp add: div_less_iff_less_mult)
  then show ?thesis using assms by (auto simp: ip6_bit_def nth_append nth_Cons')
qed

lemma index_split: "i < p \<longleftrightarrow> i div 8 < p div 8 \<or> i div 8 = p div 8 \<and> i mod 8 < p mod 8" for i p :: nat
proof -
  have "i = 8 * (i div 8) + i mod 8" "p = 8 * (p div 8) + p mod 8" by simp_all
  moreover have "i mod 8 < 8" "p mod 8 < 8" by simp_all
  ultimately show ?thesis by linarith
qed

lemma mask_byte_bit: "bit (mask (8 - q mod 8) :: byte) (7 - j mod 8) \<longleftrightarrow> q mod 8 \<le> j mod 8"
proof -
  have "j mod 8 < 8" "q mod 8 < 8" by simp_all
  then show ?thesis by (auto simp: bit_simps)
qed

text \<open>Counting bits from the front, for a prefix shorter than 128: \<open>broadcastAddress\<close> sets exactly the bits
  behind the prefix and \<open>subnetMask\<close> has ones exactly in the prefix, but \<open>networkAddress\<close> keeps all of them except
  the prefix bits in the byte the prefix ends in, which it clears. With the prefix 128 all three index outside the
  address.\<close>

theorem ipv6_masks:
  assumes "length (sin6_addr a) = 16" and "prefix_len < 128"
  shows "\<exists>bc m net.
    IPv6_broadcastAddress a prefix_len = Some bc \<and> IPv6_subnetMask prefix_len = Some m \<and>
    IPv6_networkAddress a prefix_len = Some net \<and>
    (\<forall>i<128. ip6_bit (sin6_addr bc) i = (ip6_bit (sin6_addr a) i \<or> unat prefix_len \<le> i)) \<and>
    (\<forall>i<128. ip6_bit (sin6_addr m) i = (i < unat prefix_len)) \<and>
    (\<forall>i<128. ip6_bit (sin6_addr net) i =
       (ip6_bit (sin6_addr a) i \<and> \<not> (i < unat prefix_len \<and> i div 8 = unat prefix_len div 8))) \<and>
    IPv6_broadcastAddress a 128 = None \<and> IPv6_subnetMask 128 = None \<and> IPv6_networkAddress a 128 = None"
proof -
  define k where "k = unat prefix_len div 8"
  define b where "b = (mask (8 - unat prefix_len mod 8) :: byte)"
  have "unat prefix_len < 128" using assms(2) by (simp add: word_less_nat_alt)
  then have k: "k < 16" by (simp add: k_def div_less_iff_less_mult)
  define bs where "bs = sin6_addr a"
  define ff where "ff = (0xff :: byte)"
  note app = ip6_bits_of_append [where k = k, OF _ k]
  have 128: "unat (128 :: u32) div 8 = 16" by simp
  have m: "CreateMask8 (prefix_len mod 8) = Some b" by (simp add: CreateMask8_mask b_def)
  have lens: "length bs = 16" "k < length bs" using assms(1) k by (simp_all add: bs_def)
  have bc: "IPv6_broadcastAddress a prefix_len
      = Some (a\<lparr>sin6_addr := take k bs @ [bs ! k OR b] @ replicate (16 - (k + 1)) ff\<rparr>)"
    using lens m by (simp add: IPv6_broadcastAddress_def Let_def ff_def k_def bs_def)
  have sm: "IPv6_subnetMask prefix_len
      = Some (IPv6Address0\<lparr>sin6_addr := replicate k ff @ [NOT b] @ replicate (16 - (k + 1)) 0\<rparr>)"
    using k m by (simp add: IPv6_subnetMask_def Let_def ff_def k_def)
  have nw: "IPv6_networkAddress a prefix_len = Some (a\<lparr>sin6_addr := bs[k := bs ! k AND b]\<rparr>)"
    using lens m by (simp add: IPv6_networkAddress_def Let_def k_def bs_def)
  have none: "IPv6_broadcastAddress a 128 = None" "IPv6_subnetMask 128 = None" "IPv6_networkAddress a 128 = None"
    using assms(1) by (simp_all add: IPv6_broadcastAddress_def IPv6_subnetMask_def IPv6_networkAddress_def)
  have ones: "take k (replicate 16 ff) = replicate k ff" using k by simp
  have bits: "bit b (7 - i mod 8) \<longleftrightarrow> unat prefix_len mod 8 \<le> i mod 8" for i
    by (simp add: b_def mask_byte_bit)
  have full: "bit ff (7 - i mod 8)" for i
    using mask_byte_bit [of 0 i] by (simp add: ff_def mask_eq_exp_minus_1)
  have "ip6_bit (take k bs @ [bs ! k OR b] @ replicate (16 - (k + 1)) ff) i \<longleftrightarrow> ip6_bit bs i \<or> unat prefix_len \<le> i"
    if "i < 128" for i
    using app [where bs = bs and b = "bs ! k OR b" and c = ff, OF lens(1) that] index_split [of i "unat prefix_len"]
    by (auto simp: bit_or_iff bits full ip6_bit_def not_less simp flip: k_def)
  moreover have "ip6_bit (replicate k ff @ [NOT b] @ replicate (16 - (k + 1)) 0) i \<longleftrightarrow> i < unat prefix_len"
    if "i < 128" for i
  proof -
    have "bit (NOT b) (7 - i mod 8) \<longleftrightarrow> i mod 8 < unat prefix_len mod 8"
      using bits [of i] by (auto simp: bit_not_iff)
    moreover have "ip6_bit (replicate 16 ff) i"
      using that full [of i] by (simp add: ip6_bit_def div_less_iff_less_mult)
    ultimately show ?thesis
      using app [where bs = "replicate 16 ff" and b = "NOT b" and c = 0, OF length_replicate that, unfolded ones]
        index_split [of i "unat prefix_len"] by (simp flip: k_def)
  qed
  moreover have "ip6_bit (bs[k := bs ! k AND b]) i \<longleftrightarrow> ip6_bit bs i \<and> \<not> (i < unat prefix_len \<and> i div 8 = k)"
    if "i < 128" for i
    using index_split [of i "unat prefix_len"] lens
    by (auto simp: ip6_bit_def nth_list_update bit_and_iff bits not_less simp flip: k_def)
  ultimately show ?thesis
    unfolding bc sm nw by (simp add: none flip: k_def bs_def)
qed


theorem ipv6_masks_witness:
  "\<exists>net. IPv6_networkAddress IPv6Address0 20 = Some net \<and> \<not> ip6_bit (sin6_addr net) 17"
proof -
  have "length (sin6_addr IPv6Address0) = 16" and "(20 :: u32) < 128" by (simp_all add: IPv6Address0_def)
  from ipv6_masks [OF this] show ?thesis by fastforce
qed


section \<open>The order of addresses\<close>

lemma byte_diff_same_length:
  "length xs = length ys \<Longrightarrow> (byte_diff xs ys = 0 \<longleftrightarrow> xs = ys) \<and> (byte_diff xs ys < 0 \<longleftrightarrow> bytes_less xs ys)"
  by (induction xs ys rule: list_induct2) auto

lemma bytes_less_prefix:
  "bytes_less xs ys \<longleftrightarrow>
     (let n = min (length xs) (length ys) in
      if take n xs = take n ys then length xs < length ys else bytes_less (take n xs) (take n ys))"
  by (induction xs ys rule: bytes_less.induct) (auto simp: Let_def)

text \<open>The bytes two addresses are compared by.\<close>

definition addr_key :: "endian \<Rightarrow> address \<Rightarrow> nat list" where
  "addr_key host a = map unat (take (getAddrLen a) (addr_bytes host a))"

lemma length_addr_key: "addr_ok a \<Longrightarrow> length (addr_key host a) = getAddrLen a"
  by (cases a) (auto simp: addr_ok_def addr_key_def addr_bytes_def getAddrLen_def)

lemma take_addr_key:
  "n \<le> getAddrLen a \<Longrightarrow> take n (addr_key host a) = map unat (take n (addr_bytes host a))"
  by (simp add: addr_key_def take_map min_absorb1)

lemma address_less_key:
  assumes "addr_ok a" and "addr_ok b"
  shows "address_less host a b \<longleftrightarrow> bytes_less (addr_key host a) (addr_key host b)"
proof -
  define n where "n = min (getAddrLen a) (getAddrLen b)"
  have *: "memcmp (addr_bytes host a) (addr_bytes host b) n = byte_diff (take n (addr_key host a)) (take n (addr_key host b))"
    by (simp add: memcmp_def take_addr_key n_def)
  have "length (take n (addr_key host a)) = length (take n (addr_key host b))"
    using assms by (simp add: length_addr_key n_def)
  from byte_diff_same_length [OF this] show ?thesis
    unfolding address_less_def Let_def n_def [symmetric] *
    by (subst bytes_less_prefix) (simp add: assms length_addr_key Let_def flip: n_def)
qed

lemma address_eq_key:
  assumes "addr_ok a" and "addr_ok b"
  shows "address_eq host a b \<longleftrightarrow> addr_key host a = addr_key host b"
proof (cases "getAddrLen a = getAddrLen b")
  case True
  have "memcmp (addr_bytes host a) (addr_bytes host b) (getAddrLen a) = byte_diff (addr_key host a) (addr_key host b)"
    unfolding memcmp_def addr_key_def True ..
  then show ?thesis
    using True byte_diff_same_length [of "addr_key host a" "addr_key host b"]
    by (simp add: address_eq_def length_addr_key assms)
next
  case False
  then have "addr_key host a \<noteq> addr_key host b" by (metis assms length_addr_key)
  with False show ?thesis by (simp add: address_eq_def)
qed

lemma address_order:
  assumes "addr_ok a" and "addr_ok b" and "addr_ok c"
  shows "\<not> address_less host a a" and "address_less host a b \<Longrightarrow> address_less host b c \<Longrightarrow> address_less host a c"
    and "address_eq host a b \<longleftrightarrow> \<not> address_less host a b \<and> \<not> address_less host b a"
  using assms bytes_less_trans [of "addr_key host a" "addr_key host b" "addr_key host c"]
    bytes_less_total [of "addr_key host a" "addr_key host b"]
  by (auto simp: address_less_key address_eq_key)

section \<open>Host and service\<close>

lemma memchr_None: "memchr s c = None \<longleftrightarrow> c \<notin> set s"
  by (induction s) auto

lemma memchr_first: "c \<notin> set s \<Longrightarrow> memchr (s @ c # t) c = Some (length s)"
  by (induction s) auto

lemma split_host_cases:
  assumes "CHR '':'' \<notin> set node" and "node \<noteq> []" and "hd node \<noteq> CHR ''[''"
    and "CHR '':'' \<notin> set service" and "CHR '']'' \<notin> set ip6" and "ip6 \<noteq> []"
  shows "split_host node = (node, None)"
    and "split_host (node @ '':'' @ service) = (node, Some service)"
    and "split_host (''['' @ ip6 @ '']'') = (ip6, None)"
    and "split_host (''['' @ ip6 @ '']:'' @ any) = (ip6, Some any)"
    and "split_host (node @ '':'' @ service @ '':'' @ any)
      = (node @ '':'' @ service @ '':'' @ any, Some ('':'' @ service @ '':'' @ any))"
proof -
  have no: "memchr node (CHR '':'') = None" "memchr service (CHR '':'') = None" using assms by (simp_all add: memchr_None)
  show "split_host node = (node, None)"
    using assms no by (simp add: split_host_def)
  show "split_host (node @ '':'' @ service) = (node, Some service)"
    using assms no by (simp add: split_host_def memchr_first)
  show "split_host (''['' @ ip6 @ '']'') = (ip6, None)"
    using assms memchr_first [of "CHR '']''" ip6 "[]"] by (simp add: split_host_def)
  show "split_host (''['' @ ip6 @ '']:'' @ any) = (ip6, Some any)"
    using assms memchr_first [of "CHR '']''" ip6 "CHR '':'' # any"]
    by (simp add: split_host_def numeral_3_eq_3)
  show "split_host (node @ '':'' @ service @ '':'' @ any)
      = (node @ '':'' @ service @ '':'' @ any, Some ('':'' @ service @ '':'' @ any))"
    using assms memchr_first [of "CHR '':''" node "service @ CHR '':'' # any"] memchr_None [of "service @ CHR '':'' # any"]
    by (simp add: split_host_def)
qed

text \<open>\<open>Lookup\<close> asks the resolver for the host itself when it has no colon, for the parts before and after the
  colon when there is one, and for the text inside the brackets with the service behind them; a bare IPv6 address
  is asked for whole, but with a service that starts at its first colon.\<close>

theorem lookup_host_split:
  assumes "CHR '':'' \<notin> set node" and "node \<noteq> []" and "hd node \<noteq> CHR ''[''"
    and "CHR '':'' \<notin> set service" and "CHR '']'' \<notin> set ip6" and "ip6 \<noteq> []"
  shows "split_host node = (node, None) \<and>
    split_host (node @ '':'' @ service) = (node, Some service) \<and>
    split_host (''['' @ ip6 @ '']'') = (ip6, None) \<and>
    split_host (''['' @ ip6 @ '']:'' @ any) = (ip6, Some any) \<and>
    split_host (node @ '':'' @ service @ '':'' @ any)
      = (node @ '':'' @ service @ '':'' @ any, Some ('':'' @ service @ '':'' @ any))"
  by (simp only: split_host_cases [OF assms] simp_thms)

theorem lookup_host_split_witness:
  "split_host ''localhost:http'' = (''localhost'', Some ''http'') \<and>
   split_host ''[::1]:80'' = (''::1'', Some ''80'') \<and> split_host ''fe80::1'' = (''fe80::1'', Some ''::1'')"
  using lookup_host_split [of "''localhost''" "''http''" "''::1''" "''80''"]
    lookup_host_split [of "''fe80''" "[]" "''::1''" "''1''"] by simp

section \<open>Local addresses\<close>

text \<open>A path of at most 107 characters without a NUL, and an abstract name of at most 107 characters behind a
  NUL, are printed as they were given, the latter behind a backslash and a zero; the length counts the family, the
  path and the closing NUL of a path. A longer one is refused.\<close>

theorem unix_printed:
  assumes "CHR 0x00 \<notin> set path" and "path \<noteq> []"
  shows "(if length path \<le> 107
      then map_option Unix_insert (UnixAddress path) = Some path \<and>
        map_option sun_length (UnixAddress path) = Some (2 + length path + 1)
      else UnixAddress path = None) \<and>
    (if length name \<le> 107
      then map_option Unix_insert (UnixAddress (CHR 0x00 # name)) = Some ([CHR 0x5C, CHR ''0''] @ name) \<and>
        map_option sun_length (UnixAddress (CHR 0x00 # name)) = Some (2 + 1 + length name)
      else UnixAddress (CHR 0x00 # name) = None)"
proof -
  have h: "hd path \<noteq> CHR 0x00" using assms by (cases path) auto
  have "cstr (path @ CHR 0x00 # rest) = path" for rest using assms by (simp add: cstr_def takeWhile_append)
  moreover have "hd (path @ rest) \<noteq> CHR 0x00" for rest using assms h by simp
  ultimately show ?thesis
    using assms h by (auto simp: UnixAddress_def Unix_insert_def Let_def list_write_def)
qed

theorem unix_printed_witness:
  "map_option Unix_insert (UnixAddress ''/tmp/a.sock'') = Some ''/tmp/a.sock'' \<and>
   map_option Unix_insert (UnixAddress (CHR 0x00 # ''b'')) = Some ([CHR 0x5C, CHR ''0''] @ ''b'')"
  using unix_printed [of "''/tmp/a.sock''" "''b''"] by simp

end
