(* ===== verification/Log_Format.thy ===== *)
theory Log_Format
  imports C_String
begin

text \<open>
  The log levels, the events and the formatter of \<open>include/log.h\<close> and \<open>src/log.cpp\<close>: a pattern is parsed into
  items, and an event is printed item by item. The formatting of a time by \<open>localtime_r\<close> and \<open>strftime\<close> is the
  argument \<open>strftime\<close>.
\<close>

section \<open>Levels\<close>

datatype level = UNKNOWN | DEBUG | INFO | WARN | ERROR | FATAL

fun level_code :: "level \<Rightarrow> nat" where
  "level_code UNKNOWN = 0"
| "level_code DEBUG = 1"
| "level_code INFO = 2"
| "level_code WARN = 3"
| "level_code ERROR = 4"
| "level_code FATAL = 5"

instantiation level :: linorder
begin

definition less_eq_level :: "level \<Rightarrow> level \<Rightarrow> bool" where
  "less_eq_level a b \<longleftrightarrow> level_code a \<le> level_code b"

definition less_level :: "level \<Rightarrow> level \<Rightarrow> bool" where
  "less_level a b \<longleftrightarrow> level_code a < level_code b"

instance
proof
  fix a b :: level
  show "a = b" if "a \<le> b" and "b \<le> a"
    using that by (cases a; cases b) (simp_all add: less_eq_level_def)
qed (auto simp: less_eq_level_def less_level_def)

end

definition Level_ToString :: "level \<Rightarrow> string" where
  "Level_ToString level = (case level of
     DEBUG \<Rightarrow> ''DEBUG'' | INFO \<Rightarrow> ''INFO'' | WARN \<Rightarrow> ''WARN'' | ERROR \<Rightarrow> ''ERROR'' | FATAL \<Rightarrow> ''FATAL''
   | UNKNOWN \<Rightarrow> ''UNKNOWN'')"

definition Level_FromString :: "string \<Rightarrow> level" where
  "Level_FromString str =
     (if str = ''debug'' then DEBUG
      else if str = ''info'' then INFO
      else if str = ''warn'' then WARN
      else if str = ''error'' then ERROR
      else if str = ''fatal'' then FATAL
      else if str = ''DEBUG'' then DEBUG
      else if str = ''INFO'' then INFO
      else if str = ''WARN'' then WARN
      else if str = ''ERROR'' then ERROR
      else if str = ''FATAL'' then FATAL
      else UNKNOWN)"

section \<open>Events\<close>

text \<open>\<open>le_logger\<close> is the name of the logger the event belongs to.\<close>

record log_event =
  le_logger :: string
  le_level :: level
  le_file :: string
  le_line :: "32 word"
  le_elapse :: u32
  le_threadId :: u32
  le_threadName :: string
  le_fiberId :: u32
  le_time :: u64
  le_content :: string

text \<open>\<open>LogEvent::format\<close> with the text \<open>vasprintf\<close> makes, \<open>None\<close> when it fails.\<close>

definition event_format :: "log_event \<Rightarrow> string option \<Rightarrow> log_event" where
  "event_format e printed = (case printed of None \<Rightarrow> e | Some s \<Rightarrow> e\<lparr>le_content := le_content e @ s\<rparr>)"

section \<open>Items\<close>

datatype format_item =
    MessageItem
  | LevelItem
  | ElapseItem
  | NameItem
  | ThreadIdItem
  | ThreadNameItem
  | NewLineItem
  | DateTimeItem string
  | FilenameItem
  | LineItem
  | TabItem
  | FiberIdItem
  | StringItem string

definition DateTimeFormatItem :: "string \<Rightarrow> format_item" where
  "DateTimeFormatItem format = DateTimeItem (if format = [] then ''%Y-%m-%d %H:%M:%S'' else format)"

definition item_format :: "(string \<Rightarrow> u64 \<Rightarrow> string) \<Rightarrow> level \<Rightarrow> log_event \<Rightarrow> format_item \<Rightarrow> string" where
  "item_format strftime level e item = (case item of
     MessageItem \<Rightarrow> le_content e
   | LevelItem \<Rightarrow> Level_ToString level
   | ElapseItem \<Rightarrow> show_dec (unat (le_elapse e))
   | NameItem \<Rightarrow> le_logger e
   | ThreadIdItem \<Rightarrow> show_dec (unat (le_threadId e))
   | ThreadNameItem \<Rightarrow> le_threadName e
   | NewLineItem \<Rightarrow> [CHR 0x0A]
   | DateTimeItem format \<Rightarrow> strftime (cstr format) (le_time e)
   | FilenameItem \<Rightarrow> le_file e
   | LineItem \<Rightarrow> show_int (sint (le_line e))
   | TabItem \<Rightarrow> [CHR 0x09]
   | FiberIdItem \<Rightarrow> show_dec (unat (le_fiberId e))
   | StringItem s \<Rightarrow> s)"

text \<open>\<open>s_format_items\<close>.\<close>

definition s_format_items :: "(string \<times> (string \<Rightarrow> format_item)) list" where
  "s_format_items =
     [(''m'', \<lambda>_. MessageItem), (''p'', \<lambda>_. LevelItem), (''r'', \<lambda>_. ElapseItem), (''c'', \<lambda>_. NameItem),
      (''t'', \<lambda>_. ThreadIdItem), (''N'', \<lambda>_. ThreadNameItem), (''n'', \<lambda>_. NewLineItem), (''d'', DateTimeFormatItem),
      (''f'', \<lambda>_. FilenameItem), (''l'', \<lambda>_. LineItem), (''T'', \<lambda>_. TabItem), (''F'', \<lambda>_. FiberIdItem)]"

section \<open>The parser\<close>

text \<open>
  The loop over the pattern. The first argument is the pattern from index \<open>i\<close> on, then follow the pending text
  \<open>ss\<close>, the pending conversion \<open>fmt\<close>, the parts \<open>vec\<close> and \<open>m_error\<close>. Decrementing \<open>i\<close> at a \<open>%\<close> means that the
  same \<open>%\<close> is looked at again.
\<close>

datatype part = Text string | Conv string string | Bad string

definition lack_brace :: string where
  "lack_brace = ''lack of '' @ [CHR 0x27, CHR ''}'', CHR 0x27]"

definition single_percent :: string where
  "single_percent = ''single '' @ [CHR 0x27, CHR ''%'', CHR 0x27]"

function parse_loop :: "string \<Rightarrow> string \<Rightarrow> string \<Rightarrow> part list \<Rightarrow> bool \<Rightarrow> string \<times> string \<times> part list \<times> bool" where
  "parse_loop [] ss fmt vec err = (ss, fmt, vec, err)"
| "parse_loop (c # cs) ss fmt vec err =
     (if c \<noteq> CHR ''%'' then
        (if fmt = [] then parse_loop cs (ss @ [c]) fmt vec err
         else if c \<noteq> CHR ''{'' then parse_loop cs (ss @ [c]) [] (vec @ [Conv fmt []]) err
         else (case dropWhile (\<lambda>x. x \<noteq> CHR ''}'') cs of
                 [] \<Rightarrow> (ss, fmt, vec @ [Bad lack_brace, Bad single_percent], True)
               | _ # rest \<Rightarrow>
                   parse_loop rest ss [] (vec @ [Conv fmt (takeWhile (\<lambda>x. x \<noteq> CHR ''}'') cs)]) err))
      else (case cs of
              [] \<Rightarrow> (ss, fmt, vec @ [Bad single_percent], True)
            | d # ds \<Rightarrow>
                if d = CHR ''%'' then parse_loop ds (ss @ [CHR ''%'']) fmt vec err
                else if fmt \<noteq> [] then parse_loop (c # cs) ss [] (vec @ [Conv fmt []]) err
                else parse_loop ds [] [d] (if ss \<noteq> [] then vec @ [Text ss] else vec) err))"
  by pat_completeness auto
termination
proof (relation "measure (\<lambda>(cs, ss, fmt, vec, err). 2 * length cs + (if fmt = [] then 0 else 1))", goal_cases)
  case (4 c cs ss fmt vec err x rest)
  then show ?case using length_dropWhile_le [of "\<lambda>x. x \<noteq> CHR ''}''" cs] by simp
qed auto

declare parse_loop.simps [simp del]

definition part_item :: "part \<Rightarrow> format_item \<times> bool" where
  "part_item v = (case v of
     Text s \<Rightarrow> (StringItem s, False)
   | Conv f arg \<Rightarrow> (case map_of s_format_items f of
        None \<Rightarrow> (StringItem (''<error_format: '' @ f @ ''>''), True)
      | Some item \<Rightarrow> (item arg, False))
   | Bad s \<Rightarrow> (case map_of s_format_items s of
        None \<Rightarrow> (StringItem (''<error_format: '' @ s @ ''>''), True)
      | Some item \<Rightarrow> (item [], False)))"

record formatter =
  lf_pattern :: string
  lf_items :: "format_item list"
  lf_error :: bool

definition parse_pattern :: "string \<Rightarrow> part list \<times> bool" where
  "parse_pattern pattern =
     (case parse_loop pattern [] [] [] False of (ss, fmt, vec, err) \<Rightarrow>
        (vec @ (if ss \<noteq> [] then [Text ss] else []) @ (if fmt \<noteq> [] then [Conv fmt []] else []), err))"

definition LogFormatter :: "string \<Rightarrow> formatter" where
  "LogFormatter pattern =
     (case parse_pattern pattern of (vec, err) \<Rightarrow>
        \<lparr>lf_pattern = pattern, lf_items = map (fst \<circ> part_item) vec,
         lf_error = (err \<or> list_ex (snd \<circ> part_item) vec)\<rparr>)"

definition formatter_format :: "(string \<Rightarrow> u64 \<Rightarrow> string) \<Rightarrow> formatter \<Rightarrow> level \<Rightarrow> log_event \<Rightarrow> string" where
  "formatter_format strftime f level e = concat (map (item_format strftime level e) (lf_items f))"

section \<open>Facts about levels\<close>

lemma level_round_trip:
  "Level_FromString (Level_ToString l) = l \<and> (Level_ToString l = Level_ToString k \<longleftrightarrow> l = k)"
  by (cases l; cases k) (simp_all add: Level_FromString_def Level_ToString_def)

section \<open>Patterns as sequences of parts\<close>

text \<open>A literal text, or a conversion with or without an argument in braces.\<close>

datatype token = Lit string | Fmt char "string option"

fun escape :: "string \<Rightarrow> string" where
  "escape [] = []"
| "escape (c # cs) = (if c = CHR ''%'' then ''%%'' else [c]) @ escape cs"

fun render :: "token list \<Rightarrow> string" where
  "render [] = []"
| "render (Lit s # ts) = escape s @ render ts"
| "render (Fmt c None # ts) = CHR ''%'' # c # render ts"
| "render (Fmt c (Some arg) # ts) = CHR ''%'' # c # CHR ''{'' # arg @ CHR ''}'' # render ts"

fun token_part :: "token \<Rightarrow> part" where
  "token_part (Lit s) = Text s"
| "token_part (Fmt c arg) = Conv [c] (case arg of None \<Rightarrow> [] | Some a \<Rightarrow> a)"

fun is_lit :: "token list \<Rightarrow> bool" where
  "is_lit (Lit s # ts) = True"
| "is_lit _ = False"

text \<open>
  \<open>plain\<close>: the token before is a conversion without an argument. Behind one a literal must not begin with an
  opening brace, also not behind percent signs, and must not consist of percent signs only at the end.
\<close>

fun pattern_ok :: "bool \<Rightarrow> token list \<Rightarrow> bool" where
  "pattern_ok plain [] = True"
| "pattern_ok plain (Lit s # ts) \<longleftrightarrow> s \<noteq> [] \<and> \<not> is_lit ts \<and> pattern_ok False ts \<and>
     (plain \<longrightarrow> (case dropWhile (\<lambda>c. c = CHR ''%'') s of [] \<Rightarrow> ts \<noteq> [] | c # _ \<Rightarrow> c \<noteq> CHR ''{''))"
| "pattern_ok plain (Fmt c arg # ts) \<longleftrightarrow> c \<noteq> CHR ''%'' \<and>
     (case arg of None \<Rightarrow> pattern_ok True ts | Some a \<Rightarrow> CHR ''}'' \<notin> set a \<and> pattern_ok False ts)"

lemma parse_literal: "parse_loop (escape s @ r) ss [] vec err = parse_loop r (ss @ s) [] vec err"
  by (induction s arbitrary: ss) (simp_all add: parse_loop.simps)

lemma parse_percents:
  "list_all (\<lambda>c. c = CHR ''%'') s \<Longrightarrow> parse_loop (escape s @ r) ss fmt vec err = parse_loop r (ss @ s) fmt vec err"
  by (induction s arbitrary: ss) (simp_all add: parse_loop.simps)

lemma escape_append: "escape (s @ t) = escape s @ escape t"
  by (induction s) auto

abbreviation text_of :: "string \<Rightarrow> part list" where
  "text_of ss \<equiv> (if ss = [] then [] else [Text ss])"

abbreviation conv_of :: "string \<Rightarrow> part list" where
  "conv_of fmt \<equiv> (if fmt = [] then [] else [Conv fmt []])"

lemma parse_conversion:
  assumes "d \<noteq> CHR ''%''"
  shows "parse_loop (CHR ''%'' # d # r) ss fmt vec err = parse_loop r [] [d] (vec @ conv_of fmt @ text_of ss) err"
proof -
  have plain: "parse_loop (CHR ''%'' # d # r) ss [] v err = parse_loop r [] [d] (v @ text_of ss) err" for v
    using assms by (subst parse_loop.simps(2)) simp
  show ?thesis
  proof (cases "fmt = []")
    case False
    then have "parse_loop (CHR ''%'' # d # r) ss fmt vec err = parse_loop (CHR ''%'' # d # r) ss [] (vec @ [Conv fmt []]) err"
      using assms by (subst parse_loop.simps(2)) simp
    with False show ?thesis by (simp add: plain)
  qed (simp add: plain)
qed

lemma parse_argument:
  "CHR ''}'' \<notin> set a \<Longrightarrow>
   parse_loop (CHR ''{'' # a @ CHR ''}'' # r) [] [d] vec err = parse_loop r [] [] (vec @ [Conv [d] a]) err"
  by (subst parse_loop.simps(2)) (simp add: dropWhile_append takeWhile_append)

lemma parse_text_behind:
  assumes "c \<noteq> CHR ''%''" and "c \<noteq> CHR ''{''"
  shows "parse_loop (escape (c # cs) @ r) ss [d] vec err = parse_loop r (ss @ c # cs) [] (vec @ [Conv [d] []]) err"
  using assms by (simp add: parse_loop.simps(2) [of c] parse_literal)

definition finish :: "string \<times> string \<times> part list \<times> bool \<Rightarrow> part list \<times> bool" where
  "finish r = (case r of (ss, fmt, vec, err) \<Rightarrow> (vec @ text_of ss @ conv_of fmt, err))"

text \<open>What is pending at a token: a conversion, or a text when a conversion or the end follows.\<close>

lemma parse_loop_render:
  assumes "pattern_ok (fmt \<noteq> []) ts \<or> (ss \<noteq> [] \<and> pattern_ok False ts)"
    and "length fmt \<le> 1" and "ss = [] \<or> \<not> is_lit ts \<and> (ts = [] \<longrightarrow> fmt = [])"
  shows "finish (parse_loop (render ts) ss fmt vec err) = (vec @ conv_of fmt @ text_of ss @ map token_part ts, err)"
  using assms
proof (induction ts arbitrary: ss fmt vec rule: render.induct)
  case 1
  then show ?case by (auto simp: parse_loop.simps finish_def)
next
  case (2 s ts)
  then have ss: "ss = []" and ok: "pattern_ok (fmt \<noteq> []) (Lit s # ts)" by auto
  then have s: "s \<noteq> []" and ts: "\<not> is_lit ts" "pattern_ok False ts" by simp_all
  have IH: "finish (parse_loop (render ts) s f v err) = (v @ conv_of f @ [Text s] @ map token_part ts, err)"
    if "length f \<le> 1" and "ts = [] \<Longrightarrow> f = []" for f v
    using "2.IH" [of f s v] s ts that by auto
  show ?case
  proof (cases "fmt = []")
    case True
    then show ?thesis using ss IH [of "[]"] by (simp add: parse_literal)
  next
    case False
    then obtain d where d: "fmt = [d]" using "2.prems"(2) by (cases fmt) auto
    define ps cs where "ps = takeWhile (\<lambda>c. c = CHR ''%'') s" and "cs = dropWhile (\<lambda>c. c = CHR ''%'') s"
    have split: "s = ps @ cs" and ps: "list_all (\<lambda>c. c = CHR ''%'') ps"
      by (simp_all add: ps_def cs_def list_all_iff) (metis set_takeWhileD)
    show ?thesis
    proof (cases cs)
      case Nil
      then have "ts \<noteq> []" using ok d unfolding cs_def by (simp del: dropWhile_eq_Nil_conv)
      then show ?thesis
        using Nil split ps ss d IH [of "[d]" vec] by (simp add: parse_percents)
    next
      case (Cons c cs')
      moreover have "c \<noteq> CHR ''%''" using Cons unfolding cs_def by (metis (mono_tags) dropWhile_eq_Cons_conv)
      moreover have "c \<noteq> CHR ''{''" using ok d Cons by (simp add: cs_def)
      ultimately have "parse_loop (c # escape cs' @ render ts) ps [d] vec err
          = parse_loop (render ts) (ps @ c # cs') [] (vec @ [Conv [d] []]) err"
        using parse_text_behind [of c cs' "render ts" ps d vec err] by simp
      then show ?thesis
        using \<open>cs = c # cs'\<close> \<open>c \<noteq> CHR ''%''\<close> split ps ss d IH [of "[]" "vec @ [Conv [d] []]"]
        by (simp add: escape_append parse_percents)
    qed
  qed
next
  case (3 c ts)
  then have "c \<noteq> CHR ''%''" and "pattern_ok True ts" by auto
  then show ?case using "3.IH" [of "[c]" "[]"] by (simp add: parse_conversion)
next
  case (4 c arg ts)
  then have "c \<noteq> CHR ''%''" and "CHR ''}'' \<notin> set arg" and "pattern_ok False ts" by auto
  then show ?case using "4.IH" [of "[]" "[]"] by (simp add: parse_conversion parse_argument)
qed


text \<open>C34. A pattern written from texts, with each percent sign doubled, and conversions with or without an argument
  is parsed into exactly these parts, in their order and without an error, and has the items of its conversions;
  the formatted event is the concatenation of the items' texts.\<close>

theorem pattern_round_trip:
  assumes "pattern_ok False ts"
  shows "parse_pattern (render ts) = (map token_part ts, False) \<and>
    formatter_format strftime (LogFormatter (render ts)) level e =
      concat (map (item_format strftime level e \<circ> fst \<circ> part_item \<circ> token_part) ts) \<and>
    lf_error (LogFormatter (render ts)) = list_ex (snd \<circ> part_item \<circ> token_part) ts"
proof -
  have "parse_pattern p = finish (parse_loop p [] [] [] False)" for p
    by (auto simp: parse_pattern_def finish_def split: prod.split)
  then have "parse_pattern (render ts) = (map token_part ts, False)"
    using assms by (simp add: parse_loop_render)
  then show ?thesis
    by (simp add: LogFormatter_def formatter_format_def comp_assoc list_ex_iff)
qed

theorem pattern_round_trip_witness:
  "parse_pattern ''[%p]%d{%H}100%%%n'' =
     ([Text ''['', Conv ''p'' [], Text '']'', Conv ''d'' ''%H'', Text ''100%'', Conv ''n'' []], False)"
  using pattern_round_trip [of "[Lit ''['', Fmt (CHR ''p'') None, Lit '']'', Fmt (CHR ''d'') (Some ''%H''),
      Lit ''100%'', Fmt (CHR ''n'') None]"] by simp

text \<open>A doubled percent sign between a conversion and the end of the pattern is put in front of the
  conversion.\<close>

theorem trailing_percent_moves:
  "formatter_format strftime (LogFormatter (CHR ''%'' # c # ''%%'')) level e =
     (if c = CHR ''%'' then ''%%'' else ''%'' @ item_format strftime level e (fst (part_item (Conv [c] []))))"
proof (cases "c = CHR ''%''")
  case False
  have "parse_loop ''%%'' [] [c] [] False = (''%'', [c], [], False)"
    by (simp add: parse_loop.simps)
  then have "parse_pattern (CHR ''%'' # c # ''%%'') = ([Text ''%'', Conv [c] []], False)"
    using False by (simp add: parse_pattern_def parse_conversion)
  then show ?thesis
    using False by (simp add: LogFormatter_def formatter_format_def part_item_def [of "Text _"] item_format_def [of _ _ _ "StringItem _"])
qed (simp add: LogFormatter_def formatter_format_def parse_pattern_def parse_loop.simps part_item_def item_format_def)

end
