(* ===== verification/Logger.thy ===== *)
theory Logger
  imports Log_Format
begin

text \<open>
  The appenders, the loggers and their manager of \<open>src/log.cpp\<close>, and the listener that applies a changed \<open>logs\<close>
  configuration. Appenders live on a heap, since several loggers may share one; a logger of the manager is known by
  its name. What is written is the list \<open>ls_output\<close>, the text with its destination. Whether a log file can be
  opened is the argument \<open>open_ok\<close>. A logger without a formatter is a null pointer that \<open>format\<close> reads: \<open>None\<close>.
\<close>

section \<open>State\<close>

datatype sink = ToFile string | ToStdout

record appender =
  ap_sink :: sink
  ap_hasFormatter :: bool
  ap_level :: level
  ap_formatter :: "formatter option"

record logger =
  lg_name :: string
  lg_level :: level
  lg_appenders :: "nat list"
  lg_formatter :: "formatter option"
  lg_has_root :: bool

record log_state =
  ls_appenders :: "nat \<Rightarrow> appender option"
  ls_next :: nat
  ls_loggers :: "(string \<times> logger) list"
  ls_output :: "(sink \<times> string) list"

definition get_logger :: "log_state \<Rightarrow> string \<Rightarrow> logger option" where
  "get_logger ls n = omap_get string_less n (ls_loggers ls)"

definition put_logger :: "log_state \<Rightarrow> string \<Rightarrow> logger \<Rightarrow> log_state" where
  "put_logger ls n lg = ls\<lparr>ls_loggers := omap_put string_less n lg (ls_loggers ls)\<rparr>"

definition put_appender :: "log_state \<Rightarrow> nat \<Rightarrow> appender \<Rightarrow> log_state" where
  "put_appender ls a ap = ls\<lparr>ls_appenders := (ls_appenders ls)(a \<mapsto> ap)\<rparr>"

text \<open>Allocation of an appender: the new state and its address.\<close>

definition new_appender :: "log_state \<Rightarrow> appender \<Rightarrow> log_state \<times> nat" where
  "new_appender ls ap = ((put_appender ls (ls_next ls) ap)\<lparr>ls_next := ls_next ls + 1\<rparr>, ls_next ls)"

section \<open>Appenders\<close>

definition FileLogAppender :: "string \<Rightarrow> appender" where
  "FileLogAppender filename = \<lparr>ap_sink = ToFile filename, ap_hasFormatter = False, ap_level = DEBUG, ap_formatter = None\<rparr>"

definition StdoutLogAppender :: appender where
  "StdoutLogAppender = \<lparr>ap_sink = ToStdout, ap_hasFormatter = False, ap_level = DEBUG, ap_formatter = None\<rparr>"

definition Appender_setFormatter :: "appender \<Rightarrow> formatter option \<Rightarrow> appender" where
  "Appender_setFormatter ap val = ap\<lparr>ap_formatter := val, ap_hasFormatter := (val \<noteq> None)\<rparr>"

definition Appender_setLevel :: "appender \<Rightarrow> level \<Rightarrow> appender" where
  "Appender_setLevel ap level = ap\<lparr>ap_level := level\<rparr>"

text \<open>The \<open>log\<close> of both appenders; a file is opened for appending each time.\<close>

definition Appender_log :: "(string \<Rightarrow> u64 \<Rightarrow> string) \<Rightarrow> (string \<Rightarrow> bool) \<Rightarrow> level \<Rightarrow> log_event \<Rightarrow> log_state \<Rightarrow> nat
    \<Rightarrow> log_state option" where
  "Appender_log strftime open_ok level e ls a =
     (case ls_appenders ls a of
        None \<Rightarrow> None
      | Some ap \<Rightarrow>
          if ap_level ap \<le> level then
            (case ap_formatter ap of
               None \<Rightarrow> None
             | Some f \<Rightarrow>
                 let reopened = (case ap_sink ap of ToFile filename \<Rightarrow> open_ok filename | ToStdout \<Rightarrow> True)
                 in Some (if reopened
                          then ls\<lparr>ls_output := ls_output ls @ [(ap_sink ap, formatter_format strftime f level e)]\<rparr>
                          else ls))
          else Some ls)"

fun log_appenders :: "(string \<Rightarrow> u64 \<Rightarrow> string) \<Rightarrow> (string \<Rightarrow> bool) \<Rightarrow> level \<Rightarrow> log_event \<Rightarrow> log_state \<Rightarrow> nat list
    \<Rightarrow> log_state option" where
  "log_appenders strftime open_ok level e ls [] = Some ls"
| "log_appenders strftime open_ok level e ls (a # as) =
     (case Appender_log strftime open_ok level e ls a of
        None \<Rightarrow> None
      | Some ls' \<Rightarrow> log_appenders strftime open_ok level e ls' as)"

section \<open>Loggers\<close>

definition default_pattern :: string where
  "default_pattern = ''%d%T%t%T%N%T%F%T[%p]%T[%c]%T%f:%l%T%m%n''"

definition Logger_new :: "string \<Rightarrow> logger" where
  "Logger_new name = \<lparr>lg_name = name, lg_level = DEBUG, lg_appenders = [],
     lg_formatter = Some (LogFormatter default_pattern), lg_has_root = False\<rparr>"

text \<open>\<open>Logger::log\<close>; \<open>root_log\<close> is the call on the root logger.\<close>

definition log_one :: "(string \<Rightarrow> u64 \<Rightarrow> string) \<Rightarrow> (string \<Rightarrow> bool) \<Rightarrow> (log_state \<Rightarrow> log_state option) \<Rightarrow> level \<Rightarrow> log_event
    \<Rightarrow> log_state \<Rightarrow> string \<Rightarrow> log_state option" where
  "log_one strftime open_ok root_log level e ls n =
     (case get_logger ls n of
        None \<Rightarrow> None
      | Some lg \<Rightarrow>
          if lg_level lg \<le> level then
            if lg_appenders lg \<noteq> [] then log_appenders strftime open_ok level e ls (lg_appenders lg)
            else if lg_has_root lg then root_log ls
            else Some ls
          else Some ls)"

definition Logger_log :: "(string \<Rightarrow> u64 \<Rightarrow> string) \<Rightarrow> (string \<Rightarrow> bool) \<Rightarrow> level \<Rightarrow> log_event \<Rightarrow> log_state \<Rightarrow> string
    \<Rightarrow> log_state option" where
  "Logger_log strftime open_ok level e ls n =
     log_one strftime open_ok (\<lambda>ls. log_one strftime open_ok Some level e ls ''root'') level e ls n"

text \<open>\<open>LogEventWrap\<close>'s destructor behind \<open>AZURE_LOG_LEVEL\<close>.\<close>

definition LogEventWrap_done :: "(string \<Rightarrow> u64 \<Rightarrow> string) \<Rightarrow> (string \<Rightarrow> bool) \<Rightarrow> log_event \<Rightarrow> log_state \<Rightarrow> log_state option" where
  "LogEventWrap_done strftime open_ok e ls = Logger_log strftime open_ok (le_level e) e ls (le_logger e)"

definition AZURE_LOG_LEVEL :: "(string \<Rightarrow> u64 \<Rightarrow> string) \<Rightarrow> (string \<Rightarrow> bool) \<Rightarrow> log_event \<Rightarrow> log_state \<Rightarrow> log_state option" where
  "AZURE_LOG_LEVEL strftime open_ok e ls =
     (case get_logger ls (le_logger e) of
        None \<Rightarrow> None
      | Some lg \<Rightarrow> if lg_level lg \<le> le_level e then LogEventWrap_done strftime open_ok e ls else Some ls)"

definition upd_logger :: "log_state \<Rightarrow> string \<Rightarrow> (logger \<Rightarrow> logger) \<Rightarrow> log_state" where
  "upd_logger ls n f = (case get_logger ls n of None \<Rightarrow> ls | Some lg \<Rightarrow> put_logger ls n (f lg))"

definition Logger_setLevel :: "log_state \<Rightarrow> string \<Rightarrow> level \<Rightarrow> log_state" where
  "Logger_setLevel ls n val = upd_logger ls n (\<lambda>lg. lg\<lparr>lg_level := val\<rparr>)"

definition Logger_addAppender :: "log_state \<Rightarrow> string \<Rightarrow> nat \<Rightarrow> log_state" where
  "Logger_addAppender ls n a =
     (case get_logger ls n of
        None \<Rightarrow> ls
      | Some lg \<Rightarrow>
          let ls1 = (case ls_appenders ls a of
                       None \<Rightarrow> ls
                     | Some ap \<Rightarrow> if ap_formatter ap = None then put_appender ls a (ap\<lparr>ap_formatter := lg_formatter lg\<rparr>) else ls)
          in put_logger ls1 n (lg\<lparr>lg_appenders := lg_appenders lg @ [a]\<rparr>))"

definition Logger_delAppender :: "log_state \<Rightarrow> string \<Rightarrow> nat \<Rightarrow> log_state" where
  "Logger_delAppender ls n a = upd_logger ls n (\<lambda>lg. lg\<lparr>lg_appenders := remove1 a (lg_appenders lg)\<rparr>)"

definition Logger_clearAppender :: "log_state \<Rightarrow> string \<Rightarrow> log_state" where
  "Logger_clearAppender ls n = upd_logger ls n (\<lambda>lg. lg\<lparr>lg_appenders := []\<rparr>)"

definition inherit_formatter :: "formatter option \<Rightarrow> log_state \<Rightarrow> nat \<Rightarrow> log_state" where
  "inherit_formatter val ls a =
     (case ls_appenders ls a of
        None \<Rightarrow> ls
      | Some ap \<Rightarrow> if \<not> ap_hasFormatter ap then put_appender ls a (Appender_setFormatter ap val) else ls)"

definition Logger_setFormatter :: "log_state \<Rightarrow> string \<Rightarrow> formatter option \<Rightarrow> log_state" where
  "Logger_setFormatter ls n val =
     (case get_logger ls n of
        None \<Rightarrow> ls
      | Some lg \<Rightarrow> foldl (inherit_formatter val) (put_logger ls n (lg\<lparr>lg_formatter := val\<rparr>)) (lg_appenders lg))"

definition Logger_setPattern :: "log_state \<Rightarrow> string \<Rightarrow> string \<Rightarrow> log_state" where
  "Logger_setPattern ls n val =
     (let new_val = LogFormatter val in
      if lf_error new_val then ls else Logger_setFormatter ls n (Some new_val))"

section \<open>The manager\<close>

definition LoggerManager_new :: log_state where
  "LoggerManager_new =
     (let ls = put_logger \<lparr>ls_appenders = Map.empty, ls_next = 0, ls_loggers = [], ls_output = []\<rparr> ''root'' (Logger_new ''root'');
          (ls1, a) = new_appender ls StdoutLogAppender
      in Logger_addAppender ls1 ''root'' a)"

definition getLogger :: "log_state \<Rightarrow> string \<Rightarrow> log_state" where
  "getLogger ls name =
     (case get_logger ls name of
        Some _ \<Rightarrow> ls
      | None \<Rightarrow> put_logger ls name ((Logger_new name)\<lparr>lg_has_root := True\<rparr>))"

section \<open>The configuration\<close>

record log_appender_define =
  lad_type :: int
  lad_level :: level
  lad_formatter :: string
  lad_file :: string

record log_define =
  ld_name :: string
  ld_level :: level
  ld_formatter :: string
  ld_appenders :: "log_appender_define list"

definition log_define_less :: "log_define \<Rightarrow> log_define \<Rightarrow> bool" where
  "log_define_less a b = string_less (ld_name a) (ld_name b)"

definition define_appender :: "log_appender_define \<Rightarrow> appender option" where
  "define_appender a =
     (if lad_type a = 1 then Some (FileLogAppender (lad_file a))
      else if lad_type a = 2 then Some StdoutLogAppender
      else None)"

definition configure_appender :: "log_appender_define \<Rightarrow> appender \<Rightarrow> appender" where
  "configure_appender a ap =
     (let ap1 = Appender_setLevel ap (lad_level a) in
      if lad_formatter a \<noteq> [] then
        let fmt = LogFormatter (lad_formatter a)
        in if \<not> lf_error fmt then Appender_setFormatter ap1 (Some fmt) else ap1
      else ap1)"

definition add_defined :: "string \<Rightarrow> log_state \<Rightarrow> log_appender_define \<Rightarrow> log_state" where
  "add_defined n ls a =
     (case define_appender a of
        None \<Rightarrow> ls
      | Some ap \<Rightarrow> (case new_appender ls (configure_appender a ap) of (ls1, addr) \<Rightarrow> Logger_addAppender ls1 n addr))"

definition apply_define :: "log_state \<Rightarrow> log_define \<Rightarrow> log_state" where
  "apply_define ls i =
     (let n = ld_name i;
          ls1 = Logger_setLevel (getLogger ls n) n (ld_level i);
          ls2 = (if ld_formatter i \<noteq> [] then Logger_setPattern ls1 n (ld_formatter i) else ls1)
      in foldl (add_defined n) (Logger_clearAppender ls2 n) (ld_appenders i))"

definition remove_define :: "log_state \<Rightarrow> log_define \<Rightarrow> log_state" where
  "remove_define ls i =
     (let n = ld_name i in Logger_clearAppender (Logger_setLevel (getLogger ls n) n UNKNOWN) n)"

definition LogIniter_listener :: "log_define list \<Rightarrow> log_define list \<Rightarrow> log_state \<Rightarrow> log_state" where
  "LogIniter_listener old_value new_value ls =
     (let ls1 = foldl (\<lambda>ls i.
            (case oset_find log_define_less i old_value of
               None \<Rightarrow> apply_define ls i
             | Some j \<Rightarrow> if i \<noteq> j then apply_define ls i else ls)) ls new_value
      in foldl (\<lambda>ls i. if oset_find log_define_less i new_value = None then remove_define ls i else ls) ls1 old_value)"

section \<open>Access\<close>

lemma log_state_simps [simp]:
  "get_logger (put_logger ls n lg) m = (if m = n then Some lg else get_logger ls m)"
  "get_logger (put_appender ls a ap) m = get_logger ls m"
  "ls_appenders (put_logger ls n lg) = ls_appenders ls"
  "ls_appenders (put_appender ls a ap) = (ls_appenders ls)(a \<mapsto> ap)"
  "ls_next (put_logger ls n lg) = ls_next ls"
  "ls_next (put_appender ls a ap) = ls_next ls"
  "ls_output (put_logger ls n lg) = ls_output ls"
  "ls_output (put_appender ls a ap) = ls_output ls"
  "get_logger (ls\<lparr>ls_next := k\<rparr>) m = get_logger ls m"
  "get_logger (ls\<lparr>ls_output := out\<rparr>) m = get_logger ls m"
  by (simp_all add: get_logger_def put_logger_def put_appender_def str_ord.omap_get_put)

section \<open>Well-formed states\<close>

text \<open>
  Every appender of a logger is allocated and has a formatter, every logger has one too and is filed under its own
  name, and exactly the loggers other than the root refer to the root.
\<close>

definition appender_ok :: "log_state \<Rightarrow> nat \<Rightarrow> bool" where
  "appender_ok ls a \<longleftrightarrow> a < ls_next ls \<and> (case ls_appenders ls a of None \<Rightarrow> False | Some ap \<Rightarrow> ap_formatter ap \<noteq> None)"

definition logger_ok :: "log_state \<Rightarrow> string \<Rightarrow> logger \<Rightarrow> bool" where
  "logger_ok ls n lg \<longleftrightarrow> lg_name lg = n \<and> lg_formatter lg \<noteq> None \<and> lg_has_root lg = (n \<noteq> ''root'') \<and>
     list_all (appender_ok ls) (lg_appenders lg)"

definition log_ok :: "log_state \<Rightarrow> bool" where
  "log_ok ls \<longleftrightarrow> get_logger ls ''root'' \<noteq> None \<and> (\<forall>n lg. get_logger ls n = Some lg \<longrightarrow> logger_ok ls n lg)"

text \<open>One state after the other: loggers stay, usable appenders stay usable.\<close>

definition log_grows :: "log_state \<Rightarrow> log_state \<Rightarrow> bool" where
  "log_grows ls ls' \<longleftrightarrow> (\<forall>a. appender_ok ls a \<longrightarrow> appender_ok ls' a) \<and> ls_next ls \<le> ls_next ls'"

lemma log_grows_refl [simp]: "log_grows ls ls"
  by (simp add: log_grows_def)

lemma log_grows_trans: "log_grows a b \<Longrightarrow> log_grows b c \<Longrightarrow> log_grows a c"
  by (auto simp: log_grows_def)

lemma logger_ok_grows: "logger_ok ls n lg \<Longrightarrow> log_grows ls ls' \<Longrightarrow> logger_ok ls' n lg"
  by (auto simp: logger_ok_def log_grows_def list_all_iff)

lemma ok_put_logger [simp]:
  "appender_ok (put_logger ls n lg) = appender_ok ls" "logger_ok (put_logger ls n lg) = logger_ok ls"
proof -
  show "appender_ok (put_logger ls n lg) = appender_ok ls" by (simp add: fun_eq_iff appender_ok_def)
  then show "logger_ok (put_logger ls n lg) = logger_ok ls" by (intro ext) (simp add: logger_ok_def)
qed

lemma log_ok_put_logger: "log_ok ls \<Longrightarrow> logger_ok ls n lg \<Longrightarrow> log_ok (put_logger ls n lg)"
  by (auto simp: log_ok_def)

lemma log_okD: "log_ok ls \<Longrightarrow> get_logger ls n = Some lg \<Longrightarrow> logger_ok ls n lg"
  by (simp add: log_ok_def)

lemma log_grows_put_logger [simp]: "log_grows ls (put_logger ls n lg)" "log_grows (put_logger ls n lg) ls"
  by (simp_all add: log_grows_def appender_ok_def)

lemma log_grows_put_appender: "ap_formatter ap \<noteq> None \<Longrightarrow> log_grows ls (put_appender ls a ap)"
  by (auto simp: log_grows_def appender_ok_def)

lemma log_ok_put_appender: "log_ok ls \<Longrightarrow> ap_formatter ap \<noteq> None \<Longrightarrow> log_ok (put_appender ls a ap)"
  using logger_ok_grows [OF _ log_grows_put_appender [of ap ls a]] by (simp add: log_ok_def)

lemma upd_logger_ok:
  "log_ok ls \<Longrightarrow> (\<And>lg. logger_ok ls n lg \<Longrightarrow> logger_ok ls n (f lg)) \<Longrightarrow> log_ok (upd_logger ls n f)"
  by (cases "get_logger ls n") (simp_all add: upd_logger_def log_ok_put_logger log_okD)

lemma setLevel_ok: "log_ok ls \<Longrightarrow> log_ok (Logger_setLevel ls n v)"
  unfolding Logger_setLevel_def by (rule upd_logger_ok) (simp_all add: logger_ok_def)

lemma clearAppender_ok: "log_ok ls \<Longrightarrow> log_ok (Logger_clearAppender ls n)"
  unfolding Logger_clearAppender_def by (rule upd_logger_ok) (simp_all add: logger_ok_def)

lemma delAppender_ok: "log_ok ls \<Longrightarrow> log_ok (Logger_delAppender ls n a)"
  unfolding Logger_delAppender_def
  by (rule upd_logger_ok) (auto simp: logger_ok_def list_all_iff dest: set_remove1_subset [THEN subsetD])

lemma getLogger_ok: "log_ok ls \<Longrightarrow> log_ok (getLogger ls n)"
proof (cases "get_logger ls n")
  case None
  moreover assume ok: "log_ok ls"
  ultimately have "n \<noteq> ''root''" by (auto simp: log_ok_def)
  then have "logger_ok ls n ((Logger_new n)\<lparr>lg_has_root := True\<rparr>)" by (simp add: logger_ok_def Logger_new_def)
  with ok None show ?thesis by (simp add: getLogger_def log_ok_put_logger)
qed (simp add: getLogger_def)

lemma addAppender_ok:
  assumes "log_ok ls" and "a < ls_next ls" and "ls_appenders ls a \<noteq> None"
  shows "log_ok (Logger_addAppender ls n a)"
proof (cases "get_logger ls n")
  case (Some lg)
  then have lg: "logger_ok ls n lg" using assms(1) by (simp add: log_ok_def)
  obtain ap where ap: "ls_appenders ls a = Some ap" using assms(3) by blast
  define ls1 where "ls1 = (if ap_formatter ap = None then put_appender ls a (ap\<lparr>ap_formatter := lg_formatter lg\<rparr>) else ls)"
  have "lg_formatter lg \<noteq> None" using lg by (simp add: logger_ok_def)
  then have "log_ok ls1" and "log_grows ls ls1" and "appender_ok ls1 a"
    using assms ap by (auto simp: ls1_def appender_ok_def intro: log_ok_put_appender log_grows_put_appender)
  moreover from this have "logger_ok ls1 n (lg\<lparr>lg_appenders := lg_appenders lg @ [a]\<rparr>)"
    using logger_ok_grows [OF lg] by (simp add: logger_ok_def)
  ultimately show ?thesis
    using Some ap by (simp add: Logger_addAppender_def ls1_def log_ok_put_logger)
qed (use assms in \<open>simp add: Logger_addAppender_def\<close>)

lemma inherit_formatter_ok: "log_ok ls \<Longrightarrow> log_ok (inherit_formatter (Some f) ls a)"
  by (auto simp: inherit_formatter_def Appender_setFormatter_def intro!: log_ok_put_appender split: option.split)

lemma setFormatter_ok: "log_ok ls \<Longrightarrow> log_ok (Logger_setFormatter ls n (Some f))"
proof -
  have "log_ok (foldl (inherit_formatter (Some f)) ls as)" if "log_ok ls" for ls as
    using that by (induction as arbitrary: ls) (simp_all add: inherit_formatter_ok)
  moreover assume ok: "log_ok ls"
  moreover have "logger_ok ls n (lg\<lparr>lg_formatter := Some f\<rparr>)" if "get_logger ls n = Some lg" for lg
    using log_okD [OF ok that] by (simp add: logger_ok_def)
  ultimately show ?thesis
    by (auto simp: Logger_setFormatter_def log_ok_put_logger split: option.split)
qed

lemma setPattern_ok: "log_ok ls \<Longrightarrow> log_ok (Logger_setPattern ls n s)"
  by (simp add: Logger_setPattern_def Let_def setFormatter_ok)


lemma new_appender_ok:
  assumes "log_ok ls" and "new_appender ls ap = (ls1, a)"
  shows "log_grows ls ls1 \<and> a < ls_next ls1 \<and> ls_appenders ls1 a = Some ap \<and> a = ls_next ls \<and>
    get_logger ls1 = get_logger ls"
proof -
  have "b < ls_next ls \<Longrightarrow> b \<noteq> ls_next ls" for b by simp
  with assms(2) show ?thesis
    by (auto simp: new_appender_def log_grows_def appender_ok_def fun_eq_iff split: if_splits)
qed

lemma new_add_ok: "log_ok ls \<Longrightarrow> new_appender ls ap = (ls1, a) \<Longrightarrow> log_ok (Logger_addAppender ls1 n a)"
proof (rule addAppender_ok)
  assume ok: "log_ok ls" and new: "new_appender ls ap = (ls1, a)"
  note new_appender_ok [OF ok new]
  then show "log_ok ls1" and "a < ls_next ls1" and "ls_appenders ls1 a \<noteq> None"
    using ok logger_ok_grows [of ls _ _ ls1] by (auto simp: log_ok_def)
qed

lemma add_defined_ok: "log_ok ls \<Longrightarrow> log_ok (add_defined n ls a)"
  by (auto simp: add_defined_def new_add_ok split: option.split prod.split)

lemma foldl_ok: "(\<And>ls x. log_ok ls \<Longrightarrow> log_ok (f ls x)) \<Longrightarrow> log_ok ls \<Longrightarrow> log_ok (foldl f ls xs)"
  by (induction xs arbitrary: ls) auto

lemma apply_define_ok: "log_ok ls \<Longrightarrow> log_ok (apply_define ls i)"
  by (auto simp: apply_define_def Let_def intro!: foldl_ok add_defined_ok clearAppender_ok setPattern_ok setLevel_ok getLogger_ok)

lemma remove_define_ok: "log_ok ls \<Longrightarrow> log_ok (remove_define ls i)"
  by (auto simp: remove_define_def Let_def intro!: clearAppender_ok setLevel_ok getLogger_ok)

lemma listener_ok: "log_ok ls \<Longrightarrow> log_ok (LogIniter_listener old new ls)"
  unfolding LogIniter_listener_def Let_def
  by (intro foldl_ok) (auto intro!: apply_define_ok remove_define_ok split: option.split)

lemma manager_ok: "log_ok LoggerManager_new"
proof -
  define ls where "ls = \<lparr>ls_appenders = Map.empty, ls_next = 0, ls_loggers = [], ls_output = []\<rparr>"
  have "get_logger ls n = None" for n by (simp add: ls_def get_logger_def)
  moreover have "logger_ok ls ''root'' (Logger_new ''root'')" by (simp add: logger_ok_def Logger_new_def)
  ultimately have "log_ok (put_logger ls ''root'' (Logger_new ''root''))" by (simp add: log_ok_def)
  then show ?thesis
    by (auto simp: LoggerManager_new_def Let_def new_add_ok simp flip: ls_def split: prod.split)
qed

section \<open>Writing\<close>

text \<open>The appenders an event goes to, and what each of them writes.\<close>

definition log_targets :: "log_state \<Rightarrow> string \<Rightarrow> level \<Rightarrow> nat list" where
  "log_targets ls n level =
     (case get_logger ls n of
        None \<Rightarrow> []
      | Some lg \<Rightarrow>
          if \<not> lg_level lg \<le> level then []
          else if lg_appenders lg \<noteq> [] \<or> n = ''root'' then lg_appenders lg
          else (case get_logger ls ''root'' of
                  None \<Rightarrow> []
                | Some r \<Rightarrow> if lg_level r \<le> level then lg_appenders r else []))"

definition written :: "(string \<Rightarrow> u64 \<Rightarrow> string) \<Rightarrow> (string \<Rightarrow> bool) \<Rightarrow> level \<Rightarrow> log_event \<Rightarrow> log_state \<Rightarrow> nat \<Rightarrow> (sink \<times> string) list" where
  "written strftime open_ok level e ls a =
     (case ls_appenders ls a of
        Some ap \<Rightarrow> (case ap_formatter ap of
            Some f \<Rightarrow> if ap_level ap \<le> level \<and> (case ap_sink ap of ToFile filename \<Rightarrow> open_ok filename | ToStdout \<Rightarrow> True)
                      then [(ap_sink ap, formatter_format strftime f level e)] else []
          | None \<Rightarrow> [])
      | None \<Rightarrow> [])"

lemma log_appenders_written:
  "list_all (appender_ok ls) as \<Longrightarrow>
   log_appenders strftime open_ok level e ls as
     = Some (ls\<lparr>ls_output := ls_output ls @ concat (map (written strftime open_ok level e ls) as)\<rparr>)"
proof (induction as arbitrary: ls)
  case (Cons a as)
  obtain ap f where ap: "ls_appenders ls a = Some ap" "ap_formatter ap = Some f"
    using Cons.prems by (auto simp: appender_ok_def split: option.splits)
  define ls' where "ls' = ls\<lparr>ls_output := ls_output ls @ written strftime open_ok level e ls a\<rparr>"
  have step: "Appender_log strftime open_ok level e ls a = Some ls'"
    using ap by (auto simp: Appender_log_def ls'_def written_def)
  have "appender_ok ls' = appender_ok ls" and "written strftime open_ok level e ls' = written strftime open_ok level e ls"
    by (simp_all add: fun_eq_iff appender_ok_def written_def ls'_def)
  then show ?case
    using Cons step by (simp add: ls'_def)
qed simp

lemma log_one_written:
  assumes "log_ok ls" and "get_logger ls n = Some lg"
  shows "log_one strftime open_ok root_log level e ls n =
    (if lg_level lg \<le> level then
       if lg_appenders lg \<noteq> [] \<or> n = ''root''
       then Some (ls\<lparr>ls_output := ls_output ls @ concat (map (written strftime open_ok level e ls) (lg_appenders lg))\<rparr>)
       else root_log ls
     else Some ls)"
  using log_okD [OF assms] by (auto simp: log_one_def assms(2) logger_ok_def log_appenders_written)

text \<open>The states the program can bring the logging into.\<close>

inductive log_reachable :: "log_state \<Rightarrow> bool" where
  manager: "log_reachable LoggerManager_new"
| logger: "log_reachable ls \<Longrightarrow> log_reachable (getLogger ls n)"
| set_level: "log_reachable ls \<Longrightarrow> log_reachable (Logger_setLevel ls n level)"
| set_pattern: "log_reachable ls \<Longrightarrow> log_reachable (Logger_setPattern ls n pattern)"
| set_formatter: "log_reachable ls \<Longrightarrow> log_reachable (Logger_setFormatter ls n (Some f))"
| add_new: "log_reachable ls \<Longrightarrow> new_appender ls ap = (ls', a) \<Longrightarrow> log_reachable (Logger_addAppender ls' n a)"
| add_shared: "log_reachable ls \<Longrightarrow> appender_ok ls a \<Longrightarrow> log_reachable (Logger_addAppender ls n a)"
| del: "log_reachable ls \<Longrightarrow> log_reachable (Logger_delAppender ls n a)"
| clear: "log_reachable ls \<Longrightarrow> log_reachable (Logger_clearAppender ls n)"
| appender_formatter: "log_reachable ls \<Longrightarrow> ls_appenders ls a = Some ap \<Longrightarrow>
    log_reachable (put_appender ls a (Appender_setFormatter ap (Some f)))"
| appender_level: "log_reachable ls \<Longrightarrow> appender_ok ls a \<Longrightarrow> ls_appenders ls a = Some ap \<Longrightarrow>
    log_reachable (put_appender ls a (Appender_setLevel ap level))"
| configured: "log_reachable ls \<Longrightarrow> log_reachable (LogIniter_listener old new ls)"
| logged: "log_reachable ls \<Longrightarrow> Logger_log strftime open_ok level e ls n = Some ls' \<Longrightarrow> log_reachable ls'"

lemma ok_output [simp]: "log_ok (ls\<lparr>ls_output := out\<rparr>) = log_ok ls"
proof -
  have "appender_ok (ls\<lparr>ls_output := out\<rparr>) = appender_ok ls" by (simp add: fun_eq_iff appender_ok_def)
  then show ?thesis by (simp add: log_ok_def logger_ok_def)
qed

lemma Logger_log_written:
  assumes "log_ok ls" and "get_logger ls n \<noteq> None"
  shows "Logger_log strftime open_ok level e ls n =
    Some (ls\<lparr>ls_output := ls_output ls @ concat (map (written strftime open_ok level e ls) (log_targets ls n level))\<rparr>)"
proof -
  obtain lg where lg: "get_logger ls n = Some lg" using assms(2) by blast
  obtain r where r: "get_logger ls ''root'' = Some r" using assms(1) by (auto simp: log_ok_def)
  show ?thesis
    unfolding Logger_log_def log_one_written [OF assms(1) lg] log_one_written [OF assms(1) r]
    by (simp add: log_targets_def lg r)
qed

lemma reachable_ok: "log_reachable ls \<Longrightarrow> log_ok ls"
proof (induction rule: log_reachable.induct)
  case (logged ls strftime open_ok level e n ls')
  then show ?case
    by (cases "get_logger ls n") (auto simp: Logger_log_written, simp add: Logger_log_def log_one_def)
next
  case (appender_level ls a ap level)
  then show ?case by (intro log_ok_put_appender) (auto simp: appender_ok_def Appender_setLevel_def)
qed (auto simp: Appender_setFormatter_def appender_ok_def
    intro: manager_ok getLogger_ok setLevel_ok setPattern_ok setFormatter_ok new_add_ok addAppender_ok delAppender_ok
      clearAppender_ok log_ok_put_appender listener_ok split: option.splits)



section \<open>Changing the formatter\<close>

text \<open>An appender that inherited its logger's formatter takes over the next formatter of the logger, but counts as
  having its own from then on: a further change of the logger's formatter does not reach it any more.\<close>

theorem formatter_inherited_once:
  assumes "get_logger ls n = Some lg" and "lg_appenders lg = [a]" and "ls_appenders ls a = Some ap"
    and "\<not> ap_hasFormatter ap" and "\<not> lf_error (LogFormatter p)" and "\<not> lf_error (LogFormatter q)"
  shows "(let ls1 = Logger_setPattern ls n p; ls2 = Logger_setPattern ls1 n q in
    map_option ap_formatter (ls_appenders ls1 a) = Some (Some (LogFormatter p)) \<and>
    map_option ap_formatter (ls_appenders ls2 a) = Some (Some (LogFormatter p)) \<and>
    map_option lg_formatter (get_logger ls2 n) = Some (Some (LogFormatter q)))"
  using assms
  by (simp add: Logger_setPattern_def Logger_setFormatter_def inherit_formatter_def Appender_setFormatter_def Let_def)

theorem formatter_inherited_once_witness:
  "(let ls = LoggerManager_new; ls2 = Logger_setPattern (Logger_setPattern ls ''root'' ''%m'') ''root'' ''%p'' in
    map_option ap_formatter (ls_appenders ls2 0) = Some (Some (LogFormatter ''%m'')))"
proof -
  obtain lg ap where *: "get_logger LoggerManager_new ''root'' = Some lg" "lg_appenders lg = [0]"
    "ls_appenders LoggerManager_new 0 = Some ap" "\<not> ap_hasFormatter ap"
    by (simp add: LoggerManager_new_def new_appender_def Logger_addAppender_def Logger_new_def StdoutLogAppender_def Let_def)
  have "\<not> lf_error (LogFormatter ''%m'')" and "\<not> lf_error (LogFormatter ''%p'')"
    by (simp_all add: LogFormatter_def parse_pattern_def parse_loop.simps part_item_def s_format_items_def)
  from formatter_inherited_once [OF * this] show ?thesis by (simp add: Let_def)
qed

section \<open>Applying a configuration\<close>

text \<open>The appender a definition becomes in a logger with formatter \<open>lf\<close>.\<close>

definition usable :: "log_appender_define list \<Rightarrow> log_appender_define list" where
  "usable ds = filter (\<lambda>d. define_appender d \<noteq> None) ds"

definition built :: "formatter option \<Rightarrow> log_appender_define \<Rightarrow> appender" where
  "built lf d =
     (let ap = configure_appender d (the (define_appender d))
      in if ap_formatter ap = None then ap\<lparr>ap_formatter := lf\<rparr> else ap)"

definition define_formatter :: "log_state \<Rightarrow> log_define \<Rightarrow> formatter option" where
  "define_formatter ls i =
     (if ld_formatter i \<noteq> [] \<and> \<not> lf_error (LogFormatter (ld_formatter i)) then Some (LogFormatter (ld_formatter i))
      else (case get_logger ls (ld_name i) of
              Some lg \<Rightarrow> lg_formatter lg | None \<Rightarrow> Some (LogFormatter default_pattern)))"

text \<open>\<open>ls'\<close> has the logger \<open>i\<close> describes, with new appenders.\<close>

definition has_defined :: "log_state \<Rightarrow> log_state \<Rightarrow> log_define \<Rightarrow> bool" where
  "has_defined ls ls' i \<longleftrightarrow> (case get_logger ls' (ld_name i) of
     None \<Rightarrow> False
   | Some lg \<Rightarrow> lg_level lg = ld_level i \<and> lg_formatter lg = define_formatter ls i \<and>
       map (ls_appenders ls') (lg_appenders lg) = map (Some \<circ> built (lg_formatter lg)) (usable (ld_appenders i)))"

lemma add_defined_step:
  assumes "get_logger ls n = Some lg"
  shows "add_defined n ls d =
    (if define_appender d = None then ls
     else put_logger ((put_appender ls (ls_next ls) (built (lg_formatter lg) d))\<lparr>ls_next := ls_next ls + 1\<rparr>) n
       (lg\<lparr>lg_appenders := lg_appenders lg @ [ls_next ls]\<rparr>))"
proof (cases "define_appender d")
  case (Some ap)
  have *: "put_appender ((put_appender ls a x)\<lparr>ls_next := k\<rparr>) a y = (put_appender ls a y)\<lparr>ls_next := k\<rparr>" for a x y k
    by (simp add: put_appender_def)
  show ?thesis
    using assms Some
    by (simp add: add_defined_def new_appender_def Logger_addAppender_def built_def Let_def *)
qed (simp add: add_defined_def)

lemma add_defined_all:
  assumes "get_logger ls n = Some lg"
  shows "let ls' = foldl (add_defined n) ls ds; k = length (usable ds) in
    ls_next ls' = ls_next ls + k \<and>
    get_logger ls' n = Some (lg\<lparr>lg_appenders := lg_appenders lg @ [ls_next ls..<ls_next ls + k]\<rparr>) \<and>
    (\<forall>m. m \<noteq> n \<longrightarrow> get_logger ls' m = get_logger ls m) \<and>
    (\<forall>a<ls_next ls. ls_appenders ls' a = ls_appenders ls a) \<and>
    map (ls_appenders ls') [ls_next ls..<ls_next ls + k] = map (Some \<circ> built (lg_formatter lg)) (usable ds)"
  using assms
proof (induction ds arbitrary: ls lg)
  case Nil
  then show ?case by (simp add: usable_def)
next
  case (Cons d ds)
  show ?case
  proof (cases "define_appender d")
    case None
    then show ?thesis
      using Cons.IH [OF Cons.prems] add_defined_step [OF Cons.prems, of d] by (simp add: usable_def)
  next
    case (Some ap)
    define ls1 lg1 where "ls1 = add_defined n ls d" and "lg1 = lg\<lparr>lg_appenders := lg_appenders lg @ [ls_next ls]\<rparr>"
    have ls1: "ls1 = put_logger ((put_appender ls (ls_next ls) (built (lg_formatter lg) d))\<lparr>ls_next := ls_next ls + 1\<rparr>) n lg1"
      using add_defined_step [OF Cons.prems, of d] Some by (simp add: ls1_def lg1_def)
    then have "get_logger ls1 n = Some lg1" by simp
    note IH = Cons.IH [OF this]
    have "usable (d # ds) = d # usable ds" using Some by (simp add: usable_def)
    moreover have "[ls_next ls..<ls_next ls + Suc k] = ls_next ls # [ls_next ls1..<ls_next ls1 + k]" for k
      by (simp add: ls1 upt_rec)
    moreover have "ls_next ls1 = Suc (ls_next ls)" by (simp add: ls1)
    ultimately show ?thesis
      using IH by (simp add: Let_def ls1 lg1_def flip: ls1_def)
  qed
qed

definition addresses :: "log_state \<Rightarrow> string \<Rightarrow> nat set" where
  "addresses ls n = (case get_logger ls n of None \<Rightarrow> {} | Some lg \<Rightarrow> set (lg_appenders lg))"

lemma inherit_all:
  "get_logger (foldl (inherit_formatter val) ls as) = get_logger ls \<and>
   ls_next (foldl (inherit_formatter val) ls as) = ls_next ls \<and>
   (\<forall>a. a \<notin> set as \<longrightarrow> ls_appenders (foldl (inherit_formatter val) ls as) a = ls_appenders ls a)"
proof (induction as arbitrary: ls)
  case (Cons a as)
  then show ?case by (auto simp: inherit_formatter_def fun_eq_iff split: option.split)
qed simp

lemma setPattern_effect:
  assumes "get_logger ls n = Some lg"
  shows "get_logger (Logger_setPattern ls n p) n
      = Some (if lf_error (LogFormatter p) then lg else lg\<lparr>lg_formatter := Some (LogFormatter p)\<rparr>)"
    and "m \<noteq> n \<Longrightarrow> get_logger (Logger_setPattern ls n p) m = get_logger ls m"
    and "ls_next (Logger_setPattern ls n p) = ls_next ls"
    and "a \<notin> set (lg_appenders lg) \<Longrightarrow> ls_appenders (Logger_setPattern ls n p) a = ls_appenders ls a"
  using assms by (simp_all add: Logger_setPattern_def Logger_setFormatter_def Let_def inherit_all)

lemma upd_logger_effect:
  "get_logger (upd_logger ls n f) m = (if m = n then map_option f (get_logger ls n) else get_logger ls m)"
  "ls_next (upd_logger ls n f) = ls_next ls" "ls_appenders (upd_logger ls n f) = ls_appenders ls"
  by (auto simp: upd_logger_def split: option.split)

lemma getLogger_effect:
  "get_logger (getLogger ls n) m =
     (if m = n then Some (case get_logger ls n of Some lg \<Rightarrow> lg | None \<Rightarrow> (Logger_new n)\<lparr>lg_has_root := True\<rparr>)
      else get_logger ls m)"
  "ls_next (getLogger ls n) = ls_next ls" "ls_appenders (getLogger ls n) = ls_appenders ls"
  by (auto simp: getLogger_def split: option.split)

text \<open>One definition: its own logger as described, the other loggers and foreign appenders as before.\<close>

lemma apply_define_effect:
  fixes ls i
  defines "ls' \<equiv> apply_define ls i"
  shows "has_defined ls ls' i"
    and "m \<noteq> ld_name i \<Longrightarrow> get_logger ls' m = get_logger ls m"
    and "a < ls_next ls \<Longrightarrow> a \<notin> addresses ls (ld_name i) \<Longrightarrow> ls_appenders ls' a = ls_appenders ls a"
    and "ls_next ls \<le> ls_next ls'" and "addresses ls' (ld_name i) \<subseteq> {ls_next ls..<ls_next ls'}"
proof -
  define n where "n = ld_name i"
  define ls1 where "ls1 = Logger_setLevel (getLogger ls n) n (ld_level i)"
  define ls2 where "ls2 = (if ld_formatter i \<noteq> [] then Logger_setPattern ls1 n (ld_formatter i) else ls1)"
  define ls3 where "ls3 = Logger_clearAppender ls2 n"
  have ls': "ls' = foldl (add_defined n) ls3 (ld_appenders i)"
    by (simp add: ls'_def apply_define_def Let_def ls3_def ls2_def ls1_def n_def)
  obtain lg1 where lg1: "get_logger ls1 n = Some lg1" "lg_level lg1 = ld_level i"
    "lg_formatter lg1 = (case get_logger ls n of Some lg \<Rightarrow> lg_formatter lg | None \<Rightarrow> Some (LogFormatter default_pattern))"
    "set (lg_appenders lg1) = addresses ls n"
    by (auto simp: ls1_def Logger_setLevel_def upd_logger_effect getLogger_effect addresses_def Logger_new_def split: option.split)
  have ls1: "get_logger ls1 m = get_logger ls m" if "m \<noteq> n" for m
    using that by (simp add: ls1_def Logger_setLevel_def upd_logger_effect getLogger_effect)
  have ls1_heap: "ls_next ls1 = ls_next ls" "ls_appenders ls1 = ls_appenders ls"
    by (simp_all add: ls1_def Logger_setLevel_def upd_logger_effect getLogger_effect)
  note sp = setPattern_effect [OF lg1(1)]
  have "get_logger ls2 n = Some (if ld_formatter i \<noteq> [] \<and> \<not> lf_error (LogFormatter (ld_formatter i))
      then lg1\<lparr>lg_formatter := Some (LogFormatter (ld_formatter i))\<rparr> else lg1)"
    using lg1(1) sp(1) [of "ld_formatter i"] by (simp add: ls2_def)
  then obtain lg3 where lg3: "get_logger ls3 n = Some lg3" "lg_level lg3 = ld_level i" "lg_formatter lg3 = define_formatter ls i"
    "lg_appenders lg3 = []"
    using lg1(2,3) by (simp add: ls3_def Logger_clearAppender_def upd_logger_effect define_formatter_def flip: n_def)
  have ls3: "get_logger ls3 m = get_logger ls m" if "m \<noteq> n" for m
    using that ls1 [OF that] sp(2) [OF that] by (simp add: ls3_def ls2_def Logger_clearAppender_def upd_logger_effect)
  have ls3_heap: "ls_next ls3 = ls_next ls" "a \<notin> addresses ls n \<Longrightarrow> ls_appenders ls3 a = ls_appenders ls a" for a
    using ls1_heap sp(3,4) lg1(4) by (simp_all add: ls3_def ls2_def Logger_clearAppender_def upd_logger_effect)
  note all = add_defined_all [OF lg3(1), of "ld_appenders i", unfolded Let_def, folded ls']
  show "has_defined ls ls' i"
    using all lg3 by (simp add: has_defined_def flip: n_def)
  show "get_logger ls' m = get_logger ls m" if "m \<noteq> ld_name i" for m
    using all ls3 that by (simp add: n_def)
  show "ls_appenders ls' a = ls_appenders ls a" if "a < ls_next ls" "a \<notin> addresses ls (ld_name i)" for a
    using all ls3_heap that by (simp add: n_def)
  show "ls_next ls \<le> ls_next ls'" and "addresses ls' (ld_name i) \<subseteq> {ls_next ls..<ls_next ls'}"
    using all ls3_heap lg3(4) by (auto simp: addresses_def simp flip: n_def)
qed


text \<open>The sets of definitions are ordered by name.\<close>

lemma log_define_less_keyed:
  "log_define_less = (\<lambda>a b. bytes_less (map of_char (ld_name a)) (map of_char (ld_name b)))"
  by (simp add: fun_eq_iff log_define_less_def string_less_def)

interpretation ld_ord: strict_weak_order log_define_less
  unfolding log_define_less_keyed by (rule keyed_order)

lemma ld_equivalent: "equivalent log_define_less i j \<longleftrightarrow> ld_name i = ld_name j"
  unfolding log_define_less_keyed equivalent_keyed by (simp only: of_char_inj)

lemma find_define:
  assumes "sorted_wrt log_define_less ds"
  shows "oset_find log_define_less i ds = None \<longleftrightarrow> ld_name i \<notin> ld_name ` set ds"
    and "(case oset_find log_define_less i ds of None \<Rightarrow> True | Some j \<Rightarrow> i \<noteq> j) \<longleftrightarrow> i \<notin> set ds"
proof -
  note iff = ld_ord.oset_find_iff [OF assms, of i, unfolded ld_equivalent]
  show "oset_find log_define_less i ds = None \<longleftrightarrow> ld_name i \<notin> ld_name ` set ds"
    using iff by (cases "oset_find log_define_less i ds") auto
  show "(case oset_find log_define_less i ds of None \<Rightarrow> True | Some j \<Rightarrow> i \<noteq> j) \<longleftrightarrow> i \<notin> set ds"
  proof (cases "i \<in> set ds")
    case True
    then have "oset_find log_define_less i ds = Some i" using iff by simp
    with True show ?thesis by simp
  next
    case False
    with iff show ?thesis by (auto split: option.split)
  qed
qed

lemma sorted_names: "sorted_wrt log_define_less ds \<Longrightarrow> distinct (map ld_name ds)"
  by (induction ds) (fastforce simp: log_define_less_def str_ord.irrefl)+

lemma has_defined_frame:
  assumes "has_defined ls ls1 i" and "get_logger ls2 (ld_name i) = get_logger ls1 (ld_name i)"
    and "\<And>a. a \<in> addresses ls1 (ld_name i) \<Longrightarrow> ls_appenders ls2 a = ls_appenders ls1 a"
  shows "has_defined ls ls2 i"
proof -
  obtain lg where lg: "get_logger ls1 (ld_name i) = Some lg"
    using assms(1) by (auto simp: has_defined_def split: option.splits)
  have "map (ls_appenders ls2) (lg_appenders lg) = map (ls_appenders ls1) (lg_appenders lg)"
    using assms(3) lg by (simp add: addresses_def)
  then show ?thesis using assms(1,2) lg by (simp add: has_defined_def del: map_eq_conv)
qed

lemma apply_all:
  fixes changed ls xs
  defines "ls' \<equiv> foldl (\<lambda>ls i. if changed i then apply_define ls i else ls) ls xs"
  assumes "distinct (map ld_name xs)" and "\<And>m. addresses ls m \<subseteq> {..<ls_next ls}"
  shows "(\<forall>n. n \<notin> ld_name ` {i \<in> set xs. changed i} \<longrightarrow> get_logger ls' n = get_logger ls n) \<and>
    (\<forall>i\<in>set xs. changed i \<longrightarrow> has_defined ls ls' i \<and> (\<forall>m. m \<noteq> ld_name i \<longrightarrow> addresses ls' m \<inter> addresses ls' (ld_name i) = {})) \<and>
    (\<forall>m. addresses ls' m \<subseteq> {..<ls_next ls'})"
  using assms(2) unfolding ls'_def
proof (induction xs rule: rev_induct)
  case Nil
  then show ?case using assms(3) by simp
next
  case (snoc x xs)
  define ls1 where "ls1 = foldl (\<lambda>ls i. if changed i then apply_define ls i else ls) ls xs"
  have names: "ld_name x \<notin> ld_name ` set xs" "distinct (map ld_name xs)" using snoc.prems by auto
  note IH = snoc.IH [OF names(2), folded ls1_def]
  show ?case
  proof (cases "changed x")
    case False
    then show ?thesis using IH by (auto simp flip: ls1_def)
  next
    case True
    define ls2 where "ls2 = apply_define ls1 x"
    note eff = apply_define_effect [where ls = ls1 and i = x, folded ls2_def]
    have bound: "addresses ls1 m \<subseteq> {..<ls_next ls1}" for m using IH by blast
    have other: "addresses ls2 m = addresses ls1 m" if "m \<noteq> ld_name x" for m
      using eff(2) [OF that] by (simp add: addresses_def)
    have apart: "addresses ls2 m \<inter> addresses ls2 (ld_name x) = {}" if "m \<noteq> ld_name x" for m
      using other [OF that] bound [of m] eff(5) by fastforce
    have "get_logger ls1 (ld_name x) = get_logger ls (ld_name x)" using IH names by auto
    then have "has_defined ls ls2 x"
      using eff(1) by (simp add: has_defined_def define_formatter_def split: option.splits)
    moreover have "has_defined ls ls2 i \<and> (\<forall>m. m \<noteq> ld_name i \<longrightarrow> addresses ls2 m \<inter> addresses ls2 (ld_name i) = {})"
      if "i \<in> set xs" "changed i" for i
    proof -
      have ix: "ld_name i \<noteq> ld_name x" using that(1) names(1) by (metis imageI)
      have old: "has_defined ls ls1 i" "\<forall>m. m \<noteq> ld_name i \<longrightarrow> addresses ls1 m \<inter> addresses ls1 (ld_name i) = {}"
        using IH that by auto
      have "ls_appenders ls2 a = ls_appenders ls1 a" if "a \<in> addresses ls1 (ld_name i)" for a
      proof (rule eff(3))
        show "a < ls_next ls1" using that bound [of "ld_name i"] by blast
        have "addresses ls1 (ld_name x) \<inter> addresses ls1 (ld_name i) = {}" using old(2) ix by simp
        then show "a \<notin> addresses ls1 (ld_name x)" using that by blast
      qed
      then have "has_defined ls ls2 i" by (rule has_defined_frame [OF old(1) eff(2) [OF ix]])
      moreover have "addresses ls2 m \<inter> addresses ls2 (ld_name i) = {}" if "m \<noteq> ld_name i" for m
        using that old(2) other [of m] other [OF ix] apart [OF ix] by (cases "m = ld_name x") auto
      ultimately show ?thesis by blast
    qed
    moreover have "addresses ls2 m \<subseteq> {..<ls_next ls2}" for m
      using bound [of m] other [of m] eff(4,5) by (cases "m = ld_name x") fastforce+
    moreover have "get_logger ls2 n = get_logger ls n" if n: "n \<notin> ld_name ` {i \<in> set (xs @ [x]). changed i}" for n
    proof -
      have "n \<noteq> ld_name x" using n True by auto
      moreover have "n \<notin> ld_name ` {i \<in> set xs. changed i}" using n by auto
      ultimately show ?thesis using IH eff(2) by simp
    qed
    ultimately have "(\<forall>n. n \<notin> ld_name ` {i \<in> set (xs @ [x]). changed i} \<longrightarrow> get_logger ls2 n = get_logger ls n) \<and>
      (\<forall>i\<in>set (xs @ [x]). changed i \<longrightarrow>
         has_defined ls ls2 i \<and> (\<forall>m. m \<noteq> ld_name i \<longrightarrow> addresses ls2 m \<inter> addresses ls2 (ld_name i) = {})) \<and>
      (\<forall>m. addresses ls2 m \<subseteq> {..<ls_next ls2})"
      using apart by auto
    moreover have "foldl (\<lambda>ls i. if changed i then apply_define ls i else ls) ls (xs @ [x]) = ls2"
      using True by (simp add: ls2_def ls1_def)
    ultimately show ?thesis by simp
  qed
qed


lemma remove_define_effect:
  "ls_appenders (remove_define ls i) = ls_appenders ls"
  "\<exists>lg. get_logger (remove_define ls i) (ld_name i) = Some lg \<and> lg_level lg = UNKNOWN \<and> lg_appenders lg = []"
  "m \<noteq> ld_name i \<Longrightarrow> get_logger (remove_define ls i) m = get_logger ls m"
  by (simp_all add: remove_define_def Let_def Logger_clearAppender_def Logger_setLevel_def upd_logger_effect getLogger_effect)

lemma remove_all:
  fixes gone ls xs
  defines "ls' \<equiv> foldl (\<lambda>ls i. if gone i then remove_define ls i else ls) ls xs"
  shows "ls_appenders ls' = ls_appenders ls" and "n \<notin> ld_name ` set (filter gone xs) \<Longrightarrow> get_logger ls' n = get_logger ls n"
    and "n \<in> ld_name ` set (filter gone xs) \<Longrightarrow> \<exists>lg. get_logger ls' n = Some lg \<and> lg_level lg = UNKNOWN \<and> lg_appenders lg = []"
proof -
  have "ls_appenders ls' = ls_appenders ls \<and>
    (if n \<in> ld_name ` set (filter gone xs)
     then (\<exists>lg. get_logger ls' n = Some lg \<and> lg_level lg = UNKNOWN \<and> lg_appenders lg = [])
     else get_logger ls' n = get_logger ls n)"
    unfolding ls'_def
  proof (induction xs rule: rev_induct)
    case (snoc x xs)
    show ?case
    proof (cases "gone x")
      case True
      then show ?thesis
        using snoc remove_define_effect(3) [of n x] by (cases "n = ld_name x") (simp_all add: remove_define_effect(1,2))
    next
      case False
      with snoc show ?thesis by simp
    qed
  qed simp
  then show "ls_appenders ls' = ls_appenders ls" and "n \<notin> ld_name ` set (filter gone xs) \<Longrightarrow> get_logger ls' n = get_logger ls n"
    and "n \<in> ld_name ` set (filter gone xs) \<Longrightarrow> \<exists>lg. get_logger ls' n = Some lg \<and> lg_level lg = UNKNOWN \<and> lg_appenders lg = []"
    by (auto split: if_splits)
qed

lemma ok_addresses: "log_ok ls \<Longrightarrow> addresses ls m \<subseteq> {..<ls_next ls}"
  by (auto simp: addresses_def logger_ok_def list_all_iff appender_ok_def dest: log_okD split: option.splits)

text \<open>What a change of the configuration does to the loggers.\<close>

definition configured :: "log_define list \<Rightarrow> log_define list \<Rightarrow> log_state \<Rightarrow> log_state \<Rightarrow> bool" where
  "configured old new ls ls' \<longleftrightarrow>
    (\<forall>i\<in>set new. if i \<in> set old then get_logger ls' (ld_name i) = get_logger ls (ld_name i) else has_defined ls ls' i) \<and>
    (\<forall>n. n \<notin> ld_name ` set new \<longrightarrow>
       (if n \<in> ld_name ` set old
        then \<exists>lg. get_logger ls' n = Some lg \<and> lg_level lg = UNKNOWN \<and> lg_appenders lg = []
        else get_logger ls' n = get_logger ls n))"

lemma listener_configured:
  assumes "log_reachable ls" and "sorted_wrt log_define_less old" and "sorted_wrt log_define_less new"
  shows "configured old new ls (LogIniter_listener old new ls)"
proof -
  define changed where "changed i \<longleftrightarrow> i \<notin> set old" for i
  define gone where "gone i \<longleftrightarrow> ld_name i \<notin> ld_name ` set new" for i :: log_define
  define ls1 where "ls1 = foldl (\<lambda>ls i. if changed i then apply_define ls i else ls) ls new"
  define ls2 where "ls2 = foldl (\<lambda>ls i. if gone i then remove_define ls i else ls) ls1 old"
  have "(\<lambda>ls i. case oset_find log_define_less i old of None \<Rightarrow> apply_define ls i
      | Some j \<Rightarrow> if i \<noteq> j then apply_define ls i else ls) = (\<lambda>ls i. if changed i then apply_define ls i else ls)"
  proof (intro ext)
    show "(case oset_find log_define_less i old of None \<Rightarrow> apply_define ls i
      | Some j \<Rightarrow> if i \<noteq> j then apply_define ls i else ls) = (if changed i then apply_define ls i else ls)" for ls i
      using find_define(2) [OF assms(2), of i]
      by (cases "oset_find log_define_less i old") (simp_all add: changed_def)
  qed
  then have ls2: "LogIniter_listener old new ls = ls2"
    by (simp add: LogIniter_listener_def ls2_def ls1_def gone_def find_define [OF assms(3)] Let_def)
  note add = apply_all [where changed = changed, OF sorted_names [OF assms(3)]
      ok_addresses [OF reachable_ok [OF assms(1)]], folded ls1_def]
  note rem = remove_all [where gone = gone and ls = ls1 and xs = old, folded ls2_def]
  have new: "get_logger ls2 (ld_name i) = get_logger ls1 (ld_name i)" if "i \<in> set new" for i
  proof -
    have "ld_name i \<in> ld_name ` set new" using that by (rule imageI)
    then show ?thesis by (intro rem(2)) (auto simp: gone_def)
  qed
  have "get_logger ls2 (ld_name i) = get_logger ls (ld_name i)" if "i \<in> set new" "i \<in> set old" for i
  proof -
    have "ld_name i \<notin> ld_name ` {i \<in> set new. changed i}"
      using that sorted_names [OF assms(3)] by (auto simp: changed_def distinct_map dest: inj_onD)
    then show ?thesis using add new [OF that(1)] by simp
  qed
  moreover have "has_defined ls ls2 i" if "i \<in> set new" "i \<notin> set old" for i
  proof (rule has_defined_frame)
    show "has_defined ls ls1 i" using add that by (simp add: changed_def)
    show "get_logger ls2 (ld_name i) = get_logger ls1 (ld_name i)" using that(1) by (rule new)
    show "ls_appenders ls2 a = ls_appenders ls1 a" for a by (simp add: rem(1))
  qed
  moreover have "\<exists>lg. get_logger ls2 n = Some lg \<and> lg_level lg = UNKNOWN \<and> lg_appenders lg = []"
    if "n \<notin> ld_name ` set new" "n \<in> ld_name ` set old" for n
    using that by (intro rem(3)) (auto simp: gone_def)
  moreover have "get_logger ls2 n = get_logger ls n" if "n \<notin> ld_name ` set new" "n \<notin> ld_name ` set old" for n
  proof -
    have "n \<notin> ld_name ` {i \<in> set old. gone i}" and "n \<notin> ld_name ` {i \<in> set new. changed i}" using that by auto
    then show ?thesis using rem(2) [of n] add by auto
  qed
  ultimately show ?thesis by (simp add: ls2 configured_def)
qed

text \<open>C30. When the value of \<open>logs\<close> changes, every logger of the new value that is not literally in the old one gets
  the level, the formatter and exactly the appenders its definition describes; a logger that is only in the old value
  loses its appenders and its level, so that the root writes for it; all other loggers stay as they are.\<close>

theorem config_applied:
  assumes "log_reachable ls" and "sorted_wrt log_define_less old" and "sorted_wrt log_define_less new"
  shows "let ls' = LogIniter_listener old new ls in
    (\<forall>i\<in>set new. if i \<in> set old then get_logger ls' (ld_name i) = get_logger ls (ld_name i) else has_defined ls ls' i) \<and>
    (\<forall>n. n \<notin> ld_name ` set new \<longrightarrow>
       (if n \<in> ld_name ` set old
        then \<exists>lg. get_logger ls' n = Some lg \<and> lg_level lg = UNKNOWN \<and> lg_appenders lg = []
        else get_logger ls' n = get_logger ls n))"
  using listener_configured [OF assms] by (simp only: configured_def Let_def)

theorem config_applied_witness:
  "let i = \<lparr>ld_name = ''system'', ld_level = INFO, ld_formatter = [], ld_appenders =
      [\<lparr>lad_type = 1, lad_level = UNKNOWN, lad_formatter = [], lad_file = ''s.log''\<rparr>]\<rparr>
   in has_defined LoggerManager_new (LogIniter_listener [] [i] LoggerManager_new) i"
proof -
  have "log_reachable LoggerManager_new" by (rule log_reachable.manager)
  then show ?thesis
    using config_applied [of LoggerManager_new "[]" "[\<lparr>ld_name = ''system'', ld_level = INFO, ld_formatter = [],
        ld_appenders = [\<lparr>lad_type = 1, lad_level = UNKNOWN, lad_formatter = [], lad_file = ''s.log''\<rparr>]\<rparr>]"]
    by (simp add: Let_def)
qed

end
