(* ===== verification/Yaml.thy ===== *)
theory Yaml
  imports C_String
begin

text \<open>
  The conversions between YAML text and containers in \<open>include/config.h\<close> (\<open>LexicalCast\<close>). A \<open>YAML::Node\<close> is data of
  four kinds. The parser \<open>YAML::Load\<close>, the emitter \<open>operator<<\<close> and the indexing of a node belong to yaml-cpp and are
  the fields of \<open>yaml_lib\<close>. A conversion that throws returns \<open>None\<close>.
\<close>

section \<open>Nodes\<close>

datatype yaml = YNull | YScalar string | YSeq "yaml list" | YMap "(string \<times> yaml) list"

record yaml_lib =
  yl_load :: "string \<Rightarrow> yaml option"
  yl_emit :: "yaml \<Rightarrow> string"
  yl_at :: "yaml \<Rightarrow> nat \<Rightarrow> yaml"

fun yaml_size :: "yaml \<Rightarrow> nat" where
  "yaml_size (YSeq ns) = length ns"
| "yaml_size (YMap kvs) = length kvs"
| "yaml_size _ = 0"

text \<open>\<open>push_back\<close> and assignment to a key; a node that has no value becomes a sequence or a map.\<close>

fun push_back :: "yaml \<Rightarrow> yaml \<Rightarrow> yaml" where
  "push_back (YSeq ns) n = YSeq (ns @ [n])"
| "push_back _ n = YSeq [n]"

fun assoc_put :: "string \<Rightarrow> 'a \<Rightarrow> (string \<times> 'a) list \<Rightarrow> (string \<times> 'a) list" where
  "assoc_put k v [] = [(k, v)]"
| "assoc_put k v ((k', v') # m) = (if k = k' then (k', v) # m else (k', v') # assoc_put k v m)"

fun yaml_put :: "yaml \<Rightarrow> string \<Rightarrow> yaml \<Rightarrow> yaml" where
  "yaml_put (YMap kvs) k n = YMap (assoc_put k n kvs)"
| "yaml_put _ k n = YMap [(k, n)]"

text \<open>The pairs an iterator visits; the first of a pair of a sequence is no node.\<close>

fun yaml_pairs :: "yaml \<Rightarrow> (string \<times> yaml) list option" where
  "yaml_pairs (YMap kvs) = Some kvs"
| "yaml_pairs (YSeq (n # ns)) = None"
| "yaml_pairs _ = Some []"

section \<open>Typed access\<close>

text \<open>
  What yaml-cpp does: \<open>as<int>\<close> and \<open>as<string>\<close> of a node, \<open>None\<close> when it has another type, the scalars they are printed
  to, and \<open>operator[]\<close> of a map or an empty node, \<open>None\<close> for a key it does not define; on a scalar it throws.
\<close>

record yaml_as =
  ya_int :: "yaml \<Rightarrow> int option"
  ya_string :: "yaml \<Rightarrow> string option"
  ya_of_int :: "int \<Rightarrow> yaml"
  ya_of_string :: "string \<Rightarrow> yaml"

definition yaml_key :: "yaml \<Rightarrow> string \<Rightarrow> yaml option" where
  "yaml_key n k = (case n of YMap kvs \<Rightarrow> map_of kvs k | _ \<Rightarrow> None)"

text \<open>What a conversion of the scalars back and forth keeps.\<close>

definition as_ok :: "yaml_as \<Rightarrow> bool" where
  "as_ok ya \<longleftrightarrow> (\<forall>i. ya_int ya (ya_of_int ya i) = Some i) \<and> (\<forall>s. ya_string ya (ya_of_string ya s) = Some s)"

definition sample_as :: yaml_as where
  "sample_as = \<lparr>ya_int = (\<lambda>n. case n of YSeq ns \<Rightarrow> Some (int (length ns)) | YMap kvs \<Rightarrow> Some (- int (length kvs)) | _ \<Rightarrow> None),
     ya_string = (\<lambda>n. case n of YScalar s \<Rightarrow> Some s | _ \<Rightarrow> None),
     ya_of_int = (\<lambda>i. if 0 \<le> i then YSeq (replicate (nat i) YNull) else YMap (replicate (nat (- i)) ([], YNull))),
     ya_of_string = YScalar\<rparr>"

text \<open>Appending to the sequence of a key.\<close>

definition yaml_append :: "yaml \<Rightarrow> string \<Rightarrow> yaml \<Rightarrow> yaml" where
  "yaml_append n k x = yaml_put n k (push_back (case yaml_key n k of None \<Rightarrow> YNull | Some xs \<Rightarrow> xs) x)"

section \<open>Sequences\<close>

text \<open>The loop over \<open>node[i]\<close>: each element is printed and converted.\<close>

fun cast_items :: "yaml_lib \<Rightarrow> (string \<Rightarrow> 'a option) \<Rightarrow> yaml \<Rightarrow> nat list \<Rightarrow> 'a list option" where
  "cast_items lib cast node [] = Some []"
| "cast_items lib cast node (i # is) =
     (case cast (yl_emit lib (yl_at lib node i)) of
        None \<Rightarrow> None
      | Some x \<Rightarrow> map_option ((#) x) (cast_items lib cast node is))"

definition cast_vector :: "yaml_lib \<Rightarrow> (string \<Rightarrow> 'a option) \<Rightarrow> string \<Rightarrow> 'a list option" where
  "cast_vector lib cast v =
     (case yl_load lib v of
        None \<Rightarrow> None
      | Some node \<Rightarrow> cast_items lib cast node [0..<yaml_size node])"

definition cast_list :: "yaml_lib \<Rightarrow> (string \<Rightarrow> 'a option) \<Rightarrow> string \<Rightarrow> 'a list option" where
  "cast_list lib cast v =
     (case yl_load lib v of
        None \<Rightarrow> None
      | Some node \<Rightarrow> cast_items lib cast node [0..<yaml_size node])"

text \<open>A \<open>std::set\<close> with the order \<open>lt\<close> of its elements, and an \<open>unordered_set\<close>.\<close>

definition cast_oset :: "('a \<Rightarrow> 'a \<Rightarrow> bool) \<Rightarrow> yaml_lib \<Rightarrow> (string \<Rightarrow> 'a option) \<Rightarrow> string \<Rightarrow> 'a list option" where
  "cast_oset lt lib cast v =
     (case yl_load lib v of
        None \<Rightarrow> None
      | Some node \<Rightarrow> map_option (foldl (\<lambda>s x. oset_insert lt x s) []) (cast_items lib cast node [0..<yaml_size node]))"

definition cast_unordered_set :: "yaml_lib \<Rightarrow> (string \<Rightarrow> 'a option) \<Rightarrow> string \<Rightarrow> 'a set option" where
  "cast_unordered_set lib cast v =
     (case yl_load lib v of
        None \<Rightarrow> None
      | Some node \<Rightarrow> map_option set (cast_items lib cast node [0..<yaml_size node]))"

text \<open>The way back: the elements in the order the container is iterated.\<close>

fun items_node :: "yaml_lib \<Rightarrow> ('a \<Rightarrow> string option) \<Rightarrow> yaml \<Rightarrow> 'a list \<Rightarrow> yaml option" where
  "items_node lib uncast node [] = Some node"
| "items_node lib uncast node (x # xs) =
     (case uncast x of
        None \<Rightarrow> None
      | Some s \<Rightarrow> (case yl_load lib s of
          None \<Rightarrow> None
        | Some n \<Rightarrow> items_node lib uncast (push_back node n) xs))"

definition uncast_seq :: "yaml_lib \<Rightarrow> ('a \<Rightarrow> string option) \<Rightarrow> 'a list \<Rightarrow> string option" where
  "uncast_seq lib uncast xs = map_option (yl_emit lib) (items_node lib uncast YNull xs)"

section \<open>Maps\<close>

fun cast_pairs :: "yaml_lib \<Rightarrow> (string \<Rightarrow> 'a option) \<Rightarrow> (string \<times> yaml) list \<Rightarrow> (string \<times> 'a) list option" where
  "cast_pairs lib cast [] = Some []"
| "cast_pairs lib cast ((k, n) # kvs) =
     (case cast (yl_emit lib n) of
        None \<Rightarrow> None
      | Some x \<Rightarrow> map_option ((#) (k, x)) (cast_pairs lib cast kvs))"

definition cast_map :: "yaml_lib \<Rightarrow> (string \<Rightarrow> 'a option) \<Rightarrow> string \<Rightarrow> (string \<times> 'a) list option" where
  "cast_map lib cast v =
     (case yl_load lib v of
        None \<Rightarrow> None
      | Some node \<Rightarrow> (case yaml_pairs node of
          None \<Rightarrow> None
        | Some kvs \<Rightarrow> map_option (foldl (\<lambda>m (k, x). omap_add string_less k x m) []) (cast_pairs lib cast kvs)))"

definition cast_unordered_map :: "yaml_lib \<Rightarrow> (string \<Rightarrow> 'a option) \<Rightarrow> string \<Rightarrow> (string \<Rightarrow> 'a option) option" where
  "cast_unordered_map lib cast v =
     (case yl_load lib v of
        None \<Rightarrow> None
      | Some node \<Rightarrow> (case yaml_pairs node of
          None \<Rightarrow> None
        | Some kvs \<Rightarrow> map_option map_of (cast_pairs lib cast kvs)))"

fun pairs_node :: "yaml_lib \<Rightarrow> ('a \<Rightarrow> string option) \<Rightarrow> yaml \<Rightarrow> (string \<times> 'a) list \<Rightarrow> yaml option" where
  "pairs_node lib uncast node [] = Some node"
| "pairs_node lib uncast node ((k, x) # kxs) =
     (case uncast x of
        None \<Rightarrow> None
      | Some s \<Rightarrow> (case yl_load lib s of
          None \<Rightarrow> None
        | Some n \<Rightarrow> pairs_node lib uncast (yaml_put node k n) kxs))"

definition uncast_map :: "yaml_lib \<Rightarrow> ('a \<Rightarrow> string option) \<Rightarrow> (string \<times> 'a) list \<Rightarrow> string option" where
  "uncast_map lib uncast m = map_option (yl_emit lib) (pairs_node lib uncast YNull m)"

section \<open>Round trips\<close>

text \<open>What the round trips ask of yaml-cpp: indexing a sequence, and reading back the node that was printed.\<close>

definition indexes :: "yaml_lib \<Rightarrow> bool" where
  "indexes lib \<longleftrightarrow> (\<forall>ns i. i < length ns \<longrightarrow> yl_at lib (YSeq ns) i = ns ! i)"

definition reads_back :: "yaml_lib \<Rightarrow> yaml \<Rightarrow> bool" where
  "reads_back lib n \<longleftrightarrow> yl_load lib (yl_emit lib n) = Some n"

text \<open>The node of an element, and that the element is found again in the node's text.\<close>

definition element_node :: "yaml_lib \<Rightarrow> ('a \<Rightarrow> string option) \<Rightarrow> (string \<Rightarrow> 'a option) \<Rightarrow> 'a \<Rightarrow> yaml \<Rightarrow> bool" where
  "element_node lib uncast cast x n \<longleftrightarrow>
     (case uncast x of None \<Rightarrow> False | Some s \<Rightarrow> yl_load lib s = Some n \<and> cast (yl_emit lib n) = Some x)"

lemma items_node_seq:
  "list_all2 (element_node lib uncast cast) xs ns \<Longrightarrow> items_node lib uncast (YSeq ms) xs = Some (YSeq (ms @ ns))"
  by (induction xs ns arbitrary: ms rule: list_all2_induct) (auto simp: element_node_def split: option.splits)

abbreviation seq_node :: "yaml list \<Rightarrow> yaml" where
  "seq_node ns \<equiv> (if ns = [] then YNull else YSeq ns)"

lemma items_node_null:
  assumes "list_all2 (element_node lib uncast cast) xs ns"
  shows "items_node lib uncast YNull xs = Some (seq_node ns)"
proof (cases xs)
  case (Cons x xs')
  then obtain n ns' where "ns = n # ns'" "element_node lib uncast cast x n" "list_all2 (element_node lib uncast cast) xs' ns'"
    using assms by (auto simp: list_all2_Cons1)
  then show ?thesis using Cons by (auto simp: element_node_def items_node_seq split: option.splits)
qed (use assms in simp)

lemma cast_items_all:
  "list_all2 (\<lambda>i x. cast (yl_emit lib (yl_at lib node i)) = Some x) is xs \<Longrightarrow> cast_items lib cast node is = Some xs"
  by (induction "is" xs rule: list_all2_induct) simp_all

text \<open>Reading a printed sequence gives its elements, however they are then collected.\<close>

lemma cast_items_round_trip:
  assumes "indexes lib" and "list_all2 (element_node lib uncast cast) xs ns" and "reads_back lib (seq_node ns)"
  shows "\<exists>s. uncast_seq lib uncast xs = Some s \<and> yl_load lib s = Some (seq_node ns) \<and>
    cast_items lib cast (seq_node ns) [0..<yaml_size (seq_node ns)] = Some xs"
proof -
  have "list_all2 (\<lambda>i x. cast (yl_emit lib (yl_at lib (YSeq ns) i)) = Some x) [0..<length ns] xs"
    using assms(1,2)
    by (fastforce simp: list_all2_conv_all_nth indexes_def element_node_def split: option.splits)
  then have "cast_items lib cast (seq_node ns) [0..<yaml_size (seq_node ns)] = Some xs"
    using assms(2) by (auto intro: cast_items_all)
  then show ?thesis
    using assms(3) by (simp add: uncast_seq_def items_node_null [OF assms(2)] reads_back_def)
qed

lemma assoc_put_new: "k \<notin> fst ` set m \<Longrightarrow> assoc_put k v m = m @ [(k, v)]"
  by (induction m) auto

lemma yaml_key_map [simp]: "yaml_key (YMap kvs) k = map_of kvs k" "yaml_key YNull k = None"
  by (simp_all add: yaml_key_def)

lemma assoc_put_absent: "map_of kvs k = None \<Longrightarrow> assoc_put k v kvs = kvs @ [(k, v)]"
  by (simp add: assoc_put_new map_of_eq_None_iff)

lemma assoc_put_last: "map_of kvs k = None \<Longrightarrow> assoc_put k v (kvs @ [(k, w)]) = kvs @ [(k, v)]"
  by (induction kvs) (auto split: if_splits)

lemma append_all:
  assumes "map_of kvs k = None"
  shows "foldl (\<lambda>n a. yaml_append n k (f a)) (YMap kvs) as
    = (if as = [] then YMap kvs else YMap (kvs @ [(k, YSeq (map f as))]))"
proof -
  have more: "foldl (\<lambda>n a. yaml_append n k (f a)) (YMap (kvs @ [(k, YSeq ns)])) bs = YMap (kvs @ [(k, YSeq (ns @ map f bs))])" for ns bs
    using assms
    by (induction bs arbitrary: ns) (simp_all add: yaml_append_def assoc_put_last map_add_def)
  show ?thesis
  proof (cases as)
    case (Cons a as')
    then show ?thesis using assms more [of "[f a]" as'] by (simp add: assoc_put_absent [OF assms] yaml_append_def [of "YMap kvs"])
  qed simp
qed

lemma pairs_node_map:
  "list_all2 (\<lambda>(k, x) (j, n). j = k \<and> element_node lib uncast cast x n) kxs kns \<Longrightarrow> distinct (map fst ms @ map fst kxs) \<Longrightarrow>
   pairs_node lib uncast (YMap ms) kxs = Some (YMap (ms @ kns))"
proof (induction kxs kns arbitrary: ms rule: list_all2_induct)
  case (Cons kx kxs kn kns)
  then show ?case
    by (cases kx; cases kn) (auto simp: element_node_def assoc_put_new split: option.splits)
qed simp

abbreviation map_node :: "(string \<times> yaml) list \<Rightarrow> yaml" where
  "map_node kns \<equiv> (if kns = [] then YNull else YMap kns)"

lemma pairs_node_null:
  assumes "list_all2 (\<lambda>(k, x) (j, n). j = k \<and> element_node lib uncast cast x n) kxs kns" and "distinct (map fst kxs)"
  shows "pairs_node lib uncast YNull kxs = Some (map_node kns)"
proof (cases kxs)
  case (Cons kx kxs')
  then obtain kn kns' where *: "kns = kn # kns'" "fst kn = fst kx" "element_node lib uncast cast (snd kx) (snd kn)"
    "list_all2 (\<lambda>(k, x) (j, n). j = k \<and> element_node lib uncast cast x n) kxs' kns'"
    using assms(1) by (auto simp: list_all2_Cons1)
  have "pairs_node lib uncast (YMap [kn]) kxs' = Some (YMap ([kn] @ kns'))"
    using * assms(2) Cons by (intro pairs_node_map) auto
  then show ?thesis using * Cons
    by (cases kx; cases kn) (auto simp: element_node_def split: option.splits)
qed (use assms in simp)

lemma cast_pairs_all:
  "list_all2 (\<lambda>(k, x) (j, n). j = k \<and> element_node lib uncast cast x n) kxs kns \<Longrightarrow> cast_pairs lib cast kns = Some kxs"
  by (induction kxs kns rule: list_all2_induct) (auto simp: element_node_def split: option.splits)

lemma map_round_trip:
  assumes "list_all2 (\<lambda>(k, x) (j, n). j = k \<and> element_node lib uncast cast x n) kxs kns" and "distinct (map fst kxs)"
    and "reads_back lib (map_node kns)"
  shows "\<exists>s kvs. uncast_map lib uncast kxs = Some s \<and> yl_load lib s = Some (map_node kns) \<and>
    yaml_pairs (map_node kns) = Some kvs \<and> cast_pairs lib cast kvs = Some kxs"
  using assms(3) cast_pairs_all [OF assms(1)] assms(1)
  by (auto simp: uncast_map_def pairs_node_null [OF assms(1,2)] reads_back_def)

text \<open>Collecting elements that come in order.\<close>

lemma oset_insert_last: "\<forall>y\<in>set ys. lt y x \<and> \<not> lt x y \<Longrightarrow> oset_insert lt x ys = ys @ [x]"
  by (induction ys) auto

lemma foldl_oset_insert:
  assumes "strict_weak_order lt" and "sorted_wrt lt (ys @ xs)"
  shows "foldl (\<lambda>s x. oset_insert lt x s) ys xs = ys @ xs"
  using assms(2)
proof (induction xs arbitrary: ys)
  case (Cons x xs)
  have "oset_insert lt x ys = ys @ [x]"
    using Cons.prems strict_weak_order.asym [OF assms(1)] by (intro oset_insert_last) (auto simp: sorted_wrt_append)
  then show ?case using Cons by simp
qed simp

lemma omap_put_last: "\<forall>k'\<in>fst ` set m. lt k' k \<and> \<not> lt k k' \<Longrightarrow> omap_add lt k v m = m @ [(k, v)]"
proof -
  assume *: "\<forall>k'\<in>fst ` set m. lt k' k \<and> \<not> lt k k'"
  have "omap_get lt k m = None" using * by (induction m) auto
  moreover have "omap_put lt k v m = m @ [(k, v)]" using * by (induction m) auto
  ultimately show ?thesis by (simp add: omap_add_def)
qed

lemma foldl_omap_add:
  assumes "strict_weak_order lt" and "omap_ok lt (m @ kxs)"
  shows "foldl (\<lambda>m (k, x). omap_add lt k x m) m kxs = m @ kxs"
  using assms(2)
proof (induction kxs arbitrary: m)
  case (Cons kx kxs)
  obtain k x where kx: "kx = (k, x)" by (cases kx)
  have "omap_add lt k x m = m @ [(k, x)]"
    using Cons.prems strict_weak_order.asym [OF assms(1)] kx
    by (intro omap_put_last) (auto simp: omap_ok_def sorted_wrt_append)
  then show ?case using Cons kx by simp
qed simp


definition sample_lib :: yaml_lib where
  "sample_lib = \<lparr>yl_load = (\<lambda>s. Some (if s = ''- a'' then YSeq [YScalar ''a''] else if s = ''k: a'' then YMap [(''k'', YScalar ''a'')]
       else YScalar s)),
     yl_emit = (\<lambda>n. case n of YScalar s \<Rightarrow> s | YSeq _ \<Rightarrow> ''- a'' | YMap _ \<Rightarrow> ''k: a'' | YNull \<Rightarrow> []),
     yl_at = (\<lambda>n i. case n of YSeq ns \<Rightarrow> ns ! i | _ \<Rightarrow> YNull)\<rparr>"


end
