(* ===== verification/Log_Config.thy ===== *)
theory Log_Config
  imports Logger Yaml
begin

text \<open>
  The YAML texts of \<open>src/log.cpp\<close>: reading and writing a \<open>LogDefine\<close>, and the texts of appenders, loggers and the manager.
\<close>

section \<open>Reading a definition\<close>

definition yaml_string :: "yaml_as \<Rightarrow> yaml option \<Rightarrow> string option" where
  "yaml_string ya n = (case n of None \<Rightarrow> None | Some m \<Rightarrow> ya_string ya m)"

text \<open>A field that is converted only when it is defined; a failing conversion throws.\<close>

definition yaml_field :: "yaml_as \<Rightarrow> yaml \<Rightarrow> string \<Rightarrow> string \<Rightarrow> string option" where
  "yaml_field ya n k d = (case yaml_key n k of None \<Rightarrow> Some d | Some m \<Rightarrow> ya_string ya m)"

definition appender_define0 :: log_appender_define where
  "appender_define0 = \<lparr>lad_type = 0, lad_level = UNKNOWN, lad_formatter = [], lad_file = []\<rparr>"

text \<open>One entry of \<open>appenders\<close>: \<open>Some None\<close> when it is reported and skipped, \<open>None\<close> when it throws.\<close>

definition cast_appender :: "yaml_as \<Rightarrow> yaml \<Rightarrow> log_appender_define option option" where
  "cast_appender ya a =
     (case a of YScalar _ \<Rightarrow> None | _ \<Rightarrow>
      if yaml_key a ''type'' = None then Some None
      else case yaml_string ya (yaml_key a ''type'') of
        None \<Rightarrow> None
      | Some type \<Rightarrow>
          if type = ''FileLogAppender'' then
            (if yaml_key a ''file'' = None then Some None
             else case (yaml_string ya (yaml_key a ''file''), yaml_field ya a ''formatter'' []) of
               (Some f, Some fmt) \<Rightarrow> Some (Some (appender_define0\<lparr>lad_type := 1, lad_file := f, lad_formatter := fmt\<rparr>))
             | _ \<Rightarrow> None)
          else if type = ''StdoutLogAppender'' then Some (Some (appender_define0\<lparr>lad_type := 2\<rparr>))
          else Some None)"

fun cast_appenders :: "yaml_lib \<Rightarrow> yaml_as \<Rightarrow> yaml \<Rightarrow> nat list \<Rightarrow> log_appender_define list option" where
  "cast_appenders lib ya n [] = Some []"
| "cast_appenders lib ya n (i # is) =
     (case cast_appender ya (yl_at lib n i) of
        None \<Rightarrow> None
      | Some None \<Rightarrow> cast_appenders lib ya n is
      | Some (Some a) \<Rightarrow> map_option ((#) a) (cast_appenders lib ya n is))"

definition cast_log_define :: "yaml_lib \<Rightarrow> yaml_as \<Rightarrow> string \<Rightarrow> log_define option" where
  "cast_log_define lib ya str =
     (case yl_load lib str of
        None \<Rightarrow> None
      | Some node \<Rightarrow>
          (case (yaml_string ya (yaml_key node ''name''), yaml_field ya node ''level'' [], yaml_field ya node ''formatter'' []) of
             (Some name, Some level, Some fmt) \<Rightarrow>
               map_option (\<lambda>as. \<lparr>ld_name = name, ld_level = Level_FromString level, ld_formatter = fmt, ld_appenders = as\<rparr>)
                 (case yaml_key node ''appenders'' of
                    None \<Rightarrow> Some []
                  | Some as \<Rightarrow> cast_appenders lib ya as [0..<yaml_size as])
           | _ \<Rightarrow> None))"

section \<open>Writing\<close>

text \<open>An appender of a definition; the level that is written is that of the definition.\<close>

definition uncast_appender :: "yaml_as \<Rightarrow> log_define \<Rightarrow> log_appender_define \<Rightarrow> yaml" where
  "uncast_appender ya ld a =
     (let na = YNull;
          na = (if lad_type a = 1 then yaml_put (yaml_put na ''type'' (ya_of_string ya ''FileLogAppender''))
                                          ''file'' (ya_of_string ya (lad_file a))
                else if lad_type a = 2 then yaml_put na ''type'' (ya_of_string ya ''StdoutAppender'') else na);
          na = (if lad_level a \<noteq> UNKNOWN then yaml_put na ''level'' (ya_of_string ya (Level_ToString (ld_level ld))) else na)
      in if lad_formatter a \<noteq> [] then yaml_put na ''formatter'' (ya_of_string ya (lad_formatter a)) else na)"

definition define_node :: "yaml_as \<Rightarrow> log_define \<Rightarrow> yaml" where
  "define_node ya ld =
     (let node = yaml_put YNull ''name'' (ya_of_string ya (ld_name ld));
          node = (if ld_level ld \<noteq> UNKNOWN then yaml_put node ''level'' (ya_of_string ya (Level_ToString (ld_level ld))) else node);
          node = (if ld_formatter ld \<noteq> [] then yaml_put node ''formatter'' (ya_of_string ya (ld_formatter ld)) else node)
      in foldl (\<lambda>n a. yaml_append n ''appenders'' (uncast_appender ya ld a)) node (ld_appenders ld))"

definition uncast_log_define :: "yaml_lib \<Rightarrow> yaml_as \<Rightarrow> log_define \<Rightarrow> string" where
  "uncast_log_define lib ya ld = yl_emit lib (define_node ya ld)"

text \<open>The texts of the appenders in use, of a logger and of the manager; an unreadable text makes \<open>Load\<close> throw.\<close>

definition appender_node :: "yaml_as \<Rightarrow> appender \<Rightarrow> yaml" where
  "appender_node ya a =
     (let node = (case ap_sink a of
             ToFile file \<Rightarrow> yaml_put (yaml_put YNull ''type'' (ya_of_string ya ''FileLogAppender'')) ''file'' (ya_of_string ya file)
           | ToStdout \<Rightarrow> yaml_put YNull ''type'' (ya_of_string ya ''StdoutLogAppender''));
          node = (if ap_level a \<noteq> UNKNOWN then yaml_put node ''level'' (ya_of_string ya (Level_ToString (ap_level a))) else node)
      in case ap_formatter a of
           Some f \<Rightarrow> if ap_hasFormatter a then yaml_put node ''formatter'' (ya_of_string ya (lf_pattern f)) else node
         | None \<Rightarrow> node)"

definition appender_toYamlString :: "yaml_lib \<Rightarrow> yaml_as \<Rightarrow> appender \<Rightarrow> string" where
  "appender_toYamlString lib ya a = yl_emit lib (appender_node ya a)"

fun append_loaded :: "yaml_lib \<Rightarrow> (yaml \<Rightarrow> yaml \<Rightarrow> yaml) \<Rightarrow> yaml \<Rightarrow> string list \<Rightarrow> yaml option" where
  "append_loaded lib add node [] = Some node"
| "append_loaded lib add node (s # ss) =
     (case yl_load lib s of None \<Rightarrow> None | Some n \<Rightarrow> append_loaded lib add (add node n) ss)"

definition Logger_toYamlString :: "yaml_lib \<Rightarrow> yaml_as \<Rightarrow> log_state \<Rightarrow> logger \<Rightarrow> string option" where
  "Logger_toYamlString lib ya ls lg =
     (let node = yaml_put YNull ''name'' (ya_of_string ya (lg_name lg));
          node = (if lg_level lg \<noteq> UNKNOWN then yaml_put node ''level'' (ya_of_string ya (Level_ToString (lg_level lg))) else node);
          node = (case lg_formatter lg of None \<Rightarrow> node
                  | Some f \<Rightarrow> yaml_put node ''formatter'' (ya_of_string ya (lf_pattern f)));
          texts = map (\<lambda>p. case ls_appenders ls p of None \<Rightarrow> [] | Some a \<Rightarrow> appender_toYamlString lib ya a) (lg_appenders lg)
      in map_option (yl_emit lib) (append_loaded lib (\<lambda>n. yaml_append n ''appenders'') node texts))"

fun logger_texts :: "yaml_lib \<Rightarrow> yaml_as \<Rightarrow> log_state \<Rightarrow> logger list \<Rightarrow> string list option" where
  "logger_texts lib ya ls [] = Some []"
| "logger_texts lib ya ls (lg # lgs) =
     (case Logger_toYamlString lib ya ls lg of None \<Rightarrow> None | Some s \<Rightarrow> map_option ((#) s) (logger_texts lib ya ls lgs))"

definition LoggerManager_toYamlString :: "yaml_lib \<Rightarrow> yaml_as \<Rightarrow> log_state \<Rightarrow> string option" where
  "LoggerManager_toYamlString lib ya ls =
     (case logger_texts lib ya ls (map snd (ls_loggers ls)) of
        None \<Rightarrow> None
      | Some texts \<Rightarrow> map_option (yl_emit lib) (append_loaded lib push_back YNull texts))"

section \<open>Facts\<close>

text \<open>The fields of a definition's node in front of the appenders.\<close>

definition define_fields :: "yaml_as \<Rightarrow> log_define \<Rightarrow> (string \<times> yaml) list" where
  "define_fields ya ld = (''name'', ya_of_string ya (ld_name ld)) #
     (if ld_level ld \<noteq> UNKNOWN then [(''level'', ya_of_string ya (Level_ToString (ld_level ld)))] else []) @
     (if ld_formatter ld \<noteq> [] then [(''formatter'', ya_of_string ya (ld_formatter ld))] else [])"

lemma define_node_eq:
  "define_node ya ld = YMap (define_fields ya ld @
     (if ld_appenders ld = [] then [] else [(''appenders'', YSeq (map (uncast_appender ya ld) (ld_appenders ld)))]))"
  by (simp add: define_node_def define_fields_def append_all)

text \<open>What reading an appender's node gives: a file appender without its level, nothing for any other.\<close>

definition read_back :: "log_appender_define \<Rightarrow> log_appender_define option" where
  "read_back a = (if lad_type a = 1 then Some (a\<lparr>lad_level := UNKNOWN\<rparr>) else None)"

lemma cast_uncast_appender:
  assumes "as_ok ya"
  shows "cast_appender ya (uncast_appender ya ld a) = Some (read_back a)"
  using assms
  by (cases a) (auto simp: cast_appender_def uncast_appender_def read_back_def as_ok_def yaml_string_def yaml_field_def
      appender_define0_def Let_def)

lemma cast_appenders_back:
  assumes "as_ok ya" and "list_all2 (\<lambda>i a. yl_at lib n i = uncast_appender ya ld a) is as"
  shows "cast_appenders lib ya n is = Some (List.map_filter read_back as)"
  using assms(2)
  by (induction "is" as rule: list_all2_induct)
    (auto simp: cast_uncast_appender [OF assms(1)] List.map_filter_def split: option.split)

lemma map_filter_read_back:
  "List.map_filter read_back as = map (\<lambda>a. a\<lparr>lad_level := UNKNOWN\<rparr>) (filter (\<lambda>a. lad_type a = 1) as)"
  by (induction as) (simp_all add: List.map_filter_def read_back_def)

section \<open>Properties\<close>

text \<open>Reading back the text of a log definition gives its name, level and formatter, and of its appenders exactly those
  that write to files, in order and without their levels: every console appender is lost, since its type is written
  under a name the reader does not know.\<close>

theorem log_define_read_back:
  assumes "as_ok ya" and "indexes lib" and "reads_back lib (define_node ya ld)"
  shows "cast_log_define lib ya (uncast_log_define lib ya ld)
    = Some (ld\<lparr>ld_appenders := map (\<lambda>a. a\<lparr>lad_level := UNKNOWN\<rparr>) (filter (\<lambda>a. lad_type a = 1) (ld_appenders ld))\<rparr>)"
proof -
  let ?as = "map (uncast_appender ya ld) (ld_appenders ld)"
  have load: "yl_load lib (uncast_log_define lib ya ld) = Some (define_node ya ld)"
    using assms(3) by (simp add: reads_back_def uncast_log_define_def)
  have cast: "cast_appenders lib ya (YSeq ?as) [0..<length ?as]
      = Some (map (\<lambda>a. a\<lparr>lad_level := UNKNOWN\<rparr>) (filter (\<lambda>a. lad_type a = 1) (ld_appenders ld)))"
    unfolding map_filter_read_back [symmetric] using assms(2)
    by (intro cast_appenders_back [OF assms(1), where ld = ld]) (simp add: list_all2_conv_all_nth indexes_def)
  have level: "Level_FromString (Level_ToString l) = l" "Level_FromString [] = UNKNOWN" for l
    using level_round_trip [of l] by (simp_all add: Level_FromString_def)
  have "yaml_key (define_node ya ld) ''appenders'' = (if ld_appenders ld = [] then None else Some (YSeq ?as))"
    "yaml_string ya (yaml_key (define_node ya ld) ''name'') = Some (ld_name ld)"
    "yaml_field ya (define_node ya ld) ''formatter'' [] = Some (ld_formatter ld)"
    "map_option Level_FromString (yaml_field ya (define_node ya ld) ''level'' []) = Some (ld_level ld)"
    using assms(1) level
    by (auto simp: define_node_eq define_fields_def yaml_string_def yaml_field_def as_ok_def map_add_def)
  then show ?thesis using load cast
    by (cases "ld_appenders ld = []") (auto simp: cast_log_define_def)
qed

theorem log_define_read_back_witness:
  "let file_appender = \<lparr>lad_type = 1, lad_level = ERROR, lad_formatter = ''%m'', lad_file = ''log.txt''\<rparr>;
      console = \<lparr>lad_type = 2, lad_level = UNKNOWN, lad_formatter = [], lad_file = []\<rparr>;
      ld = \<lparr>ld_name = ''root'', ld_level = INFO, ld_formatter = [], ld_appenders = [file_appender, console]\<rparr>;
      lib = \<lparr>yl_load = (\<lambda>s. Some (define_node sample_as ld)), yl_emit = (\<lambda>n. ''document''),
             yl_at = (\<lambda>n i. case n of YSeq ns \<Rightarrow> ns ! i | _ \<Rightarrow> YNull)\<rparr> in
   cast_log_define lib sample_as (uncast_log_define lib sample_as ld) = Some (ld\<lparr>ld_appenders := [file_appender\<lparr>lad_level := UNKNOWN\<rparr>]\<rparr>)"
proof -
  define f where "f = \<lparr>lad_type = 1, lad_level = ERROR, lad_formatter = ''%m'', lad_file = ''log.txt''\<rparr>"
  define c where "c = \<lparr>lad_type = 2, lad_level = UNKNOWN, lad_formatter = [], lad_file = []\<rparr>"
  define ld where "ld = \<lparr>ld_name = ''root'', ld_level = INFO, ld_formatter = [], ld_appenders = [f, c]\<rparr>"
  define lib where "lib = \<lparr>yl_load = (\<lambda>s :: string. Some (define_node sample_as ld)), yl_emit = (\<lambda>n. ''document''),
             yl_at = (\<lambda>n i. case n of YSeq ns \<Rightarrow> ns ! i | _ \<Rightarrow> YNull)\<rparr>"
  have "as_ok sample_as" by (simp add: as_ok_def sample_as_def)
  moreover have "indexes lib" "reads_back lib (define_node sample_as ld)"
    by (simp_all add: indexes_def reads_back_def lib_def)
  ultimately have "cast_log_define lib sample_as (uncast_log_define lib sample_as ld) = Some (ld\<lparr>ld_appenders :=
      map (\<lambda>a. a\<lparr>lad_level := UNKNOWN\<rparr>) (filter (\<lambda>a. lad_type a = 1) (ld_appenders ld))\<rparr>)" by (rule log_define_read_back)
  moreover have "filter (\<lambda>a. lad_type a = 1) (ld_appenders ld) = [f]" by (simp add: ld_def f_def c_def)
  ultimately show ?thesis
    unfolding Let_def f_def [symmetric] c_def [symmetric] ld_def [symmetric] lib_def [symmetric] by simp
qed

end
