(* ===== verification/Fiber.thy ===== *)
theory Fiber
  imports Prelude
begin

text \<open>
  The fibers of \<open>src/fiber.cpp\<close>. The fibers live in a heap indexed by their address; the
  thread-local pointers \<open>t_fiber\<close>, \<open>t_threadFiber\<close> and \<open>t_scheduler_fiber\<close> are fields of the
  thread. \<open>getcontext\<close>, \<open>makecontext\<close> and \<open>swapcontext\<close> are modelled by what they do to
  control: \<open>m_entry\<close> is the function \<open>makecontext\<close> set, and \<open>t_running\<close> is the fiber whose
  context the thread executes. A failed \<open>AZURE_ASSERT\<close> aborts the program: the value \<open>Inl\<close>.
\<close>

section \<open>State\<close>

text \<open>The states of \<open>Fiber::State\<close>; \<open>FTERM\<close> is its \<open>TERM\<close>.\<close>

datatype fiber_state = INIT | HOLD | EXEC | FTERM | READY | EXCEPT

datatype fiber_entry = NoEntry | MainFunc | CallerMainFunc

record 'cb fiber =
  m_id :: nat
  m_stacksize :: nat
  m_state :: fiber_state
  m_stack :: bool
  m_entry :: fiber_entry
  m_fcb :: "'cb option"

record fiber_thread =
  t_fiber :: "nat option"
  t_threadFiber :: "nat option"
  t_scheduler_fiber :: "nat option"
  t_running :: "nat option"

record 'cb fiber_world =
  fibers :: "nat \<Rightarrow> 'cb fiber option"
  s_fiber_id :: nat
  s_fiber_count :: nat

datatype fiber_error = AssertFailed string | NullFiber | EmptyFunction

section \<open>Operations\<close>

definition fiber_at :: "'cb fiber_world \<Rightarrow> nat \<Rightarrow> fiber_error + 'cb fiber" where
  "fiber_at w f = (case fibers w f of None \<Rightarrow> Inl NullFiber | Some x \<Rightarrow> Inr x)"

definition set_fiber :: "'cb fiber_world \<Rightarrow> nat \<Rightarrow> 'cb fiber \<Rightarrow> 'cb fiber_world" where
  "set_fiber w f x = w\<lparr>fibers := (fibers w)(f \<mapsto> x)\<rparr>"

definition set_state :: "'cb fiber_world \<Rightarrow> nat \<Rightarrow> fiber_state \<Rightarrow> 'cb fiber_world" where
  "set_state w f s = (case fibers w f of None \<Rightarrow> w | Some x \<Rightarrow> set_fiber w f (x\<lparr>m_state := s\<rparr>))"

definition assert_that :: "bool \<Rightarrow> string \<Rightarrow> (unit \<Rightarrow> fiber_error + 'a) \<Rightarrow> fiber_error + 'a" where
  "assert_that P msg k = (if P then k () else Inl (AssertFailed msg))"

text \<open>\<open>Fiber::GetFiberId\<close>.\<close>

definition GetFiberId :: "'cb fiber_world \<Rightarrow> fiber_thread \<Rightarrow> nat" where
  "GetFiberId w t = (case t_fiber t of
     None \<Rightarrow> 0
   | Some f \<Rightarrow> (case fibers w f of None \<Rightarrow> 0 | Some x \<Rightarrow> m_id x))"

text \<open>\<open>Fiber::Fiber ()\<close>, the main fiber of a thread, at the new address \<open>a\<close>.\<close>

definition fiber_main :: "'cb fiber_world \<Rightarrow> fiber_thread \<Rightarrow> nat \<Rightarrow> 'cb fiber_world \<times> fiber_thread" where
  "fiber_main w t a =
     (w\<lparr>fibers := (fibers w)(a \<mapsto> \<lparr>m_id = 0, m_stacksize = 0, m_state = EXEC, m_stack = False,
                               m_entry = NoEntry, m_fcb = None\<rparr>),
        s_fiber_count := s_fiber_count w + 1\<rparr>,
      t\<lparr>t_fiber := Some a\<rparr>)"

text \<open>\<open>Fiber::Fiber (cb, stacksize, use_caller)\<close>; \<open>cfg\<close> is the configured stack size.\<close>

definition fiber_new :: "'cb fiber_world \<Rightarrow> nat \<Rightarrow> nat \<Rightarrow> 'cb option \<Rightarrow> nat \<Rightarrow> bool \<Rightarrow> 'cb fiber_world" where
  "fiber_new w a cfg cb stacksize use_caller =
     w\<lparr>fibers := (fibers w)(a \<mapsto>
         \<lparr>m_id = s_fiber_id w + 1, m_stacksize = (if stacksize \<noteq> 0 then stacksize else cfg),
          m_state = INIT, m_stack = True,
          m_entry = (if \<not> use_caller then MainFunc else CallerMainFunc), m_fcb = cb\<rparr>),
       s_fiber_id := s_fiber_id w + 1, s_fiber_count := s_fiber_count w + 1\<rparr>"

text \<open>\<open>Fiber::~Fiber\<close>.\<close>

definition fiber_delete :: "'cb fiber_world \<Rightarrow> fiber_thread \<Rightarrow> nat
    \<Rightarrow> fiber_error + 'cb fiber_world \<times> fiber_thread" where
  "fiber_delete w t f = bind_res (fiber_at w f) (\<lambda>x.
     let w' = w\<lparr>fibers := (fibers w)(f := None), s_fiber_count := s_fiber_count w - 1\<rparr> in
     if m_stack x
     then assert_that (m_state x \<in> {FTERM, INIT, EXCEPT}) ''~Fiber state'' (\<lambda>_. Inr (w', t))
     else assert_that (Option.is_none (m_fcb x)) ''~Fiber cb'' (\<lambda>_.
          assert_that (m_state x = EXEC) ''~Fiber state'' (\<lambda>_.
            Inr (w', if t_fiber t = Some f then t\<lparr>t_fiber := None\<rparr> else t))))"


definition fiber_reset :: "'cb fiber_world \<Rightarrow> nat \<Rightarrow> 'cb option \<Rightarrow> fiber_error + 'cb fiber_world" where
  "fiber_reset w f cb = bind_res (fiber_at w f) (\<lambda>x.
     assert_that (m_stack x) ''reset stack'' (\<lambda>_.
     assert_that (m_state x \<in> {FTERM, INIT}) ''reset state'' (\<lambda>_.
       Inr (set_fiber w f (x\<lparr>m_fcb := cb, m_entry := MainFunc, m_state := INIT\<rparr>)))))"

definition swapIn :: "'cb fiber_world \<Rightarrow> fiber_thread \<Rightarrow> nat \<Rightarrow> fiber_error + 'cb fiber_world \<times> fiber_thread" where
  "swapIn w t f = bind_res (fiber_at w f) (\<lambda>x.
     assert_that (m_state x \<noteq> EXEC) ''swapIn state'' (\<lambda>_.
       case t_scheduler_fiber t of
         None \<Rightarrow> Inl NullFiber
       | Some _ \<Rightarrow> Inr (set_fiber w f (x\<lparr>m_state := EXEC\<rparr>), t\<lparr>t_fiber := Some f, t_running := Some f\<rparr>)))"

definition swapOut :: "'cb fiber_world \<Rightarrow> fiber_thread \<Rightarrow> fiber_error + 'cb fiber_world \<times> fiber_thread" where
  "swapOut w t = (case t_scheduler_fiber t of
     None \<Rightarrow> Inl NullFiber
   | Some m \<Rightarrow> Inr (w, t\<lparr>t_fiber := Some m, t_running := Some m\<rparr>))"

text \<open>\<open>Fiber::GetThis\<close>; \<open>a\<close> is the address of the main fiber it may have to make.\<close>

definition GetThis :: "'cb fiber_world \<Rightarrow> fiber_thread \<Rightarrow> nat \<Rightarrow> nat \<times> 'cb fiber_world \<times> fiber_thread" where
  "GetThis w t a = (case t_fiber t of
     Some f \<Rightarrow> (f, w, t)
   | None \<Rightarrow> (case fiber_main w t a of (w', t') \<Rightarrow> (a, w', t'\<lparr>t_threadFiber := Some a\<rparr>)))"

definition yield_to :: "fiber_state \<Rightarrow> 'cb fiber_world \<Rightarrow> fiber_thread \<Rightarrow> nat
    \<Rightarrow> fiber_error + 'cb fiber_world \<times> fiber_thread" where
  "yield_to s w t a = (case GetThis w t a of (cur, w', t') \<Rightarrow>
     if Some cur \<noteq> t_threadFiber t' then swapOut (set_state w' cur s) t' else Inr (w', t'))"

definition YieldToReady :: "'cb fiber_world \<Rightarrow> fiber_thread \<Rightarrow> nat \<Rightarrow> fiber_error + 'cb fiber_world \<times> fiber_thread" where
  "YieldToReady = yield_to READY"

definition YieldToHold :: "'cb fiber_world \<Rightarrow> fiber_thread \<Rightarrow> nat \<Rightarrow> fiber_error + 'cb fiber_world \<times> fiber_thread" where
  "YieldToHold = yield_to HOLD"

definition TotalFibers :: "'cb fiber_world \<Rightarrow> nat" where
  "TotalFibers w = s_fiber_count w"

text \<open>\<open>Fiber::call\<close> and \<open>Fiber::back\<close> switch with the main fiber of the thread.\<close>

definition fiber_call :: "'cb fiber_world \<Rightarrow> fiber_thread \<Rightarrow> nat \<Rightarrow> fiber_error + 'cb fiber_world \<times> fiber_thread" where
  "fiber_call w t f = bind_res (fiber_at w f) (\<lambda>x.
     case t_threadFiber t of
       None \<Rightarrow> Inl NullFiber
     | Some _ \<Rightarrow> Inr (set_fiber w f (x\<lparr>m_state := EXEC\<rparr>), t\<lparr>t_fiber := Some f, t_running := Some f\<rparr>))"

definition fiber_back :: "'cb fiber_world \<Rightarrow> fiber_thread \<Rightarrow> fiber_error + 'cb fiber_world \<times> fiber_thread" where
  "fiber_back w t = (case t_threadFiber t of
     None \<Rightarrow> Inl NullFiber
   | Some m \<Rightarrow> Inr (w, t\<lparr>t_fiber := Some m, t_running := Some m\<rparr>))"

text \<open>
  \<open>Fiber::MainFunc\<close> and \<open>Fiber::CallerMainFunc\<close> after the callback: \<open>threw\<close> says that it left
  with an exception; calling an empty function throws \<open>std::bad_function_call\<close>.
\<close>

definition main_func_end :: "bool \<Rightarrow> 'cb fiber \<Rightarrow> 'cb fiber" where
  "main_func_end threw x =
     (if threw \<or> Option.is_none (m_fcb x) then x\<lparr>m_state := EXCEPT\<rparr> else x\<lparr>m_fcb := None, m_state := FTERM\<rparr>)"

definition run_MainFunc :: "'cb fiber_world \<Rightarrow> fiber_thread \<Rightarrow> nat \<Rightarrow> bool \<Rightarrow> fiber_error + 'cb fiber_world \<times> fiber_thread" where
  "run_MainFunc w t a threw = (case GetThis w t a of (cur, w', t') \<Rightarrow>
     bind_res (fiber_at w' cur) (\<lambda>x. swapOut (set_fiber w' cur (main_func_end threw x)) t'))"

definition run_CallerMainFunc :: "'cb fiber_world \<Rightarrow> fiber_thread \<Rightarrow> nat \<Rightarrow> bool \<Rightarrow> fiber_error + 'cb fiber_world \<times> fiber_thread" where
  "run_CallerMainFunc w t a threw = (case GetThis w t a of (cur, w', t') \<Rightarrow>
     bind_res (fiber_at w' cur) (\<lambda>x. fiber_back (set_fiber w' cur (main_func_end threw x)) t'))"

section \<open>Lemmas\<close>

lemma assert_that_simps [simp]:
  "assert_that True msg k = k ()" "assert_that False msg k = Inl (AssertFailed msg)"
  by (simp_all add: assert_that_def)

lemma set_fiber_simps [simp]:
  "fibers (set_fiber w f x) = (fibers w)(f \<mapsto> x)" "s_fiber_id (set_fiber w f x) = s_fiber_id w"
  "s_fiber_count (set_fiber w f x) = s_fiber_count w"
  by (simp_all add: set_fiber_def)

lemma fiber_at_simps [simp]:
  "fibers w f = Some x \<Longrightarrow> fiber_at w f = Inr x" "fibers w f = None \<Longrightarrow> fiber_at w f = Inl NullFiber"
  by (simp_all add: fiber_at_def)

lemma set_state_simps [simp]:
  "fibers w f = Some x \<Longrightarrow> set_state w f s = set_fiber w f (x\<lparr>m_state := s\<rparr>)"
  by (simp add: set_state_def)

section \<open>Properties of the fibers\<close>

text \<open>
  Switching into a fiber and yielding from it is a round trip: the fiber that was switched in
  runs, and when it yields (or its function ends) the scheduling fiber of the thread runs again, is the current fiber,
  and the fiber's state says how it left: \<open>HOLD\<close>, \<open>READY\<close>, \<open>TERM\<close> or \<open>EXCEPT\<close>. No other fiber changes.
\<close>

theorem swap_round_trip:
  assumes "t_scheduler_fiber t = Some m" and "fibers w f = Some x" and "m_state x \<noteq> EXEC"
    and "t_threadFiber t \<noteq> Some f"
  shows "\<exists>w1 t1. swapIn w t f = Inr (w1, t1) \<and> t_running t1 = Some f \<and> t_fiber t1 = Some f
    \<and> (\<exists>w2 t2. YieldToHold w1 t1 a = Inr (w2, t2) \<and> t_running t2 = Some m \<and> t_fiber t2 = Some m
         \<and> fibers w2 = (fibers w)(f \<mapsto> x\<lparr>m_state := HOLD\<rparr>))
    \<and> (\<exists>w2 t2. YieldToReady w1 t1 a = Inr (w2, t2) \<and> t_running t2 = Some m \<and> t_fiber t2 = Some m
         \<and> fibers w2 = (fibers w)(f \<mapsto> x\<lparr>m_state := READY\<rparr>))
    \<and> (\<exists>w2 t2. run_MainFunc w1 t1 a threw = Inr (w2, t2) \<and> t_running t2 = Some m \<and> t_fiber t2 = Some m
         \<and> fibers w2 = (fibers w)(f \<mapsto> (if threw \<or> m_fcb x = None then x\<lparr>m_state := EXCEPT\<rparr>
                                              else x\<lparr>m_fcb := None, m_state := FTERM\<rparr>)))"
  using assms
  by (auto simp: swapIn_def YieldToHold_def YieldToReady_def yield_to_def GetThis_def swapOut_def
      run_MainFunc_def main_func_end_def Option.is_none_def)

lemma swap_round_trip_witness:
  "\<exists>w1 t1. swapIn (fiber_new \<lparr>fibers = (\<lambda>_. None), s_fiber_id = 0, s_fiber_count = 0\<rparr> 1 1024 (Some ()) 0 False)
      \<lparr>t_fiber = Some 0, t_threadFiber = Some 0, t_scheduler_fiber = Some 0, t_running = Some 0\<rparr> 1 = Inr (w1, t1)
    \<and> t_running t1 = Some 1"
  using swap_round_trip [of "\<lparr>t_fiber = Some 0, t_threadFiber = Some 0, t_scheduler_fiber = Some 0, t_running = Some 0\<rparr>" 0
      "fiber_new \<lparr>fibers = (\<lambda>_. None), s_fiber_id = 0, s_fiber_count = 0\<rparr> 1 1024 (Some ()) 0 False" 1
      "\<lparr>m_id = 1, m_stacksize = 1024, m_state = INIT, m_stack = True, m_entry = MainFunc, m_fcb = Some ()\<rparr>"
      5 False]
  by (auto simp: fiber_new_def)

text \<open>
  A fiber whose function ended normally can be reused: \<open>reset\<close> succeeds and the fiber is
  \<open>INIT\<close> again with the new function and the same id and stack. After an exception \<open>reset\<close>
  aborts, as it does for a fiber that is running or suspended.
\<close>

theorem fiber_reuse:
  assumes "fibers w f = Some x" and "m_stack x"
  shows "fiber_reset w f cb =
    (if m_state x = FTERM \<or> m_state x = INIT
     then Inr (set_fiber w f (x\<lparr>m_fcb := cb, m_entry := MainFunc, m_state := INIT\<rparr>))
     else Inl (AssertFailed ''reset state''))
    \<and> (m_state x = FTERM \<longrightarrow> (\<exists>w'. fiber_delete w t f = Inr (w', t) \<and> TotalFibers w' = TotalFibers w - 1))
    \<and> (m_state x \<in> {HOLD, READY, EXEC} \<longrightarrow> fiber_delete w t f = Inl (AssertFailed ''~Fiber state''))"
  using assms
  by (auto simp: fiber_reset_def fiber_delete_def assert_that_def TotalFibers_def Let_def)

lemma fiber_reuse_witness:
  "\<exists>w'. fiber_reset (fiber_new \<lparr>fibers = (\<lambda>_. None), s_fiber_id = 0, s_fiber_count = 0\<rparr> 1 1024 (Some (3 :: nat)) 0 False) 1 None = Inr w'"
  using fiber_reuse [of "fiber_new \<lparr>fibers = (\<lambda>_. None), s_fiber_id = 0, s_fiber_count = 0\<rparr> 1 1024 (Some (3 :: nat)) 0 False" 1
      "\<lparr>m_id = 1, m_stacksize = 1024, m_state = INIT, m_stack = True, m_entry = MainFunc, m_fcb = Some 3\<rparr>" None]
  by (auto simp: fiber_new_def)

end
