(* ===== verification/Scheduler.thy ===== *)
theory Scheduler
  imports Fiber
begin

text \<open>
  The scheduler of \<open>src/scheduler.cpp\<close> and \<open>include/scheduler.h\<close>: the task queue, the worker
  loop \<open>run\<close> of every thread, and \<open>start\<close>, \<open>stop\<close> and \<open>stopping\<close>. The loop is a machine: a
  thread is at the top of the loop, holds a task it has just taken out of the queue, runs a
  fiber, a callback or its idle fiber, is back from it, or has left the loop. One step of the machine is the
  code between two points where other threads can be seen (the locked section, a switch into
  a fiber, the code after it). How a fiber comes back is chosen by the environment: the value
  \<open>left\<close> of the step. The names of a fiber's state and of \<open>reset\<close>, \<open>swapIn\<close> are those of
  the theory \<open>Fiber\<close>; a failed assertion is \<open>Inl\<close>.
\<close>

section \<open>State\<close>

text \<open>\<open>Scheduler::FiberAndThread\<close>; the thread \<open>-1\<close> means any.\<close>

record 'cb task =
  ft_fiber :: "nat option"
  ft_cb :: "'cb option"
  ft_thread :: int

datatype 'cb thread_pc =
    AtLoop | Taken "'cb task option" | InFiber nat | InCb nat | InIdle
  | AfterFiber nat | AfterCb nat | AfterIdle | Exited

record 'cb worker =
  w_tid :: int
  w_pc :: "'cb thread_pc"
  w_cb_fiber :: "nat option"
  w_idle_fiber :: nat

record 'cb scheduler =
  m_fibers :: "'cb task list"
  m_activeThreadCount :: int
  m_idleThreadCount :: int
  m_stopping :: bool
  m_autostop :: bool
  m_threadCount :: nat
  m_rootFiber :: "nat option"
  m_rootThreadId :: int
  m_threadIds :: "int list"
  m_threads :: "int list"
  s_workers :: "'cb worker list"
  s_states :: "nat \<Rightarrow> fiber_state option"

section \<open>The queue\<close>

text \<open>\<open>scheduleNoLock\<close> returns whether the queue was empty; a task that is neither a fiber nor a
  callback is dropped. \<open>schedule\<close> tickles when it was.\<close>

definition scheduleNoLock :: "'cb task list \<Rightarrow> 'cb task \<Rightarrow> bool \<times> 'cb task list" where
  "scheduleNoLock q ft =
     (q = [], if ft_fiber ft \<noteq> None \<or> \<not> Option.is_none (ft_cb ft) then q @ [ft] else q)"

definition schedule :: "'cb scheduler \<Rightarrow> 'cb task \<Rightarrow> bool \<times> 'cb scheduler" where
  "schedule s ft = (case scheduleNoLock (m_fibers s) ft of (need_tickle, q) \<Rightarrow> (need_tickle, s\<lparr>m_fibers := q\<rparr>))"

fun schedule_batch_loop :: "'cb task list \<Rightarrow> 'cb task list \<Rightarrow> bool \<Rightarrow> bool \<times> 'cb task list" where
  "schedule_batch_loop q [] need_tickle = (need_tickle, q)"
| "schedule_batch_loop q (ft # fts) need_tickle =
     (case scheduleNoLock q ft of (n, q') \<Rightarrow> schedule_batch_loop q' fts (n \<or> need_tickle))"

definition schedule_batch :: "'cb scheduler \<Rightarrow> 'cb task list \<Rightarrow> bool \<times> 'cb scheduler" where
  "schedule_batch s fts =
     (case schedule_batch_loop (m_fibers s) fts False of (need_tickle, q) \<Rightarrow> (need_tickle, s\<lparr>m_fibers := q\<rparr>))"

definition fiber_task :: "nat \<Rightarrow> 'cb task" where
  "fiber_task f = \<lparr>ft_fiber = Some f, ft_cb = None, ft_thread = -1\<rparr>"

definition state_is :: "(nat \<Rightarrow> fiber_state option) \<Rightarrow> nat \<Rightarrow> fiber_state \<Rightarrow> bool" where
  "state_is st f x \<longleftrightarrow> st f = Some x"

text \<open>
  The scan of the queue in the locked section of \<open>run\<close> by the thread \<open>tid\<close>: whether to tickle,
  the task taken, and the queue without it. A task with neither fiber nor callback fails the assertion.
\<close>

fun scan :: "(nat \<Rightarrow> fiber_state option) \<Rightarrow> int \<Rightarrow> 'cb task list
    \<Rightarrow> fiber_error + bool \<times> 'cb task option \<times> 'cb task list" where
  "scan st tid [] = Inr (False, None, [])"
| "scan st tid (ft # q) =
     (if ft_thread ft \<noteq> -1 \<and> ft_thread ft \<noteq> tid
      then bind_res (scan st tid q) (\<lambda>(_, r, q'). Inr (True, r, ft # q'))
      else if ft_fiber ft = None \<and> Option.is_none (ft_cb ft) then Inl (AssertFailed ''fiber or cb'')
      else if (case ft_fiber ft of Some f \<Rightarrow> state_is st f EXEC | None \<Rightarrow> False)
      then bind_res (scan st tid q) (\<lambda>(tk, r, q'). Inr (tk, r, ft # q'))
      else Inr (False, Some ft, q))"

section \<open>The worker loop\<close>

definition set_worker :: "'cb scheduler \<Rightarrow> nat \<Rightarrow> 'cb worker \<Rightarrow> 'cb scheduler" where
  "set_worker s i w = s\<lparr>s_workers := (s_workers s)[i := w]\<rparr>"

abbreviation worker :: "'cb scheduler \<Rightarrow> nat \<Rightarrow> 'cb worker" where
  "worker s i \<equiv> s_workers s ! i"

text \<open>The locked section: lines 157 to 184. The flag is \<open>tickle_me\<close>.\<close>

definition run_take :: "'cb scheduler \<Rightarrow> nat \<Rightarrow> fiber_error + bool \<times> 'cb scheduler" where
  "run_take s i =
     bind_res (scan (s_states s) (w_tid (worker s i)) (m_fibers s)) (\<lambda>(tickle_me, r, q).
       Inr (tickle_me,
            (set_worker s i ((worker s i)\<lparr>w_pc := Taken r\<rparr>))
              \<lparr>m_fibers := q,
               m_activeThreadCount := m_activeThreadCount s + (case r of None \<Rightarrow> 0 | Some _ \<Rightarrow> 1)\<rparr>))"

definition goto :: "'cb scheduler \<Rightarrow> nat \<Rightarrow> 'cb thread_pc \<Rightarrow> 'cb scheduler" where
  "goto s i pc = set_worker s i ((worker s i)\<lparr>w_pc := pc\<rparr>)"

definition put_state :: "'cb scheduler \<Rightarrow> nat \<Rightarrow> fiber_state \<Rightarrow> 'cb scheduler" where
  "put_state s f x = s\<lparr>s_states := (s_states s)(f \<mapsto> x)\<rparr>"

text \<open>Which branch of lines 190, 202 and 226 is taken for a task.\<close>

definition runs_fiber :: "(nat \<Rightarrow> fiber_state option) \<Rightarrow> 'cb task option \<Rightarrow> nat option" where
  "runs_fiber st r = (case r of None \<Rightarrow> None | Some ft \<Rightarrow>
     (case ft_fiber ft of None \<Rightarrow> None
      | Some f \<Rightarrow> if state_is st f FTERM \<or> state_is st f EXCEPT then None else Some f))"

definition runs_cb :: "'cb task option \<Rightarrow> 'cb option" where
  "runs_cb r = (case r of None \<Rightarrow> None | Some ft \<Rightarrow> ft_cb ft)"

text \<open>
  From the end of the locked section to the switch into a fiber: \<open>swapIn\<close> of the task's fiber,
  of the callback fiber (reset, or made at the new address \<open>a\<close>), or of the idle fiber, and
  the exit from the loop when the idle fiber has ended.
\<close>

definition swap_in :: "'cb scheduler \<Rightarrow> nat \<Rightarrow> nat \<Rightarrow> 'cb thread_pc \<Rightarrow> fiber_error + 'cb scheduler" where
  "swap_in s i f pc =
     (if state_is (s_states s) f EXEC then Inl (AssertFailed ''swapIn state'')
      else Inr (goto (put_state s f EXEC) i pc))"

definition run_enter :: "'cb scheduler \<Rightarrow> nat \<Rightarrow> nat \<Rightarrow> fiber_error + 'cb scheduler" where
  "run_enter s i a = (case w_pc (worker s i) of
     Taken r \<Rightarrow>
       (case runs_fiber (s_states s) r of
          Some f \<Rightarrow> swap_in s i f (InFiber f)
        | None \<Rightarrow>
            (case runs_cb r of
               Some cb \<Rightarrow>
                 (case w_cb_fiber (worker s i) of
                    Some g \<Rightarrow>
                      if state_is (s_states s) g FTERM \<or> state_is (s_states s) g INIT
                      then swap_in (put_state s g INIT) i g (InCb g)
                      else Inl (AssertFailed ''reset state'')
                  | None \<Rightarrow>
                      swap_in (set_worker (put_state s a INIT) i ((worker s i)\<lparr>w_cb_fiber := Some a\<rparr>)) i a (InCb a))
             | None \<Rightarrow>
                 let s1 = (if Option.is_none r then s else s\<lparr>m_activeThreadCount := m_activeThreadCount s - 1\<rparr>) in
                 if state_is (s_states s) (w_idle_fiber (worker s i)) FTERM
                 then Inr (goto s1 i Exited)
                 else swap_in (s1\<lparr>m_idleThreadCount := m_idleThreadCount s1 + 1\<rparr>) i (w_idle_fiber (worker s i)) InIdle))
   | _ \<Rightarrow> Inr s)"

text \<open>
  A running fiber gives control back: it sets its state (\<open>YieldToReady\<close>, \<open>YieldToHold\<close>, the end
  of \<open>MainFunc\<close>; \<open>left = EXEC\<close> when it calls \<open>swapOut\<close> alone, as \<open>IOManager::idle\<close> does) and
  switches to the scheduling fiber.
\<close>

definition fiber_leave :: "'cb scheduler \<Rightarrow> nat \<Rightarrow> fiber_state \<Rightarrow> 'cb scheduler" where
  "fiber_leave s i left = (case w_pc (worker s i) of
     InFiber f \<Rightarrow> goto (put_state s f left) i (AfterFiber f)
   | InCb f \<Rightarrow> goto (put_state s f left) i (AfterCb f)
   | InIdle \<Rightarrow> goto (put_state s (w_idle_fiber (worker s i)) left) i AfterIdle
   | _ \<Rightarrow> s)"

definition ended :: "(nat \<Rightarrow> fiber_state option) \<Rightarrow> nat \<Rightarrow> bool" where
  "ended st f \<longleftrightarrow> state_is st f FTERM \<or> state_is st f EXCEPT"

text \<open>The code after the switch, up to the next round: the flag says that \<open>schedule\<close> tickles.\<close>

definition run_after :: "'cb scheduler \<Rightarrow> nat \<Rightarrow> fiber_error + bool \<times> 'cb scheduler" where
  "run_after s i = (case w_pc (worker s i) of
     AfterFiber f \<Rightarrow>
       let s1 = goto (s\<lparr>m_activeThreadCount := m_activeThreadCount s - 1\<rparr>) i AtLoop in
       Inr (if state_is (s_states s) f READY then schedule s1 (fiber_task f)
            else if \<not> ended (s_states s) f then (False, put_state s1 f HOLD)
            else (False, s1))
   | AfterCb f \<Rightarrow>
       let s1 = goto (s\<lparr>m_activeThreadCount := m_activeThreadCount s - 1\<rparr>) i AtLoop;
           s2 = set_worker s1 i ((worker s1 i)\<lparr>w_cb_fiber := None\<rparr>)
       in if state_is (s_states s) f READY then Inr (schedule s2 (fiber_task f))
          else if state_is (s_states s) f EXCEPT then Inl (AssertFailed ''reset state'')
          else if state_is (s_states s) f FTERM then Inr (False, put_state s1 f INIT)
          else Inr (False, put_state s2 f HOLD)
   | AfterIdle \<Rightarrow>
       let s1 = goto (s\<lparr>m_idleThreadCount := m_idleThreadCount s - 1\<rparr>) i AtLoop;
           f = w_idle_fiber (worker s i)
       in Inr (False, if \<not> ended (s_states s) f then put_state s1 f HOLD else s1)
   | _ \<Rightarrow> Inr (False, s))"

section \<open>Start and stop\<close>

definition scheduler_stopping :: "'cb scheduler \<Rightarrow> bool" where
  "scheduler_stopping s \<longleftrightarrow> m_autostop s \<and> m_stopping s \<and> m_fibers s = [] \<and> m_activeThreadCount s = 0"


text \<open>
  The constructor on a thread whose id is \<open>tid\<close> and which has a scheduler already when
  \<open>has_scheduler\<close>; \<open>root\<close> is the address of the new root fiber.
\<close>

definition scheduler_new :: "nat \<Rightarrow> bool \<Rightarrow> int \<Rightarrow> bool \<Rightarrow> nat \<Rightarrow> fiber_error + 'cb scheduler" where
  "scheduler_new thread_num use_caller tid has_scheduler root =
     assert_that (0 < thread_num) ''thread_num'' (\<lambda>_.
       let s = \<lparr>m_fibers = [], m_activeThreadCount = 0, m_idleThreadCount = 0, m_stopping = True,
                m_autostop = False, m_threadCount = thread_num, m_rootFiber = None, m_rootThreadId = -1,
                m_threadIds = [], m_threads = [], s_workers = [], s_states = (\<lambda>_. None)\<rparr>
       in if use_caller
          then assert_that (\<not> has_scheduler) ''GetThis'' (\<lambda>_.
            Inr (s\<lparr>m_threadCount := thread_num - 1, m_rootFiber := Some root, m_rootThreadId := tid,
                   m_threadIds := [tid], s_states := [root \<mapsto> INIT]\<rparr>))
          else Inr s)"

text \<open>A thread enters \<open>run\<close>: a new idle fiber at the address \<open>a\<close>, no callback fiber.\<close>

definition new_worker :: "int \<Rightarrow> nat \<Rightarrow> 'cb worker" where
  "new_worker tid a = \<lparr>w_tid = tid, w_pc = AtLoop, w_cb_fiber = None, w_idle_fiber = a\<rparr>"

definition run_begin :: "'cb scheduler \<Rightarrow> int \<Rightarrow> nat \<Rightarrow> 'cb scheduler" where
  "run_begin s tid a = put_state (s\<lparr>s_workers := s_workers s @ [new_worker tid a]\<rparr>) a INIT"

text \<open>\<open>start\<close>: the new threads get the ids \<open>tids\<close>; each of them enters \<open>run\<close> on its own.\<close>

definition scheduler_start :: "'cb scheduler \<Rightarrow> int list \<Rightarrow> fiber_error + 'cb scheduler" where
  "scheduler_start s tids =
     (if \<not> m_stopping s then Inr s
      else assert_that (m_threads s = []) ''threads empty'' (\<lambda>_.
        let new = take (m_threadCount s) tids in
        Inr (s\<lparr>m_stopping := False, m_threads := new, m_threadIds := m_threadIds s @ new\<rparr>)))"

text \<open>
  \<open>stop\<close>: \<open>on_scheduler\<close> says that \<open>GetThis () == this\<close>. The result is the number of calls of
  \<open>tickle\<close>, whether the root fiber is called and the threads that are joined.
\<close>

definition scheduler_stop :: "'cb scheduler \<Rightarrow> bool \<Rightarrow> fiber_error + nat \<times> bool \<times> int list \<times> 'cb scheduler" where
  "scheduler_stop s on_scheduler =
     (let s1 = s\<lparr>m_autostop := True\<rparr>;
          root_done = (case m_rootFiber s of None \<Rightarrow> False
            | Some r \<Rightarrow> m_threadCount s = 0 \<and> (state_is (s_states s) r FTERM \<or> state_is (s_states s) r INIT));
          s2 = (if root_done then s1\<lparr>m_stopping := True\<rparr> else s1)
      in if root_done \<and> scheduler_stopping s2 then Inr (0, False, [], s2)
         else assert_that (if m_rootThreadId s \<noteq> -1 then on_scheduler else \<not> on_scheduler) ''GetThis'' (\<lambda>_.
           let s3 = s2\<lparr>m_stopping := True\<rparr> in
           Inr (m_threadCount s + (if m_rootFiber s \<noteq> None then 1 else 0),
                m_rootFiber s \<noteq> None \<and> \<not> scheduler_stopping s3,
                m_threads s, s3\<lparr>m_threads := []\<rparr>)))"

text \<open>\<open>Scheduler::idle\<close>: one round, whether the fiber yields or ends.\<close>

definition idle_round :: "'cb scheduler \<Rightarrow> fiber_state" where
  "idle_round s = (if scheduler_stopping s then FTERM else HOLD)"

section \<open>The machine\<close>

text \<open>
  One step of one thread, the making of a fiber, or a call of \<open>schedule\<close> from anywhere (another
  fiber, a timer, an event) with a fiber that exists, or the entry of a thread. A new address
  \<open>a\<close> is not the address of another fiber.
\<close>

definition known :: "'cb scheduler \<Rightarrow> 'cb task \<Rightarrow> bool" where
  "known s ft \<longleftrightarrow> (case ft_fiber ft of None \<Rightarrow> True | Some f \<Rightarrow> s_states s f \<noteq> None)"

inductive sched_step :: "'cb scheduler \<Rightarrow> 'cb scheduler \<Rightarrow> bool" where
  take: "i < length (s_workers s) \<Longrightarrow> w_pc (worker s i) = AtLoop \<Longrightarrow> run_take s i = Inr (t, s') \<Longrightarrow> sched_step s s'"
| enter: "i < length (s_workers s) \<Longrightarrow> w_pc (worker s i) = Taken r \<Longrightarrow> s_states s a = None \<Longrightarrow>
    run_enter s i a = Inr s' \<Longrightarrow> sched_step s s'"
| leave: "i < length (s_workers s) \<Longrightarrow> s' = fiber_leave s i left \<Longrightarrow> sched_step s s'"
| after: "i < length (s_workers s) \<Longrightarrow> run_after s i = Inr (t, s') \<Longrightarrow> sched_step s s'"
| spawn: "s_states s a = None \<Longrightarrow> s' = put_state s a INIT \<Longrightarrow> sched_step s s'"
| put: "known s ft \<Longrightarrow> schedule s ft = (t, s') \<Longrightarrow> sched_step s s'"
| puts: "list_all (known s) fts \<Longrightarrow> schedule_batch s fts = (t, s') \<Longrightarrow> sched_step s s'"
| entry: "s_states s a = None \<Longrightarrow> s' = run_begin s tid a \<Longrightarrow> sched_step s s'"
| start: "scheduler_start s tids = Inr s' \<Longrightarrow> sched_step s s'"
| stop: "scheduler_stop s b = Inr (n, c, j, s') \<Longrightarrow> sched_step s s'"

inductive sched_reach :: "'cb scheduler \<Rightarrow> bool" where
  init: "scheduler_new n use_caller tid h root = Inr s \<Longrightarrow> sched_reach s"
| step: "sched_reach s \<Longrightarrow> sched_step s s' \<Longrightarrow> sched_reach s'"

section \<open>Counting workers\<close>

fun busy :: "'cb thread_pc \<Rightarrow> bool" where
  "busy (Taken r) = (\<not> Option.is_none r)"
| "busy (InFiber f) = True"
| "busy (InCb f) = True"
| "busy (AfterFiber f) = True"
| "busy (AfterCb f) = True"
| "busy _ = False"

fun idling :: "'cb thread_pc \<Rightarrow> bool" where
  "idling InIdle = True"
| "idling AfterIdle = True"
| "idling _ = False"

definition count_pc :: "('cb thread_pc \<Rightarrow> bool) \<Rightarrow> 'cb scheduler \<Rightarrow> int" where
  "count_pc P s = int (length (filter (\<lambda>w. P (w_pc w)) (s_workers s)))"

definition task_ok :: "'cb task \<Rightarrow> bool" where
  "task_ok ft \<longleftrightarrow> ft_fiber ft \<noteq> None \<or> \<not> Option.is_none (ft_cb ft)"

definition sched_inv :: "'cb scheduler \<Rightarrow> bool" where
  "sched_inv s \<longleftrightarrow> m_activeThreadCount s = count_pc busy s \<and> m_idleThreadCount s = count_pc idling s
     \<and> list_all task_ok (m_fibers s)"

lemma length_filter_update:
  "i < length xs \<Longrightarrow> int (length (filter P (xs[i := y])))
     = int (length (filter P xs)) + (if P y then 1 else 0) - (if P (xs ! i) then 1 else 0)"
proof (induction xs arbitrary: i)
  case (Cons x xs)
  show ?case
  proof (cases i)
    case (Suc j)
    then show ?thesis using Cons.IH [of j] Cons.prems by (auto split: if_splits)
  qed simp
qed simp

lemma count_pc_set_worker [simp]:
  "i < length (s_workers s) \<Longrightarrow> count_pc P (set_worker s i w)
     = count_pc P s + (if P (w_pc w) then 1 else 0) - (if P (w_pc (worker s i)) then 1 else 0)"
  by (simp add: count_pc_def set_worker_def length_filter_update)

lemma sched_fields [simp]:
  "m_fibers (set_worker s i w) = m_fibers s" "m_activeThreadCount (set_worker s i w) = m_activeThreadCount s"
  "m_idleThreadCount (set_worker s i w) = m_idleThreadCount s" "s_states (set_worker s i w) = s_states s"
  "length (s_workers (set_worker s i w)) = length (s_workers s)"
  "m_fibers (put_state s f x) = m_fibers s" "m_activeThreadCount (put_state s f x) = m_activeThreadCount s"
  "m_idleThreadCount (put_state s f x) = m_idleThreadCount s" "s_workers (put_state s f x) = s_workers s"
  "s_states (put_state s f x) = (s_states s)(f \<mapsto> x)" "count_pc P (put_state s f x) = count_pc P s"
  "i < length (s_workers s) \<Longrightarrow> worker (set_worker s i w) i = w"
  by (simp_all add: set_worker_def put_state_def count_pc_def)

lemma count_pc_frame [simp]:
  "count_pc P (s\<lparr>m_fibers := q\<rparr>) = count_pc P s" "count_pc P (s\<lparr>m_activeThreadCount := n\<rparr>) = count_pc P s"
  "count_pc P (s\<lparr>m_idleThreadCount := n\<rparr>) = count_pc P s" "count_pc P (s\<lparr>m_stopping := b\<rparr>) = count_pc P s"
  "count_pc P (s\<lparr>m_autostop := b\<rparr>) = count_pc P s" "count_pc P (s\<lparr>m_threads := ts\<rparr>) = count_pc P s"
  "count_pc P (s\<lparr>m_threadIds := ts\<rparr>) = count_pc P s"
  by (simp_all add: count_pc_def)

section \<open>The scan\<close>

definition eligible :: "(nat \<Rightarrow> fiber_state option) \<Rightarrow> int \<Rightarrow> 'cb task \<Rightarrow> bool" where
  "eligible st tid ft \<longleftrightarrow> (ft_thread ft = -1 \<or> ft_thread ft = tid) \<and>
     (case ft_fiber ft of Some f \<Rightarrow> \<not> state_is st f EXEC | None \<Rightarrow> True)"

lemma scan_ok:
  assumes "list_all task_ok q"
  shows "scan st tid q =
    Inr (\<exists>ft\<in>set (takeWhile (\<lambda>ft. \<not> eligible st tid ft) q). ft_thread ft \<noteq> -1 \<and> ft_thread ft \<noteq> tid,
         (case dropWhile (\<lambda>ft. \<not> eligible st tid ft) q of [] \<Rightarrow> None | ft # _ \<Rightarrow> Some ft),
         takeWhile (\<lambda>ft. \<not> eligible st tid ft) q @ tl (dropWhile (\<lambda>ft. \<not> eligible st tid ft) q))"
  using assms
proof (induction st tid q rule: scan.induct)
  case (2 st tid ft q)
  have ok: "task_ok ft" and IH: "\<not> eligible st tid ft \<Longrightarrow> list_all task_ok q" using "2.prems" by auto
  show ?case
  proof (cases "ft_thread ft \<noteq> -1 \<and> ft_thread ft \<noteq> tid")
    case True
    then show ?thesis using 2 by (simp add: eligible_def)
  next
    case here: False
    show ?thesis
    proof (cases "eligible st tid ft")
      case True
      then have "\<not> (case ft_fiber ft of Some f \<Rightarrow> state_is st f EXEC | None \<Rightarrow> False)"
        by (cases "ft_fiber ft") (simp_all add: eligible_def)
      then show ?thesis using here ok True by (auto simp: task_ok_def)
    next
      case False
      then obtain f where f: "ft_fiber ft = Some f" "state_is st f EXEC"
        using here by (auto simp: eligible_def split: option.splits)
      then show ?thesis using here False 2 by auto
    qed
  qed
qed simp

section \<open>Every step keeps the invariant\<close>

lemma schedule_inv: "sched_inv s \<Longrightarrow> schedule s ft = (t, s') \<Longrightarrow> sched_inv s'"
  by (auto simp: schedule_def scheduleNoLock_def sched_inv_def task_ok_def)

lemma schedule_batch_loop_ok:
  "list_all task_ok q \<Longrightarrow> schedule_batch_loop q fts b = (t, q') \<Longrightarrow>
   q' = q @ filter task_ok fts \<and> t = (b \<or> q = [] \<and> fts \<noteq> [])"
proof (induction q fts b rule: schedule_batch_loop.induct)
  case (2 q ft fts b)
  then show ?case by (auto simp: scheduleNoLock_def task_ok_def split: if_splits)
qed simp

lemma schedule_batch_inv:
  assumes "sched_inv s" and "schedule_batch s fts = (t, s')"
  shows "sched_inv s'"
proof -
  obtain n q where q: "schedule_batch_loop (m_fibers s) fts False = (n, q)" by force
  have "q = m_fibers s @ filter task_ok fts"
    using schedule_batch_loop_ok [OF _ q] assms(1) by (simp add: sched_inv_def)
  then show ?thesis
    using assms q by (auto simp: schedule_batch_def sched_inv_def list_all_iff)
qed

lemma run_take_inv:
  assumes "sched_inv s" and "i < length (s_workers s)" and "w_pc (worker s i) = AtLoop"
    and "run_take s i = Inr (t, s')"
  shows "sched_inv s'"
proof -
  have q: "list_all task_ok (m_fibers s)" using assms(1) by (simp add: sched_inv_def)
  obtain r q' where r: "scan (s_states s) (w_tid (worker s i)) (m_fibers s) = Inr (t, r, q')"
    and s': "s' = (set_worker s i ((worker s i)\<lparr>w_pc := Taken r\<rparr>))\<lparr>m_fibers := q',
      m_activeThreadCount := m_activeThreadCount s + (case r of None \<Rightarrow> 0 | Some _ \<Rightarrow> 1)\<rparr>"
    using assms(4) by (auto simp: run_take_def bind_res_eq_Inr)
  have sub: "set (takeWhile P xs @ tl (dropWhile P xs)) \<subseteq> set xs" for P and xs :: "'a task list"
    by (induction xs) auto
  have "set q' \<subseteq> set (m_fibers s)"
    using r sub unfolding scan_ok [OF q] by blast
  then have "list_all task_ok q'" using q by (auto simp: list_all_iff)
  then show ?thesis
    using assms(1-3) by (cases r) (simp_all add: s' sched_inv_def)
qed

lemma swap_in_inv:
  assumes "swap_in s i f pc = Inr s'" and "i < length (s_workers s)"
  shows "s' = set_worker (put_state s f EXEC) i ((worker s i)\<lparr>w_pc := pc\<rparr>)"
  using assms by (auto simp: swap_in_def goto_def split: if_splits)

lemma run_enter_inv:
  assumes "sched_inv s" and "i < length (s_workers s)" and "w_pc (worker s i) = Taken r"
    and "run_enter s i a = Inr s'"
  shows "sched_inv s'"
proof (cases "runs_fiber (s_states s) r")
  case (Some f)
  have "swap_in s i f (InFiber f) = Inr s'" using assms(3,4) Some by (simp add: run_enter_def)
  from swap_in_inv [OF this assms(2)] show ?thesis
    using assms(1-3) Some
    by (auto simp: sched_inv_def runs_fiber_def Option.is_none_def split: option.splits)
next
  case nf: None
  show ?thesis
  proof (cases "runs_cb r")
    case (Some cb)
    then have r: "\<not> Option.is_none r" by (auto simp: runs_cb_def split: option.splits)
    show ?thesis
    proof (cases "w_cb_fiber (worker s i)")
      case (Some g)
      have "swap_in (put_state s g INIT) i g (InCb g) = Inr s'"
        using assms(3,4) nf \<open>runs_cb r = Some cb\<close> Some by (auto simp: run_enter_def split: if_splits)
      from swap_in_inv [OF this] show ?thesis
        using assms(1-3) r by (simp add: sched_inv_def)
    next
      case None
      let ?s = "set_worker (put_state s a INIT) i ((worker s i)\<lparr>w_cb_fiber := Some a\<rparr>)"
      have "swap_in ?s i a (InCb a) = Inr s'"
        using assms(3,4) nf \<open>runs_cb r = Some cb\<close> None by (simp add: run_enter_def)
      from swap_in_inv [OF this] show ?thesis
        using assms(1-3) r by (simp add: sched_inv_def)
    qed
  next
    case nc: None
    let ?s1 = "if Option.is_none r then s else s\<lparr>m_activeThreadCount := m_activeThreadCount s - 1\<rparr>"
    have s1: "m_activeThreadCount ?s1 = m_activeThreadCount s - (if busy (Taken r) then 1 else 0)"
      "m_idleThreadCount ?s1 = m_idleThreadCount s" "m_fibers ?s1 = m_fibers s" "s_workers ?s1 = s_workers s"
      by simp_all
    have cnt: "count_pc P ?s1 = count_pc P s" for P by simp
    show ?thesis
    proof (cases "state_is (s_states s) (w_idle_fiber (worker s i)) FTERM")
      case True
      then have "s' = goto ?s1 i Exited"
        using assms(3,4) nf nc by (simp add: run_enter_def Let_def)
      then show ?thesis
        using assms(1-3) s1 cnt by (simp add: sched_inv_def goto_def)
    next
      case False
      let ?s2 = "?s1\<lparr>m_idleThreadCount := m_idleThreadCount ?s1 + 1\<rparr>"
      have "swap_in ?s2 i (w_idle_fiber (worker s i)) InIdle = Inr s'"
        using assms(3,4) nf nc False by (simp add: run_enter_def Let_def)
      from swap_in_inv [OF this] show ?thesis
        using assms(1-3) s1 cnt by (simp add: sched_inv_def)
    qed
  qed
qed

lemma fiber_leave_inv:
  assumes "sched_inv s" and "i < length (s_workers s)"
  shows "sched_inv (fiber_leave s i left)"
  using assms by (cases "w_pc (worker s i)") (simp_all add: fiber_leave_def goto_def sched_inv_def)

lemma worker_back_inv:
  assumes "sched_inv s" and "i < length (s_workers s)" and "busy (w_pc (worker s i))"
    and "\<not> idling (w_pc (worker s i))" and "w_pc w = AtLoop"
  shows "sched_inv (set_worker (s\<lparr>m_activeThreadCount := m_activeThreadCount s - 1\<rparr>) i w)"
  using assms by (simp add: sched_inv_def)

lemma put_state_inv [simp]: "sched_inv (put_state s f x) = sched_inv s"
  by (simp add: sched_inv_def)

lemma set_worker_twice [simp]: "set_worker (set_worker s i v) i w = set_worker s i w"
  by (simp add: set_worker_def)

lemma run_after_inv:
  assumes "sched_inv s" and "i < length (s_workers s)" and "run_after s i = Inr (t, s')"
  shows "sched_inv s'"
proof (cases "w_pc (worker s i)")
  case (AfterFiber f)
  let ?s1 = "goto (s\<lparr>m_activeThreadCount := m_activeThreadCount s - 1\<rparr>) i AtLoop"
  have "sched_inv ?s1" unfolding goto_def
    by (rule worker_back_inv [OF assms(1,2)]) (simp_all add: AfterFiber)
  then show ?thesis
    using assms(3) AfterFiber schedule_inv [of ?s1 "fiber_task f"]
    by (auto simp: run_after_def Let_def split: if_splits)
next
  case (AfterCb f)
  let ?s0 = "s\<lparr>m_activeThreadCount := m_activeThreadCount s - 1\<rparr>"
  let ?s1 = "goto ?s0 i AtLoop"
  let ?s2 = "set_worker ?s1 i ((worker ?s1 i)\<lparr>w_cb_fiber := None\<rparr>)"
  have s1: "sched_inv ?s1" unfolding goto_def
    by (rule worker_back_inv [OF assms(1,2)]) (simp_all add: AfterCb)
  have s2: "sched_inv ?s2" unfolding goto_def set_worker_twice
    by (rule worker_back_inv [OF assms(1,2)]) (use assms(2) in \<open>simp_all add: AfterCb\<close>)
  show ?thesis
    using assms(3) AfterCb s1 s2 schedule_inv [OF s2, of "fiber_task f"]
    by (auto simp: run_after_def Let_def split: if_splits)
next
  case AfterIdle
  let ?s1 = "goto (s\<lparr>m_idleThreadCount := m_idleThreadCount s - 1\<rparr>) i AtLoop"
  have "sched_inv ?s1"
    using assms(1,2) AfterIdle by (simp add: goto_def sched_inv_def)
  then show ?thesis
    using assms(3) AfterIdle by (auto simp: run_after_def Let_def split: if_splits)
qed (use assms in \<open>simp_all add: run_after_def\<close>)

lemma sched_step_inv: "sched_step s s' \<Longrightarrow> sched_inv s \<Longrightarrow> sched_inv s'"
proof (induction rule: sched_step.induct)
  case (entry s a s' tid)
  then show ?case by (simp add: run_begin_def new_worker_def sched_inv_def count_pc_def)
next
  case (start s tids s')
  then show ?case
    by (auto simp: scheduler_start_def assert_that_def sched_inv_def Let_def split: if_splits)
next
  case (stop s b n c j s')
  then show ?case
    by (auto simp: scheduler_stop_def assert_that_def sched_inv_def Let_def split: if_splits)
next
  case (take i s t s')
  from run_take_inv [OF take.prems take.hyps] show ?case .
next
  case (enter i s r a s')
  from run_enter_inv [OF enter.prems enter.hyps(1,2,4)] show ?case .
next
  case (leave i s s' left)
  show ?case unfolding leave.hyps(2) by (rule fiber_leave_inv [OF leave.prems leave.hyps(1)])
next
  case (after i s t s')
  from run_after_inv [OF after.prems after.hyps] show ?case .
next
  case (put s ft t s')
  from schedule_inv [OF put.prems put.hyps(2)] show ?case .
next
  case (puts s fts t s')
  from schedule_batch_inv [OF puts.prems puts.hyps(2)] show ?case .
next
  case (spawn s a s')
  then show ?case by simp
qed

lemma sched_reach_inv: "sched_reach s \<Longrightarrow> sched_inv s"
proof (induction rule: sched_reach.induct)
  case (init n use_caller tid h root s)
  then show ?case
    by (auto simp: scheduler_new_def assert_that_def sched_inv_def count_pc_def Let_def split: if_splits)
qed (rule sched_step_inv)

section \<open>Properties of the scheduler\<close>



text \<open>
  The scan of the queue never fails its assertion and takes the first task that the thread may
  run: not pinned to another thread and not a fiber that is executing. The other tasks stay in
  their order; with no such task the queue is unchanged.
\<close>

theorem take_first_eligible:
  assumes "sched_reach s" and "i < length (s_workers s)"
  shows "\<exists>t s'. run_take s i = Inr (t, s')
    \<and> ((\<forall>ft\<in>set (m_fibers s). \<not> eligible (s_states s) (w_tid (worker s i)) ft) \<longrightarrow>
         w_pc (worker s' i) = Taken None \<and> m_fibers s' = m_fibers s)
    \<and> (\<forall>before ft behind. m_fibers s = before @ ft # behind \<and> eligible (s_states s) (w_tid (worker s i)) ft
         \<and> (\<forall>x\<in>set before. \<not> eligible (s_states s) (w_tid (worker s i)) x) \<longrightarrow>
         w_pc (worker s' i) = Taken (Some ft) \<and> m_fibers s' = before @ behind)"
proof -
  have q: "list_all task_ok (m_fibers s)" using sched_reach_inv [OF assms(1)] by (simp add: sched_inv_def)
  note S = scan_ok [OF q, of "s_states s" "w_tid (worker s i)"]
  have app: "takeWhile (\<lambda>ft. \<not> P ft) (before @ ft # behind) = before"
    "dropWhile (\<lambda>ft. \<not> P ft) (before @ ft # behind) = ft # behind"
    if "P ft" "\<forall>x\<in>set before. \<not> P x" for P and ft :: "'a task" and before behind
    using that by (simp_all add: takeWhile_append dropWhile_append)
  have none: "takeWhile (\<lambda>ft. \<not> P ft) xs = xs" "dropWhile (\<lambda>ft. \<not> P ft) xs = []"
    if "\<forall>x\<in>set xs. \<not> P x" for P and xs :: "'a task list"
    using that by (simp_all add: takeWhile_eq_all_conv dropWhile_eq_Nil_conv)
  show ?thesis
    using assms(2) by (auto simp: run_take_def S app none)
qed

lemma take_first_eligible_witness:
  "\<exists>s :: unit scheduler. sched_reach s \<and> (\<exists>t s'. run_take s 0 = Inr (t, s'))"
proof -
  obtain s0 :: "unit scheduler" where s0: "scheduler_new 2 False 0 False 0 = Inr s0"
    by (simp add: scheduler_new_def)
  have "sched_reach (run_begin s0 5 7)"
    by (rule sched_reach.step [OF sched_reach.init [OF s0] sched_step.entry [OF _ refl]])
       (use s0 in \<open>auto simp: scheduler_new_def Let_def\<close>)
  moreover have "0 < length (s_workers (run_begin s0 5 7))" by (simp add: run_begin_def)
  ultimately show ?thesis using take_first_eligible [of "run_begin s0 5 7" 0] by blast
qed

text \<open>
  Scheduling a batch appends its tasks in order, dropping those without fiber and callback,
  and tickles exactly when the queue was empty and the batch was not.
\<close>

theorem schedule_batch_fifo:
  assumes "sched_reach s" and "schedule_batch s fts = (t, s')"
  shows "m_fibers s' = m_fibers s @ filter (\<lambda>ft. ft_fiber ft \<noteq> None \<or> ft_cb ft \<noteq> None) fts
    \<and> t = (m_fibers s = [] \<and> fts \<noteq> [])"
proof -
  obtain n q where q: "schedule_batch_loop (m_fibers s) fts False = (n, q)" by force
  have "filter task_ok fts = filter (\<lambda>ft. ft_fiber ft \<noteq> None \<or> ft_cb ft \<noteq> None) fts"
    by (simp add: task_ok_def [abs_def] Option.is_none_def)
  then show ?thesis
    using schedule_batch_loop_ok [OF _ q] sched_reach_inv [OF assms(1)] assms(2) q
    by (auto simp: sched_inv_def schedule_batch_def)
qed

lemma schedule_batch_fifo_witness:
  "\<exists>s s' :: unit scheduler. sched_reach s \<and> schedule_batch s [fiber_task 3] = (True, s') \<and> m_fibers s' = [fiber_task 3]"
proof -
  obtain s0 :: "unit scheduler" where s0: "scheduler_new 2 False 0 False 0 = Inr s0"
    by (simp add: scheduler_new_def)
  obtain t s' where s': "schedule_batch s0 [fiber_task 3] = (t, s')" by force
  have "m_fibers s0 = []" using s0 by (auto simp: scheduler_new_def)
  then show ?thesis
    using sched_reach.init [OF s0] schedule_batch_fifo [OF sched_reach.init [OF s0] s'] s'
    by (auto simp: fiber_task_def)
qed

text \<open>
  A callback that leaves with an exception stops the program: back in \<open>run\<close>, the callback
  fiber is in the state \<open>EXCEPT\<close> and its \<open>reset\<close> fails the assertion on the state.
\<close>

theorem callback_exception_aborts:
  assumes "i < length (s_workers s)" and "w_pc (worker s i) = InCb f"
  shows "run_after (fiber_leave s i EXCEPT) i = Inl (AssertFailed ''reset state'')"
  using assms
  by (simp add: fiber_leave_def goto_def run_after_def state_is_def Let_def)

lemma callback_exception_aborts_witness:
  "\<exists>s :: unit scheduler. run_after (fiber_leave s 0 EXCEPT) 0 = Inl (AssertFailed ''reset state'')"
  using callback_exception_aborts [of 0 "\<lparr>m_fibers = [], m_activeThreadCount = 1, m_idleThreadCount = 0,
      m_stopping = False, m_autostop = False, m_threadCount = 1, m_rootFiber = None, m_rootThreadId = -1,
      m_threadIds = [], m_threads = [],
      s_workers = [\<lparr>w_tid = 1, w_pc = InCb 4, w_cb_fiber = Some 4, w_idle_fiber = 2\<rparr>], s_states = [4 \<mapsto> EXEC]\<rparr>" 4]
  by auto

subsection \<open>A fiber on two workers\<close>

text \<open>The states of a run of two workers (threads 10 and 11, idle fibers 1 and 2) and the fiber 9.\<close>

definition two :: "bool \<Rightarrow> int \<Rightarrow> fiber_state \<Rightarrow> unit thread_pc \<Rightarrow> unit thread_pc \<Rightarrow> unit scheduler" where
  "two queued active st pc0 pc1 =
     \<lparr>m_fibers = (if queued then [fiber_task 9] else []), m_activeThreadCount = active, m_idleThreadCount = 0,
      m_stopping = True, m_autostop = False, m_threadCount = 2, m_rootFiber = None, m_rootThreadId = -1,
      m_threadIds = [], m_threads = [],
      s_workers = [\<lparr>w_tid = 10, w_pc = pc0, w_cb_fiber = None, w_idle_fiber = 1\<rparr>,
                   \<lparr>w_tid = 11, w_pc = pc1, w_cb_fiber = None, w_idle_fiber = 2\<rparr>],
      s_states = [1 \<mapsto> INIT, 2 \<mapsto> INIT, 9 \<mapsto> st]\<rparr>"

lemma two_take0:
  "st \<noteq> EXEC \<Longrightarrow>
   sched_step (two True n st AtLoop pc1) (two False (n + 1) st (Taken (Some (fiber_task 9))) pc1)"
  by (rule sched_step.take [of 0 _ False])
     (simp_all add: two_def run_take_def fiber_task_def state_is_def set_worker_def)

lemma two_take1:
  "st \<noteq> EXEC \<Longrightarrow>
   sched_step (two True n st pc0 AtLoop) (two False (n + 1) st pc0 (Taken (Some (fiber_task 9))))"
  by (rule sched_step.take [of 1 _ False])
     (simp_all add: two_def run_take_def fiber_task_def state_is_def set_worker_def)

lemma two_enter0:
  "st \<in> {INIT, HOLD} \<Longrightarrow>
   sched_step (two q n st (Taken (Some (fiber_task 9))) pc1) (two q n EXEC (InFiber 9) pc1)"
  by (rule sched_step.enter [of 0 _ "Some (fiber_task 9)" 5])
     (auto simp: two_def run_enter_def runs_fiber_def fiber_task_def swap_in_def goto_def put_state_def
        state_is_def set_worker_def)

lemma two_enter1:
  "st \<in> {INIT, HOLD} \<Longrightarrow>
   sched_step (two q n st pc0 (Taken (Some (fiber_task 9)))) (two q n EXEC pc0 (InFiber 9))"
  by (rule sched_step.enter [of 1 _ "Some (fiber_task 9)" 5])
     (auto simp: two_def run_enter_def runs_fiber_def fiber_task_def swap_in_def goto_def put_state_def
        state_is_def set_worker_def)

lemma two_put: "sched_step (two False n st pc0 pc1) (two True n st pc0 pc1)"
  by (rule sched_step.put [of _ "fiber_task 9" True])
     (simp_all add: two_def known_def fiber_task_def schedule_def scheduleNoLock_def)

lemma two_hold: "sched_step (two q n st (InFiber 9) pc1) (two q n HOLD (AfterFiber 9) pc1)"
  by (rule sched_step.leave [of 0 _ _ HOLD]) (simp_all add: two_def fiber_leave_def goto_def put_state_def set_worker_def)

lemma two_after:
  "st \<in> {HOLD, EXEC} \<Longrightarrow> sched_step (two q n st (AfterFiber 9) pc1) (two q (n - 1) HOLD AtLoop pc1)"
  by (rule sched_step.after [of 0 _ False])
     (auto simp: two_def run_after_def goto_def put_state_def state_is_def ended_def set_worker_def)

lemma two_start: "sched_reach (two False 0 INIT AtLoop AtLoop)"
proof -
  obtain s0 :: "unit scheduler" where s0: "scheduler_new 2 False 0 False 0 = Inr s0"
    by (simp add: scheduler_new_def)
  note defs = run_begin_def new_worker_def put_state_def
  have e: "s_states s0 = (\<lambda>_. None)" using s0 by (auto simp: scheduler_new_def)
  have r1: "sched_reach (run_begin s0 10 1)"
    by (rule sched_reach.step [OF sched_reach.init [OF s0] sched_step.entry [OF _ refl]]) (simp add: e)
  have r2: "sched_reach (run_begin (run_begin s0 10 1) 11 2)"
    by (rule sched_reach.step [OF r1 sched_step.entry [OF _ refl]]) (simp add: e defs)
  have r3: "sched_reach (put_state (run_begin (run_begin s0 10 1) 11 2) 9 INIT)"
    by (rule sched_reach.step [OF r2 sched_step.spawn [OF _ refl]]) (simp add: e defs)
  have "put_state (run_begin (run_begin s0 10 1) 11 2) 9 INIT = two False 0 INIT AtLoop AtLoop"
    using s0 by (auto simp: scheduler_new_def defs two_def)
  then show ?thesis using r3 by simp
qed

text \<open>A fiber can run on two workers at once. It holds (its state becomes \<open>HOLD\<close>) and another
  worker, told by an event, switches into it before the first worker is past line 198, where that
  worker sets the state back to \<open>HOLD\<close>; from then on the state no longer says that the fiber is
  executing, and the next event lets the first worker switch into it again.
\<close>

theorem fiber_on_two_workers:
  "\<exists>s :: unit scheduler. sched_reach s \<and> w_pc (worker s 0) = InFiber 9 \<and> w_pc (worker s 1) = InFiber 9"
proof -
  have "sched_reach (two True 0 INIT AtLoop AtLoop)"
    by (rule sched_reach.step [OF two_start two_put])
  then have "sched_reach (two False 1 INIT (Taken (Some (fiber_task 9))) AtLoop)"
    using sched_reach.step [OF _ two_take0 [of INIT 0 AtLoop]] by simp
  then have "sched_reach (two False 1 EXEC (InFiber 9) AtLoop)"
    using sched_reach.step [OF _ two_enter0] by simp
  then have "sched_reach (two True 1 EXEC (InFiber 9) AtLoop)"
    by (rule sched_reach.step [OF _ two_put])
  then have "sched_reach (two True 1 HOLD (AfterFiber 9) AtLoop)"
    by (rule sched_reach.step [OF _ two_hold])
  then have "sched_reach (two False 2 HOLD (AfterFiber 9) (Taken (Some (fiber_task 9))))"
    using sched_reach.step [OF _ two_take1 [of HOLD 1 "AfterFiber 9"]] by simp
  then have "sched_reach (two False 2 EXEC (AfterFiber 9) (InFiber 9))"
    using sched_reach.step [OF _ two_enter1] by simp
  then have "sched_reach (two False 1 HOLD AtLoop (InFiber 9))"
    using sched_reach.step [OF _ two_after [of EXEC False 2 "InFiber 9"]] by simp
  then have "sched_reach (two True 1 HOLD AtLoop (InFiber 9))"
    by (rule sched_reach.step [OF _ two_put])
  then have "sched_reach (two False 2 HOLD (Taken (Some (fiber_task 9))) (InFiber 9))"
    using sched_reach.step [OF _ two_take0 [of HOLD 1 "InFiber 9"]] by simp
  then have "sched_reach (two False 2 EXEC (InFiber 9) (InFiber 9))"
    using sched_reach.step [OF _ two_enter0] by simp
  then show ?thesis by (rule exI [where x = "two False 2 EXEC (InFiber 9) (InFiber 9)", OF conjI])
      (simp add: two_def)
qed

end
