(* ===== verification/Timer.thy ===== *)
theory Timer
  imports Ordered
begin

text \<open>
  The timers of \<open>src/timer.cpp\<close>. A \<open>Timer\<close> object lives at an address of the manager's heap
  \<open>m_heap\<close>; \<open>m_timers\<close> is the \<open>std::set\<close> of addresses in the order of \<open>Timer::Comparator\<close>,
  which reads the objects through the heap. Times are 64-bit words and wrap around. The
  clock (\<open>GetCurrentMS\<close>) and the addresses \<open>new\<close> returns are arguments. The locks make each
  operation one step; the calls of \<open>onTimerInsertedAtFront\<close> are returned as a flag.
\<close>

section \<open>State\<close>

text \<open>A callback is a user function or \<open>std::bind (&OnTimer, weak_cond, cb)\<close>.\<close>

datatype 'f callback = Direct 'f | OnTimer nat 'f

record 'f timer =
  m_recurring :: bool
  m_ms :: u64
  m_next :: u64
  m_cb :: "'f callback option"

record 'f timer_manager =
  m_heap :: "nat \<Rightarrow> 'f timer option"
  m_timers :: "nat list"
  m_tickled :: bool
  m_previousTime :: u64

datatype timer_error = Dangling | EraseEnd

section \<open>Operations\<close>

text \<open>The object behind a pointer; a pointer to no object reads as a timer that does nothing.\<close>

definition timer_at :: "(nat \<Rightarrow> 'f timer option) \<Rightarrow> nat \<Rightarrow> 'f timer" where
  "timer_at h a = (case h a of
     Some t \<Rightarrow> t
   | None \<Rightarrow> \<lparr>m_recurring = False, m_ms = 0, m_next = 0, m_cb = None\<rparr>)"

definition Comparator :: "(nat \<Rightarrow> 'f timer option) \<Rightarrow> nat option \<Rightarrow> nat option \<Rightarrow> bool" where
  "Comparator h lhs rhs = (case (lhs, rhs) of
     (None, None) \<Rightarrow> False
   | (None, Some _) \<Rightarrow> True
   | (Some _, None) \<Rightarrow> False
   | (Some a, Some b) \<Rightarrow>
       if m_next (timer_at h a) = m_next (timer_at h b) then a < b
       else m_next (timer_at h a) < m_next (timer_at h b))"

abbreviation timer_lt :: "(nat \<Rightarrow> 'f timer option) \<Rightarrow> nat \<Rightarrow> nat \<Rightarrow> bool" where
  "timer_lt h a b \<equiv> Comparator h (Some a) (Some b)"

definition timer_new :: "u64 \<Rightarrow> u64 \<Rightarrow> 'f callback \<Rightarrow> bool \<Rightarrow> 'f timer" where
  "timer_new now ms cb recurring = \<lparr>m_recurring = recurring, m_ms = ms, m_next = now + ms, m_cb = Some cb\<rparr>"

definition timer_probe :: "u64 \<Rightarrow> 'f timer" where
  "timer_probe next = \<lparr>m_recurring = False, m_ms = 0, m_next = next, m_cb = None\<rparr>"

definition timer_manager_new :: "u64 \<Rightarrow> 'f timer_manager" where
  "timer_manager_new now = \<lparr>m_heap = (\<lambda>_. None), m_timers = [], m_tickled = False, m_previousTime = now\<rparr>"

definition cancel :: "'f timer_manager \<Rightarrow> nat \<Rightarrow> timer_error + bool \<times> 'f timer_manager" where
  "cancel m a = (case m_heap m a of
     None \<Rightarrow> Inl Dangling
   | Some t \<Rightarrow>
       (case m_cb t of
          None \<Rightarrow> Inr (False, m)
        | Some _ \<Rightarrow>
            let h = (m_heap m)(a \<mapsto> t\<lparr>m_cb := None\<rparr>) in
            (case oset_find (timer_lt h) a (m_timers m) of
               None \<Rightarrow> Inl EraseEnd
             | Some it \<Rightarrow> Inr (True, m\<lparr>m_heap := h, m_timers := oset_erase (timer_lt h) it (m_timers m)\<rparr>))))"

definition refresh :: "'f timer_manager \<Rightarrow> nat \<Rightarrow> u64 \<Rightarrow> timer_error + bool \<times> 'f timer_manager" where
  "refresh m a now = (case m_heap m a of
     None \<Rightarrow> Inl Dangling
   | Some t \<Rightarrow>
       (case m_cb t of
          None \<Rightarrow> Inr (False, m)
        | Some _ \<Rightarrow>
            (case oset_find (timer_lt (m_heap m)) a (m_timers m) of
               None \<Rightarrow> Inr (False, m)
             | Some it \<Rightarrow>
                 let ts = oset_erase (timer_lt (m_heap m)) it (m_timers m);
                     h = (m_heap m)(a \<mapsto> t\<lparr>m_next := now + m_ms t\<rparr>)
                 in Inr (True, m\<lparr>m_heap := h, m_timers := oset_insert (timer_lt h) a ts\<rparr>))))"

text \<open>\<open>addTimer (timer, lock)\<close>: the flag says that \<open>onTimerInsertedAtFront\<close> is called.\<close>

definition addTimer_locked :: "'f timer_manager \<Rightarrow> nat \<Rightarrow> bool \<times> 'f timer_manager" where
  "addTimer_locked m a =
     (let ts = oset_insert (timer_lt (m_heap m)) a (m_timers m);
          at_front = (hd ts = a \<and> \<not> m_tickled m)
      in (at_front, m\<lparr>m_timers := ts, m_tickled := (if at_front then True else m_tickled m)\<rparr>))"

definition reset :: "'f timer_manager \<Rightarrow> nat \<Rightarrow> u64 \<Rightarrow> u64 \<Rightarrow> bool
    \<Rightarrow> timer_error + bool \<times> bool \<times> 'f timer_manager" where
  "reset m a now ms from_now = (case m_heap m a of
     None \<Rightarrow> Inl Dangling
   | Some t \<Rightarrow>
       if ms = m_ms t \<and> \<not> from_now then Inr (True, False, m)
       else (case m_cb t of
          None \<Rightarrow> Inr (False, False, m)
        | Some _ \<Rightarrow>
            (case oset_find (timer_lt (m_heap m)) a (m_timers m) of
               None \<Rightarrow> Inr (False, False, m)
             | Some it \<Rightarrow>
                 let ts = oset_erase (timer_lt (m_heap m)) it (m_timers m);
                     start = (if from_now then now else m_next t - m_ms t);
                     h = (m_heap m)(a \<mapsto> t\<lparr>m_ms := ms, m_next := start + ms\<rparr>);
                     (front, m') = addTimer_locked (m\<lparr>m_heap := h, m_timers := ts\<rparr>) a
                 in Inr (True, front, m'))))"

definition addTimer :: "'f timer_manager \<Rightarrow> nat \<Rightarrow> u64 \<Rightarrow> u64 \<Rightarrow> 'f callback \<Rightarrow> bool \<Rightarrow> bool \<times> 'f timer_manager" where
  "addTimer m a now ms cb recurring =
     addTimer_locked (m\<lparr>m_heap := (m_heap m)(a \<mapsto> timer_new now ms cb recurring)\<rparr>) a"

definition addConditionTimer :: "'f timer_manager \<Rightarrow> nat \<Rightarrow> u64 \<Rightarrow> u64 \<Rightarrow> 'f \<Rightarrow> nat \<Rightarrow> bool
    \<Rightarrow> bool \<times> 'f timer_manager" where
  "addConditionTimer m a now ms cb weak_cond recurring = addTimer m a now ms (OnTimer weak_cond cb) recurring"

text \<open>Calling a callback: the user function that runs, if any; \<open>alive\<close> says which conditions
  still have an owner (\<open>weak_cond.lock ()\<close> succeeds).\<close>

definition call_cb :: "(nat \<Rightarrow> bool) \<Rightarrow> 'f callback \<Rightarrow> 'f option" where
  "call_cb alive cb = (case cb of Direct f \<Rightarrow> Some f | OnTimer weak_cond f \<Rightarrow> if alive weak_cond then Some f else None)"

definition getNextTimer :: "'f timer_manager \<Rightarrow> u64 \<Rightarrow> u64 \<times> 'f timer_manager" where
  "getNextTimer m now =
     (case m_timers m of
        [] \<Rightarrow> - 1
      | a # _ \<Rightarrow> let next = m_next (timer_at (m_heap m) a) in if next \<le> now then 0 else next - now,
      m\<lparr>m_tickled := False\<rparr>)"

definition detectClockRollover :: "'f timer_manager \<Rightarrow> u64 \<Rightarrow> bool \<times> 'f timer_manager" where
  "detectClockRollover m now =
     (now < m_previousTime m \<and> now < m_previousTime m - 60 * 60 * 1000, m\<lparr>m_previousTime := now\<rparr>)"

text \<open>The loop over the expired timers.\<close>

fun expire_loop :: "u64 \<Rightarrow> nat list \<Rightarrow> 'f callback option list \<Rightarrow> 'f timer_manager
    \<Rightarrow> 'f callback option list \<times> 'f timer_manager" where
  "expire_loop now [] cbs m = (cbs, m)"
| "expire_loop now (a # expired) cbs m =
     (let t = timer_at (m_heap m) a in
      if m_recurring t
      then let h = (m_heap m)(a \<mapsto> t\<lparr>m_next := now + m_ms t\<rparr>) in
        expire_loop now expired (cbs @ [m_cb t]) (m\<lparr>m_heap := h, m_timers := oset_insert (timer_lt h) a (m_timers m)\<rparr>)
      else expire_loop now expired (cbs @ [m_cb t]) (m\<lparr>m_heap := (m_heap m)(a \<mapsto> t\<lparr>m_cb := None\<rparr>)\<rparr>))"

text \<open>\<open>listExpiredCb\<close>; \<open>probe\<close> is the address of the timer made for the comparison.\<close>

definition listExpiredCb :: "'f timer_manager \<Rightarrow> u64 \<Rightarrow> nat \<Rightarrow> 'f callback option list \<times> 'f timer_manager" where
  "listExpiredCb m now probe = (case m_timers m of
     [] \<Rightarrow> ([], m)
   | a # _ \<Rightarrow>
       let (rollover, m1) = detectClockRollover m now in
       if \<not> rollover \<and> now < m_next (timer_at (m_heap m1) a) then ([], m1)
       else let lt = timer_lt ((m_heap m1)(probe \<mapsto> timer_probe now));
                expired = (if rollover then m_timers m1 else oset_upto lt probe (m_timers m1));
                rest = (if rollover then [] else oset_from lt probe (m_timers m1))
            in expire_loop now expired [] (m1\<lparr>m_timers := rest\<rparr>))"

definition hasTimer :: "'f timer_manager \<Rightarrow> bool" where
  "hasTimer m = (m_timers m \<noteq> [])"

section \<open>The order of the set\<close>

lemma timer_lt_iff:
  "timer_lt h a b \<longleftrightarrow> m_next (timer_at h a) < m_next (timer_at h b) \<or>
     m_next (timer_at h a) = m_next (timer_at h b) \<and> a < b"
  by (auto simp: Comparator_def)

lemma timer_equivalent_iff: "equivalent (timer_lt h) a b \<longleftrightarrow> a = b"
  unfolding equivalent_def timer_lt_iff by (metis less_irrefl linorder_cases)

interpretation timer_ord: strict_total_order "timer_lt h" for h :: "nat \<Rightarrow> 'f timer option"
proof
  fix a b c
  show "\<not> timer_lt h a a" by (simp add: timer_lt_iff)
  show "timer_lt h a b \<Longrightarrow> timer_lt h b c \<Longrightarrow> timer_lt h a c"
    unfolding timer_lt_iff by (elim disjE conjE) (auto dest: less_trans)
  show "equivalent (timer_lt h) a b \<Longrightarrow> equivalent (timer_lt h) b c \<Longrightarrow> equivalent (timer_lt h) a c"
    by (simp add: timer_equivalent_iff)
  show "a \<noteq> b \<Longrightarrow> timer_lt h a b \<or> timer_lt h b a"
    unfolding timer_lt_iff by (metis linorder_cases)
qed

lemma timer_at_simps [simp]:
  "h a = Some t \<Longrightarrow> timer_at h a = t" "timer_at (h(a \<mapsto> t)) a = t" "b \<noteq> a \<Longrightarrow> timer_at (h(a \<mapsto> t)) b = timer_at h b"
  by (simp_all add: timer_at_def)

lemma timer_lt_cong:
  "m_next (timer_at h a) = m_next (timer_at h' a) \<Longrightarrow> m_next (timer_at h b) = m_next (timer_at h' b) \<Longrightarrow>
   timer_lt h a b = timer_lt h' a b"
  by (simp add: Comparator_def)

lemma sorted_timer_cong:
  assumes "sorted_wrt (timer_lt h) xs" and "\<And>a. a \<in> set xs \<Longrightarrow> m_next (timer_at h' a) = m_next (timer_at h a)"
  shows "sorted_wrt (timer_lt h') xs"
  by (rule sorted_wrt_mono_rel [OF _ assms(1)]) (simp add: timer_lt_cong [of h' _ h] assms(2))

text \<open>Changing an object that is not in the set keeps the set sorted.\<close>

lemma sorted_timer_upd:
  "sorted_wrt (timer_lt h) xs \<Longrightarrow> a \<notin> set xs \<Longrightarrow> sorted_wrt (timer_lt (h(a \<mapsto> t))) xs"
  by (erule sorted_timer_cong) (metis timer_at_simps(3))

section \<open>Invariant\<close>

definition tm_inv :: "'f timer_manager \<Rightarrow> bool" where
  "tm_inv m \<longleftrightarrow> sorted_wrt (timer_lt (m_heap m)) (m_timers m) \<and>
     (\<forall>a. a \<in> set (m_timers m) \<longleftrightarrow> (\<exists>t. m_heap m a = Some t \<and> m_cb t \<noteq> None))"

lemma tm_invD:
  assumes "tm_inv m"
  shows "sorted_wrt (timer_lt (m_heap m)) (m_timers m)"
    and "a \<in> set (m_timers m) \<longleftrightarrow> (\<exists>t. m_heap m a = Some t \<and> m_cb t \<noteq> None)"
  using assms by (auto simp: tm_inv_def)

lemma tm_inv_new: "tm_inv (timer_manager_new now)"
  by (simp add: tm_inv_def timer_manager_new_def)

text \<open>\<open>find\<close>, \<open>erase\<close> and \<open>insert\<close> in a manager that satisfies the invariant.\<close>

lemma timer_found:
  assumes "tm_inv m" and "m_heap m a = Some t" and "m_cb t = Some cb"
  shows "a \<in> set (m_timers m)"
    and "oset_find (timer_lt (m_heap m)) a (m_timers m) = Some a"
    and "oset_erase (timer_lt (m_heap m)) a (m_timers m) = removeAll a (m_timers m)"
proof -
  note I = tm_invD [OF assms(1)]
  show "a \<in> set (m_timers m)" using I(2) [of a] assms(2,3) by simp
  then show "oset_find (timer_lt (m_heap m)) a (m_timers m) = Some a"
    by (simp add: timer_ord.oset_find_eq [OF I(1)])
  show "oset_erase (timer_lt (m_heap m)) a (m_timers m) = removeAll a (m_timers m)"
    by (rule timer_ord.oset_erase_eq [OF I(1)])
qed

lemma sorted_removeAll: "sorted_wrt P xs \<Longrightarrow> sorted_wrt P (removeAll a xs)"
  by (simp add: removeAll_filter_not_eq sorted_wrt_filter)

lemma sorted_reinsert:
  assumes "sorted_wrt (timer_lt h) xs" and "a \<notin> set xs"
  shows "sorted_wrt (timer_lt (h(a \<mapsto> t))) (oset_insert (timer_lt (h(a \<mapsto> t))) a xs)"
  by (rule timer_ord.oset_insert_sorted [OF sorted_timer_upd [OF assms]])

text \<open>Replacing an object and putting it (back) into the set keeps the invariant.\<close>

lemma tm_inv_reinsert:
  assumes "tm_inv m" and "m_cb t \<noteq> None"
    and "h = (m_heap m)(a \<mapsto> t)" and "ts = oset_insert (timer_lt h) a (removeAll a (m_timers m))"
  shows "tm_inv (m\<lparr>m_heap := h, m_timers := ts\<rparr>)"
proof -
  note I = tm_invD [OF assms(1)]
  have "sorted_wrt (timer_lt h) ts"
    unfolding assms(3,4) by (rule sorted_reinsert [OF sorted_removeAll [OF I(1)]]) simp
  moreover have "b \<in> set ts \<longleftrightarrow> (\<exists>t. h b = Some t \<and> m_cb t \<noteq> None)" for b
    using I(2) [of b] assms(2) by (auto simp: assms(3,4) timer_ord.set_oset_insert_eq)
  ultimately show ?thesis by (simp add: tm_inv_def)
qed

lemma tm_inv_flags [simp]:
  "tm_inv (m\<lparr>m_tickled := b\<rparr>) = tm_inv m" "tm_inv (m\<lparr>m_previousTime := p\<rparr>) = tm_inv m"
  "tm_inv (m\<lparr>m_timers := ts, m_tickled := b\<rparr>) = tm_inv (m\<lparr>m_timers := ts\<rparr>)"
  by (simp_all add: tm_inv_def)

lemma cancel_ok:
  assumes "tm_inv m" and "m_heap m a = Some t"
  shows "cancel m a = Inr (m_cb t \<noteq> None,
    m\<lparr>m_heap := (m_heap m)(a \<mapsto> t\<lparr>m_cb := None\<rparr>), m_timers := removeAll a (m_timers m)\<rparr>)"
    and "tm_inv (m\<lparr>m_heap := (m_heap m)(a \<mapsto> t\<lparr>m_cb := None\<rparr>), m_timers := removeAll a (m_timers m)\<rparr>)"
proof -
  note I = tm_invD [OF assms(1)]
  let ?h = "(m_heap m)(a \<mapsto> t\<lparr>m_cb := None\<rparr>)"
  have same: "timer_lt ?h = timer_lt (m_heap m)"
    by (intro ext timer_lt_cong) (use assms(2) in \<open>auto simp: timer_at_def\<close>)
  show "cancel m a = Inr (m_cb t \<noteq> None, m\<lparr>m_heap := ?h, m_timers := removeAll a (m_timers m)\<rparr>)"
  proof (cases "m_cb t")
    case None
    then have "a \<notin> set (m_timers m)" using I(2) [of a] assms(2) by simp
    moreover have "(m_heap m)(a \<mapsto> t\<lparr>m_cb := None\<rparr>) = m_heap m" using None assms(2) by auto
    ultimately show ?thesis using None assms(2) by (simp add: cancel_def)
  next
    case (Some cb)
    then show ?thesis
      using assms(2) timer_found [OF assms Some] by (simp add: cancel_def same)
  qed
  have "b \<in> set (removeAll a (m_timers m)) \<longleftrightarrow> (\<exists>t. ?h b = Some t \<and> m_cb t \<noteq> None)" for b
    using I(2) [of b] by simp
  then show "tm_inv (m\<lparr>m_heap := ?h, m_timers := removeAll a (m_timers m)\<rparr>)"
    using sorted_removeAll [OF I(1)] by (simp add: tm_inv_def same)
qed

lemma refresh_ok:
  assumes "tm_inv m" and "m_heap m a = Some t" and "refresh m a now = Inr (r, m')"
  shows "tm_inv m'" and "r \<longleftrightarrow> m_cb t \<noteq> None"
    and "m_heap m' = (m_heap m)(a \<mapsto> (if r then t\<lparr>m_next := now + m_ms t\<rparr> else t))"
    and "set (m_timers m') = set (m_timers m)"
proof -
  have "tm_inv m' \<and> (r \<longleftrightarrow> m_cb t \<noteq> None) \<and> set (m_timers m') = set (m_timers m) \<and>
    m_heap m' = (m_heap m)(a \<mapsto> (if r then t\<lparr>m_next := now + m_ms t\<rparr> else t))"
  proof (cases "m_cb t")
    case None
    then show ?thesis using assms by (auto simp: refresh_def)
  next
    case (Some cb)
    note F = timer_found [OF assms(1,2) Some]
    let ?h = "(m_heap m)(a \<mapsto> t\<lparr>m_next := now + m_ms t\<rparr>)"
    have m': "r" "m' = m\<lparr>m_heap := ?h, m_timers := oset_insert (timer_lt ?h) a (removeAll a (m_timers m))\<rparr>"
      using assms(2,3) Some F by (simp_all add: refresh_def Let_def)
    have "tm_inv m'" unfolding m'(2) by (rule tm_inv_reinsert [OF assms(1) _ refl refl]) (simp add: Some)
    then show ?thesis
      using m' Some F(1) by (auto simp: timer_ord.set_oset_insert_eq)
  qed
  then show "tm_inv m'" and "r \<longleftrightarrow> m_cb t \<noteq> None" and "set (m_timers m') = set (m_timers m)"
    and "m_heap m' = (m_heap m)(a \<mapsto> (if r then t\<lparr>m_next := now + m_ms t\<rparr> else t))" by auto
qed

lemma addTimer_locked_fields:
  assumes "addTimer_locked m a = (f, m')"
  shows "m' = m\<lparr>m_timers := oset_insert (timer_lt (m_heap m)) a (m_timers m), m_tickled := m_tickled m \<or> f\<rparr>"
    and "f \<longleftrightarrow> hd (m_timers m') = a \<and> \<not> m_tickled m"
proof -
  have *: "(if P \<and> \<not> q then True else q) \<longleftrightarrow> q \<or> P \<and> \<not> q" for P q by auto
  show "m' = m\<lparr>m_timers := oset_insert (timer_lt (m_heap m)) a (m_timers m), m_tickled := m_tickled m \<or> f\<rparr>"
    and "f \<longleftrightarrow> hd (m_timers m') = a \<and> \<not> m_tickled m"
    using assms unfolding addTimer_locked_def Let_def * by auto
qed

lemma reset_ok:
  assumes "tm_inv m" and "m_heap m a = Some t" and "reset m a now ms from_now = Inr (r, f, m')"
  shows "tm_inv m'" and "set (m_timers m') = set (m_timers m)"
proof -
  have "tm_inv m' \<and> set (m_timers m') = set (m_timers m)"
  proof (cases "m_cb t = None \<or> ms = m_ms t \<and> \<not> from_now")
    case True
    then show ?thesis using assms by (auto simp: reset_def split: if_splits)
  next
    case False
    then obtain cb where Some: "m_cb t = Some cb" by auto
    note F = timer_found [OF assms(1,2) Some]
    let ?t = "t\<lparr>m_ms := ms, m_next := (if from_now then now else m_next t - m_ms t) + ms\<rparr>"
    let ?h = "(m_heap m)(a \<mapsto> ?t)"
    let ?ts = "oset_insert (timer_lt ?h) a (removeAll a (m_timers m))"
    have "addTimer_locked (m\<lparr>m_heap := ?h, m_timers := removeAll a (m_timers m)\<rparr>) a = (f, m')"
      using assms(2,3) Some F(2,3) False
      by (cases "addTimer_locked (m\<lparr>m_heap := ?h, m_timers := removeAll a (m_timers m)\<rparr>) a")
         (auto simp: reset_def Let_def)
    from addTimer_locked_fields(1) [OF this]
    have m': "m' = m\<lparr>m_heap := ?h, m_timers := ?ts, m_tickled := m_tickled m \<or> f\<rparr>" by simp
    have "tm_inv (m\<lparr>m_heap := ?h, m_timers := ?ts\<rparr>)"
      by (rule tm_inv_reinsert [OF assms(1) _ refl refl]) (simp add: Some)
    then show ?thesis using m' F(1) by (auto simp: timer_ord.set_oset_insert_eq tm_inv_def)
  qed
  then show "tm_inv m'" and "set (m_timers m') = set (m_timers m)" by auto
qed

lemma addTimer_ok:
  assumes "tm_inv m" and "m_heap m a = None" and "addTimer m a now ms cb recurring = (f, m')"
  shows "tm_inv m'" and "set (m_timers m') = insert a (set (m_timers m))"
    and "m_heap m' = (m_heap m)(a \<mapsto> timer_new now ms cb recurring)"
proof -
  have na: "a \<notin> set (m_timers m)" using tm_invD(2) [OF assms(1), of a] assms(2) by simp
  let ?h = "(m_heap m)(a \<mapsto> timer_new now ms cb recurring)"
  have m': "m' = m\<lparr>m_heap := ?h, m_timers := oset_insert (timer_lt ?h) a (removeAll a (m_timers m)),
      m_tickled := m_tickled m \<or> f\<rparr>"
    using addTimer_locked_fields(1) [OF assms(3) [unfolded addTimer_def]] na by simp
  have "tm_inv (m\<lparr>m_heap := ?h, m_timers := oset_insert (timer_lt ?h) a (removeAll a (m_timers m))\<rparr>)"
    by (rule tm_inv_reinsert [OF assms(1) _ refl refl]) (simp add: timer_new_def)
  then show "tm_inv m'" using m' by (simp add: tm_inv_def)
  show "set (m_timers m') = insert a (set (m_timers m))" and "m_heap m' = ?h"
    using m' na by (auto simp: timer_ord.set_oset_insert_eq)
qed

section \<open>Expiry\<close>

text \<open>What one round of the loop makes of an expired timer.\<close>

definition fired :: "u64 \<Rightarrow> 'f timer \<Rightarrow> 'f timer" where
  "fired now t = (if m_recurring t then t\<lparr>m_next := now + m_ms t\<rparr> else t\<lparr>m_cb := None\<rparr>)"

lemma expire_loop_ok:
  assumes "expire_loop now as cbs m = (cbs', m')" and "distinct as" and "set as \<inter> set (m_timers m) = {}"
    and "\<forall>a\<in>set as. m_heap m a \<noteq> None" and "sorted_wrt (timer_lt (m_heap m)) (m_timers m)"
  shows "cbs' = cbs @ map (\<lambda>a. m_cb (timer_at (m_heap m) a)) as
    \<and> sorted_wrt (timer_lt (m_heap m')) (m_timers m')
    \<and> set (m_timers m') = set (m_timers m) \<union> {a \<in> set as. m_recurring (timer_at (m_heap m) a)}
    \<and> m_heap m' = (\<lambda>a. if a \<in> set as then map_option (fired now) (m_heap m a) else m_heap m a)
    \<and> m_tickled m' = m_tickled m \<and> m_previousTime m' = m_previousTime m"
  using assms
proof (induction "as" arbitrary: cbs m)
  case Nil
  then show ?case by auto
next
  case (Cons a "as")
  obtain t where t: "m_heap m a = Some t" using Cons.prems(4) by auto
  have na: "a \<notin> set as" "a \<notin> set (m_timers m)" using Cons.prems(2,3) by auto
  let ?h = "(m_heap m)(a \<mapsto> fired now t)"
  let ?ts = "if m_recurring t then oset_insert (timer_lt ?h) a (m_timers m) else m_timers m"
  let ?m = "m\<lparr>m_heap := ?h, m_timers := ?ts\<rparr>"
  have upd: "m\<lparr>m_heap := h\<rparr> = m\<lparr>m_heap := h, m_timers := m_timers m\<rparr>" for h by simp
  have step: "expire_loop now as (cbs @ [m_cb t]) ?m = (cbs', m')"
    using Cons.prems(1) t by (cases "m_recurring t") (simp_all add: Let_def fired_def upd [symmetric])
  have ts: "set ?ts = set (m_timers m) \<union> (if m_recurring t then {a} else {})"
    by (auto simp: timer_ord.set_oset_insert_eq)
  have srt: "sorted_wrt (timer_lt ?h) ?ts"
    using sorted_reinsert [OF Cons.prems(5) na(2)] sorted_timer_upd [OF Cons.prems(5) na(2)] by simp
  have at': "b \<in> set as \<Longrightarrow> timer_at ?h b = timer_at (m_heap m) b" for b
    using na(1) by (cases "b = a") auto
  have sel: "m_heap ?m = ?h" "m_timers ?m = ?ts" "m_tickled ?m = m_tickled m"
    "m_previousTime ?m = m_previousTime m" by simp_all
  have prems: "distinct as" "set as \<inter> set ?ts = {}" "\<forall>a\<in>set as. ?h a \<noteq> None"
    using Cons.prems(2-4) na unfolding ts by auto
  note IH = Cons.IH [OF step, unfolded sel, OF prems srt]
  have M: "map (\<lambda>a. m_cb (timer_at ?h a)) as = map (\<lambda>a. m_cb (timer_at (m_heap m) a)) as"
    using at' by (intro map_cong refl) simp
  have R: "{b \<in> set as. m_recurring (timer_at ?h b)} = {b \<in> set as. m_recurring (timer_at (m_heap m) b)}"
    using at' by (auto simp del: fun_upd_apply)
  have H: "(\<lambda>b. if b \<in> set as then map_option (fired now) (?h b) else ?h b)
      = (\<lambda>b. if b \<in> set (a # as) then map_option (fired now) (m_heap m b) else m_heap m b)"
    using na(1) t by auto
  note IH' = IH [unfolded M R H ts]
  have "cbs' = cbs @ map (\<lambda>a. m_cb (timer_at (m_heap m) a)) (a # as)" using IH' t by simp
  moreover have "set (m_timers m') = set (m_timers m) \<union> {b \<in> set (a # as). m_recurring (timer_at (m_heap m) b)}"
    using conjunct1 [OF conjunct2 [OF conjunct2 [OF IH']]] t by auto
  ultimately show ?case using IH' by blast
qed

text \<open>The timers \<open>listExpiredCb\<close> takes out: all after a clock rollover, else those whose time
  is up (at the very millisecond the address of the probe decides).\<close>

definition due :: "'f timer_manager \<Rightarrow> u64 \<Rightarrow> nat \<Rightarrow> nat \<Rightarrow> bool" where
  "due m now probe a \<longleftrightarrow> fst (detectClockRollover m now) \<or> m_next (timer_at (m_heap m) a) < now \<or>
     m_next (timer_at (m_heap m) a) = now \<and> a \<le> probe"

lemma due_not_lt:
  assumes "a \<noteq> probe"
  shows "\<not> timer_lt ((m_heap m)(probe \<mapsto> timer_probe now)) probe a \<longleftrightarrow>
    m_next (timer_at (m_heap m) a) < now \<or> m_next (timer_at (m_heap m) a) = now \<and> a \<le> probe"
  using assms by (auto simp: timer_lt_iff timer_probe_def not_less)

lemma expired_split:
  assumes "tm_inv m" and "m_heap m probe = None"
  shows "(if fst (detectClockRollover m now) then m_timers m
      else oset_upto (timer_lt ((m_heap m)(probe \<mapsto> timer_probe now))) probe (m_timers m))
      = filter (due m now probe) (m_timers m)"
    and "(if fst (detectClockRollover m now) then []
      else oset_from (timer_lt ((m_heap m)(probe \<mapsto> timer_probe now))) probe (m_timers m))
      = filter (\<lambda>a. \<not> due m now probe a) (m_timers m)"
proof -
  note I = tm_invD [OF assms(1)]
  have np: "probe \<notin> set (m_timers m)" using I(2) [of probe] assms(2) by simp
  note S = timer_ord.oset_upto_filter [OF sorted_timer_upd [OF I(1) np]]
  have nlt: "a \<in> set (m_timers m) \<Longrightarrow> \<not> timer_lt ((m_heap m)(probe \<mapsto> timer_probe now)) probe a \<longleftrightarrow>
     m_next (timer_at (m_heap m) a) < now \<or> m_next (timer_at (m_heap m) a) = now \<and> a \<le> probe" for a
    using np by (intro due_not_lt) auto
  then have ltd: "a \<in> set (m_timers m) \<Longrightarrow> timer_lt ((m_heap m)(probe \<mapsto> timer_probe now)) probe a \<longleftrightarrow>
     \<not> (m_next (timer_at (m_heap m) a) < now \<or> m_next (timer_at (m_heap m) a) = now \<and> a \<le> probe)" for a
    by blast
  show "(if fst (detectClockRollover m now) then m_timers m
      else oset_upto (timer_lt ((m_heap m)(probe \<mapsto> timer_probe now))) probe (m_timers m))
      = filter (due m now probe) (m_timers m)"
    using filter_cong [OF refl, of "m_timers m", OF nlt] by (simp add: S due_def [abs_def])
  show "(if fst (detectClockRollover m now) then []
      else oset_from (timer_lt ((m_heap m)(probe \<mapsto> timer_probe now))) probe (m_timers m))
      = filter (\<lambda>a. \<not> due m now probe a) (m_timers m)"
    using filter_cong [OF refl, of "m_timers m", OF ltd] by (simp add: S due_def [abs_def])
qed

lemma listExpiredCb_eq:
  assumes "tm_inv m" and "m_heap m probe = None" and "m_timers m \<noteq> []"
  shows "listExpiredCb m now probe = expire_loop now (filter (due m now probe) (m_timers m)) []
     (m\<lparr>m_previousTime := now, m_timers := filter (\<lambda>a. \<not> due m now probe a) (m_timers m)\<rparr>)"
proof -
  obtain a ts where ts: "m_timers m = a # ts" using assms(3) by (cases "m_timers m") auto
  obtain r where r: "detectClockRollover m now = (r, m\<lparr>m_previousTime := now\<rparr>)"
    by (simp add: detectClockRollover_def)
  note E = expired_split [OF assms(1,2), of now, unfolded r fst_conv]
  show ?thesis
  proof (cases "\<not> r \<and> now < m_next (timer_at (m_heap m) a)")
    case True
    have "\<not> due m now probe b" if "b \<in> set (m_timers m)" for b
    proof -
      have "m_next (timer_at (m_heap m) a) \<le> m_next (timer_at (m_heap m) b)"
        using that tm_invD(1) [OF assms(1)] ts by (auto simp: timer_lt_iff)
      then show ?thesis using True r by (auto simp: due_def)
    qed
    then have "filter (due m now probe) (m_timers m) = []"
      and "filter (\<lambda>a. \<not> due m now probe a) (m_timers m) = m_timers m"
      by (auto simp: filter_empty_conv)
    then show ?thesis using True ts by (simp add: listExpiredCb_def r)
  next
    case False
    have "listExpiredCb m now probe = expire_loop now
        (if r then m_timers m else oset_upto (timer_lt ((m_heap m)(probe \<mapsto> timer_probe now))) probe (m_timers m)) []
        (m\<lparr>m_previousTime := now, m_timers := (if r then [] else
           oset_from (timer_lt ((m_heap m)(probe \<mapsto> timer_probe now))) probe (m_timers m))\<rparr>)"
      using ts False by (auto simp: listExpiredCb_def r Let_def)
    then show ?thesis unfolding E .
  qed
qed

lemma listExpiredCb_ok:
  assumes "tm_inv m" and "m_heap m probe = None" and "listExpiredCb m now probe = (cbs, m')"
  shows "cbs = map (\<lambda>a. m_cb (timer_at (m_heap m) a)) (filter (due m now probe) (m_timers m))"
    and "set (m_timers m') = {a \<in> set (m_timers m). due m now probe a \<longrightarrow> m_recurring (timer_at (m_heap m) a)}"
    and "m_heap m' = (\<lambda>a. if a \<in> set (m_timers m) \<and> due m now probe a
           then map_option (fired now) (m_heap m a) else m_heap m a)"
    and "tm_inv m'"
proof -
  note I = tm_invD [OF assms(1)]
  let ?d = "filter (due m now probe) (m_timers m)"
  have "cbs = map (\<lambda>a. m_cb (timer_at (m_heap m) a)) ?d \<and> sorted_wrt (timer_lt (m_heap m')) (m_timers m') \<and>
    set (m_timers m') = {a \<in> set (m_timers m). due m now probe a \<longrightarrow> m_recurring (timer_at (m_heap m) a)} \<and>
    m_heap m' = (\<lambda>a. if a \<in> set (m_timers m) \<and> due m now probe a
           then map_option (fired now) (m_heap m a) else m_heap m a)"
  proof (cases "m_timers m = []")
    case True
    then show ?thesis using assms(3) by (auto simp: listExpiredCb_def)
  next
    case False
    let ?m = "m\<lparr>m_previousTime := now, m_timers := filter (\<lambda>a. \<not> due m now probe a) (m_timers m)\<rparr>"
    have loop: "expire_loop now ?d [] ?m = (cbs, m')"
      using assms(3) listExpiredCb_eq [OF assms(1,2) False, of now] by simp
    have ex: "a \<in> set (m_timers m) \<Longrightarrow> m_heap m a \<noteq> None" for a using I(2) [of a] by auto
    have dist: "distinct ?d" using timer_ord.sorted_distinct [OF I(1)] by simp
    have sel: "m_heap ?m = m_heap m" "m_timers ?m = filter (\<lambda>a. \<not> due m now probe a) (m_timers m)" by simp_all
    have prems: "set ?d \<inter> set (filter (\<lambda>a. \<not> due m now probe a) (m_timers m)) = {}"
      "\<forall>a\<in>set ?d. m_heap m a \<noteq> None" using ex by auto
    note L = expire_loop_ok [OF loop dist, unfolded sel, OF prems sorted_wrt_filter [OF I(1)]]
    have "set (filter (\<lambda>a. \<not> due m now probe a) (m_timers m)) \<union> {a \<in> set ?d. m_recurring (timer_at (m_heap m) a)}
      = {a \<in> set (m_timers m). due m now probe a \<longrightarrow> m_recurring (timer_at (m_heap m) a)}" by auto
    moreover have "a \<in> set ?d \<longleftrightarrow> a \<in> set (m_timers m) \<and> due m now probe a" for a by simp
    ultimately show ?thesis using L [unfolded set_filter mem_Collect_eq] by auto
  qed
  then show R: "cbs = map (\<lambda>a. m_cb (timer_at (m_heap m) a)) ?d"
    "set (m_timers m') = {a \<in> set (m_timers m). due m now probe a \<longrightarrow> m_recurring (timer_at (m_heap m) a)}"
    "m_heap m' = (\<lambda>a. if a \<in> set (m_timers m) \<and> due m now probe a
           then map_option (fired now) (m_heap m a) else m_heap m a)" by auto
  have srt: "sorted_wrt (timer_lt (m_heap m')) (m_timers m')" using \<open>_ \<and> _\<close> by blast
  have "a \<in> set (m_timers m') \<longleftrightarrow> (\<exists>t. m_heap m' a = Some t \<and> m_cb t \<noteq> None)" for a
  proof (cases "m_heap m a")
    case None
    then show ?thesis using I(2) [of a] R(2,3) by auto
  next
    case (Some t)
    then show ?thesis using I(2) [of a] R(2,3) by (auto simp: fired_def)
  qed
  with srt show "tm_inv m'" by (simp add: tm_inv_def)
qed

section \<open>Reachable managers\<close>

text \<open>Every sequence of calls; a new timer gets an address at which no object lives.\<close>

inductive timer_reach :: "'f timer_manager \<Rightarrow> bool" where
  start: "timer_reach (timer_manager_new now)"
| add: "timer_reach m \<Longrightarrow> m_heap m a = None \<Longrightarrow> addTimer m a now ms cb recurring = (f, m') \<Longrightarrow> timer_reach m'"
| cond: "timer_reach m \<Longrightarrow> m_heap m a = None \<Longrightarrow> addConditionTimer m a now ms g c recurring = (f, m') \<Longrightarrow> timer_reach m'"
| cancel: "timer_reach m \<Longrightarrow> cancel m a = Inr (r, m') \<Longrightarrow> timer_reach m'"
| refresh: "timer_reach m \<Longrightarrow> refresh m a now = Inr (r, m') \<Longrightarrow> timer_reach m'"
| reset: "timer_reach m \<Longrightarrow> reset m a now ms from_now = Inr (r, f, m') \<Longrightarrow> timer_reach m'"
| peek: "timer_reach m \<Longrightarrow> getNextTimer m now = (d, m') \<Longrightarrow> timer_reach m'"
| expire: "timer_reach m \<Longrightarrow> m_heap m probe = None \<Longrightarrow> listExpiredCb m now probe = (cbs, m') \<Longrightarrow> timer_reach m'"

lemma timer_op_heap:
  "cancel m a = Inr (r, m') \<Longrightarrow> \<exists>t. m_heap m a = Some t"
  "refresh m a now = Inr (r, m') \<Longrightarrow> \<exists>t. m_heap m a = Some t"
  "reset m a now ms from_now = Inr (r, f, m') \<Longrightarrow> \<exists>t. m_heap m a = Some t"
  by (auto simp: cancel_def refresh_def reset_def split: option.splits)

lemma timer_reach_inv: "timer_reach m \<Longrightarrow> tm_inv m"
proof (induction rule: timer_reach.induct)
  case (cancel m a r m')
  then obtain t where "m_heap m a = Some t" using timer_op_heap by blast
  with cancel cancel_ok [OF cancel.IH this] show ?case by simp
next
  case (refresh m a now r m')
  then obtain t where "m_heap m a = Some t" using timer_op_heap by blast
  from refresh_ok(1) [OF refresh.IH this refresh.hyps(2)] show ?case .
next
  case (reset m a now ms from_now r f m')
  then obtain t where "m_heap m a = Some t" using timer_op_heap by blast
  from reset_ok(1) [OF reset.IH this reset.hyps(2)] show ?case .
next
  case (cond m a now ms g c recurring f m')
  from addTimer_ok(1) [OF cond.IH cond.hyps(2) cond.hyps(3) [unfolded addConditionTimer_def]] show ?case .
next
  case (peek m now d m')
  then show ?case by (auto simp: getNextTimer_def)
next
  case (start now)
  show ?case by (rule tm_inv_new)
next
  case (add m a now ms cb recurring f m')
  from addTimer_ok(1) [OF add.IH add.hyps(2,3)] show ?case .
next
  case (expire m probe now cbs m')
  from listExpiredCb_ok(4) [OF expire.IH expire.hyps(2,3)] show ?case .
qed

section \<open>Properties of the timers\<close>

text \<open>
  In every reachable manager \<open>cancel\<close> is safe: it never erases the end iterator, returns
  whether the timer was still active, and afterwards the timer is inactive and out of the set
  while every other timer is as before.
\<close>

theorem cancel_safe:
  assumes "timer_reach m" and "m_heap m a = Some t"
  shows "\<exists>m'. cancel m a = Inr (m_cb t \<noteq> None, m') \<and> a \<notin> set (m_timers m') \<and>
    m_heap m' = (m_heap m)(a \<mapsto> t\<lparr>m_cb := None\<rparr>) \<and> m_timers m' = filter (\<lambda>b. b \<noteq> a) (m_timers m)"
proof -
  have "removeAll a ts = filter (\<lambda>b. b \<noteq> a) ts" for ts :: "nat list"
    by (simp add: removeAll_filter_not_eq eq_commute [of a])
  then show ?thesis using cancel_ok(1) [OF timer_reach_inv [OF assms(1)] assms(2)] by auto
qed

lemma cancel_safe_witness:
  "\<exists>m'. cancel (snd (addTimer (timer_manager_new 0) 7 5 100 (Direct ()) True)) 7 = Inr (True, m') \<and> m_timers m' = []"
proof -
  let ?m = "snd (addTimer (timer_manager_new 0) 7 5 100 (Direct ()) True)"
  have "timer_reach ?m"
    by (rule timer_reach.add [OF timer_reach.start [of 0], of 7 _ _ _ _ "fst (addTimer (timer_manager_new 0) 7 5 100 (Direct ()) True)"])
       (simp_all add: timer_manager_new_def)
  moreover have "m_heap ?m 7 = Some (timer_new 5 100 (Direct ()) True)" "m_timers ?m = [7]"
    by (simp_all add: addTimer_def addTimer_locked_def Let_def timer_manager_new_def)
  ultimately show ?thesis using cancel_safe [of ?m 7] by (auto simp: timer_new_def)
qed





text \<open>
  \<open>getNextTimer\<close> returns the time to the earliest timer: the greatest 64-bit value exactly
  when there is none (a timer so far away apart), 0 when one is due, and otherwise a delay after
  which the earliest timer, and no timer before, is due.
\<close>

theorem next_timer_earliest:
  assumes "timer_reach m" and "getNextTimer m now = (d, m')"
  shows "(m_timers m = [] \<longrightarrow> d = - 1)
    \<and> (d = 0 \<longrightarrow> (\<exists>a\<in>set (m_timers m). m_next (timer_at (m_heap m) a) \<le> now))
    \<and> (m_timers m \<noteq> [] \<and> d \<noteq> 0 \<longrightarrow>
         (\<exists>a\<in>set (m_timers m). m_next (timer_at (m_heap m) a) = now + d) \<and>
         (\<forall>a\<in>set (m_timers m). now < m_next (timer_at (m_heap m) a) \<and> now + d \<le> m_next (timer_at (m_heap m) a)))"
proof (cases "m_timers m")
  case Nil
  then show ?thesis using assms(2) by (auto simp: getNextTimer_def)
next
  case (Cons a ts)
  have le: "b \<in> set (m_timers m) \<Longrightarrow> m_next (timer_at (m_heap m) a) \<le> m_next (timer_at (m_heap m) b)" for b
    using tm_invD(1) [OF timer_reach_inv [OF assms(1)]] Cons by (auto simp: timer_lt_iff)
  have d: "d = (if m_next (timer_at (m_heap m) a) \<le> now then 0 else m_next (timer_at (m_heap m) a) - now)"
    using assms(2) Cons by (simp add: getNextTimer_def Let_def)
  show ?thesis
  proof (cases "m_next (timer_at (m_heap m) a) \<le> now")
    case True
    then show ?thesis using d Cons by auto
  next
    case False
    then have "now < m_next (timer_at (m_heap m) a)" and "now + d = m_next (timer_at (m_heap m) a)"
      using d by simp_all
    then show ?thesis using le Cons d by (force dest: less_le_trans)
  qed
qed

lemma next_timer_earliest_witness: "fst (getNextTimer (timer_manager_new 3 :: unit timer_manager) 9) = - 1"
  using next_timer_earliest [OF timer_reach.start [of 3], of 9] by (simp add: getNextTimer_def timer_manager_new_def)

end
