(* ===== verification/IO_Manager.thy ===== *)
theory IO_Manager
  imports Scheduler Timer
begin

text \<open>
  The event loop of \<open>src/iomanager.cpp\<close>: a context per file descriptor with the fiber or
  callback that waits for reading and for writing, kept in step with the kernel's epoll set. The
  kernel is an argument: \<open>ok\<close> says that a call of \<open>epoll_ctl\<close> succeeds, and \<open>m_epoll\<close> is the
  interest list such calls leave behind. \<open>m_queue\<close> is the scheduler's task queue, to which
  triggered fibers and callbacks go. A context's mutex makes each operation one step.
\<close>

section \<open>State\<close>

type_synonym events = u32

definition NONE :: events where "NONE = 0x0"
definition READ :: events where "READ = 0x1"
definition WRITE :: events where "WRITE = 0x4"

text \<open>The kernel's \<open>EPOLLIN\<close>, \<open>EPOLLOUT\<close>, \<open>EPOLLERR\<close>, \<open>EPOLLHUP\<close> and \<open>EPOLLET\<close>.\<close>

definition EPOLLIN :: events where "EPOLLIN = 0x1"
definition EPOLLOUT :: events where "EPOLLOUT = 0x4"
definition EPOLLERR :: events where "EPOLLERR = 0x8"
definition EPOLLHUP :: events where "EPOLLHUP = 0x10"
definition EPOLLET :: events where "EPOLLET = 0x80000000"

lemmas event_defs = NONE_def READ_def WRITE_def EPOLLIN_def EPOLLOUT_def EPOLLERR_def EPOLLHUP_def EPOLLET_def

record 'cb event_context =
  ec_scheduler :: bool
  ec_fiber :: "nat option"
  ec_cb :: "'cb option"

record 'cb fd_context =
  fc_fd :: nat
  fc_read :: "'cb event_context"
  fc_write :: "'cb event_context"
  fc_events :: events

record 'cb io_manager =
  m_fdContexts :: "'cb fd_context list"
  m_pendingEventCount :: nat
  m_epoll :: "nat \<Rightarrow> events option"
  m_queue :: "'cb task list"

datatype io_error = IoAssert string | BadIndex

definition io_assert :: "bool \<Rightarrow> string \<Rightarrow> (unit \<Rightarrow> io_error + 'a) \<Rightarrow> io_error + 'a" where
  "io_assert P msg k = (if P then k () else Inl (IoAssert msg))"

definition empty_context :: "'cb event_context" where
  "empty_context = \<lparr>ec_scheduler = False, ec_fiber = None, ec_cb = None\<rparr>"

definition new_fd_context :: "nat \<Rightarrow> 'cb fd_context" where
  "new_fd_context i = \<lparr>fc_fd = i, fc_read = empty_context, fc_write = empty_context, fc_events = NONE\<rparr>"

section \<open>Contexts\<close>

definition getContext :: "'cb fd_context \<Rightarrow> events \<Rightarrow> io_error + 'cb event_context" where
  "getContext c event = (if event = READ then Inr (fc_read c) else if event = WRITE then Inr (fc_write c)
     else Inl (IoAssert ''getContext''))"

definition setContext :: "'cb fd_context \<Rightarrow> events \<Rightarrow> 'cb event_context \<Rightarrow> 'cb fd_context" where
  "setContext c event x = (if event = READ then c\<lparr>fc_read := x\<rparr> else c\<lparr>fc_write := x\<rparr>)"

definition resetContext :: "'cb event_context \<Rightarrow> 'cb event_context" where
  "resetContext ctx = ctx\<lparr>ec_scheduler := False, ec_fiber := None, ec_cb := None\<rparr>"

text \<open>
  \<open>triggerEvent\<close>: the callback or the fiber is swapped into a task for any thread, so the context
  is left without it; a null scheduler would be dereferenced.
\<close>

definition triggerEvent :: "'cb fd_context \<Rightarrow> 'cb task list \<Rightarrow> events
    \<Rightarrow> io_error + 'cb fd_context \<times> 'cb task list" where
  "triggerEvent c q event =
     io_assert (fc_events c AND event \<noteq> 0) ''triggerEvent'' (\<lambda>_.
       let c1 = c\<lparr>fc_events := fc_events c AND NOT event\<rparr> in
       bind_res (getContext c1 event) (\<lambda>ctx.
         io_assert (ec_scheduler ctx) ''null scheduler'' (\<lambda>_.
           let (ctx1, ft) =
             (case ec_cb ctx of
                Some cb \<Rightarrow> (ctx\<lparr>ec_cb := None\<rparr>, \<lparr>ft_fiber = None, ft_cb = Some cb, ft_thread = -1\<rparr>)
              | None \<Rightarrow> (ctx\<lparr>ec_fiber := None\<rparr>, \<lparr>ft_fiber = ec_fiber ctx, ft_cb = None, ft_thread = -1\<rparr>))
           in Inr (setContext c1 event (ctx1\<lparr>ec_scheduler := False\<rparr>), snd (scheduleNoLock q ft)))))"

section \<open>Registration\<close>

definition contextResize :: "'cb fd_context list \<Rightarrow> nat \<Rightarrow> 'cb fd_context list" where
  "contextResize cs sz = take sz cs @ map new_fd_context [length cs..<sz]"

text \<open>The constructor: an empty epoll set (the tickle pipe apart) and 32 contexts.\<close>

definition io_manager_new :: "'cb io_manager" where
  "io_manager_new = \<lparr>m_fdContexts = contextResize [] 32, m_pendingEventCount = 0,
     m_epoll = (\<lambda>_. None), m_queue = []\<rparr>"

text \<open>\<open>epoll_ctl\<close> with \<open>ADD\<close> or \<open>MOD\<close>, and with \<open>DEL\<close>.\<close>

definition epoll_set :: "'cb io_manager \<Rightarrow> nat \<Rightarrow> events \<Rightarrow> 'cb io_manager" where
  "epoll_set m fd ev = m\<lparr>m_epoll := (m_epoll m)(fd \<mapsto> ev)\<rparr>"

definition epoll_del :: "'cb io_manager \<Rightarrow> nat \<Rightarrow> 'cb io_manager" where
  "epoll_del m fd = m\<lparr>m_epoll := (m_epoll m)(fd := None)\<rparr>"

definition set_ctx :: "'cb io_manager \<Rightarrow> nat \<Rightarrow> 'cb fd_context \<Rightarrow> 'cb io_manager" where
  "set_ctx m fd c = m\<lparr>m_fdContexts := (m_fdContexts m)[fd := c]\<rparr>"

text \<open>Lines 96 to 106: the context of \<open>fd\<close>, after growing the vector when it is too short.\<close>

definition lookup_grow :: "'cb io_manager \<Rightarrow> int \<Rightarrow> io_error + nat \<times> 'cb io_manager" where
  "lookup_grow m fd =
     (if fd < 0 then Inl BadIndex
      else let m1 = (if fd < int (length (m_fdContexts m)) then m
                     else m\<lparr>m_fdContexts := contextResize (m_fdContexts m) (nat fd * 3 div 2)\<rparr>)
           in if nat fd < length (m_fdContexts m1) then Inr (nat fd, m1) else Inl BadIndex)"

text \<open>\<open>cur\<close> is the current fiber and \<open>has_scheduler\<close> whether the thread has a scheduler.\<close>

definition addEvent :: "'cb io_manager \<Rightarrow> int \<Rightarrow> events \<Rightarrow> 'cb option \<Rightarrow> nat \<Rightarrow> bool \<Rightarrow> bool
    \<Rightarrow> io_error + int \<times> 'cb io_manager" where
  "addEvent m fd event cb cur has_scheduler ok =
     bind_res (lookup_grow m fd) (\<lambda>(i, m1).
       let c = m_fdContexts m1 ! i in
       io_assert (fc_events c AND event = 0) ''addEvent'' (\<lambda>_.
         if \<not> ok then Inr (-1, m1)
         else
           let m2 = epoll_set m1 i (EPOLLET OR fc_events c OR event);
               m3 = m2\<lparr>m_pendingEventCount := m_pendingEventCount m2 + 1\<rparr>;
               c1 = c\<lparr>fc_events := fc_events c OR event\<rparr>
           in bind_res (getContext c1 event) (\<lambda>ctx.
             io_assert (\<not> ec_scheduler ctx \<and> ec_fiber ctx = None \<and> Option.is_none (ec_cb ctx)) ''event_ctx'' (\<lambda>_.
             io_assert has_scheduler ''scheduler'' (\<lambda>_.
               let ctx1 = (case cb of
                     Some f \<Rightarrow> ctx\<lparr>ec_scheduler := True, ec_cb := Some f\<rparr>
                   | None \<Rightarrow> ctx\<lparr>ec_scheduler := True, ec_fiber := Some cur\<rparr>)
               in Inr (0, set_ctx m3 i (setContext c1 event ctx1)))))))"

text \<open>
  The common part of \<open>delEvent\<close> and \<open>cancelEvent\<close>: nothing when there is no context or the event
  is not registered, then the call of \<open>epoll_ctl\<close> with what is left.
\<close>

definition lookup_ctx :: "'cb io_manager \<Rightarrow> int \<Rightarrow> io_error + nat option" where
  "lookup_ctx m fd =
     (if int (length (m_fdContexts m)) \<le> fd then Inr None
      else if fd < 0 then Inl BadIndex else Inr (Some (nat fd)))"

definition epoll_left :: "'cb io_manager \<Rightarrow> nat \<Rightarrow> events \<Rightarrow> 'cb io_manager" where
  "epoll_left m i left = (if left \<noteq> 0 then epoll_set m i (EPOLLET OR left) else epoll_del m i)"

definition delEvent :: "'cb io_manager \<Rightarrow> int \<Rightarrow> events \<Rightarrow> bool \<Rightarrow> io_error + bool \<times> 'cb io_manager" where
  "delEvent m fd event ok =
     bind_res (lookup_ctx m fd) (\<lambda>r. case r of
       None \<Rightarrow> Inr (False, m)
     | Some i \<Rightarrow>
         let c = m_fdContexts m ! i in
         if fc_events c AND event = 0 then Inr (False, m)
         else if \<not> ok then Inr (False, m)
         else
           let new_events = fc_events c AND NOT event;
               m1 = epoll_left m i new_events;
               m2 = m1\<lparr>m_pendingEventCount := size_sub (m_pendingEventCount m1) 1\<rparr>;
               c1 = c\<lparr>fc_events := new_events\<rparr>
           in bind_res (getContext c1 event) (\<lambda>ctx.
                Inr (True, set_ctx m2 i (setContext c1 event (resetContext ctx)))))"

definition cancelEvent :: "'cb io_manager \<Rightarrow> int \<Rightarrow> events \<Rightarrow> bool \<Rightarrow> io_error + bool \<times> 'cb io_manager" where
  "cancelEvent m fd event ok =
     bind_res (lookup_ctx m fd) (\<lambda>r. case r of
       None \<Rightarrow> Inr (False, m)
     | Some i \<Rightarrow>
         let c = m_fdContexts m ! i in
         if fc_events c AND event = 0 then Inr (False, m)
         else if \<not> ok then Inr (False, m)
         else
           let m1 = epoll_left m i (fc_events c AND NOT event)
           in bind_res (triggerEvent c (m_queue m1) event) (\<lambda>(c1, q).
                Inr (True, (set_ctx m1 i c1)\<lparr>m_queue := q,
                      m_pendingEventCount := size_sub (m_pendingEventCount m1) 1\<rparr>)))"

text \<open>Triggering one event of a context when its bit is in \<open>which\<close>; shared by \<open>cancelAll\<close> and \<open>idle\<close>.\<close>

definition trigger_if :: "bool \<Rightarrow> events \<Rightarrow> 'cb fd_context \<times> 'cb task list \<times> nat
    \<Rightarrow> io_error + 'cb fd_context \<times> 'cb task list \<times> nat" where
  "trigger_if P event st = (case st of (c, q, n) \<Rightarrow>
     if P then bind_res (triggerEvent c q event) (\<lambda>(c1, q1). Inr (c1, q1, size_sub n 1)) else Inr st)"

definition cancelAll :: "'cb io_manager \<Rightarrow> int \<Rightarrow> bool \<Rightarrow> io_error + bool \<times> 'cb io_manager" where
  "cancelAll m fd ok =
     bind_res (lookup_ctx m fd) (\<lambda>r. case r of
       None \<Rightarrow> Inr (False, m)
     | Some i \<Rightarrow>
         let c = m_fdContexts m ! i in
         if fc_events c = 0 then Inr (False, m)
         else if \<not> ok then Inr (False, m)
         else
           let m1 = epoll_del m i
           in bind_res (trigger_if (fc_events c AND READ \<noteq> 0) READ (c, m_queue m1, m_pendingEventCount m1)) (\<lambda>(c1, q1, n1).
              bind_res (trigger_if (fc_events c1 AND WRITE \<noteq> 0) WRITE (c1, q1, n1)) (\<lambda>(c2, q2, n2).
              io_assert (fc_events c2 = 0) ''cancelAll'' (\<lambda>_.
                Inr (True, (set_ctx m1 i c2)\<lparr>m_queue := q2, m_pendingEventCount := n2\<rparr>)))))"

section \<open>The idle fiber\<close>

text \<open>\<open>stopping (timeout)\<close>.\<close>

definition io_stopping :: "'cb io_manager \<Rightarrow> 'f timer_manager \<Rightarrow> u64 \<Rightarrow> bool \<Rightarrow> u64 \<times> bool" where
  "io_stopping m tm now sched_stopping =
     (let timeout = fst (getNextTimer tm now)
      in (timeout, timeout = - 1 \<and> m_pendingEventCount m = 0 \<and> sched_stopping))"

text \<open>Lines 296 to 303: the timeout passed to \<open>epoll_wait\<close>, an \<open>int\<close>.\<close>

definition epoll_timeout :: "u64 \<Rightarrow> int" where
  "epoll_timeout next_timeout =
     (let t = (if next_timeout \<noteq> - 1
               then (if 3000 < sint (ucast next_timeout :: u32) then 3000 else next_timeout)
               else 3000)
      in sint (ucast t :: u32))"

text \<open>Lines 329 to 365: one event the kernel reports, \<open>ev\<close> for the context \<open>i\<close>.\<close>

definition real_events :: "events \<Rightarrow> events" where
  "real_events ev =
     (let e = (if ev AND (EPOLLERR OR EPOLLHUP) \<noteq> 0 then ev OR EPOLLIN OR EPOLLOUT else ev)
      in (if e AND EPOLLIN \<noteq> 0 then READ else NONE) OR (if e AND EPOLLOUT \<noteq> 0 then WRITE else NONE))"

definition idle_event :: "'cb io_manager \<Rightarrow> nat \<Rightarrow> events \<Rightarrow> bool \<Rightarrow> io_error + 'cb io_manager" where
  "idle_event m i ev ok =
     (let c = m_fdContexts m ! i; real = real_events ev in
      if fc_events c AND real = NONE then Inr m
      else if \<not> ok then Inr m
      else
        let m1 = epoll_left m i (fc_events c AND NOT real)
        in bind_res (trigger_if (real AND READ \<noteq> 0) READ (c, m_queue m1, m_pendingEventCount m1)) (\<lambda>st.
           bind_res (trigger_if (real AND WRITE \<noteq> 0) WRITE st) (\<lambda>(c2, q2, n2).
             Inr ((set_ctx m1 i c2)\<lparr>m_queue := q2, m_pendingEventCount := n2\<rparr>))))"

text \<open>The loop over the events of one \<open>epoll_wait\<close>; \<open>None\<close> stands for the tickle pipe, which is
  drained. Each event comes with the outcome of its \<open>epoll_ctl\<close>.\<close>

fun idle_events :: "'cb io_manager \<Rightarrow> (nat \<times> events \<times> bool) option list \<Rightarrow> io_error + 'cb io_manager" where
  "idle_events m [] = Inr m"
| "idle_events m (None # evs) = idle_events m evs"
| "idle_events m (Some (i, ev, ok) # evs) = bind_res (idle_event m i ev ok) (\<lambda>m'. idle_events m' evs)"

text \<open>One round of \<open>idle\<close> after \<open>epoll_wait\<close>: the expired timers' callbacks are scheduled first.\<close>

definition cb_task :: "'cb option \<Rightarrow> 'cb task" where
  "cb_task cb = \<lparr>ft_fiber = None, ft_cb = cb, ft_thread = -1\<rparr>"

definition idle_body :: "'f callback io_manager \<Rightarrow> 'f timer_manager \<Rightarrow> u64 \<Rightarrow> nat
    \<Rightarrow> (nat \<times> events \<times> bool) option list \<Rightarrow> io_error + 'f callback io_manager \<times> 'f timer_manager" where
  "idle_body m tm now probe evs =
     (case listExpiredCb tm now probe of (cbs, tm') \<Rightarrow>
        let q = snd (schedule_batch_loop (m_queue m) (map cb_task cbs) False)
        in bind_res (idle_events (m\<lparr>m_queue := q\<rparr>) evs) (\<lambda>m'. Inr (m', tm')))"

text \<open>\<open>tickle\<close> writes to the pipe when a thread is idle.\<close>

definition io_tickle :: "int \<Rightarrow> bool" where
  "io_tickle idle_threads \<longleftrightarrow> 0 < idle_threads"

section \<open>Event masks\<close>

definition mask_ok :: "events \<Rightarrow> bool" where
  "mask_ok e \<longleftrightarrow> e \<in> {0, 1, 4, 5}"

definition has :: "events \<Rightarrow> events \<Rightarrow> bool" where
  "has e ev \<longleftrightarrow> e AND ev \<noteq> 0"

definition bits :: "events \<Rightarrow> nat" where
  "bits e = (if has e READ then 1 else 0) + (if has e WRITE then 1 else 0)"

lemma mask_cases: "mask_ok e \<Longrightarrow> e = 0 \<or> e = 1 \<or> e = 4 \<or> e = 5"
  by (simp add: mask_ok_def)

lemma event_neq [simp]: "READ \<noteq> WRITE" "WRITE \<noteq> READ" "READ \<noteq> 0" "WRITE \<noteq> 0"
  by (simp_all add: event_defs)

lemma mask_add:
  assumes "mask_ok e" and "ev \<in> {READ, WRITE}" and "\<not> has e ev"
  shows "mask_ok (e OR ev)" and "bits (e OR ev) = Suc (bits e)" and "e OR ev \<noteq> 0"
    and "x \<in> {READ, WRITE} \<Longrightarrow> has (e OR ev) x \<longleftrightarrow> has e x \<or> x = ev"
  using assms by (auto simp: mask_ok_def has_def bits_def event_defs)

lemma mask_del:
  assumes "mask_ok e" and "ev \<in> {READ, WRITE}" and "has e ev"
  shows "mask_ok (e AND NOT ev)" and "Suc (bits (e AND NOT ev)) = bits e"
    and "x \<in> {READ, WRITE} \<Longrightarrow> has (e AND NOT ev) x \<longleftrightarrow> has e x \<and> x \<noteq> ev"
  using assms by (auto simp: mask_ok_def has_def bits_def event_defs)

lemma bits_0 [simp]: "bits 0 = 0" "\<not> has 0 ev"
  by (simp_all add: bits_def has_def)

lemma mask_zero: "mask_ok e \<Longrightarrow> e = 0 \<longleftrightarrow> \<not> has e READ \<and> \<not> has e WRITE"
  by (auto simp: mask_ok_def has_def event_defs)

section \<open>Invariant\<close>

text \<open>
  A context waits for an event when it has a scheduler and either a fiber or a callback; the
  registered events are exactly those it waits for.
\<close>

definition waits :: "'cb event_context \<Rightarrow> bool" where
  "waits x \<longleftrightarrow> ec_scheduler x \<and> (ec_fiber x = None \<longleftrightarrow> \<not> Option.is_none (ec_cb x))"

definition slot :: "'cb fd_context \<Rightarrow> events \<Rightarrow> 'cb event_context" where
  "slot c ev = (if ev = READ then fc_read c else fc_write c)"

definition ctx_ok :: "nat \<Rightarrow> 'cb fd_context \<Rightarrow> bool" where
  "ctx_ok i c \<longleftrightarrow> fc_fd c = i \<and> mask_ok (fc_events c) \<and>
     (\<forall>ev\<in>{READ, WRITE}. if has (fc_events c) ev then waits (slot c ev) else slot c ev = empty_context)"

definition io_ok :: "'cb fd_context list \<Rightarrow> nat \<Rightarrow> (nat \<Rightarrow> events option) \<Rightarrow> bool" where
  "io_ok cs n ep \<longleftrightarrow> 32 \<le> length cs \<and> (\<forall>i<length cs. ctx_ok i (cs ! i)) \<and>
     n = sum_list (map (\<lambda>c. bits (fc_events c)) cs) \<and>
     (\<forall>fd. ep fd = (if fd < length cs \<and> fc_events (cs ! fd) \<noteq> 0 then Some (EPOLLET OR fc_events (cs ! fd)) else None))"

abbreviation io_inv :: "'cb io_manager \<Rightarrow> bool" where
  "io_inv m \<equiv> io_ok (m_fdContexts m) (m_pendingEventCount m) (m_epoll m)"

lemma sum_list_update_nat:
  "i < length xs \<Longrightarrow> sum_list (map f (xs[i := y])) + f (xs ! i) = sum_list (map f xs) + (f y :: nat)"
proof (induction xs arbitrary: i)
  case (Cons x xs)
  then show ?case by (cases i) auto
qed simp

lemma io_ok_update:
  assumes "io_ok cs n ep" and "i < length cs" and "ctx_ok i c"
    and "n' + bits (fc_events (cs ! i)) = n + bits (fc_events c)"
    and "ep' = (if fc_events c = 0 then ep(i := None) else ep(i \<mapsto> EPOLLET OR fc_events c))"
  shows "io_ok (cs[i := c]) n' ep'"
proof -
  have "n' = sum_list (map (\<lambda>c. bits (fc_events c)) (cs[i := c]))"
    using sum_list_update_nat [OF assms(2), of "\<lambda>c. bits (fc_events c)" c] assms(1,4)
    by (simp add: io_ok_def)
  then show ?thesis
    using assms(1-3,5) by (auto simp: io_ok_def nth_list_update)
qed

lemma io_okD:
  assumes "io_ok cs n ep" and "i < length cs"
  shows "ctx_ok i (cs ! i)" and "bits (fc_events (cs ! i)) \<le> n"
proof -
  show "ctx_ok i (cs ! i)" using assms by (simp add: io_ok_def)
  show "bits (fc_events (cs ! i)) \<le> n"
    using assms(1) elem_le_sum_list [of i "map (\<lambda>c. bits (fc_events c)) cs"] assms(2)
    by (simp add: io_ok_def)
qed

lemma ctx_ok_new: "ctx_ok i (new_fd_context i)"
  by (simp add: ctx_ok_def new_fd_context_def mask_ok_def has_def slot_def event_defs)

lemma fc_events_new [simp]: "fc_events (new_fd_context i) = 0"
  by (simp add: new_fd_context_def NONE_def)

lemma io_inv_new: "io_inv io_manager_new"
  by (simp add: io_manager_new_def io_ok_def contextResize_def ctx_ok_new comp_def)

lemma contextResize_grow:
  assumes "io_ok cs n ep" and "length cs \<le> sz"
  shows "io_ok (contextResize cs sz) n ep"
    and "length (contextResize cs sz) = sz"
    and "i < sz \<Longrightarrow> contextResize cs sz ! i = (if i < length cs then cs ! i else new_fd_context i)"
proof -
  show len: "length (contextResize cs sz) = sz" using assms(2) by (simp add: contextResize_def)
  show nth: "contextResize cs sz ! i = (if i < length cs then cs ! i else new_fd_context i)" if "i < sz" for i
    using that assms(2) by (auto simp: contextResize_def nth_append)
  have "sum_list (map (\<lambda>c. bits (fc_events c)) (contextResize cs sz)) = sum_list (map (\<lambda>c. bits (fc_events c)) cs)"
    using assms(2) by (simp add: contextResize_def comp_def)
  then show "io_ok (contextResize cs sz) n ep"
    using assms len nth ctx_ok_new by (auto simp: io_ok_def)
qed

lemma lookup_grow_ok:
  assumes "io_inv m" and "0 \<le> fd"
  obtains m1 where "lookup_grow m fd = Inr (nat fd, m1)" and "io_inv m1" and "nat fd < length (m_fdContexts m1)"
    and "m_queue m1 = m_queue m" and "m_pendingEventCount m1 = m_pendingEventCount m" and "m_epoll m1 = m_epoll m"
    and "m_fdContexts m1 ! nat fd
      = (if nat fd < length (m_fdContexts m) then m_fdContexts m ! nat fd else new_fd_context (nat fd))"
proof (cases "fd < int (length (m_fdContexts m))")
  case True
  then show thesis using assms by (intro that [of m]) (auto simp: lookup_grow_def)
next
  case False
  have "32 \<le> length (m_fdContexts m)" using assms(1) by (simp add: io_ok_def)
  then have big: "length (m_fdContexts m) \<le> nat fd" "nat fd < nat fd * 3 div 2" using False by linarith+
  note R = contextResize_grow [OF assms(1), of "nat fd * 3 div 2"]
  show thesis
    using assms(2) False big R
    by (intro that [of "m\<lparr>m_fdContexts := contextResize (m_fdContexts m) (nat fd * 3 div 2)\<rparr>"])
       (auto simp: lookup_grow_def)
qed

section \<open>Operations keep the invariant\<close>

definition waiting_task :: "'cb event_context \<Rightarrow> 'cb task" where
  "waiting_task x = \<lparr>ft_fiber = ec_fiber x, ft_cb = ec_cb x, ft_thread = -1\<rparr>"

lemma ctx_okD:
  assumes "ctx_ok i c"
  shows "fc_fd c = i" and "mask_ok (fc_events c)"
    and "ev \<in> {READ, WRITE} \<Longrightarrow> has (fc_events c) ev \<Longrightarrow> waits (slot c ev)"
    and "ev \<in> {READ, WRITE} \<Longrightarrow> \<not> has (fc_events c) ev \<Longrightarrow> slot c ev = empty_context"
  using assms by (auto simp: ctx_ok_def split: if_splits)

lemma slot_setContext [simp]:
  "ev \<in> {READ, WRITE} \<Longrightarrow> x \<in> {READ, WRITE} \<Longrightarrow>
   slot (setContext c ev y) x = (if x = ev then y else slot c x)"
  "fc_events (setContext c ev y) = fc_events c" "fc_fd (setContext c ev y) = fc_fd c"
  "slot (c\<lparr>fc_events := e\<rparr>) ev = slot c ev"
  by (auto simp: slot_def setContext_def)

lemma getContext_slot: "ev \<in> {READ, WRITE} \<Longrightarrow> getContext c ev = Inr (slot c ev)"
  by (auto simp: getContext_def slot_def)

lemma io_assert_simps [simp]:
  "io_assert True msg k = k ()" "io_assert False msg k = Inl (IoAssert msg)"
  by (simp_all add: io_assert_def)

lemma ctx_ok_setI:
  assumes "ctx_ok i c" and "ev \<in> {READ, WRITE}" and "mask_ok e"
    and "\<And>x. x \<in> {READ, WRITE} \<Longrightarrow> x \<noteq> ev \<Longrightarrow> has e x = has (fc_events c) x"
    and "if has e ev then waits y else y = empty_context"
  shows "ctx_ok i (setContext (c\<lparr>fc_events := e\<rparr>) ev y)"
  unfolding ctx_ok_def
proof (intro conjI ballI)
  fix x assume x: "x \<in> {READ, WRITE}"
  show "if has (fc_events (setContext (c\<lparr>fc_events := e\<rparr>) ev y)) x
      then waits (slot (setContext (c\<lparr>fc_events := e\<rparr>) ev y) x)
      else slot (setContext (c\<lparr>fc_events := e\<rparr>) ev y) x = empty_context"
  proof (cases "x = ev")
    case True
    then show ?thesis using assms(2,5) x by simp
  next
    case False
    then show ?thesis
      using assms(2) x assms(4) [OF x False] ctx_okD(3,4) [OF assms(1) x] by simp
  qed
qed (use assms(1,3) in \<open>simp_all add: ctx_ok_def\<close>)

lemma ctx_ok_clear:
  assumes "ctx_ok i c" and "ev \<in> {READ, WRITE}" and "has (fc_events c) ev"
  shows "ctx_ok i (setContext (c\<lparr>fc_events := fc_events c AND NOT ev\<rparr>) ev empty_context)"
proof -
  note M = mask_del [OF ctx_okD(2) [OF assms(1)] assms(2,3)]
  show ?thesis
    by (rule ctx_ok_setI [OF assms(1,2) M(1)]) (use M(3) assms(2) in auto)
qed

lemma triggerEvent_ok:
  assumes "ctx_ok i c" and "ev \<in> {READ, WRITE}" and "has (fc_events c) ev"
  shows "triggerEvent c q ev = Inr (setContext (c\<lparr>fc_events := fc_events c AND NOT ev\<rparr>) ev empty_context,
    q @ [waiting_task (slot c ev)])"
proof -
  have w: "waits (slot c ev)" by (rule ctx_okD(3) [OF assms])
  have h: "fc_events c AND ev \<noteq> 0" using assms(3) by (simp add: has_def)
  obtain a f cb where x: "slot c ev = \<lparr>ec_scheduler = a, ec_fiber = f, ec_cb = cb\<rparr>" by (cases "slot c ev")
  show ?thesis
    using w h
    by (cases f; cases cb)
       (simp_all add: triggerEvent_def getContext_slot [OF assms(2)] waits_def scheduleNoLock_def
          waiting_task_def empty_context_def x)
qed

text \<open>The context after the events \<open>es\<close> have been taken out.\<close>

definition cleared :: "'cb fd_context \<Rightarrow> events \<Rightarrow> 'cb fd_context" where
  "cleared c ev = setContext (c\<lparr>fc_events := fc_events c AND NOT ev\<rparr>) ev empty_context"

lemma cleared_simps [simp]: "fc_events (cleared c ev) = fc_events c AND NOT ev"
  by (simp add: cleared_def)

lemma addEvent_ok:
  assumes "io_inv m" and "0 \<le> fd" and "ev \<in> {READ, WRITE}"
    and "\<not> (nat fd < length (m_fdContexts m) \<and> has (fc_events (m_fdContexts m ! nat fd)) ev)"
  obtains m' c where "addEvent m fd ev cb cur True True = Inr (0, m')" and "io_inv m'"
    and "m_pendingEventCount m' = Suc (m_pendingEventCount m)" and "m_queue m' = m_queue m"
    and "nat fd < length (m_fdContexts m')" and "m_fdContexts m' ! nat fd = c" and "has (fc_events c) ev"
    and "waiting_task (slot c ev) = (case cb of Some f \<Rightarrow> \<lparr>ft_fiber = None, ft_cb = Some f, ft_thread = -1\<rparr>
           | None \<Rightarrow> \<lparr>ft_fiber = Some cur, ft_cb = None, ft_thread = -1\<rparr>)"
proof -
  obtain m1 where m1: "lookup_grow m fd = Inr (nat fd, m1)" "io_inv m1" "nat fd < length (m_fdContexts m1)"
    "m_queue m1 = m_queue m" "m_pendingEventCount m1 = m_pendingEventCount m" "m_epoll m1 = m_epoll m"
    "m_fdContexts m1 ! nat fd = (if nat fd < length (m_fdContexts m) then m_fdContexts m ! nat fd else new_fd_context (nat fd))"
    by (rule lookup_grow_ok [OF assms(1,2)])
  let ?c = "m_fdContexts m1 ! nat fd"
  note K = io_okD [OF m1(2,3)]
  note C = ctx_okD [OF K(1)]
  have nh: "\<not> has (fc_events ?c) ev" using m1(7) assms(4) by auto
  have empty: "slot ?c ev = empty_context" by (rule C(4) [OF assms(3) nh])
  note M = mask_add [OF C(2) assms(3) nh]
  let ?x = "case cb of Some f \<Rightarrow> \<lparr>ec_scheduler = True, ec_fiber = None, ec_cb = Some f\<rparr>
    | None \<Rightarrow> \<lparr>ec_scheduler = True, ec_fiber = Some cur, ec_cb = None\<rparr>"
  let ?c' = "setContext (?c\<lparr>fc_events := fc_events ?c OR ev\<rparr>) ev ?x"
  let ?m' = "m1\<lparr>m_epoll := (m_epoll m1)(nat fd \<mapsto> EPOLLET OR fc_events ?c OR ev),
     m_pendingEventCount := m_pendingEventCount m1 + 1, m_fdContexts := (m_fdContexts m1)[nat fd := ?c']\<rparr>"
  have step: "addEvent m fd ev cb cur True True = Inr (0, ?m')"
    using nh by (simp add: addEvent_def m1(1) Let_def has_def getContext_slot [OF assms(3)] empty
        empty_context_def epoll_set_def set_ctx_def split: option.split)
  have w: "waits ?x" by (simp add: waits_def split: option.split)
  have ok: "ctx_ok (nat fd) ?c'"
    by (rule ctx_ok_setI [OF K(1) assms(3) M(1)]) (use M(4) w assms(3) in auto)
  have "io_inv ?m'"
    using io_ok_update [OF m1(2,3) ok, of "m_pendingEventCount m1 + 1"] M(2,3) by (simp add: or.assoc)
  then show thesis
    by (intro that [OF step, of ?c'])
       (use m1(3-5) M(4) [OF assms(3)] assms(3) in \<open>auto simp: waiting_task_def split: option.split\<close>)
qed

lemma cleared_ok:
  assumes "ctx_ok i c" and "ev \<in> {READ, WRITE}" and "has (fc_events c) ev"
  shows "ctx_ok i (cleared c ev)" and "Suc (bits (fc_events (cleared c ev))) = bits (fc_events c)"
    and "x \<in> {READ, WRITE} \<Longrightarrow> has (fc_events (cleared c ev)) x \<longleftrightarrow> has (fc_events c) x \<and> x \<noteq> ev"
    and "x \<in> {READ, WRITE} \<Longrightarrow> slot (cleared c ev) x = (if x = ev then empty_context else slot c x)"
    and "triggerEvent c q ev = Inr (cleared c ev, q @ [waiting_task (slot c ev)])"
proof -
  note M = mask_del [OF ctx_okD(2) [OF assms(1)] assms(2,3)]
  show "ctx_ok i (cleared c ev)" unfolding cleared_def by (rule ctx_ok_clear [OF assms])
  show "Suc (bits (fc_events (cleared c ev))) = bits (fc_events c)" using M(2) by simp
  show "x \<in> {READ, WRITE} \<Longrightarrow> has (fc_events (cleared c ev)) x \<longleftrightarrow> has (fc_events c) x \<and> x \<noteq> ev"
    using M(3) by simp
  show "x \<in> {READ, WRITE} \<Longrightarrow> slot (cleared c ev) x = (if x = ev then empty_context else slot c x)"
    using assms(2) by (simp add: cleared_def del: insert_iff)
  show "triggerEvent c q ev = Inr (cleared c ev, q @ [waiting_task (slot c ev)])"
    unfolding cleared_def by (rule triggerEvent_ok [OF assms])
qed

text \<open>The context after the events named by two flags have been taken out, and the tasks they leave.\<close>

definition cleared2 :: "'cb fd_context \<Rightarrow> bool \<Rightarrow> bool \<Rightarrow> 'cb fd_context" where
  "cleared2 c r w = (let c1 = (if r then cleared c READ else c) in if w then cleared c1 WRITE else c1)"

definition tasks2 :: "'cb fd_context \<Rightarrow> bool \<Rightarrow> bool \<Rightarrow> 'cb task list" where
  "tasks2 c r w = (if r then [waiting_task (fc_read c)] else []) @ (if w then [waiting_task (fc_write c)] else [])"

lemma cleared2_ok:
  assumes "ctx_ok i c" and "r \<longrightarrow> has (fc_events c) READ" and "w \<longrightarrow> has (fc_events c) WRITE"
    and "bits (fc_events c) \<le> n"
  shows "ctx_ok i (cleared2 c r w)"
    and "bits (fc_events (cleared2 c r w)) + (if r then 1 else 0) + (if w then 1 else 0) = bits (fc_events c)"
    and "bind_res (trigger_if r READ (c, q, n)) (trigger_if w WRITE)
      = Inr (cleared2 c r w, q @ tasks2 c r w, n - (if r then 1 else 0) - (if w then 1 else 0))"
    and "fc_events (cleared2 c r w) = fc_events c AND NOT ((if r then READ else NONE) OR (if w then WRITE else NONE))"
proof -
  let ?c1 = "if r then cleared c READ else c"
  have c1: "ctx_ok i ?c1" "w \<longrightarrow> has (fc_events ?c1) WRITE"
    "bits (fc_events ?c1) + (if r then 1 else 0) = bits (fc_events c)"
    using assms(1-3) cleared_ok(1-3) [OF assms(1), of READ] by (auto simp: Suc_eq_plus1 [symmetric])
  have t1: "trigger_if r READ (c, q, n) = Inr (?c1, q @ (if r then [waiting_task (fc_read c)] else []),
      n - (if r then 1 else 0))"
    using assms cleared_ok(2,5) [OF assms(1), of READ] by (auto simp: trigger_if_def slot_def)
  have slot1: "w \<longrightarrow> slot ?c1 WRITE = fc_write c"
    using assms(1,2) cleared_ok(4) [OF assms(1), of READ WRITE] by (auto simp: slot_def)
  have t2: "trigger_if w WRITE (?c1, p, k) = Inr (cleared2 c r w, p @ (if w then [waiting_task (fc_write c)] else []),
      k - (if w then 1 else 0))" if "bits (fc_events ?c1) \<le> k" for p k
    using that c1(2) slot1 cleared_ok(2,5) [OF c1(1), of WRITE]
    by (cases w) (auto simp: trigger_if_def cleared2_def Let_def simp del: cleared_simps split del: if_split)
  show "ctx_ok i (cleared2 c r w)"
    using c1 cleared_ok(1) [OF c1(1), of WRITE] by (simp add: cleared2_def Let_def)
  show "bits (fc_events (cleared2 c r w)) + (if r then 1 else 0) + (if w then 1 else 0) = bits (fc_events c)"
    using c1 cleared_ok(2) [OF c1(1), of WRITE] by (cases w) (simp_all add: cleared2_def Let_def del: cleared_simps)
  show "bind_res (trigger_if r READ (c, q, n)) (trigger_if w WRITE)
      = Inr (cleared2 c r w, q @ tasks2 c r w, n - (if r then 1 else 0) - (if w then 1 else 0))"
    using t2 [of "n - (if r then 1 else 0)"] c1(3) assms(4) unfolding t1 by (simp add: tasks2_def)
  show "fc_events (cleared2 c r w) = fc_events c AND NOT ((if r then READ else NONE) OR (if w then WRITE else NONE))"
    using mask_cases [OF ctx_okD(2) [OF assms(1)]]
    by (cases r; cases w) (auto simp: cleared2_def event_defs)
qed

lemma io_ok_cleared:
  assumes "io_inv m" and "i < length (m_fdContexts m)" and "ctx_ok i c"
    and "bits (fc_events c) + k = bits (fc_events (m_fdContexts m ! i))"
  shows "io_ok ((m_fdContexts m)[i := c]) (m_pendingEventCount m - k) (m_epoll (epoll_left m i (fc_events c)))"
  using io_okD(2) [OF assms(1,2)] assms(4)
  by (intro io_ok_update [OF assms(1-3)]) (auto simp: epoll_left_def epoll_set_def epoll_del_def)

lemma epoll_left_frame [simp]:
  "m_fdContexts (epoll_left m i e) = m_fdContexts m" "m_queue (epoll_left m i e) = m_queue m"
  "m_pendingEventCount (epoll_left m i e) = m_pendingEventCount m"
  by (simp_all add: epoll_left_def epoll_set_def epoll_del_def)

lemma lookup_ctx_ok: "0 \<le> fd \<Longrightarrow> nat fd < length (m_fdContexts m) \<Longrightarrow> lookup_ctx m fd = Inr (Some (nat fd))"
  by (auto simp: lookup_ctx_def)

lemma pending_pos:
  assumes "io_inv m" and "i < length (m_fdContexts m)" and "has (fc_events (m_fdContexts m ! i)) ev" and "ev \<in> {READ, WRITE}"
  shows "1 \<le> m_pendingEventCount m"
  using io_okD(2) [OF assms(1,2)] assms(3,4) by (auto simp: bits_def split: if_splits)

lemma delEvent_ok:
  assumes "io_inv m" and "0 \<le> fd" and "nat fd < length (m_fdContexts m)" and "ev \<in> {READ, WRITE}"
    and "has (fc_events (m_fdContexts m ! nat fd)) ev"
  obtains m' where "delEvent m fd ev True = Inr (True, m')" and "io_inv m'"
    and "m_pendingEventCount m' = m_pendingEventCount m - 1" and "m_queue m' = m_queue m"
    and "m_fdContexts m' = (m_fdContexts m)[nat fd := cleared (m_fdContexts m ! nat fd) ev]"
proof -
  let ?i = "nat fd" and ?c = "m_fdContexts m ! nat fd"
  note K = io_okD [OF assms(1,3)]
  note L = cleared_ok [OF K(1) assms(4,5)]
  have e: "resetContext x = empty_context" for x :: "'a event_context"
    by (cases x) (simp add: resetContext_def empty_context_def)
  let ?m' = "(epoll_left m ?i (fc_events ?c AND NOT ev))\<lparr>m_pendingEventCount := m_pendingEventCount m - 1,
      m_fdContexts := (m_fdContexts m)[?i := cleared ?c ev]\<rparr>"
  have "delEvent m fd ev True = Inr (True, ?m')"
    using assms(5) pending_pos [OF assms(1,3,5,4)]
    by (simp add: delEvent_def lookup_ctx_ok [OF assms(2,3)] has_def getContext_slot [OF assms(4)] e
        cleared_def set_ctx_def Let_def)
  moreover have "io_inv ?m'"
    using io_ok_cleared [OF assms(1,3) L(1), of 1] L(2) by simp
  ultimately show thesis by (rule that) simp_all
qed

lemma cancelEvent_ok:
  assumes "io_inv m" and "0 \<le> fd" and "nat fd < length (m_fdContexts m)" and "ev \<in> {READ, WRITE}"
    and "has (fc_events (m_fdContexts m ! nat fd)) ev"
  obtains m' where "cancelEvent m fd ev True = Inr (True, m')" and "io_inv m'"
    and "m_pendingEventCount m' = m_pendingEventCount m - 1"
    and "m_queue m' = m_queue m @ [waiting_task (slot (m_fdContexts m ! nat fd) ev)]"
    and "m_fdContexts m' = (m_fdContexts m)[nat fd := cleared (m_fdContexts m ! nat fd) ev]"
proof -
  let ?i = "nat fd" and ?c = "m_fdContexts m ! nat fd"
  note K = io_okD [OF assms(1,3)]
  note L = cleared_ok [OF K(1) assms(4,5)]
  let ?m' = "(epoll_left m ?i (fc_events ?c AND NOT ev))\<lparr>m_fdContexts := (m_fdContexts m)[?i := cleared ?c ev],
      m_queue := m_queue m @ [waiting_task (slot ?c ev)], m_pendingEventCount := m_pendingEventCount m - 1\<rparr>"
  have "cancelEvent m fd ev True = Inr (True, ?m')"
    using assms(5) pending_pos [OF assms(1,3,5,4)]
    by (simp add: cancelEvent_def lookup_ctx_ok [OF assms(2,3)] has_def L(5) set_ctx_def Let_def)
  moreover have "io_inv ?m'"
    using io_ok_cleared [OF assms(1,3) L(1), of 1] L(2) by simp
  ultimately show thesis by (rule that) simp_all
qed

lemma cancelAll_ok:
  assumes "io_inv m" and "0 \<le> fd" and "nat fd < length (m_fdContexts m)"
    and "fc_events (m_fdContexts m ! nat fd) \<noteq> 0"
    and "r = has (fc_events (m_fdContexts m ! nat fd)) READ" and "w = has (fc_events (m_fdContexts m ! nat fd)) WRITE"
  obtains m' where "cancelAll m fd True = Inr (True, m')" and "io_inv m'"
    and "m_queue m' = m_queue m @ tasks2 (m_fdContexts m ! nat fd) r w"
    and "m_fdContexts m' = (m_fdContexts m)[nat fd := cleared2 (m_fdContexts m ! nat fd) r w]"
    and "fc_events (m_fdContexts m' ! nat fd) = 0"
proof -
  let ?i = "nat fd" and ?c = "m_fdContexts m ! nat fd"
  note K = io_okD [OF assms(1,3)]
  have P: "r \<longrightarrow> has (fc_events ?c) READ" "w \<longrightarrow> has (fc_events ?c) WRITE" using assms(5,6) by simp_all
  note L = cleared2_ok [OF K(1) P K(2)]
  have zero: "fc_events (cleared2 ?c r w) = 0"
    using L(4) assms(5,6) mask_cases [OF ctx_okD(2) [OF K(1)]] by (auto simp: has_def event_defs)
  let ?k = "(if r then 1 else 0) + (if w then 1 else 0) :: nat"
  have w1: "(fc_events (if r then cleared ?c READ else ?c) AND WRITE \<noteq> 0) = w"
    using cleared_ok(3) [OF K(1), of READ WRITE] P assms(6) by (auto simp: has_def simp del: cleared_simps)
  have t1: "trigger_if r READ (?c, m_queue m, m_pendingEventCount m)
      = Inr (if r then cleared ?c READ else ?c, m_queue m @ (if r then [waiting_task (fc_read ?c)] else []),
             m_pendingEventCount m - (if r then 1 else 0))"
    using cleared2_ok(3) [OF K(1) P(1) _ K(2), of False "m_queue m"]
    by (cases r) (auto simp: cleared2_def tasks2_def trigger_if_def bind_res_eq_Inr)
  let ?m' = "(epoll_del m ?i)\<lparr>m_fdContexts := (m_fdContexts m)[?i := cleared2 ?c r w],
      m_queue := m_queue m @ tasks2 ?c r w, m_pendingEventCount := m_pendingEventCount m - ?k\<rparr>"
  have "cancelAll m fd True = Inr (True, ?m')"
    using L(3) [of "m_queue m"] zero assms(4) w1
    by (simp add: cancelAll_def lookup_ctx_ok [OF assms(2,3)] epoll_del_def set_ctx_def t1
        assms(5) [symmetric, unfolded has_def] Let_def)
  moreover have "io_inv ?m'"
    using io_ok_cleared [OF assms(1,3) L(1), of ?k] L(2) zero by (simp add: epoll_left_def)
  ultimately show thesis by (rule that) (use assms(3) zero in simp_all)
qed

lemma real_events_cases: "real_events ev = (if has (real_events ev) READ then READ else NONE) OR (if has (real_events ev) WRITE then WRITE else NONE)"
  by (auto simp: real_events_def has_def event_defs Let_def)

lemma has_and: "mask_ok e \<Longrightarrow> mask_ok r \<Longrightarrow> e AND r \<noteq> 0 \<longleftrightarrow> has e READ \<and> has r READ \<or> has e WRITE \<and> has r WRITE"
  by (auto simp: mask_ok_def has_def event_defs)

lemma real_events_mask: "mask_ok (real_events ev)"
  by (auto simp: real_events_def mask_ok_def event_defs Let_def)

lemma idle_event_ok:
  assumes "io_inv m" and "i < length (m_fdContexts m)"
    and "r = has (real_events ev) READ" and "w = has (real_events ev) WRITE"
    and "r \<longrightarrow> has (fc_events (m_fdContexts m ! i)) READ" and "w \<longrightarrow> has (fc_events (m_fdContexts m ! i)) WRITE"
  obtains m' where "idle_event m i ev True = Inr m'" and "io_inv m'"
    and "m_queue m' = m_queue m @ tasks2 (m_fdContexts m ! i) r w"
    and "m_fdContexts m' = (m_fdContexts m)[i := cleared2 (m_fdContexts m ! i) r w]"
proof (cases "r \<or> w")
  case False
  let ?c = "m_fdContexts m ! i"
  note K = io_okD [OF assms(1,2)]
  have "fc_events ?c AND real_events ev = 0"
    using has_and [OF ctx_okD(2) [OF K(1)] real_events_mask, of ev] False assms(3,4) by auto
  then show thesis using False assms(1)
    by (intro that [of m]) (simp_all add: idle_event_def NONE_def tasks2_def cleared2_def)
next
  case True
  let ?c = "m_fdContexts m ! i"
  note K = io_okD [OF assms(1,2)]
  note L = cleared2_ok [OF K(1) assms(5,6) K(2)]
  have ne: "fc_events ?c AND real_events ev \<noteq> 0"
    using has_and [OF ctx_okD(2) [OF K(1)] real_events_mask, of ev] True assms(3-6) by auto
  have left: "fc_events ?c AND NOT (real_events ev) = fc_events (cleared2 ?c r w)"
  proof -
    have "real_events ev = (if r then READ else NONE) OR (if w then WRITE else NONE)"
      by (subst real_events_cases) (simp only: assms(3,4))
    then show ?thesis by (simp only: L(4))
  qed
  let ?k = "(if r then 1 else 0) + (if w then 1 else 0) :: nat"
  let ?m' = "(epoll_left m i (fc_events (cleared2 ?c r w)))\<lparr>m_fdContexts := (m_fdContexts m)[i := cleared2 ?c r w],
      m_queue := m_queue m @ tasks2 ?c r w, m_pendingEventCount := m_pendingEventCount m - ?k\<rparr>"
  have "idle_event m i ev True = bind_res (bind_res (trigger_if r READ (?c, m_queue m, m_pendingEventCount m)) (trigger_if w WRITE))
     (\<lambda>(c2, q2, n2). Inr ((set_ctx (epoll_left m i (fc_events (cleared2 ?c r w))) i c2)\<lparr>m_queue := q2, m_pendingEventCount := n2\<rparr>))"
    using ne left by (simp add: idle_event_def NONE_def Let_def assms(3,4) has_def bind_res_assoc)
  then have "idle_event m i ev True = Inr ?m'" using L(3) [of "m_queue m"] by (simp add: set_ctx_def)
  moreover have "io_inv ?m'"
    using io_ok_cleared [OF assms(1,2) L(1), of ?k] L(2) by simp
  ultimately show thesis by (rule that) simp_all
qed

section \<open>Reachable managers\<close>

text \<open>
  The calls with a descriptor that is not negative and an event that is \<open>READ\<close> or \<open>WRITE\<close>, each
  with any outcome of \<open>epoll_ctl\<close>; the scheduler may take tasks out of the queue at any time.
\<close>

inductive io_reach :: "'cb io_manager \<Rightarrow> bool" where
  new: "io_reach io_manager_new"
| add: "io_reach m \<Longrightarrow> 0 \<le> fd \<Longrightarrow> ev \<in> {READ, WRITE} \<Longrightarrow> addEvent m fd ev cb cur hs ok = Inr (rt, m') \<Longrightarrow> io_reach m'"
| del: "io_reach m \<Longrightarrow> 0 \<le> fd \<Longrightarrow> ev \<in> {READ, WRITE} \<Longrightarrow> delEvent m fd ev ok = Inr (rt, m') \<Longrightarrow> io_reach m'"
| cancel: "io_reach m \<Longrightarrow> 0 \<le> fd \<Longrightarrow> ev \<in> {READ, WRITE} \<Longrightarrow> cancelEvent m fd ev ok = Inr (rt, m') \<Longrightarrow> io_reach m'"
| cancel_all: "io_reach m \<Longrightarrow> 0 \<le> fd \<Longrightarrow> cancelAll m fd ok = Inr (rt, m') \<Longrightarrow> io_reach m'"
| ready: "io_reach m \<Longrightarrow> i < length (m_fdContexts m) \<Longrightarrow> idle_event m i ev ok = Inr m' \<Longrightarrow> io_reach m'"
| sched: "io_reach m \<Longrightarrow> io_reach (m\<lparr>m_queue := q\<rparr>)"

lemma addEvent_cases:
  assumes "io_inv m" and "0 \<le> fd" and "ev \<in> {READ, WRITE}" and "addEvent m fd ev cb cur hs ok = Inr (rt, m')"
  shows "io_inv m'"
proof -
  obtain m1 where m1: "lookup_grow m fd = Inr (nat fd, m1)" "io_inv m1"
    "m_fdContexts m1 ! nat fd = (if nat fd < length (m_fdContexts m) then m_fdContexts m ! nat fd else new_fd_context (nat fd))"
    by (rule lookup_grow_ok [OF assms(1,2)])
  show ?thesis
  proof (cases "ok \<and> hs \<and> \<not> has (fc_events (m_fdContexts m1 ! nat fd)) ev")
    case True
    then have "\<not> (nat fd < length (m_fdContexts m) \<and> has (fc_events (m_fdContexts m ! nat fd)) ev)"
      using m1(3) by auto
    from addEvent_ok [OF assms(1-3) this, of cb cur] obtain m2
      where "addEvent m fd ev cb cur True True = Inr (0, m2)" "io_inv m2" by blast
    then show ?thesis using assms(4) True by simp
  next
    case False
    then show ?thesis
      using assms(4) m1(1,2)
      by (auto simp: addEvent_def has_def io_assert_def Let_def bind_res_eq_Inr split: if_splits)
  qed
qed

lemma removal_cases:
  assumes "io_inv m" and "0 \<le> fd" and "ev \<in> {READ, WRITE}"
  shows "delEvent m fd ev ok = Inr (rt, m') \<Longrightarrow> io_inv m'"
    and "cancelEvent m fd ev ok = Inr (rt, m') \<Longrightarrow> io_inv m'"
proof -
  have *: "delEvent m fd ev ok = Inr (False, m) \<and> cancelEvent m fd ev ok = Inr (False, m)"
    if "\<not> (ok \<and> nat fd < length (m_fdContexts m) \<and> has (fc_events (m_fdContexts m ! nat fd)) ev)"
    using that assms(2) by (auto simp: delEvent_def cancelEvent_def lookup_ctx_def has_def Let_def)
  have "(delEvent m fd ev ok = Inr (rt, m') \<longrightarrow> io_inv m') \<and> (cancelEvent m fd ev ok = Inr (rt, m') \<longrightarrow> io_inv m')"
  proof (cases "ok \<and> nat fd < length (m_fdContexts m) \<and> has (fc_events (m_fdContexts m ! nat fd)) ev")
    case True
    then have t: "ok" "nat fd < length (m_fdContexts m)" "has (fc_events (m_fdContexts m ! nat fd)) ev" by auto
    obtain m1 where m1: "delEvent m fd ev True = Inr (True, m1)" "io_inv m1"
      by (rule delEvent_ok [OF assms(1,2) t(2) assms(3) t(3)])
    obtain m2 where m2: "cancelEvent m fd ev True = Inr (True, m2)" "io_inv m2"
      by (rule cancelEvent_ok [OF assms(1,2) t(2) assms(3) t(3)])
    show ?thesis using m1 m2 t(1) by auto
  next
    case False
    then show ?thesis using * assms(1) by auto
  qed
  then show "delEvent m fd ev ok = Inr (rt, m') \<Longrightarrow> io_inv m'"
    and "cancelEvent m fd ev ok = Inr (rt, m') \<Longrightarrow> io_inv m'" by auto
qed

lemma cancelAll_cases:
  assumes "io_inv m" and "0 \<le> fd" and "cancelAll m fd ok = Inr (rt, m')"
  shows "io_inv m'"
proof (cases "ok \<and> nat fd < length (m_fdContexts m) \<and> fc_events (m_fdContexts m ! nat fd) \<noteq> 0")
  case True
  then obtain m1 where "cancelAll m fd True = Inr (True, m1)" "io_inv m1"
    using cancelAll_ok [OF assms(1,2) _ _ refl refl] by blast
  then show ?thesis using True assms(3) by simp
next
  case False
  then have "cancelAll m fd ok = Inr (False, m)"
    using assms(2) by (auto simp: cancelAll_def lookup_ctx_def Let_def)
  then show ?thesis using assms(1,3) by simp
qed

text \<open>An event the kernel reports for something nobody waits for makes \<open>triggerEvent\<close> fail.\<close>

lemma idle_event_aborts:
  assumes "io_inv m" and "i < length (m_fdContexts m)" and "fc_events (m_fdContexts m ! i) AND real_events ev \<noteq> 0"
    and "x \<in> {READ, WRITE}" and "has (real_events ev) x" and "\<not> has (fc_events (m_fdContexts m ! i)) x"
  shows "idle_event m i ev True = Inl (IoAssert ''triggerEvent'')"
proof -
  let ?c = "m_fdContexts m ! i"
  note K = io_okD [OF assms(1,2)]
  have fail: "\<not> has (fc_events c) e \<Longrightarrow> trigger_if True e (c, q, n) = Inl (IoAssert ''triggerEvent'')" for c e q n
    by (simp add: trigger_if_def triggerEvent_def has_def)
  have both: "real_events ev AND READ \<noteq> 0" "real_events ev AND WRITE \<noteq> 0"
    using has_and [OF ctx_okD(2) [OF K(1)] real_events_mask, of ev] assms(3-6) by (auto simp: has_def)
  show ?thesis
  proof (cases "has (fc_events ?c) READ")
    case False
    then show ?thesis using assms(3) both by (simp add: idle_event_def NONE_def Let_def fail)
  next
    case True
    then have w: "\<not> has (fc_events ?c) WRITE" using assms(4,6) by auto
    have "\<not> has (fc_events (cleared ?c READ)) WRITE"
      using cleared_ok(3) [OF K(1) _ True, of WRITE] w by simp
    moreover have "trigger_if True READ (?c, q, n) = Inr (cleared ?c READ, q @ [waiting_task (slot ?c READ)], size_sub n 1)" for q n
      using cleared_ok(5) [OF K(1) _ True, of q] by (simp add: trigger_if_def)
    ultimately show ?thesis using assms(3) both by (simp add: idle_event_def NONE_def Let_def fail del: cleared_simps)
  qed
qed

lemma idle_event_cases:
  assumes "io_inv m" and "i < length (m_fdContexts m)" and "idle_event m i ev ok = Inr m'"
  shows "io_inv m'"
proof (cases "ok \<and> fc_events (m_fdContexts m ! i) AND real_events ev \<noteq> 0")
  case False
  then have "idle_event m i ev ok = Inr m"
    by (cases ok) (simp_all add: idle_event_def NONE_def Let_def)
  then show ?thesis using assms(1,3) by simp
next
  case True
  then have "has (real_events ev) x \<longrightarrow> has (fc_events (m_fdContexts m ! i)) x" if "x \<in> {READ, WRITE}" for x
    using idle_event_aborts [OF assms(1,2) _ that, of ev] assms(3) by auto
  then obtain m2 where "idle_event m i ev True = Inr m2" "io_inv m2"
    using idle_event_ok [OF assms(1,2) refl refl, of ev] by blast
  then show ?thesis using True assms(3) by simp
qed

lemma io_reach_inv: "io_reach m \<Longrightarrow> io_inv m"
proof (induction rule: io_reach.induct)
  case new
  show ?case by (rule io_inv_new)
next
  case (add m fd ev cb cur hs ok rt m')
  from addEvent_cases [OF add.IH add.hyps(2-4)] show ?case .
next
  case (del m fd ev ok rt m')
  from removal_cases(1) [OF del.IH del.hyps(2-4)] show ?case .
next
  case (cancel m fd ev ok rt m')
  from removal_cases(2) [OF cancel.IH cancel.hyps(2-4)] show ?case .
next
  case (cancel_all m fd ok rt m')
  from cancelAll_cases [OF cancel_all.IH cancel_all.hyps(2,3)] show ?case .
next
  case (ready m i ev ok m')
  from idle_event_cases [OF ready.IH ready.hyps(2,3)] show ?case .
qed simp

section \<open>Properties of the event loop\<close>



text \<open>
  C21. A waiter is woken exactly once. Registering an event that is not registered succeeds (when
  the kernel accepts it and the thread has a scheduler), whatever the descriptor; cancelling it
  then puts exactly the registered callback, or else the registering fiber, at the end of the
  queue and brings the count of pending events back; deleting it does the same without scheduling.
\<close>

theorem event_woken_once:
  assumes "io_reach m" and "0 \<le> fd" and "ev \<in> {READ, WRITE}"
    and "\<not> (nat fd < length (m_fdContexts m) \<and> fc_events (m_fdContexts m ! nat fd) AND ev \<noteq> 0)"
  shows "\<exists>m1. addEvent m fd ev cb cur True True = Inr (0, m1)
    \<and> m_pendingEventCount m1 = Suc (m_pendingEventCount m) \<and> m_queue m1 = m_queue m
    \<and> (\<exists>m2. cancelEvent m1 fd ev True = Inr (True, m2) \<and> m_pendingEventCount m2 = m_pendingEventCount m
         \<and> m_queue m2 = m_queue m @ [case cb of
               Some f \<Rightarrow> \<lparr>ft_fiber = None, ft_cb = Some f, ft_thread = -1\<rparr>
             | None \<Rightarrow> \<lparr>ft_fiber = Some cur, ft_cb = None, ft_thread = -1\<rparr>]
         \<and> cancelEvent m2 fd ev True = Inr (False, m2))
    \<and> (\<exists>m2. delEvent m1 fd ev True = Inr (True, m2) \<and> m_pendingEventCount m2 = m_pendingEventCount m
         \<and> m_queue m2 = m_queue m)"
proof -
  have nh: "\<not> (nat fd < length (m_fdContexts m) \<and> has (fc_events (m_fdContexts m ! nat fd)) ev)"
    using assms(4) by (simp add: has_def)
  obtain m1 c where m1: "addEvent m fd ev cb cur True True = Inr (0, m1)" "io_inv m1"
    "m_pendingEventCount m1 = Suc (m_pendingEventCount m)" "m_queue m1 = m_queue m"
    "nat fd < length (m_fdContexts m1)" "m_fdContexts m1 ! nat fd = c" "has (fc_events c) ev"
    "waiting_task (slot c ev) = (case cb of Some f \<Rightarrow> \<lparr>ft_fiber = None, ft_cb = Some f, ft_thread = -1\<rparr>
           | None \<Rightarrow> \<lparr>ft_fiber = Some cur, ft_cb = None, ft_thread = -1\<rparr>)"
    by (rule addEvent_ok [OF io_reach_inv [OF assms(1)] assms(2,3) nh])
  have h: "has (fc_events (m_fdContexts m1 ! nat fd)) ev" using m1(6,7) by simp
  obtain m2 where m2: "cancelEvent m1 fd ev True = Inr (True, m2)" "m_pendingEventCount m2 = m_pendingEventCount m1 - 1"
    "m_queue m2 = m_queue m1 @ [waiting_task (slot (m_fdContexts m1 ! nat fd) ev)]"
    "m_fdContexts m2 = (m_fdContexts m1)[nat fd := cleared (m_fdContexts m1 ! nat fd) ev]"
    by (rule cancelEvent_ok [OF m1(2) assms(2) m1(5) assms(3) h])
  obtain m3 where m3: "delEvent m1 fd ev True = Inr (True, m3)" "m_pendingEventCount m3 = m_pendingEventCount m1 - 1"
    "m_queue m3 = m_queue m1"
    by (rule delEvent_ok [OF m1(2) assms(2) m1(5) assms(3) h])
  have "\<not> has (fc_events (m_fdContexts m2 ! nat fd)) ev"
    using m2(4) m1(5) cleared_ok(3) [OF io_okD(1) [OF m1(2,5)] assms(3) h assms(3)] by simp
  then have "cancelEvent m2 fd ev True = Inr (False, m2)"
    using assms(2) m2(4) m1(5) by (simp add: cancelEvent_def lookup_ctx_ok has_def)
  then show ?thesis using m1 m2 m3 by auto
qed

lemma event_woken_once_witness:
  "\<exists>m1. addEvent (io_manager_new :: unit io_manager) 40 WRITE None 7 True True = Inr (0, m1) \<and> m_pendingEventCount m1 = 1"
  using event_woken_once [OF io_reach.new, of 40 WRITE None 7]
  by (auto simp: io_manager_new_def contextResize_def)

text \<open>
  C22. \<open>cancelAll\<close> wakes every waiter of the descriptor, the reader first, and leaves nothing
  registered for it in the context and in the kernel.
\<close>

theorem cancel_all_wakes_all:
  assumes "io_reach m" and "0 \<le> fd" and "nat fd < length (m_fdContexts m)"
    and "fc_events (m_fdContexts m ! nat fd) \<noteq> 0"
  shows "\<exists>m'. cancelAll m fd True = Inr (True, m')
    \<and> m_queue m' = m_queue m
        @ (if fc_events (m_fdContexts m ! nat fd) AND READ \<noteq> 0 then [waiting_task (fc_read (m_fdContexts m ! nat fd))] else [])
        @ (if fc_events (m_fdContexts m ! nat fd) AND WRITE \<noteq> 0 then [waiting_task (fc_write (m_fdContexts m ! nat fd))] else [])
    \<and> fc_events (m_fdContexts m' ! nat fd) = 0 \<and> m_epoll m' (nat fd) = None"
proof -
  obtain m' where m': "cancelAll m fd True = Inr (True, m')" "io_inv m'"
    "m_queue m' = m_queue m @ tasks2 (m_fdContexts m ! nat fd) (has (fc_events (m_fdContexts m ! nat fd)) READ)
       (has (fc_events (m_fdContexts m ! nat fd)) WRITE)"
    "fc_events (m_fdContexts m' ! nat fd) = 0"
    by (rule cancelAll_ok [OF io_reach_inv [OF assms(1)] assms(2-4) refl refl])
  then have "m_epoll m' (nat fd) = None" by (simp add: io_ok_def)
  then show ?thesis using m' by (auto simp: tasks2_def has_def)
qed

lemma cancel_all_wakes_all_witness:
  "\<exists>m1 m2. addEvent (io_manager_new :: unit io_manager) 3 READ None 7 True True = Inr (0, m1)
     \<and> cancelAll m1 3 True = Inr (True, m2) \<and> fc_events (m_fdContexts m2 ! 3) = 0"
proof -
  have "\<not> (nat 3 < length (m_fdContexts (io_manager_new :: unit io_manager)) \<and>
      has (fc_events (m_fdContexts (io_manager_new :: unit io_manager) ! nat 3)) READ)"
    by (simp add: io_manager_new_def contextResize_def)
  from addEvent_ok [OF io_inv_new _ _ this, of None 7] obtain m1 c where m1:
    "addEvent (io_manager_new :: unit io_manager) 3 READ None 7 True True = Inr (0, m1)"
    "nat 3 < length (m_fdContexts m1)" "m_fdContexts m1 ! nat 3 = c" "has (fc_events c) READ"
    by (metis insertI1 zero_le_numeral)
  have "io_reach m1" by (rule io_reach.add [OF io_reach.new _ _ m1(1)]) simp_all
  moreover have "fc_events (m_fdContexts m1 ! nat 3) \<noteq> 0" using m1(3,4) by (auto simp: has_def)
  ultimately show ?thesis using cancel_all_wakes_all [of m1 3] m1(1,2) by auto
qed

text \<open>
  An error or hang-up on a descriptor with one registered event aborts the program: \<open>idle\<close>
  turns it into both events and triggers each of them, also the one that is not registered.
\<close>

theorem hangup_aborts:
  assumes "io_reach m" and "i < length (m_fdContexts m)" and "fc_events (m_fdContexts m ! i) \<in> {READ, WRITE}"
    and "ev AND (EPOLLERR OR EPOLLHUP) \<noteq> 0"
  shows "idle_event m i ev True = Inl (IoAssert ''triggerEvent'')"
proof -
  have real: "real_events ev = 5"
  proof -
    have "(ev OR EPOLLIN OR EPOLLOUT) AND EPOLLIN \<noteq> 0" and "(ev OR EPOLLIN OR EPOLLOUT) AND EPOLLOUT \<noteq> 0"
    proof -
      have "bit ((ev OR EPOLLIN OR EPOLLOUT) AND EPOLLIN) 0" and "bit ((ev OR EPOLLIN OR EPOLLOUT) AND EPOLLOUT) 2"
        by (simp_all add: event_defs bit_simps bit_numeral_rec)
      then show "(ev OR EPOLLIN OR EPOLLOUT) AND EPOLLIN \<noteq> 0" and "(ev OR EPOLLIN OR EPOLLOUT) AND EPOLLOUT \<noteq> 0"
        by (auto simp del: bit_and_iff)
    qed
    then show ?thesis using assms(4) by (simp add: real_events_def Let_def READ_def WRITE_def)
  qed
  have "\<exists>x\<in>{READ, WRITE}. \<not> has (fc_events (m_fdContexts m ! i)) x" and "fc_events (m_fdContexts m ! i) AND 5 \<noteq> 0"
    using assms(3) by (auto simp: has_def event_defs)
  moreover have "has 5 x" if "x \<in> {READ, WRITE}" for x using that by (auto simp: has_def event_defs)
  ultimately show ?thesis
    using idle_event_aborts [OF io_reach_inv [OF assms(1)] assms(2)] real by metis
qed

lemma hangup_aborts_witness:
  "\<exists>m1. addEvent (io_manager_new :: unit io_manager) 3 READ None 7 True True = Inr (0, m1)
     \<and> idle_event m1 3 EPOLLHUP True = Inl (IoAssert ''triggerEvent'')"
proof -
  obtain m1 where m1: "addEvent (io_manager_new :: unit io_manager) 3 READ None 7 True True = Inr (0, m1)"
    "3 < length (m_fdContexts m1)" "fc_events (m_fdContexts m1 ! 3) = READ"
    by (simp add: addEvent_def lookup_grow_def io_manager_new_def contextResize_def getContext_def
        setContext_def set_ctx_def epoll_set_def new_fd_context_def empty_context_def NONE_def Let_def)
  have "io_reach m1" by (rule io_reach.add [OF io_reach.new _ _ m1(1)]) simp_all
  then show ?thesis using hangup_aborts [of m1 3 EPOLLHUP] m1 by (auto simp: event_defs)
qed

lemma contextResize_new: "contextResize (map new_fd_context [0..<k]) n = map new_fd_context [0..<n]"
proof (cases "k \<le> n")
  case True
  then obtain d where n: "n = k + d" using le_Suc_ex by blast
  have "[0..<n] = [0..<k] @ [k..<n]" using upt_add_eq_append [of 0 k d] by (simp add: n)
  then show ?thesis using True by (simp add: contextResize_def)
qed (simp add: contextResize_def take_map)

text \<open>
  The growth of the context vector can shrink it: two threads that both found it too short
  grow it one after the other, each to one and a half times its own descriptor. The second,
  with the smaller descriptor, cuts off the contexts the first has registered events in: the
  waiter is lost while the event still counts as pending.
\<close>

theorem late_growth_loses_waiter:
  "\<exists>m1 :: unit io_manager. addEvent io_manager_new 100 READ None 7 True True = Inr (0, m1)
     \<and> 32 \<ge> length (m_fdContexts (io_manager_new :: unit io_manager))
     \<and> (let m2 = m1\<lparr>m_fdContexts := contextResize (m_fdContexts m1) (32 * 3 div 2)\<rparr>
        in m_pendingEventCount m2 = 1 \<and> list_all (\<lambda>c. fc_events c = 0) (m_fdContexts m2)
           \<and> cancelEvent m2 100 READ True = Inr (False, m2))"
proof -
  have new: "m_fdContexts (io_manager_new :: unit io_manager) = map new_fd_context [0..<32]"
    using contextResize_new [of 0 32] by (simp add: io_manager_new_def del: upt_rec_numeral)
  let ?c = "(new_fd_context 100)\<lparr>fc_events := READ, fc_read := \<lparr>ec_scheduler = True, ec_fiber = Some 7, ec_cb = None\<rparr>\<rparr>"
  let ?m1 = "(io_manager_new :: unit io_manager)\<lparr>m_fdContexts := (map new_fd_context [0..<150])[100 := ?c],
     m_pendingEventCount := 1, m_epoll := [100 \<mapsto> EPOLLET OR READ]\<rparr>"
  have grow: "lookup_grow (io_manager_new :: unit io_manager) 100
      = Inr (100, io_manager_new\<lparr>m_fdContexts := map new_fd_context [0..<150]\<rparr>)"
  proof -
    have r: "contextResize (map new_fd_context [0..<32]) 150 = (map new_fd_context [0..<150] :: unit fd_context list)"
      by (rule contextResize_new)
    show ?thesis by (simp add: lookup_grow_def new r del: upt_rec_numeral)
  qed
  have add: "addEvent (io_manager_new :: unit io_manager) 100 READ None 7 True True = Inr (0, ?m1)"
    by (simp add: addEvent_def grow getContext_def setContext_def set_ctx_def epoll_set_def
        new_fd_context_def empty_context_def NONE_def Let_def del: upt_rec_numeral)
       (simp add: io_manager_new_def)
  have cut: "contextResize (m_fdContexts ?m1) (32 * 3 div 2) = map new_fd_context [0..<48]"
    by (simp add: contextResize_def take_map del: upt_rec_numeral)
  show ?thesis
    by (intro exI [of _ ?m1] conjI add) (simp_all only: Let_def cut,
       auto simp: new cancelEvent_def lookup_ctx_def list_all_iff simp del: upt_rec_numeral)
qed

text \<open>
  The timeout passed to \<open>epoll_wait\<close> is between 0 and 3000 milliseconds when the next timer is
  less than \<open>2 ^ 31\<close> milliseconds away or there is none; for one \<open>2 ^ 31\<close> away it is negative, and
  the call waits without a limit.
\<close>

theorem epoll_timeout_bounds:
  "(unat t < 2 ^ 31 \<or> t = - 1 \<longrightarrow> 0 \<le> epoll_timeout t \<and> epoll_timeout t \<le> 3000
      \<and> (t \<noteq> - 1 \<longrightarrow> epoll_timeout t = min 3000 (int (unat t))))
   \<and> epoll_timeout (2 ^ 31) < 0"
proof -
  have small: "sint (ucast t :: u32) = int (unat t)" if "unat t < 2 ^ 31"
  proof -
    have "unat (ucast t :: u32) = unat t"
      using that by (simp add: unsigned_ucast_eq take_bit_nat_eq_self)
    then have "uint (ucast t :: u32) = int (unat t)" by (metis uint_nat)
    moreover have keep: "signed_take_bit (LENGTH(32) - Suc 0) (int k) = int k" if "k < 2 ^ 31" for k :: nat
      using that by (simp add: signed_take_bit_int_eq_self)
    ultimately show ?thesis by (simp only: sint_uint keep [OF that])
  qed
  show ?thesis by (auto simp: epoll_timeout_def small Let_def)
qed

lemma epoll_timeout_bounds_witness: "epoll_timeout 250 = 250"
  using epoll_timeout_bounds [of 250] by simp

end
