(* ===== verification/Hook.thy ===== *)
theory Hook
  imports IO_Manager "HOL-Library.Signed_Division"
begin

text \<open>
  The descriptor table of \<open>src/fdmanager.cpp\<close> and the system calls hooked by \<open>src/hook.cpp\<close>.
  The original functions are the kernel's: a call's outcome is a value \<open>(n, errno)\<close> of the
  environment, consumed from a list, and the file status flags of a descriptor are kept in
  \<open>k_flags\<close>. What a hooked call does to timers and events is the list of its actions; how a
  wait ended (0, or the error \<open>cancelled\<close> was set to by the timer) is an input.
\<close>

section \<open>Descriptors\<close>

record fd_ctx =
  m_isInit :: bool
  m_isSocket :: bool
  m_sysNonblock :: bool
  m_userNonblock :: bool
  m_isClosed :: bool
  m_fd :: int
  m_readTimeout :: u64
  m_sendTimeout :: u64

record hook_world =
  m_data :: "fd_ctx option list"
  k_flags :: "int \<Rightarrow> u32"

definition O_NONBLOCK :: u32 where "O_NONBLOCK = 0x800"
definition SO_RCVTIMEO :: int where "SO_RCVTIMEO = 20"
definition SO_SNDTIMEO :: int where "SO_SNDTIMEO = 21"
definition SOL_SOCKET :: int where "SOL_SOCKET = 1"
definition EINTR :: int where "EINTR = 4"
definition EBADF :: int where "EBADF = 9"
definition EAGAIN :: int where "EAGAIN = 11"
definition ETIMEDOUT :: int where "ETIMEDOUT = 110"
definition EINPROGRESS :: int where "EINPROGRESS = 115"

lemmas errno_defs = EINTR_def EBADF_def EAGAIN_def ETIMEDOUT_def EINPROGRESS_def

text \<open>\<open>FdCtx::FdCtx\<close> with \<open>init\<close>: \<open>st\<close> is the answer of \<open>fstat\<close>, \<open>None\<close> for a failure and
  \<open>Some is_socket\<close> otherwise. The second component is the new kernel flags.\<close>

definition fd_ctx_new :: "int \<Rightarrow> bool option \<Rightarrow> u32 \<Rightarrow> fd_ctx \<times> u32" where
  "fd_ctx_new fd st flags =
     (let isSocket = (case st of None \<Rightarrow> False | Some s \<Rightarrow> s) in
      (\<lparr>m_isInit = (st \<noteq> None), m_isSocket = isSocket, m_sysNonblock = isSocket, m_userNonblock = False,
        m_isClosed = False, m_fd = fd, m_readTimeout = - 1, m_sendTimeout = - 1\<rparr>,
       if isSocket \<and> flags AND O_NONBLOCK = 0 then flags OR O_NONBLOCK else flags))"

definition setTimeout :: "fd_ctx \<Rightarrow> int \<Rightarrow> u64 \<Rightarrow> fd_ctx" where
  "setTimeout c type v = (if type = SO_RCVTIMEO then c\<lparr>m_readTimeout := v\<rparr> else c\<lparr>m_sendTimeout := v\<rparr>)"

definition getTimeout :: "fd_ctx \<Rightarrow> int \<Rightarrow> u64" where
  "getTimeout c type = (if type = SO_RCVTIMEO then m_readTimeout c else m_sendTimeout c)"

definition fd_manager_new :: "fd_ctx option list" where
  "fd_manager_new = replicate 64 None"

text \<open>\<open>FdManager::get (fd)\<close> without creation; a negative descriptor other than \<open>-1\<close> indexes
  outside the vector.\<close>

definition fd_get :: "hook_world \<Rightarrow> int \<Rightarrow> io_error + fd_ctx option" where
  "fd_get w fd =
     (if fd = -1 then Inr None
      else if int (length (m_data w)) \<le> fd then Inr None
      else if fd < 0 then Inl BadIndex
      else Inr (m_data w ! nat fd))"

definition fd_get_create :: "hook_world \<Rightarrow> int \<Rightarrow> bool option \<Rightarrow> io_error + fd_ctx option \<times> hook_world" where
  "fd_get_create w fd st =
     (if fd = -1 then Inr (None, w)
      else if fd < 0 then Inl BadIndex
      else if nat fd < length (m_data w) \<and> m_data w ! nat fd \<noteq> None then Inr (m_data w ! nat fd, w)
      else
        let (c, fl) = fd_ctx_new fd st (k_flags w fd);
            d = (if length (m_data w) \<le> nat fd
                 then m_data w @ replicate (nat fd * 3 div 2 - length (m_data w)) None else m_data w)
        in if nat fd < length d
           then Inr (Some c, w\<lparr>m_data := d[nat fd := Some c], k_flags := (k_flags w)(fd := fl)\<rparr>)
           else Inl BadIndex)"

definition fd_del :: "hook_world \<Rightarrow> int \<Rightarrow> io_error + hook_world" where
  "fd_del w fd =
     (if int (length (m_data w)) \<le> fd then Inr w
      else if fd < 0 then Inl BadIndex
      else Inr (w\<lparr>m_data := (m_data w)[nat fd := None]\<rparr>))"

section \<open>Input and output\<close>

type_synonym outcome = "int \<times> int"

datatype io_action = SysCall | AddTimer u64 | AddEvent events | Yield | CancelTimer

text \<open>The call with the loop on \<open>EINTR\<close>; \<open>None\<close> when the environment gives no further outcome.\<close>

fun call_eintr :: "outcome list \<Rightarrow> (io_action list \<times> outcome \<times> outcome list) option" where
  "call_eintr [] = None"
| "call_eintr ((n, e) # os) =
     (if n = -1 \<and> e = EINTR
      then (case call_eintr os of None \<Rightarrow> None | Some (acts, r) \<Rightarrow> Some (SysCall # acts, r))
      else Some ([SysCall], (n, e), os))"

text \<open>
  From the label \<open>retry\<close> on: \<open>timeout\<close> is \<open>to\<close>; \<open>ws\<close> are the waits, each with the result of
  \<open>addEvent\<close> and an error: the \<open>errno\<close> a failed \<open>addEvent\<close> leaves, or the value of \<open>cancelled\<close>
  after the wait.
\<close>

fun do_io_retry :: "u64 \<Rightarrow> events \<Rightarrow> outcome list \<Rightarrow> (int \<times> int) list \<Rightarrow> (io_action list \<times> outcome) option" where
  "do_io_retry timeout event os ws =
     (case call_eintr os of
        None \<Rightarrow> None
      | Some (acts, (n, e), os') \<Rightarrow>
          if n = -1 \<and> e = EAGAIN
          then (case ws of
                  [] \<Rightarrow> None
                | (rt, cancelled) # ws' \<Rightarrow>
                    let t = (if timeout \<noteq> - 1 then [AddTimer timeout] else []);
                        c = (if timeout \<noteq> - 1 then [CancelTimer] else [])
                    in if rt \<noteq> 0 then Some (acts @ t @ [AddEvent event] @ c, (-1, cancelled))
                       else if cancelled \<noteq> 0 then Some (acts @ t @ [AddEvent event, Yield] @ c, (-1, cancelled))
                       else (case do_io_retry timeout event os' ws' of
                               None \<Rightarrow> None
                             | Some (acts', r) \<Rightarrow> Some (acts @ t @ [AddEvent event, Yield] @ c @ acts', r)))
          else Some (acts, (n, e)))"

declare do_io_retry.simps [simp del]

definition do_io :: "bool \<Rightarrow> hook_world \<Rightarrow> int \<Rightarrow> events \<Rightarrow> int \<Rightarrow> outcome list \<Rightarrow> (int \<times> int) list
    \<Rightarrow> io_error + (io_action list \<times> outcome) option" where
  "do_io hook_enable w fd event timeout_so os ws =
     (let direct = (case os of [] \<Rightarrow> None | r # _ \<Rightarrow> Some ([SysCall], r)) in
      if \<not> hook_enable then Inr direct
      else bind_res (fd_get w fd) (\<lambda>r. case r of
          None \<Rightarrow> Inr direct
        | Some c \<Rightarrow>
            if m_isClosed c then Inr (Some ([], (-1, EBADF)))
            else if \<not> m_isSocket c \<or> m_userNonblock c then Inr direct
            else Inr (do_io_retry (getTimeout c timeout_so) event os ws)))"

text \<open>The hooked calls of lines 300 to 348.\<close>

definition hook_read where "hook_read en w fd = do_io en w fd READ SO_RCVTIMEO"
definition hook_readv where "hook_readv en w fd = do_io en w fd READ SO_RCVTIMEO"
definition hook_recv where "hook_recv en w fd = do_io en w fd READ SO_RCVTIMEO"
definition hook_recvfrom where "hook_recvfrom en w fd = do_io en w fd READ SO_RCVTIMEO"
definition hook_recvmsg where "hook_recvmsg en w fd = do_io en w fd READ SO_RCVTIMEO"
definition hook_write where "hook_write en w fd = do_io en w fd WRITE SO_SNDTIMEO"
definition hook_writev where "hook_writev en w fd = do_io en w fd WRITE SO_SNDTIMEO"
definition hook_send where "hook_send en w fd = do_io en w fd WRITE SO_SNDTIMEO"
definition hook_sendto where "hook_sendto en w fd = do_io en w fd WRITE SO_SNDTIMEO"
definition hook_sendmsg where "hook_sendmsg en w fd = do_io en w fd WRITE SO_SNDTIMEO"

text \<open>\<open>accept\<close> registers the descriptor it returns; \<open>st\<close> is the \<open>fstat\<close> of it.\<close>

definition hook_accept :: "bool \<Rightarrow> hook_world \<Rightarrow> int \<Rightarrow> outcome list \<Rightarrow> (int \<times> int) list \<Rightarrow> bool option
    \<Rightarrow> io_error + (io_action list \<times> outcome) option \<times> hook_world" where
  "hook_accept en w fd os ws st = bind_res (do_io en w fd READ SO_RCVTIMEO os ws) (\<lambda>r. case r of
     None \<Rightarrow> Inr (None, w)
   | Some (acts, (n, e)) \<Rightarrow>
       if 0 \<le> n then bind_res (fd_get_create w n st) (\<lambda>(_, w'). Inr (r, w')) else Inr (r, w))"

definition hook_socket :: "bool \<Rightarrow> hook_world \<Rightarrow> int \<Rightarrow> bool option \<Rightarrow> io_error + int \<times> hook_world" where
  "hook_socket en w fd st =
     (if \<not> en \<or> fd = -1 then Inr (fd, w)
      else bind_res (fd_get_create w fd st) (\<lambda>(_, w'). Inr (fd, w')))"

text \<open>
  \<open>connect_with_timeout\<close>: \<open>r\<close> is the outcome of \<open>connect_f\<close>, \<open>wait\<close> the result of \<open>addEvent\<close> and
  the value of \<open>cancelled\<close>, \<open>so\<close> the outcome of \<open>getsockopt\<close> and the error it stores.
\<close>

definition connect_with_timeout :: "bool \<Rightarrow> hook_world \<Rightarrow> int \<Rightarrow> u64 \<Rightarrow> outcome \<Rightarrow> int \<times> int \<Rightarrow> outcome \<times> int
    \<Rightarrow> io_error + io_action list \<times> outcome" where
  "connect_with_timeout en w fd timeout_ms r wait so =
     (if \<not> en then Inr ([SysCall], r)
      else bind_res (fd_get w fd) (\<lambda>c. case c of
          None \<Rightarrow> Inr ([], (-1, EBADF))
        | Some ctx \<Rightarrow>
            if m_isClosed ctx then Inr ([], (-1, EBADF))
            else if \<not> m_isSocket ctx then Inr ([SysCall], r)
            else if m_userNonblock ctx then Inr ([SysCall], r)
            else if fst r = 0 then Inr ([SysCall], (0, snd r))
            else if fst r \<noteq> -1 \<or> snd r \<noteq> EINPROGRESS then Inr ([SysCall], r)
            else
              let t = (if timeout_ms \<noteq> - 1 then [AddTimer timeout_ms] else []);
                  c = (if timeout_ms \<noteq> - 1 then [CancelTimer] else []);
                  (rt, cancelled) = wait;
                  acts = [SysCall] @ t @ (if rt = 0 then [AddEvent WRITE, Yield] else [AddEvent WRITE]) @ c
              in if rt = 0 \<and> cancelled \<noteq> 0 then Inr (acts, (-1, cancelled))
                 else (case so of ((g, ge), error) \<Rightarrow>
                   if g = -1 then Inr (acts, (-1, ge))
                   else if error = 0 then Inr (acts, (0, ge))
                   else Inr (acts, (-1, error)))))"

definition hook_connect :: "bool \<Rightarrow> hook_world \<Rightarrow> int \<Rightarrow> u64 \<Rightarrow> outcome \<Rightarrow> int \<times> int \<Rightarrow> outcome \<times> int
    \<Rightarrow> io_error + io_action list \<times> outcome" where
  "hook_connect en w fd s_connect_timeout r wait so = connect_with_timeout en w fd s_connect_timeout r wait so"

text \<open>\<open>close\<close>: wakes all waiters of the descriptor and forgets it; \<open>iom\<close> is the thread's manager,
  \<open>ok\<close> the success of its \<open>epoll_ctl\<close> and \<open>r\<close> the outcome of \<open>close_f\<close>, which is returned.\<close>

definition hook_close :: "bool \<Rightarrow> hook_world \<Rightarrow> 'cb io_manager option \<Rightarrow> int \<Rightarrow> bool \<Rightarrow> outcome
    \<Rightarrow> io_error + outcome \<times> hook_world \<times> 'cb io_manager option" where
  "hook_close en w iom fd ok r =
     (if \<not> en then Inr (r, w, iom)
      else bind_res (fd_get w fd) (\<lambda>c. case c of
          None \<Rightarrow> Inr (r, w, iom)
        | Some _ \<Rightarrow>
            bind_res (case iom of None \<Rightarrow> Inr None
                      | Some m \<Rightarrow> bind_res (cancelAll m fd ok) (\<lambda>(_, m'). Inr (Some m'))) (\<lambda>iom'.
            bind_res (fd_del w fd) (\<lambda>w'. Inr (r, w', iom')))))"

section \<open>Sleeping\<close>

text \<open>A timer that schedules the fiber again, then \<open>YieldToHold\<close>; \<open>r\<close> is the result of the original
  function. The product of \<open>sleep\<close> is one of 32-bit unsigned numbers, the sum of \<open>nanosleep\<close> is
  stored in an \<open>int\<close>.\<close>

definition hook_sleep :: "bool \<Rightarrow> u32 \<Rightarrow> int \<Rightarrow> io_action list \<times> int" where
  "hook_sleep en seconds r =
     (if \<not> en then ([SysCall], r) else ([AddTimer (ucast (seconds * 1000)), Yield], 0))"

definition hook_usleep :: "bool \<Rightarrow> u32 \<Rightarrow> int \<Rightarrow> io_action list \<times> int" where
  "hook_usleep en usec r =
     (if \<not> en then ([SysCall], r) else ([AddTimer (ucast (usec div 1000)), Yield], 0))"

definition hook_nanosleep :: "bool \<Rightarrow> int \<Rightarrow> int \<Rightarrow> int \<Rightarrow> io_action list \<times> int" where
  "hook_nanosleep en tv_sec tv_nsec r =
     (if \<not> en then ([SysCall], r)
      else
        let timeout_ms = word_of_int (tv_sec * 1000 + tv_nsec sdiv 1000 sdiv 1000) :: u32
        in ([AddTimer (word_of_int (sint timeout_ms)), Yield], 0))"

section \<open>Descriptor options\<close>

definition usable :: "fd_ctx option \<Rightarrow> fd_ctx option" where
  "usable c = (case c of None \<Rightarrow> None | Some x \<Rightarrow> if m_isClosed x \<or> \<not> m_isSocket x then None else Some x)"

definition set_fd :: "hook_world \<Rightarrow> int \<Rightarrow> fd_ctx \<Rightarrow> hook_world" where
  "set_fd w fd c = w\<lparr>m_data := (m_data w)[nat fd := Some c]\<rparr>"

text \<open>\<open>fcntl (fd, F_SETFL, arg)\<close> and \<open>fcntl (fd, F_GETFL)\<close>; the other commands pass through. What the
  kernel makes of the old flags and an argument is the parameter \<open>setfl\<close>.\<close>

definition fcntl_setfl :: "(u32 \<Rightarrow> u32 \<Rightarrow> u32) \<Rightarrow> hook_world \<Rightarrow> int \<Rightarrow> u32 \<Rightarrow> io_error + hook_world" where
  "fcntl_setfl setfl w fd arg =
     (let fcntl_f = (\<lambda>w' a. w'\<lparr>k_flags := (k_flags w)(fd := setfl (k_flags w fd) a)\<rparr>) in
      bind_res (fd_get w fd) (\<lambda>c. case usable c of
        None \<Rightarrow> Inr (fcntl_f w arg)
      | Some x \<Rightarrow>
          let w' = set_fd w fd (x\<lparr>m_userNonblock := (arg AND O_NONBLOCK \<noteq> 0)\<rparr>);
              arg' = (if m_sysNonblock x then arg OR O_NONBLOCK else arg AND NOT O_NONBLOCK)
          in Inr (fcntl_f w' arg')))"

definition fcntl_getfl :: "hook_world \<Rightarrow> int \<Rightarrow> io_error + u32" where
  "fcntl_getfl w fd = bind_res (fd_get w fd) (\<lambda>c. case usable c of
     None \<Rightarrow> Inr (k_flags w fd)
   | Some x \<Rightarrow> Inr (if m_userNonblock x then k_flags w fd OR O_NONBLOCK else k_flags w fd AND NOT O_NONBLOCK))"

text \<open>The dispatch of \<open>fcntl\<close>: which argument is read from the caller and handed to \<open>fcntl_f\<close>.\<close>

datatype fcntl_cmd = F_SETFL | F_GETFL
  | F_DUPFD | F_DUPFD_CLOEXEC | F_SETFD | F_SETOWN | F_SETSIG | F_SETLEASE | F_NOTIFY | F_SETPIPE_SZ
  | F_GETFD | F_GETOWN | F_GETSIG | F_GETLEASE | F_GETPIPE_SZ
  | F_SETLK | F_SETLKW | F_GETLK | F_GETOWN_EX | F_SETOWN_EX | F_OTHER int

datatype fcntl_arg = NoArg | IntArg | FlockArg | OwnerArg

fun fcntl_passes :: "fcntl_cmd \<Rightarrow> fcntl_arg" where
  "fcntl_passes F_SETFL = IntArg"
| "fcntl_passes F_GETFL = NoArg"
| "fcntl_passes F_DUPFD = IntArg"
| "fcntl_passes F_DUPFD_CLOEXEC = IntArg"
| "fcntl_passes F_SETFD = IntArg"
| "fcntl_passes F_SETOWN = IntArg"
| "fcntl_passes F_SETSIG = IntArg"
| "fcntl_passes F_SETLEASE = IntArg"
| "fcntl_passes F_NOTIFY = IntArg"
| "fcntl_passes F_SETPIPE_SZ = IntArg"
| "fcntl_passes F_GETFD = NoArg"
| "fcntl_passes F_GETOWN = NoArg"
| "fcntl_passes F_GETSIG = NoArg"
| "fcntl_passes F_GETLEASE = NoArg"
| "fcntl_passes F_GETPIPE_SZ = NoArg"
| "fcntl_passes F_SETLK = FlockArg"
| "fcntl_passes F_SETLKW = FlockArg"
| "fcntl_passes F_GETLK = FlockArg"
| "fcntl_passes F_GETOWN_EX = OwnerArg"
| "fcntl_passes F_SETOWN_EX = OwnerArg"
| "fcntl_passes (F_OTHER _) = NoArg"

text \<open>\<open>ioctl (fd, FIONBIO, &on)\<close>: what the kernel makes of the flags is the parameter \<open>fionbio\<close>.\<close>

definition ioctl_fionbio :: "(u32 \<Rightarrow> bool \<Rightarrow> u32) \<Rightarrow> hook_world \<Rightarrow> int \<Rightarrow> int \<Rightarrow> io_error + hook_world" where
  "ioctl_fionbio fionbio w fd on =
     (let user_nonblock = (on \<noteq> 0);
          ioctl_f = (\<lambda>w'. w'\<lparr>k_flags := (k_flags w)(fd := fionbio (k_flags w fd) user_nonblock)\<rparr>)
      in bind_res (fd_get w fd) (\<lambda>c. case usable c of
           None \<Rightarrow> Inr (ioctl_f w)
         | Some x \<Rightarrow> Inr (ioctl_f (set_fd w fd (x\<lparr>m_userNonblock := user_nonblock\<rparr>)))))"

text \<open>\<open>setsockopt\<close> records the timeouts; \<open>tv\<close> is the \<open>timeval\<close>.\<close>

definition hook_setsockopt :: "bool \<Rightarrow> hook_world \<Rightarrow> int \<Rightarrow> int \<Rightarrow> int \<Rightarrow> int \<times> int \<Rightarrow> io_error + hook_world" where
  "hook_setsockopt en w fd level optname tv =
     (if \<not> en then Inr w
      else if level = SOL_SOCKET \<and> (optname = SO_RCVTIMEO \<or> optname = SO_SNDTIMEO)
      then bind_res (fd_get w fd) (\<lambda>c. case c of
          None \<Rightarrow> Inr w
        | Some x \<Rightarrow> Inr (set_fd w fd (setTimeout x optname (word_of_int (fst tv * 1000 + snd tv sdiv 1000)))))
      else Inr w)"

section \<open>Facts about a blocking call\<close>

text \<open>An outcome after which \<open>do_io\<close> calls again, and the actions of one such round.\<close>

definition retried :: "outcome \<Rightarrow> bool" where
  "retried r \<longleftrightarrow> fst r = -1 \<and> (snd r = EINTR \<or> snd r = EAGAIN)"

definition armed :: "u64 \<Rightarrow> io_action list" where
  "armed t = (if t = - 1 then [] else [AddTimer t])"

definition disarmed :: "u64 \<Rightarrow> io_action list" where
  "disarmed t = (if t = - 1 then [] else [CancelTimer])"

definition io_round :: "u64 \<Rightarrow> events \<Rightarrow> outcome \<Rightarrow> io_action list" where
  "io_round t ev r =
     SysCall # (if snd r = EINTR then [] else armed t @ [AddEvent ev, Yield] @ disarmed t)"

definition agains :: "outcome list \<Rightarrow> nat" where
  "agains pre = length (filter (\<lambda>r. snd r = EAGAIN) pre)"

lemma errno_neq [simp]: "EINTR \<noteq> EAGAIN" "EAGAIN \<noteq> EINTR"
  by (simp_all add: errno_defs)

lemma agains_simps [simp]:
  "agains [] = 0" "agains (r # pre) = (if snd r = EAGAIN then Suc (agains pre) else agains pre)"
  by (simp_all add: agains_def)

lemma io_round_eintr: "io_round t ev (-1, EINTR) = [SysCall]"
  by (simp add: io_round_def)

lemma do_io_retry_eintr:
  "do_io_retry t ev ((-1, EINTR) # os) ws = map_option (\<lambda>(a, r). (SysCall # a, r)) (do_io_retry t ev os ws)"
  by (subst (1 2) do_io_retry.simps) (auto simp: Let_def split: option.splits list.splits)

lemma do_io_retry_woken:
  "do_io_retry t ev ((-1, EAGAIN) # os) ((0, 0) # ws) =
     map_option (\<lambda>(a, r). (io_round t ev (-1, EAGAIN) @ a, r)) (do_io_retry t ev os ws)"
  by (subst do_io_retry.simps)
    (auto simp: Let_def errno_defs io_round_def armed_def disarmed_def split: option.splits)

lemma do_io_retry_failed:
  assumes "rt \<noteq> 0 \<or> c \<noteq> 0"
  shows "do_io_retry t ev ((-1, EAGAIN) # os) ((rt, c) # ws) =
    Some (SysCall # armed t @ AddEvent ev # (if rt = 0 then [Yield] else []) @ disarmed t, (-1, c))"
  using assms by (subst do_io_retry.simps) (auto simp: Let_def errno_defs armed_def disarmed_def)

lemma do_io_retry_done: "\<not> retried r \<Longrightarrow> do_io_retry t ev (r # os) ws = Some ([SysCall], r)"
  by (cases r, subst do_io_retry.simps) (auto simp: retried_def)

text \<open>Rounds that end in a wake-up lead to the call's next outcome.\<close>

lemma do_io_retry_rounds:
  "list_all retried pre \<Longrightarrow>
   do_io_retry t ev (pre @ os) (replicate (agains pre) (0, 0) @ ws) =
     map_option (\<lambda>(a, r). (concat (map (io_round t ev) pre) @ a, r)) (do_io_retry t ev os ws)"
proof (induction pre)
  case Nil
  then show ?case by (simp add: option.map_ident)
next
  case (Cons r pre)
  from Cons.prems have r: "r = (-1, EINTR) \<or> r = (-1, EAGAIN)" by (cases r) (auto simp: retried_def)
  from Cons have IH: "do_io_retry t ev (pre @ os) (replicate (agains pre) (0, 0) @ ws) =
    map_option (\<lambda>(a, r). (concat (map (io_round t ev) pre) @ a, r)) (do_io_retry t ev os ws)" by simp
  from r show ?case
  proof
    assume "r = (-1, EINTR)"
    then show ?thesis
      by (auto simp: do_io_retry_eintr IH option.map_comp comp_def io_round_eintr intro!: option.map_cong)
  next
    assume "r = (-1, EAGAIN)"
    then show ?thesis
      by (auto simp: do_io_retry_woken IH option.map_comp comp_def intro!: option.map_cong)
  qed
qed

text \<open>The calls, waits and timers of the rounds.\<close>

lemma rounds_count:
  assumes "list_all retried pre"
  shows "count_list (concat (map (io_round t ev) pre)) SysCall = length pre"
    "count_list (concat (map (io_round t ev) pre)) Yield = agains pre"
    "count_list (concat (map (io_round t ev) pre)) (AddTimer t) = (if t = - 1 then 0 else agains pre)"
    "count_list (concat (map (io_round t ev) pre)) CancelTimer = (if t = - 1 then 0 else agains pre)"
  using assms by (induction pre)
    (auto simp: io_round_def armed_def disarmed_def retried_def errno_defs)

text \<open>When the loop returns, given enough waits, and what it has done then.\<close>

lemma do_io_retry_returns:
  "agains os \<le> length ws \<Longrightarrow>
   (do_io_retry t ev os ws \<noteq> None) = ((\<exists>r\<in>set os. \<not> retried r) \<or> (\<exists>w\<in>set (take (agains os) ws). w \<noteq> (0, 0)))"
proof (induction os arbitrary: ws)
  case Nil
  then show ?case by (subst do_io_retry.simps) simp
next
  case (Cons r os)
  consider (final) "\<not> retried r" | (eintr) "r = (-1, EINTR)" | (again) "r = (-1, EAGAIN)"
    by (cases r) (auto simp: retried_def)
  then show ?case
  proof cases
    case final
    then show ?thesis by (simp add: do_io_retry_done)
  next
    case eintr
    then show ?thesis using Cons by (auto simp: do_io_retry_eintr retried_def)
  next
    case again
    then obtain w ws' where ws: "ws = w # ws'" using Cons.prems by (cases ws) auto
    show ?thesis
    proof (cases "w = (0, 0)")
      case True
      then show ?thesis using Cons again ws by (auto simp: do_io_retry_woken retried_def)
    next
      case False
      then show ?thesis using again ws by (cases w) (auto simp: do_io_retry_failed)
    qed
  qed
qed

lemma do_io_retry_bounded:
  "do_io_retry t ev os ws = Some (acts, r) \<Longrightarrow> count_list acts SysCall \<le> length os \<and>
     count_list acts Yield \<le> length ws \<and> count_list acts CancelTimer = count_list acts (AddTimer t)"
proof (induction os arbitrary: ws acts)
  case Nil
  then show ?case by (subst (asm) do_io_retry.simps) simp
next
  case (Cons q os)
  consider (final) "\<not> retried q" | (eintr) "q = (-1, EINTR)" | (again) "q = (-1, EAGAIN)"
    by (cases q) (auto simp: retried_def)
  then show ?case
  proof cases
    case final
    then show ?thesis using Cons.prems by (auto simp: do_io_retry_done)
  next
    case eintr
    then show ?thesis using Cons by (auto simp: do_io_retry_eintr)
  next
    case again
    then obtain w ws' where ws: "ws = w # ws'"
      using Cons.prems by (cases ws) (simp_all add: do_io_retry.simps [of _ _ "_ # _" "[]"])
    show ?thesis
    proof (cases "w = (0, 0)")
      case True
      then obtain acts' where a: "do_io_retry t ev os ws' = Some (acts', r)" "acts = io_round t ev (-1, EAGAIN) @ acts'"
        using Cons.prems again ws by (auto simp: do_io_retry_woken)
      show ?thesis using Cons.IH [OF a(1)] a(2) ws by (auto simp: io_round_def armed_def disarmed_def)
    next
      case False
      then show ?thesis using Cons.prems again ws
        by (cases w) (auto simp: do_io_retry_failed armed_def disarmed_def)
    qed
  qed
qed

lemma do_io_hooked:
  assumes "fd_get w fd = Inr (Some c)" "m_isSocket c" "\<not> m_isClosed c" "\<not> m_userNonblock c"
  shows "do_io True w fd ev so os ws = Inr (do_io_retry (getTimeout c so) ev os ws)"
  using assms by (simp add: do_io_def)

section \<open>Properties\<close>

text \<open>
  C12. A hooked call on a socket the user sees as blocking behaves as a blocking call: outcomes
  \<open>EINTR\<close> and \<open>EAGAIN\<close> are never returned but retried, the fiber yielding once for each \<open>EAGAIN\<close>,
  with a timer for each wait when a timeout is set, and each of these timers cancelled; the first
  other outcome is returned. When a wait fails instead, by a failed \<open>addEvent\<close> or because the
  timer set \<open>cancelled\<close>, the result is -1 with that error.
\<close>
theorem do_io_blocking:
  assumes c: "fd_get w fd = Inr (Some c)" "m_isSocket c" "\<not> m_isClosed c" "\<not> m_userNonblock c"
    and pre: "list_all retried pre"
    and ws: "ws = replicate (agains pre) (0, 0) @ ws'"
    and t: "t = getTimeout c so"
  shows "(\<forall>r os. \<not> retried r \<longrightarrow> (\<exists>acts. do_io True w fd ev so (pre @ r # os) ws = Inr (Some (acts, r)) \<and>
        count_list acts SysCall = length pre + 1 \<and> count_list acts Yield = agains pre \<and>
        count_list acts (AddTimer t) = (if t = - 1 then 0 else agains pre) \<and>
        count_list acts CancelTimer = count_list acts (AddTimer t))) \<and>
    (\<forall>os rt e ws''. (rt \<noteq> 0 \<or> e \<noteq> 0) \<and> ws' = (rt, e) # ws'' \<longrightarrow>
      (\<exists>acts. do_io True w fd ev so (pre @ (-1, EAGAIN) # os) ws = Inr (Some (acts, (-1, e))) \<and>
        count_list acts SysCall = length pre + 1 \<and>
        count_list acts CancelTimer = count_list acts (AddTimer t)))"
  unfolding do_io_hooked [OF c] ws do_io_retry_rounds [OF pre] t [symmetric]
  by (auto simp: do_io_retry_done do_io_retry_failed rounds_count [OF pre] armed_def disarmed_def)

theorem do_io_blocking_witness:
  "let c = fst (fd_ctx_new 3 (Some True) 0)\<lparr>m_readTimeout := 100\<rparr>;
       w = \<lparr>m_data = (replicate 64 None)[3 := Some c], k_flags = \<lambda>_. O_NONBLOCK\<rparr>
   in \<exists>acts. do_io True w 3 READ SO_RCVTIMEO [(-1, EINTR), (-1, EAGAIN), (5, 0)] [(0, 0)] = Inr (Some (acts, (5, 0))) \<and>
        count_list acts SysCall = 3"
proof -
  define c where "c = fst (fd_ctx_new 3 (Some True) 0)\<lparr>m_readTimeout := 100\<rparr>"
  define w where "w = \<lparr>m_data = (replicate 64 None)[3 := Some c], k_flags = \<lambda>_ :: int. O_NONBLOCK\<rparr>"
  have c: "fd_get w 3 = Inr (Some c)" "m_isSocket c" "\<not> m_isClosed c" "\<not> m_userNonblock c"
    by (simp_all add: fd_get_def w_def c_def fd_ctx_new_def)
  have pre: "list_all retried [(-1, EINTR), (-1, EAGAIN)]" by (simp add: retried_def)
  have r: "\<not> retried (5, 0)" by (simp add: retried_def)
  from do_io_blocking [OF c pre, where ws' = "[]" and so = SO_RCVTIMEO and ev = READ, OF refl refl] r
  have "\<exists>acts. do_io True w 3 READ SO_RCVTIMEO ([(-1, EINTR), (-1, EAGAIN)] @ (5, 0) # [])
      (replicate (agains [(-1, EINTR), (-1, EAGAIN)]) (0, 0) @ []) = Inr (Some (acts, (5, 0))) \<and>
        count_list acts SysCall = length [(-1 :: int, EINTR), (-1, EAGAIN)] + 1" by blast
  then have "\<exists>acts. do_io True w 3 READ SO_RCVTIMEO [(-1, EINTR), (-1, EAGAIN), (5, 0)] [(0, 0)] = Inr (Some (acts, (5, 0))) \<and>
        count_list acts SysCall = 3" by (simp add: numeral_3_eq_3)
  then show ?thesis unfolding Let_def w_def c_def .
qed

text \<open>
  C13. A hooked call on a socket the user sees as blocking returns exactly when one of the system call's outcomes is neither
  \<open>EINTR\<close> nor \<open>EAGAIN\<close>, or one of the waits fails, as when its timer fires: the loop ends after at most one call for each
  outcome and one switch for each wait, with every timer it added cancelled; while all waits end in a wake-up and all
  calls in \<open>EINTR\<close> or \<open>EAGAIN\<close> it goes on.
\<close>
theorem do_io_terminates:
  assumes "fd_get w fd = Inr (Some c)" "m_isSocket c" "\<not> m_isClosed c" "\<not> m_userNonblock c"
    and "agains os \<le> length ws"
  shows "(if (\<exists>r\<in>set os. \<not> retried r) \<or> (\<exists>x\<in>set (take (agains os) ws). x \<noteq> (0, 0))
    then \<exists>acts r. do_io True w fd ev so os ws = Inr (Some (acts, r)) \<and> count_list acts SysCall \<le> length os \<and>
      count_list acts Yield \<le> length ws \<and> count_list acts CancelTimer = count_list acts (AddTimer (getTimeout c so))
    else do_io True w fd ev so os ws = Inr None)"
proof (cases "do_io_retry (getTimeout c so) ev os ws")
  case None
  with do_io_retry_returns [OF assms(5), of "getTimeout c so" ev] show ?thesis
    unfolding do_io_hooked [OF assms(1-4)] by (simp only: if_False simp_thms)
next
  case (Some p)
  then obtain acts r where p: "do_io_retry (getTimeout c so) ev os ws = Some (acts, r)" by (cases p) simp
  with do_io_retry_returns [OF assms(5), of "getTimeout c so" ev]
  have "(\<exists>r\<in>set os. \<not> retried r) \<or> (\<exists>x\<in>set (take (agains os) ws). x \<noteq> (0, 0))"
    by (simp only: option.simps simp_thms)
  with p do_io_retry_bounded [OF p] show ?thesis
    unfolding do_io_hooked [OF assms(1-4)] by (simp only: if_True) blast
qed

theorem do_io_terminates_witness:
  "let c = fst (fd_ctx_new 3 (Some True) 0)\<lparr>m_readTimeout := 100\<rparr>;
       w = \<lparr>m_data = (replicate 64 None)[3 := Some c], k_flags = \<lambda>_. O_NONBLOCK\<rparr>
   in (\<exists>acts r. do_io True w 3 READ SO_RCVTIMEO [(-1, EAGAIN), (-1, EAGAIN)] [(0, 0), (0, ETIMEDOUT)] = Inr (Some (acts, r))) \<and>
      do_io True w 3 READ SO_RCVTIMEO [(-1, EAGAIN), (-1, EAGAIN)] [(0, 0), (0, 0)] = Inr None"
proof -
  define c where "c = fst (fd_ctx_new 3 (Some True) 0)\<lparr>m_readTimeout := 100\<rparr>"
  define w where "w = \<lparr>m_data = (replicate 64 None)[3 := Some c], k_flags = \<lambda>_ :: int. O_NONBLOCK\<rparr>"
  have c: "fd_get w 3 = Inr (Some c)" "m_isSocket c" "\<not> m_isClosed c" "\<not> m_userNonblock c"
    by (simp_all add: fd_get_def w_def c_def fd_ctx_new_def)
  have t: "(0 :: int, ETIMEDOUT) \<noteq> (0, 0)" by (simp add: errno_defs)
  have a: "agains [(-1, EAGAIN), (-1, EAGAIN)] \<le> length [(0 :: int, 0 :: int), x]" for x by simp
  show ?thesis unfolding Let_def w_def [symmetric] c_def [symmetric]
    using do_io_terminates [OF c a, of "(0, ETIMEDOUT)" READ SO_RCVTIMEO] do_io_terminates [OF c a, of "(0, 0)" READ SO_RCVTIMEO] t
    by (auto simp: retried_def)
qed

lemma and_not_or [simp]:
  fixes x y :: "'a::len word"
  shows "(x OR y) AND y = y" "(x AND NOT y) AND y = 0"
  by (auto intro!: bit_word_eqI simp: bit_simps)

lemma O_NONBLOCK_nonzero [simp]: "O_NONBLOCK \<noteq> 0" by (simp add: O_NONBLOCK_def)

lemma O_NONBLOCK_eq: "O_NONBLOCK = push_bit 11 1" by (simp add: O_NONBLOCK_def)

lemma O_NONBLOCK_bits: "bit O_NONBLOCK i \<longleftrightarrow> i = 11"
proof -
  have "bit (push_bit 11 1 :: u32) i \<longleftrightarrow> i < 32 \<and> 11 \<le> i \<and> i - 11 = 0"
    unfolding bit_push_bit_iff bit_1_iff by auto
  then show ?thesis unfolding O_NONBLOCK_eq by auto
qed

lemma O_NONBLOCK_bit: "x AND O_NONBLOCK = 0 \<or> x AND O_NONBLOCK = O_NONBLOCK"
proof (cases "bit x 11")
  case True
  then have "x AND O_NONBLOCK = O_NONBLOCK" by (intro bit_word_eqI) (auto simp: bit_simps O_NONBLOCK_bits)
  then show ?thesis ..
next
  case False
  then have "x AND O_NONBLOCK = 0" by (intro bit_word_eqI) (auto simp: bit_simps O_NONBLOCK_bits)
  then show ?thesis ..
qed

lemma O_NONBLOCK_set: "x AND O_NONBLOCK \<noteq> 0 \<Longrightarrow> x AND O_NONBLOCK = O_NONBLOCK"
  using O_NONBLOCK_bit by blast

text \<open>The descriptor is a socket of the table and the kernel does not block on it.\<close>

definition managed :: "hook_world \<Rightarrow> int \<Rightarrow> bool" where
  "managed w fd \<longleftrightarrow> 0 \<le> fd \<and> nat fd < length (m_data w) \<and>
     (case m_data w ! nat fd of None \<Rightarrow> False
      | Some c \<Rightarrow> m_isSocket c \<and> m_sysNonblock c \<and> \<not> m_isClosed c) \<and>
     k_flags w fd AND O_NONBLOCK = O_NONBLOCK"

lemma managedE:
  assumes "managed w fd"
  obtains c where "0 \<le> fd" "nat fd < length (m_data w)" "m_data w ! nat fd = Some c" "m_isSocket c"
    "m_sysNonblock c" "\<not> m_isClosed c" "k_flags w fd AND O_NONBLOCK = O_NONBLOCK" "fd_get w fd = Inr (Some c)"
  using assms by (auto simp: managed_def fd_get_def split: option.splits)

lemma fd_get_create_fresh:
  fixes st :: "bool option"
  assumes "0 \<le> fd" "64 \<le> length (m_data w)" "\<not> (nat fd < length (m_data w) \<and> m_data w ! nat fd \<noteq> None)"
  defines "c \<equiv> fst (fd_ctx_new fd st (k_flags w fd))"
  shows "\<exists>w'. fd_get_create w fd st = Inr (Some c, w') \<and> fd_get w' fd = Inr (Some c) \<and>
    k_flags w' = (k_flags w)(fd := snd (fd_ctx_new fd st (k_flags w fd))) \<and> length (m_data w) \<le> length (m_data w') \<and>
    (\<forall>i. i \<noteq> fd \<and> 0 \<le> i \<longrightarrow> fd_get w' i = fd_get w i)"
proof -
  define d where "d = (if length (m_data w) \<le> nat fd
     then m_data w @ replicate (nat fd * 3 div 2 - length (m_data w)) None else m_data w)"
  have len: "nat fd < length d" "length (m_data w) \<le> length d" using assms(2) by (auto simp: d_def)
  define w' where "w' = w\<lparr>m_data := d[nat fd := Some c],
     k_flags := (k_flags w)(fd := snd (fd_ctx_new fd st (k_flags w fd)))\<rparr>"
  have 1: "fd_get_create w fd st = Inr (Some c, w')"
    using assms(1,3) len(1) by (auto simp: fd_get_create_def case_prod_beta Let_def c_def w'_def d_def [symmetric])
  have 2: "fd_get w' fd = Inr (Some c)" using len(1) assms(1) by (auto simp: fd_get_def w'_def)
  have 3: "fd_get w' i = fd_get w i" if "i \<noteq> fd" "0 \<le> i" for i
    using that assms(1) by (auto simp: fd_get_def w'_def d_def nth_append)
  from 1 2 3 len(2) show ?thesis by (auto simp: w'_def)
qed

text \<open>
  The descriptor table: the first \<open>get (fd, true)\<close> of a descriptor makes its context, later
  \<open>get\<close>s return that one and no other descriptor changes; a socket is from then on non-blocking for
  the kernel. After \<open>del\<close> the descriptor is unknown again.
\<close>
theorem fd_table_laws:
  assumes "0 \<le> fd" "64 \<le> length (m_data w)" "fd_get w fd = Inr None"
  shows "\<exists>c w'. fd_get_create w fd (Some True) = Inr (Some c, w') \<and> fd_get w' fd = Inr (Some c) \<and>
    fd_get_create w' fd (Some True) = Inr (Some c, w') \<and>
    (\<forall>i. i \<noteq> fd \<and> 0 \<le> i \<longrightarrow> fd_get w' i = fd_get w i) \<and> managed w' fd \<and> \<not> m_userNonblock c \<and>
    (\<exists>w''. fd_del w' fd = Inr w'' \<and> fd_get w'' fd = Inr None)"
proof -
  from assms have new: "\<not> (nat fd < length (m_data w) \<and> m_data w ! nat fd \<noteq> None)"
    by (auto simp: fd_get_def split: if_splits)
  define c where "c = fst (fd_ctx_new fd (Some True) (k_flags w fd))"
  from fd_get_create_fresh [OF assms(1,2) new, of "Some True", folded c_def] obtain w' where w':
    "fd_get_create w fd (Some True) = Inr (Some c, w')" "fd_get w' fd = Inr (Some c)"
    "k_flags w' = (k_flags w)(fd := snd (fd_ctx_new fd (Some True) (k_flags w fd)))"
    "\<forall>i. i \<noteq> fd \<and> 0 \<le> i \<longrightarrow> fd_get w' i = fd_get w i" by auto
  from w'(2) assms(1) have at: "nat fd < length (m_data w')" "m_data w' ! nat fd = Some c"
    by (auto simp: fd_get_def split: if_splits)
  have "k_flags w' fd AND O_NONBLOCK = O_NONBLOCK"
    by (auto simp: w'(3) fd_ctx_new_def O_NONBLOCK_set)
  with at assms(1) have man: "managed w' fd" by (simp add: managed_def c_def fd_ctx_new_def)
  from at assms(1) have del: "\<exists>w''. fd_del w' fd = Inr w'' \<and> fd_get w'' fd = Inr None"
    by (auto simp: fd_del_def fd_get_def)
  from at assms(1) have again: "fd_get_create w' fd (Some True) = Inr (Some c, w')"
    by (auto simp: fd_get_create_def)
  have "\<not> m_userNonblock c" by (simp add: c_def fd_ctx_new_def)
  with w'(1,2,4) again man del show ?thesis by blast
qed

theorem fd_table_laws_witness:
  "\<exists>c w'. fd_get_create \<lparr>m_data = fd_manager_new, k_flags = \<lambda>_. 0\<rparr> 100 (Some True) = Inr (Some c, w') \<and>
     managed w' 100"
  using fd_table_laws [of 100 "\<lparr>m_data = fd_manager_new, k_flags = \<lambda>_. 0\<rparr>"]
  by (auto simp: fd_manager_new_def fd_get_def)

lemma set_fd_managed:
  assumes "managed w fd" "m_isSocket c" "m_sysNonblock c" "\<not> m_isClosed c" "k_flags w' = k_flags w"
    "m_data w' = (m_data w)[nat fd := Some c]" "fl AND O_NONBLOCK = O_NONBLOCK"
  shows "managed (w'\<lparr>k_flags := (k_flags w)(fd := fl)\<rparr>) fd"
  using assms by (auto simp: managed_def)

text \<open>
  C37. The user's view of the non-blocking flag is kept apart from the kernel's: after
  \<open>fcntl (fd, F_SETFL, arg)\<close> on a managed socket the kernel still does not block, and
  \<open>fcntl (fd, F_GETFL)\<close> shows the flag as \<open>arg\<close> has it. The hypothesis on the kernel is that
  \<open>F_SETFL\<close> sets the flag as its argument says.
\<close>
theorem nonblock_emulation:
  assumes man: "managed w fd"
    and setfl: "\<And>old a. setfl old a AND O_NONBLOCK = a AND O_NONBLOCK"
  shows "\<exists>w' fl. fcntl_setfl setfl w fd arg = Inr w' \<and> managed w' fd \<and>
    fcntl_getfl w' fd = Inr fl \<and> fl AND O_NONBLOCK = arg AND O_NONBLOCK"
proof -
  from man obtain c where c: "0 \<le> fd" "nat fd < length (m_data w)" "m_data w ! nat fd = Some c"
    "m_isSocket c" "m_sysNonblock c" "\<not> m_isClosed c" "fd_get w fd = Inr (Some c)"
    by (rule managedE)
  define c' where "c' = c\<lparr>m_userNonblock := (arg AND O_NONBLOCK \<noteq> 0)\<rparr>"
  define w' where "w' = (set_fd w fd c')\<lparr>k_flags := (k_flags w)(fd := setfl (k_flags w fd) (arg OR O_NONBLOCK))\<rparr>"
  have "fcntl_setfl setfl w fd arg = Inr w'"
    using c by (simp add: fcntl_setfl_def usable_def Let_def w'_def c'_def)
  moreover have "managed w' fd"
    unfolding w'_def by (rule set_fd_managed [OF man, where c = c']) (use c in \<open>auto simp: c'_def set_fd_def setfl\<close>)
  moreover have "fd_get w' fd = Inr (Some c')" using c by (auto simp: fd_get_def w'_def set_fd_def)
  then have "fcntl_getfl w' fd = Inr (if m_userNonblock c' then k_flags w' fd OR O_NONBLOCK
      else k_flags w' fd AND NOT O_NONBLOCK)"
    using c by (simp add: fcntl_getfl_def usable_def c'_def)
  moreover have "arg AND O_NONBLOCK = 0 \<or> arg AND O_NONBLOCK = O_NONBLOCK" by (rule O_NONBLOCK_bit)
  ultimately show ?thesis by (auto simp: c'_def)
qed

theorem nonblock_emulation_witness:
  "let c = fst (fd_ctx_new 3 (Some True) 2);
       w = \<lparr>m_data = (replicate 64 None)[3 := Some c], k_flags = \<lambda>_. 2 OR O_NONBLOCK\<rparr>
   in \<exists>w' fl. fcntl_setfl (\<lambda>old a. (old AND 3) OR (a AND NOT 3)) w 3 2 = Inr w' \<and> managed w' 3 \<and>
     fcntl_getfl w' 3 = Inr fl \<and> fl AND O_NONBLOCK = 0"
proof -
  define c where "c = fst (fd_ctx_new 3 (Some True) 2)"
  define w where "w = \<lparr>m_data = (replicate 64 None)[3 := Some c], k_flags = \<lambda>_ :: int. 2 OR O_NONBLOCK\<rparr>"
  have "managed w 3" by (simp add: managed_def w_def c_def fd_ctx_new_def)
  moreover have "((old AND 3) OR (a AND NOT 3)) AND O_NONBLOCK = a AND O_NONBLOCK" for old a :: u32
    by (rule bit_word_eqI) (auto simp: bit_simps O_NONBLOCK_bits)
  moreover have "(2 :: u32) AND O_NONBLOCK = 0" by (simp add: O_NONBLOCK_def)
  ultimately have "\<exists>w' fl. fcntl_setfl (\<lambda>old a. (old AND 3) OR (a AND NOT 3)) w 3 2 = Inr w' \<and> managed w' 3 \<and>
     fcntl_getfl w' 3 = Inr fl \<and> fl AND O_NONBLOCK = 0"
    using nonblock_emulation [of w 3 "\<lambda>old a. (old AND 3) OR (a AND NOT 3)" 2] by metis
  then show ?thesis unfolding Let_def w_def c_def .
qed

text \<open>
  \<open>ioctl (fd, FIONBIO)\<close> hands the user's wish to the kernel unchanged: clearing the flag on a
  managed socket leaves a descriptor that \<open>do_io\<close> still treats as non-blocking for the kernel, while
  the kernel now blocks on it (setting it keeps the socket managed). The hypothesis on the kernel is
  that \<open>FIONBIO\<close> sets or clears the flag as asked.
\<close>
theorem fionbio_blocks_the_thread:
  assumes man: "managed w fd"
    and fionbio: "\<And>old b. fionbio old b AND O_NONBLOCK = (if b then O_NONBLOCK else 0)"
  shows "\<exists>w' c. ioctl_fionbio fionbio w fd on = Inr w' \<and> fd_get w' fd = Inr (Some c) \<and> m_sysNonblock c \<and>
    m_userNonblock c = (on \<noteq> 0) \<and> (if on \<noteq> 0 then managed w' fd else k_flags w' fd AND O_NONBLOCK = 0)"
proof -
  from man obtain c where c: "0 \<le> fd" "nat fd < length (m_data w)" "m_data w ! nat fd = Some c"
    "m_isSocket c" "m_sysNonblock c" "\<not> m_isClosed c" "fd_get w fd = Inr (Some c)"
    by (rule managedE)
  define c' where "c' = c\<lparr>m_userNonblock := (on \<noteq> 0)\<rparr>"
  define w' where "w' = (set_fd w fd c')\<lparr>k_flags := (k_flags w)(fd := fionbio (k_flags w fd) (on \<noteq> 0))\<rparr>"
  have "ioctl_fionbio fionbio w fd on = Inr w'"
    using c by (simp add: ioctl_fionbio_def usable_def Let_def w'_def c'_def)
  moreover have "managed w' fd" if "on \<noteq> 0"
    unfolding w'_def using that
    by (intro set_fd_managed [OF man, where c = c']) (use c in \<open>auto simp: c'_def set_fd_def fionbio\<close>)
  moreover have "fd_get w' fd = Inr (Some c')" using c by (auto simp: fd_get_def w'_def set_fd_def)
  moreover have "k_flags w' fd AND O_NONBLOCK = 0" if "on = 0" using that by (simp add: w'_def fionbio)
  ultimately show ?thesis using c(5) by (auto simp: c'_def)
qed

theorem fionbio_blocks_the_thread_witness:
  "let c = fst (fd_ctx_new 3 (Some True) 2);
       w = \<lparr>m_data = (replicate 64 None)[3 := Some c], k_flags = \<lambda>_. 2 OR O_NONBLOCK\<rparr>
   in \<exists>w' c. ioctl_fionbio (\<lambda>old b. if b then old OR O_NONBLOCK else old AND NOT O_NONBLOCK) w 3 0 = Inr w' \<and>
     fd_get w' 3 = Inr (Some c) \<and> m_sysNonblock c \<and> \<not> m_userNonblock c \<and> k_flags w' 3 AND O_NONBLOCK = 0"
proof -
  define c where "c = fst (fd_ctx_new 3 (Some True) 2)"
  define w where "w = \<lparr>m_data = (replicate 64 None)[3 := Some c], k_flags = \<lambda>_ :: int. 2 OR O_NONBLOCK\<rparr>"
  have "managed w 3" by (simp add: managed_def w_def c_def fd_ctx_new_def)
  then have "\<exists>w' c. ioctl_fionbio (\<lambda>old b. if b then old OR O_NONBLOCK else old AND NOT O_NONBLOCK) w 3 0 = Inr w' \<and>
     fd_get w' 3 = Inr (Some c) \<and> m_sysNonblock c \<and> \<not> m_userNonblock c \<and> k_flags w' 3 AND O_NONBLOCK = 0"
    using fionbio_blocks_the_thread [of w 3 "\<lambda>old b. if b then old OR O_NONBLOCK else old AND NOT O_NONBLOCK" 0]
    by auto
  then show ?thesis unfolding Let_def w_def c_def .
qed

text \<open>
  The hooked \<open>sleep\<close> waits for at least the time asked, in milliseconds, exactly when the product
  with 1000 fits 32 bits; beyond 4294967 seconds it wraps around and the fiber wakes too early.
\<close>
theorem sleep_exact_iff:
  "(\<exists>d. hook_sleep True s r = ([AddTimer d, Yield], 0) \<and> unat d = unat s * 1000) \<longleftrightarrow> unat s \<le> 4294967"
proof -
  have "unat (ucast (s * 1000) :: u64) = unat s * 1000 mod 2 ^ 32"
    by (simp add: unsigned_ucast_eq unat_word_ariths take_bit_nat_eq_self_iff mod_less_divisor
        less_trans [OF mod_less_divisor])
  moreover have "unat s * 1000 mod 2 ^ 32 = unat s * 1000 \<longleftrightarrow> unat s \<le> 4294967"
    using mod_less_divisor [of "2 ^ 32" "unat s * 1000"] by (cases "unat s \<le> 4294967") auto
  ultimately show ?thesis by (simp add: hook_sleep_def)
qed

end
