(* ===== verification/Socket.thy ===== *)
theory Socket
  imports Hook Address
begin

text \<open>
  \<open>src/socket.cpp\<close>: a socket over the hooked system calls and the table of descriptors. The outcomes of the calls, the
  descriptors the kernel hands out and the addresses \<open>getsockname\<close> and \<open>getpeername\<close> fill in are inputs; the table and the
  thread's I/O manager are passed along. \<open>en\<close> is whether the hooks are enabled on the thread.
\<close>

section \<open>The object\<close>

definition SOCK_STREAM :: int where "SOCK_STREAM = 1"
definition SOCK_DGRAM :: int where "SOCK_DGRAM = 2"
definition SO_REUSEADDR :: int where "SO_REUSEADDR = 2"
definition IPPROTO_TCP :: int where "IPPROTO_TCP = 6"
definition TCP_NODELAY :: int where "TCP_NODELAY = 1"

record socket =
  m_sockfd :: int
  m_family :: u16
  m_type :: int
  m_protocol :: int
  m_isConnected :: bool
  m_localAddress :: "address option"
  m_remoteAddress :: "address option"

definition Socket_new :: "u16 \<Rightarrow> int \<Rightarrow> int \<Rightarrow> socket" where
  "Socket_new family type protocol =
     \<lparr>m_sockfd = -1, m_family = family, m_type = type, m_protocol = protocol, m_isConnected = False,
      m_localAddress = None, m_remoteAddress = None\<rparr>"

definition CreateTCP :: "address \<Rightarrow> socket" where "CreateTCP a = Socket_new (getFamily a) SOCK_STREAM 0"
definition CreateUDP :: "address \<Rightarrow> socket" where "CreateUDP a = Socket_new (getFamily a) SOCK_DGRAM 0"
definition CreateTCPSocket :: socket where "CreateTCPSocket = Socket_new AF_INET SOCK_STREAM 0"
definition CreateUDPSocket :: socket where "CreateUDPSocket = Socket_new AF_INET SOCK_DGRAM 0"
definition CreateTCPSocket6 :: socket where "CreateTCPSocket6 = Socket_new AF_INET6 SOCK_STREAM 0"
definition CreateUDPSocket6 :: socket where "CreateUDPSocket6 = Socket_new AF_INET6 SOCK_DGRAM 0"
definition CreateTCPUnixSocket :: socket where "CreateTCPUnixSocket = Socket_new AF_UNIX SOCK_STREAM 0"
definition CreateUDPUnixSocket :: socket where "CreateUDPUnixSocket = Socket_new AF_UNIX SOCK_DGRAM 0"

definition isValid :: "socket \<Rightarrow> bool" where "isValid s \<longleftrightarrow> m_sockfd s \<noteq> -1"

section \<open>Options\<close>

text \<open>\<open>setOption\<close> of a \<open>timeval\<close>: \<open>rc\<close> is the result of the original call.\<close>

definition setOption :: "bool \<Rightarrow> hook_world \<Rightarrow> socket \<Rightarrow> int \<Rightarrow> int \<Rightarrow> int \<times> int \<Rightarrow> int \<Rightarrow> io_error + bool \<times> hook_world" where
  "setOption en w s level option tv rc =
     bind_res (hook_setsockopt en w (m_sockfd s) level option tv) (\<lambda>w'. Inr (rc = 0, w'))"

definition getOption :: "int \<Rightarrow> bool" where "getOption rc \<longleftrightarrow> rc = 0"

text \<open>The error \<open>getsockopt\<close> stores, -1 when the call fails.\<close>

definition getError :: "int \<Rightarrow> int \<Rightarrow> int" where "getError rc error = (if \<not> getOption rc then -1 else error)"

definition timeval_of :: "u64 \<Rightarrow> int \<times> int" where
  "timeval_of v = (sint (ucast (v div 1000) :: u32), sint (ucast (v mod 1000 * 1000) :: u32))"

definition get_timeout :: "hook_world \<Rightarrow> socket \<Rightarrow> int \<Rightarrow> io_error + int" where
  "get_timeout w s opt = bind_res (fd_get w (m_sockfd s)) (\<lambda>c. case c of
      None \<Rightarrow> Inr (-1) | Some ctx \<Rightarrow> Inr (sint (getTimeout ctx opt)))"

definition getSendTimeout :: "hook_world \<Rightarrow> socket \<Rightarrow> io_error + int" where
  "getSendTimeout w s = get_timeout w s SO_SNDTIMEO"

definition getRecvTimeout :: "hook_world \<Rightarrow> socket \<Rightarrow> io_error + int" where
  "getRecvTimeout w s = get_timeout w s SO_RCVTIMEO"

definition setSendTimeout :: "bool \<Rightarrow> hook_world \<Rightarrow> socket \<Rightarrow> u64 \<Rightarrow> int \<Rightarrow> io_error + bool \<times> hook_world" where
  "setSendTimeout en w s v rc = setOption en w s SOL_SOCKET SO_SNDTIMEO (timeval_of v) rc"

definition setRecvTimeout :: "bool \<Rightarrow> hook_world \<Rightarrow> socket \<Rightarrow> u64 \<Rightarrow> int \<Rightarrow> io_error + bool \<times> hook_world" where
  "setRecvTimeout en w s v rc = setOption en w s SOL_SOCKET SO_RCVTIMEO (timeval_of v) rc"

text \<open>\<open>initSock\<close> ignores what its calls return.\<close>

definition initSock :: "bool \<Rightarrow> hook_world \<Rightarrow> socket \<Rightarrow> io_error + hook_world" where
  "initSock en w s =
     bind_res (setOption en w s SOL_SOCKET SO_REUSEADDR (1, 0) 0) (\<lambda>(_, w1).
       if m_type s = SOCK_STREAM
       then bind_res (setOption en w1 s IPPROTO_TCP TCP_NODELAY (1, 0) 0) (\<lambda>(_, w2). Inr w2) else Inr w1)"

text \<open>\<open>newSock\<close>: \<open>fd\<close> is the kernel's descriptor, \<open>st\<close> the answer of \<open>fstat\<close> for it.\<close>

definition newSock :: "bool \<Rightarrow> hook_world \<Rightarrow> socket \<Rightarrow> int \<Rightarrow> bool option \<Rightarrow> io_error + socket \<times> hook_world" where
  "newSock en w s fd st =
     bind_res (hook_socket en w fd st) (\<lambda>(fd', w1).
       let s' = s\<lparr>m_sockfd := fd'\<rparr> in
       if fd' \<noteq> -1 then bind_res (initSock en w1 s') (\<lambda>w2. Inr (s', w2)) else Inr (s', w1))"

section \<open>Addresses\<close>

text \<open>The cached address, or what the kernel filled in, \<open>None\<close> when the call fails: then the answer is not kept.\<close>

definition getRemoteAddress :: "socket \<Rightarrow> address option \<Rightarrow> address \<times> socket" where
  "getRemoteAddress s name =
     (case m_remoteAddress s of
        Some a \<Rightarrow> (a, s)
      | None \<Rightarrow> (case name of
            None \<Rightarrow> (Unknow (m_family s) (replicate 14 0), s)
          | Some a \<Rightarrow> (a, s\<lparr>m_remoteAddress := Some a\<rparr>)))"

definition getLocalAddress :: "socket \<Rightarrow> address option \<Rightarrow> address \<times> socket" where
  "getLocalAddress s name =
     (case m_localAddress s of
        Some a \<Rightarrow> (a, s)
      | None \<Rightarrow> (case name of
            None \<Rightarrow> (Unknow (m_family s) (replicate 14 0), s)
          | Some a \<Rightarrow> (a, s\<lparr>m_localAddress := Some a\<rparr>)))"

section \<open>Connections\<close>

type_synonym 'cb net = "hook_world \<times> 'cb io_manager option"

definition socket_close :: "bool \<Rightarrow> 'cb net \<Rightarrow> socket \<Rightarrow> bool \<Rightarrow> outcome \<Rightarrow> io_error + bool \<times> socket \<times> 'cb net" where
  "socket_close en net s ok r =
     (if \<not> m_isConnected s \<and> m_sockfd s = -1 then Inr (True, s, net)
      else
        let s' = s\<lparr>m_isConnected := False\<rparr> in
        if m_sockfd s' \<noteq> -1
        then case net of (w, iom) \<Rightarrow> bind_res (hook_close en w iom (m_sockfd s') ok r) (\<lambda>(_, w', iom').
               Inr (False, s'\<lparr>m_sockfd := -1\<rparr>, (w', iom')))
        else Inr (False, s', net))"

text \<open>\<open>init\<close> with the answers of \<open>getsockname\<close> and \<open>getpeername\<close>.\<close>

definition socket_init :: "bool \<Rightarrow> hook_world \<Rightarrow> socket \<Rightarrow> int \<Rightarrow> address option \<Rightarrow> address option
    \<Rightarrow> io_error + bool \<times> socket \<times> hook_world" where
  "socket_init en w s sockfd local remote =
     bind_res (fd_get w sockfd) (\<lambda>c. case c of
       None \<Rightarrow> Inr (False, s, w)
     | Some ctx \<Rightarrow>
         if m_isSocket ctx \<and> \<not> m_isClosed ctx then
           let s1 = s\<lparr>m_sockfd := sockfd, m_isConnected := True\<rparr> in
           bind_res (initSock en w s1) (\<lambda>w1.
             let s2 = snd (getLocalAddress s1 local) in Inr (True, snd (getRemoteAddress s2 remote), w1))
         else Inr (False, s, w))"

text \<open>\<open>accept\<close>: \<open>None\<close> while the fiber waits, otherwise the new socket, if there is one.\<close>

definition socket_accept :: "bool \<Rightarrow> hook_world \<Rightarrow> socket \<Rightarrow> outcome list \<Rightarrow> (int \<times> int) list \<Rightarrow> bool option
    \<Rightarrow> address option \<Rightarrow> address option \<Rightarrow> io_error + socket option option \<times> hook_world" where
  "socket_accept en w s os ws st local remote =
     bind_res (hook_accept en w (m_sockfd s) os ws st) (\<lambda>(r, w1). case r of
       None \<Rightarrow> Inr (None, w1)
     | Some (_, (newsock, _)) \<Rightarrow>
         if newsock = -1 then Inr (Some None, w1)
         else bind_res (socket_init en w1 (Socket_new (m_family s) (m_type s) (m_protocol s)) newsock local remote)
           (\<lambda>(ok, sock, w2). Inr (Some (if ok then Some sock else None), w2)))"

text \<open>A socket without a descriptor first gets one: whether there is one then.\<close>

definition ensure_sock :: "bool \<Rightarrow> hook_world \<Rightarrow> socket \<Rightarrow> int \<Rightarrow> bool option \<Rightarrow> io_error + socket \<times> hook_world" where
  "ensure_sock en w s fd st = (if \<not> isValid s then newSock en w s fd st else Inr (s, w))"

definition socket_bind :: "bool \<Rightarrow> hook_world \<Rightarrow> socket \<Rightarrow> address \<Rightarrow> int \<Rightarrow> bool option \<Rightarrow> int \<Rightarrow> address option
    \<Rightarrow> io_error + bool \<times> socket \<times> hook_world" where
  "socket_bind en w s addr fd st rc local =
     bind_res (ensure_sock en w s fd st) (\<lambda>(s1, w1).
       if \<not> isValid s1 then Inr (False, s1, w1)
       else if getFamily addr \<noteq> m_family s1 then Inr (False, s1, w1)
       else if rc \<noteq> 0 then Inr (False, s1, w1)
       else Inr (True, snd (getLocalAddress s1 local), w1))"

text \<open>
  \<open>connect\<close>: \<open>r\<close>, \<open>wait\<close> and \<open>so\<close> are the outcomes inside the hooked call, \<open>s_connect_timeout\<close> the timeout of the plain
  one. With a timeout the socket is closed on every path.
\<close>

definition socket_connect :: "bool \<Rightarrow> 'cb net \<Rightarrow> u64 \<Rightarrow> socket \<Rightarrow> address \<Rightarrow> u64 \<Rightarrow> int \<Rightarrow> bool option
    \<Rightarrow> outcome \<Rightarrow> int \<times> int \<Rightarrow> outcome \<times> int \<Rightarrow> bool \<Rightarrow> outcome \<Rightarrow> address option \<Rightarrow> address option
    \<Rightarrow> io_error + bool \<times> socket \<times> 'cb net" where
  "socket_connect en net s_connect_timeout s addr timeout_ms fd st r wait so ok cr local remote =
     (case net of (w, iom) \<Rightarrow>
       bind_res (ensure_sock en w s fd st) (\<lambda>(s1, w1).
         if \<not> isValid s1 then Inr (False, s1, (w1, iom))
         else if getFamily addr \<noteq> m_family s1 then Inr (False, s1, (w1, iom))
         else if timeout_ms = - 1 then
           bind_res (hook_connect en w1 (m_sockfd s1) s_connect_timeout r wait so) (\<lambda>(_, (n, _)).
             if n \<noteq> 0 then bind_res (socket_close en (w1, iom) s1 ok cr) (\<lambda>(_, s2, net'). Inr (False, s2, net'))
             else
               let s2 = snd (getRemoteAddress (s1\<lparr>m_isConnected := True\<rparr>) remote)
               in Inr (True, snd (getLocalAddress s2 local), (w1, iom)))
         else
           bind_res (connect_with_timeout en w1 (m_sockfd s1) timeout_ms r wait so) (\<lambda>_.
             bind_res (socket_close en (w1, iom) s1 ok cr) (\<lambda>(_, s2, net'). Inr (False, s2, net')))))"

definition socket_listen :: "socket \<Rightarrow> int \<Rightarrow> bool" where
  "socket_listen s rc \<longleftrightarrow> isValid s \<and> rc = 0"

section \<open>Sending and receiving\<close>

text \<open>Every call first asks \<open>isConnected\<close>; otherwise it returns -1 without a system call.\<close>

definition when_connected :: "socket \<Rightarrow> io_error + (io_action list \<times> outcome) option
    \<Rightarrow> io_error + (io_action list \<times> int) option" where
  "when_connected s call =
     (if m_isConnected s
      then bind_res call (\<lambda>r. Inr (map_option (\<lambda>(acts, (n, _)). (acts, sint (word_of_int n :: u32))) r))
      else Inr (Some ([], -1)))"

definition socket_send where
  "socket_send en w s os ws = when_connected s (hook_send en w (m_sockfd s) os ws)"
definition socket_sendmsg where
  "socket_sendmsg en w s os ws = when_connected s (hook_sendmsg en w (m_sockfd s) os ws)"
definition socket_sendTo where
  "socket_sendTo en w s os ws = when_connected s (hook_sendto en w (m_sockfd s) os ws)"
definition socket_sendmsgTo where
  "socket_sendmsgTo en w s os ws = when_connected s (hook_sendmsg en w (m_sockfd s) os ws)"
definition socket_recv where
  "socket_recv en w s os ws = when_connected s (hook_recv en w (m_sockfd s) os ws)"
definition socket_recvmsg where
  "socket_recvmsg en w s os ws = when_connected s (hook_recvmsg en w (m_sockfd s) os ws)"
definition socket_recvFrom where
  "socket_recvFrom en w s os ws = when_connected s (hook_recvfrom en w (m_sockfd s) os ws)"
definition socket_recvmsgFrom where
  "socket_recvmsgFrom en w s os ws = when_connected s (hook_recvmsg en w (m_sockfd s) os ws)"

text \<open>Cancelling, by the I/O manager of the thread.\<close>

definition cancelRead where "cancelRead m s ok = cancelEvent m (m_sockfd s) READ ok"
definition cancelWrite where "cancelWrite m s ok = cancelEvent m (m_sockfd s) WRITE ok"
definition cancelAccept where "cancelAccept m s ok = cancelEvent m (m_sockfd s) READ ok"
definition socket_cancelAll where "socket_cancelAll m s ok = cancelAll m (m_sockfd s) ok"

text \<open>\<open>dump\<close>.\<close>

definition socket_dump :: "endian \<Rightarrow> socket \<Rightarrow> string" where
  "socket_dump host s =
     ''[Socket sockfd='' @ show_int (m_sockfd s) @ '' is_connected='' @ (if m_isConnected s then ''1'' else ''0'')
     @ '' family='' @ show_dec (unat (m_family s)) @ '' type='' @ show_int (m_type s)
     @ '' protocol='' @ show_int (m_protocol s)
     @ (case m_localAddress s of None \<Rightarrow> [] | Some a \<Rightarrow> '' locl_address='' @ address_toString host a)
     @ (case m_remoteAddress s of None \<Rightarrow> [] | Some a \<Rightarrow> '' m_remoteAddress='' @ address_toString host a)
     @ '']''"

section \<open>Facts\<close>

lemma hook_setsockopt_other:
  "optname \<noteq> SO_RCVTIMEO \<Longrightarrow> optname \<noteq> SO_SNDTIMEO \<Longrightarrow> hook_setsockopt en w fd level optname tv = Inr w"
  by (simp add: hook_setsockopt_def)

lemma initSock_world [simp]: "initSock en w s = Inr w"
  by (simp add: initSock_def setOption_def hook_setsockopt_other SO_REUSEADDR_def TCP_NODELAY_def SO_RCVTIMEO_def SO_SNDTIMEO_def)

lemma getLocalAddress_state [simp]:
  "m_sockfd (snd (getLocalAddress s name)) = m_sockfd s" "m_isConnected (snd (getLocalAddress s name)) = m_isConnected s"
  "m_remoteAddress (snd (getLocalAddress s name)) = m_remoteAddress s" "m_family (snd (getLocalAddress s name)) = m_family s"
  by (simp_all add: getLocalAddress_def split: option.split)

lemma getRemoteAddress_state [simp]:
  "m_sockfd (snd (getRemoteAddress s name)) = m_sockfd s" "m_isConnected (snd (getRemoteAddress s name)) = m_isConnected s"
  "m_localAddress (snd (getRemoteAddress s name)) = m_localAddress s" "m_family (snd (getRemoteAddress s name)) = m_family s"
  by (simp_all add: getRemoteAddress_def split: option.split)

lemma newSock_state:
  "newSock en w s fd st = Inr (s', w') \<Longrightarrow> \<exists>fd'. s' = s\<lparr>m_sockfd := fd'\<rparr>"
  by (auto simp: newSock_def Let_def bind_res_def split: sum.splits if_splits prod.splits)

lemma ensure_sock_state:
  "ensure_sock en w s fd st = Inr (s', w') \<Longrightarrow> s' = s \<and> isValid s \<or> (\<not> isValid s \<and> (\<exists>fd'. s' = s\<lparr>m_sockfd := fd'\<rparr>))"
  by (auto simp: ensure_sock_def dest: newSock_state split: if_splits)

text \<open>A connected socket has a descriptor.\<close>

definition socket_inv :: "socket \<Rightarrow> bool" where
  "socket_inv s \<longleftrightarrow> (m_isConnected s \<longrightarrow> isValid s)"

lemma ensure_sock_inv: "socket_inv s \<Longrightarrow> ensure_sock en w s fd st = Inr (s', w') \<Longrightarrow> socket_inv s'"
  by (drule ensure_sock_state) (auto simp: socket_inv_def)

lemma socket_close_result:
  "socket_close en net s ok r = Inr (b, s', net') \<Longrightarrow> m_sockfd s' = -1 \<and> \<not> m_isConnected s' \<and>
     m_remoteAddress s' = m_remoteAddress s \<and> m_localAddress s' = m_localAddress s"
  by (auto simp: socket_close_def Let_def bind_res_def split: sum.splits if_splits prod.splits)

lemma socket_connect_cases:
  assumes "socket_connect en net sct s addr t fd st r wait so ok cr local remote = Inr (b, s', net')"
  obtains (refused) s1 w1 where "ensure_sock en (fst net) s fd st = Inr (s1, w1)" "s' = s1" "\<not> b"
      "\<not> isValid s1 \<or> getFamily addr \<noteq> m_family s1"
  | (closed) s1 w1 c where "socket_close en (w1, snd net) s1 ok cr = Inr (c, s', net')" "\<not> b"
      "ensure_sock en (fst net) s fd st = Inr (s1, w1)"
  | (connected) s1 w1 where "ensure_sock en (fst net) s fd st = Inr (s1, w1)" "b" "t = - 1" "isValid s1"
      "s' = snd (getLocalAddress (snd (getRemoteAddress (s1\<lparr>m_isConnected := True\<rparr>) remote)) local)"
  using assms
  by (auto simp: socket_connect_def bind_res_def Let_def split: prod.splits sum.splits if_splits)

text \<open>The states; callbacks of the I/O manager are named by numbers.\<close>

inductive socket_reach :: "socket \<Rightarrow> bool" where
  new: "socket_reach (Socket_new family type protocol)"
| bind: "socket_reach s \<Longrightarrow> socket_bind en w s addr fd st rc local = Inr (b, s', w') \<Longrightarrow> socket_reach s'"
| connect: "socket_reach s \<Longrightarrow>
    socket_connect en (net :: nat net) sct s addr t fd st r wait so ok cr local remote = Inr (b, s', net') \<Longrightarrow> socket_reach s'"
| close: "socket_reach s \<Longrightarrow> socket_close en (net :: nat net) s ok r = Inr (b, s', net') \<Longrightarrow> socket_reach s'"
| accept: "socket_reach s \<Longrightarrow> socket_accept en w s os ws st local remote = Inr (Some (Some s'), w') \<Longrightarrow> socket_reach s'"
| local_address: "socket_reach s \<Longrightarrow> socket_reach (snd (getLocalAddress s name))"
| remote_address: "socket_reach s \<Longrightarrow> socket_reach (snd (getRemoteAddress s name))"

lemma fd_get_minus_one [simp]: "fd_get w (-1) = Inr None"
  by (simp add: fd_get_def)

lemma socket_accept_inv:
  "socket_accept en w s os ws st local remote = Inr (Some (Some s'), w') \<Longrightarrow> socket_inv s'"
  by (auto simp: socket_accept_def socket_init_def Let_def bind_res_def socket_inv_def isValid_def
      split: sum.splits prod.splits option.splits if_splits)

lemma socket_reach_inv: "socket_reach s \<Longrightarrow> socket_inv s"
proof (induction rule: socket_reach.induct)
  case (new family type protocol)
  then show ?case by (simp add: socket_inv_def Socket_new_def)
next
  case (bind s en w addr fd st rc "local" b s' w')
  then obtain s1 w1 where "ensure_sock en w s fd st = Inr (s1, w1)" and "s' = s1 \<or> s' = snd (getLocalAddress s1 local)"
    by (auto simp: socket_bind_def bind_res_def split: sum.splits if_splits prod.splits)
  then show ?case using ensure_sock_inv [OF bind.IH] by (auto simp: socket_inv_def isValid_def)
next
  case (connect s en net sct addr t fd st r wait so ok cr "local" remote b s' net')
  from connect(2) show ?case
  proof (cases rule: socket_connect_cases)
    case (refused s1 w1)
    then show ?thesis using ensure_sock_inv [OF connect.IH] by simp
  next
    case (closed s1 w1 c)
    then show ?thesis using socket_close_result [OF closed(1)] by (simp add: socket_inv_def)
  next
    case (connected s1 w1)
    then show ?thesis by (simp add: socket_inv_def isValid_def)
  qed
next
  case (close s en net ok r b s' net')
  then show ?case using socket_close_result [OF close(2)] by (simp add: socket_inv_def)
next
  case (accept s en w os ws st "local" remote s' w')
  from accept(2) show ?case by (rule socket_accept_inv)
qed (simp_all add: socket_inv_def isValid_def)

section \<open>Properties\<close>

text \<open>C18. In every state that binding, connecting, closing and accepting lead to, a connected socket has a descriptor; on a
  socket that is not connected no call sends or receives anything, it returns -1 without a system call.\<close>

theorem connected_socket_valid:
  assumes "socket_reach s"
  shows "if m_isConnected s then isValid s
    else list_all (\<lambda>call. call = Inr (Some ([], -1)))
      [socket_send en w s os ws, socket_sendmsg en w s os ws, socket_sendTo en w s os ws, socket_sendmsgTo en w s os ws,
       socket_recv en w s os ws, socket_recvmsg en w s os ws, socket_recvFrom en w s os ws, socket_recvmsgFrom en w s os ws]"
  using socket_reach_inv [OF assms]
  by (simp add: socket_inv_def when_connected_def socket_send_def socket_sendmsg_def socket_sendTo_def socket_sendmsgTo_def
      socket_recv_def socket_recvmsg_def socket_recvFrom_def socket_recvmsgFrom_def)

theorem connected_socket_valid_witness:
  "socket_reach CreateTCPSocket \<and> (\<forall>w. socket_send True w CreateTCPSocket [(5, 0)] [] = Inr (Some ([], -1)))"
proof -
  have r: "socket_reach CreateTCPSocket" unfolding CreateTCPSocket_def by (rule socket_reach.new)
  have "\<not> m_isConnected CreateTCPSocket" by (simp add: CreateTCPSocket_def Socket_new_def)
  with connected_socket_valid [OF r] r show ?thesis by simp
qed

text \<open>A connect with a timeout never succeeds: whatever the system call returns, the result is false and the socket
  has no descriptor afterwards, unless it was refused for its address family.\<close>

theorem connect_timeout_fails:
  assumes "t \<noteq> - 1" and "socket_connect en net sct s addr t fd st r wait so ok cr local remote = Inr (b, s', net')"
  shows "\<not> b \<and> (\<not> isValid s' \<or> getFamily addr \<noteq> m_family s')"
  using assms(2)
proof (cases rule: socket_connect_cases)
  case (closed s1 w1 c)
  then show ?thesis using socket_close_result [OF closed(1)] by (simp add: isValid_def)
qed (use assms(1) in simp_all)

theorem connect_timeout_fails_witness:
  "\<forall>w. \<exists>s'. socket_connect False (w, None :: unit io_manager option) (-1) CreateTCPSocket (IPv4 (IPv4Address Little 0x7F000001 80)) 1000
      5 (Some True) (0, 0) (0, 0) ((0, 0), 0) True (0, 0) None None = Inr (False, s', (w, None)) \<and> \<not> isValid s'"
proof
  fix w
  have "\<exists>b s'. socket_connect False (w, None :: unit io_manager option) (-1) CreateTCPSocket (IPv4 (IPv4Address Little 0x7F000001 80)) 1000
      5 (Some True) (0, 0) (0, 0) ((0, 0), 0) True (0, 0) None None = Inr (b, s', (w, None)) \<and> m_family s' = AF_INET"
    by (auto simp: socket_connect_def ensure_sock_def newSock_def hook_socket_def isValid_def CreateTCPSocket_def Socket_new_def
        getFamily_def IPv4Address_def AF_INET_def connect_with_timeout_def socket_close_def hook_close_def)
  then obtain b s' where s': "socket_connect False (w, None :: unit io_manager option) (-1) CreateTCPSocket
      (IPv4 (IPv4Address Little 0x7F000001 80)) 1000 5 (Some True) (0, 0) (0, 0) ((0, 0), 0) True (0, 0) None None
      = Inr (b, s', (w, None))" and f: "m_family s' = AF_INET" by blast
  have "getFamily (IPv4 (IPv4Address Little 0x7F000001 80)) = m_family s'" by (simp add: f getFamily_def IPv4Address_def)
  with connect_timeout_fails [OF _ s'] s' show "\<exists>s'. socket_connect False (w, None :: unit io_manager option) (-1)
      CreateTCPSocket (IPv4 (IPv4Address Little 0x7F000001 80)) 1000 5 (Some True) (0, 0) (0, 0) ((0, 0), 0) True (0, 0) None None
      = Inr (False, s', (w, None)) \<and> \<not> isValid s'" by simp
qed

lemma int_cast_small: "x < 2 ^ 31 \<Longrightarrow> sint (ucast (x :: u64) :: u32) = uint x"
  by (simp add: signed_ucast_eq word_less_def) (rule signed_take_bit_int_eq_self; simp add: order_trans [of _ 0])

lemma sdiv_cancel: "0 \<le> x \<Longrightarrow> x * 1000 sdiv 1000 = (x :: int)"
  by (simp add: signed_divide_int_def sgn_if)

lemma timeval_exact:
  assumes "v div 1000 < 2 ^ 31"
  shows "word_of_int (fst (timeval_of v) * 1000 + snd (timeval_of v) sdiv 1000) = (v :: u64)"
proof -
  have v: "uint (v mod 1000) = uint v mod 1000" "uint (v div 1000) = uint v div 1000"
    by (simp_all add: uint_mod uint_div)
  have b: "uint (v mod 1000 * 1000) = uint v mod 1000 * 1000"
    unfolding uint_word_ariths v by (simp add: take_bit_int_eq_self)
  then have "v mod 1000 * 1000 < 2 ^ 31" by (simp add: word_less_def)
  then have "fst (timeval_of v) * 1000 + snd (timeval_of v) sdiv 1000 = uint v"
    using assms by (simp add: timeval_of_def int_cast_small b v sdiv_cancel)
  then show ?thesis by simp
qed

text \<open>A receive timeout of a socket whose seconds fit an \<open>int\<close> is read back as it was set, also when the system call
  failed, and leaves the send timeout as it was.\<close>

theorem timeout_read_back:
  assumes "fd_get w (m_sockfd s) = Inr (Some c)" and "v div 1000 < 2 ^ 31"
  shows "\<exists>w'. setRecvTimeout True w s v rc = Inr (rc = 0, w') \<and> getRecvTimeout w' s = Inr (sint v) \<and>
    getSendTimeout w' s = getSendTimeout w s"
proof -
  let ?c = "setTimeout c SO_RCVTIMEO v"
  from assms(1) have fd: "m_sockfd s \<noteq> -1" "m_sockfd s < int (length (m_data w))" "0 \<le> m_sockfd s" "m_data w ! nat (m_sockfd s) = Some c"
    by (auto simp: fd_get_def split: if_splits)
  then have get: "fd_get (set_fd w (m_sockfd s) ?c) (m_sockfd s) = Inr (Some ?c)"
    by (simp add: fd_get_def set_fd_def)
  have "setRecvTimeout True w s v rc = Inr (rc = 0, set_fd w (m_sockfd s) ?c)"
    using assms(1) timeval_exact [OF assms(2)]
    by (simp add: setRecvTimeout_def setOption_def hook_setsockopt_def del: of_int_add of_int_mult)
  moreover have "getRecvTimeout (set_fd w (m_sockfd s) ?c) s = Inr (sint v)"
    "getSendTimeout (set_fd w (m_sockfd s) ?c) s = getSendTimeout w s"
    using get assms(1) by (simp_all add: getRecvTimeout_def getSendTimeout_def get_timeout_def getTimeout_def setTimeout_def
        SO_RCVTIMEO_def SO_SNDTIMEO_def)
  ultimately show ?thesis by blast
qed

text \<open>The peer's address, once known, is never looked up again: a socket that is closed and connected to another peer
  still reports the first.\<close>

theorem remote_address_stale:
  assumes "m_remoteAddress s = Some a" and "socket_close en net s ok r = Inr (b, s1, net1)"
    and "socket_connect en net1 sct s1 addr t fd st r' wait so ok' cr local remote = Inr (b', s2, net2)"
  shows "fst (getRemoteAddress s2 remote) = a"
proof -
  have s1: "m_remoteAddress s1 = Some a" using socket_close_result [OF assms(2)] assms(1) by simp
  have keep: "m_remoteAddress s' = Some a" if "ensure_sock en w s1 fd st = Inr (s', w')" for w s' w'
    using ensure_sock_state [OF that] s1 by auto
  have "m_remoteAddress s2 = Some a"
    using assms(3)
  proof (cases rule: socket_connect_cases)
    case (refused s' w')
    then show ?thesis using keep by simp
  next
    case (closed s' w' c)
    then show ?thesis using socket_close_result [OF closed(1)] keep [OF closed(3)] by simp
  next
    case (connected s' w')
    then show ?thesis using keep [OF connected(1)] by (simp add: getRemoteAddress_def)
  qed
  then show ?thesis by (simp add: getRemoteAddress_def)
qed

theorem timeout_read_back_witness:
  "let c = fst (fd_ctx_new 3 (Some True) 0);
       w = \<lparr>m_data = (replicate 64 None)[3 := Some c], k_flags = \<lambda>_. O_NONBLOCK\<rparr>;
       s = CreateTCPSocket\<lparr>m_sockfd := 3\<rparr> in
   \<exists>w'. setRecvTimeout True w s 5000 0 = Inr (True, w') \<and> getRecvTimeout w' s = Inr (sint (5000 :: u64)) \<and>
     getSendTimeout w' s = Inr (-1)"
proof -
  define c where "c = fst (fd_ctx_new 3 (Some True) 0)"
  define w where "w = \<lparr>m_data = (replicate 64 None)[3 := Some c], k_flags = \<lambda>_ :: int. O_NONBLOCK\<rparr>"
  define s where "s = CreateTCPSocket\<lparr>m_sockfd := 3\<rparr>"
  have g: "fd_get w (m_sockfd s) = Inr (Some c)" by (simp add: fd_get_def w_def s_def)
  have "(5000 :: u64) div 1000 < 2 ^ 31" by simp
  from timeout_read_back [OF g this, of 0] g show ?thesis
    unfolding Let_def c_def [symmetric] w_def [symmetric] s_def [symmetric]
    by (simp add: getSendTimeout_def get_timeout_def getTimeout_def SO_SNDTIMEO_def SO_RCVTIMEO_def c_def fd_ctx_new_def)
qed

theorem remote_address_stale_witness:
  "\<forall>w. let a = IPv4 (IPv4Address Little 0x7F000001 80); b = IPv4 (IPv4Address Little 0x7F000001 81);
     s = CreateTCPSocket\<lparr>m_sockfd := 3, m_isConnected := True, m_remoteAddress := Some a\<rparr> in
   \<exists>s1 s2. socket_close False (w, None :: unit io_manager option) s True (0, 0) = Inr (False, s1, (w, None)) \<and>
     socket_connect False (w, None :: unit io_manager option) (- 1) s1 b (- 1) 4 (Some True) (0, 0) (0, 0) ((0, 0), 0) True (0, 0)
       None (Some b) = Inr (True, s2, (w, None)) \<and> fst (getRemoteAddress s2 (Some b)) = a"
proof
  fix w
  define a where "a = IPv4 (IPv4Address Little 0x7F000001 80)"
  define b where "b = IPv4 (IPv4Address Little 0x7F000001 81)"
  define s where "s = CreateTCPSocket\<lparr>m_sockfd := 3, m_isConnected := True, m_remoteAddress := Some a\<rparr>"
  have r: "m_remoteAddress s = Some a" by (simp add: s_def)
  obtain s1 where c: "socket_close False (w, None :: unit io_manager option) s True (0, 0) = Inr (False, s1, (w, None))"
    and s1: "s1 = s\<lparr>m_sockfd := -1, m_isConnected := False\<rparr>"
    by (simp add: socket_close_def hook_close_def s_def)
  obtain s2 where d: "socket_connect False (w, None :: unit io_manager option) (- 1) s1 b (- 1) 4 (Some True) (0, 0) (0, 0)
      ((0, 0), 0) True (0, 0) None (Some b) = Inr (True, s2, (w, None))"
    by (simp add: socket_connect_def ensure_sock_def newSock_def hook_socket_def isValid_def s1 s_def CreateTCPSocket_def
        Socket_new_def b_def getFamily_def IPv4Address_def AF_INET_def hook_connect_def connect_with_timeout_def)
  from remote_address_stale [OF r c d] c d show "let a = IPv4 (IPv4Address Little 0x7F000001 80); b = IPv4 (IPv4Address Little 0x7F000001 81);
     s = CreateTCPSocket\<lparr>m_sockfd := 3, m_isConnected := True, m_remoteAddress := Some a\<rparr> in
   \<exists>s1 s2. socket_close False (w, None :: unit io_manager option) s True (0, 0) = Inr (False, s1, (w, None)) \<and>
     socket_connect False (w, None :: unit io_manager option) (- 1) s1 b (- 1) 4 (Some True) (0, 0) (0, 0) ((0, 0), 0) True (0, 0)
       None (Some b) = Inr (True, s2, (w, None)) \<and> fst (getRemoteAddress s2 (Some b)) = a"
    unfolding Let_def a_def [symmetric] b_def [symmetric] s_def [symmetric] by blast
qed

end
