(* ===== verification/Tcp_Server.thy ===== *)
theory Tcp_Server
  imports Socket
begin

text \<open>
  \<open>src/tcp_server.cpp\<close>: binding and listening on several addresses, accepting clients and handing them to the worker,
  starting and stopping. The two workers are their task queues; a task names the member function it calls, and each
  queue holds the server's own tasks, also when both are one manager. What the
  kernel answers for each address and each accept is an input, \<open>cl\<close> what it answers when a socket is destroyed.
\<close>

section \<open>The server\<close>

datatype server_task = StartAccept socket | HandleClient socket | CloseAll

record tcp_server =
  m_socks :: "socket list"
  m_ioworker :: "server_task task list"
  m_acceptWorker :: "server_task task list"
  ts_readTimeout :: u64
  ts_name :: string
  m_isStop :: bool

definition TcpServer_new :: "u64 \<Rightarrow> server_task task list \<Rightarrow> server_task task list \<Rightarrow> tcp_server" where
  "TcpServer_new read_timeout q accept_q =
     \<lparr>m_socks = [], m_ioworker = q, m_acceptWorker = accept_q, ts_readTimeout = read_timeout,
      ts_name = ''azure/1.0.0'', m_isStop = True\<rparr>"

definition schedule_cb :: "server_task task list \<Rightarrow> server_task \<Rightarrow> server_task task list" where
  "schedule_cb q cb = snd (scheduleNoLock q \<lparr>ft_fiber = None, ft_cb = Some cb, ft_thread = -1\<rparr>)"

section \<open>Binding\<close>

text \<open>\<open>~Socket\<close>, and the end of all sockets of a vector.\<close>

definition socket_destroy :: "bool \<Rightarrow> (socket \<Rightarrow> bool \<times> outcome) \<Rightarrow> 'cb net \<Rightarrow> socket \<Rightarrow> io_error + 'cb net" where
  "socket_destroy en cl net s = bind_res (socket_close en net s (fst (cl s)) (snd (cl s))) (\<lambda>(_, _, net'). Inr net')"

fun destroy_all :: "bool \<Rightarrow> (socket \<Rightarrow> bool \<times> outcome) \<Rightarrow> 'cb net \<Rightarrow> socket list \<Rightarrow> io_error + 'cb net" where
  "destroy_all en cl net [] = Inr net"
| "destroy_all en cl net (s # ss) = bind_res (socket_destroy en cl net s) (\<lambda>net'. destroy_all en cl net' ss)"

text \<open>The kernel's answers for one address: descriptor, \<open>fstat\<close>, \<open>bind\<close>, \<open>getsockname\<close> and \<open>listen\<close>.\<close>

record bind_answers =
  ba_fd :: int
  ba_st :: "bool option"
  ba_bind :: int
  ba_name :: "address option"
  ba_listen :: int

fun bind_loop :: "bool \<Rightarrow> (socket \<Rightarrow> bool \<times> outcome) \<Rightarrow> 'cb net \<Rightarrow> (address \<times> bind_answers) list \<Rightarrow> socket list \<Rightarrow> address list
    \<Rightarrow> io_error + socket list \<times> address list \<times> 'cb net" where
  "bind_loop en cl net [] socks fails = Inr (socks, fails, net)"
| "bind_loop en cl net ((addr, k) # as) socks fails =
     bind_res (socket_bind en (fst net) (CreateTCP addr) addr (ba_fd k) (ba_st k) (ba_bind k) (ba_name k)) (\<lambda>(bound, sock, w).
       if \<not> bound \<or> \<not> socket_listen sock (ba_listen k)
       then bind_res (socket_destroy en cl (w, snd net) sock) (\<lambda>net'. bind_loop en cl net' as socks (fails @ [addr]))
       else bind_loop en cl (w, snd net) as (socks @ [sock]) fails)"

definition server_bind_all :: "bool \<Rightarrow> (socket \<Rightarrow> bool \<times> outcome) \<Rightarrow> 'cb net \<Rightarrow> tcp_server \<Rightarrow> (address \<times> bind_answers) list
    \<Rightarrow> address list \<Rightarrow> io_error + bool \<times> address list \<times> tcp_server \<times> 'cb net" where
  "server_bind_all en cl net sv addrs fails =
     bind_res (bind_loop en cl net addrs (m_socks sv) fails) (\<lambda>(socks, fails', net').
       if fails' \<noteq> []
       then bind_res (destroy_all en cl net' socks) (\<lambda>net''. Inr (False, fails', sv\<lparr>m_socks := []\<rparr>, net''))
       else Inr (True, fails', sv\<lparr>m_socks := socks\<rparr>, net'))"

definition server_bind :: "bool \<Rightarrow> (socket \<Rightarrow> bool \<times> outcome) \<Rightarrow> 'cb net \<Rightarrow> tcp_server \<Rightarrow> address \<times> bind_answers
    \<Rightarrow> io_error + bool \<times> tcp_server \<times> 'cb net" where
  "server_bind en cl net sv addr =
     bind_res (server_bind_all en cl net sv [addr] []) (\<lambda>(ok, _, sv', net'). Inr (ok, sv', net'))"

section \<open>Accepting\<close>

text \<open>One round of \<open>startAccept\<close>: the flag \<open>m_isStop\<close> it sees, the outcomes of \<open>accept\<close> and of \<open>setsockopt\<close>.\<close>

record accept_round =
  ar_stop :: bool
  ar_os :: "outcome list"
  ar_ws :: "(int \<times> int) list"
  ar_st :: "bool option"
  ar_local :: "address option"
  ar_remote :: "address option"
  ar_rc :: int

text \<open>The loop over the rounds; it ends with the first that sees the flag. \<open>accepted\<close> collects the clients.\<close>

fun accept_loop :: "bool \<Rightarrow> hook_world \<Rightarrow> socket \<Rightarrow> u64 \<Rightarrow> server_task task list \<Rightarrow> accept_round list
    \<Rightarrow> io_error + (server_task task list \<times> hook_world) option" where
  "accept_loop en w sock timeout q [] = Inr None"
| "accept_loop en w sock timeout q (a # as) =
     (if ar_stop a then Inr (Some (q, w))
      else bind_res (socket_accept en w sock (ar_os a) (ar_ws a) (ar_st a) (ar_local a) (ar_remote a)) (\<lambda>(r, w1).
        case r of
          None \<Rightarrow> Inr None
        | Some None \<Rightarrow> accept_loop en w1 sock timeout q as
        | Some (Some client) \<Rightarrow>
            bind_res (setRecvTimeout en w1 client timeout (ar_rc a)) (\<lambda>(_, w2).
              accept_loop en w2 sock timeout (schedule_cb q (HandleClient client)) as)))"

definition startAccept :: "bool \<Rightarrow> hook_world \<Rightarrow> tcp_server \<Rightarrow> socket \<Rightarrow> accept_round list
    \<Rightarrow> io_error + (tcp_server \<times> hook_world) option" where
  "startAccept en w sv sock rounds =
     bind_res (accept_loop en w sock (ts_readTimeout sv) (m_ioworker sv) rounds) (\<lambda>r.
       Inr (map_option (\<lambda>(q, w'). (sv\<lparr>m_ioworker := q\<rparr>, w')) r))"

definition server_start :: "tcp_server \<Rightarrow> bool \<times> tcp_server" where
  "server_start sv =
     (if \<not> m_isStop sv then (True, sv)
      else (True, sv\<lparr>m_isStop := False, m_acceptWorker := foldl (\<lambda>q s. schedule_cb q (StartAccept s)) (m_acceptWorker sv) (m_socks sv)\<rparr>))"

definition server_stop :: "tcp_server \<Rightarrow> tcp_server" where
  "server_stop sv = sv\<lparr>m_isStop := True, m_acceptWorker := schedule_cb (m_acceptWorker sv) CloseAll\<rparr>"

text \<open>The callback of \<open>stop\<close>, on a thread with the I/O manager \<open>m\<close>; \<open>ok\<close> is the success of \<open>epoll_ctl\<close> for a socket.\<close>

fun close_socks :: "bool \<Rightarrow> (socket \<Rightarrow> bool \<times> outcome) \<Rightarrow> (socket \<Rightarrow> bool) \<Rightarrow> hook_world \<times> 'cb io_manager \<Rightarrow> socket list
    \<Rightarrow> io_error + hook_world \<times> 'cb io_manager" where
  "close_socks en cl ok wm [] = Inr wm"
| "close_socks en cl ok wm (s # ss) =
     bind_res (socket_cancelAll (snd wm) s (ok s)) (\<lambda>(_, m1).
       bind_res (socket_close en (fst wm, Some m1) s (fst (cl s)) (snd (cl s))) (\<lambda>(_, _, (w2, iom)).
         close_socks en cl ok (w2, case iom of Some m2 \<Rightarrow> m2 | None \<Rightarrow> m1) ss))"

definition close_all :: "bool \<Rightarrow> (socket \<Rightarrow> bool \<times> outcome) \<Rightarrow> (socket \<Rightarrow> bool) \<Rightarrow> hook_world \<times> 'cb io_manager \<Rightarrow> tcp_server
    \<Rightarrow> io_error + tcp_server \<times> hook_world \<times> 'cb io_manager" where
  "close_all en cl ok wm sv = bind_res (close_socks en cl ok wm (m_socks sv)) (\<lambda>wm'. Inr (sv\<lparr>m_socks := []\<rparr>, wm'))"

section \<open>Facts\<close>

definition callback_task :: "server_task \<Rightarrow> server_task task" where
  "callback_task cb = \<lparr>ft_fiber = None, ft_cb = Some cb, ft_thread = -1\<rparr>"

lemma schedule_cb_append [simp]: "schedule_cb q cb = q @ [callback_task cb]"
  by (simp add: schedule_cb_def scheduleNoLock_def callback_task_def)

lemma schedule_all: "foldl (\<lambda>q s. schedule_cb q (f s)) q ss = q @ map (\<lambda>s. callback_task (f s)) ss"
  by (induction ss arbitrary: q) simp_all

text \<open>A socket the server may listen on.\<close>

definition listens_on :: "address \<Rightarrow> socket \<Rightarrow> bool" where
  "listens_on a s \<longleftrightarrow> isValid s \<and> m_family s = getFamily a \<and> m_type s = SOCK_STREAM"

lemma socket_bind_result:
  assumes "socket_bind en w (CreateTCP addr) addr fd st rc local = Inr (b, s, w')"
  shows "m_family s = getFamily addr \<and> m_type s = SOCK_STREAM"
proof -
  obtain s1 w1 where "ensure_sock en w (CreateTCP addr) fd st = Inr (s1, w1)" "s = s1 \<or> s = snd (getLocalAddress s1 local)"
    using assms by (auto simp: socket_bind_def bind_res_def split: sum.splits if_splits prod.splits)
  then show ?thesis
    by (auto dest!: ensure_sock_state simp: CreateTCP_def Socket_new_def getLocalAddress_def split: option.split)
qed

lemma schedule_all_started: "foldl (\<lambda>q s. schedule_cb q (StartAccept s)) q ss = q @ map (callback_task \<circ> StartAccept) ss"
  by (simp only: schedule_all comp_def)

lemma bind_loop_result:
  "bind_loop en cl net as socks fails = Inr (socks', fails', net') \<Longrightarrow>
   \<exists>failed new. fails' = fails @ failed \<and> socks' = socks @ new \<and> length failed + length new = length as \<and>
     set failed \<subseteq> fst ` set as \<and> (failed = [] \<longrightarrow> list_all2 (\<lambda>a s. listens_on (fst a) s) as new)"
proof (induction en cl net as socks fails rule: bind_loop.induct)
  case (2 en cl net addr k as socks fails)
  obtain bound sock w where b: "socket_bind en (fst net) (CreateTCP addr) addr (ba_fd k) (ba_st k) (ba_bind k) (ba_name k)
      = Inr (bound, sock, w)"
    using 2(3) by (auto simp: bind_res_def split: sum.splits)
  show ?case
  proof (cases "\<not> bound \<or> \<not> socket_listen sock (ba_listen k)")
    case True
    then obtain net1 where "socket_destroy en cl (w, snd net) sock = Inr net1"
      and "bind_loop en cl net1 as socks (fails @ [addr]) = Inr (socks', fails', net')"
      using 2(3) b by (auto simp: bind_res_def split: sum.splits)
    from 2(1) [OF True this(2)] obtain failed new where
      "fails' = (fails @ [addr]) @ failed" "socks' = socks @ new" "length failed + length new = length as" "set failed \<subseteq> fst ` set as"
      by blast
    then show ?thesis by (intro exI [of _ "addr # failed"] exI [of _ new]) auto
  next
    case False
    then have "bind_loop en cl (w, snd net) as (socks @ [sock]) fails = Inr (socks', fails', net')" using 2(3) b by simp
    from 2(2) [OF False this] obtain failed new where
      "fails' = fails @ failed" "socks' = (socks @ [sock]) @ new" "length failed + length new = length as" "set failed \<subseteq> fst ` set as"
      "failed = [] \<longrightarrow> list_all2 (\<lambda>a s. listens_on (fst a) s) as new" by blast
    moreover have "listens_on addr sock"
      using False socket_bind_result [OF b] by (simp add: listens_on_def socket_listen_def)
    ultimately show ?thesis by (intro exI [of _ failed] exI [of _ "sock # new"]) auto
  qed
qed simp

text \<open>The clients the rounds accept, in order.\<close>

fun accepted :: "bool \<Rightarrow> hook_world \<Rightarrow> socket \<Rightarrow> u64 \<Rightarrow> accept_round list \<Rightarrow> socket list" where
  "accepted en w sock timeout [] = []"
| "accepted en w sock timeout (a # as) =
     (if ar_stop a then []
      else case socket_accept en w sock (ar_os a) (ar_ws a) (ar_st a) (ar_local a) (ar_remote a) of
        Inr (Some None, w1) \<Rightarrow> accepted en w1 sock timeout as
      | Inr (Some (Some client), w1) \<Rightarrow> (case setRecvTimeout en w1 client timeout (ar_rc a) of
            Inr (_, w2) \<Rightarrow> client # accepted en w2 sock timeout as
          | Inl _ \<Rightarrow> [client])
      | _ \<Rightarrow> [])"

lemma accept_loop_accepted:
  "accept_loop en w sock timeout q rounds = Inr (Some (q', w')) \<Longrightarrow>
   q' = q @ map (callback_task \<circ> HandleClient) (accepted en w sock timeout rounds) \<and>
   list_all (\<lambda>c. m_isConnected c \<and> isValid c) (accepted en w sock timeout rounds)"
proof (induction rounds arbitrary: w q)
  case (Cons a rounds)
  show ?case
  proof (cases "ar_stop a")
    case False
    obtain r w1 where acc: "socket_accept en w sock (ar_os a) (ar_ws a) (ar_st a) (ar_local a) (ar_remote a) = Inr (r, w1)"
      using Cons.prems False by (auto simp: bind_res_def split: sum.splits)
    then obtain c where r: "r = Some c" using Cons.prems False by (cases r) auto
    show ?thesis
    proof (cases c)
      case None
      then show ?thesis using Cons False acc r by simp
    next
      case (Some client)
      obtain b w2 where t: "setRecvTimeout en w1 client timeout (ar_rc a) = Inr (b, w2)"
        using Cons.prems False acc r Some by (auto simp: bind_res_def split: sum.splits)
      from Cons.prems False acc r Some t
      have "accept_loop en w2 sock timeout (q @ [callback_task (HandleClient client)]) rounds = Inr (Some (q', w'))" by simp
      from Cons.IH [OF this] have IH: "q' = q @ callback_task (HandleClient client) # map (callback_task \<circ> HandleClient) (accepted en w2 sock timeout rounds)"
        "list_all (\<lambda>c. m_isConnected c \<and> isValid c) (accepted en w2 sock timeout rounds)" by simp_all
      have "m_isConnected client"
        using acc r Some
        by (auto simp: socket_accept_def socket_init_def Let_def bind_res_def split: sum.splits prod.splits option.splits if_splits)
      moreover from socket_accept_inv [OF acc [unfolded r Some]] this have "isValid client" by (simp add: socket_inv_def)
      ultimately show ?thesis using IH False acc r Some t by simp
    qed
  qed (use Cons.prems in simp)
qed simp

lemma server_bind_all_result:
  assumes "server_bind_all en cl net sv addrs [] = Inr (ok, fails, sv', net')"
  shows "(if ok then fails = [] \<and> (\<exists>new. m_socks sv' = m_socks sv @ new \<and> list_all2 (\<lambda>a s. listens_on (fst a) s) addrs new)
      else fails \<noteq> [] \<and> set fails \<subseteq> fst ` set addrs \<and> m_socks sv' = []) \<and>
    m_isStop sv' = m_isStop sv \<and> m_ioworker sv' = m_ioworker sv \<and> m_acceptWorker sv' = m_acceptWorker sv"
proof -
  obtain socks fails1 net1 where l: "bind_loop en cl net addrs (m_socks sv) [] = Inr (socks, fails1, net1)"
    using assms by (auto simp: server_bind_all_def bind_res_def split: sum.splits)
  show ?thesis
  proof (cases "fails1 = []")
    case True
    then show ?thesis using assms l bind_loop_result [OF l] by (auto simp: server_bind_all_def)
  next
    case False
    then show ?thesis using assms l bind_loop_result [OF l]
      by (auto simp: server_bind_all_def bind_res_def split: sum.splits)
  qed
qed

section \<open>Properties\<close>


text \<open>C14. While the server runs, each accepted client is connected and is handed to the worker exactly once, in the order of
  the accepts, and nothing else is; failed accepts are passed over, and the loop ends with the round that sees the stop
  flag. Starting queues one accept loop for each socket and does nothing on a server that runs.\<close>

theorem clients_handed_over:
  assumes "startAccept en w sv sock rounds = Inr (Some (sv', w'))"
  shows "m_ioworker sv' = m_ioworker sv @
      map (callback_task \<circ> HandleClient) (accepted en w sock (ts_readTimeout sv) rounds) \<and>
    list_all (\<lambda>c. m_isConnected c \<and> isValid c) (accepted en w sock (ts_readTimeout sv) rounds) \<and>
    m_acceptWorker (snd (server_start sv)) = m_acceptWorker sv @
      (if m_isStop sv then map (callback_task \<circ> StartAccept) (m_socks sv) else [])"
  using assms accept_loop_accepted [of en w sock "ts_readTimeout sv" "m_ioworker sv" rounds]
  by (auto simp: startAccept_def server_start_def schedule_all comp_def bind_res_def split: sum.splits simp del: schedule_cb_append)


theorem clients_handed_over_witness:
  "let c = fst (fd_ctx_new 7 (Some True) 0);
       w = \<lparr>m_data = (replicate 64 None)[7 := Some c], k_flags = \<lambda>_. O_NONBLOCK\<rparr>;
       sv = (TcpServer_new 1000 [] [])\<lparr>m_isStop := False\<rparr>; s = CreateTCPSocket\<lparr>m_sockfd := 5\<rparr>;
       go = \<lparr>ar_stop = False, ar_os = [(7, 0)], ar_ws = [], ar_st = Some True, ar_local = None, ar_remote = None, ar_rc = 0\<rparr> in
   \<exists>client sv' w'. startAccept False w sv s [go, go\<lparr>ar_stop := True\<rparr>] = Inr (Some (sv', w')) \<and>
     m_ioworker sv' = [callback_task (HandleClient client)] \<and> m_sockfd client = 7 \<and> m_isConnected client"
proof -
  define c where "c = fst (fd_ctx_new 7 (Some True) 0)"
  define w where "w = \<lparr>m_data = (replicate 64 None)[7 := Some c], k_flags = \<lambda>_ :: int. O_NONBLOCK\<rparr>"
  define sv where "sv = (TcpServer_new 1000 [] [])\<lparr>m_isStop := False\<rparr>"
  define s where "s = CreateTCPSocket\<lparr>m_sockfd := 5\<rparr>"
  define go where "go = \<lparr>ar_stop = False, ar_os = [(7, 0)], ar_ws = [], ar_st = Some True, ar_local = None, ar_remote = None, ar_rc = 0\<rparr>"
  define client where "client = (Socket_new AF_INET SOCK_STREAM 0)\<lparr>m_sockfd := 7, m_isConnected := True\<rparr>"
  have c: "m_isSocket c" "\<not> m_isClosed c" by (simp_all add: c_def fd_ctx_new_def)
  have acc: "socket_accept False w s [(7, 0)] [] (Some True) None None = Inr (Some (Some client), w)"
    using c by (simp add: socket_accept_def hook_accept_def do_io_def fd_get_create_def w_def s_def socket_init_def fd_get_def
        getLocalAddress_def getRemoteAddress_def CreateTCPSocket_def Socket_new_def client_def)
  have t: "setRecvTimeout False w client 1000 0 = Inr (True, w)"
    by (simp add: setRecvTimeout_def setOption_def hook_setsockopt_def)
  have a: "accepted False w s 1000 [go, go\<lparr>ar_stop := True\<rparr>] = [client]" using acc t by (simp add: go_def)
  obtain sv' w' where r: "startAccept False w sv s [go, go\<lparr>ar_stop := True\<rparr>] = Inr (Some (sv', w'))"
    using acc t by (auto simp: startAccept_def sv_def go_def TcpServer_new_def)
  from clients_handed_over [OF r] a have "m_ioworker sv' = [callback_task (HandleClient client)]"
    by (simp add: sv_def TcpServer_new_def)
  with r show ?thesis
    unfolding Let_def c_def [symmetric] w_def [symmetric] sv_def [symmetric] s_def [symmetric] go_def [symmetric]
    by (intro exI [of _ client] exI [of _ sv'] exI [of _ w'] conjI) (simp_all add: client_def)
qed

end
