(* ===== verification/Env.thy ===== *)
theory Env
  imports C_String
begin

text \<open>
  \<open>src/env.cpp\<close>: the command line, the help texts and the paths of the program. The arguments are C strings; \<open>exe\<close> is
  what \<open>readlink\<close> leaves in the zeroed buffer, the empty string when it fails.
\<close>

section \<open>The environment\<close>

record env =
  m_args :: "(string \<times> string) list"
  m_helps :: "(string \<times> string) list"
  m_program :: string
  m_exe :: string
  m_cwd :: string

definition Env_add :: "env \<Rightarrow> string \<Rightarrow> string \<Rightarrow> env" where
  "Env_add e key val = e\<lparr>m_args := omap_put string_less key val (m_args e)\<rparr>"

definition Env_has :: "env \<Rightarrow> string \<Rightarrow> bool" where
  "Env_has e key \<longleftrightarrow> omap_get string_less key (m_args e) \<noteq> None"

definition Env_del :: "env \<Rightarrow> string \<Rightarrow> env" where
  "Env_del e key = e\<lparr>m_args := omap_del string_less key (m_args e)\<rparr>"

definition Env_get :: "env \<Rightarrow> string \<Rightarrow> string \<Rightarrow> string" where
  "Env_get e key default_value = (case omap_get string_less key (m_args e) of Some v \<Rightarrow> v | None \<Rightarrow> default_value)"

section \<open>The command line\<close>

text \<open>\<open>find_last_of\<close>; \<open>npos + 1\<close> is 0.\<close>

fun find_last_of :: "char \<Rightarrow> string \<Rightarrow> nat option" where
  "find_last_of c [] = None"
| "find_last_of c (x # s) =
     (case find_last_of c s of Some i \<Rightarrow> Some (Suc i) | None \<Rightarrow> if x = c then Some 0 else None)"

text \<open>The loop over the arguments, with \<open>now_key\<close>.\<close>

definition flush_key :: "env \<Rightarrow> string option \<Rightarrow> env" where
  "flush_key e now_key = (case now_key of None \<Rightarrow> e | Some k \<Rightarrow> Env_add e k [])"

fun init_loop :: "env \<Rightarrow> string option \<Rightarrow> string list \<Rightarrow> bool \<times> env" where
  "init_loop e now_key [] = (True, flush_key e now_key)"
| "init_loop e now_key (a # as) =
     (if a \<noteq> [] \<and> hd a = CHR ''-'' then
        if length a > 1 then init_loop (flush_key e now_key) (Some (tl a)) as else (False, e)
      else case now_key of
        Some k \<Rightarrow> init_loop (Env_add e k a) None as
      | None \<Rightarrow> (False, e))"

text \<open>\<open>init\<close>; without \<open>argv[0]\<close> the program's name is built from a null pointer.\<close>

definition Env_init :: "string \<Rightarrow> string list \<Rightarrow> env \<Rightarrow> (bool \<times> env) option" where
  "Env_init exe argv e =
     (case argv of
        [] \<Rightarrow> None
      | program # args \<Rightarrow>
          let cwd = take (case find_last_of CHR ''/'' exe of Some pos \<Rightarrow> pos + 1 | None \<Rightarrow> 0) exe
          in Some (init_loop (e\<lparr>m_exe := exe, m_cwd := cwd, m_program := program\<rparr>) None args))"

section \<open>Help, variables and paths\<close>

definition removeHelp :: "env \<Rightarrow> string \<Rightarrow> env" where
  "removeHelp e key = e\<lparr>m_helps := filter (\<lambda>h. fst h \<noteq> key) (m_helps e)\<rparr>"

definition addHelp :: "env \<Rightarrow> string \<Rightarrow> string \<Rightarrow> env" where
  "addHelp e key desc = (let e' = removeHelp e key in e'\<lparr>m_helps := m_helps e' @ [(key, desc)]\<rparr>)"

text \<open>\<open>endl\<close> is a newline, \<open>setw (5)\<close> pads the dash on the left.\<close>

definition printHelp :: "env \<Rightarrow> string" where
  "printHelp e = ''Usage: '' @ m_program e @ '' [options]'' @ [CHR 0x0A] @
     concat (map (\<lambda>h. ''    -'' @ fst h @ '' : '' @ snd h @ [CHR 0x0A]) (m_helps e))"

text \<open>The process environment as \<open>setenv\<close> and \<open>getenv\<close> see it; \<open>setenv\<close> refuses an empty name and one with \<open>=\<close>.\<close>

definition Env_setEnv :: "(string \<Rightarrow> string option) \<Rightarrow> string \<Rightarrow> string \<Rightarrow> bool \<times> (string \<Rightarrow> string option)" where
  "Env_setEnv pe key val =
     (if cstr key = [] \<or> CHR ''='' \<in> set (cstr key) then (False, pe) else (True, pe(cstr key \<mapsto> cstr val)))"

definition Env_getEnv :: "(string \<Rightarrow> string option) \<Rightarrow> string \<Rightarrow> string \<Rightarrow> string" where
  "Env_getEnv pe key default_value = (case pe (cstr key) of None \<Rightarrow> default_value | Some v \<Rightarrow> v)"

definition getAbsolutePath :: "env \<Rightarrow> string \<Rightarrow> string" where
  "getAbsolutePath e path =
     (if path = [] then ''/'' else if hd path = CHR ''/'' then path else m_cwd e @ path)"

section \<open>Facts\<close>

lemma get_put_args: "omap_get string_less j (omap_put string_less k v m) = (if j = k then Some v else omap_get string_less j m)"
  by (simp add: str_ord.omap_get_put)

text \<open>An option with its value, and its arguments on the command line.\<close>

definition legal_option :: "string \<times> string option \<Rightarrow> bool" where
  "legal_option p \<longleftrightarrow> fst p \<noteq> [] \<and> (case snd p of None \<Rightarrow> True | Some v \<Rightarrow> v = [] \<or> hd v \<noteq> CHR ''-'')"

definition option_args :: "string \<times> string option \<Rightarrow> string list" where
  "option_args p = (CHR ''-'' # fst p) # (case snd p of None \<Rightarrow> [] | Some v \<Rightarrow> [v])"

definition option_value :: "string \<times> string option \<Rightarrow> string" where
  "option_value p = (case snd p of None \<Rightarrow> [] | Some v \<Rightarrow> v)"

definition put_options :: "env \<Rightarrow> (string \<times> string option) list \<Rightarrow> env" where
  "put_options e opts = foldl (\<lambda>e p. Env_add e (fst p) (option_value p)) e opts"

lemma option_simps [simp]:
  "option_args (k, None) = [CHR ''-'' # k]" "option_args (k, Some v) = [CHR ''-'' # k, v]"
  "legal_option (k, None) \<longleftrightarrow> k \<noteq> []" "legal_option (k, Some v) \<longleftrightarrow> k \<noteq> [] \<and> (v = [] \<or> hd v \<noteq> CHR ''-'')"
  by (simp_all add: option_args_def legal_option_def)

lemma put_options_simps [simp]:
  "put_options e [] = e" "put_options e (p # opts) = put_options (Env_add e (fst p) (option_value p)) opts"
  by (simp_all add: put_options_def)

lemma init_loop_pending:
  "init_loop e (Some k) as = (case as of
      a # as' \<Rightarrow> if a = [] \<or> hd a \<noteq> CHR ''-'' then init_loop (Env_add e k a) None as'
                else (if length a > 1 then init_loop (Env_add e k []) (Some (tl a)) as' else (False, e))
    | [] \<Rightarrow> (True, Env_add e k []))"
  by (cases as) (auto simp: flush_key_def)

lemma init_loop_option:
  assumes "legal_option p"
  shows "init_loop e None (option_args p @ as) =
    (case snd p of None \<Rightarrow> init_loop e (Some (fst p)) as | Some v \<Rightarrow> init_loop (Env_add e (fst p) v) None as)"
  using assms by (auto simp: legal_option_def option_args_def flush_key_def split: option.split)

lemma init_loop_options:
  "list_all legal_option opts \<Longrightarrow> init_loop e None (concat (map option_args opts)) = (True, put_options e opts)"
proof (induction opts arbitrary: e)
  case (Cons p opts)
  show ?case
  proof (cases "snd p")
    case None
    have "init_loop e (Some (fst p)) (concat (map option_args opts))
        = init_loop (Env_add e (fst p) []) None (concat (map option_args opts))"
      using Cons.prems
      by (cases opts) (auto simp: init_loop_pending option_args_def legal_option_def flush_key_def)
    then show ?thesis using Cons None by (simp add: init_loop_option option_value_def)
  next
    case (Some v)
    then show ?thesis using Cons by (simp add: init_loop_option option_value_def)
  qed
qed (simp add: flush_key_def)

lemma init_loop_accepts:
  "fst (init_loop e None as) \<Longrightarrow> \<exists>opts. list_all legal_option opts \<and> as = concat (map option_args opts)"
  "fst (init_loop e (Some k) as) \<Longrightarrow> k \<noteq> [] \<Longrightarrow>
     \<exists>opts. list_all legal_option opts \<and> (CHR ''-'' # k) # as = concat (map option_args opts)"
proof (induction as arbitrary: e k)
  case Nil
  case 1
  show ?case by (rule exI [of _ "[]"]) simp
next
  case Nil
  case 2
  then show ?case by (intro exI [of _ "[(k, None)]"]) simp
next
  case (Cons a as)
  case 1
  then have a: "a \<noteq> []" "hd a = CHR ''-''" "tl a \<noteq> []" and "fst (init_loop e (Some (tl a)) as)"
    by (auto simp: flush_key_def split: if_splits) (cases a; auto)
  from Cons.IH(2) [OF this(4) this(3)] a show ?case by (cases a) simp_all
next
  case (Cons a as)
  case 2
  show ?case
  proof (cases "a \<noteq> [] \<and> hd a = CHR ''-''")
    case True
    then have a: "a = CHR ''-'' # tl a" "tl a \<noteq> []" and "fst (init_loop (Env_add e k []) (Some (tl a)) as)"
      using 2 by (auto simp: flush_key_def split: if_splits) (cases a; auto)+
    from Cons.IH(2) [OF this(3) this(2)] obtain opts
      where "list_all legal_option opts" "(CHR ''-'' # tl a) # as = concat (map option_args opts)" by blast
    with a(1) 2(2) show ?thesis
      by (intro exI [of _ "(k, None) # opts"]) simp
  next
    case False
    then have "fst (init_loop (Env_add e k a) None as)" using 2 by (auto split: if_splits)
    from Cons.IH(1) [OF this] obtain opts where "list_all legal_option opts" "as = concat (map option_args opts)" by blast
    with False 2(2) show ?thesis
      by (intro exI [of _ "(k, Some a) # opts"]) auto
  qed
qed

lemma Env_add_get: "Env_get (Env_add e k v) j d = (if j = k then v else Env_get e j d)"
  by (simp add: Env_get_def Env_add_def get_put_args)

lemma put_options_get:
  "Env_get (put_options e opts) k d =
    (case map_of (rev opts) k of None \<Rightarrow> Env_get e k d | Some v \<Rightarrow> option_value (k, v))"
proof (induction opts arbitrary: e)
  case (Cons p opts)
  then show ?case
    by (cases p) (auto simp: Env_add_get option_value_def map_add_def split: option.split)
qed simp

lemma put_options_rest [simp]:
  "m_program (put_options e opts) = m_program e" "m_exe (put_options e opts) = m_exe e"
  "m_helps (put_options e opts) = m_helps e"
  by (induction opts arbitrary: e) (simp_all add: Env_add_def)

text \<open>C33. A command line is accepted exactly when it is a sequence of options, each a dash and a name, with or without
  a value that does not begin with a dash; then every name has the value of its last option, the empty one when the
  option has none, and a name that is not given keeps what it had.\<close>

theorem args_parsed:
  "case Env_init exe (prog # args) e of None \<Rightarrow> False | Some (ok, e') \<Rightarrow>
     (ok \<longleftrightarrow> (\<exists>opts. list_all legal_option opts \<and> args = concat (map option_args opts))) \<and>
     (\<forall>opts k d. list_all legal_option opts \<and> args = concat (map option_args opts) \<longrightarrow>
        m_program e' = prog \<and> m_exe e' = exe \<and> m_helps e' = m_helps e \<and>
        Env_get e' k d = (case map_of (rev opts) k of None \<Rightarrow> Env_get e k d | Some v \<Rightarrow> option_value (k, v)))"
proof -
  define cwd where "cwd = take (case find_last_of CHR ''/'' exe of Some pos \<Rightarrow> pos + 1 | None \<Rightarrow> 0) exe"
  define e0 where "e0 = e\<lparr>m_exe := exe, m_cwd := cwd, m_program := prog\<rparr>"
  obtain ok e' where r: "init_loop e0 None args = (ok, e')" by (cases "init_loop e0 None args")
  have init: "Env_init exe (prog # args) e = Some (ok, e')"
    by (simp add: Env_init_def e0_def cwd_def r [unfolded e0_def cwd_def])
  have ok: "ok \<longleftrightarrow> (\<exists>opts. list_all legal_option opts \<and> args = concat (map option_args opts))"
    using init_loop_accepts(1) [of e0 args] init_loop_options [of _ e0] r by (metis fst_conv)
  have "m_program e' = prog \<and> m_exe e' = exe \<and> m_helps e' = m_helps e \<and>
        Env_get e' k d = (case map_of (rev opts) k of None \<Rightarrow> Env_get e k d | Some v \<Rightarrow> option_value (k, v))"
    if o: "list_all legal_option opts" "args = concat (map option_args opts)" for opts k d
  proof -
    have e': "e' = put_options e0 opts" using init_loop_options [OF o(1), of e0] r o(2) by simp
    have "Env_get e0 k d = Env_get e k d" by (simp add: Env_get_def e0_def)
    then have "Env_get e' k d = (case map_of (rev opts) k of None \<Rightarrow> Env_get e k d | Some v \<Rightarrow> option_value (k, v))"
      unfolding e' put_options_get by (simp split: option.split)
    then show ?thesis by (simp add: e') (simp add: e0_def)
  qed
  with ok show ?thesis unfolding init option.case prod.case by blast
qed

theorem args_parsed_witness:
  "let e = \<lparr>m_args = [], m_helps = [], m_program = [], m_exe = [], m_cwd = []\<rparr> in
   case Env_init ''/bin/server'' [''server'', ''-d'', ''-c'', ''conf''] e of None \<Rightarrow> False | Some (ok, e') \<Rightarrow>
     ok \<and> Env_get e' ''c'' ''cfg'' = ''conf'' \<and> Env_get e' ''d'' ''none'' = [] \<and> Env_get e' ''p'' ''none'' = ''none''"
proof -
  define e where "e = \<lparr>m_args = [], m_helps = [], m_program = [], m_exe = [], m_cwd = []\<rparr>"
  define opts where "opts = [(''d'', None), (''c'', Some ''conf'')]"
  have o: "list_all legal_option opts" "[''-d'', ''-c'', ''conf''] = concat (map option_args opts)"
    by (simp_all add: opts_def)
  obtain ok e' where i: "Env_init ''/bin/server'' (''server'' # [''-d'', ''-c'', ''conf'']) e = Some (ok, e')"
    by (cases "init_loop (e\<lparr>m_exe := ''/bin/server'', m_cwd := ''/bin/'', m_program := ''server''\<rparr>) None [''-d'', ''-c'', ''conf'']")
      (simp add: Env_init_def)
  note p = args_parsed [where exe = "''/bin/server''" and prog = "''server''" and args = "[''-d'', ''-c'', ''conf'']" and e = e, unfolded i, simplified option.case prod.case]
  have "Env_get e k d = d" for k d by (simp add: Env_get_def e_def)
  moreover have ok using p [THEN conjunct1, THEN iffD2, OF exI, OF conjI, OF o] .
  moreover note p [THEN conjunct2, rule_format, OF conjI, OF o]
  ultimately have "ok \<and> Env_get e' ''c'' ''cfg'' = ''conf'' \<and> Env_get e' ''d'' ''none'' = [] \<and> Env_get e' ''p'' ''none'' = ''none''"
    by (simp add: opts_def option_value_def)
  with i show ?thesis by (simp flip: e_def)
qed

end
