(* ===== verification/Config.thy ===== *)
theory Config
  imports Yaml
begin

text \<open>
  \<open>include/config.h\<close> and \<open>src/config.cpp\<close>: configuration variables with their listeners, the table of variables and the
  loading of YAML. The variables have different types; \<open>'v\<close> is the union of their values and \<open>ct_name\<close> names the type
  of a variable. \<open>'s\<close> is the state of the program outside the configuration, which the listeners change; a listener
  returns the new state and whether it threw. What the loading of a file gives is an input.
\<close>

section \<open>Variables\<close>

type_synonym ('v, 's) listener = "'v \<Rightarrow> 'v \<Rightarrow> 's \<Rightarrow> 's \<times> bool"

text \<open>The template arguments: the type with its conversions from and to a string, which may throw.\<close>

record 'v config_type =
  ct_name :: string
  ct_from :: "string \<Rightarrow> 'v option"
  ct_to :: "'v \<Rightarrow> string option"

record ('v, 's) config_var =
  cv_name :: string
  cv_description :: string
  cv_type :: "'v config_type"
  cv_val :: 'v
  cv_cbs :: "(nat \<times> ('v, 's) listener) list"

text \<open>\<open>::tolower\<close>.\<close>

definition lower_char :: "char \<Rightarrow> char" where
  "lower_char c = char_of (tolower c)"

definition lower_string :: "string \<Rightarrow> string" where
  "lower_string s = map lower_char s"

definition ConfigVar_new :: "string \<Rightarrow> string \<Rightarrow> 'v config_type \<Rightarrow> 'v \<Rightarrow> ('v, 's) config_var" where
  "ConfigVar_new name description t default_value =
     \<lparr>cv_name = lower_string name, cv_description = description, cv_type = t, cv_val = default_value, cv_cbs = []\<rparr>"

definition ConfigVar_toString :: "('v, 's) config_var \<Rightarrow> string" where
  "ConfigVar_toString cv = (case ct_to (cv_type cv) (cv_val cv) of Some s \<Rightarrow> s | None \<Rightarrow> [])"

fun run_listeners :: "(nat \<times> ('v, 's) listener) list \<Rightarrow> 'v \<Rightarrow> 'v \<Rightarrow> 's \<Rightarrow> 's \<times> bool" where
  "run_listeners [] old new s = (s, False)"
| "run_listeners ((k, cb) # cbs) old new s =
     (case cb old new s of (s', threw) \<Rightarrow> if threw then (s', True) else run_listeners cbs old new s')"

text \<open>\<open>setValue\<close>: the flag is the exception of a listener, after which the value is not stored.\<close>

definition setValue :: "('v, 's) config_var \<Rightarrow> 'v \<Rightarrow> 's \<Rightarrow> ('v, 's) config_var \<times> 's \<times> bool" where
  "setValue cv v s =
     (if v = cv_val cv then (cv, s, False)
      else (case run_listeners (cv_cbs cv) (cv_val cv) v s of
              (s', threw) \<Rightarrow> if threw then (cv, s', True) else (cv\<lparr>cv_val := v\<rparr>, s', False)))"

text \<open>\<open>fromString\<close> catches what the conversion or a listener throws; it returns \<open>false\<close> in every case.\<close>

definition ConfigVar_fromString :: "('v, 's) config_var \<Rightarrow> string \<Rightarrow> 's \<Rightarrow> ('v, 's) config_var \<times> 's \<times> bool" where
  "ConfigVar_fromString cv val s =
     (case ct_from (cv_type cv) val of
        None \<Rightarrow> (cv, s, False)
      | Some v \<Rightarrow> (case setValue cv v s of (cv', s', threw) \<Rightarrow> (cv', s', False)))"

definition getTypeName :: "('v, 's) config_var \<Rightarrow> string" where
  "getTypeName cv = ct_name (cv_type cv)"

text \<open>The listeners are keyed by a counter of the type's that is never reused.\<close>

definition addListener :: "nat \<Rightarrow> ('v, 's) config_var \<Rightarrow> ('v, 's) listener \<Rightarrow> nat \<times> ('v, 's) config_var" where
  "addListener s_fun_id cv cb = (s_fun_id + 1, cv\<lparr>cv_cbs := omap_put (<) (s_fun_id + 1) cb (cv_cbs cv)\<rparr>)"

definition delListener :: "('v, 's) config_var \<Rightarrow> nat \<Rightarrow> ('v, 's) config_var" where
  "delListener cv key = cv\<lparr>cv_cbs := omap_del (<) key (cv_cbs cv)\<rparr>"

definition getListener :: "('v, 's) config_var \<Rightarrow> nat \<Rightarrow> ('v, 's) listener option" where
  "getListener cv key = omap_get (<) key (cv_cbs cv)"

definition clearListener :: "('v, 's) config_var \<Rightarrow> ('v, 's) config_var" where
  "clearListener cv = cv\<lparr>cv_cbs := []\<rparr>"

section \<open>The table\<close>

type_synonym ('v, 's) config = "(string \<times> ('v, 's) config_var) list"

definition LookupBase :: "('v, 's) config \<Rightarrow> string \<Rightarrow> ('v, 's) config_var option" where
  "LookupBase data name = omap_get string_less name data"

definition valid_chars :: string where
  "valid_chars = ''abcdefghijklmnopqrstuvwxyz._0123456789''"

datatype lookup_error = InvalidArgument

text \<open>\<open>Lookup (name, default_value, description)\<close>: the variable, \<open>None\<close> when one of another type has the name.\<close>

definition Config_Lookup :: "'v config_type \<Rightarrow> ('v, 's) config \<Rightarrow> string \<Rightarrow> 'v \<Rightarrow> string
    \<Rightarrow> lookup_error + ('v, 's) config_var option \<times> ('v, 's) config" where
  "Config_Lookup t data name default_value description =
     (case LookupBase data name of
        Some cv \<Rightarrow> Inr (if ct_name (cv_type cv) = ct_name t then Some cv else None, data)
      | None \<Rightarrow>
          if \<not> list_all (\<lambda>c. c \<in> set valid_chars) name then Inl InvalidArgument
          else let v = ConfigVar_new name description t default_value
               in Inr (Some v, omap_put string_less name v data))"

definition Config_find :: "'v config_type \<Rightarrow> ('v, 's) config \<Rightarrow> string \<Rightarrow> ('v, 's) config_var option" where
  "Config_find t data name =
     (case LookupBase data name of
        None \<Rightarrow> None
      | Some cv \<Rightarrow> if ct_name (cv_type cv) = ct_name t then Some cv else None)"

section \<open>Loading YAML\<close>

text \<open>\<open>ListAllMember\<close>: every node with its full name, a map before its members.\<close>

fun ListAllMember :: "string \<Rightarrow> yaml \<Rightarrow> (string \<times> yaml) list" and ListMembers :: "string \<Rightarrow> (string \<times> yaml) list \<Rightarrow> (string \<times> yaml) list" where
  "ListAllMember prefix node =
     (if prefix \<noteq> [] then [(prefix, node)] else [])
     @ (case node of YMap kvs \<Rightarrow> ListMembers prefix kvs | _ \<Rightarrow> [])"
| "ListMembers prefix [] = []"
| "ListMembers prefix ((k, v) # kvs) =
     ListAllMember (if prefix = [] then k else prefix @ ''.'' @ k) v @ ListMembers prefix kvs"

definition node_text :: "yaml_lib \<Rightarrow> yaml \<Rightarrow> string" where
  "node_text lib n = (case n of YScalar s \<Rightarrow> s | _ \<Rightarrow> yl_emit lib n)"

definition load_node :: "yaml_lib \<Rightarrow> ('v, 's) config \<times> 's \<Rightarrow> string \<times> yaml \<Rightarrow> ('v, 's) config \<times> 's" where
  "load_node lib st n =
     (case st of (data, s) \<Rightarrow>
        if fst n = [] then (data, s)
        else let key = lower_string (fst n) in
          case LookupBase data key of
            None \<Rightarrow> (data, s)
          | Some var \<Rightarrow> (case ConfigVar_fromString var (node_text lib (snd n)) s of
              (var', s', _) \<Rightarrow> (omap_put string_less key var' data, s')))"

definition LoadFromYaml :: "yaml_lib \<Rightarrow> ('v, 's) config \<times> 's \<Rightarrow> yaml \<Rightarrow> ('v, 's) config \<times> 's" where
  "LoadFromYaml lib st root = foldl (load_node lib) st (ListAllMember [] root)"

text \<open>
  \<open>LoadFromConfDir\<close> over the files \<open>ListAllFile\<close> found, each with its modification time and what \<open>LoadFile\<close> makes
  of it, \<open>None\<close> when it throws. An unknown file has the time 0.
\<close>

definition load_file :: "yaml_lib \<Rightarrow> (string \<Rightarrow> int) \<times> ('v, 's) config \<times> 's \<Rightarrow> string \<times> int \<times> yaml option
    \<Rightarrow> (string \<Rightarrow> int) \<times> ('v, 's) config \<times> 's" where
  "load_file lib st f =
     (case (st, f) of ((modified, cf), (name, mtime, root)) \<Rightarrow>
        if modified name = mtime then (modified, cf)
        else (modified(name := mtime), case root of None \<Rightarrow> cf | Some r \<Rightarrow> LoadFromYaml lib cf r))"

definition LoadFromConfDir :: "yaml_lib \<Rightarrow> (string \<Rightarrow> int) \<times> ('v, 's) config \<times> 's \<Rightarrow> (string \<times> int \<times> yaml option) list
    \<Rightarrow> (string \<Rightarrow> int) \<times> ('v, 's) config \<times> 's" where
  "LoadFromConfDir lib st files = foldl (load_file lib) st files"

definition Visit :: "(('v, 's) config_var \<Rightarrow> 's \<Rightarrow> 's) \<Rightarrow> ('v, 's) config \<Rightarrow> 's \<Rightarrow> 's" where
  "Visit cb data s = foldl (\<lambda>s (name, cv). cb cv s) s data"

section \<open>Types\<close>

text \<open>\<open>ty\<close> is the type a value has; a conversion of a type yields values of the type.\<close>

definition type_ok :: "('v \<Rightarrow> string) \<Rightarrow> 'v config_type \<Rightarrow> bool" where
  "type_ok ty t \<longleftrightarrow> (\<forall>s v. ct_from t s = Some v \<longrightarrow> ty v = ct_name t)"

definition valid_name :: "string \<Rightarrow> bool" where
  "valid_name n \<longleftrightarrow> list_all (\<lambda>c. c \<in> set valid_chars) n"

definition var_ok :: "('v \<Rightarrow> string) \<Rightarrow> string \<Rightarrow> ('v, 's) config_var \<Rightarrow> bool" where
  "var_ok ty n cv \<longleftrightarrow> cv_name cv = n \<and> valid_name n \<and> ty (cv_val cv) = ct_name (cv_type cv) \<and> type_ok ty (cv_type cv)"

definition config_ok :: "('v \<Rightarrow> string) \<Rightarrow> ('v, 's) config \<Rightarrow> bool" where
  "config_ok ty data \<longleftrightarrow> (\<forall>n cv. LookupBase data n = Some cv \<longrightarrow> var_ok ty n cv)"

lemma LookupBase_put [simp]:
  "LookupBase (omap_put string_less n cv data) m = (if m = n then Some cv else LookupBase data m)"
  by (simp add: LookupBase_def str_ord.omap_get_put)

lemma config_ok_put: "config_ok ty data \<Longrightarrow> var_ok ty n cv \<Longrightarrow> config_ok ty (omap_put string_less n cv data)"
  by (simp add: config_ok_def)

lemma lower_valid: "valid_name n \<Longrightarrow> lower_string n = n"
proof -
  have "list_all (\<lambda>c. \<not> (65 \<le> (of_char c :: nat) \<and> (of_char c :: nat) \<le> 90)) valid_chars"
    by (simp add: valid_chars_def)
  then have "lower_char c = c" if "c \<in> set valid_chars" for c
    using that by (auto simp: list_all_iff lower_char_def tolower_def Let_def)
  then show "valid_name n \<Longrightarrow> lower_string n = n"
    by (simp add: valid_name_def lower_string_def list_all_iff map_idI)
qed

lemma setValue_effect:
  "setValue cv v s = (cv', s', threw) \<Longrightarrow> cv' = (if threw then cv else cv\<lparr>cv_val := v\<rparr>)"
  by (auto simp: setValue_def split: if_splits prod.splits)

lemma setValue_ok:
  "var_ok ty n cv \<Longrightarrow> ty v = ct_name (cv_type cv) \<Longrightarrow> setValue cv v s = (cv', s', threw) \<Longrightarrow> var_ok ty n cv'"
  by (drule setValue_effect) (simp add: var_ok_def)

lemma fromString_ok: "var_ok ty n cv \<Longrightarrow> ConfigVar_fromString cv val s = (cv', s', r) \<Longrightarrow> var_ok ty n cv'"
  by (auto simp: ConfigVar_fromString_def var_ok_def type_ok_def dest!: setValue_effect
      split: option.splits prod.splits if_split_asm)

lemma Lookup_ok:
  assumes "config_ok ty data" and "type_ok ty t" and "ty v = ct_name t" and "Config_Lookup t data n v d = Inr (r, data')"
  shows "config_ok ty data' \<and> (r = None \<or> r = Config_find t data' n)"
  using assms
  by (auto simp: Config_Lookup_def Config_find_def Let_def ConfigVar_new_def var_ok_def valid_name_def
      lower_valid [unfolded valid_name_def] intro!: config_ok_put split: option.splits if_splits)

lemma config_okD: "config_ok ty data \<Longrightarrow> LookupBase data n = Some cv \<Longrightarrow> var_ok ty n cv"
  by (simp add: config_ok_def)

lemma load_node_ok: "config_ok ty (fst st) \<Longrightarrow> config_ok ty (fst (load_node lib st n))"
  by (auto simp: load_node_def Let_def intro!: config_ok_put split: prod.split option.split)
    (blast intro: fromString_ok config_okD)

lemma LoadFromYaml_ok: "config_ok ty (fst st) \<Longrightarrow> config_ok ty (fst (LoadFromYaml lib st root))"
proof -
  have "config_ok ty (fst (foldl (load_node lib) st ns))" if "config_ok ty (fst st)" for ns
    using that by (induction ns arbitrary: st) (simp_all add: load_node_ok)
  then show "config_ok ty (fst st) \<Longrightarrow> ?thesis" by (simp add: LoadFromYaml_def)
qed

text \<open>The tables a program reaches.\<close>

inductive config_reachable :: "('v \<Rightarrow> string) \<Rightarrow> ('v, 's) config \<Rightarrow> bool" for ty where
  empty: "config_reachable ty []"
| lookup: "config_reachable ty data \<Longrightarrow> type_ok ty t \<Longrightarrow> ty v = ct_name t \<Longrightarrow>
    Config_Lookup t data n v d = Inr (r, data') \<Longrightarrow> config_reachable ty data'"
| set: "config_reachable ty data \<Longrightarrow> LookupBase data n = Some cv \<Longrightarrow> ty v = ct_name (cv_type cv) \<Longrightarrow>
    setValue cv v s = (cv', s', threw) \<Longrightarrow> config_reachable ty (omap_put string_less n cv' data)"
| from_string: "config_reachable ty data \<Longrightarrow> LookupBase data n = Some cv \<Longrightarrow>
    ConfigVar_fromString cv val s = (cv', s', threw) \<Longrightarrow> config_reachable ty (omap_put string_less n cv' data)"
| listeners: "config_reachable ty data \<Longrightarrow> LookupBase data n = Some cv \<Longrightarrow>
    cv' \<in> {snd (addListener k cv cb), delListener cv k, clearListener cv} \<Longrightarrow>
    config_reachable ty (omap_put string_less n cv' data)"
| load: "config_reachable ty data \<Longrightarrow> LoadFromYaml lib (data, s) root = (data', s') \<Longrightarrow> config_reachable ty data'"

lemma reachable_config_ok: "config_reachable ty data \<Longrightarrow> config_ok ty data"
proof (induction rule: config_reachable.induct)
  case (lookup data t v n d r data')
  then show ?case using Lookup_ok [of ty data t v n d r data'] by simp
next
  case (set data n cv v s cv' s' threw)
  then show ?case by (meson config_ok_put config_okD setValue_ok)
next
  case (from_string data n cv val s cv' s' threw)
  then show ?case by (meson config_ok_put config_okD fromString_ok)
next
  case (listeners data n cv cv' k cb)
  then have "var_ok ty n cv" by (blast intro: config_okD)
  then have "var_ok ty n cv'"
    using listeners(3) by (auto simp: var_ok_def addListener_def delListener_def clearListener_def)
  with listeners show ?case by (blast intro: config_ok_put)
next
  case (load data lib s root data' s')
  then show ?case using LoadFromYaml_ok [of ty "(data, s)" lib root] by simp
qed (simp add: config_ok_def LookupBase_def)

text \<open>C31. In every table that lookups with a default, assignments, conversions from strings, listener changes and loaded
  files lead to, a variable found under a type has a value of that type and is filed under its own, valid name; a
  lookup that creates or finds the variable returns the one the table then holds.\<close>

theorem config_type_safe:
  assumes "config_reachable ty data"
  shows "(case Config_find t data n of
      None \<Rightarrow> True
    | Some cv \<Rightarrow> ty (cv_val cv) = ct_name t \<and> cv_name cv = n \<and> valid_name n) \<and>
    (if type_ok ty t \<and> ty v = ct_name t then
       (case Config_Lookup t data n v d of
          Inl _ \<Rightarrow> \<not> valid_name n \<and> LookupBase data n = None
        | Inr (r, data') \<Rightarrow> r = Config_find t data' n \<and> config_reachable ty data')
     else True)"
proof -
  note ok = reachable_config_ok [OF assms]
  have "case Config_find t data n of None \<Rightarrow> True | Some cv \<Rightarrow> ty (cv_val cv) = ct_name t \<and> cv_name cv = n \<and> valid_name n"
    using ok by (auto simp: Config_find_def config_ok_def var_ok_def split: option.split)
  moreover have "case Config_Lookup t data n v d of
          Inl _ \<Rightarrow> \<not> valid_name n \<and> LookupBase data n = None
        | Inr (r, data') \<Rightarrow> r = Config_find t data' n \<and> config_reachable ty data'"
    if "type_ok ty t" "ty v = ct_name t"
  proof (cases "Config_Lookup t data n v d")
    case (Inl e)
    then show ?thesis by (auto simp: Config_Lookup_def Let_def valid_name_def split: option.splits if_splits)
  next
    case (Inr r)
    obtain cv data' where r: "r = (cv, data')" by (cases r)
    have "cv = Config_find t data' n"
      using Inr r by (auto simp: Config_Lookup_def Config_find_def Let_def ConfigVar_new_def split: option.splits if_splits)
    moreover have "config_reachable ty data'" using config_reachable.lookup [OF assms that] Inr r by blast
    ultimately show ?thesis using Inr r by simp
  qed
  ultimately show ?thesis by simp
qed


theorem config_type_safe_witness:
  "let t = \<lparr>ct_name = ''int'', ct_from = (\<lambda>s. Some 8020), ct_to = (\<lambda>v. None)\<rparr> :: nat config_type in
   (case Config_Lookup t ([] :: (nat, unit) config) ''system.port'' 8080 [] of
      Inl _ \<Rightarrow> False | Inr (r, data') \<Rightarrow> r \<noteq> None \<and> r = Config_find t data' ''system.port'')"
proof -
  define t :: "nat config_type" where "t = \<lparr>ct_name = ''int'', ct_from = (\<lambda>s. Some 8020), ct_to = (\<lambda>v. None)\<rparr>"
  have "config_reachable (\<lambda>_. ''int'') ([] :: (nat, unit) config)" by (rule config_reachable.empty)
  note safe = config_type_safe [OF this, of t "''system.port''" 8080 "[]"]
  obtain r data' where r: "Config_Lookup t ([] :: (nat, unit) config) ''system.port'' 8080 [] = Inr (Some r, data')"
    by (simp add: Config_Lookup_def LookupBase_def valid_chars_def Let_def)
  have "type_ok (\<lambda>_. ''int'') t" and "''int'' = ct_name t" by (simp_all add: type_ok_def t_def)
  then have "Config_find t data' ''system.port'' = Some r" using safe r by simp
  with r show ?thesis by (simp flip: t_def)
qed

section \<open>What loading does\<close>

text \<open>The values a sequence of texts gives to a variable.\<close>

fun read_all :: "'v config_type \<Rightarrow> 'v \<Rightarrow> string list \<Rightarrow> 'v" where
  "read_all t v [] = v"
| "read_all t v (s # ss) = read_all t (case ct_from t s of None \<Rightarrow> v | Some w \<Rightarrow> w) ss"

definition silent :: "('v, 's) config_var \<Rightarrow> bool" where
  "silent cv \<longleftrightarrow> (\<forall>k cb old new s. (k, cb) \<in> set (cv_cbs cv) \<longrightarrow> \<not> snd (cb old new s))"

lemma run_listeners_silent: "\<forall>(k, cb)\<in>set cbs. \<forall>s. \<not> snd (cb old new s) \<Longrightarrow> \<not> snd (run_listeners cbs old new s)"
proof (induction cbs arbitrary: s)
  case (Cons c cbs)
  then show ?case by (cases c) (auto split: prod.split, metis snd_conv)
qed simp

lemma fromString_silent:
  assumes "silent cv"
  shows "fst (ConfigVar_fromString cv val s)
    = cv\<lparr>cv_val := (case ct_from (cv_type cv) val of None \<Rightarrow> cv_val cv | Some w \<Rightarrow> w)\<rparr>"
proof -
  have "\<not> snd (run_listeners (cv_cbs cv) old new s)" for old new
    using assms by (intro run_listeners_silent) (auto simp: silent_def)
  then have "\<not> snd (snd (setValue cv v s))" for v
    by (auto simp: setValue_def split: prod.split) (metis snd_conv)
  then have "fst (setValue cv v s) = cv\<lparr>cv_val := v\<rparr>" for v
    using setValue_effect [of cv v s] by (metis prod.collapse)
  then show ?thesis
    by (auto simp: ConfigVar_fromString_def split: option.split prod.split) (metis fst_conv)
qed

text \<open>The texts of the nodes that name the variable.\<close>

definition texts_for :: "yaml_lib \<Rightarrow> string \<Rightarrow> (string \<times> yaml) list \<Rightarrow> string list" where
  "texts_for lib name ns = map (node_text lib \<circ> snd) (filter (\<lambda>n. fst n \<noteq> [] \<and> lower_string (fst n) = name) ns)"

lemma load_nodes:
  assumes "\<And>n cv. LookupBase data n = Some cv \<Longrightarrow> silent cv"
  shows "LookupBase (fst (foldl (load_node lib) (data, s) ns)) name
    = map_option (\<lambda>cv. cv\<lparr>cv_val := read_all (cv_type cv) (cv_val cv) (texts_for lib name ns)\<rparr>) (LookupBase data name)"
  using assms
proof (induction ns arbitrary: data s)
  case Nil
  then show ?case by (cases "LookupBase data name") (simp_all add: texts_for_def)
next
  case (Cons n ns)
  obtain data' s' where step: "load_node lib (data, s) n = (data', s')" by (cases "load_node lib (data, s) n")
  have look: "LookupBase data' m = (if fst n \<noteq> [] \<and> lower_string (fst n) = m
      then map_option (\<lambda>cv. cv\<lparr>cv_val := read_all (cv_type cv) (cv_val cv) [node_text lib (snd n)]\<rparr>) (LookupBase data m)
      else LookupBase data m)" for m
  proof (cases "fst n = []")
    case True
    then show ?thesis using step by (simp add: load_node_def)
  next
    case False
    show ?thesis
    proof (cases "LookupBase data (lower_string (fst n))")
      case None
      then show ?thesis using step False by (auto simp: load_node_def)
    next
      case (Some cv)
      have "data' = omap_put string_less (lower_string (fst n)) (fst (ConfigVar_fromString cv (node_text lib (snd n)) s)) data"
        using step False Some by (simp add: load_node_def Let_def split: prod.splits)
      then show ?thesis
        using Some False fromString_silent [OF Cons.prems [OF Some], of "node_text lib (snd n)" s] by auto
    qed
  qed
  have "silent cv" if "LookupBase data' m = Some cv" for m cv
    using that Cons.prems by (auto simp: look silent_def split: if_splits)
  note IH = Cons.IH [of data' s', OF this]
  show ?case
    using IH step look [of name]
    by (cases "LookupBase data name") (auto simp: texts_for_def)
qed


text \<open>One variable with listeners among others without: a document that names it once.\<close>

definition quiet_except :: "string \<Rightarrow> ('v, 's) config \<Rightarrow> bool" where
  "quiet_except name data \<longleftrightarrow> (\<forall>m cv. m \<noteq> name \<and> LookupBase data m = Some cv \<longrightarrow> cv_cbs cv = [])"

lemma fromString_quiet:
  "cv_cbs cv = [] \<Longrightarrow> \<exists>cv' r. ConfigVar_fromString cv val s = (cv', s, r) \<and> cv_cbs cv' = []"
  by (auto simp: ConfigVar_fromString_def setValue_def split: option.split)

lemma load_node_other:
  assumes "quiet_except name data" and "fst n = [] \<or> lower_string (fst n) \<noteq> name"
  shows "\<exists>data'. load_node lib (data, s) n = (data', s) \<and> LookupBase data' name = LookupBase data name \<and> quiet_except name data'"
proof (cases "fst n = [] \<or> LookupBase data (lower_string (fst n)) = None")
  case True
  then show ?thesis using assms by (auto simp: load_node_def)
next
  case False
  then obtain cv where cv: "LookupBase data (lower_string (fst n)) = Some cv" by auto
  then have "cv_cbs cv = []" using assms False by (simp add: quiet_except_def)
  from fromString_quiet [OF this] obtain cv' r where
    "ConfigVar_fromString cv (node_text lib (snd n)) s = (cv', s, r)" "cv_cbs cv' = []" by blast
  then show ?thesis using assms False cv by (auto simp: load_node_def Let_def quiet_except_def)
qed

lemma load_nodes_other:
  "quiet_except name data \<Longrightarrow> texts_for lib name ns = [] \<Longrightarrow>
   \<exists>data'. foldl (load_node lib) (data, s) ns = (data', s) \<and> LookupBase data' name = LookupBase data name \<and> quiet_except name data'"
proof (induction ns arbitrary: data)
  case (Cons n ns)
  then have "fst n = [] \<or> lower_string (fst n) \<noteq> name" "texts_for lib name ns = []"
    by (auto simp: texts_for_def split: if_splits)
  from load_node_other [OF Cons.prems(1) this(1), of lib s] obtain data' where
    "load_node lib (data, s) n = (data', s)" "LookupBase data' name = LookupBase data name" "quiet_except name data'" by blast
  with Cons.IH [OF this(3) \<open>texts_for lib name ns = []\<close>] show ?case by simp
qed simp

lemma load_nodes_once:
  assumes "quiet_except name data" and "texts_for lib name ns = [t]" and "LookupBase data name = Some cv"
    and "ConfigVar_fromString cv t s = (cv', s', r)"
  shows "\<exists>data'. foldl (load_node lib) (data, s) ns = (data', s') \<and> LookupBase data' name = Some cv'"
  using assms(1-3)
proof (induction ns arbitrary: data)
  case (Cons n ns)
  show ?case
  proof (cases "fst n = [] \<or> lower_string (fst n) \<noteq> name")
    case True
    then have "texts_for lib name ns = [t]" using Cons.prems(2) by (auto simp: texts_for_def)
    moreover obtain data' where "load_node lib (data, s) n = (data', s)" "LookupBase data' name = Some cv" "quiet_except name data'"
      using load_node_other [OF Cons.prems(1) True, of lib s] Cons.prems(3) by auto
    ultimately show ?thesis using Cons.IH [of data'] by simp
  next
    case False
    then have rest: "texts_for lib name ns = []" and "node_text lib (snd n) = t"
      using Cons.prems(2) by (auto simp: texts_for_def)
    then have "load_node lib (data, s) n = (omap_put string_less name cv' data, s')"
      using False Cons.prems(3) assms(4) by (simp add: load_node_def)
    moreover have "quiet_except name (omap_put string_less name cv' data)"
      using Cons.prems(1) by (simp add: quiet_except_def)
    from load_nodes_other [OF this rest, of s'] obtain data' where
      "foldl (load_node lib) (omap_put string_less name cv' data, s') ns = (data', s')" "LookupBase data' name = Some cv'" by auto
    ultimately show ?thesis by simp
  qed
qed (simp add: texts_for_def)

text \<open>The members of a node under its dotted names.\<close>

inductive member_at :: "yaml \<Rightarrow> string list \<Rightarrow> yaml \<Rightarrow> bool" where
  here: "(k, n) \<in> set kvs \<Longrightarrow> member_at (YMap kvs) [k] n"
| below: "(k, m) \<in> set kvs \<Longrightarrow> member_at m ks n \<Longrightarrow> member_at (YMap kvs) (k # ks) n"

inductive_cases member_at_mapE: "member_at (YMap kvs) ks n"
inductive_simps member_at_leaf [simp]: "member_at (YScalar s) ks n" "member_at (YSeq ns) ks n" "member_at YNull ks n"

fun dotted :: "string list \<Rightarrow> string" where
  "dotted [] = []"
| "dotted [k] = k"
| "dotted (k # ks) = k @ ''.'' @ dotted ks"

fun named :: "yaml \<Rightarrow> bool" and all_named :: "(string \<times> yaml) list \<Rightarrow> bool" where
  "named node = (case node of YMap kvs \<Rightarrow> all_named kvs | _ \<Rightarrow> True)"
| "all_named [] = True"
| "all_named ((k, v) # kvs) \<longleftrightarrow> k \<noteq> [] \<and> named v \<and> all_named kvs"


lemma member_at_Cons:
  "member_at (YMap ((k, v) # kvs)) ks n \<longleftrightarrow>
     ks = [k] \<and> n = v \<or> (\<exists>ks'. ks = k # ks' \<and> member_at v ks' n) \<or> member_at (YMap kvs) ks n"
  by (auto elim!: member_at_mapE intro: member_at.intros)

lemma member_at_Nil: "\<not> member_at (YMap []) ks n" "\<not> member_at m [] n"
  by (auto elim: member_at.cases)

definition full_name :: "string \<Rightarrow> string list \<Rightarrow> string" where
  "full_name prefix ks = (if prefix = [] then dotted ks else prefix @ ''.'' @ dotted ks)"

lemma full_name_below:
  assumes "k \<noteq> []" and "ks \<noteq> []"
  shows "full_name (if prefix = [] then k else prefix @ ''.'' @ k) ks = full_name prefix (k # ks)"
  using assms by (cases ks) (auto simp: full_name_def)

lemma ListAllMember_members:
  "named node \<Longrightarrow> set (ListAllMember prefix node)
    = (if prefix = [] then {} else {(prefix, node)}) \<union> {(full_name prefix ks, n) |ks n. member_at node ks n}"
  "all_named kvs \<Longrightarrow> set (ListMembers prefix kvs) = {(full_name prefix ks, n) |ks n. member_at (YMap kvs) ks n}"
proof (induction prefix node and prefix kvs rule: ListAllMember_ListMembers.induct)
  case (1 prefix node)
  then show ?case by (cases node) auto
next
  case (2 prefix)
  then show ?case by (simp add: member_at_Nil)
next
  case (3 prefix k v kvs)
  define q where "q = (if prefix = [] then k else prefix @ ''.'' @ k)"
  have k: "k \<noteq> []" "q \<noteq> []" using 3 by (auto simp: q_def)
  have deep: "full_name q ks = full_name prefix (k # ks)" if "member_at v ks n" for ks n
    using that k(1) member_at_Nil(2) by (cases "ks = []") (auto simp: full_name_below q_def)
  have "q = full_name prefix [k]" by (simp add: q_def full_name_def)
  moreover have "set (ListAllMember q v) = {(q, v)} \<union> {(full_name q ks, n) |ks n. member_at v ks n}"
    using 3 k by (simp add: q_def)
  moreover have "{(full_name q ks, n) |ks n. member_at v ks n} = {(full_name prefix (k # ks), n) |ks n. member_at v ks n}"
    by (intro Collect_cong) (metis deep)
  ultimately have "set (ListAllMember q v) = {(full_name prefix [k], v)} \<union> {(full_name prefix (k # ks), n) |ks n. member_at v ks n}"
    by simp
  moreover have "set (ListMembers prefix kvs) = {(full_name prefix ks, n) |ks n. member_at (YMap kvs) ks n}"
    using 3 by simp
  ultimately show ?case
    by (auto simp del: ListAllMember.simps simp: member_at_Cons simp flip: q_def)
qed

text \<open>C32. Loading a document gives every variable, if no listener throws, the last value that the texts of the nodes of its
  name yield, in document order and skipping those that do not convert, and touches nothing else of it; and these
  nodes are the members of the document, at any depth, under their keys joined by dots.\<close>

theorem config_loaded:
  assumes "\<And>n cv. LookupBase data n = Some cv \<Longrightarrow> silent cv" and "named root"
  shows "LookupBase (fst (LoadFromYaml lib (data, s) root)) name
      = map_option (\<lambda>cv. cv\<lparr>cv_val := read_all (cv_type cv) (cv_val cv) (texts_for lib name (ListAllMember [] root))\<rparr>)
          (LookupBase data name) \<and>
    set (ListAllMember [] root) = {(dotted ks, n) |ks n. member_at root ks n}"
proof
  show "LookupBase (fst (LoadFromYaml lib (data, s) root)) name
      = map_option (\<lambda>cv. cv\<lparr>cv_val := read_all (cv_type cv) (cv_val cv) (texts_for lib name (ListAllMember [] root))\<rparr>)
          (LookupBase data name)"
    unfolding LoadFromYaml_def using assms(1) by (rule load_nodes)
  show "set (ListAllMember [] root) = {(dotted ks, n) |ks n. member_at root ks n}"
    using ListAllMember_members(1) [OF assms(2), of "[]"] by (simp add: full_name_def)
qed

theorem config_loaded_witness:
  "\<forall>lib. let t = \<lparr>ct_name = ''string'', ct_from = Some, ct_to = Some\<rparr>;
      data = [(''log.name'', ConfigVar_new ''log.name'' [] t ''root'')] :: (string, unit) config;
      root = YMap [(''Log'', YMap [(''name'', YScalar ''first''), (''NAME'', YScalar ''last'')])] in
    map_option cv_val (LookupBase (fst (LoadFromYaml lib (data, ()) root)) ''log.name'') = Some ''last''"
proof -
  define t :: "string config_type" where "t = \<lparr>ct_name = ''string'', ct_from = Some, ct_to = Some\<rparr>"
  define data :: "(string, unit) config" where "data = [(''log.name'', ConfigVar_new ''log.name'' [] t ''root'')]"
  define root where "root = YMap [(''Log'', YMap [(''name'', YScalar ''first''), (''NAME'', YScalar ''last'')])]"
  have look: "LookupBase data n = (if n = ''log.name'' then Some (ConfigVar_new ''log.name'' [] t ''root'') else None)" for n
    by (simp add: LookupBase_def data_def str_ord.omap_get_put [of _ _ _ "[]", simplified])
  have "silent cv" if "LookupBase data n = Some cv" for n cv
    using that by (auto simp: look silent_def ConfigVar_new_def split: if_splits)
  moreover have "named root" by (simp add: root_def)
  ultimately have "\<forall>lib. map_option cv_val (LookupBase (fst (LoadFromYaml lib (data, ()) root)) ''log.name'')
      = Some (read_all t ''root'' (texts_for lib ''log.name'' (ListAllMember [] root)))"
    using config_loaded [of data root _ "()"] by (simp add: look ConfigVar_new_def)
  moreover have "map lower_string [''Log'', ''Log.name'', ''Log.NAME''] = [''log'', ''log.name'', ''log.name'']" by code_simp
  then have "texts_for lib ''log.name'' (ListAllMember [] root) = [''first'', ''last'']" for lib
    by (simp add: texts_for_def root_def node_text_def)
  ultimately show ?thesis by (simp add: t_def data_def root_def)
qed

end
