(* ===== verification/File_System.thy ===== *)
theory File_System
  imports C_String
begin

text \<open>
  \<open>FSUtil\<close> of \<open>src/util.cpp\<close>: listing the files below a directory, creating a directory with its parents and the test
  for a running process. What the kernel reports is an input; its \<open>mkdir\<close> is a parameter.
\<close>

section \<open>Listing files\<close>

text \<open>What \<open>readdir\<close> gives, a directory with its own entries, \<open>None\<close> when it cannot be accessed or opened. Other types
  are links, devices and those the file system does not report.\<close>

datatype dirent = DT_DIR string "dirent list option" | DT_REG string | DT_OTHER string

definition has_suffix :: "string \<Rightarrow> string \<Rightarrow> bool" where
  "has_suffix suffix name \<longleftrightarrow>
     suffix = [] \<or> (\<not> length name < length suffix \<and> drop (length name - length suffix) name = suffix)"

fun list_entries :: "string \<Rightarrow> string \<Rightarrow> dirent list \<Rightarrow> string list" where
  "list_entries suffix path [] = []"
| "list_entries suffix path (DT_DIR name entries # ds) =
     (if name = ''.'' \<or> name = ''..'' then []
      else case entries of None \<Rightarrow> [] | Some es \<Rightarrow> list_entries suffix (path @ ''/'' @ name) es)
     @ list_entries suffix path ds"
| "list_entries suffix path (DT_REG name # ds) =
     (if has_suffix suffix name then [path @ ''/'' @ name] else []) @ list_entries suffix path ds"
| "list_entries suffix path (DT_OTHER name # ds) = list_entries suffix path ds"

definition ListAllFile :: "string list \<Rightarrow> string \<Rightarrow> dirent list option \<Rightarrow> string \<Rightarrow> string list" where
  "ListAllFile files path entries suffix =
     (case entries of None \<Rightarrow> files | Some es \<Rightarrow> files @ list_entries suffix path es)"

section \<open>Processes\<close>

text \<open>\<open>lst\<close> tells whether \<open>lstat\<close> succeeded, \<open>line\<close> is the first line of the file, \<open>alive\<close> the test by \<open>kill (pid, 0)\<close>.\<close>

definition IsRunningPidfile :: "bool \<Rightarrow> string option \<Rightarrow> (int \<Rightarrow> bool) \<Rightarrow> bool" where
  "IsRunningPidfile lst line alive =
     (if \<not> lst then False
      else case line of
        None \<Rightarrow> False
      | Some l \<Rightarrow>
          if l = [] then False
          else let pid = atoi (cstr l) in if pid \<le> 1 then False else alive pid)"

section \<open>Creating directories\<close>

text \<open>The kernel: which paths exist, and \<open>mkdir\<close> on a file system.\<close>

record 'fs kernel =
  k_exists :: "'fs \<Rightarrow> string \<Rightarrow> bool"
  k_mkdir :: "'fs \<Rightarrow> string \<Rightarrow> bool \<times> 'fs"

definition mkdir_one :: "'fs kernel \<Rightarrow> 'fs \<Rightarrow> string \<Rightarrow> bool \<times> 'fs" where
  "mkdir_one k fs dirname = (if k_exists k fs dirname then (True, fs) else k_mkdir k fs dirname)"

text \<open>The loop over the slashes \<open>strchr\<close> finds from position \<open>i\<close> on, and the whole path after the last one.\<close>

function mkdir_loop :: "'fs kernel \<Rightarrow> 'fs \<Rightarrow> string \<Rightarrow> nat \<Rightarrow> bool \<times> 'fs" where
  "mkdir_loop k fs path i =
     (if i < length path then
        if path ! i = CHR ''/'' then
          (case mkdir_one k fs (take i path) of
             (ok, fs') \<Rightarrow> if ok then mkdir_loop k fs' path (i + 1) else (False, fs'))
        else mkdir_loop k fs path (i + 1)
      else mkdir_one k fs path)"
  by pat_completeness auto
termination by (relation "measure (\<lambda>(k, fs, path, i). length path - i)") auto

declare mkdir_loop.simps [simp del]

text \<open>The search starts behind the first byte; for the empty name that is behind the end of the copy, \<open>None\<close>.\<close>

definition Mkdir :: "'fs kernel \<Rightarrow> 'fs \<Rightarrow> string \<Rightarrow> (bool \<times> 'fs) option" where
  "Mkdir k fs dirname =
     (let path = cstr dirname in
      if k_exists k fs path then Some (True, fs)
      else if path = [] then None
      else Some (mkdir_loop k fs path 1))"

section \<open>Facts\<close>

text \<open>A regular file below a directory, by its path.\<close>

inductive file_below :: "string \<Rightarrow> dirent list \<Rightarrow> string \<Rightarrow> string \<Rightarrow> bool" where
  here: "DT_REG name \<in> set es \<Longrightarrow> file_below path es (path @ ''/'' @ name) name"
| below: "DT_DIR name (Some es') \<in> set es \<Longrightarrow> name \<noteq> ''.'' \<Longrightarrow> name \<noteq> ''..'' \<Longrightarrow>
    file_below (path @ ''/'' @ name) es' p f \<Longrightarrow> file_below path es p f"

lemma file_below_Nil: "\<not> file_below path [] p f"
  by (auto elim: file_below.cases)

lemma file_below_Cons:
  "file_below path (d # es) p f \<longleftrightarrow> file_below path es p f \<or>
     (case d of
        DT_REG name \<Rightarrow> p = path @ ''/'' @ name \<and> f = name
      | DT_DIR name (Some es') \<Rightarrow> name \<noteq> ''.'' \<and> name \<noteq> ''..'' \<and> file_below (path @ ''/'' @ name) es' p f
      | _ \<Rightarrow> False)"
  by (subst (1 2) file_below.simps) (auto split: dirent.splits option.splits)

lemma has_suffix_iff: "has_suffix suffix name \<longleftrightarrow> (\<exists>stem. name = stem @ suffix)"
proof
  assume "has_suffix suffix name"
  then have "name = take (length name - length suffix) name @ suffix"
    by (metis append_take_drop_id append_Nil2 diff_zero has_suffix_def length_0_conv take_all_iff order_refl)
  then show "\<exists>stem. name = stem @ suffix" ..
qed (auto simp: has_suffix_def)

text \<open>The files listed below a directory are exactly the regular files at any depth whose name ends with the suffix,
  each under its path; directories that cannot be opened and entries of another type are passed over, and what the
  list held before stays in front.\<close>

theorem listed_files:
  "\<exists>new. ListAllFile files path entries suffix = files @ new \<and>
     set new = {p. \<exists>es stem. entries = Some es \<and> file_below path es p (stem @ suffix)}"
proof (cases entries)
  case None
  then show ?thesis by (simp add: ListAllFile_def)
next
  case (Some es)
  have "set (list_entries suffix path es) = {p. \<exists>f. has_suffix suffix f \<and> file_below path es p f}"
    by (induction suffix path es rule: list_entries.induct)
      (auto simp: file_below_Nil file_below_Cons split: option.splits)
  then show ?thesis using Some by (auto simp: ListAllFile_def has_suffix_iff)
qed

text \<open>What a kernel does: a directory it creates exists, nothing else changes, and it creates one whose parent exists.\<close>

definition kernel_ok :: "'fs kernel \<Rightarrow> bool" where
  "kernel_ok k \<longleftrightarrow> (\<forall>fs p.
     (fst (k_mkdir k fs p) \<longrightarrow> (\<forall>q. k_exists k (snd (k_mkdir k fs p)) q \<longleftrightarrow> q = p \<or> k_exists k fs q)) \<and>
     (\<not> fst (k_mkdir k fs p) \<longrightarrow> snd (k_mkdir k fs p) = fs))"

definition parents :: "string \<Rightarrow> nat \<Rightarrow> string set" where
  "parents path i = {take j path |j. i \<le> j \<and> j < length path \<and> path ! j = CHR ''/''} \<union> {path}"

lemma mkdir_one_ok:
  assumes "kernel_ok k" and "mkdir_one k fs p = (ok, fs')"
  shows "(if ok then \<forall>q. k_exists k fs' q \<longleftrightarrow> q = p \<or> k_exists k fs q else fs' = fs)"
  using assms unfolding kernel_ok_def mkdir_one_def by (auto split: if_splits) (metis fst_conv snd_conv)+

lemma parents_step:
  "i < length path \<Longrightarrow> parents path i = (if path ! i = CHR ''/'' then insert (take i path) (parents path (Suc i)) else parents path (Suc i))"
  by (auto simp: parents_def) (metis Suc_leI le_neq_implies_less)+

lemma parents_eq:
  "parents path i = insert path ((\<lambda>j. take j path) ` set (filter (\<lambda>j. path ! j = CHR ''/'') [i..<length path]))"
  by (auto simp: parents_def)

lemma mkdir_loop_ok:
  "kernel_ok k \<Longrightarrow> mkdir_loop k fs path i = (ok, fs') \<Longrightarrow>
   (\<forall>q. k_exists k fs q \<longrightarrow> k_exists k fs' q) \<and> (\<forall>q. k_exists k fs' q \<longrightarrow> k_exists k fs q \<or> q \<in> parents path i) \<and>
    (ok \<longrightarrow> (\<forall>q\<in>parents path i. k_exists k fs' q))"
proof (induction k fs path i arbitrary: ok fs' rule: mkdir_loop.induct)
  case (1 k fs path i)
  note k = mkdir_one_ok [OF 1(3)]
  consider (slash) "i < length path" "path ! i = CHR ''/''" | (char) "i < length path" "path ! i \<noteq> CHR ''/''"
    | (last) "\<not> i < length path" by blast
  then show ?case
  proof cases
    case slash
    obtain ok1 fs1 where one: "mkdir_one k fs (take i path) = (ok1, fs1)" by fastforce
    show ?thesis
    proof (cases ok1)
      case True
      then have "mkdir_loop k fs1 path (i + 1) = (ok, fs')"
        using 1(4) slash one by (simp add: mkdir_loop.simps [of k fs path i])
      from 1(1) [OF slash one [symmetric] True 1(3) this]
      show ?thesis using k [OF one] True parents_step [OF slash(1)] slash(2) by auto
    next
      case False
      then show ?thesis using 1(4) slash one k [OF one] by (simp add: mkdir_loop.simps [of k fs path i])
    qed
  next
    case char
    then have "mkdir_loop k fs path (i + 1) = (ok, fs')" using 1(4) by (simp add: mkdir_loop.simps [of k fs path i])
    from 1(2) [OF char 1(3) this] show ?thesis using parents_step [OF char(1)] char(2) by simp
  next
    case last
    then have one: "mkdir_one k fs path = (ok, fs')" using 1(4) by (simp add: mkdir_loop.simps [of k fs path i])
    from last have "parents path i = {path}" by (auto simp: parents_def)
    then show ?thesis using k [OF one] by (auto split: if_splits)
  qed
qed

text \<open>\<open>Mkdir\<close> never removes a path and creates only the directory and those above it; when it returns true the
  directory exists, and unless it existed before, so do all directories above it. It reads behind the end of its buffer
  exactly when the name is empty and does not exist.\<close>

theorem mkdir_creates:
  assumes "kernel_ok k"
  shows "case Mkdir k fs dirname of
      None \<Rightarrow> cstr dirname = [] \<and> \<not> k_exists k fs []
    | Some (ok, fs') \<Rightarrow>
        {q. k_exists k fs q} \<subseteq> {q. k_exists k fs' q} \<and>
        {q. k_exists k fs' q} \<subseteq> {q. k_exists k fs q} \<union> parents (cstr dirname) 1 \<and>
        (if ok \<and> \<not> k_exists k fs (cstr dirname) then parents (cstr dirname) 1 \<subseteq> {q. k_exists k fs' q}
         else ok = k_exists k fs (cstr dirname))"
proof (cases "k_exists k fs (cstr dirname) \<or> cstr dirname = []")
  case True
  then show ?thesis by (auto simp: Mkdir_def)
next
  case False
  obtain ok fs' where l: "mkdir_loop k fs (cstr dirname) 1 = (ok, fs')" by fastforce
  from False l have "Mkdir k fs dirname = Some (ok, fs')" by (simp add: Mkdir_def)
  with mkdir_loop_ok [OF assms l] False show ?thesis by auto
qed

text \<open>A kernel over the set of paths that exist.\<close>

definition set_kernel :: "string set kernel" where
  "set_kernel = \<lparr>k_exists = (\<lambda>fs p. p \<in> fs), k_mkdir = (\<lambda>fs p. (True, insert p fs))\<rparr>"

theorem mkdir_creates_witness:
  "case Mkdir set_kernel {''/srv''} ''/srv/log/azure'' of None \<Rightarrow> False
   | Some (ok, fs') \<Rightarrow> ok \<and> fs' = {''/srv'', ''/srv/log'', ''/srv/log/azure''}"
proof -
  have k: "kernel_ok set_kernel" by (auto simp: kernel_ok_def set_kernel_def)
  have "parents ''/srv/log/azure'' 1 = {''/srv'', ''/srv/log'', ''/srv/log/azure''}"
    unfolding parents_eq by code_simp
  moreover obtain ok fs' where m: "Mkdir set_kernel {''/srv''} ''/srv/log/azure'' = Some (ok, fs')" "ok"
    by (simp add: Mkdir_def mkdir_loop.simps mkdir_one_def set_kernel_def)
  moreover note mkdir_creates [OF k, of "''/srv/log/azure''" "{''/srv''}", unfolded m(1) option.case prod.case]
  ultimately have "fs' = {''/srv'', ''/srv/log'', ''/srv/log/azure''}"
    by (auto simp: set_kernel_def)
  with m show ?thesis by simp
qed

end
