(* ===== verification/Application.thy ===== *)
theory Application
  imports Tcp_Server Env Config File_System
begin

text \<open>
  \<open>src/application.cpp\<close> and \<open>src/daemon.cpp\<close>: the configuration of the HTTP servers, the start of the program from its
  command line, the supervision of a child process and the creation of the configured servers.
\<close>

section \<open>The configuration of a server\<close>

record http_server_conf =
  hc_address :: "string list"
  hc_keepalive :: int
  hc_timeout :: int
  hc_name :: string

definition HttpServerConf_default :: http_server_conf where
  "HttpServerConf_default = \<lparr>hc_address = [], hc_keepalive = 0, hc_timeout = 1000 * 2 * 60, hc_name = []\<rparr>"

definition HttpServerConf_isValid :: "http_server_conf \<Rightarrow> bool" where
  "HttpServerConf_isValid c \<longleftrightarrow> hc_address c \<noteq> []"

definition as_default :: "(yaml \<Rightarrow> 'a option) \<Rightarrow> yaml option \<Rightarrow> 'a \<Rightarrow> 'a" where
  "as_default conv n d = (case n of None \<Rightarrow> d | Some m \<Rightarrow> (case conv m of None \<Rightarrow> d | Some x \<Rightarrow> x))"

text \<open>The loop over the addresses, whose conversion has no default.\<close>

fun cast_addresses :: "yaml_lib \<Rightarrow> yaml_as \<Rightarrow> yaml \<Rightarrow> nat list \<Rightarrow> string list option" where
  "cast_addresses lib ya n [] = Some []"
| "cast_addresses lib ya n (i # is) =
     (case ya_string ya (yl_at lib n i) of
        None \<Rightarrow> None
      | Some a \<Rightarrow> map_option ((#) a) (cast_addresses lib ya n is))"

definition cast_server_conf :: "yaml_lib \<Rightarrow> yaml_as \<Rightarrow> string \<Rightarrow> http_server_conf option" where
  "cast_server_conf lib ya v =
     (case yl_load lib v of
        None \<Rightarrow> None
      | Some (YScalar _) \<Rightarrow> None
      | Some node \<Rightarrow>
          let conf = HttpServerConf_default;
              conf = conf\<lparr>hc_keepalive := as_default (ya_int ya) (yaml_key node ''keepalive'') (hc_keepalive conf),
                          hc_timeout := as_default (ya_int ya) (yaml_key node ''timeout'') (hc_timeout conf),
                          hc_name := as_default (ya_string ya) (yaml_key node ''name'') (hc_name conf)\<rparr>
          in (case yaml_key node ''address'' of
                None \<Rightarrow> Some conf
              | Some as \<Rightarrow> map_option (\<lambda>xs. conf\<lparr>hc_address := xs\<rparr>) (cast_addresses lib ya as [0..<yaml_size as])))"

definition add_address :: "yaml_as \<Rightarrow> yaml \<Rightarrow> string \<Rightarrow> yaml" where
  "add_address ya node a = yaml_append node ''address'' (ya_of_string ya a)"

definition uncast_server_conf :: "yaml_lib \<Rightarrow> yaml_as \<Rightarrow> http_server_conf \<Rightarrow> string" where
  "uncast_server_conf lib ya conf =
     (let node = yaml_put YNull ''name'' (ya_of_string ya (hc_name conf));
          node = yaml_put node ''keepalive'' (ya_of_int ya (hc_keepalive conf));
          node = yaml_put node ''timeout'' (ya_of_int ya (hc_timeout conf));
          node = foldl (add_address ya) node (hc_address conf)
      in yl_emit lib node)"

section \<open>Supervision\<close>

record process_info =
  parent_id :: int
  main_id :: int
  parent_start_time :: u64
  main_start_time :: u64
  restart_count :: u32

definition ProcessInfo_toString :: "(u64 \<Rightarrow> string) \<Rightarrow> process_info \<Rightarrow> string" where
  "ProcessInfo_toString time2str p =
     ''[ProcessInfo parent_id='' @ show_int (parent_id p) @ '' main_id='' @ show_int (main_id p)
     @ '' parent_start_time='' @ time2str (main_start_time p) @ '' restart_count='' @ show_dec (unat (restart_count p)) @ '']''"

text \<open>What \<open>fork\<close> does: this process is the child, whose callback returns a value; it fails; or the child ends with a status.\<close>

datatype forked = InChild int u64 int | ForkFailed | ChildEnded int

fun daemon_loop :: "process_info \<Rightarrow> forked list \<Rightarrow> (int \<times> process_info) option" where
  "daemon_loop p [] = None"
| "daemon_loop p (InChild pid now rc # fs) = Some (rc, p\<lparr>main_id := pid, main_start_time := now\<rparr>)"
| "daemon_loop p (ForkFailed # fs) = Some (-1, p)"
| "daemon_loop p (ChildEnded status # fs) =
     (if status \<noteq> 0 then daemon_loop (p\<lparr>restart_count := restart_count p + 1\<rparr>) fs else Some (0, p))"

definition real_daemon :: "process_info \<Rightarrow> int \<Rightarrow> u64 \<Rightarrow> forked list \<Rightarrow> (int \<times> process_info) option" where
  "real_daemon p pid now fs = daemon_loop (p\<lparr>parent_id := pid, parent_start_time := now\<rparr>) fs"

definition start_daemon :: "process_info \<Rightarrow> int \<Rightarrow> u64 \<Rightarrow> forked list \<Rightarrow> int \<Rightarrow> bool \<Rightarrow> (int \<times> process_info) option" where
  "start_daemon p pid now fs main_rc is_daemon = (if \<not> is_daemon then Some (main_rc, p) else real_daemon p pid now fs)"

section \<open>Starting the program\<close>

text \<open>The two variables the program reads and \<open>LoadFromConfDir\<close> as a function of the path.\<close>

record 'c app_conf =
  ac_work_path :: "'c \<Rightarrow> string"
  ac_pid_file :: "'c \<Rightarrow> string"
  ac_load :: "'c \<Rightarrow> string \<Rightarrow> 'c"

definition pidfile :: "'c app_conf \<Rightarrow> 'c \<Rightarrow> string" where
  "pidfile ac c = ac_work_path ac c @ ''/'' @ ac_pid_file ac c"

definition add_helps :: "env \<Rightarrow> env" where
  "add_helps e =
     addHelp (addHelp (addHelp (addHelp e ''s'' ''start with the terminal'') ''d'' ''run as daemon'')
       ''c'' ''conf path default: ./conf'') ''p'' ''print help''"

text \<open>The result with what was printed: environment, configuration and file system; \<open>is_running\<close> tests a pid file.\<close>

definition app_init :: "'fs kernel \<Rightarrow> 'c app_conf \<Rightarrow> string \<Rightarrow> string list \<Rightarrow> env \<Rightarrow> 'c \<Rightarrow> 'fs \<Rightarrow> (string \<Rightarrow> bool)
    \<Rightarrow> (bool \<times> string \<times> env \<times> 'c \<times> 'fs) option" where
  "app_init k ac exe argv e c fs is_running =
     (case Env_init exe argv (add_helps e) of
        None \<Rightarrow> None
      | Some (ok, e1) \<Rightarrow>
          if \<not> ok then Some (False, printHelp e1, e1, c, fs)
          else if Env_has e1 ''p'' then Some (False, printHelp e1, e1, c, fs)
          else
            let run_type = (if Env_has e1 ''s'' then 1 else 0 :: nat);
                run_type = (if Env_has e1 ''d'' then 2 else run_type)
            in
            if run_type = 0 then Some (False, printHelp e1, e1, c, fs)
            else if is_running (pidfile ac c) then Some (False, [], e1, c, fs)
            else
              let conf_path = getAbsolutePath e1 (Env_get e1 ''c'' ''cfg'');
                  c1 = ac_load ac c conf_path
              in (case Mkdir k fs (ac_work_path ac c1) of
                    None \<Rightarrow> None
                  | Some (made, fs') \<Rightarrow> Some (made, [], e1, c1, fs')))"

text \<open>
  \<open>main\<close>: the exit status, and with a pid file that opened what the file holds while the servers run and at the end. The
  pid stays in the stream's buffer, which is written when \<open>main\<close> returns; the \<open>false\<close> of the other branch is 0.
\<close>

definition app_main :: "bool \<Rightarrow> int \<Rightarrow> int \<times> (string \<times> string) option" where
  "app_main opened pid = (if \<not> opened then (0, None) else (0, Some ([], show_int pid)))"

definition app_run :: "env \<Rightarrow> process_info \<Rightarrow> int \<Rightarrow> u64 \<Rightarrow> forked list \<Rightarrow> bool \<Rightarrow> (int \<times> process_info) option" where
  "app_run e p pid now fs opened = start_daemon p pid now fs (fst (app_main opened pid)) (Env_has e ''d'')"

section \<open>Creating the servers\<close>

text \<open>The addresses of one server; reading an interface without an address is the failure \<open>None\<close>.\<close>

fun server_addresses :: "(string \<Rightarrow> string option \<Rightarrow> raw_sockaddr list option) \<Rightarrow> ifaddr list option \<Rightarrow> endian \<Rightarrow> string list
    \<Rightarrow> address option list option" where
  "server_addresses gai ifs host [] = Some []"
| "server_addresses gai ifs host (a # as) =
     (if CHR '':'' \<notin> set a then server_addresses gai ifs host as
      else case LookupAny gai a of
        Some addr \<Rightarrow> map_option ((#) (Some addr)) (server_addresses gai ifs host as)
      | None \<Rightarrow>
          let iface = takeWhile (\<lambda>c. c \<noteq> CHR '':'') a;
              port = drop (length iface + 1) a
          in (case GetInterfaceAddress_of ifs iface AF_UNSPEC of
                None \<Rightarrow> None
              | Some None \<Rightarrow> server_addresses gai ifs host as
              | Some (Some result) \<Rightarrow>
                  map_option ((@) (map (\<lambda>x. if is_ip (fst x) then Some (setPort host (fst x) (word_of_int (atoi (cstr port)))) else None) result))
                    (server_addresses gai ifs host as)))"

text \<open>An \<open>HttpServer\<close> with its keep-alive flag. \<open>answers\<close> is what the kernel answers for an address.\<close>

record http_server =
  hs_server :: tcp_server
  hs_keepalive :: bool

datatype run_error = NullAddress | Exit0 | IoError io_error

definition start_one :: "bool \<Rightarrow> (socket \<Rightarrow> bool \<times> outcome) \<Rightarrow> (address \<Rightarrow> bind_answers) \<Rightarrow> u64 \<Rightarrow> http_server_conf
    \<Rightarrow> address option list \<Rightarrow> 'cb net \<Rightarrow> run_error + http_server \<times> 'cb net" where
  "start_one en cl answers read_timeout i addrs net =
     (if None \<in> set addrs then Inl NullAddress
      else
        let sv = TcpServer_new read_timeout [] [] in
        case server_bind_all en cl net sv (map (\<lambda>a. (the a, answers (the a))) addrs) [] of
          Inl e \<Rightarrow> Inl (IoError e)
        | Inr (ok, _, sv1, net1) \<Rightarrow>
            if \<not> ok then Inl Exit0
            else
              let sv2 = (if hc_name i \<noteq> [] then sv1\<lparr>ts_name := hc_name i\<rparr> else sv1)
              in Inr (\<lparr>hs_server = snd (server_start sv2), hs_keepalive = (hc_keepalive i \<noteq> 0)\<rparr>, net1))"

fun run_fiber :: "bool \<Rightarrow> (socket \<Rightarrow> bool \<times> outcome) \<Rightarrow> (address \<Rightarrow> bind_answers) \<Rightarrow> u64
    \<Rightarrow> (string \<Rightarrow> string option \<Rightarrow> raw_sockaddr list option) \<Rightarrow> ifaddr list option \<Rightarrow> endian
    \<Rightarrow> http_server_conf list \<Rightarrow> http_server list \<Rightarrow> 'cb net \<Rightarrow> run_error + http_server list \<times> 'cb net" where
  "run_fiber en cl answers rt gai ifs host [] servers net = Inr (servers, net)"
| "run_fiber en cl answers rt gai ifs host (i # is) servers net =
     (case server_addresses gai ifs host (hc_address i) of
        None \<Rightarrow> Inl NullAddress
      | Some addrs \<Rightarrow> bind_res (start_one en cl answers rt i addrs net) (\<lambda>(sv, net1).
          run_fiber en cl answers rt gai ifs host is (servers @ [sv]) net1))"

section \<open>Facts\<close>

lemma cast_addresses_seq:
  assumes "indexes lib" and "list_all2 (\<lambda>a n. ya_string ya n = Some a) as ns"
  shows "cast_addresses lib ya (YSeq ns) [0..<length ns] = Some as"
proof -
  have "cast_addresses lib ya (YSeq ns) is = Some xs"
    if "list_all2 (\<lambda>i a. yl_at lib (YSeq ns) i = ns ! i \<and> ya_string ya (ns ! i) = Some a) is xs" for "is" xs
    using that by (induction "is" xs rule: list_all2_induct) auto
  moreover have "list_all2 (\<lambda>i a. yl_at lib (YSeq ns) i = ns ! i \<and> ya_string ya (ns ! i) = Some a) [0..<length ns] as"
    using assms by (auto simp: list_all2_conv_all_nth indexes_def)
  ultimately show ?thesis by blast
qed

definition conf_node :: "yaml_as \<Rightarrow> http_server_conf \<Rightarrow> yaml" where
  "conf_node ya conf = YMap ([(''name'', ya_of_string ya (hc_name conf)), (''keepalive'', ya_of_int ya (hc_keepalive conf)),
     (''timeout'', ya_of_int ya (hc_timeout conf))] @
     (if hc_address conf = [] then [] else [(''address'', YSeq (map (ya_of_string ya) (hc_address conf)))]))"

lemma uncast_conf_node: "uncast_server_conf lib ya conf = yl_emit lib (conf_node ya conf)"
  by (simp add: uncast_server_conf_def conf_node_def add_address_def [abs_def] append_all)

text \<open>The configuration of a server is read back from its YAML text, by a library that keeps documents and scalars.\<close>

theorem server_conf_round_trip:
  assumes "as_ok ya" and "indexes lib" and "reads_back lib (conf_node ya conf)"
  shows "cast_server_conf lib ya (uncast_server_conf lib ya conf) = Some conf"
proof -
  have load: "yl_load lib (yl_emit lib (conf_node ya conf)) = Some (conf_node ya conf)"
    using assms(3) by (simp add: reads_back_def)
  show ?thesis
  proof (cases "hc_address conf = []")
    case True
    then show ?thesis using load assms(1)
      by (simp add: uncast_conf_node cast_server_conf_def) (simp add: conf_node_def yaml_key_def as_default_def as_ok_def Let_def HttpServerConf_default_def)
  next
    case False
    have "cast_addresses lib ya (YSeq (map (ya_of_string ya) (hc_address conf))) [0..<length (map (ya_of_string ya) (hc_address conf))]
        = Some (hc_address conf)"
      using assms(1) by (intro cast_addresses_seq [OF assms(2)]) (simp add: list_all2_conv_all_nth as_ok_def)
    then show ?thesis using load assms(1) False
      by (simp add: uncast_conf_node cast_server_conf_def) (simp add: conf_node_def yaml_key_def as_default_def as_ok_def Let_def HttpServerConf_default_def)
  qed
qed

text \<open>A server that runs as its configuration says: on all its addresses, with one accept loop queued for each socket.\<close>

definition serves :: "http_server_conf \<Rightarrow> address option list \<Rightarrow> http_server \<Rightarrow> bool" where
  "serves i addrs sv \<longleftrightarrow> \<not> m_isStop (hs_server sv) \<and> hs_keepalive sv = (hc_keepalive i \<noteq> 0) \<and>
     ts_name (hs_server sv) = (if hc_name i \<noteq> [] then hc_name i else ''azure/1.0.0'') \<and>
     None \<notin> set addrs \<and> list_all2 (\<lambda>a s. listens_on (the a) s) addrs (m_socks (hs_server sv)) \<and>
     m_acceptWorker (hs_server sv) = map (callback_task \<circ> StartAccept) (m_socks (hs_server sv))"

lemma start_one_serves:
  assumes "start_one en cl answers rt i addrs net = Inr (sv, net')"
  shows "serves i addrs sv"
proof -
  let ?sv = "TcpServer_new rt [] []"
  have n: "None \<notin> set addrs" using assms by (auto simp: start_one_def)
  obtain fails sv1 where b: "server_bind_all en cl net ?sv (map (\<lambda>a. (the a, answers (the a))) addrs) [] = Inr (True, fails, sv1, net')"
    and sv: "sv = \<lparr>hs_server = snd (server_start (if hc_name i \<noteq> [] then sv1\<lparr>ts_name := hc_name i\<rparr> else sv1)),
      hs_keepalive = (hc_keepalive i \<noteq> 0)\<rparr>"
    using assms n by (auto simp: start_one_def Let_def split: sum.splits if_splits)
  from b have name: "ts_name sv1 = ''azure/1.0.0''"
    by (auto simp: server_bind_all_def bind_res_def TcpServer_new_def split: sum.splits if_splits)
  show ?thesis using server_bind_all_result [OF b] n name
    by (simp add: serves_def sv server_start_def TcpServer_new_def schedule_all_started list_all2_map1 del: schedule_cb_append)
qed

lemma run_fiber_serves:
  "run_fiber en cl answers rt gai ifs host confs servers net = Inr (servers', net') \<Longrightarrow>
   \<exists>new. servers' = servers @ new \<and>
     list_all2 (\<lambda>i sv. \<exists>addrs. server_addresses gai ifs host (hc_address i) = Some addrs \<and> serves i addrs sv) confs new"
proof (induction confs arbitrary: servers net)
  case (Cons i confs)
  obtain addrs where a: "server_addresses gai ifs host (hc_address i) = Some addrs"
    using Cons.prems by (auto split: option.splits)
  obtain sv net1 where s: "start_one en cl answers rt i addrs net = Inr (sv, net1)"
    using Cons.prems a by (auto simp: bind_res_def split: sum.splits)
  with Cons.prems a have "run_fiber en cl answers rt gai ifs host confs (servers @ [sv]) net1 = Inr (servers', net')" by simp
  from Cons.IH [OF this] obtain new where "servers' = (servers @ [sv]) @ new"
    "list_all2 (\<lambda>i sv. \<exists>addrs. server_addresses gai ifs host (hc_address i) = Some addrs \<and> serves i addrs sv) confs new" by blast
  with a start_one_serves [OF s] show ?case by (intro exI [of _ "sv # new"]) auto
qed simp

text \<open>The supervisor restarts the child after each crash and counts it, and ends with the first other outcome.\<close>

lemma daemon_restarts:
  "list_all (\<lambda>s. s \<noteq> 0) crashes \<Longrightarrow>
   daemon_loop p (map ChildEnded crashes @ fs) = daemon_loop (p\<lparr>restart_count := restart_count p + of_nat (length crashes)\<rparr>) fs"
proof (induction crashes arbitrary: p)
  case (Cons c crashes)
  show ?case using Cons.prems Cons.IH [of "p\<lparr>restart_count := restart_count p + 1\<rparr>"] by (simp add: add.commute add.left_commute)
qed simp

section \<open>Properties\<close>


definition first_line :: "string \<Rightarrow> string option" where
  "first_line content = (if content = [] then None else Some (takeWhile (\<lambda>c. c \<noteq> CHR 0x0A) content))"

text \<open>The check for a running server never sees one: while the servers run the pid file is empty, so a second start does
  not find the process, whichever processes are alive.\<close>

theorem running_server_unseen:
  "case app_main opened pid of (status, files) \<Rightarrow> status = 0 \<and>
     (case files of None \<Rightarrow> \<not> opened | Some (during, at_end) \<Rightarrow> \<not> IsRunningPidfile True (first_line during) alive)"
  by (simp add: app_main_def first_line_def IsRunningPidfile_def)

lemma add_helps_args [simp]: "m_args (add_helps e) = m_args e"
  by (simp add: add_helps_def addHelp_def removeHelp_def Let_def)

lemma Env_has_iff: "Env_has e k \<longleftrightarrow> Env_get e k ''x'' = Env_get e k ''y''"
  by (auto simp: Env_has_def Env_get_def split: option.splits)

text \<open>The keys the options of a command line set.\<close>

lemma init_keys:
  assumes "Env_init exe (prog # args) (add_helps e) = Some (ok, e1)" and "m_args e = []"
    and "list_all legal_option opts" "args = concat (map option_args opts)"
  shows "ok \<and> (Env_has e1 k \<longleftrightarrow> k \<in> fst ` set opts)"
proof -
  define e0 where "e0 = (add_helps e)\<lparr>m_exe := exe,
      m_cwd := take (case find_last_of CHR ''/'' exe of None \<Rightarrow> 0 | Some pos \<Rightarrow> pos + 1) exe, m_program := prog\<rparr>"
  have e0: "m_args e0 = []" "init_loop e0 None args = (ok, e1)"
    using assms(1,2) by (simp_all add: Env_init_def Let_def e0_def)
  with init_loop_options [OF assms(3), of e0] assms(4) have e1: "ok" "e1 = put_options e0 opts" by simp_all
  have "Env_get e0 k d = d" for d by (simp add: Env_get_def e0)
  then have "Env_has e1 k \<longleftrightarrow> map_of (rev opts) k \<noteq> None"
    by (auto simp: Env_has_iff e1(2) put_options_get split: option.split)
  also have "\<dots> \<longleftrightarrow> k \<in> fst ` set opts" by (simp add: map_of_eq_None_iff)
  finally show ?thesis using e1(1) by simp
qed

text \<open>On a command line of legal options the program starts exactly when it is told to run in the terminal or as a
  daemon and not to print its help, the pid file of the configuration it was built with names no living process, and
  the working directory of the loaded configuration can be made; it then runs with the configuration loaded from the
  directory the options name. Every other start leaves configuration and files as they were, or fails to make the
  directory.\<close>

theorem start_accepted:
  assumes "m_args e = []" and "list_all legal_option opts" and "app_init k ac exe (prog # concat (map option_args opts)) e c fs is_running = Some (ok, out, e1, c1, fs1)"
  shows "(let keys = fst ` set opts;
        told = (''p'' \<notin> keys \<and> (''s'' \<in> keys \<or> ''d'' \<in> keys) \<and> \<not> is_running (pidfile ac c)) in
     if told then c1 = ac_load ac c (getAbsolutePath e1 (Env_get e1 ''c'' ''cfg'')) \<and> out = [] \<and>
         Mkdir k fs (ac_work_path ac c1) = Some (ok, fs1)
     else \<not> ok \<and> c1 = c \<and> fs1 = fs)"
proof -
  obtain ok1 e2 where i: "Env_init exe (prog # concat (map option_args opts)) (add_helps e) = Some (ok1, e2)"
    using assms(3) by (auto simp: app_init_def split: option.splits)
  note keys = init_keys [OF i assms(1,2) refl]
  from keys [of "''p''"] keys [of "''s''"] keys [of "''d''"] show ?thesis
    using assms(3) i by (auto simp: app_init_def Let_def split: option.splits if_splits)
qed

theorem start_accepted_witness:
  "let ac = \<lparr>ac_work_path = (\<lambda>c. c), ac_pid_file = (\<lambda>c. ''azure.pid''), ac_load = (\<lambda>c path. path)\<rparr>;
       e = \<lparr>m_args = [], m_helps = [], m_program = [], m_exe = [], m_cwd = []\<rparr> in
   \<exists>e1 fs1. app_init set_kernel ac ''/bin/azure'' [''azure'', ''-s'', ''-c'', ''/conf''] e ''/apps'' {} (\<lambda>_. False)
     = Some (True, [], e1, ''/conf'', fs1) \<and> Mkdir set_kernel {} (ac_work_path ac ''/conf'') = Some (True, fs1)"
proof -
  define ac where "ac = \<lparr>ac_work_path = (\<lambda>c :: string. c), ac_pid_file = (\<lambda>c. ''azure.pid''), ac_load = (\<lambda>c path. path)\<rparr>"
  define e where "e = \<lparr>m_args = [], m_helps = [], m_program = [], m_exe = [], m_cwd = []\<rparr>"
  define opts where "opts = [(''s'', None), (''c'', Some ''/conf'')]"
  have e: "m_args e = []" "list_all legal_option opts" by (simp_all add: e_def opts_def)
  have args: "[''azure'', ''-s'', ''-c'', ''/conf''] = ''azure'' # concat (map option_args opts)" by (simp add: opts_def)
  define e2 where "e2 = put_options ((add_helps e)\<lparr>m_exe := ''/bin/azure'',
      m_cwd := take (case find_last_of CHR ''/'' ''/bin/azure'' of None \<Rightarrow> 0 | Some pos \<Rightarrow> pos + 1) ''/bin/azure'',
      m_program := ''azure''\<rparr>) opts"
  have i: "Env_init ''/bin/azure'' (''azure'' # concat (map option_args opts)) (add_helps e) = Some (True, e2)"
    by (simp only: Env_init_def list.case Let_def init_loop_options [OF e(2)] e2_def)
  have get: "Env_get e2 ''c'' ''cfg'' = ''/conf''" by (simp add: e2_def Env_add_get opts_def option_value_def)
  have keys: "\<not> Env_has e2 ''p''" "Env_has e2 ''s''" using init_keys [OF i e(1,2) refl] by (auto simp: opts_def)
  have m: "Mkdir set_kernel {} ''/conf'' = Some (True, {''/conf''})"
    by (simp add: Mkdir_def mkdir_loop.simps mkdir_one_def set_kernel_def)
  have r: "app_init set_kernel ac ''/bin/azure'' (''azure'' # concat (map option_args opts)) e ''/apps'' {}
      (\<lambda>_. False) = Some (True, [], e2, ''/conf'', {''/conf''})"
    using keys m by (simp add: app_init_def i get ac_def getAbsolutePath_def Let_def)
  from start_accepted [OF e r] have "Mkdir set_kernel {} (ac_work_path ac ''/conf'') = Some (True, {''/conf''})"
    by (simp add: opts_def get getAbsolutePath_def ac_def)
  with r show ?thesis unfolding Let_def ac_def [symmetric] e_def [symmetric] args by blast
qed

theorem server_conf_round_trip_witness:
  "let conf = \<lparr>hc_address = [''0.0.0.0:80'', ''eth0:81''], hc_keepalive = 1, hc_timeout = 1000, hc_name = ''web''\<rparr>;
      lib = \<lparr>yl_load = (\<lambda>s. Some (conf_node sample_as conf)), yl_emit = (\<lambda>n. ''document''),
             yl_at = (\<lambda>n i. case n of YSeq ns \<Rightarrow> ns ! i | _ \<Rightarrow> YNull)\<rparr> in
   cast_server_conf lib sample_as (uncast_server_conf lib sample_as conf) = Some conf"
proof -
  define conf where "conf = \<lparr>hc_address = [''0.0.0.0:80'', ''eth0:81''], hc_keepalive = 1, hc_timeout = 1000, hc_name = ''web''\<rparr>"
  define lib where "lib = \<lparr>yl_load = (\<lambda>s :: string. Some (conf_node sample_as conf)), yl_emit = (\<lambda>n. ''document''),
             yl_at = (\<lambda>n i. case n of YSeq ns \<Rightarrow> ns ! i | _ \<Rightarrow> YNull)\<rparr>"
  have "as_ok sample_as" by (simp add: as_ok_def sample_as_def)
  moreover have "indexes lib" "reads_back lib (conf_node sample_as conf)"
    by (simp_all add: indexes_def reads_back_def lib_def)
  ultimately show ?thesis unfolding Let_def conf_def [symmetric] lib_def [symmetric] by (rule server_conf_round_trip)
qed


end
