(* ===== verification/Locks.thy ===== *)
theory Locks
  imports Main
begin

text \<open>
  \<open>include/mutex.h\<close>, \<open>src/mutex.cpp\<close> and \<open>src/thread.cpp\<close>: the locks with their scoped guards, the semaphore and the start
  of a thread. A call that has to wait returns \<open>None\<close>: the thread takes the step when another has made it possible. The
  primitives of pthread are modelled by what they exclude.
\<close>

section \<open>Locks\<close>

text \<open>\<open>Mutex\<close> and \<open>Spinlock\<close>: whether the lock is taken. \<open>CASLock\<close>: the flag, tested and set in one step.\<close>

definition Mutex_lock :: "bool \<Rightarrow> bool option" where "Mutex_lock l = (if l then None else Some True)"
definition Mutex_unlock :: "bool \<Rightarrow> bool" where "Mutex_unlock l = False"

definition Spinlock_lock :: "bool \<Rightarrow> bool option" where "Spinlock_lock l = (if l then None else Some True)"
definition Spinlock_unlock :: "bool \<Rightarrow> bool" where "Spinlock_unlock l = False"

definition test_and_set :: "bool \<Rightarrow> bool \<times> bool" where "test_and_set flag = (flag, True)"

definition CASLock_lock :: "bool \<Rightarrow> bool option" where
  "CASLock_lock flag = (case test_and_set flag of (was, flag') \<Rightarrow> if was then None else Some flag')"

definition CASLock_unlock :: "bool \<Rightarrow> bool" where "CASLock_unlock flag = False"

text \<open>\<open>RWMutex\<close>: the readers and whether a writer has it; one \<open>unlock\<close> serves both.\<close>

record rw_lock =
  rw_readers :: nat
  rw_writer :: bool

definition rdlock :: "rw_lock \<Rightarrow> rw_lock option" where
  "rdlock l = (if rw_writer l then None else Some (l\<lparr>rw_readers := rw_readers l + 1\<rparr>))"

definition wrlock :: "rw_lock \<Rightarrow> rw_lock option" where
  "wrlock l = (if rw_writer l \<or> rw_readers l \<noteq> 0 then None else Some (l\<lparr>rw_writer := True\<rparr>))"

definition RWMutex_unlock :: "rw_lock \<Rightarrow> rw_lock" where
  "RWMutex_unlock l = (if rw_writer l then l\<lparr>rw_writer := False\<rparr> else l\<lparr>rw_readers := rw_readers l - 1\<rparr>)"

section \<open>Scoped guards\<close>

text \<open>
  \<open>ScopedLockImpl\<close>, \<open>ReadScopedLockImpl\<close> and \<open>WriteScopedLockImpl\<close>: the guards that exist, each with the lock's
  function it calls, and \<open>m_locked\<close>. The acquiring function of a guard is \<open>acq k\<close> for its kind \<open>k\<close>.
\<close>

type_synonym ('l, 'k) guarded = "'l \<times> (nat \<Rightarrow> ('k \<times> bool) option)"

definition guard_new :: "('k \<Rightarrow> 'l \<Rightarrow> 'l option) \<Rightarrow> 'k \<Rightarrow> nat \<Rightarrow> ('l, 'k) guarded \<Rightarrow> ('l, 'k) guarded option" where
  "guard_new acq k g s =
     (case s of (l, gs) \<Rightarrow> if gs g \<noteq> None then None else map_option (\<lambda>l'. (l', gs(g \<mapsto> (k, True)))) (acq k l))"

definition guard_lock :: "('k \<Rightarrow> 'l \<Rightarrow> 'l option) \<Rightarrow> nat \<Rightarrow> ('l, 'k) guarded \<Rightarrow> ('l, 'k) guarded option" where
  "guard_lock acq g s =
     (case s of (l, gs) \<Rightarrow> case gs g of
        None \<Rightarrow> None
      | Some (k, m_locked) \<Rightarrow>
          if \<not> m_locked then map_option (\<lambda>l'. (l', gs(g \<mapsto> (k, True)))) (acq k l) else Some (l, gs))"

definition guard_unlock :: "('l \<Rightarrow> 'l) \<Rightarrow> nat \<Rightarrow> ('l, 'k) guarded \<Rightarrow> ('l, 'k) guarded option" where
  "guard_unlock rel g s =
     (case s of (l, gs) \<Rightarrow> case gs g of
        None \<Rightarrow> None
      | Some (k, m_locked) \<Rightarrow> if m_locked then Some (rel l, gs(g \<mapsto> (k, False))) else Some (l, gs))"

definition guard_delete :: "('l \<Rightarrow> 'l) \<Rightarrow> nat \<Rightarrow> ('l, 'k) guarded \<Rightarrow> ('l, 'k) guarded option" where
  "guard_delete rel g s = map_option (\<lambda>(l, gs). (l, gs(g := None))) (guard_unlock rel g s)"

text \<open>The calls of all threads in any order.\<close>

inductive guards_reach :: "('k \<Rightarrow> 'l \<Rightarrow> 'l option) \<Rightarrow> ('l \<Rightarrow> 'l) \<Rightarrow> 'l \<Rightarrow> ('l, 'k) guarded \<Rightarrow> bool" for acq rel l0 where
  init: "guards_reach acq rel l0 (l0, \<lambda>_. None)"
| new: "guards_reach acq rel l0 s \<Longrightarrow> guard_new acq k g s = Some s' \<Longrightarrow> guards_reach acq rel l0 s'"
| lock: "guards_reach acq rel l0 s \<Longrightarrow> guard_lock acq g s = Some s' \<Longrightarrow> guards_reach acq rel l0 s'"
| unlock: "guards_reach acq rel l0 s \<Longrightarrow> guard_unlock rel g s = Some s' \<Longrightarrow> guards_reach acq rel l0 s'"
| delete: "guards_reach acq rel l0 s \<Longrightarrow> guard_delete rel g s = Some s' \<Longrightarrow> guards_reach acq rel l0 s'"

section \<open>The contract of a lock\<close>

text \<open>\<open>hold l m\<close>: the lock is in a state in which guards of the kinds \<open>m\<close> hold it.\<close>

definition locked_by :: "(nat \<Rightarrow> ('k \<times> bool) option) \<Rightarrow> nat \<Rightarrow> 'k \<Rightarrow> bool" where
  "locked_by gs g k \<longleftrightarrow> gs g = Some (k, True)"

locale lock_contract =
  fixes acq :: "'k \<Rightarrow> 'l \<Rightarrow> 'l option" and rel :: "'l \<Rightarrow> 'l" and free :: 'l
    and holds :: "'l \<Rightarrow> (nat \<Rightarrow> 'k option) \<Rightarrow> bool"
  assumes holds_free: "holds free (\<lambda>_. None)"
    and holds_acq: "holds l h \<Longrightarrow> h g = None \<Longrightarrow> acq k l = Some l' \<Longrightarrow> holds l' (h(g \<mapsto> k))"
    and holds_rel: "holds l h \<Longrightarrow> h g \<noteq> None \<Longrightarrow> holds (rel l) (h(g := None))"
begin

definition holders :: "(nat \<Rightarrow> ('k \<times> bool) option) \<Rightarrow> nat \<Rightarrow> 'k option" where
  "holders gs g = (case gs g of Some (k, True) \<Rightarrow> Some k | _ \<Rightarrow> None)"

lemma holders_upd:
  "holders (gs(g := None)) = (holders gs)(g := None)"
  "holders (gs(g \<mapsto> (k, True))) = (holders gs)(g \<mapsto> k)"
  "holders (gs(g \<mapsto> (k, False))) = (holders gs)(g := None)"
  by (auto simp: holders_def fun_eq_iff)

lemma holders_Some: "holders gs g = Some k \<longleftrightarrow> gs g = Some (k, True)"
  by (auto simp: holders_def split: option.splits bool.splits)

lemma holders_None: "gs g = None \<Longrightarrow> holders gs g = None" "gs g = Some (k, False) \<Longrightarrow> holders gs g = None"
  by (simp_all add: holders_def)

lemma unlock_holds:
  "holds l (holders gs) \<Longrightarrow> guard_unlock rel g (l, gs) = Some (l', gs') \<Longrightarrow> holds l' (holders gs') \<and> holders gs' g = None"
  using holds_rel [of l "holders gs" g]
  by (auto simp: guard_unlock_def holders_upd holders_None holders_def split: option.splits if_splits)

lemma reach_holds: "guards_reach acq rel free s \<Longrightarrow> holds (fst s) (holders (snd s))"
proof (induction rule: guards_reach.induct)
  case init
  then show ?case using holds_free by (simp add: holders_def [abs_def])
next
  case (new s k g s')
  obtain l gs where s: "s = (l, gs)" by (cases s)
  with new(2) obtain l' where "acq k l = Some l'" "s' = (l', gs(g \<mapsto> (k, True)))" "gs g = None"
    by (auto simp only: guard_new_def prod.case split: if_splits)
  then show ?case using new(3) s holds_acq [of l "holders gs" g k] by (simp only: fst_conv snd_conv holders_upd holders_None)
next
  case (lock s g s')
  obtain l gs where s: "s = (l, gs)" by (cases s)
  show ?case
  proof (cases "gs g = None \<or> (\<exists>k. gs g = Some (k, True))")
    case True
    then show ?thesis using lock s by (auto simp: guard_lock_def)
  next
    case False
    then obtain k where g: "gs g = Some (k, False)" by auto
    with lock(2) s obtain l' where "acq k l = Some l'" "s' = (l', gs(g \<mapsto> (k, True)))"
      by (auto simp only: guard_lock_def prod.case option.case split: if_splits)
    then show ?thesis
      using lock(3) s holds_acq [of l "holders gs" g k] holders_None(2) [of gs g k, OF g]
      by (simp only: fst_conv snd_conv holders_upd)
  qed
next
  case (unlock s g s')
  then show ?case using unlock_holds [of "fst s" "snd s" g "fst s'" "snd s'"] by simp
next
  case (delete s g s')
  then obtain l gs where u: "guard_unlock rel g s = Some (l, gs)" "s' = (l, gs(g := None))"
    by (auto simp: guard_delete_def)
  with delete unlock_holds [of "fst s" "snd s" g l gs]
  have "holds l (holders gs)" "holders gs g = None" by simp_all
  then show ?case unfolding u(2) fst_conv snd_conv holders_upd by (simp only: fun_upd_idem)
qed

end

text \<open>An exclusive lock is free or has one holder.\<close>

definition one_holder :: "bool \<Rightarrow> (nat \<Rightarrow> 'k option) \<Rightarrow> bool" where
  "one_holder l h \<longleftrightarrow> (if l then \<exists>g. h g \<noteq> None \<and> (\<forall>g'. h g' \<noteq> None \<longrightarrow> g' = g) else \<forall>g. h g = None)"

lemma one_holder_release: "one_holder l h \<Longrightarrow> h g \<noteq> None \<Longrightarrow> one_holder False (h(g := None))"
  unfolding one_holder_def by (metis fun_upd_apply)

locale exclusive_lock =
  fixes lock :: "bool \<Rightarrow> bool option" and unlock :: "bool \<Rightarrow> bool"
  assumes lock_iff: "lock l = (if l then None else Some True)" and unlock_free: "unlock l = False"

sublocale exclusive_lock \<subseteq> lock_contract "\<lambda>_ :: unit. lock" unlock False one_holder
proof unfold_locales
  fix l g l' and h :: "nat \<Rightarrow> unit option" and k assume "one_holder l h" "h g = None" "lock l = Some l'"
  then show "one_holder l' (h(g \<mapsto> k))" by (auto simp: one_holder_def lock_iff split: if_splits)
next
  fix l g and h :: "nat \<Rightarrow> unit option" assume "one_holder l h" "h g \<noteq> None"
  then show "one_holder (unlock l) (h(g := None))" unfolding unlock_free by (rule one_holder_release)
qed (simp add: one_holder_def)

interpretation mutex: exclusive_lock Mutex_lock Mutex_unlock
  by unfold_locales (simp_all add: Mutex_lock_def Mutex_unlock_def)

interpretation spinlock: exclusive_lock Spinlock_lock Spinlock_unlock
  by unfold_locales (simp_all add: Spinlock_lock_def Spinlock_unlock_def)

interpretation caslock: exclusive_lock CASLock_lock CASLock_unlock
  by unfold_locales (simp_all add: CASLock_lock_def CASLock_unlock_def test_and_set_def)

text \<open>A read-write lock has one writer, or counts its readers.\<close>

datatype rw_kind = Reader | Writer

definition rw_acquire :: "rw_kind \<Rightarrow> rw_lock \<Rightarrow> rw_lock option" where
  "rw_acquire k l = (case k of Reader \<Rightarrow> rdlock l | Writer \<Rightarrow> wrlock l)"

definition rw_holders :: "rw_lock \<Rightarrow> (nat \<Rightarrow> rw_kind option) \<Rightarrow> bool" where
  "rw_holders l h \<longleftrightarrow> finite (dom h) \<and>
     (if rw_writer l then rw_readers l = 0 \<and> (\<exists>g. h = [g \<mapsto> Writer])
      else rw_readers l = card (dom h) \<and> Writer \<notin> ran h)"

lemma rw_holders_acquire:
  assumes "rw_holders l h" "h g = None" "rw_acquire k l = Some l'"
  shows "rw_holders l' (h(g \<mapsto> k))"
proof (cases k)
  case Reader
  then show ?thesis using assms
    by (auto simp: rw_holders_def rw_acquire_def rdlock_def card_insert_if ran_def domIff split: if_splits)
next
  case Writer
  then have "\<not> rw_writer l" "rw_readers l = 0" "l' = l\<lparr>rw_writer := True\<rparr>"
    using assms(3) by (auto simp: rw_acquire_def wrlock_def split: if_splits)
  moreover from this have "h = Map.empty" using assms(1) by (auto simp: rw_holders_def)
  ultimately show ?thesis using Writer by (auto simp: rw_holders_def)
qed

lemma rw_holders_unlock:
  assumes "rw_holders l h" "h g \<noteq> None"
  shows "rw_holders (RWMutex_unlock l) (h(g := None))"
proof (cases "rw_writer l")
  case True
  then obtain g' where "h = [g' \<mapsto> Writer]" "rw_readers l = 0" using assms(1) by (auto simp: rw_holders_def)
  moreover from this have "g' = g" using assms(2) by (auto split: if_splits)
  ultimately show ?thesis using True by (simp add: rw_holders_def RWMutex_unlock_def)
next
  case False
  then show ?thesis using assms
    by (auto simp: rw_holders_def RWMutex_unlock_def ran_def card_Diff_singleton_if domIff)
qed

interpretation rwmutex: lock_contract rw_acquire RWMutex_unlock "\<lparr>rw_readers = 0, rw_writer = False\<rparr>" rw_holders
  by unfold_locales (blast intro: rw_holders_acquire rw_holders_unlock | simp add: rw_holders_def)+

section \<open>Starting and joining a thread\<close>

text \<open>
  The constructor of \<open>Thread\<close>, which waits on the semaphore after \<open>pthread_create\<close>, and \<open>run\<close> in the new thread. An empty
  name stays empty: the constructor compares it with \<open>UNKNOWN\<close> instead of assigning. \<open>th_creator\<close> and \<open>th_runner\<close> are
  the steps each side has done, \<open>th_cb\<close> is whether the object still holds the callback.
\<close>

record thread_state =
  th_id :: int
  th_name :: string
  th_thread :: bool
  th_cb :: bool
  th_sem :: nat
  th_creator :: nat
  th_runner :: nat
  th_kernel_name :: string
  th_called :: bool

datatype thread_error = CreateError | JoinError

text \<open>\<open>rt\<close> is the result of \<open>pthread_create\<close>.\<close>

definition Thread_new :: "int \<Rightarrow> string \<Rightarrow> thread_error + thread_state" where
  "Thread_new rt name =
     (if rt \<noteq> 0 then Inl CreateError
      else Inr \<lparr>th_id = -1, th_name = name, th_thread = True, th_cb = True, th_sem = 0, th_creator = 0, th_runner = 0,
                th_kernel_name = [], th_called = False\<rparr>)"

definition sem_wait :: "nat \<Rightarrow> nat option" where "sem_wait n = (if n = 0 then None else Some (n - 1))"
definition sem_notify :: "nat \<Rightarrow> nat" where "sem_notify n = n + 1"

text \<open>The creator's wait, with which the constructor returns.\<close>

definition creator_step :: "thread_state \<Rightarrow> thread_state option" where
  "creator_step s =
     (if th_creator s = 0 then map_option (\<lambda>n. s\<lparr>th_sem := n, th_creator := 1\<rparr>) (sem_wait (th_sem s)) else None)"

text \<open>The steps of \<open>run\<close>: the identity, the kernel's name, the callback's swap, the notification, the call.\<close>

definition run_step :: "int \<Rightarrow> thread_state \<Rightarrow> thread_state option" where
  "run_step tid s =
     (if th_runner s = 0 then Some (s\<lparr>th_id := tid, th_runner := 1\<rparr>)
      else if th_runner s = 1 then Some (s\<lparr>th_kernel_name := take 15 (th_name s), th_runner := 2\<rparr>)
      else if th_runner s = 2 then Some (s\<lparr>th_cb := False, th_runner := 3\<rparr>)
      else if th_runner s = 3 then Some (s\<lparr>th_sem := sem_notify (th_sem s), th_runner := 4\<rparr>)
      else if th_runner s = 4 then Some (s\<lparr>th_called := True, th_runner := 5\<rparr>)
      else None)"

text \<open>\<open>join\<close> with the result of \<open>pthread_join\<close>, and whether the destructor detaches the thread.\<close>

definition Thread_join :: "int \<Rightarrow> thread_state \<Rightarrow> thread_error + thread_state" where
  "Thread_join rt s =
     (if th_thread s then if rt \<noteq> 0 then Inl JoinError else Inr (s\<lparr>th_thread := False\<rparr>) else Inr s)"

definition Thread_delete :: "thread_state \<Rightarrow> bool" where "Thread_delete s = th_thread s"

inductive thread_reach :: "int \<Rightarrow> string \<Rightarrow> thread_state \<Rightarrow> bool" for tid name where
  new: "Thread_new 0 name = Inr s \<Longrightarrow> thread_reach tid name s"
| creator: "thread_reach tid name s \<Longrightarrow> creator_step s = Some s' \<Longrightarrow> thread_reach tid name s'"
| run: "thread_reach tid name s \<Longrightarrow> run_step tid s = Some s' \<Longrightarrow> thread_reach tid name s'"

definition thread_inv :: "int \<Rightarrow> string \<Rightarrow> thread_state \<Rightarrow> bool" where
  "thread_inv tid name s \<longleftrightarrow> th_runner s \<le> 5 \<and> th_creator s \<le> 1 \<and> th_name s = name \<and>
     (if 1 \<le> th_runner s then th_id s = tid else True) \<and>
     (if 2 \<le> th_runner s then th_kernel_name s = take 15 name else True) \<and>
     (th_cb s \<longleftrightarrow> th_runner s < 3) \<and> (th_called s \<longleftrightarrow> th_runner s = 5) \<and>
     th_sem s + th_creator s = (if 4 \<le> th_runner s then 1 else 0)"

lemma thread_reach_inv: "thread_reach tid name s \<Longrightarrow> thread_inv tid name s"
proof (induction rule: thread_reach.induct)
  case (new s)
  then show ?case by (auto simp: Thread_new_def thread_inv_def)
next
  case (creator s s')
  then show ?case by (auto simp: creator_step_def thread_inv_def sem_wait_def split: if_splits)
next
  case (run s s')
  from run(2) consider "th_runner s = 0" | "th_runner s = 1" | "th_runner s = 2" | "th_runner s = 3" | "th_runner s = 4"
    by (auto simp: run_step_def split: if_splits)
  then show ?case using run(2,3) by cases (auto simp: run_step_def thread_inv_def sem_notify_def)
qed

section \<open>Properties\<close>

text \<open>C16. Whatever the guards of all threads do, constructing, locking, unlocking and destroying them in any order, at most
  one guard of a mutex, a spin lock or a compare-and-set lock is locked, and the lock is free exactly when none is: no
  guard releases a lock it does not hold, and none keeps one after its end.\<close>

theorem guards_exclude:
  assumes "guards_reach (\<lambda>_ :: unit. Mutex_lock) Mutex_unlock False (l, gs) \<or>
      guards_reach (\<lambda>_ :: unit. Spinlock_lock) Spinlock_unlock False (l, gs) \<or>
      guards_reach (\<lambda>_ :: unit. CASLock_lock) CASLock_unlock False (l, gs)"
  shows "(l \<longleftrightarrow> (\<exists>g. gs g = Some ((), True))) \<and> (\<forall>g g'. gs g = Some ((), True) \<and> gs g' = Some ((), True) \<longrightarrow> g = g')"
proof -
  have "one_holder l (mutex.holders gs)"
    using assms mutex.reach_holds [of "(l, gs)"] spinlock.reach_holds [of "(l, gs)"] caslock.reach_holds [of "(l, gs)"] by auto
  then show ?thesis unfolding one_holder_def using mutex.holders_Some [of gs _ "()"]
    by (auto split: if_splits)
qed


text \<open>When the constructor of a thread has returned, the new thread has set its identity and its name, has taken the
  callback out of the object and has notified exactly once, so that the object may be destroyed while the callback runs.\<close>

theorem thread_started:
  assumes "thread_reach tid name s" and "th_creator s = 1"
  shows "th_id s = tid \<and> th_kernel_name s = take 15 name \<and> \<not> th_cb s \<and> th_sem s = 0 \<and> 4 \<le> th_runner s"
  using thread_reach_inv [OF assms(1)] assms(2) by (auto simp: thread_inv_def split: if_splits)

theorem guards_exclude_witness:
  "\<exists>l gs. guards_reach (\<lambda>_ :: unit. Mutex_lock) Mutex_unlock False (l, gs) \<and> gs 0 = Some ((), True) \<and> gs 1 = Some ((), False) \<and>
     l \<and> (\<forall>g g'. gs g = Some ((), True) \<and> gs g' = Some ((), True) \<longrightarrow> g = g')"
proof -
  define acq where "acq = (\<lambda>_ :: unit. Mutex_lock)"
  have "guards_reach acq Mutex_unlock False (False, \<lambda>_. None)" by (rule guards_reach.init)
  moreover have "guard_new acq () 1 (False, \<lambda>_. None) = Some (True, [1 \<mapsto> ((), True)])"
    by (simp add: guard_new_def acq_def Mutex_lock_def)
  ultimately have "guards_reach acq Mutex_unlock False (True, [1 \<mapsto> ((), True)])" by (rule guards_reach.new)
  moreover have "guard_unlock Mutex_unlock 1 (True, [1 \<mapsto> ((), True)]) = Some (False, [1 \<mapsto> ((), False)])"
    by (simp add: guard_unlock_def Mutex_unlock_def)
  ultimately have "guards_reach acq Mutex_unlock False (False, [1 \<mapsto> ((), False)])" by (rule guards_reach.unlock)
  moreover have "guard_new acq () 0 (False, [1 \<mapsto> ((), False)]) = Some (True, [1 \<mapsto> ((), False), 0 \<mapsto> ((), True)])"
    by (simp add: guard_new_def acq_def Mutex_lock_def)
  ultimately have r: "guards_reach acq Mutex_unlock False (True, [1 \<mapsto> ((), False), 0 \<mapsto> ((), True)])" by (rule guards_reach.new)
  note e = guards_exclude [OF disjI1, OF r [unfolded acq_def], THEN conjunct2]
  show ?thesis
    by (intro exI [of _ True] exI [of _ "[1 \<mapsto> ((), False), 0 \<mapsto> ((), True)]"] conjI,
        rule r [unfolded acq_def], simp, simp, simp, rule e)
qed


theorem thread_started_witness:
  "\<exists>s. thread_reach 42 ''worker'' s \<and> th_creator s = 1 \<and> th_id s = 42 \<and> th_kernel_name s = ''worker'' \<and> \<not> th_called s"
proof -
  define st where "st = (\<lambda>id kn cb sem cr r. \<lparr>th_id = id, th_name = ''worker'', th_thread = True, th_cb = cb, th_sem = sem,
    th_creator = cr, th_runner = r, th_kernel_name = kn, th_called = False\<rparr>)"
  define s1 where "s1 = st 42 ''worker'' False 1 0 4"
  define s2 where "s2 = st 42 ''worker'' False 0 1 4"
  have "Thread_new 0 ''worker'' = Inr (st (-1) [] True 0 0 0)" by (simp add: Thread_new_def st_def)
  then have "thread_reach 42 ''worker'' (st (-1) [] True 0 0 0)" by (rule thread_reach.new)
  moreover have "run_step 42 (st (-1) [] True 0 0 0) = Some (st 42 [] True 0 0 1)" by (simp add: run_step_def st_def)
  ultimately have "thread_reach 42 ''worker'' (st 42 [] True 0 0 1)" by (rule thread_reach.run)
  moreover have "run_step 42 (st 42 [] True 0 0 1) = Some (st 42 ''worker'' True 0 0 2)" by (simp add: run_step_def st_def)
  ultimately have "thread_reach 42 ''worker'' (st 42 ''worker'' True 0 0 2)" by (rule thread_reach.run)
  moreover have "run_step 42 (st 42 ''worker'' True 0 0 2) = Some (st 42 ''worker'' False 0 0 3)"
    by (simp add: run_step_def st_def)
  ultimately have "thread_reach 42 ''worker'' (st 42 ''worker'' False 0 0 3)" by (rule thread_reach.run)
  moreover have "run_step 42 (st 42 ''worker'' False 0 0 3) = Some s1"
    by (simp add: run_step_def st_def s1_def sem_notify_def)
  ultimately have "thread_reach 42 ''worker'' s1" by (rule thread_reach.run)
  moreover have "creator_step s1 = Some s2"
    by (simp add: s2_def s1_def st_def creator_step_def sem_wait_def)
  ultimately have s2: "thread_reach 42 ''worker'' s2" by (rule thread_reach.creator)
  have "th_creator s2 = 1" "\<not> th_called s2" by (simp_all add: s2_def st_def)
  with s2 thread_started [OF s2] show ?thesis by (intro exI [of _ s2]) simp
qed

end
