(* ===== verification/Spec2Isabelle.thy ===== *)
theory Spec2Isabelle
  imports Byte_Array_Spec Byte_Codec Request_Scan Request_Safety Response_Scan Uri_Scan Address_Spec Log_Config Application Locks
begin

text \<open>
  Azure, a C++ server framework: a scheduler of user-space fibers on worker threads, an epoll-driven I/O manager
  with timers, hooked system calls that block the fiber instead of the thread, and on top of them sockets, a TCP server,
  a byte buffer with its codecs, HTTP messages, servlets, an HTTP client with a connection pool, addresses, URIs, logging,
  configuration and the start of a program.

  \<^bold>\<open>How the parts interact.\<close> A worker thread of \<open>Scheduler\<close> takes a task, a fiber or a callback, and switches into it;
  when there is none it runs the idle fiber, which in \<open>IOManager\<close> waits in epoll, fires the expired timers of
  \<open>TimerManager\<close> and schedules the fibers that wait for a descriptor. A hooked call (\<open>hook.cpp\<close>) on a socket that
  \<open>FdManager\<close> knows registers the fiber for the descriptor, adds a timer for the timeout and yields. A server session
  reads a request through \<open>SocketStream\<close> with the parser, dispatches it to a servlet and writes the response.

  A \<open>TcpServer\<close> binds and listens on its sockets, accepts clients on one manager and hands each to another. A program
  (\<open>Application\<close>) reads its command line, loads the YAML files of a directory into the table of variables, whose
  listeners rebuild the loggers, and creates the configured servers.

  \<^bold>\<open>Theories.\<close>
    \<^item> \<open>Prelude\<close>, \<open>Ordered\<close>, \<open>C_String\<close>: machine types, results of fallible code, \<open>size_t\<close> subtraction, \<open>memcpy\<close>, printed
      numbers; \<open>std::set\<close> and \<open>std::map\<close> with the contract of a comparator (locales \<open>strict_weak_order\<close> and
      \<open>strict_total_order\<close>, interpreted for timers, header names, strings and log definitions); C strings.
    \<^item> \<open>Byte_Array\<close>, \<open>Byte_Array_IO\<close>, \<open>Byte_Codec\<close>: \<open>src/bytearray.cpp\<close>, \<open>include/endian_.h\<close>. The nodes are a list of
      equally long byte lists, \<open>m_cur\<close> an index. \<open>Byte_Cursor\<close> and \<open>Simulation\<close> hold the abstract byte list with a
      position (locale \<open>byte_cursor\<close>) and the simulation argument; \<open>Byte_Array_Spec\<close> states the refinement.
    \<^item> \<open>Timer\<close>: \<open>src/timer.cpp\<close>. Timers on a heap, the set as the ordered list of their addresses.
    \<^item> \<open>Fiber\<close>, \<open>Scheduler\<close>: \<open>src/fiber.cpp\<close>, \<open>src/scheduler.cpp\<close>. Fiber states with the thread-local pointers; the worker
      loop as steps between which other threads run.
    \<^item> \<open>IO_Manager\<close>, \<open>Hook\<close>: \<open>src/iomanager.cpp\<close>, \<open>src/fdmanager.cpp\<close>, \<open>src/hook.cpp\<close>. The kernel's interest list is
      tracked; the outcomes of system calls are lists of inputs.
    \<^item> \<open>Http\<close>, \<open>Stream_IO\<close>, \<open>Servlet\<close>, \<open>Http_Session\<close>, \<open>Http_Connection\<close>: \<open>src/http\<close>, \<open>src/stream.cpp\<close>,
      \<open>src/socket_stream.cpp\<close>. They take the scanners as arguments; what the client needs of the scanner of chunk headers
      is the locale \<open>chunk_scanner\<close>.
    \<^item> \<open>Ragel\<close>: the code that Ragel generates, a loop over characters with a jump per state and character, and lemmas for
      stretches of input. \<open>Http11_Machine\<close>, \<open>Httpclient_Machine\<close>, \<open>Uri_Machine\<close>: the states and transitions of
      \<open>include/http/http11_parser.rl.cc\<close>, \<open>include/http/httpclient_parser.rl.cc\<close> and \<open>src/uri.rl.cc\<close>, in the order of these files.
      \<open>Http11_Parser\<close>, \<open>Httpclient_Parser\<close>: the parser structs, the actions and the operations around the machines.
      \<open>Request_Scan\<close>, \<open>Request_Safety\<close>: what the request parser makes of a written request, and that it stays inside its
      buffer (locale \<open>jump_property\<close>). \<open>Response_Scan\<close>: chunk headers, which interpret \<open>chunk_scanner\<close>.
    \<^item> \<open>Address\<close>, \<open>Address_Spec\<close>: \<open>src/address.cpp\<close>. \<open>Uri\<close>, \<open>Uri_Scan\<close>: the methods of \<open>Uri\<close> and \<open>Uri::Create\<close>.
    \<^item> \<open>Socket\<close>, \<open>Tcp_Server\<close>: \<open>src/socket.cpp\<close>, \<open>src/tcp_server.cpp\<close>, over the hooked calls and the descriptor table.
    \<^item> \<open>Locks\<close>: \<open>include/mutex.h\<close>, \<open>src/mutex.cpp\<close>, \<open>src/thread.cpp\<close>. The contract of a lock under its scoped guards is the
      locale \<open>lock_contract\<close>, which \<open>exclusive_lock\<close> gives for the three exclusive locks and \<open>RWMutex\<close> on its own.
    \<^item> \<open>Log_Format\<close>, \<open>Logger\<close>, \<open>Log_Config\<close>: \<open>src/log.cpp\<close>; the last holds its YAML texts.
    \<^item> \<open>Yaml\<close>, \<open>Config\<close>: \<open>include/config.h\<close>, \<open>src/config.cpp\<close>. Nodes are data; the values of all types are one union.
    \<^item> \<open>Env\<close>, \<open>File_System\<close>, \<open>Application\<close>: \<open>src/env.cpp\<close>, \<open>FSUtil\<close> of \<open>src/util.cpp\<close>, \<open>src/application.cpp\<close>,
      \<open>src/daemon.cpp\<close>.

  \<^bold>\<open>What the lemmas show.\<close> Byte buffer: refinement of a byte list with a position for every legal sequence of calls, round
  trips of every encoding, the iovec lists. Timers: order and liveness of the set, due timers fire in order. Scheduler:
  the counters agree with the workers in every reachable state, so stopping means no work is left. I/O manager: pending
  count, kernel list and contexts agree, a waiter is woken exactly once. Hook: the retry loop returns the first real
  outcome. HTTP: a written request passes the generated
  scanner and arrives, the scanner stays inside its buffer, what is written is read back, bodies arrive as announced, chunked bodies are decoded across reads,
  keep-alive requests are answered in order, the pool's books balance. Addresses: masks, text and ports. URIs: the text
  of a URI is read back by \<open>Uri::Create\<close>. Logging: patterns
  are parsed into their parts, every reachable state writes without a null formatter, a changed configuration yields
  the described loggers. Configuration: containers are read back from their text, variables keep their types, a document
  sets exactly the variables its members name. Sockets and servers: a connected socket has a descriptor, binding is all
  or nothing, every client is handed over once. Locks: at most one guard holds an exclusive lock. Start: the command
  lines that are accepted and what a start then does. The properties that carry the identifiers C1, C2, \<open>\<dots>\<close> are stated in the theory of their
  component; several of them state where the code departs from its intent.

  \<^bold>\<open>Bounds and fuel.\<close> No definition runs on fuel. Loops that read input recurse over the list of outcomes of the system
  calls and return \<open>None\<close> when the list is too short for the code to return; loops over data have a measure. Sizes are
  natural numbers; every subtraction that can leave \<open>size_t\<close> is written with \<open>size_sub\<close>, and machine integers whose
  width matters are words.

  \<^bold>\<open>Not modelled.\<close> Memory exhaustion, the machine context of a fiber, the mutexes inside the components (a locked
  section is one step; the locks themselves are in \<open>Locks\<close>), third-party libraries (yaml-cpp, boost, the resolver), and the glue listed as
  not modelled in the manifest.
\<close>

section \<open>From a document to the loggers\<close>

text \<open>The variable \<open>logs\<close> of \<open>src/log.cpp\<close> with its type and the listener \<open>LogIniter\<close> adds.\<close>

definition logs_type :: "yaml_lib \<Rightarrow> yaml_as \<Rightarrow> log_define list config_type" where
  "logs_type lib ya = \<lparr>ct_name = ''set<LogDefine>'', ct_from = cast_oset log_define_less lib (cast_log_define lib ya),
     ct_to = uncast_seq lib (\<lambda>ld. Some (uncast_log_define lib ya ld))\<rparr>"

definition g_log_defines :: "yaml_lib \<Rightarrow> yaml_as \<Rightarrow> (log_define list, log_state) config_var" where
  "g_log_defines lib ya =
     snd (addListener 0 (ConfigVar_new ''logs'' ''logs configuration'' (logs_type lib ya) [])
       (\<lambda>old_value new_value ls. (LogIniter_listener old_value new_value ls, False)))"

lemma oset_sorted: "sorted_wrt log_define_less xs \<Longrightarrow> sorted_wrt log_define_less (foldl (\<lambda>s x. oset_insert log_define_less x s) xs ds)"
  by (induction ds arbitrary: xs) (simp_all add: ld_ord.oset_insert_sorted)

lemma logs_sorted: "ct_from (logs_type lib ya) t = Some new \<Longrightarrow> sorted_wrt log_define_less new"
  by (auto simp: logs_type_def cast_oset_def oset_sorted split: option.splits)

lemma configured_same: "configured xs xs ls ls"
  by (simp add: configured_def)

lemma logs_fromString:
  assumes "log_reachable ls" and "sorted_wrt log_define_less old" and "ct_from (logs_type lib ya) t = Some new"
  shows "\<exists>cv' ls'. ConfigVar_fromString ((g_log_defines lib ya)\<lparr>cv_val := old\<rparr>) t ls = (cv', ls', False) \<and>
    cv_val cv' = new \<and> configured old new ls ls'"
  using assms listener_configured [OF assms(1,2) logs_sorted [OF assms(3)]]
  by (simp add: ConfigVar_fromString_def setValue_def g_log_defines_def addListener_def ConfigVar_new_def configured_same)


text \<open>A library for one document with one definition.\<close>

definition sample_define :: log_define where
  "sample_define = \<lparr>ld_name = ''system'', ld_level = INFO, ld_formatter = [], ld_appenders =
     [\<lparr>lad_type = 1, lad_level = UNKNOWN, lad_formatter = [], lad_file = ''s.log''\<rparr>]\<rparr>"

definition document_lib :: yaml_lib where
  "document_lib = \<lparr>yl_load = (\<lambda>s. Some (if s = ''all'' then YSeq [define_node sample_as sample_define] else define_node sample_as sample_define)),
     yl_emit = (\<lambda>n. case n of YSeq _ \<Rightarrow> ''all'' | _ \<Rightarrow> ''one''),
     yl_at = (\<lambda>n i. case n of YSeq ns \<Rightarrow> ns ! i | _ \<Rightarrow> YNull)\<rparr>"


end
